(* ===== verification/Prelude.thy ===== *)
theory Prelude
  imports Complex_Main "HOL-Library.Sublist" "HOL-Library.Monad_Syntax"
begin

text \<open>
  Shared vocabulary of the development: the \<open>named_theorems\<close> collections that the
  component theories fill and use, generic facts on lists and options, and two interfaces
  stated as locales that several components provide:
  \<^item> \<open>codec\<close>, a printer and a parser that invert each other (\<open>as_str\<close> / \<open>parse\<close>);
  \<^item> \<open>guarded_system\<close>, an initial state, a step relation and an invariant that every
    step keeps, with the lift to all reachable states proved once.
\<close>

named_theorems float_mono "monotonicity of the rounded float operations"
named_theorems float_sign "sign and range facts of the rounded float operations"
named_theorems axis_simps "facts about the affinity axes after an operation"
named_theorems queue_simps "frame facts of the chat queue transactions"

section \<open>Options and lists\<close>

lemma option_bind_SomeD:
  "Option.bind x f = Some y \<Longrightarrow> \<exists>z. x = Some z \<and> f z = Some y"
  by (cases x) auto

text \<open>\<open>Option::or_else\<close>: the first of two options that is there.\<close>

definition or_else :: "'a option \<Rightarrow> 'a option \<Rightarrow> 'a option" where
  "or_else a b = (case a of Some x \<Rightarrow> Some x | None \<Rightarrow> b)"

text \<open>
  \<open>push_unique\<close> is the loop body several parts of the code share: append a value to the
  output unless it is there already.
\<close>

definition push_unique :: "'a \<Rightarrow> 'a list \<Rightarrow> 'a list" where
  "push_unique x out = (if x \<in> set out then out else out @ [x])"

lemma set_push_unique [simp]: "set (push_unique x out) = insert x (set out)"
  by (auto simp: push_unique_def)

lemma distinct_push_unique [simp]: "distinct out \<Longrightarrow> distinct (push_unique x out)"
  by (auto simp: push_unique_def)

lemma prefix_push_unique: "prefix out (push_unique x out)"
  by (simp add: push_unique_def)

definition push_all_unique :: "'a list \<Rightarrow> 'a list \<Rightarrow> 'a list" where
  "push_all_unique xs out = fold push_unique xs out"

lemma push_all_unique_simps [simp]:
  "push_all_unique [] out = out"
  "push_all_unique (x # xs) out = push_all_unique xs (push_unique x out)"
  by (simp_all add: push_all_unique_def)

lemma set_push_all_unique [simp]: "set (push_all_unique xs out) = set xs \<union> set out"
  by (induction xs arbitrary: out) auto

lemma distinct_push_all_unique [simp]: "distinct out \<Longrightarrow> distinct (push_all_unique xs out)"
  by (induction xs arbitrary: out) auto

lemma prefix_push_all_unique: "prefix out (push_all_unique xs out)"
proof (induction xs arbitrary: out)
  case Nil
  show ?case by simp
next
  case (Cons x xs)
  have "prefix out (push_unique x out)" by (rule prefix_push_unique)
  also have "prefix (push_unique x out) (push_all_unique xs (push_unique x out))"
    by (rule Cons.IH)
  finally show ?case by simp
qed

lemma find_SomeD: "List.find P xs = Some x \<Longrightarrow> x \<in> set xs \<and> P x"
  by (auto simp: find_Some_iff)

section \<open>A printer and a parser\<close>

locale codec =
  fixes print :: "'a \<Rightarrow> 'b"
    and parse :: "'b \<Rightarrow> 'a option"
  assumes parse_print: "parse (print x) = Some x"
    and parse_sound: "parse s = Some x \<Longrightarrow> print x = s"
begin

lemma print_inj: "print x = print y \<longleftrightarrow> x = y"
  by (metis parse_print option.inject)

lemma parse_iff: "parse s = Some x \<longleftrightarrow> s = print x"
  using parse_print parse_sound by blast

end

section \<open>Invariants of reachable states\<close>

inductive reach :: "('s \<Rightarrow> bool) \<Rightarrow> ('s \<Rightarrow> 's \<Rightarrow> bool) \<Rightarrow> 's \<Rightarrow> bool"
  for init :: "'s \<Rightarrow> bool" and step :: "'s \<Rightarrow> 's \<Rightarrow> bool" where
  reach_init: "init s \<Longrightarrow> reach init step s"
| reach_step: "reach init step s \<Longrightarrow> step s t \<Longrightarrow> reach init step t"

locale guarded_system =
  fixes init :: "'s \<Rightarrow> bool"
    and step :: "'s \<Rightarrow> 's \<Rightarrow> bool"
    and inv :: "'s \<Rightarrow> bool"
  assumes inv_init: "init s \<Longrightarrow> inv s"
    and inv_step: "step s t \<Longrightarrow> inv s \<Longrightarrow> inv t"
begin

lemma inv_reach: "reach init step s \<Longrightarrow> inv s"
  by (induction rule: reach.induct) (auto intro: inv_init inv_step)

lemma inv_steps: "step\<^sup>*\<^sup>* s t \<Longrightarrow> inv s \<Longrightarrow> inv t"
  by (induction rule: rtranclp_induct) (auto intro: inv_step)

end

end
