(* ===== verification/Rust_Float.thy ===== *)
theory Rust_Float
  imports Prelude
begin

text \<open>
  The program's \<open>f64\<close>: IEEE 754 binary64 with round to nearest, ties to even.
  A float is the real number it denotes, and every arithmetic operation is the exact
  operation followed by the rounding \<open>rnd64\<close>. A decimal literal of the source is the
  rounding of the decimal it is written as (\<open>flit\<close>). Subnormals are modelled (no result
  has a bit below \<open>2 ^ -1074\<close>); not-a-number, the infinities and the sign of zero are
  not: the values of the program's formulas stay far below the overflow threshold.

  The locale \<open>rounding\<close> states what the proofs use of a rounding function; its
  interpretation \<open>f64\<close> proves it of \<open>rnd64\<close>.
\<close>

type_synonym f64 = real

section \<open>The rounding function\<close>

definition round_half_even :: "real \<Rightarrow> int" where
  "round_half_even y =
     (let f = \<lfloor>y\<rfloor>; r = y - of_int f
      in if r < 1/2 then f else if 1/2 < r then f + 1 else if even f then f else f + 1)"

definition ulp_exp :: "real \<Rightarrow> int" where
  "ulp_exp x = max (-1074) (\<lfloor>log 2 \<bar>x\<bar>\<rfloor> - 52)"

definition rnd64 :: "real \<Rightarrow> real" where
  "rnd64 x = (if x = 0 then 0
     else of_int (round_half_even (x / 2 powr ulp_exp x)) * 2 powr ulp_exp x)"

lemma round_half_even_of_int [simp]: "round_half_even (of_int n) = n"
  by (simp add: round_half_even_def Let_def)

lemma round_half_even_bounds: "\<bar>of_int (round_half_even y) - y\<bar> \<le> 1/2"
proof -
  have "of_int \<lfloor>y\<rfloor> \<le> y" "y < of_int \<lfloor>y\<rfloor> + 1" by linarith+
  then show ?thesis by (simp add: round_half_even_def Let_def abs_le_iff split: if_split)
qed

lemma round_half_even_mono:
  assumes "x \<le> y"
  shows "round_half_even x \<le> round_half_even y"
proof (cases "\<lfloor>x\<rfloor> = \<lfloor>y\<rfloor>")
  case True
  with assms show ?thesis by (auto simp: round_half_even_def Let_def)
next
  case False
  with floor_mono [OF assms] have "\<lfloor>x\<rfloor> + 1 \<le> \<lfloor>y\<rfloor>" by linarith
  then show ?thesis by (auto simp: round_half_even_def Let_def)
qed

lemma round_half_even_uminus: "round_half_even (- y) = - round_half_even y"
proof (cases "y = of_int \<lfloor>y\<rfloor>")
  case True
  have "round_half_even (- of_int \<lfloor>y\<rfloor>) = - \<lfloor>y\<rfloor>"
    using round_half_even_of_int [of "- \<lfloor>y\<rfloor>"] by simp
  with True show ?thesis
    using round_half_even_of_int [of "\<lfloor>y\<rfloor>"] by simp
next
  case False
  then have "of_int \<lfloor>y\<rfloor> < y" "y < of_int \<lfloor>y\<rfloor> + 1"
    by linarith+
  then have "\<lfloor>- y\<rfloor> = - \<lfloor>y\<rfloor> - 1" by linarith
  then show ?thesis by (auto simp: round_half_even_def Let_def)
qed

section \<open>Exponents\<close>

text \<open>The binade of a positive real: \<open>2 ^ n \<le> x < 2 ^ (n + 1)\<close>.\<close>

lemma log2_floor_bounds:
  assumes "0 < x"
  shows "2 powr \<lfloor>log 2 x\<rfloor> \<le> x" and "x < 2 powr (\<lfloor>log 2 x\<rfloor> + 1)"
proof -
  have x: "2 powr log 2 x = x" using assms by simp
  have "2 powr of_int \<lfloor>log 2 x\<rfloor> \<le> 2 powr log 2 x" by (intro powr_mono) auto
  with x show "2 powr \<lfloor>log 2 x\<rfloor> \<le> x" by simp
  have "2 powr log 2 x < 2 powr (of_int \<lfloor>log 2 x\<rfloor> + 1)" by (intro powr_less_mono) auto
  with x show "x < 2 powr (\<lfloor>log 2 x\<rfloor> + 1)" by simp
qed

lemma ulp_exp_ge: "-1074 \<le> ulp_exp x"
  by (simp add: ulp_exp_def)

lemma ulp_exp_uminus [simp]: "ulp_exp (- x) = ulp_exp x"
  by (simp add: ulp_exp_def)

lemma ulp_exp_mono:
  assumes "0 < x" "x \<le> y"
  shows "ulp_exp x \<le> ulp_exp y"
proof -
  have "log 2 x \<le> log 2 y" using assms by simp
  then have "\<lfloor>log 2 x\<rfloor> \<le> \<lfloor>log 2 y\<rfloor>" by (rule floor_mono)
  with assms show ?thesis by (simp add: ulp_exp_def)
qed

lemma less_ulp_exp:
  assumes "0 < x"
  shows "x < 2 powr (ulp_exp x + 53)"
proof -
  have "x < 2 powr (\<lfloor>log 2 x\<rfloor> + 1)" using assms by (rule log2_floor_bounds)
  also have "\<dots> \<le> 2 powr (ulp_exp x + 53)"
    using assms by (intro powr_mono) (auto simp: ulp_exp_def)
  finally show ?thesis .
qed

lemma ulp_exp_le:
  assumes "0 < x" "-1074 < ulp_exp x"
  shows "2 powr (ulp_exp x + 52) \<le> x"
proof -
  have "ulp_exp x + 52 = \<lfloor>log 2 x\<rfloor>" using assms by (simp add: ulp_exp_def)
  then have "of_int (ulp_exp x) + (52::real) = of_int \<lfloor>log 2 x\<rfloor>" by linarith
  with log2_floor_bounds(1) [OF \<open>0 < x\<close>] show ?thesis by simp
qed

lemma ulp_exp_upper:
  assumes "x \<noteq> 0" "\<bar>x\<bar> < 2 powr (n + 53)" "-1074 \<le> n"
  shows "ulp_exp x \<le> n"
proof -
  have "log 2 \<bar>x\<bar> < n + 53"
    using assms by (subst log_less_iff) auto
  then have "\<lfloor>log 2 \<bar>x\<bar>\<rfloor> < n + 53" by linarith
  with assms show ?thesis by (simp add: ulp_exp_def)
qed

section \<open>Properties of the rounding\<close>

lemma rnd64_0 [simp]: "rnd64 0 = 0"
  by (simp add: rnd64_def)

lemma rnd64_uminus: "rnd64 (- x) = - rnd64 x"
  using round_half_even_uminus [of "x / 2 powr ulp_exp x"] by (simp add: rnd64_def)

text \<open>Every multiple of a power of two with a significand of at most 53 bits is exact.\<close>

lemma rnd64_exact:
  fixes m n :: int
  assumes "\<bar>m\<bar> < 2 ^ 53" "-1074 \<le> n"
  shows "rnd64 (of_int m * 2 powr n) = of_int m * 2 powr n"
proof (cases "m = 0")
  case False
  define x :: real where "x = of_int m * 2 powr of_int n"
  have "x \<noteq> 0" using False by (simp add: x_def)
  have "of_int \<bar>m\<bar> < (2::real) ^ 53" using assms(1) by (metis of_int_less_iff of_int_numeral of_int_power)
  then have "\<bar>x\<bar> < 2 ^ 53 * 2 powr of_int n" by (simp add: x_def abs_mult)
  also have "\<dots> = 2 powr (of_int n + 53)" by (simp add: powr_add powr_numeral)
  finally have le: "ulp_exp x \<le> n" using \<open>x \<noteq> 0\<close> assms(2) by (intro ulp_exp_upper) auto
  define k where "k = nat (n - ulp_exp x)"
  have "x / 2 powr ulp_exp x = of_int m * 2 powr (of_int n - of_int (ulp_exp x))"
    by (simp add: x_def powr_diff)
  also have "of_int n - of_int (ulp_exp x) = real k" using le by (simp add: k_def)
  also have "of_int m * 2 powr real k = of_int (m * 2 ^ k)" by (simp add: powr_realpow)
  finally have "x / 2 powr ulp_exp x = of_int (m * 2 ^ k)" .
  then have "rnd64 x = x" using \<open>x \<noteq> 0\<close>
    by (simp only: rnd64_def round_half_even_of_int if_False) (simp add: field_simps)
  then show ?thesis by (simp add: x_def)
qed simp

lemma rnd64_of_int:
  assumes "\<bar>m\<bar> < 2 ^ 53"
  shows "rnd64 (of_int m) = of_int m"
  using rnd64_exact [OF assms, of 0] by simp

lemma rnd64_half_ulp: "\<bar>rnd64 x - x\<bar> \<le> 2 powr ulp_exp x / 2"
proof (cases "x = 0")
  case False
  define p :: real where "p = 2 powr ulp_exp x"
  have "0 < p" by (simp add: p_def)
  have "\<bar>of_int (round_half_even (x / p)) - x / p\<bar> * p \<le> 1/2 * p"
    using \<open>0 < p\<close> by (intro mult_right_mono round_half_even_bounds) auto
  also have "\<bar>of_int (round_half_even (x / p)) - x / p\<bar> * p
      = \<bar>(of_int (round_half_even (x / p)) - x / p) * p\<bar>"
    using \<open>0 < p\<close> by (simp add: abs_mult)
  also have "(of_int (round_half_even (x / p)) - x / p) * p
      = of_int (round_half_even (x / p)) * p - x"
    using \<open>0 < p\<close> by (simp add: left_diff_distrib)
  finally show ?thesis using False by (simp add: rnd64_def p_def)
qed simp

text \<open>
  The error bound: half a unit in the last place, relative for normal numbers and absolute
  for subnormals.
\<close>

lemma rnd64_error: "\<bar>rnd64 x - x\<bar> \<le> \<bar>x\<bar> / 2 ^ 53 + 1 / 2 ^ 1075"
proof (cases "x = 0")
  case False
  have half: "\<bar>rnd64 x - x\<bar> \<le> 2 powr ulp_exp x / 2" by (rule rnd64_half_ulp)
  show ?thesis
  proof (cases "ulp_exp x = -1074")
    case True
    have "2 powr (-1074) / 2 = (1::real) / 2 ^ 1075"
      by (simp add: powr_minus_divide powr_numeral)
    with half True have "\<bar>rnd64 x - x\<bar> \<le> 1 / 2 ^ 1075" by simp
    moreover have "0 \<le> \<bar>x\<bar> / 2 ^ 53" by simp
    ultimately show ?thesis by linarith
  next
    case False
    with ulp_exp_ge [of x] have "-1074 < ulp_exp \<bar>x\<bar>" by (simp add: ulp_exp_def)
    then have "2 powr (ulp_exp x + 52) \<le> \<bar>x\<bar>"
      using ulp_exp_le [of "\<bar>x\<bar>"] \<open>x \<noteq> 0\<close> by (simp add: ulp_exp_def)
    then have "2 powr ulp_exp x * 2 ^ 52 \<le> \<bar>x\<bar>" by (simp add: powr_add powr_numeral)
    then have "2 powr ulp_exp x / 2 \<le> \<bar>x\<bar> / 2 ^ 53" by simp
    moreover have "0 \<le> (1::real) / 2 ^ 1075" by simp
    ultimately show ?thesis using half by linarith
  qed
qed simp

lemma rnd64_pos_upper:
  assumes "0 < x"
  shows "rnd64 x \<le> 2 powr (ulp_exp x + 53)"
proof -
  define p :: real where "p = 2 powr ulp_exp x"
  have "0 < p" by (simp add: p_def)
  have "x < 2 ^ 53 * p"
    using less_ulp_exp [OF assms] by (simp add: p_def powr_add powr_numeral mult.commute)
  then have "x / p \<le> of_int (2 ^ 53)" using \<open>0 < p\<close> by (simp add: divide_le_eq)
  then have "round_half_even (x / p) \<le> 2 ^ 53"
    using round_half_even_mono round_half_even_of_int by metis
  then have "of_int (round_half_even (x / p)) \<le> (2 ^ 53 :: real)"
    by (metis of_int_le_iff of_int_numeral of_int_power)
  then have "of_int (round_half_even (x / p)) * p \<le> 2 ^ 53 * p"
    using \<open>0 < p\<close> by (intro mult_right_mono) auto
  then show ?thesis using assms by (simp add: rnd64_def p_def powr_add powr_numeral mult.commute)
qed

lemma rnd64_pos_lower:
  assumes "0 < x" "-1074 < ulp_exp x"
  shows "2 powr (ulp_exp x + 52) \<le> rnd64 x"
proof -
  define p :: real where "p = 2 powr ulp_exp x"
  have "0 < p" by (simp add: p_def)
  have "2 ^ 52 * p \<le> x"
    using ulp_exp_le [OF assms] by (simp add: p_def powr_add powr_numeral mult.commute)
  then have "of_int (2 ^ 52) \<le> x / p" using \<open>0 < p\<close> by (simp add: le_divide_eq)
  then have "2 ^ 52 \<le> round_half_even (x / p)"
    using round_half_even_mono round_half_even_of_int by metis
  then have "(2 ^ 52 :: real) \<le> of_int (round_half_even (x / p))"
    by (metis of_int_le_iff of_int_numeral of_int_power)
  then have "2 ^ 52 * p \<le> of_int (round_half_even (x / p)) * p"
    using \<open>0 < p\<close> by (intro mult_right_mono) auto
  then show ?thesis using assms by (simp add: rnd64_def p_def powr_add powr_numeral mult.commute)
qed

lemma rnd64_mono_pos:
  assumes "0 < x" "x \<le> y"
  shows "rnd64 x \<le> rnd64 y"
proof (cases "ulp_exp x = ulp_exp y")
  case True
  have "x / 2 powr ulp_exp x \<le> y / 2 powr ulp_exp x"
    using assms by (intro divide_right_mono) auto
  from round_half_even_mono [OF this] show ?thesis
    using assms True by (simp add: rnd64_def)
next
  case False
  with ulp_exp_mono [OF assms] have lt: "ulp_exp x < ulp_exp y" by simp
  have "rnd64 x \<le> 2 powr (ulp_exp x + 53)" using assms by (intro rnd64_pos_upper)
  also have "\<dots> \<le> 2 powr (ulp_exp y + 52)" using lt by (intro powr_mono) auto
  also have "\<dots> \<le> rnd64 y"
    using assms lt ulp_exp_ge [of x] by (intro rnd64_pos_lower) auto
  finally show ?thesis .
qed

lemma rnd64_nonneg:
  assumes "0 \<le> x"
  shows "0 \<le> rnd64 x"
proof -
  have "round_half_even 0 \<le> round_half_even (x / 2 powr ulp_exp x)"
    using assms by (intro round_half_even_mono) auto
  moreover have "round_half_even 0 = 0" using round_half_even_of_int [of 0] by simp
  ultimately show ?thesis by (simp add: rnd64_def)
qed

lemma rnd64_mono:
  assumes "x \<le> y"
  shows "rnd64 x \<le> rnd64 y"
proof -
  consider "0 < x" | "x \<le> 0" "0 \<le> y" | "y < 0" by linarith
  then show ?thesis
  proof cases
    case 1
    then show ?thesis using assms by (rule rnd64_mono_pos)
  next
    case 2
    then show ?thesis
      using rnd64_nonneg [of y] rnd64_nonneg [of "- x"] by (simp add: rnd64_uminus)
  next
    case 3
    then show ?thesis
      using assms rnd64_mono_pos [of "- y" "- x"] by (simp add: rnd64_uminus)
  qed
qed

lemma rnd64_idem: "rnd64 (rnd64 x) = rnd64 x"
proof (cases "x = 0")
  case False
  define m where "m = round_half_even (x / 2 powr ulp_exp x)"
  have x: "rnd64 x = of_int m * 2 powr ulp_exp x" using False by (simp add: rnd64_def m_def)
  have p: "(0::real) < 2 powr ulp_exp x" by simp
  have up: "\<bar>y\<bar> * 2 powr ulp_exp x \<le> 2 powr (ulp_exp x + 53) \<Longrightarrow> \<bar>y\<bar> \<le> 2 ^ 53" for y :: real
    by (simp add: powr_add powr_numeral mult.commute)
  have "\<bar>rnd64 x\<bar> \<le> 2 powr (ulp_exp x + 53)"
    using rnd64_pos_upper [of x] rnd64_pos_upper [of "- x"] rnd64_nonneg [of x] rnd64_nonneg [of "- x"] False
    by (cases "0 < x") (auto simp: rnd64_uminus)
  then have "\<bar>real_of_int m\<bar> \<le> 2 ^ 53" using p by (intro up) (simp add: x abs_mult)
  then have m: "\<bar>m\<bar> \<le> 2 ^ 53" by (metis of_int_abs of_int_le_iff of_int_numeral of_int_power)
  show ?thesis
  proof (cases "\<bar>m\<bar> < 2 ^ 53")
    case True
    then show ?thesis unfolding x using ulp_exp_ge by (rule rnd64_exact)
  next
    case False
    with m have "m = 2 ^ 53 \<or> m = - (2 ^ 53)" by linarith
    then have "rnd64 x = of_int 1 * 2 powr of_int (ulp_exp x + 53)
        \<or> rnd64 x = of_int (-1) * 2 powr of_int (ulp_exp x + 53)"
      by (auto simp: x powr_add powr_numeral)
    then show ?thesis
      using rnd64_exact [of 1 "ulp_exp x + 53"] rnd64_exact [of "-1" "ulp_exp x + 53"] ulp_exp_ge [of x]
      by auto
  qed
qed simp

section \<open>What the proofs use of a rounding function\<close>

abbreviation slack :: real where
  "slack \<equiv> 1 / 1000000000000000"

locale rounding =
  fixes rnd :: "real \<Rightarrow> real"
  assumes rnd_mono: "x \<le> y \<Longrightarrow> rnd x \<le> rnd y"
    and rnd_error: "\<bar>rnd x - x\<bar> \<le> \<bar>x\<bar> / 2 ^ 53 + 1 / 2 ^ 1075"
    and rnd_of_int: "\<bar>n\<bar> < 2 ^ 53 \<Longrightarrow> rnd (of_int n) = of_int n"
    and rnd_uminus: "rnd (- x) = - rnd x"
begin

lemma rnd_0: "rnd 0 = 0"
  using rnd_of_int [of 0] by simp

lemma rnd_1: "rnd 1 = 1"
  using rnd_of_int [of 1] by simp

lemma rnd_nonneg: "0 \<le> x \<Longrightarrow> 0 \<le> rnd x"
  using rnd_mono [of 0 x] by (simp add: rnd_0)

lemma rnd_nonpos: "x \<le> 0 \<Longrightarrow> rnd x \<le> 0"
  using rnd_mono [of x 0] by (simp add: rnd_0)

lemma rnd_le_1: "x \<le> 1 \<Longrightarrow> rnd x \<le> 1"
  using rnd_mono [of x 1] by (simp add: rnd_1)

lemma rnd_ge_1: "1 \<le> x \<Longrightarrow> 1 \<le> rnd x"
  using rnd_mono [of 1 x] by (simp add: rnd_1)

text \<open>The form the error analyses use: a decimal slack that linear arithmetic handles well.\<close>

lemma rnd_close:
  assumes "\<bar>x\<bar> \<le> 4"
  shows "\<bar>rnd x - x\<bar> \<le> slack"
proof -
  have "\<bar>x\<bar> / 2 ^ 53 \<le> 4 / 2 ^ 53" using assms by (intro divide_right_mono) auto
  moreover have "(1::real) / 2 ^ 1075 \<le> 1 / 2 ^ 60"
    by (intro divide_left_mono power_increasing) auto
  ultimately have "\<bar>rnd x - x\<bar> \<le> 4 / 2 ^ 53 + 1 / 2 ^ 60" using rnd_error [of x] by linarith
  also have "\<dots> \<le> slack" by simp
  finally show ?thesis .
qed

end

interpretation f64: rounding rnd64
  by unfold_locales (fact rnd64_mono rnd64_error rnd64_of_int rnd64_uminus)+

section \<open>The operations of the program\<close>

definition flit :: "real \<Rightarrow> f64" where "flit x = rnd64 x"
definition fadd :: "f64 \<Rightarrow> f64 \<Rightarrow> f64" where "fadd x y = rnd64 (x + y)"
definition fsub :: "f64 \<Rightarrow> f64 \<Rightarrow> f64" where "fsub x y = rnd64 (x - y)"
definition fmul :: "f64 \<Rightarrow> f64 \<Rightarrow> f64" where "fmul x y = rnd64 (x * y)"
definition fdiv :: "f64 \<Rightarrow> f64 \<Rightarrow> f64" where "fdiv x y = rnd64 (x / y)"

text \<open>\<open>f64::clamp\<close>, \<open>f64::from\<close> of an integer, \<open>as i8\<close> (saturating, toward zero) and
  \<open>iter().sum()\<close>.\<close>

definition fclamp :: "f64 \<Rightarrow> f64 \<Rightarrow> f64 \<Rightarrow> f64" where
  "fclamp x lo hi = (if x < lo then lo else if hi < x then hi else x)"

definition f64_of_int :: "int \<Rightarrow> f64" where "f64_of_int n = rnd64 (of_int n)"

definition trunc_int :: "real \<Rightarrow> int" where
  "trunc_int x = (if 0 \<le> x then \<lfloor>x\<rfloor> else \<lceil>x\<rceil>)"

definition saturate :: "int \<Rightarrow> int \<Rightarrow> int \<Rightarrow> int" where
  "saturate lo hi n = max lo (min hi n)"

definition f64_as_i8 :: "f64 \<Rightarrow> int" where
  "f64_as_i8 x = saturate (-128) 127 (trunc_int x)"

definition f64_as_i64 :: "f64 \<Rightarrow> int" where
  "f64_as_i64 x = saturate (- (2 ^ 63)) (2 ^ 63 - 1) (trunc_int x)"

fun fsum :: "f64 list \<Rightarrow> f64 \<Rightarrow> f64" where
  "fsum [] acc = acc"
| "fsum (x # xs) acc = fsum xs (fadd acc x)"

fun fpowi :: "f64 \<Rightarrow> nat \<Rightarrow> f64" where
  "fpowi x 0 = 1"
| "fpowi x (Suc 0) = x"
| "fpowi x (Suc (Suc n)) = fmul x (fpowi x (Suc n))"

lemmas fop_defs = flit_def fadd_def fsub_def fmul_def fdiv_def

lemma fclamp_range [float_sign]: "lo \<le> hi \<Longrightarrow> lo \<le> fclamp x lo hi \<and> fclamp x lo hi \<le> hi"
  by (simp add: fclamp_def)

lemma fclamp_unit [simp]: "0 \<le> fclamp x 0 1" "fclamp x 0 1 \<le> 1"
  by (simp_all add: fclamp_def)

lemma fclamp_id: "lo \<le> x \<Longrightarrow> x \<le> hi \<Longrightarrow> fclamp x lo hi = x"
  by (simp add: fclamp_def)

lemma fclamp_mono: "x \<le> y \<Longrightarrow> lo \<le> hi \<Longrightarrow> fclamp x lo hi \<le> fclamp y lo hi"
  by (simp add: fclamp_def)

lemma fadd_mono [float_mono]: "x \<le> x' \<Longrightarrow> y \<le> y' \<Longrightarrow> fadd x y \<le> fadd x' y'"
  by (simp add: fadd_def f64.rnd_mono)

lemma fsub_mono [float_mono]: "x \<le> x' \<Longrightarrow> y' \<le> y \<Longrightarrow> fsub x y \<le> fsub x' y'"
  by (simp add: fsub_def f64.rnd_mono)

lemma fmul_mono [float_mono]:
  "0 \<le> x \<Longrightarrow> 0 \<le> y' \<Longrightarrow> x \<le> x' \<Longrightarrow> y \<le> y' \<Longrightarrow> fmul x y \<le> fmul x' y'"
  by (simp add: fmul_def f64.rnd_mono mult_mono')
    (meson f64.rnd_mono mult_left_mono mult_right_mono order_trans)

lemma fdiv_mono [float_mono]: "0 < y \<Longrightarrow> x \<le> x' \<Longrightarrow> fdiv x y \<le> fdiv x' y"
  by (simp add: fdiv_def f64.rnd_mono divide_right_mono)

lemma fadd_nonneg [float_sign]: "0 \<le> x \<Longrightarrow> 0 \<le> y \<Longrightarrow> 0 \<le> fadd x y"
  by (simp add: fadd_def f64.rnd_nonneg)

lemma fmul_nonneg [float_sign]: "0 \<le> x \<Longrightarrow> 0 \<le> y \<Longrightarrow> 0 \<le> fmul x y"
  by (simp add: fmul_def f64.rnd_nonneg)

lemma fmul_nonpos [float_sign]: "x \<le> 0 \<Longrightarrow> 0 \<le> y \<Longrightarrow> fmul x y \<le> 0"
  by (simp add: fmul_def f64.rnd_nonpos mult_nonpos_nonneg)

lemma fdiv_nonneg [float_sign]: "0 \<le> x \<Longrightarrow> 0 \<le> y \<Longrightarrow> 0 \<le> fdiv x y"
  by (simp add: fdiv_def f64.rnd_nonneg)

lemma fdiv_le_1 [float_sign]: "0 < y \<Longrightarrow> x \<le> y \<Longrightarrow> fdiv x y \<le> 1"
  by (simp add: fdiv_def f64.rnd_le_1)

lemma fmul_unit [float_sign]: "0 \<le> x \<Longrightarrow> x \<le> 1 \<Longrightarrow> 0 \<le> y \<Longrightarrow> y \<le> 1 \<Longrightarrow> fmul x y \<le> 1"
  by (simp add: fmul_def f64.rnd_le_1 mult_le_one)

lemma fadd_nonpos [float_sign]: "x \<le> 0 \<Longrightarrow> y \<le> 0 \<Longrightarrow> fadd x y \<le> 0"
  by (simp add: fadd_def f64.rnd_nonpos)

lemma fsub_nonneg [float_sign]: "y \<le> x \<Longrightarrow> 0 \<le> fsub x y"
  by (simp add: fsub_def f64.rnd_nonneg)

lemma fsub_nonpos [float_sign]: "x \<le> y \<Longrightarrow> fsub x y \<le> 0"
  by (simp add: fsub_def f64.rnd_nonpos)

lemma fop_0 [simp]: "fmul x 0 = 0" "fmul 0 x = 0" "fadd 0 0 = 0" "fdiv 0 x = 0" "fsub x x = 0"
  by (simp_all add: fop_defs)

lemma f64_of_int_exact [simp]: "\<bar>n\<bar> < 2 ^ 53 \<Longrightarrow> f64_of_int n = of_int n"
  by (simp add: f64_of_int_def rnd64_of_int)

lemma fsum_nonneg [float_sign]: "\<forall>x \<in> set xs. 0 \<le> x \<Longrightarrow> 0 \<le> acc \<Longrightarrow> 0 \<le> fsum xs acc"
  by (induction xs arbitrary: acc) (auto intro: fadd_nonneg)

lemma fpowi_nonneg [float_sign]: "0 \<le> x \<Longrightarrow> 0 \<le> fpowi x n"
  by (induction x n rule: fpowi.induct) (auto intro: fmul_nonneg)

text \<open>A float is a value the rounding leaves alone; every operation yields one.\<close>

definition is_f64 :: "real \<Rightarrow> bool" where
  "is_f64 x \<longleftrightarrow> rnd64 x = x"

lemma is_f64_ops [simp]:
  "is_f64 (flit x)" "is_f64 (fadd x y)" "is_f64 (fsub x y)" "is_f64 (fmul x y)" "is_f64 (fdiv x y)"
  "is_f64 0" "is_f64 1"
  using f64.rnd_1 by (simp_all add: is_f64_def fop_defs rnd64_idem)

lemma is_f64_lattice [simp]: "is_f64 x \<Longrightarrow> is_f64 y \<Longrightarrow> is_f64 (max x y)"
  "is_f64 x \<Longrightarrow> is_f64 y \<Longrightarrow> is_f64 (min x y)"
  by (simp_all add: max_def min_def)

lemma is_f64_fclamp [simp]: "is_f64 x \<Longrightarrow> is_f64 lo \<Longrightarrow> is_f64 hi \<Longrightarrow> is_f64 (fclamp x lo hi)"
  by (simp add: fclamp_def)

text \<open>Adding something nonpositive never raises a float, adding something nonnegative never
  lowers it, and a factor in the unit interval never lifts a nonnegative one.\<close>

lemma fadd_le: "is_f64 x \<Longrightarrow> y \<le> 0 \<Longrightarrow> fadd x y \<le> x"
  using f64.rnd_mono [of "x + y" x] by (simp add: fadd_def is_f64_def)

lemma fadd_ge: "is_f64 x \<Longrightarrow> 0 \<le> y \<Longrightarrow> x \<le> fadd x y"
  using f64.rnd_mono [of x "x + y"] by (simp add: fadd_def is_f64_def)

lemma fsub_le: "is_f64 x \<Longrightarrow> 0 \<le> y \<Longrightarrow> fsub x y \<le> x"
  using f64.rnd_mono [of "x - y" x] by (simp add: fsub_def is_f64_def)

lemma fmul_le: "is_f64 x \<Longrightarrow> 0 \<le> x \<Longrightarrow> y \<le> 1 \<Longrightarrow> fmul x y \<le> x"
  using f64.rnd_mono [of "x * y" x] by (simp add: fmul_def is_f64_def mult_left_le)

text \<open>Each operation on small operands is within \<open>10 ^ -15\<close> of the exact one.\<close>

lemma flit_close: "\<bar>x\<bar> \<le> 4 \<Longrightarrow> \<bar>flit x - x\<bar> \<le> slack"
  unfolding flit_def by (rule f64.rnd_close)

lemma fadd_close: "\<bar>x + y\<bar> \<le> 4 \<Longrightarrow> \<bar>fadd x y - (x + y)\<bar> \<le> slack"
  unfolding fadd_def by (rule f64.rnd_close)

lemma fsub_close: "\<bar>x - y\<bar> \<le> 4 \<Longrightarrow> \<bar>fsub x y - (x - y)\<bar> \<le> slack"
  unfolding fsub_def by (rule f64.rnd_close)

lemma fmul_close: "\<bar>x * y\<bar> \<le> 4 \<Longrightarrow> \<bar>fmul x y - x * y\<bar> \<le> slack"
  unfolding fmul_def by (rule f64.rnd_close)

lemma fdiv_close: "\<bar>x / y\<bar> \<le> 4 \<Longrightarrow> \<bar>fdiv x y - x / y\<bar> \<le> slack"
  unfolding fdiv_def by (rule f64.rnd_close)

text \<open>The same bounds as a pair of inequalities.\<close>

lemma flit_bounds: "\<bar>x\<bar> \<le> 4 \<Longrightarrow> x - slack \<le> flit x \<and> flit x \<le> x + slack"
  using flit_close [of x] by (simp only: abs_diff_le_iff)

lemma fop_bounds:
  "\<bar>x + y\<bar> \<le> 4 \<Longrightarrow> x + y - slack \<le> fadd x y \<and> fadd x y \<le> x + y + slack"
  "\<bar>x - y\<bar> \<le> 4 \<Longrightarrow> x - y - slack \<le> fsub x y \<and> fsub x y \<le> x - y + slack"
  "\<bar>x * y\<bar> \<le> 4 \<Longrightarrow> x * y - slack \<le> fmul x y \<and> fmul x y \<le> x * y + slack"
  "\<bar>x / y\<bar> \<le> 4 \<Longrightarrow> x / y - slack \<le> fdiv x y \<and> fdiv x y \<le> x / y + slack"
  by (drule fadd_close fsub_close fmul_close fdiv_close, simp only: abs_diff_le_iff)+

lemma rnd64_numeral: "(numeral n :: int) < 2 ^ 53 \<Longrightarrow> rnd64 (numeral n) = numeral n"
  using rnd64_of_int [of "numeral n"] by simp

lemma unit_mult:
  fixes x y :: real
  assumes "0 \<le> x" "x \<le> 1" "0 \<le> y" "y \<le> 1"
  shows "0 \<le> x * y" "x * y \<le> x" "x * y \<le> 1"
  using assms by (auto intro: mult_left_le mult_le_one)

section \<open>Exactness of a quotient against an integer\<close>

text \<open>A float below 2^53 is a multiple of its unit in the last place, so its distance to a
  larger integer is at least that unit.\<close>

lemma f64_gap:
  assumes "is_f64 h" "0 < h" "h < of_int m" "h < 2 ^ 53"
  shows "2 powr ulp_exp h \<le> of_int m - h"
proof -
  define k where "k = nat (- ulp_exp h)"
  have "ulp_exp h \<le> 0" using assms by (intro ulp_exp_upper) (auto simp: powr_numeral)
  then have ulp: "2 powr of_int (ulp_exp h) = 1 / (2::real) ^ k"
    by (simp add: k_def powr_minus_divide flip: powr_realpow)
  have "h = of_int (round_half_even (h / 2 powr ulp_exp h)) * 2 powr ulp_exp h"
    using assms(1,2) by (simp add: is_f64_def rnd64_def)
  then obtain j :: int where j: "h = of_int j / 2 ^ k" unfolding ulp by auto
  with assms(3) have "of_int j < (of_int (m * 2 ^ k) :: real)" by (simp add: divide_less_eq)
  then have "j + 1 \<le> m * 2 ^ k" by (simp only: of_int_less_iff)
  then have "of_int (j + 1) \<le> (of_int (m * 2 ^ k) :: real)" by (simp only: of_int_le_iff)
  then have "of_int j + 1 \<le> of_int m * (2::real) ^ k" by simp
  then have "(of_int j + 1) / 2 ^ k \<le> of_int m * (2::real) ^ k / 2 ^ k" by (intro divide_right_mono) auto
  then have "h + 1 / 2 ^ k \<le> of_int m" by (simp add: j add_divide_distrib)
  then show ?thesis unfolding ulp by linarith
qed

lemma ulp_exp_scale:
  assumes "1/2 \<le> x" "2 ^ k \<le> p"
  shows "ulp_exp x + int k \<le> ulp_exp (x * p)"
proof -
  have pos: "0 < x" "0 < p" using assms by (auto intro: less_le_trans [of 0 "2 ^ k"])
  have "log 2 (1/2) \<le> log 2 x" using assms by (subst log_le_cancel_iff) auto
  then have "-1 \<le> log 2 x" by (simp add: log_divide)
  have "log 2 (2 ^ k) \<le> log 2 p" using assms pos by (subst log_le_cancel_iff) auto
  then have "real k \<le> log 2 p" by (simp add: log_nat_power)
  moreover have "log 2 (x * p) = log 2 x + log 2 p" using pos by (simp add: log_mult)
  ultimately have "\<lfloor>log 2 x\<rfloor> + int k \<le> \<lfloor>log 2 (x * p)\<rfloor>" by linarith
  moreover have "-1 \<le> \<lfloor>log 2 x\<rfloor>" using \<open>-1 \<le> log 2 x\<close> by linarith
  ultimately show ?thesis using pos by (simp add: ulp_exp_def)
qed

text \<open>Dividing a float that is short of \<open>n\<close> periods stays short of \<open>n\<close>: no rounding up.\<close>

lemma fdiv_less_int:
  assumes h: "is_f64 h" "h < of_int n * p" "of_int n * p < 2 ^ 53"
    and n: "1 \<le> n" and p: "p = of_int q" "2 ^ k \<le> p" "p < 2 ^ (k + 1)"
  shows "fdiv h p < of_int n"
proof (rule ccontr)
  assume "\<not> fdiv h p < of_int n"
  then have ge: "of_int n \<le> rnd64 (h / p)" by (simp add: fdiv_def)
  have p0: "0 < p" using p(2) by (auto intro: less_le_trans [of 0 "2 ^ k"])
  define x where "x = h / p"
  have hx: "h = x * p" using p0 by (simp add: x_def)
  have "1/2 \<le> x"
  proof (rule ccontr)
    assume "\<not> 1/2 \<le> x"
    then have "rnd64 x \<le> rnd64 (of_int 1 * 2 powr of_int (-1))"
      by (intro f64.rnd_mono) (simp add: powr_minus_divide)
    also have "\<dots> = 1/2" by (subst rnd64_exact) (simp_all add: powr_minus_divide)
    finally show False using ge n by (simp add: x_def)
  qed
  with hx p0 have h0: "0 < h" by simp
  have "of_int n - x \<le> 2 powr ulp_exp x / 2"
    using ge [folded x_def] rnd64_half_ulp [of x] by linarith
  then have "(of_int n - x) * p \<le> 2 powr ulp_exp x / 2 * p" using p0 by (intro mult_right_mono) auto
  then have up: "of_int n * p - h \<le> 2 powr ulp_exp x * p / 2" by (simp add: hx left_diff_distrib)
  have "2 powr ulp_exp h \<le> of_int (n * q) - h"
    using h h0 p(1) by (intro f64_gap) auto
  with up p(1) have a: "2 powr ulp_exp h \<le> 2 powr ulp_exp x * p / 2" by simp
  have b: "2 powr (of_int (ulp_exp x + int k)) \<le> (2::real) powr ulp_exp h"
    using ulp_exp_scale [OF \<open>1/2 \<le> x\<close> p(2)]
    unfolding hx by (intro powr_mono) simp_all
  have c: "2 powr (of_int (ulp_exp x + int k)) = (2::real) powr ulp_exp x * 2 ^ k"
    by (simp add: powr_add powr_realpow)
  from a b c have "(2::real) powr ulp_exp x * 2 ^ k \<le> 2 powr ulp_exp x * (p / 2)" by linarith
  then have "2 ^ k \<le> p / 2" by (subst (asm) mult_le_cancel_left_pos) auto
  with p(3) show False by simp
qed

end
