(* ===== verification/Affinity.thy ===== *)
theory Affinity
  imports Rust_Float Rust_Text
begin

text \<open>
  The relationship model (\<open>crates/eros-engine-core/src/affinity.rs\<close>): the stored
  \<open>Affinity\<close> row with its six axes, the two line scores folded from four of them, the
  tier ladder and its labels, the derived endpoints, the tier drop of a refused action, and
  the grade pipeline that turns one judge verdict into committed deltas. \<open>Utc::now()\<close>
  is the argument \<open>now\<close>; an instant is a count of nanoseconds.
\<close>

type_synonym instant = int

section \<open>Data\<close>

record affinity =
  aff_id :: nat
  session_id :: nat
  user_id :: nat
  instance_id :: nat
  warmth :: f64
  trust :: f64
  intrigue :: f64
  intimacy :: f64
  patience :: f64
  tension :: f64
  warmth_grade :: int
  patience_grade :: int
  ghost_streak :: int
  last_ghost_at :: "instant option"
  total_ghosts :: int
  feeling_clause :: "rstr option"
  feeling_clause_at :: "instant option"
  created_at :: instant
  updated_at :: instant

record affinity_deltas =
  d_warmth :: f64
  d_trust :: f64
  d_intrigue :: f64
  d_intimacy :: f64
  d_patience :: f64
  d_tension :: f64

definition zero_deltas :: affinity_deltas where
  "zero_deltas = \<lparr>d_warmth = 0, d_trust = 0, d_intrigue = 0, d_intimacy = 0,
     d_patience = 0, d_tension = 0\<rparr>"

definition clamp :: "f64 \<Rightarrow> f64 \<Rightarrow> f64 \<Rightarrow> f64" where
  "clamp v lo hi = (if v < lo then lo else if hi < v then hi else v)"

section \<open>Constants\<close>

definition TIER1_HI :: f64 where "TIER1_HI = flit 0.15"
definition TIER2_HI :: f64 where "TIER2_HI = flit 0.35"
definition TIER3_HI :: f64 where "TIER3_HI = flit 0.62"
definition TIER4_HI :: f64 where "TIER4_HI = flit 0.9"
definition INTIMACY_RUNG3_LO :: f64 where "INTIMACY_RUNG3_LO = flit 0.76"
definition PATIENCE_LO :: f64 where "PATIENCE_LO = flit 0.35"
definition PATIENCE_HI :: f64 where "PATIENCE_HI = flit 0.65"
definition ENDPOINT_BOOST_MAX :: f64 where "ENDPOINT_BOOST_MAX = flit 1.5"
definition TIER_DROP_EPS :: f64 where "TIER_DROP_EPS = flit 0.000001"

definition tier_bounds :: "(f64 \<times> f64) list" where
  "tier_bounds =
     [(0, TIER1_HI), (TIER1_HI, TIER2_HI), (TIER2_HI, TIER3_HI), (TIER3_HI, TIER4_HI), (TIER4_HI, 1)]"

section \<open>Endpoint derivation\<close>

record endpoint_level_reads =
  r_warmth :: "int option"
  r_patience :: "int option"

definition endpoint_base :: "int \<Rightarrow> f64" where
  "endpoint_base level = fdiv (f64_of_int (saturate 1 3 level - 1)) 3"

definition endpoint_boost :: "f64 \<Rightarrow> f64" where
  "endpoint_boost counterpart =
     (let slope = fdiv (fsub ENDPOINT_BOOST_MAX 1) (fsub 1 TIER2_HI)
      in fadd 1 (fmul slope (fsub counterpart TIER2_HI)))"

definition endpoint_time_decay :: "f64 \<Rightarrow> f64 \<Rightarrow> f64 \<Rightarrow> f64" where
  "endpoint_time_decay days rate lowest = max (fsub 1 (fmul rate (max days 0))) lowest"

definition endpoint_value :: "int \<Rightarrow> f64 \<Rightarrow> f64 \<Rightarrow> f64 \<Rightarrow> f64" where
  "endpoint_value level counterpart decay floor_ratio =
     (let boosted = fmul (endpoint_base level) (endpoint_boost counterpart)
      in fclamp (fmul (max boosted (fmul floor_ratio counterpart)) decay) 0 1)"

section \<open>Lines, tiers and labels\<close>

datatype affinity_line = Bond | Chemistry

definition line_as_str :: "affinity_line \<Rightarrow> rstr" where
  "line_as_str l = (case l of Bond \<Rightarrow> str ''bond'' | Chemistry \<Rightarrow> str ''chemistry'')"

definition tier_index :: "f64 \<Rightarrow> nat" where
  "tier_index score =
     (if score < TIER1_HI then 1 else if score < TIER2_HI then 2 else if score < TIER3_HI then 3
      else if score < TIER4_HI then 4 else 5)"

definition tier_drop_target :: "f64 \<Rightarrow> f64" where
  "tier_drop_target score =
     (let k = tier_index score
      in if k = 1 then 0
         else (let (lo, hi) = tier_bounds ! (k - 1);
                   (lower_lo, lower_hi) = tier_bounds ! (k - 2);
                   pos = fclamp (fdiv (fsub score lo) (fsub hi lo)) 0 1
               in fclamp (fadd lower_lo (fmul pos (fsub lower_hi lower_lo)))
                    (fadd lower_lo TIER_DROP_EPS) (fsub lower_hi TIER_DROP_EPS)))"

datatype bond_label = Acquaintance | Friend | CloseFriend | Confidant | Soulmate

datatype chemistry_label = Spark | Flirtation | Crush | Lover | Beloved

definition bond_as_key :: "bond_label \<Rightarrow> rstr" where
  "bond_as_key l = (case l of Acquaintance \<Rightarrow> str ''acquaintance'' | Friend \<Rightarrow> str ''friend''
     | CloseFriend \<Rightarrow> str ''close_friend'' | Confidant \<Rightarrow> str ''confidant''
     | Soulmate \<Rightarrow> str ''soulmate'')"

definition bond_zh :: "bond_label \<Rightarrow> rstr" where
  "bond_zh l = (case l of Acquaintance \<Rightarrow> [21018, 35748, 35782] | Friend \<Rightarrow> [26379, 21451]
     | CloseFriend \<Rightarrow> [23494, 21451] | Confidant \<Rightarrow> [30693, 24049] | Soulmate \<Rightarrow> [28789, 39746, 20276, 20387])"

definition bond_rank :: "bond_label \<Rightarrow> nat" where
  "bond_rank l = (case l of Acquaintance \<Rightarrow> 0 | Friend \<Rightarrow> 1 | CloseFriend \<Rightarrow> 2
     | Confidant \<Rightarrow> 3 | Soulmate \<Rightarrow> 4)"

definition bond_from_tier :: "nat \<Rightarrow> bond_label" where
  "bond_from_tier tier =
     (let t = max 1 (min 5 tier)
      in if t = 1 then Acquaintance else if t = 2 then Friend else if t = 3 then CloseFriend
         else if t = 4 then Confidant else Soulmate)"

definition bond_from_score :: "f64 \<Rightarrow> bond_label" where
  "bond_from_score score = bond_from_tier (tier_index score)"

definition chem_as_key :: "chemistry_label \<Rightarrow> rstr" where
  "chem_as_key l = (case l of Spark \<Rightarrow> str ''spark'' | Flirtation \<Rightarrow> str ''flirtation''
     | Crush \<Rightarrow> str ''crush'' | Lover \<Rightarrow> str ''lover'' | Beloved \<Rightarrow> str ''beloved'')"

definition chem_zh :: "chemistry_label \<Rightarrow> rstr" where
  "chem_zh l = (case l of Spark \<Rightarrow> [24515, 21160] | Flirtation \<Rightarrow> [26279, 26151] | Crush \<Rightarrow> [36855, 24651]
     | Lover \<Rightarrow> [24651, 20154] | Beloved \<Rightarrow> [25370, 29233])"

definition chem_rank :: "chemistry_label \<Rightarrow> nat" where
  "chem_rank l = (case l of Spark \<Rightarrow> 0 | Flirtation \<Rightarrow> 1 | Crush \<Rightarrow> 2 | Lover \<Rightarrow> 3
     | Beloved \<Rightarrow> 4)"

definition chem_from_tier :: "nat \<Rightarrow> chemistry_label" where
  "chem_from_tier tier =
     (let t = max 1 (min 5 tier)
      in if t = 1 then Spark else if t = 2 then Flirtation else if t = 3 then Crush
         else if t = 4 then Lover else Beloved)"

definition chem_from_score :: "f64 \<Rightarrow> chemistry_label" where
  "chem_from_score score = chem_from_tier (tier_index score)"

datatype patience_band = LowPatience | MidPatience | HighPatience

record label_transition =
  lt_from :: rstr
  lt_to :: rstr

record turn_label_changes =
  lc_bond :: "label_transition option"
  lc_chemistry :: "label_transition option"

definition label_changes_is_empty :: "turn_label_changes \<Rightarrow> bool" where
  "label_changes_is_empty c \<longleftrightarrow> lc_bond c = None \<and> lc_chemistry c = None"

definition bond_score :: "affinity \<Rightarrow> f64" where
  "bond_score a = clamp (fdiv (fadd (trust a) (intrigue a)) 2) 0 1"

definition chemistry_score :: "affinity \<Rightarrow> f64" where
  "chemistry_score a = clamp (fdiv (fadd (intimacy a) (tension a)) 2) 0 1"

definition bond_tier :: "affinity \<Rightarrow> nat" where
  "bond_tier a = tier_index (bond_score a)"

definition chem_tier :: "affinity \<Rightarrow> nat" where
  "chem_tier a = tier_index (chemistry_score a)"

definition aff_bond_label :: "affinity \<Rightarrow> bond_label" where
  "aff_bond_label a = bond_from_tier (bond_tier a)"

definition aff_chemistry_label :: "affinity \<Rightarrow> chemistry_label" where
  "aff_chemistry_label a = chem_from_tier (chem_tier a)"

definition diff_labels :: "affinity \<Rightarrow> affinity \<Rightarrow> turn_label_changes option" where
  "diff_labels before after =
     (let bond = (if aff_bond_label before \<noteq> aff_bond_label after
                  then Some \<lparr>lt_from = bond_as_key (aff_bond_label before),
                             lt_to = bond_as_key (aff_bond_label after)\<rparr> else None);
          chemistry = (if aff_chemistry_label before \<noteq> aff_chemistry_label after
                  then Some \<lparr>lt_from = chem_as_key (aff_chemistry_label before),
                             lt_to = chem_as_key (aff_chemistry_label after)\<rparr> else None);
          changes = \<lparr>lc_bond = bond, lc_chemistry = chemistry\<rparr>
      in if label_changes_is_empty changes then None else Some changes)"

definition intimacy_rung :: "affinity \<Rightarrow> nat" where
  "intimacy_rung a =
     (let s = max (bond_score a) (chemistry_score a)
      in if tier_index s = 1 then 1 else if s < INTIMACY_RUNG3_LO then 2 else 3)"

definition aff_patience_band :: "affinity \<Rightarrow> patience_band" where
  "aff_patience_band a =
     (if patience a < PATIENCE_LO then LowPatience
      else if patience a < PATIENCE_HI then MidPatience else HighPatience)"

section \<open>Tuning\<close>

record affinity_tuning =
  grade_unit_bond :: f64
  grade_unit_chem :: f64
  neg_factor :: f64
  tier_decay :: "f64 list"
  cross_penalty_ratio :: f64
  cross_penalty_start :: f64
  delta_threshold :: f64
  demo_boost :: f64
  floor_ratio :: f64
  time_decay_rate :: f64
  time_decay_floor :: f64

definition default_tuning :: affinity_tuning where
  "default_tuning =
     \<lparr>grade_unit_bond = flit 0.0786, grade_unit_chem = flit 0.0266, neg_factor = flit 1.5,
      tier_decay = [flit 1.0, flit 0.70, flit 0.45, flit 0.25, flit 0.10],
      cross_penalty_ratio = fdiv 5 6, cross_penalty_start = flit 0.35, delta_threshold = 0,
      demo_boost = flit 1.4, floor_ratio = flit 0.2, time_decay_rate = flit 0.02,
      time_decay_floor = flit 0.5\<rparr>"

section \<open>Operations on the stored row\<close>

definition apply_deltas :: "instant \<Rightarrow> affinity_deltas \<Rightarrow> affinity \<Rightarrow> affinity" where
  "apply_deltas now d a = a\<lparr>
     warmth := clamp (fadd (warmth a) (d_warmth d)) 0 1,
     trust := clamp (fadd (trust a) (d_trust d)) 0 1,
     intrigue := clamp (fadd (intrigue a) (d_intrigue d)) 0 1,
     intimacy := clamp (fadd (intimacy a) (d_intimacy d)) 0 1,
     patience := clamp (fadd (patience a) (d_patience d)) 0 1,
     tension := clamp (fadd (tension a) (d_tension d)) 0 1,
     updated_at := now\<rparr>"

text \<open>\<open>num_minutes\<close> truncates toward zero.\<close>

definition num_minutes :: "int \<Rightarrow> int" where
  "num_minutes d = sgn d * (\<bar>d\<bar> div (60 * 10 ^ 9))"

definition days_since :: "instant \<Rightarrow> instant \<Rightarrow> f64" where
  "days_since now t = fdiv (f64_of_int (num_minutes (now - t))) (fmul 60 24)"

definition apply_time_decay :: "instant \<Rightarrow> affinity \<Rightarrow> affinity" where
  "apply_time_decay now a =
     (let days = days_since now (updated_at a)
      in if days \<le> 0 then a
         else a\<lparr>intrigue := clamp (fsub (intrigue a) (fmul (flit 0.01) days)) 0 1,
                tension := clamp (fsub (tension a) (fmul (flit 0.005) days)) 0 1\<rparr>)"

definition refresh_endpoints :: "instant \<Rightarrow> affinity_tuning \<Rightarrow> affinity \<Rightarrow> affinity" where
  "refresh_endpoints now t a =
     (let days = days_since now (updated_at a);
          decay = endpoint_time_decay days (time_decay_rate t) (time_decay_floor t)
      in a\<lparr>warmth := endpoint_value (warmth_grade a) (chemistry_score a) decay (floor_ratio t),
           patience := endpoint_value (patience_grade a) (bond_score a) decay (floor_ratio t)\<rparr>)"

definition unrecorded :: "instant \<Rightarrow> affinity" where
  "unrecorded now =
     (let endpoint = endpoint_value 2 0 1 (floor_ratio default_tuning)
      in \<lparr>aff_id = 0, session_id = 0, user_id = 0, instance_id = 0,
          warmth = endpoint, trust = 0, intrigue = 0, intimacy = 0, patience = endpoint,
          tension = 0, warmth_grade = 2, patience_grade = 2, ghost_streak = 0,
          last_ghost_at = None, total_ghosts = 0, feeling_clause = None,
          feeling_clause_at = None, created_at = now, updated_at = now\<rparr>)"

definition drop_line_tier :: "affinity \<Rightarrow> affinity_line \<Rightarrow> affinity \<Rightarrow> affinity" where
  "drop_line_tier before line self =
     (let (score, a, b) = (case line of
            Bond \<Rightarrow> (bond_score before, trust before, intrigue before)
          | Chemistry \<Rightarrow> (chemistry_score before, intimacy before, tension before));
          factor = (if 0 < score then fdiv (tier_drop_target score) score else 0);
          (a, b) = (clamp (fmul a factor) 0 1, clamp (fmul b factor) 0 1)
      in case line of
           Bond \<Rightarrow> self\<lparr>trust := a, intrigue := b\<rparr>
         | Chemistry \<Rightarrow> self\<lparr>intimacy := a, tension := b\<rparr>)"

section \<open>The grade pipeline\<close>

record axis_grades =
  g_trust :: int
  g_intrigue :: int
  g_intimacy :: int
  g_tension :: int

record pending_deltas =
  p_trust :: f64
  p_intrigue :: f64
  p_intimacy :: f64
  p_tension :: f64

definition zero_pending :: pending_deltas where
  "zero_pending = \<lparr>p_trust = 0, p_intrigue = 0, p_intimacy = 0, p_tension = 0\<rparr>"

definition pending_is_zero :: "pending_deltas \<Rightarrow> bool" where
  "pending_is_zero p \<longleftrightarrow>
     p_trust p = 0 \<and> p_intrigue p = 0 \<and> p_intimacy p = 0 \<and> p_tension p = 0"

definition clear_line :: "affinity_line \<Rightarrow> pending_deltas \<Rightarrow> pending_deltas" where
  "clear_line line p = (case line of
     Bond \<Rightarrow> p\<lparr>p_trust := 0, p_intrigue := 0\<rparr>
   | Chemistry \<Rightarrow> p\<lparr>p_intimacy := 0, p_tension := 0\<rparr>)"

record cross_penalty =
  x_trust :: f64
  x_intrigue :: f64
  x_intimacy :: f64
  x_tension :: f64

definition cross_penalty_is_zero :: "cross_penalty \<Rightarrow> bool" where
  "cross_penalty_is_zero p \<longleftrightarrow>
     x_trust p = 0 \<and> x_intrigue p = 0 \<and> x_intimacy p = 0 \<and> x_tension p = 0"

record grade_turn_outcome =
  out_raw :: affinity_deltas
  out_committed :: affinity_deltas
  out_pending :: pending_deltas
  out_penalty :: cross_penalty

text \<open>The closures of \<open>grade_turn\<close>, with the tuning they capture as an argument.\<close>

definition gt_decay :: "affinity_tuning \<Rightarrow> nat \<Rightarrow> f64" where
  "gt_decay t tier = tier_decay t ! (tier - 1)"

definition gt_penalty :: "affinity_tuning \<Rightarrow> f64 \<Rightarrow> f64 \<Rightarrow> f64" where
  "gt_penalty t counterpart kappa =
     (let start = cross_penalty_start t;
          ramp = fpowi (fdiv (max (fsub counterpart start) 0) (fsub 1 start)) 2
      in fmul kappa ramp)"

definition gt_raw :: "affinity_tuning \<Rightarrow> f64 \<Rightarrow> int \<Rightarrow> f64 \<Rightarrow> f64 \<Rightarrow> f64" where
  "gt_raw t boost g rule_d unit =
     (let g = f64_of_int (saturate (-4) 4 g);
          judge = (if 0 \<le> g then fmul (fmul g unit) boost else fmul (fmul g unit) (neg_factor t))
      in fadd judge rule_d)"

definition i8_saturating_abs :: "int \<Rightarrow> int" where
  "i8_saturating_abs g = min 127 \<bar>g\<bar>"

definition gt_real :: "affinity_tuning \<Rightarrow> f64 \<Rightarrow> nat \<Rightarrow> f64 \<Rightarrow> f64 \<Rightarrow> int \<Rightarrow> f64 \<times> f64" where
  "gt_real t r own_tier counterpart kappa g =
     (let p = fdiv (fmul (gt_penalty t counterpart kappa)
                         (f64_of_int (min (i8_saturating_abs g) 4))) 4
      in (fsub (fadd (fmul (gt_decay t own_tier) (max r 0)) (min r 0)) p, p))"

definition gt_gate :: "affinity_tuning \<Rightarrow> f64 \<Rightarrow> f64 \<Rightarrow> f64 \<times> f64" where
  "gt_gate t rho pend =
     (let acc = fadd pend rho in if delta_threshold t \<le> \<bar>acc\<bar> then (acc, 0) else (0, acc))"

definition gt_axis :: "affinity_tuning \<Rightarrow> f64 \<Rightarrow> int \<Rightarrow> f64 \<Rightarrow> nat \<Rightarrow> f64 \<Rightarrow> f64 \<Rightarrow> f64
    \<Rightarrow> f64 \<times> f64 \<times> f64 \<times> f64" where
  "gt_axis t boost g rule_d own_tier counterpart pend unit =
     (let r = gt_raw t boost g rule_d unit;
          kappa = fmul (cross_penalty_ratio t) unit;
          (rho, charged) = gt_real t r own_tier counterpart kappa g;
          (committed, pend) = gt_gate t rho pend
      in (r, committed, pend, charged))"

definition grade_turn :: "affinity \<Rightarrow> axis_grades \<Rightarrow> affinity_deltas \<Rightarrow> pending_deltas \<Rightarrow> f64
    \<Rightarrow> affinity_tuning \<Rightarrow> grade_turn_outcome" where
  "grade_turn a grades rule pending boost t =
     (let bond = bond_score a;
          chem = chemistry_score a;
          bond_tier = tier_index bond;
          chem_tier = tier_index chem;
          (t_raw, t_com, t_pend, t_pen) = gt_axis t boost (g_trust grades) (d_trust rule)
            bond_tier chem (p_trust pending) (grade_unit_bond t);
          (ig_raw, ig_com, ig_pend, ig_pen) = gt_axis t boost (g_intrigue grades) (d_intrigue rule)
            bond_tier chem (p_intrigue pending) (grade_unit_bond t);
          (im_raw, im_com, im_pend, im_pen) = gt_axis t boost (g_intimacy grades) (d_intimacy rule)
            chem_tier bond (p_intimacy pending) (grade_unit_chem t);
          (tn_raw, tn_com, tn_pend, tn_pen) = gt_axis t boost (g_tension grades) (d_tension rule)
            chem_tier bond (p_tension pending) (grade_unit_chem t)
      in \<lparr>out_raw = \<lparr>d_warmth = 0, d_trust = t_raw, d_intrigue = ig_raw, d_intimacy = im_raw,
                     d_patience = 0, d_tension = tn_raw\<rparr>,
          out_committed = \<lparr>d_warmth = 0, d_trust = t_com, d_intrigue = ig_com,
                     d_intimacy = im_com, d_patience = 0, d_tension = tn_com\<rparr>,
          out_pending = \<lparr>p_trust = t_pend, p_intrigue = ig_pend, p_intimacy = im_pend,
                     p_tension = tn_pend\<rparr>,
          out_penalty = \<lparr>x_trust = t_pen, x_intrigue = ig_pen, x_intimacy = im_pen,
                     x_tension = tn_pen\<rparr>\<rparr>)"

end
