(* ===== verification/Affinity_Laws.thy ===== *)
theory Affinity_Laws
  imports Affinity
begin

text \<open>
  What the relationship model guarantees, with every operation rounded as binary64 rounds
  it: the tier ladder and its labels agree, the axes never leave the unit interval, a
  refused action costs a line exactly one tier, the endpoint floor acts on a cold verdict
  only, and the grade pipeline never lets a negative verdict raise an axis.
\<close>

section \<open>The cuts of the ladder\<close>

lemma cut_bounds:
  "15/100 - slack \<le> TIER1_HI" "TIER1_HI \<le> 15/100 + slack"
  "35/100 - slack \<le> TIER2_HI" "TIER2_HI \<le> 35/100 + slack"
  "62/100 - slack \<le> TIER3_HI" "TIER3_HI \<le> 62/100 + slack"
  "9/10 - slack \<le> TIER4_HI" "TIER4_HI \<le> 9/10 + slack"
  "76/100 - slack \<le> INTIMACY_RUNG3_LO" "INTIMACY_RUNG3_LO \<le> 76/100 + slack"
  "1/1000000 - slack \<le> TIER_DROP_EPS" "TIER_DROP_EPS \<le> 1/1000000 + slack"
  "15/10 - slack \<le> ENDPOINT_BOOST_MAX" "ENDPOINT_BOOST_MAX \<le> 15/10 + slack"
  using flit_bounds [of "0.15"] flit_bounds [of "0.35"] flit_bounds [of "0.62"] flit_bounds [of "0.9"]
    flit_bounds [of "0.76"] flit_bounds [of "0.000001"] flit_bounds [of "1.5"]
  by (simp_all add: TIER1_HI_def TIER2_HI_def TIER3_HI_def TIER4_HI_def INTIMACY_RUNG3_LO_def
    TIER_DROP_EPS_def ENDPOINT_BOOST_MAX_def)

lemma cut_order:
  "0 < TIER1_HI" "TIER1_HI < TIER2_HI" "TIER2_HI < TIER3_HI" "TIER3_HI < TIER4_HI" "TIER4_HI < 1"
  "TIER3_HI < INTIMACY_RUNG3_LO" "INTIMACY_RUNG3_LO < TIER4_HI"
  using cut_bounds by linarith+

lemma tier_index_range: "1 \<le> tier_index s" "tier_index s \<le> 5"
  by (simp_all add: tier_index_def)

lemma tier_index_mono: "s \<le> s' \<Longrightarrow> tier_index s \<le> tier_index s'"
  using cut_order by (simp add: tier_index_def)

lemma tier_index_cases:
  "tier_index s = 1 \<longleftrightarrow> s < TIER1_HI"
  "tier_index s = 2 \<longleftrightarrow> TIER1_HI \<le> s \<and> s < TIER2_HI"
  "tier_index s = 3 \<longleftrightarrow> TIER2_HI \<le> s \<and> s < TIER3_HI"
  "tier_index s = 4 \<longleftrightarrow> TIER3_HI \<le> s \<and> s < TIER4_HI"
  "tier_index s = 5 \<longleftrightarrow> TIER4_HI \<le> s"
  using cut_order by (auto simp: tier_index_def)

text \<open>Membership in a tier is membership in its interval of \<open>tier_bounds\<close>.\<close>

lemma tier_bounds_nth:
  "tier_bounds ! 0 = (0, TIER1_HI)" "tier_bounds ! Suc 0 = (TIER1_HI, TIER2_HI)"
  "tier_bounds ! 2 = (TIER2_HI, TIER3_HI)" "tier_bounds ! 3 = (TIER3_HI, TIER4_HI)"
  "tier_bounds ! 4 = (TIER4_HI, 1)"
  by (simp_all add: tier_bounds_def)

lemma tier_cases:
  obtains "tier_index s = 1" | "tier_index s = 2" | "tier_index s = 3"
    | "tier_index s = 4" | "tier_index s = 5"
proof -
  have "tier_index s = 1 \<or> tier_index s = 2 \<or> tier_index s = 3 \<or> tier_index s = 4
      \<or> tier_index s = 5"
    using tier_index_range [of s] by arith
  then show thesis using that by blast
qed

lemma tier_in_bounds:
  assumes "1 \<le> k" "k \<le> 4" "tier_bounds ! (k - 1) = (lo, hi)" "lo \<le> s" "s < hi"
  shows "tier_index s = k"
proof -
  from assms(1,2) have "k - 1 = 0 \<and> k = 1 \<or> k - 1 = Suc 0 \<and> k = 2 \<or> k - 1 = 2 \<and> k = 3 \<or> k - 1 = 3 \<and> k = 4"
    by arith
  with assms(3-) show ?thesis
    by (elim disjE conjE)
      (auto simp: tier_bounds_nth tier_index_cases tier_index_cases(1) [unfolded One_nat_def])
qed

lemma bond_rank_from_tier: "bond_rank (bond_from_tier (tier_index s)) = tier_index s - 1"
  by (cases s rule: tier_cases) (simp_all add: bond_from_tier_def bond_rank_def)

lemma chem_rank_from_tier: "chem_rank (chem_from_tier (tier_index s)) = tier_index s - 1"
  by (cases s rule: tier_cases) (simp_all add: chem_from_tier_def chem_rank_def)


section \<open>Lines and axes\<close>

text \<open>
  \<open>axes_ok\<close>: the six axes are floats in the unit interval, which is what the comments
  on the fields of \<open>Affinity\<close> state.
\<close>

definition unit :: "f64 \<Rightarrow> bool" where
  "unit x \<longleftrightarrow> 0 \<le> x \<and> x \<le> 1 \<and> is_f64 x"

definition axes_ok :: "affinity \<Rightarrow> bool" where
  "axes_ok a \<longleftrightarrow> unit (warmth a) \<and> unit (trust a) \<and> unit (intrigue a) \<and> unit (intimacy a)
     \<and> unit (patience a) \<and> unit (tension a)"

lemma unit_clamp [simp]: "is_f64 v \<Longrightarrow> unit (clamp v 0 1)"
  by (simp add: unit_def clamp_def)

lemma unit_fclamp [simp]: "is_f64 v \<Longrightarrow> unit (fclamp v 0 1)"
  by (simp add: unit_def)

lemma unit_0 [simp]: "unit 0" and unit_1 [simp]: "unit 1"
  by (simp_all add: unit_def)

lemma unit_scores [simp]: "unit (bond_score a)" "unit (chemistry_score a)"
  by (simp_all add: bond_score_def chemistry_score_def)

lemma unit_endpoint_value [simp]: "unit (endpoint_value l c d r)"
  by (simp add: endpoint_value_def Let_def)

lemma axes_ok_apply_deltas [axis_simps]: "axes_ok (apply_deltas now d a)"
  by (simp add: axes_ok_def apply_deltas_def)

lemma axes_ok_time_decay [axis_simps]: "axes_ok a \<Longrightarrow> axes_ok (apply_time_decay now a)"
  by (simp add: axes_ok_def apply_time_decay_def Let_def)

lemma axes_ok_refresh [axis_simps]: "axes_ok a \<Longrightarrow> axes_ok (refresh_endpoints now t a)"
  by (simp add: axes_ok_def refresh_endpoints_def Let_def)

lemma axes_ok_drop [axis_simps]: "axes_ok a \<Longrightarrow> axes_ok (drop_line_tier before l a)"
  by (simp add: axes_ok_def drop_line_tier_def Let_def split: affinity_line.split)

lemma axes_ok_unrecorded [axis_simps]: "axes_ok (unrecorded now)"
  by (simp add: axes_ok_def unrecorded_def Let_def)

text \<open>A line of two unit axes: its clamp never acts, and it is close to the exact mean.\<close>

definition line_mean :: "f64 \<Rightarrow> f64 \<Rightarrow> f64" where
  "line_mean a b = clamp (fdiv (fadd a b) 2) 0 1"

lemma line_mean_close:
  assumes "unit a" "unit b"
  shows "(a + b) / 2 - 2 * slack \<le> line_mean a b \<and> line_mean a b \<le> (a + b) / 2 + 2 * slack" and "unit (line_mean a b)"
proof -
  from assms have ab: "0 \<le> a" "a \<le> 1" "0 \<le> b" "b \<le> 1" by (auto simp: unit_def)
  have s: "a + b - slack \<le> fadd a b \<and> fadd a b \<le> a + b + slack"
    using ab by (intro fop_bounds) auto
  have "0 \<le> fadd a b" using ab by (intro fadd_nonneg)
  have "fadd a b \<le> rnd64 2" unfolding fadd_def using ab by (intro f64.rnd_mono) auto
  then have le2: "fadd a b \<le> 2" by (simp add: rnd64_numeral)
  with \<open>0 \<le> fadd a b\<close> have d: "fadd a b / 2 - slack \<le> fdiv (fadd a b) 2 \<and> fdiv (fadd a b) 2 \<le> fadd a b / 2 + slack"
    by (intro fop_bounds) auto
  have "0 \<le> fdiv (fadd a b) 2" using \<open>0 \<le> fadd a b\<close> by (intro fdiv_nonneg) auto
  moreover have "fdiv (fadd a b) 2 \<le> 1" using le2 by (intro fdiv_le_1) auto
  ultimately have "line_mean a b = fdiv (fadd a b) 2" by (simp add: line_mean_def clamp_def)
  with s d show "(a + b) / 2 - 2 * slack \<le> line_mean a b \<and> line_mean a b \<le> (a + b) / 2 + 2 * slack"
    by argo
  show "unit (line_mean a b)" by (simp add: line_mean_def)
qed

lemma bond_score_mean: "bond_score a = line_mean (trust a) (intrigue a)"
  and chemistry_score_mean: "chemistry_score a = line_mean (intimacy a) (tension a)"
  by (simp_all add: bond_score_def chemistry_score_def line_mean_def)

section \<open>The tier drop\<close>

text \<open>The landing point of a drop is inside the tier below, clear of both its edges.\<close>

lemma drop_target_in_lower:
  assumes "tier_bounds ! (tier_index s - 2) = (lo, hi)" "2 \<le> tier_index s"
  shows "lo + 9/10000000 \<le> tier_drop_target s" "tier_drop_target s \<le> hi - 9/10000000"
    "0 \<le> lo" "hi \<le> 1" "hi \<le> s"
proof -
  note cb = cut_bounds cut_order
  have lohi: "0 \<le> lo \<and> lo + 1/10 \<le> hi \<and> hi \<le> 1 \<and> hi \<le> s"
    using assms
    by (cases s rule: tier_cases)
      (use cb in \<open>auto simp: tier_bounds_nth tier_index_cases\<close>)
  then show "0 \<le> lo" "hi \<le> 1" "hi \<le> s" by auto
  have a: "lo + TIER_DROP_EPS - slack \<le> fadd lo TIER_DROP_EPS
      \<and> fadd lo TIER_DROP_EPS \<le> lo + TIER_DROP_EPS + slack"
    using lohi cut_bounds(11,12) by (intro fop_bounds) linarith
  have b: "hi - TIER_DROP_EPS - slack \<le> fsub hi TIER_DROP_EPS
      \<and> fsub hi TIER_DROP_EPS \<le> hi - TIER_DROP_EPS + slack"
    using lohi cut_bounds(11,12) by (intro fop_bounds) linarith
  have l: "lo + 9/10000000 \<le> fadd lo TIER_DROP_EPS"
    and h: "fsub hi TIER_DROP_EPS \<le> hi - 9/10000000"
    and lh: "fadd lo TIER_DROP_EPS \<le> fsub hi TIER_DROP_EPS"
    using a b cut_bounds(11,12) lohi by simp_all
  have "\<exists>pos. tier_drop_target s
      = fclamp pos (fadd lo TIER_DROP_EPS) (fsub hi TIER_DROP_EPS)"
    using assms by (cases "tier_bounds ! (tier_index s - 1)") (auto simp: tier_drop_target_def Let_def)
  then obtain pos where "tier_drop_target s
      = fclamp pos (fadd lo TIER_DROP_EPS) (fsub hi TIER_DROP_EPS)" by blast
  with fclamp_range [OF lh, of pos] l h
  show "lo + 9/10000000 \<le> tier_drop_target s" "tier_drop_target s \<le> hi - 9/10000000"
    by linarith+
qed

text \<open>
  The two axes of a dropped line, both scaled by the same factor, fold back to the landing
  point up to the rounding of five operations, far less than \<open>TIER_DROP_EPS\<close>.
\<close>

lemma scaled_line_close:
  assumes a: "unit a" and b: "unit b" and s: "s = line_mean a b" "1/10 \<le> s"
    and t: "0 \<le> t" "t \<le> s" and f: "f = fdiv t s"
  shows "t - 1/10000000 \<le> line_mean (clamp (fmul a f) 0 1) (clamp (fmul b f) 0 1)
    \<and> line_mean (clamp (fmul a f) 0 1) (clamp (fmul b f) 0 1) \<le> t + 1/10000000"
proof -
  from a b have ab: "0 \<le> a" "a \<le> 1" "0 \<le> b" "b \<le> 1" by (auto simp: unit_def)
  have s1: "s \<le> 1" using line_mean_close(2) [OF a b] s by (simp add: unit_def)
  have f01: "0 \<le> f" "f \<le> 1" using f t s by (auto intro: fdiv_nonneg fdiv_le_1)
  have q: "\<bar>t / s\<bar> \<le> 4" using t s by (simp add: divide_le_eq)
  have fb: "t / s - slack \<le> f \<and> f \<le> t / s + slack" unfolding f by (rule fop_bounds(4) [OF q])
  have "(t / s - slack) * s \<le> f * s" "f * s \<le> (t / s + slack) * s"
    using fb s by (auto intro!: mult_right_mono)
  moreover have "t / s * s = t" using s by simp
  ultimately have fs: "t - slack * s \<le> f * s" "f * s \<le> t + slack * s"
    by (simp_all add: algebra_simps)
  have ma: "(a + b) / 2 - 2 * slack \<le> s" "s \<le> (a + b) / 2 + 2 * slack"
    using line_mean_close(1) [OF a b] s by auto
  have "((a + b) / 2 - 2 * slack) * f \<le> s * f" "s * f \<le> ((a + b) / 2 + 2 * slack) * f"
    using ma f01 by (auto intro!: mult_right_mono)
  then have mf: "(a * f + b * f) / 2 - 2 * slack * f \<le> f * s" "f * s \<le> (a * f + b * f) / 2 + 2 * slack * f"
    by (simp_all add: algebra_simps)
  have af: "0 \<le> a * f" "a * f \<le> 1" and bf: "0 \<le> b * f" "b * f \<le> 1"
    using ab f01 unit_mult by auto
  have ra: "a * f - slack \<le> fmul a f \<and> fmul a f \<le> a * f + slack" using af by (intro fop_bounds) simp
  have rb: "b * f - slack \<le> fmul b f \<and> fmul b f \<le> b * f + slack" using bf by (intro fop_bounds) simp
  have ua: "unit (fmul a f)" "unit (fmul b f)"
    using ab f01 by (auto simp: unit_def intro: fmul_nonneg fmul_unit)
  then have "clamp (fmul a f) 0 1 = fmul a f" "clamp (fmul b f) 0 1 = fmul b f"
    by (auto simp: unit_def clamp_def)
  with line_mean_close(1) [OF ua]
  have "(fmul a f + fmul b f) / 2 - 2 * slack \<le> line_mean (clamp (fmul a f) 0 1) (clamp (fmul b f) 0 1)"
    "line_mean (clamp (fmul a f) 0 1) (clamp (fmul b f) 0 1) \<le> (fmul a f + fmul b f) / 2 + 2 * slack"
    by auto
  with ra rb mf fs f01 s1 show ?thesis by argo
qed

lemma drop_mean_tier:
  assumes "unit a" "unit b" "s = line_mean a b" "2 \<le> tier_index s"
  shows "tier_index (line_mean (clamp (fmul a (fdiv (tier_drop_target s) s)) 0 1)
           (clamp (fmul b (fdiv (tier_drop_target s) s)) 0 1)) = tier_index s - 1"
    (is "tier_index ?m = _")
proof -
  obtain lo hi where lh: "tier_bounds ! (tier_index s - 2) = (lo, hi)" by fastforce
  note d = drop_target_in_lower [OF lh assms(4)]
  have "\<not> s < TIER1_HI" using assms(4) tier_index_cases(1) [of s] by auto
  then have s: "1/10 \<le> s" using cut_bounds(1) by linarith
  have "0 \<le> tier_drop_target s" "tier_drop_target s \<le> s" using d by linarith+
  from scaled_line_close [OF assms(1-3) s this refl] d
  have m: "lo \<le> ?m" "?m < hi" by linarith+
  have "tier_bounds ! (tier_index s - 1 - 1) = (lo, hi)" using lh by (simp add: numeral_2_eq_2)
  moreover have "1 \<le> tier_index s - 1" "tier_index s - 1 \<le> 4"
    using assms(4) tier_index_range(2) [of s] by arith+
  ultimately show ?thesis using m by (intro tier_in_bounds)
qed

text \<open>
  \<open>line_tier\<close> reads one line's tier; a line and the other one.
\<close>

definition line_tier :: "affinity_line \<Rightarrow> affinity \<Rightarrow> nat" where
  "line_tier l a = (case l of Bond \<Rightarrow> bond_tier a | Chemistry \<Rightarrow> chem_tier a)"

definition other_line :: "affinity_line \<Rightarrow> affinity_line" where
  "other_line l = (case l of Bond \<Rightarrow> Chemistry | Chemistry \<Rightarrow> Bond)"

lemma line_tier_range: "1 \<le> line_tier l a" "line_tier l a \<le> 5"
  by (cases l; simp only: line_tier_def bond_tier_def chem_tier_def tier_index_range affinity_line.case)+

text \<open>From the first tier the drop zeroes both axes.\<close>

lemma mean_zero_tier: "tier_index (line_mean (clamp (fmul a 0) 0 1) (clamp (fmul b 0) 0 1)) = 1"
  using cut_order(1) by (simp add: line_mean_def clamp_def tier_index_def)

lemma drop_mean_tier_all:
  assumes "unit a" "unit b" "s = line_mean a b"
    "f = (if 0 < s then fdiv (tier_drop_target s) s else 0)"
  shows "tier_index (line_mean (clamp (fmul a f) 0 1) (clamp (fmul b f) 0 1))
     = max 1 (tier_index s - 1)"
proof (cases "tier_index s = 1")
  case True
  then have "f = 0" using assms(4) by (simp add: tier_drop_target_def)
  with True show ?thesis using mean_zero_tier by simp
next
  case False
  then have two: "2 \<le> tier_index s" using tier_index_range(1) [of s] by arith
  with tier_index_cases(1) [of s] cut_order(1) have "0 < s" by auto
  with assms two drop_mean_tier [OF assms(1-3) two] show ?thesis by simp
qed

lemma score_of_update:
  "bond_score (a\<lparr>trust := x, intrigue := y\<rparr>) = line_mean x y"
  "chemistry_score (a\<lparr>intimacy := x, tension := y\<rparr>) = line_mean x y"
  by (simp_all add: bond_score_mean chemistry_score_mean)

lemma drop_line_tier_tier:
  assumes "axes_ok before"
  shows "line_tier l (drop_line_tier before l self) = max 1 (line_tier l before - 1)"
    and "line_tier (other_line l) (drop_line_tier before l self) = line_tier (other_line l) self"
proof -
  show "line_tier l (drop_line_tier before l self) = max 1 (line_tier l before - 1)"
  proof (cases l)
    case Bond
    with assms show ?thesis
      using drop_mean_tier_all [OF _ _ bond_score_mean refl, of before]
      by (simp add: line_tier_def drop_line_tier_def bond_tier_def Let_def axes_ok_def score_of_update
          split del: if_split)
  next
    case Chemistry
    with assms show ?thesis
      using drop_mean_tier_all [OF _ _ chemistry_score_mean refl, of before]
      by (simp add: line_tier_def drop_line_tier_def chem_tier_def Let_def axes_ok_def
          score_of_update split del: if_split)
  qed
  show "line_tier (other_line l) (drop_line_tier before l self) = line_tier (other_line l) self"
    by (cases l) (simp_all add: line_tier_def other_line_def drop_line_tier_def Let_def bond_tier_def
        chem_tier_def bond_score_def chemistry_score_def)
qed

section \<open>The derived endpoints\<close>

lemma endpoint_base_values:
  "l \<le> 1 \<Longrightarrow> endpoint_base l = 0" "endpoint_base 2 = fdiv 1 3" "3 \<le> l \<Longrightarrow> endpoint_base l = fdiv 2 3"
  by (simp_all add: endpoint_base_def saturate_def)

lemma endpoint_base_mono: "l \<le> l' \<Longrightarrow> endpoint_base l \<le> endpoint_base l'"
  by (simp add: endpoint_base_def saturate_def fdiv_mono)

lemma endpoint_base_nonneg: "0 \<le> endpoint_base l"
  by (simp add: endpoint_base_def saturate_def fdiv_nonneg)

lemma third_bounds: "1/3 - slack \<le> endpoint_base 2" "endpoint_base 2 \<le> 1/3 + slack"
  using fop_bounds(4) [of 1 3] by (simp_all add: endpoint_base_values)

text \<open>The boost grows with the counterpart line and is at least 0.72 on the whole unit interval.\<close>

definition boost_slope :: f64 where
  "boost_slope = fdiv (fsub ENDPOINT_BOOST_MAX 1) (fsub 1 TIER2_HI)"

lemma boost_slope_bounds: "76/100 \<le> boost_slope" "boost_slope \<le> 78/100"
proof -
  have a: "5/10 - 2 * slack \<le> fsub ENDPOINT_BOOST_MAX 1 \<and> fsub ENDPOINT_BOOST_MAX 1 \<le> 5/10 + 2 * slack"
    using fop_bounds(2) [of ENDPOINT_BOOST_MAX 1] cut_bounds(13,14) by (simp add: abs_le_iff)
  have b: "65/100 - 2 * slack \<le> fsub 1 TIER2_HI \<and> fsub 1 TIER2_HI \<le> 65/100 + 2 * slack"
    using fop_bounds(2) [of 1 TIER2_HI] cut_bounds(3,4) by (simp add: abs_le_iff)
  have q: "765/1000 \<le> fsub ENDPOINT_BOOST_MAX 1 / fsub 1 TIER2_HI"
    "fsub ENDPOINT_BOOST_MAX 1 / fsub 1 TIER2_HI \<le> 775/1000"
    using a b by (simp_all add: le_divide_eq divide_le_eq)
  then have "\<bar>fsub ENDPOINT_BOOST_MAX 1 / fsub 1 TIER2_HI\<bar> \<le> 4" by (simp only: abs_le_iff) argo
  from fop_bounds(4) [OF this] q show "76/100 \<le> boost_slope" "boost_slope \<le> 78/100"
    by (simp_all add: boost_slope_def)
qed

lemma endpoint_boost_mono: "x \<le> y \<Longrightarrow> endpoint_boost x \<le> endpoint_boost y"
proof -
  assume "x \<le> y"
  then have "fsub x TIER2_HI \<le> fsub y TIER2_HI" by (intro fsub_mono) auto
  then have "boost_slope * fsub x TIER2_HI \<le> boost_slope * fsub y TIER2_HI"
    using boost_slope_bounds by (intro mult_left_mono) auto
  then show ?thesis
    by (simp add: endpoint_boost_def Let_def fadd_def fmul_def f64.rnd_mono flip: boost_slope_def)
qed

lemma endpoint_boost_lower:
  assumes "0 \<le> c" "c \<le> 1"
  shows "72/100 + 75/100 * c \<le> endpoint_boost c" "0 \<le> endpoint_boost c"
    "endpoint_boost c \<le> 2"
proof -
  have d: "c - 35/100 - 2 * slack \<le> fsub c TIER2_HI \<and> fsub c TIER2_HI \<le> c - 35/100 + 2 * slack"
    using fop_bounds(2) [of c TIER2_HI] cut_bounds(3,4) assms by (simp add: abs_le_iff)
  define p where "p = boost_slope * fsub c TIER2_HI"
  have up: "p \<le> 78/100"
  proof -
    have "p \<le> boost_slope * 1" unfolding p_def
      using boost_slope_bounds d assms by (intro mult_left_mono) auto
    then show ?thesis using boost_slope_bounds by simp
  qed
  have lo: "76/100 * c - 275/1000 \<le> p"
  proof (cases "35/100 \<le> fsub c TIER2_HI + 35/100")
    case True
    then have "76/100 * fsub c TIER2_HI \<le> p" unfolding p_def
      using boost_slope_bounds by (intro mult_right_mono) auto
    with d show ?thesis by argo
  next
    case False
    then have "78/100 * fsub c TIER2_HI \<le> p" unfolding p_def
      using boost_slope_bounds by (intro mult_right_mono_neg) auto
    with d assms show ?thesis by argo
  qed
  have m: "p - slack \<le> fmul boost_slope (fsub c TIER2_HI) \<and> fmul boost_slope (fsub c TIER2_HI) \<le> p + slack"
    unfolding p_def using up lo assms by (intro fop_bounds) (simp add: p_def abs_le_iff)
  have e: "endpoint_boost c = fadd 1 (fmul boost_slope (fsub c TIER2_HI))"
    by (simp add: endpoint_boost_def Let_def boost_slope_def)
  have b: "1 + fmul boost_slope (fsub c TIER2_HI) - slack \<le> endpoint_boost c
      \<and> endpoint_boost c \<le> 1 + fmul boost_slope (fsub c TIER2_HI) + slack"
    unfolding e using m up lo assms by (intro fop_bounds) (simp add: abs_le_iff)
  show "72/100 + 75/100 * c \<le> endpoint_boost c" using b m lo assms by argo
  then show "0 \<le> endpoint_boost c" using assms by argo
  show "endpoint_boost c \<le> 2" using b m up by argo
qed

text \<open>
  The floor: for a ratio up to 0.24 it is below what any verdict of level 2 or 3 gives, so
  it decides only the value of a cold verdict.
\<close>

lemma floor_below_baseline:
  assumes c: "0 \<le> c" "c \<le> 1" and r: "r \<le> 24/100 + slack" and l: "2 \<le> l"
  shows "fmul r c \<le> fmul (endpoint_base l) (endpoint_boost c)"
proof -
  have "r * c \<le> (24/100 + slack) * c" using c r by (intro mult_right_mono)
  also have "\<dots> \<le> (1/3 - slack) * (72/100 + 75/100 * c)" using c by argo
  also have "\<dots> \<le> endpoint_base l * endpoint_boost c"
    using third_bounds endpoint_base_mono [OF l] endpoint_boost_lower [OF c] c
    by (intro mult_mono) auto
  finally show ?thesis by (simp add: fmul_def f64.rnd_mono)
qed

lemma endpoint_value_warm:
  assumes "0 \<le> c" "c \<le> 1" "r \<le> 24/100 + slack" "2 \<le> l"
  shows "endpoint_value l c d r = fclamp (fmul (fmul (endpoint_base l) (endpoint_boost c)) d) 0 1"
  using floor_below_baseline [OF assms] by (simp add: endpoint_value_def Let_def max_def)

lemma endpoint_value_cold:
  assumes "0 \<le> c" "0 \<le> r" "l \<le> 1"
  shows "endpoint_value l c d r = fclamp (fmul (fmul r c) d) 0 1"
  using assms by (simp add: endpoint_value_def Let_def endpoint_base_values max_def)
    (metis fmul_nonneg order_antisym)

lemma endpoint_value_mono:
  assumes "l \<le> l'" "0 \<le> c" "c \<le> c'" "c' \<le> 1" "0 \<le> d" "d \<le> d'" "0 \<le> r"
  shows "endpoint_value l c d r \<le> endpoint_value l' c' d' r"
proof -
  have b: "0 \<le> endpoint_boost c" using assms endpoint_boost_lower(2) [of c] by simp
  have b': "endpoint_boost c \<le> endpoint_boost c'" using assms by (intro endpoint_boost_mono)
  have "fmul (endpoint_base l) (endpoint_boost c) \<le> fmul (endpoint_base l') (endpoint_boost c')"
    using b b' assms by (intro fmul_mono endpoint_base_nonneg endpoint_base_mono) auto
  moreover have "fmul r c \<le> fmul r c'" using assms by (intro fmul_mono) auto
  moreover have "0 \<le> fmul r c" using assms by (intro fmul_nonneg)
  ultimately have "fmul (max (fmul (endpoint_base l) (endpoint_boost c)) (fmul r c)) d
      \<le> fmul (max (fmul (endpoint_base l') (endpoint_boost c')) (fmul r c')) d'"
    using assms by (intro fmul_mono) auto
  then show ?thesis by (simp add: endpoint_value_def Let_def fclamp_mono)
qed

end
