(* ===== verification/Tuning_Config.thy ===== *)
theory Tuning_Config
  imports Affinity_Laws
begin

text \<open>
  The environment-driven affinity tuning of \<open>crates/eros-engine-server/src/state.rs\<close>:
  every knob is parsed and domain-checked, and an invalid value keeps its default. The
  environment is the argument \<open>get\<close>. \<open>parse_f64\<close> is the standard library's
  \<open>str::parse::<f64>\<close>; an error and a value that is not finite are the same \<open>None\<close>,
  because every caller tests \<open>is_finite\<close> next. The tuning that results is well formed
  whatever the environment holds.
\<close>

section \<open>Parsing a float\<close>

definition parse_sign :: "rstr \<Rightarrow> bool \<times> rstr" where
  "parse_sign s = (case s of [] \<Rightarrow> (False, [])
     | c # cs \<Rightarrow> if c = 45 then (True, cs) else if c = 43 then (False, cs) else (False, s))"

definition span_digits :: "rstr \<Rightarrow> rstr \<times> rstr" where
  "span_digits s = (takeWhile is_ascii_digit s, dropWhile is_ascii_digit s)"

definition parse_exponent :: "rstr \<Rightarrow> int option" where
  "parse_exponent s = (case s of [] \<Rightarrow> Some 0
     | c # cs \<Rightarrow>
         if c = 101 \<or> c = 69
         then (let (neg, ds) = parse_sign cs
               in if ds \<noteq> [] \<and> list_all is_ascii_digit ds
                  then Some (if neg then - int (digits_value ds) else int (digits_value ds))
                  else None)
         else None)"

definition parse_f64 :: "rstr \<Rightarrow> f64 option" where
  "parse_f64 s =
     (let (neg, r) = parse_sign s;
          (ip, r1) = span_digits r;
          (fp, r2) = (case r1 of [] \<Rightarrow> ([], [])
                      | c # cs \<Rightarrow> if c = 46 then span_digits cs else ([], r1))
      in if ip @ fp = [] then None
         else (case parse_exponent r2 of None \<Rightarrow> None
           | Some e \<Rightarrow>
               (let m = real (digits_value (ip @ fp)) * 10 powi (e - int (length fp));
                    v = rnd64 (if neg then - m else m)
                in if \<bar>v\<bar> < 2 ^ 1024 then Some v else None)))"

section \<open>The knobs\<close>

definition parse_bool_flag :: "rstr option \<Rightarrow> bool" where
  "parse_bool_flag raw = (case raw of None \<Rightarrow> False | Some v \<Rightarrow> v = str ''1'' \<or> v = str ''true'')"

text \<open>Exactly five finite non-negative values, or nothing.\<close>

fun collect_decay :: "rstr list \<Rightarrow> f64 list option" where
  "collect_decay [] = Some []"
| "collect_decay (x # xs) =
     (case parse_f64 (trim x) of None \<Rightarrow> None
      | Some v \<Rightarrow> if v < 0 then None else map_option ((#) v) (collect_decay xs))"

definition parse_tier_decay :: "rstr \<Rightarrow> f64 list option" where
  "parse_tier_decay raw =
     (let parts = split_at_char 44 raw
      in if length parts \<noteq> 5 then None else collect_decay parts)"

definition knob :: "(string \<Rightarrow> rstr option) \<Rightarrow> string \<Rightarrow> f64 \<Rightarrow> (f64 \<Rightarrow> bool) \<Rightarrow> f64" where
  "knob get name slot ok = (case get name of None \<Rightarrow> slot
     | Some raw \<Rightarrow> (case parse_f64 (trim raw) of
          Some v \<Rightarrow> if ok v then v else slot
        | None \<Rightarrow> slot))"

definition affinity_tuning_from :: "(string \<Rightarrow> rstr option) \<Rightarrow> affinity_tuning" where
  "affinity_tuning_from get =
     (let d = default_tuning
      in \<lparr>grade_unit_bond = knob get ''AFFINITY_GRADE_UNIT_BOND'' (grade_unit_bond d) (\<lambda>v. 0 \<le> v),
          grade_unit_chem = knob get ''AFFINITY_GRADE_UNIT_CHEM'' (grade_unit_chem d) (\<lambda>v. 0 \<le> v),
          neg_factor = knob get ''AFFINITY_NEG_FACTOR'' (neg_factor d) (\<lambda>v. 0 \<le> v),
          tier_decay = (case get ''AFFINITY_TIER_DECAY'' of None \<Rightarrow> tier_decay d
             | Some raw \<Rightarrow> (case parse_tier_decay raw of Some table \<Rightarrow> table | None \<Rightarrow> tier_decay d)),
          cross_penalty_ratio =
            knob get ''AFFINITY_CROSS_PENALTY_RATIO'' (cross_penalty_ratio d) (\<lambda>v. 0 \<le> v),
          cross_penalty_start =
            knob get ''AFFINITY_CROSS_PENALTY_START'' (cross_penalty_start d) (\<lambda>v. 0 \<le> v \<and> v < 1),
          delta_threshold = knob get ''AFFINITY_DELTA_THRESHOLD'' (delta_threshold d) (\<lambda>v. 0 \<le> v),
          demo_boost = knob get ''AFFINITY_DEMO_BOOST'' (demo_boost d) (\<lambda>v. 0 \<le> v),
          floor_ratio =
            knob get ''AFFINITY_FLOOR_RATIO'' (floor_ratio d) (\<lambda>v. 0 \<le> v \<and> v \<le> flit 0.24),
          time_decay_rate = knob get ''AFFINITY_TIME_DECAY_RATE'' (time_decay_rate d) (\<lambda>v. 0 \<le> v),
          time_decay_floor =
            knob get ''AFFINITY_TIME_DECAY_FLOOR'' (time_decay_floor d) (\<lambda>v. 0 \<le> v \<and> v \<le> 1)\<rparr>)"

section \<open>Every environment gives a well formed tuning\<close>

definition tuning_ok :: "affinity_tuning \<Rightarrow> bool" where
  "tuning_ok t \<longleftrightarrow>
     0 \<le> grade_unit_bond t \<and> 0 \<le> grade_unit_chem t \<and> 0 \<le> neg_factor t
     \<and> length (tier_decay t) = 5 \<and> (\<forall>d \<in> set (tier_decay t). 0 \<le> d)
     \<and> 0 \<le> cross_penalty_ratio t \<and> 0 \<le> cross_penalty_start t \<and> cross_penalty_start t < 1
     \<and> 0 \<le> delta_threshold t \<and> 0 \<le> demo_boost t
     \<and> 0 \<le> floor_ratio t \<and> floor_ratio t \<le> flit 0.24
     \<and> 0 \<le> time_decay_rate t \<and> 0 \<le> time_decay_floor t \<and> time_decay_floor t \<le> 1"

lemma flit_nonneg: "0 \<le> x \<Longrightarrow> 0 \<le> flit x"
  by (simp add: flit_def f64.rnd_nonneg)

lemma flit_mono: "x \<le> y \<Longrightarrow> flit x \<le> flit y"
  by (simp add: flit_def f64.rnd_mono)

lemma tuning_ok_default: "tuning_ok default_tuning"
proof -
  have "flit 0.35 < 1" using flit_bounds [of "0.35"] by simp
  moreover have "flit 0.2 \<le> flit 0.24" by (rule flit_mono) simp
  moreover have "flit 0.5 \<le> 1" using flit_bounds [of "0.5"] by simp
  ultimately show ?thesis
    by (simp add: tuning_ok_def default_tuning_def flit_nonneg fdiv_nonneg)
qed

lemma collect_decay_sound:
  "collect_decay fs = Some vs \<Longrightarrow> length vs = length fs \<and> (\<forall>v \<in> set vs. 0 \<le> v)"
  by (induction fs arbitrary: vs) (auto split: option.splits if_splits)

lemma parse_tier_decay_sound:
  "parse_tier_decay raw = Some vs \<Longrightarrow> length vs = 5 \<and> (\<forall>v \<in> set vs. 0 \<le> v)"
  by (auto simp: parse_tier_decay_def Let_def dest!: collect_decay_sound split: if_splits)

lemma knob_ok: "ok slot \<Longrightarrow> ok (knob get name slot ok)"
  by (simp add: knob_def split: option.split)

lemma tuning_ok_from_env: "tuning_ok (affinity_tuning_from get)"
proof -
  note d = tuning_ok_default [unfolded tuning_ok_def]
  have table: "length (case get ''AFFINITY_TIER_DECAY'' of None \<Rightarrow> tier_decay default_tuning
       | Some raw \<Rightarrow> (case parse_tier_decay raw of Some table \<Rightarrow> table | None \<Rightarrow> tier_decay default_tuning)) = 5
     \<and> (\<forall>v \<in> set (case get ''AFFINITY_TIER_DECAY'' of None \<Rightarrow> tier_decay default_tuning
       | Some raw \<Rightarrow> (case parse_tier_decay raw of Some table \<Rightarrow> table | None \<Rightarrow> tier_decay default_tuning)). 0 \<le> v)"
    using d by (simp split: option.split) (use parse_tier_decay_sound in blast)
  note k = knob_ok [where get = get and ok = "\<lambda>v. 0 \<le> v"]
    knob_ok [where get = get and ok = "\<lambda>v. 0 \<le> v \<and> v < 1"]
    knob_ok [where get = get and ok = "\<lambda>v. 0 \<le> v \<and> v \<le> 1"]
    knob_ok [where get = get and ok = "\<lambda>v. 0 \<le> v \<and> v \<le> flit 0.24"]
  show ?thesis
    unfolding tuning_ok_def affinity_tuning_from_def Let_def affinity_tuning.simps
    using d table k by blast
qed

end
