(* ===== verification/Affinity_Grade.thy ===== *)
theory Affinity_Grade
  imports Tuning_Config
begin

text \<open>
  The guarantees of the grade pipeline and of the stored row over its whole life, for the
  tuning any environment gives: penalties are never negative, the threshold gate loses
  nothing, a verdict with no positive part never raises an axis or a tier, and every row
  reached by the operations of \<open>Affinity\<close> has its axes in the unit interval.
\<close>

section \<open>The closures of grade_turn\<close>

lemma gt_penalty_nonneg [float_sign]:
  assumes "tuning_ok t" "0 \<le> kappa"
  shows "0 \<le> gt_penalty t counterpart kappa"
proof -
  have "cross_penalty_start t \<le> 1" using assms(1) by (simp add: tuning_ok_def)
  then have "0 \<le> fsub 1 (cross_penalty_start t)" by (rule fsub_nonneg)
  then show ?thesis
    by (simp add: gt_penalty_def Let_def assms(2) fmul_nonneg fpowi_nonneg fdiv_nonneg)
qed

lemma i8_saturating_abs_nonneg: "0 \<le> i8_saturating_abs g"
  by (simp add: i8_saturating_abs_def)

lemma gt_charge_nonneg [float_sign]:
  assumes "tuning_ok t" "0 \<le> kappa"
  shows "0 \<le> snd (gt_real t r tier counterpart kappa g)"
proof -
  have "0 \<le> f64_of_int (min (i8_saturating_abs g) 4)"
    using i8_saturating_abs_nonneg [of g] by (simp add: f64_of_int_def f64.rnd_nonneg)
  with assms show ?thesis
    by (simp add: gt_real_def Let_def fdiv_nonneg fmul_nonneg gt_penalty_nonneg)
qed

lemma gt_raw_nonpos [float_sign]:
  assumes "tuning_ok t" "g \<le> 0" "rule_d \<le> 0" "0 \<le> u"
  shows "gt_raw t boost g rule_d u \<le> 0"
proof -
  let ?g = "f64_of_int (saturate (- 4) 4 g)"
  have g: "?g = of_int (saturate (- 4) 4 g)" by (simp add: saturate_def)
  with assms(2) have g0: "?g \<le> 0" by (simp add: saturate_def)
  have n: "0 \<le> neg_factor t" using assms(1) by (simp add: tuning_ok_def)
  have "fmul (fmul ?g u) (neg_factor t) \<le> 0"
    using g0 n assms(4) by (intro fmul_nonpos)
  moreover have "0 \<le> ?g \<Longrightarrow> fmul (fmul ?g u) boost \<le> 0" using g0 by simp
  ultimately show ?thesis
    using assms(3) by (simp add: gt_raw_def Let_def fadd_nonpos)
qed

lemma gt_real_nonpos [float_sign]:
  assumes "tuning_ok t" "0 \<le> kappa" "r \<le> 0"
  shows "fst (gt_real t r tier counterpart kappa g) \<le> 0"
proof -
  have "fadd (fmul (gt_decay t tier) (max r 0)) (min r 0) \<le> 0"
    using assms(3) by (intro fadd_nonpos) (simp_all add: max_def)
  moreover have "0 \<le> snd (gt_real t r tier counterpart kappa g)"
    using assms(1,2) by (rule gt_charge_nonneg)
  ultimately show ?thesis by (auto simp: gt_real_def Let_def intro: fsub_nonpos)
qed

text \<open>The gate: what is not committed stays pending, and what is committed clears it.\<close>

lemma gt_gate_cases:
  "gt_gate t rho pend = (fadd pend rho, 0) \<and> delta_threshold t \<le> \<bar>fadd pend rho\<bar>
   \<or> gt_gate t rho pend = (0, fadd pend rho) \<and> \<bar>fadd pend rho\<bar> < delta_threshold t"
  by (auto simp: gt_gate_def Let_def)

lemma gt_gate_nonpos:
  "rho \<le> 0 \<Longrightarrow> pend \<le> 0 \<Longrightarrow> fst (gt_gate t rho pend) \<le> 0 \<and> snd (gt_gate t rho pend) \<le> 0"
  using gt_gate_cases [of t rho pend] fadd_nonpos [of pend rho] by auto

definition axis_nonpos :: "f64 \<times> f64 \<times> f64 \<times> f64 \<Rightarrow> bool" where
  "axis_nonpos x \<longleftrightarrow> (case x of (raw, committed, pend, charged) \<Rightarrow>
     raw \<le> 0 \<and> committed \<le> 0 \<and> pend \<le> 0)"

lemma gt_axis_nonpos:
  assumes "tuning_ok t" "g \<le> 0" "rule_d \<le> 0" "pend \<le> 0" "0 \<le> u"
  shows "axis_nonpos (gt_axis t boost g rule_d tier counterpart pend u)"
proof -
  let ?r = "gt_raw t boost g rule_d u"
  let ?k = "fmul (cross_penalty_ratio t) u"
  have r: "?r \<le> 0" using assms by (intro gt_raw_nonpos)
  have k: "0 \<le> ?k" using assms by (intro fmul_nonneg) (auto simp: tuning_ok_def)
  have "fst (gt_real t ?r tier counterpart ?k g) \<le> 0" using assms(1) k r by (rule gt_real_nonpos)
  from gt_gate_nonpos [OF this assms(4)] r show ?thesis
    by (simp add: gt_axis_def axis_nonpos_def Let_def case_prod_beta)
qed

lemma gt_axis_charge:
  assumes "tuning_ok t" "0 \<le> u"
  shows "0 \<le> snd (snd (snd (gt_axis t boost g rule_d tier counterpart pend u)))"
proof -
  have "0 \<le> fmul (cross_penalty_ratio t) u"
    using assms by (intro fmul_nonneg) (auto simp: tuning_ok_def)
  from gt_charge_nonneg [OF assms(1) this] show ?thesis
    by (simp add: gt_axis_def Let_def case_prod_beta)
qed

text \<open>One axis commits everything it has accumulated, or keeps all of it.\<close>

definition gated :: "f64 \<Rightarrow> f64 \<Rightarrow> f64 \<Rightarrow> bool" where
  "gated theta committed pend \<longleftrightarrow>
     (if committed \<noteq> 0 then pend = 0 \<and> theta \<le> \<bar>committed\<bar> else pend = 0 \<or> \<bar>pend\<bar> < theta)"

lemma gated_gt_gate: "gated (delta_threshold t) (fst (gt_gate t rho pend)) (snd (gt_gate t rho pend))"
  by (auto simp: gt_gate_def gated_def Let_def)

lemma gt_axis_gated:
  "gated (delta_threshold t) (fst (snd (gt_axis t boost g rule_d tier counterpart pend u)))
     (fst (snd (snd (gt_axis t boost g rule_d tier counterpart pend u))))"
  by (simp add: gt_axis_def Let_def case_prod_beta gated_gt_gate)

text \<open>The outcome of a turn, axis by axis.\<close>

definition bond_axis :: "affinity_tuning \<Rightarrow> affinity \<Rightarrow> f64 \<Rightarrow> int \<Rightarrow> f64 \<Rightarrow> f64
    \<Rightarrow> f64 \<times> f64 \<times> f64 \<times> f64" where
  "bond_axis t a boost g rule_d pend = gt_axis t boost g rule_d (tier_index (bond_score a))
     (chemistry_score a) pend (grade_unit_bond t)"

definition chem_axis :: "affinity_tuning \<Rightarrow> affinity \<Rightarrow> f64 \<Rightarrow> int \<Rightarrow> f64 \<Rightarrow> f64
    \<Rightarrow> f64 \<times> f64 \<times> f64 \<times> f64" where
  "chem_axis t a boost g rule_d pend = gt_axis t boost g rule_d (tier_index (chemistry_score a))
     (bond_score a) pend (grade_unit_chem t)"

lemma grade_turn_axes:
  "grade_turn a g rule p boost t =
     (let x = bond_axis t a boost (g_trust g) (d_trust rule) (p_trust p);
          y = bond_axis t a boost (g_intrigue g) (d_intrigue rule) (p_intrigue p);
          z = chem_axis t a boost (g_intimacy g) (d_intimacy rule) (p_intimacy p);
          w = chem_axis t a boost (g_tension g) (d_tension rule) (p_tension p)
      in \<lparr>out_raw = \<lparr>d_warmth = 0, d_trust = fst x, d_intrigue = fst y, d_intimacy = fst z,
                     d_patience = 0, d_tension = fst w\<rparr>,
          out_committed = \<lparr>d_warmth = 0, d_trust = fst (snd x), d_intrigue = fst (snd y),
                     d_intimacy = fst (snd z), d_patience = 0, d_tension = fst (snd w)\<rparr>,
          out_pending = \<lparr>p_trust = fst (snd (snd x)), p_intrigue = fst (snd (snd y)),
                     p_intimacy = fst (snd (snd z)), p_tension = fst (snd (snd w))\<rparr>,
          out_penalty = \<lparr>x_trust = snd (snd (snd x)), x_intrigue = snd (snd (snd y)),
                     x_intimacy = snd (snd (snd z)), x_tension = snd (snd (snd w))\<rparr>\<rparr>)"
  by (simp add: grade_turn_def bond_axis_def chem_axis_def Let_def case_prod_beta)

lemma line_axis_nonpos:
  assumes "tuning_ok t" "g \<le> 0" "rule_d \<le> 0" "pend \<le> 0"
  shows "axis_nonpos (bond_axis t a boost g rule_d pend)" "axis_nonpos (chem_axis t a boost g rule_d pend)"
  using assms by (auto simp: bond_axis_def chem_axis_def tuning_ok_def [of t] intro!: gt_axis_nonpos)

lemma line_axis_charge:
  assumes "tuning_ok t"
  shows "0 \<le> snd (snd (snd (bond_axis t a boost g rule_d pend)))"
    and "0 \<le> snd (snd (snd (chem_axis t a boost g rule_d pend)))"
  using assms by (auto simp: bond_axis_def chem_axis_def tuning_ok_def [of t] intro!: gt_axis_charge)

lemma line_axis_gated:
  "gated (delta_threshold t) (fst (snd (bond_axis t a boost g rule_d pend)))
     (fst (snd (snd (bond_axis t a boost g rule_d pend))))"
  "gated (delta_threshold t) (fst (snd (chem_axis t a boost g rule_d pend)))
     (fst (snd (snd (chem_axis t a boost g rule_d pend))))"
  by (simp_all add: bond_axis_def chem_axis_def gt_axis_gated)

section \<open>Committing a verdict\<close>

lemma clamp_fadd_le: "unit x \<Longrightarrow> d \<le> 0 \<Longrightarrow> clamp (fadd x d) 0 1 \<le> x"
  using fadd_le [of x d] by (auto simp: unit_def clamp_def)

lemma clamp_fadd_0: "unit x \<Longrightarrow> clamp (fadd x 0) 0 1 = x"
  by (auto simp: unit_def clamp_def fadd_def is_f64_def)

lemma line_mean_mono:
  "x \<le> x' \<Longrightarrow> y \<le> y' \<Longrightarrow> line_mean x y \<le> line_mean x' y'"
  unfolding line_mean_def clamp_def
  using fdiv_mono [OF _ fadd_mono [of x x' y y'], of 2] by auto

lemma line_tier_mono:
  assumes "trust a \<le> trust b" "intrigue a \<le> intrigue b" "intimacy a \<le> intimacy b"
    "tension a \<le> tension b"
  shows "line_tier l a \<le> line_tier l b"
  using assms
  by (cases l) (simp_all add: line_tier_def bond_tier_def chem_tier_def bond_score_mean
      chemistry_score_mean tier_index_mono line_mean_mono)

lemma lower_axes_apply:
  assumes "axes_ok a" "d_trust d \<le> 0" "d_intrigue d \<le> 0" "d_intimacy d \<le> 0" "d_tension d \<le> 0"
  shows "trust (apply_deltas now d a) \<le> trust a \<and> intrigue (apply_deltas now d a) \<le> intrigue a
    \<and> intimacy (apply_deltas now d a) \<le> intimacy a \<and> tension (apply_deltas now d a) \<le> tension a"
  using assms by (simp add: apply_deltas_def axes_ok_def clamp_fadd_le)

definition no_gain :: "axis_grades \<Rightarrow> affinity_deltas \<Rightarrow> pending_deltas \<Rightarrow> bool" where
  "no_gain g rule p \<longleftrightarrow>
     g_trust g \<le> 0 \<and> g_intrigue g \<le> 0 \<and> g_intimacy g \<le> 0 \<and> g_tension g \<le> 0
     \<and> d_trust rule \<le> 0 \<and> d_intrigue rule \<le> 0 \<and> d_intimacy rule \<le> 0 \<and> d_tension rule \<le> 0
     \<and> p_trust p \<le> 0 \<and> p_intrigue p \<le> 0 \<and> p_intimacy p \<le> 0 \<and> p_tension p \<le> 0"

lemma grade_turn_nonpos:
  assumes t: "tuning_ok t" and n: "no_gain g rule p"
  and out: "out = grade_turn a g rule p boost t"
  shows "d_trust (out_committed out) \<le> 0 \<and> d_intrigue (out_committed out) \<le> 0
      \<and> d_intimacy (out_committed out) \<le> 0 \<and> d_tension (out_committed out) \<le> 0"
    and "p_trust (out_pending out) \<le> 0 \<and> p_intrigue (out_pending out) \<le> 0
      \<and> p_intimacy (out_pending out) \<le> 0 \<and> p_tension (out_pending out) \<le> 0"
  using n line_axis_nonpos [OF t, unfolded axis_nonpos_def case_prod_beta]
  by (simp_all add: out grade_turn_axes Let_def no_gain_def)

section \<open>The stored row over its life\<close>

text \<open>
  One step of a stored row: a verdict is graded and committed, the clock decays it, its
  endpoints are refreshed for a new level read, a refused action drops a line.
\<close>

inductive aff_step :: "affinity \<Rightarrow> affinity \<Rightarrow> bool" where
  step_grade: "aff_step a (apply_deltas now (out_committed (grade_turn a g rule p boost t)) a)"
| step_decay: "aff_step a (apply_time_decay now a)"
| step_levels: "aff_step a (refresh_endpoints now t (a\<lparr>warmth_grade := w, patience_grade := q\<rparr>))"
| step_drop: "aff_step a (drop_line_tier a l a)"

inductive aff_init :: "affinity \<Rightarrow> bool" where
  "aff_init (unrecorded now)"

lemma axes_ok_levels: "axes_ok (a\<lparr>warmth_grade := w, patience_grade := q\<rparr>) = axes_ok a"
  by (simp add: axes_ok_def)

interpretation aff_row: guarded_system aff_init aff_step axes_ok
proof
  show "aff_init s \<Longrightarrow> axes_ok s" for s
    by (auto elim!: aff_init.cases simp: axis_simps)
  show "aff_step s t \<Longrightarrow> axes_ok s \<Longrightarrow> axes_ok t" for s t
    by (auto elim!: aff_step.cases simp: axis_simps axes_ok_levels)
qed

end
