(* ===== verification/Affinity_Props.thy ===== *)
theory Affinity_Props
  imports Affinity_Grade
begin

text \<open>The properties of the relationship model, each with a concrete witness.\<close>

text \<open>A row at the top of the bond line, for the witnesses.\<close>

definition soulmate_row :: affinity where
  "soulmate_row = (unrecorded 0)\<lparr>trust := 1, intrigue := 1\<rparr>"

lemma axes_ok_soulmate: "axes_ok soulmate_row"
  using axes_ok_unrecorded [of 0] by (simp add: soulmate_row_def axes_ok_def)

lemma bond_tier_soulmate: "bond_tier soulmate_row = 5"
proof -
  have "fadd 1 1 = (2 :: real)" using rnd64_of_int [of 2] by (simp add: fadd_def)
  moreover have "fdiv 2 2 = (1 :: real)" using f64.rnd_1 by (simp add: fdiv_def)
  ultimately have "bond_score soulmate_row = 1"
    by (simp add: bond_score_def soulmate_row_def clamp_def)
  then show ?thesis using cut_order by (simp add: bond_tier_def tier_index_def)
qed

text \<open>C4: A refused action (\<open>drop_line_tier\<close>) costs the line it acts on exactly one
  tier, or keeps it in the first tier; the bond label is the one a rank below; the other
  line's tier does not change. The two axes are scaled, clamped and averaged again with
  binary64 rounding at every operation.\<close>

theorem refused_action_costs_one_tier:
  assumes "axes_ok before"
  shows "line_tier l (drop_line_tier before l self) = max 1 (line_tier l before - 1)
    \<and> line_tier (other_line l) (drop_line_tier before l self) = line_tier (other_line l) self
    \<and> bond_rank (aff_bond_label (drop_line_tier before Bond self)) = bond_rank (aff_bond_label before) - 1
    \<and> chem_rank (aff_chemistry_label (drop_line_tier before Chemistry self))
        = chem_rank (aff_chemistry_label before) - 1"
proof -
  have b: "bond_rank (aff_bond_label x) = line_tier Bond x - 1"
    and c: "chem_rank (aff_chemistry_label x) = line_tier Chemistry x - 1" for x
    by (simp_all add: aff_bond_label_def aff_chemistry_label_def bond_tier_def chem_tier_def
        line_tier_def bond_rank_from_tier chem_rank_from_tier)
  have m: "max 1 (k - 1) - 1 = k - 1 - 1" for k :: nat by arith
  show ?thesis unfolding b c drop_line_tier_tier [OF assms] m by blast
qed

theorem refused_action_costs_one_tier_witness:
  "line_tier Bond (drop_line_tier soulmate_row Bond soulmate_row) = 4"
  using refused_action_costs_one_tier [OF axes_ok_soulmate, of Bond soulmate_row]
  by (simp add: line_tier_def [of Bond soulmate_row] bond_tier_soulmate)

text \<open>Every row reached from a fresh one by graded verdicts, time decay, level
  reads and refused actions keeps its six axes in the unit interval, and the tiers its
  labels name are those of its scores.\<close>

theorem stored_rows_stay_in_range:
  assumes "reach aff_init aff_step a"
  shows "axes_ok a \<and> bond_rank (aff_bond_label a) + 1 = bond_tier a
    \<and> chem_rank (aff_chemistry_label a) + 1 = chem_tier a"
  using aff_row.inv_reach [OF assms] tier_index_range(1) [of "bond_score a"]
    tier_index_range(1) [of "chemistry_score a"]
  by (simp add: aff_bond_label_def aff_chemistry_label_def bond_tier_def chem_tier_def
      bond_rank_from_tier chem_rank_from_tier)

theorem stored_rows_stay_in_range_witness:
  "axes_ok (drop_line_tier (unrecorded 7) Chemistry (unrecorded 7))"
proof -
  have "reach aff_init aff_step (unrecorded 7)" by (intro reach_init aff_init.intros)
  from stored_rows_stay_in_range [OF reach_step [OF this step_drop]] show ?thesis by blast
qed

text \<open>C15: With the tuning of any environment, a verdict without a positive grade, rule
  nudge or pending balance commits no gain: no line axis and no tier rises, the endpoints are
  untouched, and what stays pending is not positive either.\<close>

theorem negative_verdict_never_raises:
  assumes "axes_ok a" "no_gain g rule p"
    and "out = grade_turn a g rule p boost (affinity_tuning_from env)"
    and "b = apply_deltas now (out_committed out) a"
  shows "trust b \<le> trust a \<and> intrigue b \<le> intrigue a \<and> intimacy b \<le> intimacy a
    \<and> tension b \<le> tension a \<and> bond_tier b \<le> bond_tier a \<and> chem_tier b \<le> chem_tier a
    \<and> warmth b = warmth a \<and> patience b = patience a
    \<and> p_trust (out_pending out) \<le> 0 \<and> p_intrigue (out_pending out) \<le> 0
    \<and> p_intimacy (out_pending out) \<le> 0 \<and> p_tension (out_pending out) \<le> 0"
proof -
  note n = grade_turn_nonpos [OF tuning_ok_from_env assms(2,3)]
  have ax: "trust b \<le> trust a \<and> intrigue b \<le> intrigue a \<and> intimacy b \<le> intimacy a
      \<and> tension b \<le> tension a"
    using lower_axes_apply [OF assms(1), of "out_committed out"] n(1) assms(4) by blast
  then have "line_tier Bond b \<le> line_tier Bond a" "line_tier Chemistry b \<le> line_tier Chemistry a"
    by (auto intro: line_tier_mono)
  moreover have "warmth b = warmth a \<and> patience b = patience a"
    using assms(1,3,4) by (simp add: apply_deltas_def grade_turn_axes Let_def axes_ok_def clamp_fadd_0)
  ultimately show ?thesis using ax n(2) by (simp add: line_tier_def)
qed

definition all_cold :: axis_grades where
  "all_cold = \<lparr>g_trust = -4, g_intrigue = -1, g_intimacy = 0, g_tension = -2\<rparr>"

theorem negative_verdict_never_raises_witness:
  "bond_tier (apply_deltas 5 (out_committed (grade_turn soulmate_row all_cold zero_deltas
      zero_pending 1 (affinity_tuning_from (\<lambda>_. None)))) soulmate_row) \<le> 5"
proof -
  have "no_gain all_cold zero_deltas zero_pending"
    by (simp add: no_gain_def all_cold_def zero_deltas_def zero_pending_def)
  from negative_verdict_never_raises [OF axes_ok_soulmate this refl refl] show ?thesis
    by (simp add: bond_tier_soulmate)
qed

text \<open>The penalty a turn assesses is never negative on any axis, and each axis
  either commits its whole accumulated balance, at or above the threshold, or keeps it
  pending below the threshold: nothing is lost and nothing is charged twice.\<close>

theorem grade_turn_accounts:
  assumes "out = grade_turn a g rule p boost t" "t = affinity_tuning_from env"
  shows "0 \<le> x_trust (out_penalty out) \<and> 0 \<le> x_intrigue (out_penalty out)
    \<and> 0 \<le> x_intimacy (out_penalty out) \<and> 0 \<le> x_tension (out_penalty out)
    \<and> gated (delta_threshold t) (d_trust (out_committed out)) (p_trust (out_pending out))
    \<and> gated (delta_threshold t) (d_intrigue (out_committed out)) (p_intrigue (out_pending out))
    \<and> gated (delta_threshold t) (d_intimacy (out_committed out)) (p_intimacy (out_pending out))
    \<and> gated (delta_threshold t) (d_tension (out_committed out)) (p_tension (out_pending out))"
  using line_axis_charge [OF tuning_ok_from_env [of env]] assms(2)
  by (simp add: assms(1) grade_turn_axes Let_def line_axis_gated)

theorem grade_turn_accounts_witness:
  "0 \<le> x_trust (out_penalty (grade_turn soulmate_row all_cold zero_deltas zero_pending 1
     (affinity_tuning_from (\<lambda>_. None))))"
  using grade_turn_accounts [OF refl refl, of soulmate_row all_cold zero_deltas zero_pending 1 "\<lambda>_. None"]
  by blast

text \<open>The engagement floor of an endpoint acts on a cold verdict only: for the floor
  ratio of any environment, an endpoint of level 2 or 3 is what it would be without a floor,
  and one of level 1 is the floor alone. The endpoint grows with the level, the counterpart
  line and the decay factor, and stays in the unit interval.\<close>

theorem endpoint_floor_only_when_cold:
  assumes "0 \<le> c" "c \<le> 1" and r: "r = floor_ratio (affinity_tuning_from env)"
  shows "(2 \<le> l \<longrightarrow> endpoint_value l c d r
             = fclamp (fmul (fmul (endpoint_base l) (endpoint_boost c)) d) 0 1)
    \<and> (l \<le> 1 \<longrightarrow> endpoint_value l c d r = fclamp (fmul (fmul r c) d) 0 1)
    \<and> (\<forall>l' c' d'. l' \<le> l \<and> 0 \<le> c' \<and> c' \<le> c \<and> 0 \<le> d' \<and> d' \<le> d
          \<longrightarrow> endpoint_value l' c' d' r \<le> endpoint_value l c d r)
    \<and> 0 \<le> endpoint_value l c d r \<and> endpoint_value l c d r \<le> 1"
proof -
  have u: "0 \<le> r" "r \<le> 24/100 + slack"
    using tuning_ok_from_env [of env] flit_bounds [of "0.24"] r by (auto simp: tuning_ok_def)
  have w: "2 \<le> l \<Longrightarrow> endpoint_value l c d r
      = fclamp (fmul (fmul (endpoint_base l) (endpoint_boost c)) d) 0 1"
    by (rule endpoint_value_warm [OF assms(1,2) u(2)])
  have k: "l \<le> 1 \<Longrightarrow> endpoint_value l c d r = fclamp (fmul (fmul r c) d) 0 1"
    by (rule endpoint_value_cold [OF assms(1) u(1)])
  have m: "endpoint_value l' c' d' r \<le> endpoint_value l c d r"
    if "l' \<le> l" "0 \<le> c'" "c' \<le> c" "0 \<le> d'" "d' \<le> d" for l' c' d'
    using that assms(2) u(1) by (intro endpoint_value_mono)
  have "unit (endpoint_value l c d r)" by simp
  then show ?thesis using w k m by (simp add: unit_def)
qed

theorem endpoint_floor_only_when_cold_witness:
  "endpoint_value 2 0 1 (floor_ratio (affinity_tuning_from (\<lambda>_. Some (str ''0.9''))))
     = fclamp (fmul (fmul (endpoint_base 2) (endpoint_boost 0)) 1) 0 1"
  using endpoint_floor_only_when_cold [OF _ _ refl, of 0 2 1 "\<lambda>_. Some (str ''0.9'')"] by simp

text \<open>The label changes of a turn are reported exactly when a line's tier changed,
  with the keys of the tiers before and after, and only for the lines that moved.\<close>

theorem label_changes_exact:
  "(diff_labels before after = None \<longleftrightarrow>
      bond_tier before = bond_tier after \<and> chem_tier before = chem_tier after)
   \<and> (\<forall>ch. diff_labels before after = Some ch \<longrightarrow>
        lc_bond ch = (if bond_tier before = bond_tier after then None
          else Some \<lparr>lt_from = bond_as_key (aff_bond_label before),
                     lt_to = bond_as_key (aff_bond_label after)\<rparr>)
        \<and> lc_chemistry ch = (if chem_tier before = chem_tier after then None
          else Some \<lparr>lt_from = chem_as_key (aff_chemistry_label before),
                     lt_to = chem_as_key (aff_chemistry_label after)\<rparr>))"
proof -
  have b: "aff_bond_label x = aff_bond_label y \<longleftrightarrow> bond_tier x = bond_tier y" for x y
    unfolding aff_bond_label_def bond_tier_def
    by (cases "bond_score x" rule: tier_cases; cases "bond_score y" rule: tier_cases)
      (simp_all add: bond_from_tier_def)
  have c: "aff_chemistry_label x = aff_chemistry_label y \<longleftrightarrow> chem_tier x = chem_tier y" for x y
    unfolding aff_chemistry_label_def chem_tier_def
    by (cases "chemistry_score x" rule: tier_cases; cases "chemistry_score y" rule: tier_cases)
      (simp_all add: chem_from_tier_def)
  show ?thesis by (auto simp: diff_labels_def label_changes_is_empty_def b c Let_def)
qed

theorem label_changes_exact_witness:
  "diff_labels soulmate_row (drop_line_tier soulmate_row Bond soulmate_row) \<noteq> None"
  using label_changes_exact [of soulmate_row "drop_line_tier soulmate_row Bond soulmate_row"]
    drop_line_tier_tier(1) [OF axes_ok_soulmate, of Bond soulmate_row]
  by (simp add: line_tier_def bond_tier_soulmate)

end
