(* ===== verification/Scope.thy ===== *)
theory Scope
  imports Affinity_Laws "HOL-Library.Signed_Division"
begin

text \<open>
  The injection scopes and the recall gate
  (\<open>crates/eros-engine-core/src/scope.rs\<close>): what of the user's profile and of the
  relationship may enter a prompt. A tier is a \<open>u8\<close> (a natural number, 1 to 5 where it
  comes from an affinity row); a memory limit \<open>k\<close> is an \<open>i32\<close>, an integer whose sum
  wraps at 32 bits.
\<close>

section \<open>Memory scope\<close>

datatype insight_mode = InsightOff | InsightNeutral | InsightFull

datatype memory_scope = MemFull | NeutralAndRelationship | RelationshipOnly | NeutralOnly
  | InsightsOnly | MemNone

definition default_memory_scope :: memory_scope where
  "default_memory_scope = NeutralAndRelationship"

definition resolve_scope :: "memory_scope \<Rightarrow> insight_mode \<times> bool \<times> bool" where
  "resolve_scope m = (case m of
     MemFull \<Rightarrow> (InsightFull, True, True)
   | NeutralAndRelationship \<Rightarrow> (InsightNeutral, True, True)
   | RelationshipOnly \<Rightarrow> (InsightOff, False, True)
   | NeutralOnly \<Rightarrow> (InsightNeutral, False, False)
   | InsightsOnly \<Rightarrow> (InsightFull, False, False)
   | MemNone \<Rightarrow> (InsightOff, False, False))"

section \<open>Intimate fields and the recall gate\<close>

datatype intimate_field = LoveValues | RelationshipHistory | Kinks | Interests | EmotionalNeeds
  | Family | FinanceStatus | MentalHealth

definition all_intimate_fields :: "intimate_field list" where
  "all_intimate_fields = [LoveValues, RelationshipHistory, Kinks, Interests, EmotionalNeeds, Family,
     FinanceStatus, MentalHealth]"

definition field_threshold :: "intimate_field \<Rightarrow> affinity_line \<times> nat" where
  "field_threshold f = (case f of
     LoveValues \<Rightarrow> (Chemistry, 2) | RelationshipHistory \<Rightarrow> (Chemistry, 3) | Kinks \<Rightarrow> (Chemistry, 4)
   | Interests \<Rightarrow> (Bond, 2) | EmotionalNeeds \<Rightarrow> (Bond, 3) | Family \<Rightarrow> (Bond, 3)
   | FinanceStatus \<Rightarrow> (Bond, 4) | MentalHealth \<Rightarrow> (Bond, 4))"

definition from_memory_domain :: "rstr \<Rightarrow> intimate_field option" where
  "from_memory_domain domain =
     (let d = to_ascii_lowercase (trim domain)
      in if d = str ''sexuality'' \<or> d = str ''kink'' then Some Kinks
         else if d = str ''romance'' then Some LoveValues
         else if d = str ''family'' then Some Family
         else if d = str ''finance'' then Some FinanceStatus
         else if d = str ''health'' \<or> d = str ''mental_health'' then Some MentalHealth
         else None)"

record recall_gate =
  gate_bond_tier :: nat
  gate_chem_tier :: nat

definition stranger_gate :: recall_gate where
  "stranger_gate = \<lparr>gate_bond_tier = 1, gate_chem_tier = 1\<rparr>"

definition gate_from_affinity :: "affinity \<Rightarrow> recall_gate" where
  "gate_from_affinity a = \<lparr>gate_bond_tier = bond_tier a, gate_chem_tier = chem_tier a\<rparr>"

definition gate_allows :: "recall_gate \<Rightarrow> intimate_field \<Rightarrow> bool" where
  "gate_allows g f =
     (let (line, lowest) = field_threshold f;
          tier = (case line of Bond \<Rightarrow> gate_bond_tier g | Chemistry \<Rightarrow> gate_chem_tier g)
      in lowest \<le> tier)"

definition allows_memory_domain :: "recall_gate \<Rightarrow> rstr option \<Rightarrow> bool" where
  "allows_memory_domain g domain =
     (case Option.bind domain from_memory_domain of None \<Rightarrow> True | Some f \<Rightarrow> gate_allows g f)"

definition higher_tier :: "recall_gate \<Rightarrow> nat" where
  "higher_tier g = max (gate_bond_tier g) (gate_chem_tier g)"

definition recalls_profile_layer :: "recall_gate \<Rightarrow> bool" where
  "recalls_profile_layer g \<longleftrightarrow> 2 \<le> higher_tier g"

definition i32_add :: "int \<Rightarrow> int \<Rightarrow> int" where
  "i32_add x y = signed_take_bit 31 (x + y)"

definition profile_k :: "recall_gate \<Rightarrow> int \<Rightarrow> int" where
  "profile_k g k =
     (if higher_tier g \<le> 1 then 0
      else if higher_tier g = 2 then (i32_add k 1) sdiv 2 else k)"

definition relationship_k :: "recall_gate \<Rightarrow> int \<Rightarrow> int" where
  "relationship_k g k = min k (int (higher_tier g))"

section \<open>Affinity scope\<close>

datatype affinity_axis = Warmth | Trust | Intrigue | Intimacy | Patience | Tension

record affinity_scope =
  s_warmth :: bool
  s_trust :: bool
  s_intrigue :: bool
  s_intimacy :: bool
  s_patience :: bool
  s_tension :: bool

definition scope_none :: affinity_scope where
  "scope_none = \<lparr>s_warmth = False, s_trust = False, s_intrigue = False, s_intimacy = False,
     s_patience = False, s_tension = False\<rparr>"

definition scope_full :: affinity_scope where
  "scope_full = \<lparr>s_warmth = True, s_trust = True, s_intrigue = True, s_intimacy = True,
     s_patience = True, s_tension = True\<rparr>"

definition scope_bond :: affinity_scope where
  "scope_bond = \<lparr>s_warmth = True, s_trust = False, s_intrigue = False, s_intimacy = True,
     s_patience = False, s_tension = True\<rparr>"

definition scope_chemistry :: affinity_scope where
  "scope_chemistry = \<lparr>s_warmth = False, s_trust = True, s_intrigue = True, s_intimacy = False,
     s_patience = True, s_tension = False\<rparr>"

definition set_axis :: "affinity_axis \<Rightarrow> affinity_scope \<Rightarrow> affinity_scope" where
  "set_axis a s = (case a of Warmth \<Rightarrow> s\<lparr>s_warmth := True\<rparr> | Trust \<Rightarrow> s\<lparr>s_trust := True\<rparr>
     | Intrigue \<Rightarrow> s\<lparr>s_intrigue := True\<rparr> | Intimacy \<Rightarrow> s\<lparr>s_intimacy := True\<rparr>
     | Patience \<Rightarrow> s\<lparr>s_patience := True\<rparr> | Tension \<Rightarrow> s\<lparr>s_tension := True\<rparr>)"

definition from_axes :: "affinity_axis list \<Rightarrow> affinity_scope" where
  "from_axes axes = fold set_axis axes scope_none"

definition any_bond_axis :: "affinity_scope \<Rightarrow> bool" where
  "any_bond_axis s \<longleftrightarrow> s_warmth s \<or> s_intimacy s \<or> s_tension s"

definition any_chemistry_axis :: "affinity_scope \<Rightarrow> bool" where
  "any_chemistry_axis s \<longleftrightarrow> s_trust s \<or> s_intrigue s \<or> s_patience s"

definition scope_contains :: "affinity_scope \<Rightarrow> affinity_axis \<Rightarrow> bool" where
  "scope_contains s a = (case a of Warmth \<Rightarrow> s_warmth s | Trust \<Rightarrow> s_trust s
     | Intrigue \<Rightarrow> s_intrigue s | Intimacy \<Rightarrow> s_intimacy s | Patience \<Rightarrow> s_patience s
     | Tension \<Rightarrow> s_tension s)"

definition scope_is_empty :: "affinity_scope \<Rightarrow> bool" where
  "scope_is_empty s \<longleftrightarrow> \<not> (s_warmth s \<or> s_trust s \<or> s_intrigue s \<or> s_intimacy s
     \<or> s_patience s \<or> s_tension s)"

definition active_count :: "affinity_scope \<Rightarrow> nat" where
  "active_count s = length (filter (\<lambda>b. b)
     [s_warmth s, s_trust s, s_intrigue s, s_intimacy s, s_patience s, s_tension s])"

definition clamp01 :: "f64 \<Rightarrow> f64" where
  "clamp01 x = fclamp x 0 1"

definition length_score :: "affinity_scope \<Rightarrow> affinity \<Rightarrow> f64 option" where
  "length_score s a =
     (let warm01 = clamp01 (warmth a);
          bond = clamp01 (fdiv (fadd (fadd warm01 (intimacy a)) (tension a)) 3);
          chemistry = clamp01 (fdiv (fadd (fadd (trust a) (intrigue a)) (patience a)) 3);
          bond_active = (s_warmth s \<or> s_intimacy s \<or> s_tension s);
          chem_active = (s_trust s \<or> s_intrigue s \<or> s_patience s)
      in if bond_active \<and> chem_active then Some (fdiv (fadd bond chemistry) 2)
         else if bond_active then Some bond
         else if chem_active then Some chemistry else None)"

definition romance_compatible :: "memory_scope \<Rightarrow> affinity_scope \<Rightarrow> bool" where
  "romance_compatible memory aff \<longleftrightarrow> snd (snd (resolve_scope memory)) \<and> any_chemistry_axis aff"

section \<open>The gate narrows, and opens with the tiers\<close>

definition gate_le :: "recall_gate \<Rightarrow> recall_gate \<Rightarrow> bool" where
  "gate_le g h \<longleftrightarrow> gate_bond_tier g \<le> gate_bond_tier h \<and> gate_chem_tier g \<le> gate_chem_tier h"

definition i32_range :: "int \<Rightarrow> bool" where
  "i32_range k \<longleftrightarrow> - (2 ^ 31) \<le> k \<and> k < 2 ^ 31"

lemma i32_add_exact: "i32_range (x + y) \<Longrightarrow> i32_add x y = x + y"
  by (simp add: i32_add_def i32_range_def signed_take_bit_int_eq_self)

lemma gate_allows_mono: "gate_le g h \<Longrightarrow> gate_allows g f \<Longrightarrow> gate_allows h f"
  by (cases f) (auto simp: gate_allows_def gate_le_def field_threshold_def)

lemma higher_tier_mono: "gate_le g h \<Longrightarrow> higher_tier g \<le> higher_tier h"
  by (auto simp: gate_le_def higher_tier_def)

lemma half_up: "0 \<le> k \<Longrightarrow> k < 2 ^ 31 - 1 \<Longrightarrow> i32_add k 1 sdiv 2 = (k + 1) div 2"
  by (subst i32_add_exact) (simp_all add: i32_range_def signed_divide_int_def)

lemma profile_k_values:
  assumes "0 \<le> k" "k < 2 ^ 31 - 1"
  shows "profile_k g k = (if higher_tier g \<le> 1 then 0
     else if higher_tier g = 2 then (k + 1) div 2 else k)"
  using assms by (simp add: profile_k_def half_up)

text \<open>The recall gate opens with the relationship and only narrows: a higher tier on
  either line never hides a field, a memory domain or a memory; the profile layer is within
  \<open>0..k\<close> and the relationship layer never exceeds \<open>k\<close>, for every limit below the
  largest \<open>i32\<close> (where the half rounded up would overflow).\<close>

theorem recall_gate_monotone:
  assumes "gate_le g h" and "0 \<le> k" and "k < 2 ^ 31 - 1"
  shows "(\<forall>f. gate_allows g f \<longrightarrow> gate_allows h f)
    \<and> (\<forall>d. allows_memory_domain g d \<longrightarrow> allows_memory_domain h d)
    \<and> (recalls_profile_layer g \<longrightarrow> recalls_profile_layer h)
    \<and> profile_k g k \<le> profile_k h k \<and> relationship_k g k \<le> relationship_k h k
    \<and> 0 \<le> profile_k g k \<and> profile_k g k \<le> k \<and> 0 \<le> relationship_k g k \<and> relationship_k g k \<le> k
    \<and> (profile_k g k \<noteq> 0 \<longrightarrow> recalls_profile_layer g)"
proof -
  have d: "allows_memory_domain g d \<longrightarrow> allows_memory_domain h d" for d
    using gate_allows_mono [OF assms(1)] by (auto simp: allows_memory_domain_def split: option.splits)
  note t = higher_tier_mono [OF assms(1)]
  have p: "profile_k g k \<le> profile_k h k" "0 \<le> profile_k g k" "profile_k g k \<le> k"
    using t assms(2) unfolding profile_k_values [OF assms(2,3)] by auto
  show ?thesis
    using gate_allows_mono [OF assms(1)] d p t assms(2)
    by (auto simp: relationship_k_def recalls_profile_layer_def profile_k_def)
qed

theorem recall_gate_monotone_witness:
  "profile_k \<lparr>gate_bond_tier = 2, gate_chem_tier = 1\<rparr> 5
     \<le> profile_k \<lparr>gate_bond_tier = 2, gate_chem_tier = 4\<rparr> 5"
  using recall_gate_monotone [of "\<lparr>gate_bond_tier = 2, gate_chem_tier = 1\<rparr>"
      "\<lparr>gate_bond_tier = 2, gate_chem_tier = 4\<rparr>" 5]
  by (simp add: gate_le_def)

text \<open>A relationship with no affinity yet shows no intimate field and recalls no
  profile memory, and each field answers to its own line: friendship alone never unlocks a
  romance field, nor romance a friendship field.\<close>

theorem recall_gate_lines_separate:
  "\<not> gate_allows stranger_gate f \<and> \<not> recalls_profile_layer stranger_gate
   \<and> profile_k stranger_gate k = 0
   \<and> gate_allows g f = gate_allows (case fst (field_threshold f) of
        Bond \<Rightarrow> g\<lparr>gate_chem_tier := t\<rparr> | Chemistry \<Rightarrow> g\<lparr>gate_bond_tier := t\<rparr>) f
   \<and> f \<in> set all_intimate_fields \<and> distinct all_intimate_fields"
  by (cases f) (simp_all add: gate_allows_def field_threshold_def stranger_gate_def
      recalls_profile_layer_def higher_tier_def profile_k_def all_intimate_fields_def)

section \<open>Affinity scopes as sets of axes\<close>

lemma contains_set_axis: "scope_contains (set_axis a s) b \<longleftrightarrow> a = b \<or> scope_contains s b"
  by (cases a; cases b) (simp_all add: set_axis_def scope_contains_def)

lemma contains_fold:
  "scope_contains (fold set_axis axes s) b \<longleftrightarrow> b \<in> set axes \<or> scope_contains s b"
  by (induction axes arbitrary: s) (auto simp: contains_set_axis)

lemma contains_none: "\<not> scope_contains scope_none b"
  by (cases b) (simp_all add: scope_contains_def scope_none_def)

lemma scope_empty_iff: "scope_is_empty s \<longleftrightarrow> (\<forall>b. \<not> scope_contains s b)"
proof
  show "scope_is_empty s \<Longrightarrow> \<forall>b. \<not> scope_contains s b"
    by (auto simp: scope_is_empty_def scope_contains_def split: affinity_axis.split)
  assume r: "\<forall>b. \<not> scope_contains s b"
  show "scope_is_empty s"
    using r [THEN spec, of Warmth] r [THEN spec, of Trust] r [THEN spec, of Intrigue]
      r [THEN spec, of Intimacy] r [THEN spec, of Patience] r [THEN spec, of Tension]
    by (simp add: scope_is_empty_def scope_contains_def)
qed

lemma Collect_axis:
  "Collect P = set (filter P [Warmth, Trust, Intrigue, Intimacy, Patience, Tension])"
proof (rule set_eqI)
  fix x
  show "x \<in> Collect P \<longleftrightarrow> x \<in> set (filter P [Warmth, Trust, Intrigue, Intimacy, Patience, Tension])"
    by (cases x) simp_all
qed

lemma active_count_card: "active_count s = card (Collect (scope_contains s))"
  unfolding Collect_axis by (subst distinct_card) (simp_all add: scope_contains_def active_count_def)

lemma clamp01_unit: "0 \<le> clamp01 x" "clamp01 x \<le> 1"
  by (simp_all add: clamp01_def)

lemma mean_unit:
  assumes "0 \<le> x" "x \<le> 1" "0 \<le> y" "y \<le> 1"
  shows "0 \<le> fdiv (fadd x y) 2 \<and> fdiv (fadd x y) 2 \<le> 1"
proof -
  have "fadd x y \<le> fadd 1 1" using assms by (intro fadd_mono)
  then have "fadd x y \<le> 2" using rnd64_of_int [of 2] by (simp add: fadd_def)
  with assms show ?thesis by (auto intro!: fdiv_nonneg fadd_nonneg fdiv_le_1)
qed

text \<open>A scope built from a list of axes contains exactly those axes, its count is
  their number and it is empty exactly when the list is; a length score exists exactly for a
  scope that is not empty, and it lies in the unit interval whatever the stored row holds.\<close>

theorem affinity_scope_is_its_axes:
  "scope_contains (from_axes axes) x = (x \<in> set axes)
   \<and> active_count (from_axes axes) = card (set axes)
   \<and> scope_is_empty (from_axes axes) = (axes = [])
   \<and> (length_score s a = None \<longleftrightarrow> scope_is_empty s)
   \<and> (\<forall>v. length_score s a = Some v \<longrightarrow> 0 \<le> v \<and> v \<le> 1)"
proof -
  have c: "scope_contains (from_axes axes) b \<longleftrightarrow> b \<in> set axes" for b
    by (simp add: from_axes_def contains_fold contains_none)
  have e: "scope_is_empty (from_axes axes) \<longleftrightarrow> axes = []"
    unfolding scope_empty_iff c by (cases axes) auto
  have l: "length_score s a = None \<longleftrightarrow> scope_is_empty s"
    by (auto simp: length_score_def scope_is_empty_def Let_def)
  have v: "length_score s a = Some v \<longrightarrow> 0 \<le> v \<and> v \<le> 1" for v
    by (auto simp: length_score_def Let_def clamp01_unit mean_unit)
  have "Collect (scope_contains (from_axes axes)) = set axes" using c by auto
  then show ?thesis using c e l v by (simp add: active_count_card)
qed

theorem affinity_scope_is_its_axes_witness:
  "active_count (from_axes [Trust, Warmth, Trust]) = 2"
  using affinity_scope_is_its_axes [of "[Trust, Warmth, Trust]" Trust scope_full "unrecorded 0"]
  by (simp add: card_insert_if)

end
