(* ===== verification/Core_Types.thy ===== *)
theory Core_Types
  imports Scope
begin

text \<open>
  The public types of the engine (\<open>crates/eros-engine-core/src/types.rs\<close>) and the
  persona's item lists (\<open>crates/eros-engine-core/src/persona.rs\<close>). A \<open>Uuid\<close> is a
  natural number; a JSON object is the association list of its members.
\<close>

type_synonym uuid = nat

datatype json = JNull | JBool bool | JNum f64 | JStr rstr | JArr "json list" | JObj "(rstr \<times> json) list"

section \<open>Values of a turn\<close>

record prompt_trait =
  pt_tag :: rstr
  pt_text :: rstr

record llm_audit =
  au_user :: "rstr option"
  au_session_id :: "rstr option"
  au_metadata :: "(rstr \<times> json) list option"

record quoted_message =
  qm_message_id :: uuid
  qm_role :: rstr
  qm_content :: rstr
  qm_sent_at :: instant
  qm_trigger :: "rstr option"

datatype given_item = Cigarette | Alcohol | Medicine | Food | SoftDrink | Tea | Coffee | Herb | Watch
  | Gem | Gold | Camera | Cash | Antique | Artwork | Handmade | CreditCard | Flower

datatype item_kind = KItem | KClothing

datatype user_action =
    Give given_item "rstr option" nat
  | Kiss | Hug | Touch | Lick | FrenchKiss | HugFromBehind | Tease
  | Custom rstr
  | Tip f64
  | Gift item_kind rstr

definition refusal_line :: "user_action \<Rightarrow> affinity_line option" where
  "refusal_line u = (case u of
     Give _ _ _ \<Rightarrow> Some Bond | Gift _ _ \<Rightarrow> Some Bond | Tip _ \<Rightarrow> None | _ \<Rightarrow> Some Chemistry)"

definition item_kind_as_str :: "item_kind \<Rightarrow> rstr" where
  "item_kind_as_str k = (case k of KItem \<Rightarrow> str ''item'' | KClothing \<Rightarrow> str ''clothing'')"

definition item_kind_parse :: "rstr \<Rightarrow> item_kind option" where
  "item_kind_parse s =
     (if s = str ''item'' then Some KItem else if s = str ''clothing'' then Some KClothing else None)"

interpretation item_kind: codec item_kind_as_str item_kind_parse
proof
  show "item_kind_parse (item_kind_as_str x) = Some x" for x
    by (cases x) (simp_all add: item_kind_as_str_def item_kind_parse_def)
  show "item_kind_parse s = Some x \<Longrightarrow> item_kind_as_str x = s" for s x
    by (auto simp: item_kind_parse_def item_kind_as_str_def split: if_splits)
qed

datatype action_response = Accept | Refuse

definition action_response_as_str :: "action_response \<Rightarrow> rstr" where
  "action_response_as_str r = (case r of Accept \<Rightarrow> str ''accept'' | Refuse \<Rightarrow> str ''refuse'')"

datatype image_ref = Face | Previous

datatype action_type = ReplyText | GhostTurn | ReplyImage | ReplyTextImage | ProductQa | Proactive

definition is_text_reply :: "action_type \<Rightarrow> bool" where
  "is_text_reply a \<longleftrightarrow> a = ReplyText \<or> a = ReplyImage \<or> a = ReplyTextImage"

definition promises_image :: "action_type \<Rightarrow> bool" where
  "promises_image a \<longleftrightarrow> a = ReplyImage \<or> a = ReplyTextImage"

definition bears_text :: "action_type \<Rightarrow> bool" where
  "bears_text a \<longleftrightarrow> a = ReplyText \<or> a = ReplyTextImage"

datatype reply_style = WarmStyle | Neutral | Cold | Tsundere | Excited

datatype reply_mode = Listen | Follow | Ask | Judge

definition reply_mode_as_str :: "reply_mode \<Rightarrow> rstr" where
  "reply_mode_as_str m = (case m of Listen \<Rightarrow> str ''listen'' | Follow \<Rightarrow> str ''follow''
     | Ask \<Rightarrow> str ''ask'' | Judge \<Rightarrow> str ''judge'')"

record turn_nudges =
  affirm :: bool
  share_slice :: bool
  open_question :: bool

definition no_nudges :: turn_nudges where
  "no_nudges = \<lparr>affirm = False, share_slice = False, open_question = False\<rparr>"

record user_message =
  um_content :: rstr
  um_message_id :: uuid
  um_prompt_traits :: "prompt_trait list"
  um_audit :: "llm_audit option"
  um_tier :: "rstr option"
  um_memory_scope :: memory_scope
  um_affinity_scope :: affinity_scope
  um_quote :: "quoted_message option"
  um_action :: "user_action option"
  um_outfit :: "rstr option"

datatype event = UserMessage user_message | ProactiveTrigger | AppOpen

section \<open>Plans and inputs of the decision engine\<close>

record action_plan =
  plan_action_type :: action_type
  plan_reply_style :: reply_style
  plan_affinity_deltas :: affinity_deltas
  plan_energy_cost :: f64
  plan_context_hints :: "rstr list"
  plan_reply_mode :: "reply_mode option"
  plan_nudges :: turn_nudges
  plan_clothing :: "rstr option"
  plan_image_caption :: "rstr option"
  plan_image_ref :: image_ref
  plan_aspect_ratio :: "rstr option"
  plan_action_response :: "action_response option"

record conversation_signals =
  message_count :: int
  hours_since_last_message :: f64
  sig_ghost_streak :: int
  hours_since_last_ghost :: "f64 option"

section \<open>The persona and its item lists\<close>

record persona_genome =
  genome_id :: "uuid option"
  genome_name :: rstr
  system_prompt :: rstr
  tip_personality :: "rstr option"
  art_metadata :: json

record persona_instance =
  inst_id :: uuid
  inst_genome_id :: "uuid option"
  owner_uid :: uuid
  inst_status :: rstr

record persona_item =
  item_kind :: item_kind
  item_name :: rstr
  gifted :: bool

record companion_persona =
  cp_instance_id :: uuid
  cp_genome :: persona_genome
  cp_instance :: persona_instance
  cp_items :: "persona_item list"

record decision_input =
  in_event :: event
  in_affinity :: affinity
  in_persona :: companion_persona
  in_signals :: conversation_signals

definition json_get :: "rstr \<Rightarrow> json \<Rightarrow> json option" where
  "json_get key v = (case v of JObj m \<Rightarrow> map_of m key | _ \<Rightarrow> None)"

definition as_str_json :: "json \<Rightarrow> rstr option" where
  "as_str_json v = (case v of JStr s \<Rightarrow> Some s | _ \<Rightarrow> None)"

text \<open>The names one preset list contributes: its strings, trimmed, without the blank ones.\<close>

definition preset_names :: "json \<Rightarrow> rstr \<Rightarrow> rstr list" where
  "preset_names art key =
     (case json_get key art of
        Some (JArr vs) \<Rightarrow> filter (\<lambda>n. n \<noteq> []) (map trim (List.map_filter as_str_json vs))
      | _ \<Rightarrow> [])"

definition preset_items :: "json \<Rightarrow> (item_kind \<times> rstr) list" where
  "preset_items art =
     fold (\<lambda>(kind, key) out. fold (\<lambda>name. push_unique (kind, name)) (preset_names art key) out)
       [(KItem, str ''possessions''), (KClothing, str ''wardrobe'')] []"

fun merge_item :: "persona_item \<Rightarrow> persona_item list \<Rightarrow> persona_item list" where
  "merge_item item [] = [item]"
| "merge_item item (p # ps) =
     (if item_kind p = item_kind item \<and> item_name p = item_name item
      then p\<lparr>gifted := (gifted p \<or> gifted item)\<rparr> # ps
      else p # merge_item item ps)"

definition merge_items :: "json \<Rightarrow> persona_item list \<Rightarrow> persona_item list" where
  "merge_items art inst =
     fold merge_item inst
       (map (\<lambda>(kind, name). \<lparr>item_kind = kind, item_name = name, gifted = False\<rparr>) (preset_items art))"

subsection \<open>No repeats, nothing lost\<close>

definition item_key :: "persona_item \<Rightarrow> item_kind \<times> rstr" where
  "item_key p = (item_kind p, item_name p)"

lemma fold_push_pairs:
  "fold (\<lambda>name. push_unique (kind, name)) names out = push_all_unique (map (Pair kind) names) out"
  by (induction names arbitrary: out) simp_all

lemma preset_items_eq:
  "preset_items art = push_all_unique (map (Pair KClothing) (preset_names art (str ''wardrobe'')))
     (push_all_unique (map (Pair KItem) (preset_names art (str ''possessions''))) [])"
  by (simp add: preset_items_def fold_push_pairs del: str_simps)

lemma distinct_preset_items: "distinct (preset_items art)"
  by (simp add: preset_items_eq)

lemma preset_names_nonblank: "n \<in> set (preset_names art key) \<Longrightarrow> n \<noteq> []"
  by (auto simp: preset_names_def split: option.splits json.splits)

lemma keys_merge_item: "map item_key (merge_item x ps) = push_unique (item_key x) (map item_key ps)"
  by (induction ps) (auto simp: push_unique_def item_key_def)

lemma keys_merge_fold:
  "map item_key (fold merge_item xs ps) = push_all_unique (map item_key xs) (map item_key ps)"
  by (induction xs arbitrary: ps) (simp_all add: keys_merge_item)

lemma map_preset_key:
  "map item_key (map (\<lambda>(kind, name). \<lparr>item_kind = kind, item_name = name, gifted = False\<rparr>) ps) = ps"
  by (induction ps) (auto simp: item_key_def)

definition gifted_in :: "item_kind \<times> rstr \<Rightarrow> persona_item list \<Rightarrow> bool" where
  "gifted_in k ps \<longleftrightarrow> (\<exists>p \<in> set ps. item_key p = k \<and> gifted p)"

lemma gifted_in_merge_item: "gifted_in k (merge_item x ps) \<longleftrightarrow> gifted_in k [x] \<or> gifted_in k ps"
proof (induction ps)
  case Nil
  show ?case by (simp add: gifted_in_def)
next
  case (Cons p ps)
  then show ?case
    by (cases "item_key p = item_key x") (auto simp: gifted_in_def item_key_def)
qed

lemma gifted_in_fold: "gifted_in k (fold merge_item xs ps) \<longleftrightarrow> gifted_in k xs \<or> gifted_in k ps"
proof (induction xs arbitrary: ps)
  case Nil
  show ?case by (simp add: gifted_in_def)
next
  case (Cons x xs)
  have "gifted_in k (x # xs) \<longleftrightarrow> gifted_in k [x] \<or> gifted_in k xs" by (simp add: gifted_in_def)
  then show ?case by (simp add: Cons.IH gifted_in_merge_item disj_ac)
qed

text \<open>The lists a prompt renders name each item once, hold exactly the presets and
  the instance's own items, keep the presets first, and mark an item gifted exactly when some
  instance row of its kind and name came from a gift.\<close>

theorem merge_items_exact:
  "distinct (map item_key (merge_items art inst))
   \<and> set (map item_key (merge_items art inst)) = set (preset_items art) \<union> item_key ` set inst
   \<and> prefix (preset_items art) (map item_key (merge_items art inst))
   \<and> (\<forall>k. gifted_in k (merge_items art inst) \<longleftrightarrow> gifted_in k inst)
   \<and> (\<forall>k \<in> set (preset_items art). snd k \<noteq> [])"
proof -
  have k: "map item_key (merge_items art inst)
      = push_all_unique (map item_key inst) (preset_items art)"
    unfolding merge_items_def keys_merge_fold map_preset_key ..
  have g: "gifted_in x (merge_items art inst) \<longleftrightarrow> gifted_in x inst" for x
    unfolding merge_items_def gifted_in_fold by (auto simp: gifted_in_def)
  have n: "\<forall>k \<in> set (preset_items art). snd k \<noteq> []"
    using preset_names_nonblank [of _ art] by (auto simp: preset_items_eq simp del: str_simps)
  show ?thesis unfolding k using g n distinct_preset_items [of art]
    by (auto simp: prefix_push_all_unique)
qed

theorem merge_items_exact_witness:
  "distinct (map item_key (merge_items (JObj [(str ''wardrobe'', JArr [JStr (str '' red '')])])
     [\<lparr>item_kind = KClothing, item_name = str ''red'', gifted = True\<rparr>]))"
  by (rule merge_items_exact [THEN conjunct1])

end
