(* ===== verification/Needs.thy ===== *)
theory Needs
  imports Core_Types
begin

text \<open>
  The persona's basic needs (\<open>crates/eros-engine-core/src/needs.rs\<close>): levels rated by a
  judge, carried forward in time, and moved by an accepted give. Hours are binary64 and every
  product and quotient of hours is rounded.
\<close>

datatype need_level = LowNeed | MidNeed | HighNeed

record needs =
  hunger :: need_level
  social :: need_level
  stamina :: need_level
  emotional :: need_level
  outing :: need_level
  indulgence :: need_level

record habits =
  smoking :: "bool option"
  alcoholic :: "bool option"
  drug :: "bool option"
  coffee :: "bool option"

definition count_true :: "habits \<Rightarrow> nat" where
  "count_true h = length (filter (\<lambda>x. x = Some True) [smoking h, alcoholic h, drug h, coffee h])"

definition uses_item :: "habits \<Rightarrow> given_item \<Rightarrow> bool option" where
  "uses_item h item = (case item of Cigarette \<Rightarrow> smoking h | Alcohol \<Rightarrow> alcoholic h | Herb \<Rightarrow> drug h
     | Coffee \<Rightarrow> coffee h | _ \<Rightarrow> None)"

definition HUNGER_DRIFT :: "need_level \<times> f64" where "HUNGER_DRIFT = (HighNeed, 4)"
definition SOCIAL_DRIFT :: "need_level \<times> f64" where "SOCIAL_DRIFT = (HighNeed, 12)"
definition STAMINA_DRIFT :: "need_level \<times> f64" where "STAMINA_DRIFT = (MidNeed, 8)"
definition EMOTIONAL_DRIFT :: "need_level \<times> f64" where "EMOTIONAL_DRIFT = (MidNeed, 12)"
definition OUTING_DRIFT :: "need_level \<times> f64" where "OUTING_DRIFT = (MidNeed, 8)"

definition indulgence_drift :: "habits \<Rightarrow> need_level \<times> f64" where
  "indulgence_drift h =
     (let n = count_true h
      in if n = 0 then (MidNeed, 8) else if n = 1 then (HighNeed, 12)
         else if n = 2 then (HighNeed, 8) else (HighNeed, 4))"

definition need_rank :: "need_level \<Rightarrow> int" where
  "need_rank l = (case l of LowNeed \<Rightarrow> 0 | MidNeed \<Rightarrow> 1 | HighNeed \<Rightarrow> 2)"

definition need_from_rank :: "int \<Rightarrow> need_level" where
  "need_from_rank r = (if r \<le> 0 then LowNeed else if r = 1 then MidNeed else HighNeed)"

text \<open>\<open>(hours / period).floor() as i8\<close> saturates.\<close>

definition drift :: "need_level \<Rightarrow> need_level \<times> f64 \<Rightarrow> f64 \<Rightarrow> need_level" where
  "drift level rp hours =
     (let (rest, period) = rp
      in if hours \<le> 0 then level
         else (let steps = f64_as_i8 (of_int \<lfloor>fdiv hours period\<rfloor>);
                   from = need_rank level; to = need_rank rest;
                   moved = (if from < to then from + min steps (to - from)
                            else from - min steps (from - to))
               in need_from_rank moved))"

definition carried :: "needs \<Rightarrow> f64 \<Rightarrow> habits \<Rightarrow> needs" where
  "carried rated hours h =
     \<lparr>hunger = drift (hunger rated) HUNGER_DRIFT hours,
      social = drift (social rated) SOCIAL_DRIFT hours,
      stamina = drift (stamina rated) STAMINA_DRIFT hours,
      emotional = drift (emotional rated) EMOTIONAL_DRIFT hours,
      outing = drift (outing rated) OUTING_DRIFT hours,
      indulgence = drift (indulgence rated) (indulgence_drift h) hours\<rparr>"

definition next_step :: "need_level \<Rightarrow> need_level \<times> f64 \<Rightarrow> f64 \<Rightarrow> f64 option" where
  "next_step level rp hours =
     (let (rest, period) = rp
      in if drift level (rest, period) hours = rest then None
         else (let past = of_int \<lfloor>fdiv (max hours 0) period\<rfloor>
               in Some (fmul (fadd past 1) period)))"

fun min_f64 :: "f64 list \<Rightarrow> f64 option" where
  "min_f64 [] = None"
| "min_f64 (x # xs) = Some (fold min xs x)"

definition next_change :: "needs \<Rightarrow> f64 \<Rightarrow> habits \<Rightarrow> f64 option" where
  "next_change rated hours h = min_f64 (List.map_filter id
     [next_step (hunger rated) HUNGER_DRIFT hours,
      next_step (social rated) SOCIAL_DRIFT hours,
      next_step (stamina rated) STAMINA_DRIFT hours,
      next_step (emotional rated) EMOTIONAL_DRIFT hours,
      next_step (outing rated) OUTING_DRIFT hours,
      next_step (indulgence rated) (indulgence_drift h) hours])"

definition give_move :: "given_item \<Rightarrow> (int \<times> int \<times> int) option" where
  "give_move item = (case item of
     Food \<Rightarrow> Some (-1, 0, 0)
   | Cigarette \<Rightarrow> Some (-1, 1, 1) | Alcohol \<Rightarrow> Some (-1, 1, 1) | Herb \<Rightarrow> Some (-1, 1, 1)
   | Medicine \<Rightarrow> Some (-1, -1, -1) | Coffee \<Rightarrow> Some (-1, -1, -1)
   | _ \<Rightarrow> None)"

definition need_step :: "need_level \<Rightarrow> need_level \<Rightarrow> int \<Rightarrow> need_level" where
  "need_step base rest move = (if move = 0 then rest else need_from_rank (need_rank base + move))"

definition after_give :: "needs option \<Rightarrow> needs option \<Rightarrow> given_item \<Rightarrow> needs option" where
  "after_give baseline judged item =
     (case (baseline, give_move item) of
        (Some base, Some (h, s, i)) \<Rightarrow>
          (let rest = (case judged of Some j \<Rightarrow> j | None \<Rightarrow> base)
           in Some (rest\<lparr>hunger := need_step (hunger base) (hunger rest) h,
                         social := need_step (social base) (social rest) s,
                         indulgence := need_step (indulgence base) (indulgence rest) i\<rparr>))
      | _ \<Rightarrow> judged)"

section \<open>One need over time\<close>

text \<open>The drifts the code uses.\<close>

definition drift_ok :: "need_level \<times> f64 \<Rightarrow> bool" where
  "drift_ok rp \<longleftrightarrow> snd rp \<in> {4, 8, 12}"

lemma drift_ok_consts [simp]:
  "drift_ok HUNGER_DRIFT" "drift_ok SOCIAL_DRIFT" "drift_ok STAMINA_DRIFT" "drift_ok EMOTIONAL_DRIFT"
  "drift_ok OUTING_DRIFT" "drift_ok (indulgence_drift h)"
  by (simp_all add: drift_ok_def HUNGER_DRIFT_def SOCIAL_DRIFT_def STAMINA_DRIFT_def
      EMOTIONAL_DRIFT_def OUTING_DRIFT_def indulgence_drift_def Let_def)

lemma need_rank_range: "0 \<le> need_rank l" "need_rank l \<le> 2"
  by (cases l; simp add: need_rank_def)+

lemma need_from_rank_rank [simp]: "need_from_rank (need_rank l) = l"
  by (cases l) (simp_all add: need_rank_def need_from_rank_def)

lemma need_rank_from_rank: "0 \<le> r \<Longrightarrow> r \<le> 2 \<Longrightarrow> need_rank (need_from_rank r) = r"
  by (auto simp: need_rank_def need_from_rank_def)

lemma need_rank_inj: "need_rank a = need_rank b \<longleftrightarrow> a = b"
  by (metis need_from_rank_rank)

text \<open>
  \<open>full_steps\<close>: the full periods gone by, with the rounding of the quotient. The distance
  left to the resting level is what those steps have not covered yet.
\<close>

definition full_steps :: "f64 \<Rightarrow> f64 \<Rightarrow> int" where
  "full_steps period hours = (if hours \<le> 0 then 0 else \<lfloor>fdiv hours period\<rfloor>)"

definition need_gap :: "need_level \<Rightarrow> need_level \<Rightarrow> int" where
  "need_gap level rest = \<bar>need_rank rest - need_rank level\<bar>"

lemma full_steps_nonneg: "0 < p \<Longrightarrow> 0 \<le> full_steps p x"
  by (auto simp: full_steps_def intro: fdiv_nonneg)

lemma full_steps_mono: "0 < p \<Longrightarrow> x \<le> y \<Longrightarrow> full_steps p x \<le> full_steps p y"
  by (auto simp: full_steps_def intro!: floor_mono fdiv_mono fdiv_nonneg)

lemma steps_capped: "0 \<le> n \<Longrightarrow> g \<le> 2 \<Longrightarrow> min (f64_as_i8 (of_int n)) g = min n g"
  by (auto simp: f64_as_i8_def saturate_def trunc_int_def)

lemma rank_window:
  "0 \<le> n \<Longrightarrow> l \<le> 2 \<Longrightarrow> 0 \<le> r \<Longrightarrow> r \<le> l \<Longrightarrow> 0 \<le> l - min n (l - r) \<and> l - min n (l - r) \<le> (2 :: int)"
  by arith

lemma drift_rank:
  assumes "drift_ok (rest, p)"
  shows "need_rank (drift l (rest, p) x)
     = (if need_rank l < need_rank rest then need_rank l + min (full_steps p x) (need_gap l rest)
        else need_rank l - min (full_steps p x) (need_gap l rest))"
proof (cases "x \<le> 0")
  case True
  then show ?thesis by (simp add: drift_def full_steps_def need_gap_def)
next
  case False
  have p: "0 < p" using assms by (auto simp: drift_ok_def)
  let ?n = "\<lfloor>fdiv x p\<rfloor>"
  have n: "0 \<le> ?n" using False p by (simp add: fdiv_nonneg)
  note r = need_rank_range [of l] need_rank_range [of rest]
  have f: "full_steps p x = ?n" using False by (simp add: full_steps_def)
  show ?thesis
  proof (cases "need_rank l < need_rank rest")
    case True
    have "min (f64_as_i8 (of_int ?n)) (need_rank rest - need_rank l) = min ?n (need_rank rest - need_rank l)"
      using n r by (intro steps_capped) auto
    with True False f n r show ?thesis
      by (simp add: drift_def need_gap_def Let_def need_rank_from_rank)
  next
    case lt: False
    have "min (f64_as_i8 (of_int ?n)) (need_rank l - need_rank rest) = min ?n (need_rank l - need_rank rest)"
      using n r by (intro steps_capped) auto
    moreover have "0 \<le> need_rank l - min ?n (need_rank l - need_rank rest)"
      "need_rank l - min ?n (need_rank l - need_rank rest) \<le> 2"
      using rank_window [OF n, of "need_rank l" "need_rank rest"] r lt by auto
    ultimately show ?thesis using lt False f r
      by (simp add: drift_def need_gap_def Let_def need_rank_from_rank)
  qed
qed

lemma drift_eq_iff:
  assumes "drift_ok (rest, p)"
  shows "drift l (rest, p) x = drift l (rest, p) y
     \<longleftrightarrow> min (full_steps p x) (need_gap l rest) = min (full_steps p y) (need_gap l rest)"
  unfolding need_rank_inj [symmetric] drift_rank [OF assms] by simp

lemma drift_rest_iff:
  assumes "drift_ok (rest, p)"
  shows "drift l (rest, p) x = rest \<longleftrightarrow> need_gap l rest \<le> full_steps p x"
proof -
  have "0 < p" using assms by (auto simp: drift_ok_def)
  then show ?thesis
    using full_steps_nonneg [of p x]
    unfolding need_rank_inj [symmetric] drift_rank [OF assms]
    by (auto simp: need_gap_def split: if_splits)
qed

text \<open>
  The instant of the next full period is exact, and no float before it has completed it: a
  quotient by 4, 8 or 12 never rounds up to an integer.
\<close>

lemma full_steps_at:
  assumes "p \<in> {4, 8, 12}" "0 \<le> n" "n \<le> 2"
  shows "fmul (fadd (of_int n) 1) p = of_int (n + 1) * p"
    and "full_steps p (of_int (n + 1) * p) = n + 1"
proof -
  have a: "fadd (of_int n) 1 = of_int (n + 1)"
    using rnd64_of_int [of "n + 1"] assms by (simp add: fadd_def)
  obtain q where q: "p = of_int q" "q \<in> {4, 8, 12}"
    using assms(1) that [of 4] that [of 8] that [of 12] by auto
  have m: "\<bar>(n + 1) * q\<bar> < 2 ^ 53" using assms q(2) by (auto simp: abs_mult)
  show "fmul (fadd (of_int n) 1) p = of_int (n + 1) * p"
    unfolding a using rnd64_of_int [OF m] by (simp add: fmul_def q(1))
  have "fdiv (of_int (n + 1) * p) p = of_int (n + 1)"
    using rnd64_of_int [of "n + 1"] assms by (auto simp: fdiv_def)
  moreover have "0 < of_int (n + 1) * p" using assms by auto
  ultimately show "full_steps p (of_int (n + 1) * p) = n + 1" by (simp add: full_steps_def)
qed

lemma full_steps_before:
  assumes "p \<in> {4, 8, 12}" "0 \<le> n" "n \<le> 2" "is_f64 x" "x < of_int (n + 1) * p"
  shows "full_steps p x \<le> n"
proof -
  have b: "of_int (n + 1) * p < 2 ^ 53"
  proof -
    have "of_int (n + 1) * p \<le> 3 * 12" using assms by (intro mult_mono) auto
    then show ?thesis by simp
  qed
  have "fdiv x p < of_int (n + 1)"
  proof -
    consider "p = 4" | "p = 8" | "p = 12" using assms(1) by auto
    then show ?thesis
    proof cases
      case 1
      then show ?thesis
        using assms b by (intro fdiv_less_int [where q = 4 and k = 2]) auto
    next
      case 2
      then show ?thesis
        using assms b by (intro fdiv_less_int [where q = 8 and k = 3]) auto
    next
      case 3
      then show ?thesis
        using assms b by (intro fdiv_less_int [where q = 12 and k = 3]) auto
    qed
  qed
  then show ?thesis using assms(2) by (simp add: full_steps_def) linarith
qed


lemma next_step_None:
  assumes "drift_ok (rest, p)" "next_step l (rest, p) x = None" "x \<le> y"
  shows "drift l (rest, p) y = drift l (rest, p) x"
proof -
  have "need_gap l rest \<le> full_steps p x"
    using assms(2) by (simp add: next_step_def Let_def drift_rest_iff [OF assms(1)] split: if_splits)
  moreover have "full_steps p x \<le> full_steps p y"
    using assms(1,3) by (intro full_steps_mono) (auto simp: drift_ok_def)
  ultimately show ?thesis unfolding drift_eq_iff [OF assms(1)] by simp
qed

lemma next_step_Some:
  assumes ok: "drift_ok (rest, p)" and s: "next_step l (rest, p) x = Some t" and x: "is_f64 x"
  shows "x < t"
    and "\<And>y. is_f64 y \<Longrightarrow> x \<le> y \<Longrightarrow> y < t \<Longrightarrow> drift l (rest, p) y = drift l (rest, p) x"
    and "drift l (rest, p) t \<noteq> drift l (rest, p) x"
proof -
  have p: "p \<in> {4, 8, 12}" "0 < p" using ok by (auto simp: drift_ok_def)
  define n where "n = full_steps p x"
  have gap: "n < need_gap l rest"
    using s by (simp add: next_step_def Let_def drift_rest_iff [OF ok] n_def split: if_splits)
  moreover have "need_gap l rest \<le> 2"
    using need_rank_range [of l] need_rank_range [of rest] by (simp add: need_gap_def)
  ultimately have n: "0 \<le> n" "n \<le> 2" using full_steps_nonneg [OF p(2), of x] by (auto simp: n_def)
  have "\<lfloor>fdiv (max x 0) p\<rfloor> = n" by (simp add: n_def full_steps_def max_def)
  then have t: "t = of_int (n + 1) * p"
    using s full_steps_at(1) [OF p(1) n] by (simp add: next_step_def Let_def split: if_splits)
  have at: "full_steps p t = n + 1" unfolding t by (rule full_steps_at(2) [OF p(1) n])
  show "x < t"
    using full_steps_mono [OF p(2), of t x] at by (force simp: n_def not_less [symmetric])
  show "drift l (rest, p) y = drift l (rest, p) x" if "is_f64 y" "x \<le> y" "y < t" for y
  proof -
    have "full_steps p y \<le> n" using that(1,3) t by (intro full_steps_before p n) auto
    moreover have "n \<le> full_steps p y" unfolding n_def by (intro full_steps_mono p that)
    ultimately show ?thesis unfolding drift_eq_iff [OF ok] by (simp add: n_def)
  qed
  show "drift l (rest, p) t \<noteq> drift l (rest, p) x"
    unfolding drift_eq_iff [OF ok] at using gap by (simp add: n_def)
qed

section \<open>The next change\<close>

lemma min_f64_None: "min_f64 xs = None \<longleftrightarrow> xs = []"
  by (cases xs) auto

lemma min_f64_Some: "min_f64 xs = Some t \<Longrightarrow> t \<in> set xs \<and> (\<forall>x \<in> set xs. t \<le> x)"
proof (cases xs)
  case (Cons x ys)
  have "fold min ys x \<in> set (x # ys) \<and> (\<forall>z \<in> set (x # ys). fold min ys x \<le> z)"
  proof (induction ys arbitrary: x)
    case (Cons y ys)
    from Cons.IH [of "min y x"] show ?case by (auto simp: min_def split: if_splits)
  qed simp
  moreover assume "min_f64 xs = Some t"
  ultimately show ?thesis using Cons by auto
qed simp

text \<open>The six needs with their drifts, as one table.\<close>

definition need_table :: "habits \<Rightarrow> ((needs \<Rightarrow> need_level) \<times> need_level \<times> f64) list" where
  "need_table h = [(hunger, HUNGER_DRIFT), (social, SOCIAL_DRIFT), (stamina, STAMINA_DRIFT),
     (emotional, EMOTIONAL_DRIFT), (outing, OUTING_DRIFT), (indulgence, indulgence_drift h)]"

lemma need_table_ok: "(f, d) \<in> set (need_table h) \<Longrightarrow> drift_ok d"
  by (auto simp: need_table_def)

lemma carried_eq_iff:
  "carried r x h = carried r y h \<longleftrightarrow> (\<forall>(f, d) \<in> set (need_table h). drift (f r) d x = drift (f r) d y)"
  by (simp add: carried_def need_table_def)

lemma next_change_table:
  "next_change r x h = min_f64 (List.map_filter (\<lambda>(f, d). next_step (f r) d x) (need_table h))"
  by (simp add: next_change_def need_table_def List.map_filter_def)

lemma set_map_filter: "set (List.map_filter g xs) = {y. \<exists>x \<in> set xs. g x = Some y}"
  by (induction xs) (auto simp: List.map_filter_simps split: option.splits)

text \<open>The next change the engine announces for a persona's needs is exact: it lies
  ahead, the levels carried to it differ from the present ones, and at every float instant
  before it they are the present ones; with none announced the levels never change again.\<close>

theorem next_change_exact:
  assumes "is_f64 x"
  shows "(next_change r x h = None \<longrightarrow> (\<forall>y \<ge> x. carried r y h = carried r x h))
    \<and> (\<forall>t. next_change r x h = Some t \<longrightarrow> x < t \<and> carried r t h \<noteq> carried r x h
         \<and> (\<forall>y. is_f64 y \<and> x \<le> y \<and> y < t \<longrightarrow> carried r y h = carried r x h))"
proof (intro conjI allI impI)
  fix y assume n: "next_change r x h = None" and "x \<le> y"
  have "next_step (f r) d x = None" if "(f, d) \<in> set (need_table h)" for f d
    using n that by (force simp: next_change_table min_f64_None List.map_filter_def filter_empty_conv)
  then show "carried r y h = carried r x h"
    using next_step_None [OF need_table_ok _ \<open>x \<le> y\<close>] unfolding carried_eq_iff by fastforce
next
  fix t assume s: "next_change r x h = Some t"
  from min_f64_Some [OF this [unfolded next_change_table]]
  obtain f rest p where f: "(f, rest, p) \<in> set (need_table h)" "next_step (f r) (rest, p) x = Some t"
    and least: "\<And>f d u. (f, d) \<in> set (need_table h) \<Longrightarrow> next_step (f r) d x = Some u \<Longrightarrow> t \<le> u"
    by (fastforce simp: set_map_filter)
  note f' = next_step_Some [OF need_table_ok [OF f(1)] f(2) assms]
  show "x < t" by (rule f'(1))
  show "carried r t h \<noteq> carried r x h" using f(1) f'(3) unfolding carried_eq_iff by auto
  fix y assume y: "is_f64 y \<and> x \<le> y \<and> y < t"
  have "drift (g r) d y = drift (g r) d x" if g: "(g, d) \<in> set (need_table h)" for g d
  proof (cases "next_step (g r) d x")
    case None
    with next_step_None [of "fst d" "snd d" "g r" x y] need_table_ok [OF g] y show ?thesis by simp
  next
    case (Some u)
    with next_step_Some(2) [of "fst d" "snd d" "g r" x u y] need_table_ok [OF g] least [OF g] y assms
    show ?thesis by force
  qed
  then show "carried r y h = carried r x h" unfolding carried_eq_iff by auto
qed

definition mid_needs :: needs where
  "mid_needs = \<lparr>hunger = MidNeed, social = HighNeed, stamina = MidNeed, emotional = MidNeed,
     outing = MidNeed, indulgence = MidNeed\<rparr>"

definition no_habits :: habits where
  "no_habits = \<lparr>smoking = None, alcoholic = None, drug = Some False, coffee = None\<rparr>"

lemma next_step_0:
  "drift_ok (rest, p) \<Longrightarrow> next_step l (rest, p) 0 = (if l = rest then None else Some p)"
  using full_steps_at(1) [of p 0]
  by (simp add: next_step_def drift_def drift_ok_def Let_def)

theorem next_change_exact_witness:
  "carried mid_needs 3 no_habits = carried mid_needs 0 no_habits"
proof -
  have f: "is_f64 3" using rnd64_of_int [of 3] by (simp add: is_f64_def)
  have "next_change mid_needs 0 no_habits = Some 4"
    unfolding next_change_def HUNGER_DRIFT_def SOCIAL_DRIFT_def STAMINA_DRIFT_def
      EMOTIONAL_DRIFT_def OUTING_DRIFT_def indulgence_drift_def
    by (simp add: next_step_0 drift_ok_def mid_needs_def no_habits_def count_true_def
        List.map_filter_simps)
  from next_change_exact [OF is_f64_ops(6), THEN conjunct2, rule_format, OF this]
  have "\<forall>y. is_f64 y \<and> 0 \<le> y \<and> y < 4 \<longrightarrow> carried mid_needs y no_habits = carried mid_needs 0 no_habits"
    by blast
  from this [rule_format, of 3] f show ?thesis by linarith
qed

text \<open>Carrying levels forward moves each need toward its resting level and never past
  it, one level per full period, and later is never further from rest.\<close>

theorem carried_moves_to_rest:
  assumes "(f, rest, p) \<in> set (need_table h)" "x \<le> y"
  shows "\<bar>need_rank rest - need_rank (f (carried r x h))\<bar>
      = max 0 (\<bar>need_rank rest - need_rank (f r)\<bar> - full_steps p x)
    \<and> (need_rank (f (carried r x h)) - need_rank rest) * (need_rank (f r) - need_rank rest) \<ge> 0
    \<and> \<bar>need_rank rest - need_rank (f (carried r y h))\<bar> \<le> \<bar>need_rank rest - need_rank (f (carried r x h))\<bar>"
proof -
  note ok = need_table_ok [OF assms(1)]
  have p: "0 < p" using ok by (auto simp: drift_ok_def)
  have c: "f (carried r z h) = drift (f r) (rest, p) z" for z
    using assms(1) by (auto simp: need_table_def carried_def)
  have d: "\<bar>need_rank rest - need_rank (f (carried r z h))\<bar>
      = max 0 (\<bar>need_rank rest - need_rank (f r)\<bar> - full_steps p z)" for z
    unfolding c drift_rank [OF ok] using full_steps_nonneg [OF p, of z] by (auto simp: need_gap_def)
  have s: "0 \<le> (need_rank (f (carried r x h)) - need_rank rest) * (need_rank (f r) - need_rank rest)"
    unfolding c drift_rank [OF ok] using full_steps_nonneg [OF p, of x]
    by (auto simp: need_gap_def intro: mult_nonneg_nonneg mult_nonpos_nonpos)
  show ?thesis using d s full_steps_mono [OF p assms(2)] by auto
qed

theorem carried_moves_to_rest_witness:
  "\<bar>need_rank HighNeed - need_rank (hunger (carried mid_needs 9 no_habits))\<bar>
     \<le> \<bar>need_rank HighNeed - need_rank (hunger (carried mid_needs 5 no_habits))\<bar>"
  using carried_moves_to_rest [of hunger HighNeed 4 no_habits 5 9 mid_needs]
  by (simp add: need_table_def HUNGER_DRIFT_def)

text \<open>After an accepted give, a need the item moves is the baseline moved one level and
  kept on the scale, whatever the judge rated; every other need is the judge's rating, or the
  baseline without one; nothing is stored when there is no rating and nothing to move.\<close>

theorem after_give_exact:
  "(after_give baseline judged item = None \<longleftrightarrow>
      judged = None \<and> (baseline = None \<or> give_move item = None))
   \<and> (\<forall>base mh ms mi out. baseline = Some base \<and> give_move item = Some (mh, ms, mi)
        \<and> after_give baseline judged item = Some out \<longrightarrow>
       (let rest = (case judged of Some j \<Rightarrow> j | None \<Rightarrow> base);
            moved = (\<lambda>f m. if m = 0 then need_rank (f rest)
                      else max 0 (min 2 (need_rank (f base) + m)))
        in need_rank (hunger out) = moved hunger mh \<and> need_rank (social out) = moved social ms
           \<and> need_rank (indulgence out) = moved indulgence mi \<and> stamina out = stamina rest
           \<and> emotional out = emotional rest \<and> outing out = outing rest))"
proof -
  have m: "need_rank (need_step b j v) = (if v = 0 then need_rank j else max 0 (min 2 (need_rank b + v)))"
    for b j v
    using need_rank_range [of b]
    by (auto simp: need_step_def need_from_rank_def need_rank_def split: need_level.splits)
  show ?thesis
    by (auto simp: after_give_def Let_def m split: option.splits)
qed

theorem after_give_exact_witness:
  "need_rank (social (the (after_give (Some mid_needs) None Coffee))) = 1"
  using after_give_exact [of "Some mid_needs" None Coffee]
  by (auto simp: give_move_def after_give_def mid_needs_def need_rank_def)

end
