(* ===== verification/Life_Events.thy ===== *)
theory Life_Events
  imports Needs "HOL-Library.List_Lexorder"
begin

text \<open>
  Life events (\<open>crates/eros-engine-core/src/events.rs\<close>): the kinds and their rules, the
  factors that weigh them for one persona, and the two-stage weighted draw. An instant and a
  duration are counts of nanoseconds; weights are binary64 and every product, sum and
  difference of them is rounded.
\<close>

definition hours :: "int \<Rightarrow> int" where "hours n = n * (3600 * 10 ^ 9)"
definition minutes :: "int \<Rightarrow> int" where "minutes n = n * (60 * 10 ^ 9)"

section \<open>Categories and kinds\<close>

datatype event_category = Short | Mid | Body | TripCategory

definition all_categories :: "event_category list" where
  "all_categories = [Short, Mid, Body, TripCategory]"

definition category_is_background :: "event_category \<Rightarrow> bool" where
  "category_is_background c \<longleftrightarrow> c = Body \<or> c = TripCategory"

record category_rule =
  cat_weight :: f64
  cat_cooldown_hours :: int

definition category_rule_of :: "event_category \<Rightarrow> category_rule" where
  "category_rule_of c = (case c of
     Short \<Rightarrow> \<lparr>cat_weight = 5, cat_cooldown_hours = 0\<rparr>
   | Mid \<Rightarrow> \<lparr>cat_weight = 4, cat_cooldown_hours = 0\<rparr>
   | Body \<Rightarrow> \<lparr>cat_weight = flit 0.5, cat_cooldown_hours = 14 * 24\<rparr>
   | TripCategory \<Rightarrow> \<lparr>cat_weight = flit 0.5, cat_cooldown_hours = 7 * 24\<rparr>)"

datatype event_kind =
    PoliceEncounter | AnimalEncounter | HitSomeone | SuddenDesire | GroceryShopping |
    Showering | Bathing | InClass | OnTheWay | PeriodScare | PregnancyScare | GotBumped |
    BumpedSomeone | Quarrel | ScoldedBySuperior | ScoldedSuperior | SawBag | SawClothes |
    AdmiringScenery | AdmiringArt | TakingSelfie | TempWork | ExMessage | WeatherChange |
    GotHit | Breakup | WorkingOut | Reading | Gaming | AwayFromPhone | Unwell | Irritable |
    Busy | InBattle | Asleep | OutShopping | BrosGathering | SisGathering | OnTheRoad |
    WatchingMatch | WatchingShow | HavingSex | WantToGoOut | WantToGoHome | Sick | Period |
    Hospitalized | PostSurgery | BusinessTrip | ShortTrip | LongTrip | HometownVisit |
    TakingSpace | FellOut

definition all_kinds :: "event_kind list" where
  "all_kinds =
    [PoliceEncounter, AnimalEncounter, HitSomeone, SuddenDesire, GroceryShopping, Showering,
     Bathing, InClass, OnTheWay, PeriodScare, PregnancyScare, GotBumped, BumpedSomeone,
     Quarrel, ScoldedBySuperior, ScoldedSuperior, SawBag, SawClothes, AdmiringScenery,
     AdmiringArt, TakingSelfie, TempWork, ExMessage, WeatherChange, GotHit, Breakup,
     WorkingOut, Reading, Gaming, AwayFromPhone, Unwell, Irritable, Busy, InBattle, Asleep,
     OutShopping, BrosGathering, SisGathering, OnTheRoad, WatchingMatch, WatchingShow,
     HavingSex, WantToGoOut, WantToGoHome, Sick, Period, Hospitalized, PostSurgery,
     BusinessTrip, ShortTrip, LongTrip, HometownVisit]"

definition special_kinds :: "event_kind list" where
  "special_kinds = [TakingSpace, FellOut]"

definition kind_as_str :: "event_kind \<Rightarrow> rstr" where
  "kind_as_str k = (case k of
       PoliceEncounter \<Rightarrow> str ''police_encounter''
     | AnimalEncounter \<Rightarrow> str ''animal_encounter''
     | HitSomeone \<Rightarrow> str ''hit_someone''
     | SuddenDesire \<Rightarrow> str ''sudden_desire''
     | GroceryShopping \<Rightarrow> str ''grocery_shopping''
     | Showering \<Rightarrow> str ''showering'' | Bathing \<Rightarrow> str ''bathing''
     | InClass \<Rightarrow> str ''in_class'' | OnTheWay \<Rightarrow> str ''on_the_way''
     | PeriodScare \<Rightarrow> str ''period_scare''
     | PregnancyScare \<Rightarrow> str ''pregnancy_scare''
     | GotBumped \<Rightarrow> str ''got_bumped''
     | BumpedSomeone \<Rightarrow> str ''bumped_someone'' | Quarrel \<Rightarrow> str ''quarrel''
     | ScoldedBySuperior \<Rightarrow> str ''scolded_by_superior''
     | ScoldedSuperior \<Rightarrow> str ''scolded_superior''
     | SawBag \<Rightarrow> str ''saw_bag'' | SawClothes \<Rightarrow> str ''saw_clothes''
     | TempWork \<Rightarrow> str ''temp_work'' | ExMessage \<Rightarrow> str ''ex_message''
     | WeatherChange \<Rightarrow> str ''weather_change'' | GotHit \<Rightarrow> str ''got_hit''
     | Breakup \<Rightarrow> str ''breakup'' | WorkingOut \<Rightarrow> str ''working_out''
     | Reading \<Rightarrow> str ''reading'' | Gaming \<Rightarrow> str ''gaming''
     | AwayFromPhone \<Rightarrow> str ''away_from_phone'' | Unwell \<Rightarrow> str ''unwell''
     | Irritable \<Rightarrow> str ''irritable'' | Busy \<Rightarrow> str ''busy''
     | InBattle \<Rightarrow> str ''in_battle'' | Asleep \<Rightarrow> str ''asleep''
     | OutShopping \<Rightarrow> str ''out_shopping''
     | BrosGathering \<Rightarrow> str ''bros_gathering''
     | SisGathering \<Rightarrow> str ''sis_gathering''
     | OnTheRoad \<Rightarrow> str ''on_the_road''
     | WatchingMatch \<Rightarrow> str ''watching_match''
     | WatchingShow \<Rightarrow> str ''watching_show''
     | HavingSex \<Rightarrow> str ''having_sex''
     | WantToGoOut \<Rightarrow> str ''want_to_go_out''
     | WantToGoHome \<Rightarrow> str ''want_to_go_home''
     | AdmiringScenery \<Rightarrow> str ''admiring_scenery''
     | AdmiringArt \<Rightarrow> str ''admiring_art''
     | TakingSelfie \<Rightarrow> str ''taking_selfie'' | Sick \<Rightarrow> str ''sick''
     | Period \<Rightarrow> str ''period'' | Hospitalized \<Rightarrow> str ''hospitalized''
     | PostSurgery \<Rightarrow> str ''post_surgery''
     | BusinessTrip \<Rightarrow> str ''business_trip''
     | ShortTrip \<Rightarrow> str ''short_trip'' | LongTrip \<Rightarrow> str ''long_trip''
     | HometownVisit \<Rightarrow> str ''hometown_visit''
     | TakingSpace \<Rightarrow> str ''taking_space'' | FellOut \<Rightarrow> str ''fell_out'')"

definition kind_parse :: "rstr \<Rightarrow> event_kind option" where
  "kind_parse s = List.find (\<lambda>k. kind_as_str k = s) (all_kinds @ special_kinds)"

definition category :: "event_kind \<Rightarrow> event_category" where
  "category k =
     (if k \<in> {
       PoliceEncounter, AnimalEncounter, HitSomeone, SuddenDesire, GroceryShopping, Showering,
       Bathing, InClass, OnTheWay, PeriodScare, PregnancyScare, GotBumped, BumpedSomeone,
       Quarrel, ScoldedBySuperior, ScoldedSuperior, SawBag, SawClothes, AdmiringScenery,
       AdmiringArt, TakingSelfie} then Short
      else if k \<in> {
       TempWork, ExMessage, WeatherChange, GotHit, Breakup, WorkingOut, Reading, Gaming,
       AwayFromPhone, Unwell, Irritable, Busy, InBattle, Asleep, OutShopping, BrosGathering,
       SisGathering, OnTheRoad, WatchingMatch, WatchingShow, HavingSex, WantToGoOut,
       WantToGoHome, TakingSpace, FellOut} then Mid
      else if k \<in> {Sick, Period, Hospitalized, PostSurgery} then Body
      else TripCategory)"

definition is_background :: "event_kind \<Rightarrow> bool" where
  "is_background k = category_is_background (category k)"

definition is_photo :: "event_kind \<Rightarrow> bool" where
  "is_photo k \<longleftrightarrow> k = TakingSelfie"

definition may_be_offline :: "event_kind \<Rightarrow> bool" where
  "may_be_offline k \<longleftrightarrow> k \<in> {AwayFromPhone, Busy, InBattle, Asleep, OutShopping, BrosGathering,
     SisGathering, HavingSex, TakingSpace}"

definition is_false_alarm :: "event_kind \<Rightarrow> bool" where
  "is_false_alarm k \<longleftrightarrow> k = PeriodScare \<or> k = PregnancyScare"

section \<open>Rules\<close>

datatype lasts = Minutes int | Hours int int

record kind_rule =
  kr_weight :: f64
  kr_cooldown_hours :: int
  kr_lasts :: lasts

definition mk_rule :: "f64 \<Rightarrow> int \<Rightarrow> lasts \<Rightarrow> kind_rule" where
  "mk_rule w c l = \<lparr>kr_weight = w, kr_cooldown_hours = c, kr_lasts = l\<rparr>"

definition rule :: "event_kind \<Rightarrow> kind_rule" where
  "rule k = (case k of
       PoliceEncounter \<Rightarrow> mk_rule 1 48 (Minutes 30)
     | AnimalEncounter \<Rightarrow> mk_rule 3 12 (Hours 1 1)
     | HitSomeone \<Rightarrow> mk_rule (flit 0.5) 336 (Hours 1 1)
     | SuddenDesire \<Rightarrow> mk_rule 2 24 (Hours 1 1)
     | GroceryShopping \<Rightarrow> mk_rule 2 24 (Hours 1 1)
     | Showering \<Rightarrow> mk_rule 2 12 (Minutes 30)
     | Bathing \<Rightarrow> mk_rule 1 48 (Hours 1 1)
     | InClass \<Rightarrow> mk_rule 1 24 (Hours 1 1)
     | OnTheWay \<Rightarrow> mk_rule 2 12 (Minutes 30)
     | PeriodScare \<Rightarrow> mk_rule (flit 0.5) 672 (Hours 1 1)
     | PregnancyScare \<Rightarrow> mk_rule (flit 0.5) 1440 (Hours 1 1)
     | GotBumped \<Rightarrow> mk_rule 1 72 (Minutes 30)
     | BumpedSomeone \<Rightarrow> mk_rule (flit 0.5) 168 (Minutes 30)
     | Quarrel \<Rightarrow> mk_rule 1 48 (Hours 1 1)
     | ScoldedBySuperior \<Rightarrow> mk_rule 1 72 (Hours 1 1)
     | ScoldedSuperior \<Rightarrow> mk_rule (flit 0.5) 336 (Hours 1 1)
     | SawBag \<Rightarrow> mk_rule 2 48 (Hours 1 1)
     | SawClothes \<Rightarrow> mk_rule 2 48 (Hours 1 1)
     | AdmiringScenery \<Rightarrow> mk_rule 2 24 (Hours 1 1)
     | AdmiringArt \<Rightarrow> mk_rule 1 48 (Hours 1 1)
     | TakingSelfie \<Rightarrow> mk_rule 2 24 (Minutes 30)
     | TempWork \<Rightarrow> mk_rule 3 24 (Hours 4 4)
     | ExMessage \<Rightarrow> mk_rule 1 72 (Hours 3 3)
     | WeatherChange \<Rightarrow> mk_rule 4 8 (Hours 4 4)
     | GotHit \<Rightarrow> mk_rule (flit 0.5) 336 (Hours 4 4)
     | Breakup \<Rightarrow> mk_rule (flit 0.5) 720 (Hours 4 4)
     | WorkingOut \<Rightarrow> mk_rule 2 24 (Hours 1 2)
     | Reading \<Rightarrow> mk_rule 2 12 (Hours 1 3)
     | Gaming \<Rightarrow> mk_rule 2 12 (Hours 2 4)
     | AwayFromPhone \<Rightarrow> mk_rule 1 48 (Hours 1 3)
     | Unwell \<Rightarrow> mk_rule 1 24 (Hours 1 4)
     | Irritable \<Rightarrow> mk_rule 1 24 (Hours 2 4)
     | Busy \<Rightarrow> mk_rule 2 12 (Hours 1 3)
     | InBattle \<Rightarrow> mk_rule 1 48 (Hours 2 4)
     | Asleep \<Rightarrow> mk_rule 2 24 (Hours 1 4)
     | OutShopping \<Rightarrow> mk_rule 2 24 (Hours 2 4)
     | BrosGathering \<Rightarrow> mk_rule 1 72 (Hours 2 4)
     | SisGathering \<Rightarrow> mk_rule 1 72 (Hours 2 4)
     | OnTheRoad \<Rightarrow> mk_rule 2 24 (Hours 2 4)
     | WatchingMatch \<Rightarrow> mk_rule 2 24 (Hours 2 3)
     | WatchingShow \<Rightarrow> mk_rule 1 72 (Hours 2 3)
     | HavingSex \<Rightarrow> mk_rule 1 48 (Hours 1 2)
     | WantToGoOut \<Rightarrow> mk_rule 1 24 (Hours 1 3)
     | WantToGoHome \<Rightarrow> mk_rule 1 24 (Hours 1 3)
     | Sick \<Rightarrow> mk_rule 3 336 (Hours 24 72)
     | Period \<Rightarrow> mk_rule 3 672 (Hours 72 168)
     | Hospitalized \<Rightarrow> mk_rule (flit 0.5) 1440 (Hours 48 120)
     | PostSurgery \<Rightarrow> mk_rule (flit 0.5) 2160 (Hours 72 168)
     | BusinessTrip \<Rightarrow> mk_rule 3 0 (Hours 24 24)
     | ShortTrip \<Rightarrow> mk_rule 2 0 (Hours 48 48)
     | LongTrip \<Rightarrow> mk_rule 1 0 (Hours 72 168)
     | HometownVisit \<Rightarrow> mk_rule 1 0 (Hours 72 72)
     | TakingSpace \<Rightarrow> mk_rule 0 0 (Hours 12 24)
     | FellOut \<Rightarrow> mk_rule 0 0 (Hours 1 1))"

definition CONFIDE_MIN_RUNG :: nat where "CONFIDE_MIN_RUNG = 2"
definition DESIRE_MIN_RUNG :: nat where "DESIRE_MIN_RUNG = 3"
definition PREFERENCE_FACTOR :: f64 where "PREFERENCE_FACTOR = 3"
definition FOLLOW_FACTOR :: f64 where "FOLLOW_FACTOR = 3"
definition FOLLOW_WINDOW_HOURS :: int where "FOLLOW_WINDOW_HOURS = 48"
definition UNLIKELY_FACTOR :: f64 where "UNLIKELY_FACTOR = flit 0.2"
definition OFFLINE_COOLDOWN_HOURS :: int where "OFFLINE_COOLDOWN_HOURS = 12"

section \<open>The persona's settings\<close>

datatype health = Weak | NormalHealth | Strong

definition health_parse :: "rstr \<Rightarrow> health option" where
  "health_parse s = (if s = str ''weak'' then Some Weak else if s = str ''normal'' then Some NormalHealth
     else if s = str ''strong'' then Some Strong else None)"

record persona_traits =
  female :: bool
  pt_health :: health
  prefer_trip :: bool
  prefer_events :: "event_kind list"
  is_virgin :: bool
  homesick :: "bool option"
  sex_addict :: "bool option"

definition is_offline :: "persona_traits \<Rightarrow> event_kind \<Rightarrow> bool" where
  "is_offline persona k = (if k = OutShopping then female persona else may_be_offline k)"

definition passes_gate :: "event_kind \<Rightarrow> nat \<Rightarrow> persona_traits \<Rightarrow> bool" where
  "passes_gate k rung persona =
     (if k \<in> {ExMessage, Breakup} then CONFIDE_MIN_RUNG \<le> rung
      else if k = SuddenDesire then DESIRE_MIN_RUNG \<le> rung
      else if k \<in> {Period, SawBag, SawClothes} then female persona
      else if k = PeriodScare then female persona \<and> CONFIDE_MIN_RUNG \<le> rung
      else if k = PregnancyScare then female persona \<and> DESIRE_MIN_RUNG \<le> rung
      else True)"

section \<open>Factors\<close>

definition needs_factor :: "event_kind \<Rightarrow> needs option \<Rightarrow> f64" where
  "needs_factor k ns = (case ns of None \<Rightarrow> 1
     | Some n \<Rightarrow>
         if k \<in> {TempWork, WorkingOut} \<and> stamina n = LowNeed then flit 0.5
         else if k \<in> {Unwell, Sick, Bathing, Asleep} \<and> stamina n = LowNeed then 2
         else if k = GroceryShopping \<and> hunger n = HighNeed then 2
         else if k = ExMessage \<and> emotional n = HighNeed then 3
         else if k \<in> {AnimalEncounter, Irritable, Quarrel} \<and> emotional n = HighNeed then 2
         else if k = WantToGoOut \<and> outing n = HighNeed then 3
         else if k = WantToGoHome \<and> outing n = LowNeed then 3
         else 1)"

definition indulgence_factor :: "event_kind \<Rightarrow> needs option \<Rightarrow> f64" where
  "indulgence_factor k ns = (case ns of None \<Rightarrow> 1
     | Some n \<Rightarrow> if k \<in> {WantToGoOut, Irritable} \<and> indulgence n = HighNeed then 2 else 1)"

definition category_factor :: "event_category \<Rightarrow> persona_traits \<Rightarrow> f64" where
  "category_factor c persona =
     (if c = Body then (case pt_health persona of Weak \<Rightarrow> 2 | NormalHealth \<Rightarrow> 1 | Strong \<Rightarrow> flit 0.5)
      else if c = TripCategory \<and> prefer_trip persona then PREFERENCE_FACTOR else 1)"

definition preference_factor :: "event_kind \<Rightarrow> persona_traits \<Rightarrow> f64" where
  "preference_factor k persona =
     (if category k = Mid \<and> k \<in> set (prefer_events persona) then PREFERENCE_FACTOR else 1)"

definition follows :: "event_kind \<Rightarrow> event_kind \<Rightarrow> bool" where
  "follows prior k \<longleftrightarrow>
     prior \<in> {ExMessage, SuddenDesire} \<and> k = HavingSex
     \<or> prior = Sick \<and> k = PeriodScare
     \<or> prior = HavingSex \<and> k = PregnancyScare
     \<or> prior = BusinessTrip \<and> k \<in> {OnTheRoad, OnTheWay, Busy, TempWork}
     \<or> prior \<in> {ShortTrip, LongTrip, HometownVisit} \<and> k \<in> {OnTheRoad, AdmiringScenery, TakingSelfie}
     \<or> prior = HometownVisit \<and> k \<in> {BrosGathering, SisGathering}
     \<or> prior \<in> {Hospitalized, PostSurgery} \<and> k \<in> {Reading, Gaming}
     \<or> prior = Period \<and> k \<in> {Irritable, Unwell}
     \<or> prior \<in> {Breakup, Quarrel, ScoldedBySuperior, InBattle} \<and> k = Irritable
     \<or> prior \<in> {GotHit, GotBumped, WeatherChange} \<and> k = Unwell
     \<or> prior = WorkingOut \<and> k \<in> {Showering, Bathing}"

record past_event =
  pe_kind :: event_kind
  pe_started_at :: instant
  pe_ends_at :: instant

definition follow_factor :: "event_kind \<Rightarrow> past_event list \<Rightarrow> instant \<Rightarrow> f64" where
  "follow_factor k history now =
     (let since = now - hours FOLLOW_WINDOW_HOURS;
          live = map pe_kind (filter (\<lambda>e. since < pe_ends_at e \<and> follows (pe_kind e) k) history);
          live = remdups_adj (sort_key kind_as_str live)
      in fpowi FOLLOW_FACTOR (length live))"

definition prior_factor :: "event_kind \<Rightarrow> persona_traits \<Rightarrow> bool \<Rightarrow> f64" where
  "prior_factor k persona ever_had_sex =
     (if k = HavingSex \<and> is_virgin persona \<and> \<not> ever_had_sex then UNLIKELY_FACTOR
      else if k = PregnancyScare \<and> \<not> ever_had_sex then UNLIKELY_FACTOR else 1)"

definition homesick_factor :: "event_kind \<Rightarrow> persona_traits \<Rightarrow> f64" where
  "homesick_factor k persona =
     (if k = HometownVisit \<and> homesick persona = Some True then PREFERENCE_FACTOR
      else if k = HometownVisit \<and> homesick persona = Some False
              \<or> k \<in> {ShortTrip, LongTrip} \<and> homesick persona = Some True
      then fdiv 1 PREFERENCE_FACTOR else 1)"

definition sex_addict_factor :: "event_kind \<Rightarrow> persona_traits \<Rightarrow> f64" where
  "sex_addict_factor k persona =
     (if k = SuddenDesire \<and> sex_addict persona = Some True then PREFERENCE_FACTOR
      else if k = SuddenDesire \<and> sex_addict persona = Some False then fdiv 1 PREFERENCE_FACTOR
      else 1)"

definition rules_out :: "event_kind \<Rightarrow> event_kind \<Rightarrow> bool" where
  "rules_out background k =
     (if background \<in> {Hospitalized, PostSurgery} then k \<in> {
       TempWork, PoliceEncounter, AnimalEncounter, HitSomeone, GotHit, WorkingOut,
       GroceryShopping, InClass, OnTheWay, InBattle, GotBumped, BumpedSomeone, SawBag,
       SawClothes, OutShopping, BrosGathering, SisGathering, AdmiringScenery, AdmiringArt,
       WatchingShow, OnTheRoad, HavingSex}
      else if background = Period then is_false_alarm k else False)"

section \<open>The draw\<close>

record draw_input =
  di_now :: instant
  di_needs :: "needs option"
  di_intimacy_rung :: nat
  di_persona :: persona_traits
  di_history :: "past_event list"
  di_allowed :: "event_kind list"
  di_ever_had_sex :: bool

record rolls =
  roll_category :: f64
  roll_kind :: f64
  roll_duration :: f64

record drawn =
  drawn_kind :: event_kind
  drawn_lasts :: int

fun pick_loop :: "('a \<times> f64) list \<Rightarrow> f64 \<Rightarrow> 'a option" where
  "pick_loop [] target = None"
| "pick_loop ((item, weight) # ws) target =
     (if target < weight then Some item else pick_loop ws (fsub target weight))"

definition pick :: "('a \<times> f64) list \<Rightarrow> f64 \<Rightarrow> 'a option" where
  "pick weighted roll =
     (let total = fsum (map snd weighted) 0
      in if total \<le> 0 then None
         else (case pick_loop weighted (fmul (fclamp roll 0 1) total) of
                 Some item \<Rightarrow> Some item
               | None \<Rightarrow> if weighted = [] then None else Some (fst (last weighted))))"

definition lasts_for :: "event_kind \<Rightarrow> f64 \<Rightarrow> int" where
  "lasts_for k roll = (case kr_lasts (rule k) of
     Minutes m \<Rightarrow> minutes m
   | Hours lo hi \<Rightarrow>
       (let span = f64_of_int (hi - lo + 1);
            step = min (f64_as_i64 (of_int \<lfloor>fmul (fclamp roll 0 1) span\<rfloor>)) (hi - lo)
        in hours (lo + step)))"

definition under_way :: "draw_input \<Rightarrow> past_event \<Rightarrow> bool" where
  "under_way inp e \<longleftrightarrow> di_now inp < pe_ends_at e"

definition cooling :: "draw_input \<Rightarrow> instant \<Rightarrow> int \<Rightarrow> bool" where
  "cooling inp started n \<longleftrightarrow> di_now inp < started + hours n"

definition background_of :: "draw_input \<Rightarrow> event_kind option" where
  "background_of inp = map_option pe_kind
     (List.find (\<lambda>e. is_background (pe_kind e)) (filter (under_way inp) (di_history inp)))"

definition eligible :: "draw_input \<Rightarrow> event_kind list" where
  "eligible inp =
     filter (\<lambda>k. case background_of inp of Some b \<Rightarrow> \<not> is_background k \<and> \<not> rules_out b k | None \<Rightarrow> True)
     (filter (\<lambda>k. \<not> is_offline (di_persona inp) k
        \<or> \<not> list_ex (\<lambda>e. is_offline (di_persona inp) (pe_kind e)
              \<and> cooling inp (pe_started_at e) OFFLINE_COOLDOWN_HOURS) (di_history inp))
     (filter (\<lambda>k. let c = category k in \<not> list_ex (\<lambda>e. category (pe_kind e) = c
        \<and> cooling inp (pe_started_at e) (cat_cooldown_hours (category_rule_of c))) (di_history inp))
     (filter (\<lambda>k. \<not> list_ex (\<lambda>e. pe_kind e = k
        \<and> cooling inp (pe_started_at e) (kr_cooldown_hours (rule k))) (di_history inp))
     (filter (\<lambda>k. passes_gate k (di_intimacy_rung inp) (di_persona inp))
     (filter (\<lambda>k. k \<in> set (di_allowed inp)) all_kinds)))))"

definition category_weights :: "draw_input \<Rightarrow> (event_category \<times> f64) list" where
  "category_weights inp =
     map (\<lambda>c. (c, fmul (cat_weight (category_rule_of c)) (category_factor c (di_persona inp))))
       (filter (\<lambda>c. list_ex (\<lambda>k. category k = c) (eligible inp)) all_categories)"

definition kind_weight :: "draw_input \<Rightarrow> event_kind \<Rightarrow> f64" where
  "kind_weight inp k =
     fmul (fmul (fmul (fmul (fmul (fmul (fmul (kr_weight (rule k))
       (needs_factor k (di_needs inp)))
       (indulgence_factor k (di_needs inp)))
       (preference_factor k (di_persona inp)))
       (follow_factor k (di_history inp) (di_now inp)))
       (prior_factor k (di_persona inp) (di_ever_had_sex inp)))
       (homesick_factor k (di_persona inp)))
       (sex_addict_factor k (di_persona inp))"

definition draw :: "draw_input \<Rightarrow> rolls \<Rightarrow> drawn option" where
  "draw inp r =
     (if list_ex (\<lambda>e. \<not> is_background (pe_kind e)) (filter (under_way inp) (di_history inp)) then None
      else do {
        c \<leftarrow> pick (category_weights inp) (roll_category r);
        k \<leftarrow> pick (map (\<lambda>k. (k, kind_weight inp k)) (filter (\<lambda>k. category k = c) (eligible inp)))
              (roll_kind r);
        Some \<lparr>drawn_kind = k, drawn_lasts = lasts_for k (roll_duration r)\<rparr>
      })"

section \<open>Reads over stored events\<close>

definition max_hours :: "lasts \<Rightarrow> int" where
  "max_hours l = (case l of Minutes m \<Rightarrow> (m + 59) div 60 | Hours _ hi \<Rightarrow> hi)"

definition lookback :: int where
  "lookback = hours (fold max
     (map (\<lambda>k. max (kr_cooldown_hours (rule k)) (max_hours (kr_lasts (rule k)))) all_kinds
      @ map (\<lambda>c. cat_cooldown_hours (category_rule_of c)) all_categories) 0)"

definition background_kinds :: "event_kind list" where
  "background_kinds = filter is_background all_kinds"

definition offline_kinds :: "persona_traits \<Rightarrow> event_kind list" where
  "offline_kinds persona = filter (is_offline persona) (all_kinds @ special_kinds)"

definition is_told :: "event_kind \<Rightarrow> nat \<Rightarrow> persona_traits \<Rightarrow> bool" where
  "is_told k rung persona =
     (if k = TakingSpace \<or> k = FellOut then False
      else if k = Busy \<or> k = InBattle then CONFIDE_MIN_RUNG \<le> rung
      else if k = OutShopping \<and> female persona then CONFIDE_MIN_RUNG \<le> rung
      else \<not> is_offline persona k)"

end
