(* ===== verification/Life_Events_Laws.thy ===== *)
theory Life_Events_Laws
  imports Life_Events
begin

text \<open>
  What the life-event draw guarantees: stored kinds read back, a drawn kind passed every
  filter and lasts as its rule says, a draw comes back empty only when nothing is eligible, the
  lookback window holds every event a draw can depend on, and a day built by draws keeps its
  incidents apart.
\<close>

section \<open>Kinds and their stored names\<close>

lemma all_kinds_total: "k \<in> set (all_kinds @ special_kinds)"
  by (cases k) (simp_all add: all_kinds_def special_kinds_def)

lemma distinct_kinds: "distinct (all_kinds @ special_kinds)"
  by code_simp

lemma distinct_names: "distinct (map kind_as_str (all_kinds @ special_kinds))"
  by code_simp

lemma kind_as_str_inj: "kind_as_str j = kind_as_str k \<longleftrightarrow> j = k"
  using distinct_names all_kinds_total [of j] all_kinds_total [of k]
  unfolding distinct_map inj_on_def by blast

interpretation event_kind: codec kind_as_str kind_parse
proof
  fix k
  have "kind_parse (kind_as_str k) \<noteq> None"
    unfolding kind_parse_def find_None_iff using all_kinds_total [of k] by blast
  then obtain j where j: "kind_parse (kind_as_str k) = Some j" by blast
  have "kind_as_str j = kind_as_str k"
    using find_SomeD [OF j [unfolded kind_parse_def]] by (rule conjunct2)
  with j show "kind_parse (kind_as_str k) = Some k" by (simp add: kind_as_str_inj)
next
  show "kind_parse s = Some k \<Longrightarrow> kind_as_str k = s" for s k
    unfolding kind_parse_def by (drule find_SomeD) simp
qed

text \<open>Every kind's stored value reads back to that kind and nothing else parses: 54
  distinct strings, the 52 drawable kinds and the two the writers place directly.\<close>

theorem kind_roundtrip:
  "kind_parse (kind_as_str k) = Some k \<and> (kind_parse s = Some k \<longleftrightarrow> s = kind_as_str k)
   \<and> k \<in> set (all_kinds @ special_kinds) \<and> distinct (all_kinds @ special_kinds)
   \<and> length (all_kinds @ special_kinds) = 54"
  by (simp only: event_kind.parse_print event_kind.parse_iff all_kinds_total distinct_kinds)
    (simp add: all_kinds_def special_kinds_def)

section \<open>The weighted pick\<close>

lemma pick_loop_mem: "pick_loop ws t = Some x \<Longrightarrow> x \<in> fst ` set ws"
  by (induction ws t rule: pick_loop.induct) (auto split: if_splits)

lemma pick_mem: "pick ws r = Some x \<Longrightarrow> x \<in> fst ` set ws"
  by (auto simp: pick_def Let_def last_in_set dest!: pick_loop_mem split: if_splits option.splits)

lemma fsum_ge: "is_f64 acc \<Longrightarrow> \<forall>w \<in> set ws. 0 \<le> w \<Longrightarrow> acc \<le> fsum ws acc"
proof (induction ws arbitrary: acc)
  case (Cons w ws)
  have "acc \<le> fadd acc w" using Cons.prems by (intro fadd_ge) auto
  also have "\<dots> \<le> fsum ws (fadd acc w)" using Cons.prems by (intro Cons.IH) auto
  finally show ?case by simp
qed simp

definition weighs :: "f64 \<Rightarrow> bool" where
  "weighs w \<longleftrightarrow> 0 < w \<and> is_f64 w"

lemma pick_total:
  assumes "ws \<noteq> []" "\<forall>w \<in> set (map snd ws). weighs w"
  shows "\<exists>x. pick ws r = Some x"
proof -
  obtain w vs where ws: "map snd ws = w # vs" using assms(1) by (cases ws) auto
  have w: "0 < w" "is_f64 w" using assms(2) ws by (auto simp: weighs_def)
  have "w \<le> fsum vs (fadd 0 w)"
  proof -
    have "fadd 0 w = w" using w by (simp add: fadd_def is_f64_def)
    moreover have "\<forall>x \<in> set vs. 0 \<le> x" using assms(2) unfolding ws by (auto simp: weighs_def)
    ultimately show ?thesis using fsum_ge [OF w(2)] by simp
  qed
  with w ws have "\<not> fsum (map snd ws) 0 \<le> 0" by simp
  with assms(1) show ?thesis by (simp add: pick_def Let_def split: option.split)
qed

section \<open>Every weight is positive\<close>

text \<open>A factor of at least an eighth: eight of them are far from underflowing.\<close>

definition factor_ok :: "nat \<Rightarrow> f64 \<Rightarrow> bool" where
  "factor_ok n x \<longleftrightarrow> 1 / 2 ^ n \<le> x \<and> is_f64 x"

lemma is_f64_power: "n \<le> 1000 \<Longrightarrow> rnd64 (1 / 2 ^ n) = 1 / 2 ^ n"
  using rnd64_exact [of 1 "- int n"] by (simp add: powr_minus_divide powr_realpow)

lemma factor_ok_mult:
  assumes "factor_ok m x" "factor_ok n y" "m + n \<le> 1000"
  shows "factor_ok (m + n) (fmul x y)"
proof -
  have "1 / 2 ^ m * (1 / 2 ^ n) \<le> x * y"
    using assms by (intro mult_mono) (auto simp: factor_ok_def intro: order_trans [rotated])
  then have "rnd64 (1 / 2 ^ (m + n)) \<le> fmul x y"
    unfolding fmul_def by (intro f64.rnd_mono) (simp add: power_add)
  then show ?thesis using is_f64_power [OF assms(3)] by (simp add: factor_ok_def)
qed

lemma factor_ok_weighs: "factor_ok n x \<Longrightarrow> weighs x"
  by (auto simp: factor_ok_def weighs_def intro: less_le_trans [of 0 "1 / 2 ^ n"])

lemma is_f64_small [simp]: "is_f64 2" "is_f64 3" "is_f64 4" "is_f64 5"
  using rnd64_of_int [of 2] rnd64_of_int [of 3] rnd64_of_int [of 4] rnd64_of_int [of 5]
  by (simp_all add: is_f64_def)

lemma factor_ok_consts:
  "factor_ok 3 1" "factor_ok 3 2" "factor_ok 3 3" "factor_ok 3 4" "factor_ok 3 5"
  "factor_ok 3 (flit (1 / 2))" "factor_ok 3 UNLIKELY_FACTOR" "factor_ok 3 (fdiv 1 3)"
  using flit_bounds [of "1 / 2"] flit_bounds [of "0.2"] fop_bounds(4) [of 1 3]
  by (auto simp: factor_ok_def UNLIKELY_FACTOR_def)

lemma fpowi_3: "factor_ok 3 (fpowi 3 n)"
proof -
  have "1 \<le> fpowi 3 n \<and> is_f64 (fpowi 3 n)"
  proof (induction n)
    case (Suc n)
    show ?case
    proof (cases n)
      case (Suc m)
      have "1 * 1 \<le> 3 * fpowi 3 n" using Suc.IH by (intro mult_mono) auto
      then have "1 \<le> fmul 3 (fpowi 3 n)" unfolding fmul_def by (intro f64.rnd_ge_1) simp
      then show ?thesis by (simp add: Suc)
    qed simp
  qed simp
  then show ?thesis by (simp add: factor_ok_def)
qed

lemma factors_ok:
  "factor_ok 3 (needs_factor k n)" "factor_ok 3 (indulgence_factor k n)"
  "factor_ok 3 (preference_factor k p)" "factor_ok 3 (follow_factor k h t)"
  "factor_ok 3 (prior_factor k p b)" "factor_ok 3 (homesick_factor k p)"
  "factor_ok 3 (sex_addict_factor k p)" "factor_ok 3 (category_factor c p)"
  by (simp_all add: needs_factor_def indulgence_factor_def preference_factor_def follow_factor_def
      prior_factor_def homesick_factor_def sex_addict_factor_def category_factor_def Let_def
      PREFERENCE_FACTOR_def FOLLOW_FACTOR_def factor_ok_consts fpowi_3
      split: option.split health.split)

lemma rule_weight_ok: "k \<in> set all_kinds \<Longrightarrow> factor_ok 3 (kr_weight (rule k))"
  by (cases k) (simp_all add: rule_def mk_rule_def factor_ok_consts all_kinds_def)

lemma kind_weight_weighs:
  assumes "k \<in> set all_kinds"
  shows "weighs (kind_weight inp k)"
proof -
  note m = factor_ok_mult
  have "factor_ok (3 + 3 + 3 + 3 + 3 + 3 + 3 + 3) (kind_weight inp k)"
    unfolding kind_weight_def
    by (intro factor_ok_mult factors_ok rule_weight_ok assms) simp_all
  then show ?thesis by (rule factor_ok_weighs)
qed

lemma category_weight_weighs: "weighs (fmul (cat_weight (category_rule_of c)) (category_factor c p))"
proof -
  have "factor_ok 3 (cat_weight (category_rule_of c))"
    by (cases c) (simp_all add: category_rule_of_def factor_ok_consts)
  then have "factor_ok (3 + 3) (fmul (cat_weight (category_rule_of c)) (category_factor c p))"
    by (intro factor_ok_mult factors_ok) simp_all
  then show ?thesis by (rule factor_ok_weighs)
qed

section \<open>The draw\<close>

definition foreground_under_way :: "draw_input \<Rightarrow> bool" where
  "foreground_under_way inp \<longleftrightarrow> (\<exists>e \<in> set (di_history inp). under_way inp e \<and> \<not> is_background (pe_kind e))"

lemma find_Some_iff_ex: "(\<exists>y. List.find P xs = Some y) \<longleftrightarrow> (\<exists>x \<in> set xs. P x)"
  by (metis find_None_iff not_None_eq)

lemma eligible_iff:
  "k \<in> set (eligible inp) \<longleftrightarrow>
     k \<in> set all_kinds \<and> k \<in> set (di_allowed inp) \<and> passes_gate k (di_intimacy_rung inp) (di_persona inp)
     \<and> (\<forall>e \<in> set (di_history inp).
          (pe_kind e = k \<longrightarrow> \<not> cooling inp (pe_started_at e) (kr_cooldown_hours (rule k)))
          \<and> (category (pe_kind e) = category k
               \<longrightarrow> \<not> cooling inp (pe_started_at e) (cat_cooldown_hours (category_rule_of (category k))))
          \<and> (is_offline (di_persona inp) k \<and> is_offline (di_persona inp) (pe_kind e)
               \<longrightarrow> \<not> cooling inp (pe_started_at e) OFFLINE_COOLDOWN_HOURS))
     \<and> (case background_of inp of Some b \<Rightarrow> \<not> is_background k \<and> \<not> rules_out b k | None \<Rightarrow> True)"
  by (auto simp: eligible_def Let_def list_ex_iff)

lemma background_of_None:
  "background_of inp = None \<longleftrightarrow>
     (\<forall>e \<in> set (di_history inp). under_way inp e \<longrightarrow> \<not> is_background (pe_kind e))"
  by (auto simp: background_of_def find_None_iff)

lemma background_of_Some:
  "background_of inp = Some b \<Longrightarrow>
     \<exists>e \<in> set (di_history inp). under_way inp e \<and> is_background b \<and> pe_kind e = b"
  unfolding background_of_def by (auto dest!: find_SomeD)

lemma draw_None_iff: "draw inp r = None \<longleftrightarrow> foreground_under_way inp \<or> eligible inp = []"
proof (cases "foreground_under_way inp")
  case True
  then show ?thesis by (auto simp: draw_def foreground_under_way_def list_ex_iff)
next
  case False
  then have d: "draw inp r = do {
        c \<leftarrow> pick (category_weights inp) (roll_category r);
        k \<leftarrow> pick (map (\<lambda>k. (k, kind_weight inp k)) (filter (\<lambda>k. category k = c) (eligible inp)))
              (roll_kind r);
        Some \<lparr>drawn_kind = k, drawn_lasts = lasts_for k (roll_duration r)\<rparr>}"
    by (auto simp: draw_def foreground_under_way_def list_ex_iff)
  show ?thesis
  proof (cases "eligible inp = []")
    case True
    then have "category_weights inp = []" by (simp add: category_weights_def)
    with True d show ?thesis by (simp add: pick_def)
  next
    case el: False
    then obtain k0 where k0: "k0 \<in> set (eligible inp)" by (meson list.set_sel(1))
    have "category k0 \<in> set all_categories" by (cases "category k0") (simp_all add: all_categories_def)
    with k0 have ne: "category_weights inp \<noteq> []"
      by (auto simp: category_weights_def filter_empty_conv list_ex_iff)
    moreover have "\<forall>w \<in> set (map snd (category_weights inp)). weighs w"
      by (auto simp: category_weights_def category_weight_weighs)
    ultimately obtain c where c: "pick (category_weights inp) (roll_category r) = Some c"
      using pick_total by blast
    then obtain k where k: "k \<in> set (eligible inp)" "category k = c"
      by (auto simp: category_weights_def list_ex_iff dest!: pick_mem)
    let ?ks = "map (\<lambda>k. (k, kind_weight inp k)) (filter (\<lambda>k. category k = c) (eligible inp))"
    have "?ks \<noteq> []" using k by (auto simp: filter_empty_conv)
    moreover have "\<forall>w \<in> set (map snd ?ks). weighs w"
      using kind_weight_weighs eligible_iff by auto
    ultimately obtain k' where "pick ?ks (roll_kind r) = Some k'" using pick_total by blast
    with c d el False show ?thesis by simp
  qed
qed

lemma draw_SomeD:
  assumes "draw inp r = Some d"
  shows "drawn_kind d \<in> set (eligible inp)" "\<not> foreground_under_way inp"
    "drawn_lasts d = lasts_for (drawn_kind d) (roll_duration r)"
proof -
  show "\<not> foreground_under_way inp" using assms draw_None_iff [of inp r] by auto
  show "drawn_kind d \<in> set (eligible inp)"
    "drawn_lasts d = lasts_for (drawn_kind d) (roll_duration r)"
    using assms by (auto simp: draw_def Option.bind_eq_Some_conv dest!: pick_mem split: if_splits)
qed

text \<open>How long a drawn kind lasts: within the bounds of its rule, never zero.\<close>

definition lasts_within :: "event_kind \<Rightarrow> int \<Rightarrow> bool" where
  "lasts_within k d \<longleftrightarrow> (case kr_lasts (rule k) of
     Minutes m \<Rightarrow> d = minutes m
   | Hours lo hi \<Rightarrow> (\<exists>n. lo \<le> n \<and> n \<le> hi \<and> d = hours n))"

lemma rule_hours_ordered: "case kr_lasts (rule k) of Minutes m \<Rightarrow> 0 < m | Hours lo hi \<Rightarrow> 0 < lo \<and> lo \<le> hi"
  by (cases k) (simp_all add: rule_def mk_rule_def)

lemma lasts_for_within: "lasts_within k (lasts_for k roll)"
proof (cases "kr_lasts (rule k)")
  case (Minutes m)
  then show ?thesis by (simp add: lasts_within_def lasts_for_def)
next
  case (Hours lo hi)
  have lh: "lo \<le> hi" using rule_hours_ordered [of k] Hours by simp
  define n where "n = f64_as_i64 (of_int \<lfloor>fmul (fclamp roll 0 1) (f64_of_int (hi - lo + 1))\<rfloor>)"
  have "0 \<le> f64_of_int (hi - lo + 1)" using lh by (simp add: f64_of_int_def f64.rnd_nonneg)
  then have "0 \<le> fmul (fclamp roll 0 1) (f64_of_int (hi - lo + 1))" by (intro fmul_nonneg) simp
  then have "0 \<le> n" by (simp add: n_def f64_as_i64_def saturate_def trunc_int_def)
  with lh have "lo \<le> lo + min n (hi - lo) \<and> lo + min n (hi - lo) \<le> hi" by simp
  moreover have "lasts_for k roll = hours (lo + min n (hi - lo))"
    using Hours by (simp add: lasts_for_def Let_def n_def)
  ultimately have "\<exists>m. lo \<le> m \<and> m \<le> hi \<and> lasts_for k roll = hours m" by blast
  with Hours show ?thesis by (simp add: lasts_within_def)
qed

text \<open>A persona alone with a book, for the witnesses.\<close>

definition reader :: persona_traits where
  "reader = \<lparr>female = True, pt_health = Weak, prefer_trip = False, prefer_events = [Reading],
     is_virgin = False, homesick = None, sex_addict = None\<rparr>"

definition reading_at :: "instant \<Rightarrow> past_event list \<Rightarrow> draw_input" where
  "reading_at t h = \<lparr>di_now = t, di_needs = None, di_intimacy_rung = 1, di_persona = reader,
     di_history = h, di_allowed = [Reading], di_ever_had_sex = False\<rparr>"

definition some_rolls :: rolls where
  "some_rolls = \<lparr>roll_category = 1/2, roll_kind = 0, roll_duration = 1/4\<rparr>"

lemma reading_eligible:
  assumes "\<forall>e \<in> set h. pe_ends_at e \<le> t \<and> pe_started_at e + hours 12 \<le> t \<and> category (pe_kind e) = Mid"
  shows "\<exists>d. draw (reading_at t h) some_rolls = Some d \<and> drawn_kind d = Reading"
proof -
  have c: "category Reading = Mid" "is_background Reading = False" "is_offline reader Reading = False"
    "kr_cooldown_hours (rule Reading) = 12" "cat_cooldown_hours (category_rule_of Mid) = 0"
    "Reading \<in> set all_kinds"
    by (simp_all add: category_def is_background_def category_is_background_def is_offline_def
        may_be_offline_def rule_def mk_rule_def category_rule_of_def all_kinds_def)
  have h: "hours 12 = 12 * hours 1" "hours 0 = 0" "0 < hours 1" by (simp_all add: hours_def)
  have u: "\<forall>e \<in> set h. \<not> under_way (reading_at t h) e"
    using assms by (force simp: under_way_def reading_at_def)
  then have b: "background_of (reading_at t h) = None"
    by (simp add: background_of_None) (simp add: reading_at_def)
  have "Reading \<in> set (eligible (reading_at t h))"
    unfolding eligible_iff b
    using assms c h by (force simp: reading_at_def passes_gate_def cooling_def)
  moreover have "\<not> foreground_under_way (reading_at t h)"
    using u by (simp add: foreground_under_way_def reading_at_def)
  ultimately have "draw (reading_at t h) some_rolls \<noteq> None" using draw_None_iff by fastforce
  then obtain d where d: "draw (reading_at t h) some_rolls = Some d" by blast
  with draw_SomeD(1) [OF d] show ?thesis by (auto simp: eligible_iff reading_at_def)
qed

text \<open>A drawn event passed every filter: its kind is drawable, allowed and through its
  gate, clear of its own, its category's and the offline cooldown, not during another incident,
  during a background only when the background leaves room for it; and it lasts within its
  rule's bounds, whatever the rolls.\<close>

theorem draw_sound:
  assumes "draw inp r = Some d"
  defines "k \<equiv> drawn_kind d"
  shows "k \<in> set all_kinds \<and> k \<in> set (di_allowed inp)
    \<and> passes_gate k (di_intimacy_rung inp) (di_persona inp)
    \<and> lasts_within k (drawn_lasts d)
    \<and> (\<forall>e \<in> set (di_history inp). under_way inp e \<longrightarrow> is_background (pe_kind e) \<and> \<not> is_background k)
    \<and> (\<forall>b. background_of inp = Some b \<longrightarrow> \<not> rules_out b k)
    \<and> (\<forall>e \<in> set (di_history inp).
         (pe_kind e = k \<longrightarrow> pe_started_at e + hours (kr_cooldown_hours (rule k)) \<le> di_now inp)
         \<and> (category (pe_kind e) = category k \<longrightarrow>
              pe_started_at e + hours (cat_cooldown_hours (category_rule_of (category k))) \<le> di_now inp)
         \<and> (is_offline (di_persona inp) k \<and> is_offline (di_persona inp) (pe_kind e) \<longrightarrow>
              pe_started_at e + hours OFFLINE_COOLDOWN_HOURS \<le> di_now inp))"
proof -
  note d = draw_SomeD [OF assms(1)]
  note e = d(1) [folded k_def, unfolded eligible_iff]
  have b: "is_background (pe_kind x) \<and> \<not> is_background k"
    if "x \<in> set (di_history inp)" "under_way inp x" for x
  proof -
    have x: "is_background (pe_kind x)" using d(2) that by (auto simp: foreground_under_way_def)
    with that obtain c where "background_of inp = Some c" using background_of_None [of inp] by auto
    with e x show ?thesis by auto
  qed
  have "lasts_within k (drawn_lasts d)" unfolding d(3) k_def by (rule lasts_for_within)
  with e b show ?thesis by (auto simp: cooling_def not_less)
qed

theorem draw_sound_witness:
  "\<exists>d. draw (reading_at 0 []) some_rolls = Some d \<and> lasts_within Reading (drawn_lasts d)"
proof -
  obtain d where d: "draw (reading_at 0 []) some_rolls = Some d" "drawn_kind d = Reading"
    using reading_eligible [of "[]" 0] by auto
  with draw_sound [OF d(1)] show ?thesis by auto
qed

text \<open>A draw comes back empty exactly when an incident is under way or no kind is
  eligible: every weight is positive in binary64, so no roll falls through the tables.\<close>

theorem draw_complete:
  "draw inp r = None \<longleftrightarrow>
     (\<exists>e \<in> set (di_history inp). di_now inp < pe_ends_at e \<and> \<not> is_background (pe_kind e))
     \<or> eligible inp = []"
  using draw_None_iff [of inp r] by (simp add: foreground_under_way_def under_way_def)

section \<open>The lookback window\<close>

lemma lookback_value: "lookback = hours (90 * 24)"
  by (simp add: lookback_def all_kinds_def all_categories_def rule_def mk_rule_def
      category_rule_of_def max_hours_def)

lemma rule_within_lookback:
  "kr_cooldown_hours (rule k) \<le> 90 * 24 \<and> max_hours (kr_lasts (rule k)) \<le> 7 * 24"
  by (cases k) (simp_all add: rule_def mk_rule_def max_hours_def)

lemma category_within_lookback: "cat_cooldown_hours (category_rule_of c) \<le> 14 * 24"
  by (cases c) (simp_all add: category_rule_of_def)

text \<open>A stored event ends no later than its kind's longest length after it started.\<close>

definition event_ok :: "past_event \<Rightarrow> bool" where
  "event_ok e \<longleftrightarrow> pe_ends_at e \<le> pe_started_at e + hours (max_hours (kr_lasts (rule (pe_kind e))))"

definition within_lookback :: "draw_input \<Rightarrow> draw_input" where
  "within_lookback inp =
     inp\<lparr>di_history := filter (\<lambda>e. di_now inp - lookback < pe_started_at e) (di_history inp)\<rparr>"

lemma filter_drop: "(\<And>x. x \<in> set xs \<Longrightarrow> P x \<Longrightarrow> Q x) \<Longrightarrow> filter P (filter Q xs) = filter P xs"
  by (induction xs) auto

lemma find_filter: "List.find P xs = (case filter P xs of [] \<Rightarrow> None | x # _ \<Rightarrow> Some x)"
  by (induction xs) auto

lemma list_ex_filter: "list_ex P xs \<longleftrightarrow> filter P xs \<noteq> []"
  by (auto simp: list_ex_iff filter_empty_conv)

lemma di_history_within:
  "di_history (within_lookback inp) = filter (\<lambda>e. di_now inp - lookback < pe_started_at e) (di_history inp)"
  by (simp add: within_lookback_def)

lemma list_ex_within:
  "(\<And>e. e \<in> set h \<Longrightarrow> P e \<Longrightarrow> Q e) \<Longrightarrow> list_ex P (filter Q h) = list_ex P h"
  by (auto simp: list_ex_iff)

lemma hours_mono: "m \<le> n \<Longrightarrow> hours m \<le> hours n"
  by (simp add: hours_def)

lemma cooling_within:
  "cooling inp t n \<Longrightarrow> n \<le> 90 * 24 \<Longrightarrow> di_now inp - lookback < t"
  using hours_mono [of n "90 * 24"] by (simp add: cooling_def lookback_value)

lemma recent_within:
  assumes "event_ok e" "di_now inp - hours 48 < pe_ends_at e"
  shows "di_now inp - lookback < pe_started_at e"
proof -
  have "pe_ends_at e \<le> pe_started_at e + hours (7 * 24)"
    using assms(1) rule_within_lookback [of "pe_kind e"]
      hours_mono [of "max_hours (kr_lasts (rule (pe_kind e)))" "7 * 24"]
    by (simp add: event_ok_def)
  with assms(2) show ?thesis by (simp add: lookback_value hours_def)
qed

lemma under_way_within:
  "event_ok e \<Longrightarrow> under_way inp e \<Longrightarrow> di_now inp - lookback < pe_started_at e"
  using recent_within [of e inp] by (simp add: under_way_def hours_def)

lemma within_lookback_fields [simp]:
  "di_now (within_lookback inp) = di_now inp" "di_needs (within_lookback inp) = di_needs inp"
  "di_intimacy_rung (within_lookback inp) = di_intimacy_rung inp"
  "di_persona (within_lookback inp) = di_persona inp"
  "di_allowed (within_lookback inp) = di_allowed inp"
  "di_ever_had_sex (within_lookback inp) = di_ever_had_sex inp"
  "under_way (within_lookback inp) = under_way inp" "cooling (within_lookback inp) = cooling inp"
  by (simp_all add: within_lookback_def under_way_def cooling_def fun_eq_iff)

lemma under_way_filter:
  assumes "\<forall>e \<in> set (di_history inp). event_ok e"
  shows "filter (under_way inp) (di_history (within_lookback inp)) = filter (under_way inp) (di_history inp)"
  unfolding di_history_within using under_way_within assms by (intro filter_drop) blast

lemma eligible_within:
  assumes "\<forall>e \<in> set (di_history inp). event_ok e"
  shows "eligible (within_lookback inp) = eligible inp"
proof -
  have b: "background_of (within_lookback inp) = background_of inp"
    by (simp add: background_of_def under_way_filter [OF assms])
  have h: "list_ex P (di_history (within_lookback inp)) = list_ex P (di_history inp)"
    if "\<And>e. P e \<Longrightarrow> \<exists>n \<le> 90 * 24. cooling inp (pe_started_at e) n" for P
    unfolding di_history_within using that cooling_within by (intro list_ex_within) blast
  have "list_ex (\<lambda>e. pe_kind e = k \<and> cooling inp (pe_started_at e) (kr_cooldown_hours (rule k)))
      (di_history (within_lookback inp))
    = list_ex (\<lambda>e. pe_kind e = k \<and> cooling inp (pe_started_at e) (kr_cooldown_hours (rule k)))
      (di_history inp)" for k
    using rule_within_lookback [of k] by (intro h) blast
  moreover have "list_ex (\<lambda>e. category (pe_kind e) = c \<and> cooling inp (pe_started_at e) (cat_cooldown_hours (category_rule_of c)))
      (di_history (within_lookback inp))
    = list_ex (\<lambda>e. category (pe_kind e) = c \<and> cooling inp (pe_started_at e) (cat_cooldown_hours (category_rule_of c)))
      (di_history inp)" for c
    using order_trans [OF category_within_lookback [of c], of "90 * 24"] by (intro h) auto
  moreover have "list_ex (\<lambda>e. is_offline (di_persona inp) (pe_kind e) \<and> cooling inp (pe_started_at e) OFFLINE_COOLDOWN_HOURS)
      (di_history (within_lookback inp))
    = list_ex (\<lambda>e. is_offline (di_persona inp) (pe_kind e) \<and> cooling inp (pe_started_at e) OFFLINE_COOLDOWN_HOURS)
      (di_history inp)"
  proof (rule h)
    have "OFFLINE_COOLDOWN_HOURS \<le> 90 * 24" by (simp add: OFFLINE_COOLDOWN_HOURS_def)
    then show "\<exists>n \<le> 90 * 24. cooling inp (pe_started_at e) n"
      if "is_offline (di_persona inp) (pe_kind e) \<and> cooling inp (pe_started_at e) OFFLINE_COOLDOWN_HOURS" for e
      using that by blast
  qed
  ultimately show ?thesis by (simp only: eligible_def b Let_def within_lookback_fields)
qed

lemma kind_weight_within:
  assumes "\<forall>e \<in> set (di_history inp). event_ok e"
  shows "kind_weight (within_lookback inp) k = kind_weight inp k"
proof -
  have "filter (\<lambda>e. di_now inp - hours FOLLOW_WINDOW_HOURS < pe_ends_at e \<and> follows (pe_kind e) k)
      (di_history (within_lookback inp))
    = filter (\<lambda>e. di_now inp - hours FOLLOW_WINDOW_HOURS < pe_ends_at e \<and> follows (pe_kind e) k)
      (di_history inp)"
    unfolding di_history_within FOLLOW_WINDOW_HOURS_def
    using assms recent_within by (intro filter_drop) blast
  then have "follow_factor k (di_history (within_lookback inp)) (di_now inp)
      = follow_factor k (di_history inp) (di_now inp)"
    by (simp only: follow_factor_def Let_def)
  then show ?thesis by (simp add: kind_weight_def)
qed

text \<open>The lookback window is enough: a draw over the events of the last
  \<open>lookback()\<close> gives exactly what a draw over the whole history gives, for every history
  whose events are no longer than their kind's rule allows.\<close>

theorem lookback_sufficient:
  assumes "\<forall>e \<in> set (di_history inp). event_ok e"
  shows "draw (within_lookback inp) r = draw inp r"
proof -
  have c: "category_weights (within_lookback inp) = category_weights inp"
    by (simp add: category_weights_def eligible_within [OF assms])
  have k: "kind_weight (within_lookback inp) = kind_weight inp"
    using kind_weight_within [OF assms] by (simp add: fun_eq_iff)
  show ?thesis
    unfolding draw_def within_lookback_fields(7) under_way_filter [OF assms] c k
      eligible_within [OF assms] ..
qed

theorem lookback_sufficient_witness:
  "draw (within_lookback (reading_at (hours 9000) [\<lparr>pe_kind = Gaming, pe_started_at = 0, pe_ends_at = hours 2\<rparr>])) some_rolls
   = draw (reading_at (hours 9000) [\<lparr>pe_kind = Gaming, pe_started_at = 0, pe_ends_at = hours 2\<rparr>]) some_rolls"
  by (rule lookback_sufficient)
    (simp add: reading_at_def event_ok_def rule_def mk_rule_def max_hours_def hours_def)

section \<open>A day built by draws\<close>

text \<open>One step of the sweep: at some later instant the draw gives an event and it is stored.\<close>

inductive life_step :: "persona_traits \<Rightarrow> instant \<times> past_event list \<Rightarrow> instant \<times> past_event list \<Rightarrow> bool"
  for persona :: persona_traits where
  life_draw: "t \<le> di_now inp \<Longrightarrow> di_persona inp = persona \<Longrightarrow> draw inp r = Some d
     \<Longrightarrow> life_step persona (t, di_history inp)
           (di_now inp, di_history inp @ [\<lparr>pe_kind = drawn_kind d, pe_started_at = di_now inp,
                                           pe_ends_at = di_now inp + drawn_lasts d\<rparr>])"

inductive life_init :: "instant \<times> past_event list \<Rightarrow> bool" where
  "life_init (t, [])"

inductive_cases life_stepE: "life_step persona s t"
inductive_cases life_initE: "life_init s"

text \<open>How two events of one life stand to each other, the earlier first.\<close>

definition apart :: "persona_traits \<Rightarrow> past_event \<Rightarrow> past_event \<Rightarrow> bool" where
  "apart persona a b \<longleftrightarrow>
     pe_started_at a \<le> pe_started_at b
     \<and> (\<not> is_background (pe_kind a) \<longrightarrow> pe_ends_at a \<le> pe_started_at b)
     \<and> (is_background (pe_kind a) \<and> is_background (pe_kind b) \<longrightarrow> pe_ends_at a \<le> pe_started_at b)
     \<and> (pe_kind a = pe_kind b \<longrightarrow>
          pe_started_at a + hours (kr_cooldown_hours (rule (pe_kind b))) \<le> pe_started_at b)
     \<and> (is_offline persona (pe_kind a) \<and> is_offline persona (pe_kind b) \<longrightarrow>
          pe_started_at a + hours OFFLINE_COOLDOWN_HOURS \<le> pe_started_at b)"

definition life_ok :: "persona_traits \<Rightarrow> instant \<times> past_event list \<Rightarrow> bool" where
  "life_ok persona s \<longleftrightarrow> (case s of (t, h) \<Rightarrow>
     sorted_wrt (apart persona) h \<and> (\<forall>e \<in> set h. pe_started_at e \<le> t \<and> event_ok e))"

lemma lasts_within_max: "lasts_within k d \<Longrightarrow> d \<le> hours (max_hours (kr_lasts (rule k)))"
  using rule_hours_ordered [of k]
  by (cases "kr_lasts (rule k)")
    (auto simp: lasts_within_def max_hours_def hours_def minutes_def)

lemma life_ok_step:
  assumes "life_step persona s u" "life_ok persona s"
  shows "life_ok persona u"
  using assms(1)
proof (rule life_stepE)
  fix t inp r d
  assume s: "s = (t, di_history inp)" and u: "u = (di_now inp,
      di_history inp @ [\<lparr>pe_kind = drawn_kind d, pe_started_at = di_now inp,
                         pe_ends_at = di_now inp + drawn_lasts d\<rparr>])"
    and t: "t \<le> di_now inp" and p: "di_persona inp = persona" and d: "draw inp r = Some d"
  let ?e = "\<lparr>pe_kind = drawn_kind d, pe_started_at = di_now inp, pe_ends_at = di_now inp + drawn_lasts d\<rparr>"
  note el = draw_SomeD(1) [OF d, unfolded eligible_iff]
  have ok: "event_ok ?e"
    using lasts_within_max [OF lasts_for_within] draw_SomeD(3) [OF d] by (simp add: event_ok_def)
  have ap: "apart persona x ?e" if x: "x \<in> set (di_history inp)" for x
  proof -
    have bg: "is_background (pe_kind x) \<and> \<not> is_background (drawn_kind d)" if w: "di_now inp < pe_ends_at x"
    proof -
      from w have b: "is_background (pe_kind x)"
        using draw_SomeD(2) [OF d] x by (auto simp: foreground_under_way_def under_way_def)
      with w x obtain c where "background_of inp = Some c"
        using background_of_None [of inp] by (auto simp: under_way_def)
      with el b show ?thesis by auto
    qed
    have cool: "(pe_kind x = drawn_kind d \<longrightarrow>
        pe_started_at x + hours (kr_cooldown_hours (rule (drawn_kind d))) \<le> di_now inp)
      \<and> (is_offline persona (drawn_kind d) \<and> is_offline persona (pe_kind x)
          \<longrightarrow> pe_started_at x + hours OFFLINE_COOLDOWN_HOURS \<le> di_now inp)"
      using el x p by (simp add: cooling_def not_less)
    have "pe_started_at x \<le> di_now inp" using assms(2) x t by (force simp: life_ok_def s)
    with bg cool show ?thesis unfolding apart_def by (simp add: not_less [symmetric]) blast
  qed
  show "life_ok persona u"
    using assms(2) ok ap t by (auto simp: life_ok_def s u sorted_wrt_append)
qed

interpretation life: guarded_system life_init "life_step persona" "life_ok persona" for persona
proof
  show "life_init s \<Longrightarrow> life_ok persona s" for s
    by (auto elim!: life_initE simp: life_ok_def)
  show "life_step persona s t \<Longrightarrow> life_ok persona s \<Longrightarrow> life_ok persona t" for s t
    by (rule life_ok_step)
qed

text \<open>C14: In a life built by draws, at any instants and with any needs, rungs, allow-lists
  and rolls, no two events stand too close: an incident is over before anything else starts, two
  backgrounds never overlap, a kind keeps its cooldown and going offline keeps the twelve hours
  between; and reading only the lookback window never changes the next draw.\<close>

theorem life_events_stay_apart:
  assumes "reach life_init (life_step persona) (t, h)" and "i < j" and "j < length h"
  shows "apart persona (h ! i) (h ! j)
    \<and> (\<forall>inp r. di_history inp = h \<longrightarrow> draw (within_lookback inp) r = draw inp r)"
proof -
  have ok: "life_ok persona (t, h)" using assms(1) by (rule life.inv_reach)
  then have "apart persona (h ! i) (h ! j)"
    using assms(2,3) by (simp add: life_ok_def sorted_wrt_iff_nth_less)
  moreover have "draw (within_lookback inp) r = draw inp r" if "di_history inp = h" for inp r
    using ok that by (intro lookback_sufficient) (auto simp: life_ok_def)
  ultimately show ?thesis by blast
qed

theorem life_events_stay_apart_witness:
  "\<exists>a b. apart reader a b \<and> pe_started_at a = 0 \<and> pe_started_at b = hours 100"
proof -
  let ?e = "\<lambda>t d. \<lparr>pe_kind = drawn_kind d, pe_started_at = t, pe_ends_at = t + drawn_lasts d\<rparr>"
  obtain d where d: "draw (reading_at 0 []) some_rolls = Some d" "drawn_kind d = Reading"
    using reading_eligible [of "[]" 0] by auto
  have "lasts_within Reading (drawn_lasts d)"
    using draw_SomeD(3) [OF d(1)] d(2) lasts_for_within by simp
  then have "drawn_lasts d \<le> hours 100"
    by (auto simp: lasts_within_def rule_def mk_rule_def hours_def)
  then have "\<exists>d'. draw (reading_at (hours 100) [?e 0 d]) some_rolls = Some d' \<and> drawn_kind d' = Reading"
    using d(2) by (intro reading_eligible) (simp add: hours_def category_def)
  then obtain d' where d': "draw (reading_at (hours 100) [?e 0 d]) some_rolls = Some d'" by blast
  have "reach life_init (life_step reader) (0, [])" by (intro reach_init life_init.intros)
  moreover have "life_step reader (0, []) (0, [?e 0 d])"
    using life_draw [of 0 "reading_at 0 []" reader, OF _ _ d(1)] by (simp add: reading_at_def)
  ultimately have "reach life_init (life_step reader) (0, [?e 0 d])" by (rule reach_step)
  moreover have "life_step reader (0, [?e 0 d]) (hours 100, [?e 0 d, ?e (hours 100) d'])"
    using life_draw [of 0 "reading_at (hours 100) [?e 0 d]" reader, OF _ _ d']
    by (simp add: reading_at_def hours_def)
  ultimately have "reach life_init (life_step reader) (hours 100, [?e 0 d, ?e (hours 100) d'])"
    by (rule reach_step)
  from life_events_stay_apart [OF this, of 0 1] show ?thesis
    by (intro exI [of _ "?e 0 d"] exI [of _ "?e (hours 100) d'"]) simp
qed

end
