(* ===== verification/Ghost.thy ===== *)
theory Ghost
  imports Core_Types
begin

text \<open>
  The decision to stay silent (\<open>crates/eros-engine-core/src/ghost.rs\<close>): a score over three
  axes, and the protections that veto silence whatever the score is.
\<close>

record ghost_signals =
  gs_message_count :: int
  gs_hours_since_last_ghost :: "f64 option"

datatype ghost_decision = GhostDecided | ReplyDecided

definition ghost_score :: "affinity \<Rightarrow> f64" where
  "ghost_score a = fadd (fadd (fmul (fsub 1 (intrigue a)) (flit 0.4))
     (fmul (fsub 1 (patience a)) (flit 0.4))) (fmul (tension a) (flit 0.2))"

definition GHOST_MIN_MESSAGES :: int where "GHOST_MIN_MESSAGES = 10"

definition ghost_permitted :: "affinity \<Rightarrow> ghost_signals \<Rightarrow> bool" where
  "ghost_permitted a s =
     (if gs_message_count s < GHOST_MIN_MESSAGES then False
      else if 2 \<le> ghost_streak a then False
      else if (case gs_hours_since_last_ghost s of Some h \<Rightarrow> h < 1 | None \<Rightarrow> False) then False
      else True)"

definition ghost_decide :: "affinity \<Rightarrow> ghost_signals \<Rightarrow> ghost_decision" where
  "ghost_decide a s =
     (if \<not> ghost_permitted a s then ReplyDecided
      else (let threshold = (if gs_hours_since_last_ghost s \<noteq> None then flit 0.85 else flit 0.65)
            in if threshold < ghost_score a then GhostDecided else ReplyDecided))"

section \<open>Protections and monotonicity\<close>

lemma flit_pos: "0 \<le> x \<Longrightarrow> 0 \<le> flit x"
  by (simp add: flit_def f64.rnd_nonneg)

lemma ghost_score_mono:
  assumes "intrigue b \<le> intrigue a" "intrigue a \<le> 1" "patience b \<le> patience a" "patience a \<le> 1"
    "0 \<le> tension a" "tension a \<le> tension b"
  shows "ghost_score a \<le> ghost_score b"
  unfolding ghost_score_def using assms
  by (intro fadd_mono fmul_mono fsub_mono fsub_nonneg flit_pos) auto

text \<open>A row that is wholly interested and patient is never silent, however tense it is.\<close>

lemma ghost_score_engaged:
  assumes "intrigue a = 1" "patience a = 1" "tension a \<le> 1"
  shows "ghost_score a \<le> flit 0.2"
proof -
  have "fmul (tension a) (flit 0.2) \<le> fmul 1 (flit 0.2)"
  proof -
    have "tension a * flit 0.2 \<le> 1 * flit 0.2"
      using assms by (intro mult_right_mono flit_pos) auto
    then show ?thesis unfolding fmul_def by (rule f64.rnd_mono)
  qed
  also have "fmul 1 (flit 0.2) = flit 0.2" by (simp add: fmul_def flit_def rnd64_idem)
  finally have le: "fmul (tension a) (flit 0.2) \<le> flit 0.2" .
  have "fadd 0 (fmul (tension a) (flit 0.2)) = fmul (tension a) (flit 0.2)"
    by (simp add: fadd_def fmul_def rnd64_idem)
  with le show ?thesis by (simp add: ghost_score_def assms)
qed

text \<open>The persona goes silent only past every protection (ten messages, fewer than two
  ghosts in a row, an hour since the last one) and above a bar that is 0.85 once the session
  has ever ghosted; and a colder row (less interest, less patience, more tension) with the same
  signals is silent whenever a warmer one is.\<close>

theorem ghost_protections:
  assumes "ghost_decide a s = GhostDecided"
  shows "10 \<le> gs_message_count s \<and> ghost_streak a < 2
    \<and> (case gs_hours_since_last_ghost s of
         None \<Rightarrow> flit 0.65 < ghost_score a | Some h \<Rightarrow> 1 \<le> h \<and> flit 0.85 < ghost_score a)
    \<and> (axes_ok a \<and> axes_ok b \<and> intrigue b \<le> intrigue a \<and> patience b \<le> patience a
        \<and> tension a \<le> tension b \<and> ghost_streak b \<le> ghost_streak a \<longrightarrow> ghost_decide b s = GhostDecided)
    \<and> (axes_ok a \<longrightarrow> \<not> (intrigue a = 1 \<and> patience a = 1))"
proof -
  have p: "10 \<le> gs_message_count s \<and> ghost_streak a < 2
    \<and> (case gs_hours_since_last_ghost s of
         None \<Rightarrow> flit 0.65 < ghost_score a | Some h \<Rightarrow> 1 \<le> h \<and> flit 0.85 < ghost_score a)"
    using assms by (auto simp: ghost_decide_def ghost_permitted_def GHOST_MIN_MESSAGES_def Let_def
        split: if_splits option.splits)
  have c: "ghost_decide b s = GhostDecided"
    if "axes_ok a" "intrigue b \<le> intrigue a" "patience b \<le> patience a"
       "tension a \<le> tension b" "ghost_streak b \<le> ghost_streak a"
  proof -
    have "ghost_score a \<le> ghost_score b"
      using that by (intro ghost_score_mono) (auto simp: axes_ok_def unit_def)
    then show ?thesis using p that
      by (auto simp: ghost_decide_def ghost_permitted_def GHOST_MIN_MESSAGES_def Let_def
          split: option.splits)
  qed
  have e: "\<not> (intrigue a = 1 \<and> patience a = 1)" if "axes_ok a"
  proof
    assume "intrigue a = 1 \<and> patience a = 1"
    with that have "ghost_score a \<le> flit 0.2" by (intro ghost_score_engaged) (auto simp: axes_ok_def unit_def)
    with p show False
      using flit_bounds [of "0.2"] flit_bounds [of "0.65"] flit_bounds [of "0.85"]
      by (auto split: option.splits)
  qed
  show ?thesis using p c e by auto
qed

text \<open>A cold row: nothing on the bond line, no patience.\<close>

definition cold_row :: affinity where
  "cold_row = (unrecorded 0)\<lparr>patience := 0\<rparr>"

lemma ghost_score_cold: "flit 0.65 < ghost_score cold_row"
proof -
  have "fsub 1 0 = (1::real)" using f64.rnd_1 by (simp add: fsub_def)
  moreover have m: "fmul 1 (flit 0.4) = flit 0.4" by (simp add: fmul_def flit_def rnd64_idem)
  ultimately have "ghost_score cold_row = fadd (fadd (flit 0.4) (flit 0.4)) 0"
    by (simp add: ghost_score_def cold_row_def unrecorded_def Let_def)
  also have "\<dots> = fadd (flit 0.4) (flit 0.4)" by (simp add: fadd_def rnd64_idem)
  finally show ?thesis
    using fop_bounds(1) [of "flit 0.4" "flit 0.4"] flit_bounds [of "0.4"] flit_bounds [of "0.65"]
    by (simp add: abs_le_iff)
qed

theorem ghost_protections_witness:
  "ghost_decide (cold_row\<lparr>intrigue := 0\<rparr>)
     \<lparr>gs_message_count = 12, gs_hours_since_last_ghost = None\<rparr> = GhostDecided"
proof -
  let ?s = "\<lparr>gs_message_count = 12, gs_hours_since_last_ghost = None\<rparr>"
  have "ghost_decide cold_row ?s = GhostDecided"
    using ghost_score_cold
    by (simp add: ghost_decide_def ghost_permitted_def GHOST_MIN_MESSAGES_def cold_row_def unrecorded_def Let_def)
  moreover have "axes_ok cold_row"
    using axes_ok_unrecorded [of 0] by (simp add: cold_row_def axes_ok_def)
  ultimately show ?thesis
    using ghost_protections [of cold_row ?s "cold_row\<lparr>intrigue := 0\<rparr>"]
    by (simp add: axes_ok_def cold_row_def unrecorded_def Let_def)
qed

end
