(* ===== verification/Pde.thy ===== *)
theory Pde
  imports Ghost Needs
begin

text \<open>
  The persona decision engine (\<open>crates/eros-engine-core/src/pde.rs\<close>): the rule-based plan
  of an event and the plan for an action a judge chose. A panic (\<open>unreachable!\<close>) is
  \<open>None\<close>.
\<close>

definition LONG_MSG_CHARS :: nat where "LONG_MSG_CHARS = 30"
definition STALE_HOURS :: f64 where "STALE_HOURS = 24"
definition INTRIGUE_LONG_BUMP :: f64 where "INTRIGUE_LONG_BUMP = flit 0.02"
definition TENSION_STALE_BUMP :: f64 where "TENSION_STALE_BUMP = flit 0.03"
definition ENERGY_COST_REPLY :: f64 where "ENERGY_COST_REPLY = flit 0.05"
definition ENERGY_COST_PROACTIVE :: f64 where "ENERGY_COST_PROACTIVE = flit 0.1"
definition ENERGY_COST_GHOST :: f64 where "ENERGY_COST_GHOST = 0"
definition ENERGY_COST_APP_OPEN :: f64 where "ENERGY_COST_APP_OPEN = 0"
definition GHOST_DELTA_TENSION :: f64 where "GHOST_DELTA_TENSION = flit 0.05"
definition UNUSED_SUBSTANCE_ACCEPT :: f64 where "UNUSED_SUBSTANCE_ACCEPT = fdiv 1 3"

definition event_action :: "event \<Rightarrow> user_action option" where
  "event_action e = (case e of UserMessage m \<Rightarrow> um_action m | _ \<Rightarrow> None)"

definition settle_action_response :: "event \<Rightarrow> action_response option \<Rightarrow> action_response option" where
  "settle_action_response e judged =
     (if event_action e \<noteq> None then Some (case judged of Some r \<Rightarrow> r | None \<Rightarrow> Accept) else None)"

definition refuses_give :: "event \<Rightarrow> habits \<Rightarrow> f64 \<Rightarrow> bool" where
  "refuses_give e h roll = (case event_action e of
     Some (Give item _ _) \<Rightarrow> uses_item h item = Some False \<and> UNUSED_SUBSTANCE_ACCEPT \<le> roll
   | _ \<Rightarrow> False)"

definition named_outfit :: "event \<Rightarrow> rstr option" where
  "named_outfit e = (case e of UserMessage m \<Rightarrow> um_outfit m | _ \<Rightarrow> None)"

definition predict_reply_deltas :: "decision_input \<Rightarrow> affinity_deltas" where
  "predict_reply_deltas inp =
     (let d = zero_deltas;
          d = (case in_event inp of
                 UserMessage m \<Rightarrow>
                   (if LONG_MSG_CHARS \<le> length (um_content m)
                    then d\<lparr>d_intrigue := fadd (d_intrigue d) INTRIGUE_LONG_BUMP\<rparr> else d)
               | _ \<Rightarrow> d);
          d = (if STALE_HOURS < hours_since_last_message (in_signals inp)
               then d\<lparr>d_tension := fadd (d_tension d) TENSION_STALE_BUMP\<rparr> else d)
      in d)"

definition ghost_affinity_deltas :: affinity_deltas where
  "ghost_affinity_deltas = zero_deltas\<lparr>d_tension := GHOST_DELTA_TENSION\<rparr>"

definition reply_plan :: "decision_input \<Rightarrow> action_response option \<Rightarrow> action_plan" where
  "reply_plan inp resp =
     \<lparr>plan_action_type = ReplyText, plan_reply_style = Neutral,
      plan_affinity_deltas = predict_reply_deltas inp, plan_energy_cost = ENERGY_COST_REPLY,
      plan_context_hints = [], plan_reply_mode = None, plan_nudges = no_nudges,
      plan_clothing = named_outfit (in_event inp), plan_image_caption = None, plan_image_ref = Face,
      plan_aspect_ratio = None, plan_action_response = resp\<rparr>"

definition quiet_plan :: "action_type \<Rightarrow> reply_style \<Rightarrow> affinity_deltas \<Rightarrow> f64 \<Rightarrow> action_plan" where
  "quiet_plan action style deltas cost =
     \<lparr>plan_action_type = action, plan_reply_style = style, plan_affinity_deltas = deltas,
      plan_energy_cost = cost, plan_context_hints = [], plan_reply_mode = None,
      plan_nudges = no_nudges, plan_clothing = None, plan_image_caption = None,
      plan_image_ref = Face, plan_aspect_ratio = None, plan_action_response = None\<rparr>"

definition pde_decide :: "decision_input \<Rightarrow> action_plan" where
  "pde_decide inp =
     (if event_action (in_event inp) \<noteq> None then reply_plan inp (Some Accept)
      else if ghost_decide (in_affinity inp)
                \<lparr>gs_message_count = message_count (in_signals inp),
                 gs_hours_since_last_ghost = hours_since_last_ghost (in_signals inp)\<rparr> = GhostDecided
      then quiet_plan GhostTurn Cold ghost_affinity_deltas ENERGY_COST_GHOST
      else if in_event inp = ProactiveTrigger
      then quiet_plan Proactive Neutral zero_deltas ENERGY_COST_PROACTIVE
      else if in_event inp = AppOpen
      then quiet_plan Proactive Neutral zero_deltas ENERGY_COST_APP_OPEN
      else reply_plan inp None)"

definition plan_for :: "decision_input \<Rightarrow> action_type \<Rightarrow> rstr list \<Rightarrow> reply_mode option \<Rightarrow> rstr option
    \<Rightarrow> image_ref \<Rightarrow> rstr option \<Rightarrow> action_response option \<Rightarrow> action_plan option" where
  "plan_for inp action hints mode clothing image_ref aspect_ratio resp = (case action of
     GhostTurn \<Rightarrow> Some (quiet_plan GhostTurn Cold ghost_affinity_deltas ENERGY_COST_GHOST)
   | ProductQa \<Rightarrow> Some (quiet_plan ProductQa Neutral zero_deltas 0)
   | Proactive \<Rightarrow> None
   | _ \<Rightarrow> Some \<lparr>plan_action_type = action, plan_reply_style = Neutral,
        plan_affinity_deltas = predict_reply_deltas inp, plan_energy_cost = ENERGY_COST_REPLY,
        plan_context_hints = hints,
        plan_reply_mode = (if action = ReplyImage then None else mode),
        plan_nudges = no_nudges,
        plan_clothing = (case named_outfit (in_event inp) of Some x \<Rightarrow> Some x | None \<Rightarrow> clothing),
        plan_image_caption = None, plan_image_ref = image_ref, plan_aspect_ratio = aspect_ratio,
        plan_action_response = settle_action_response (in_event inp) resp\<rparr>)"

section \<open>What a plan may do\<close>

text \<open>
  The contract the plan's documentation states: a response exactly when the event carries an
  action and the plan replies; clothing only on a reply; no delta on the derived endpoints;
  every delta a small step, never down.
\<close>

definition small_delta :: "f64 \<Rightarrow> bool" where
  "small_delta x \<longleftrightarrow> 0 \<le> x \<and> x \<le> 51/1000"

definition plan_ok :: "decision_input \<Rightarrow> action_plan \<Rightarrow> bool" where
  "plan_ok inp p \<longleftrightarrow>
     (plan_action_response p \<noteq> None \<longleftrightarrow>
        event_action (in_event inp) \<noteq> None \<and> is_text_reply (plan_action_type p))
     \<and> (plan_clothing p \<noteq> None \<longrightarrow> is_text_reply (plan_action_type p))
     \<and> (plan_reply_mode p \<noteq> None \<longrightarrow> bears_text (plan_action_type p))
     \<and> d_warmth (plan_affinity_deltas p) = 0 \<and> d_patience (plan_affinity_deltas p) = 0
     \<and> d_trust (plan_affinity_deltas p) = 0 \<and> d_intimacy (plan_affinity_deltas p) = 0
     \<and> small_delta (d_intrigue (plan_affinity_deltas p)) \<and> small_delta (d_tension (plan_affinity_deltas p))
     \<and> 0 \<le> plan_energy_cost p \<and> plan_nudges p = no_nudges \<and> plan_image_caption p = None"

lemma fadd_0_flit: "fadd 0 (flit x) = flit x"
  by (simp add: fadd_def flit_def rnd64_idem)

lemma bumps:
  "small_delta 0" "small_delta INTRIGUE_LONG_BUMP" "small_delta TENSION_STALE_BUMP"
  "small_delta GHOST_DELTA_TENSION"
  using flit_bounds [of "0.02"] flit_bounds [of "0.03"] flit_bounds [of "0.05"]
  by (auto simp: small_delta_def INTRIGUE_LONG_BUMP_def TENSION_STALE_BUMP_def GHOST_DELTA_TENSION_def)

lemma costs: "0 \<le> ENERGY_COST_REPLY" "0 \<le> ENERGY_COST_PROACTIVE"
  using flit_pos [of "0.05"] flit_pos [of "0.1"] by (simp_all add: ENERGY_COST_REPLY_def ENERGY_COST_PROACTIVE_def)

lemma predicted_deltas:
  "d_warmth (predict_reply_deltas inp) = 0" "d_patience (predict_reply_deltas inp) = 0"
  "d_trust (predict_reply_deltas inp) = 0" "d_intimacy (predict_reply_deltas inp) = 0"
  "small_delta (d_intrigue (predict_reply_deltas inp))"
  "small_delta (d_tension (predict_reply_deltas inp))"
  using bumps
  by (simp_all add: predict_reply_deltas_def zero_deltas_def Let_def fadd_0_flit
      INTRIGUE_LONG_BUMP_def TENSION_STALE_BUMP_def split: event.split)

lemma plan_ok_reply:
  "(resp \<noteq> None) = (event_action (in_event inp) \<noteq> None) \<Longrightarrow> plan_ok inp (reply_plan inp resp)"
  by (simp add: plan_ok_def reply_plan_def is_text_reply_def bears_text_def predicted_deltas costs)

lemma plan_ok_quiet:
  "\<not> is_text_reply action \<Longrightarrow> small_delta (d_intrigue d) \<Longrightarrow> small_delta (d_tension d) \<Longrightarrow> d_warmth d = 0
   \<Longrightarrow> d_patience d = 0 \<Longrightarrow> d_trust d = 0 \<Longrightarrow> d_intimacy d = 0 \<Longrightarrow> 0 \<le> cost
   \<Longrightarrow> plan_ok inp (quiet_plan action style d cost)"
  by (simp add: plan_ok_def quiet_plan_def)

lemma quiet_deltas:
  "small_delta (d_intrigue zero_deltas)" "small_delta (d_tension zero_deltas)"
  "small_delta (d_intrigue ghost_affinity_deltas)" "small_delta (d_tension ghost_affinity_deltas)"
  using bumps by (simp_all add: zero_deltas_def ghost_affinity_deltas_def)

lemma plan_ok_zero:
  "\<not> is_text_reply action \<Longrightarrow> 0 \<le> cost \<Longrightarrow> plan_ok inp (quiet_plan action style zero_deltas cost)"
  by (rule plan_ok_quiet [OF _ quiet_deltas(1,2)]) (simp_all add: zero_deltas_def)

lemma plan_ok_ghost: "plan_ok inp (quiet_plan GhostTurn Cold ghost_affinity_deltas ENERGY_COST_GHOST)"
  by (rule plan_ok_quiet [OF _ quiet_deltas(3,4)])
    (simp_all add: is_text_reply_def ghost_affinity_deltas_def zero_deltas_def ENERGY_COST_GHOST_def)

lemma pde_decide_ok: "plan_ok inp (pde_decide inp)"
  by (simp add: pde_decide_def is_text_reply_def costs ENERGY_COST_APP_OPEN_def plan_ok_reply plan_ok_ghost plan_ok_zero)

text \<open>The rule engine always answers a user action and accepts it, never with silence;
  it goes silent only when the ghost protections and the score allow it; a trigger that is not a
  message is never answered with a reply; and every plan keeps the plan contract: a response
  exactly on an answered action, clothing on replies only, and no rule delta on an axis the
  judge owns.\<close>

theorem pde_decide_plan:
  "plan_ok inp (pde_decide inp)
   \<and> (event_action (in_event inp) \<noteq> None \<longrightarrow>
        plan_action_type (pde_decide inp) = ReplyText
        \<and> plan_action_response (pde_decide inp) = Some Accept)
   \<and> (plan_action_type (pde_decide inp) = GhostTurn \<longrightarrow>
        10 \<le> message_count (in_signals inp) \<and> ghost_streak (in_affinity inp) < 2
        \<and> event_action (in_event inp) = None)
   \<and> (plan_action_type (pde_decide inp) = ReplyText \<longrightarrow> (\<exists>m. in_event inp = UserMessage m))"
proof -
  note ok = pde_decide_ok [of inp]
  have g: "10 \<le> message_count (in_signals inp) \<and> ghost_streak (in_affinity inp) < 2
        \<and> event_action (in_event inp) = None"
    if "plan_action_type (pde_decide inp) = GhostTurn"
    using that
    by (auto simp: pde_decide_def reply_plan_def quiet_plan_def ghost_decide_def ghost_permitted_def
        GHOST_MIN_MESSAGES_def split: if_splits)
  have a: "plan_action_type (pde_decide inp) = ReplyText \<and> plan_action_response (pde_decide inp) = Some Accept"
    if "event_action (in_event inp) \<noteq> None"
    using that by (simp add: pde_decide_def reply_plan_def)
  have r: "\<exists>m. in_event inp = UserMessage m" if "plan_action_type (pde_decide inp) = ReplyText"
    using that by (cases "in_event inp") (simp_all add: pde_decide_def quiet_plan_def event_action_def split: if_splits)
  show ?thesis using ok a g r by blast
qed

definition sample_message :: user_message where
  "sample_message = \<lparr>um_content = str ''hi'', um_message_id = 1, um_prompt_traits = [],
     um_audit = None, um_tier = None, um_memory_scope = default_memory_scope,
     um_affinity_scope = scope_bond, um_quote = None, um_action = Some Hug, um_outfit = None\<rparr>"

definition sample_input :: "event \<Rightarrow> decision_input" where
  "sample_input e = \<lparr>in_event = e, in_affinity = cold_row,
     in_persona = \<lparr>cp_instance_id = 1,
       cp_genome = \<lparr>genome_id = None, genome_name = [], system_prompt = [], tip_personality = None,
                    art_metadata = JNull\<rparr>,
       cp_instance = \<lparr>inst_id = 1, inst_genome_id = None, owner_uid = 2, inst_status = []\<rparr>, cp_items = []\<rparr>,
     in_signals = \<lparr>message_count = 40, hours_since_last_message = 30, sig_ghost_streak = 0,
       hours_since_last_ghost = None\<rparr>\<rparr>"

theorem pde_decide_plan_witness:
  "plan_action_response (pde_decide (sample_input (UserMessage sample_message))) = Some Accept
   \<and> plan_action_type (pde_decide (sample_input (UserMessage sample_message))) = ReplyText"
  using pde_decide_plan [of "sample_input (UserMessage sample_message)"]
  by (simp add: event_action_def sample_input_def sample_message_def)

text \<open>The plan for an action the judge chose exists for every action but
  \<open>Proactive\<close>, is of that action and keeps the plan contract; on a reply the response in
  effect is the judge's or acceptance, and the caller's outfit wins over the judge's.\<close>

theorem plan_for_plan:
  "(plan_for inp action hints mode clothing ref ratio resp = None \<longleftrightarrow> action = Proactive)
   \<and> (\<forall>p. plan_for inp action hints mode clothing ref ratio resp = Some p \<longrightarrow>
        plan_ok inp p \<and> plan_action_type p = action
        \<and> (is_text_reply action \<and> event_action (in_event inp) \<noteq> None \<longrightarrow>
             plan_action_response p = Some (case resp of None \<Rightarrow> Accept | Some r \<Rightarrow> r))
        \<and> (is_text_reply action \<and> named_outfit (in_event inp) \<noteq> None \<longrightarrow>
             plan_clothing p = named_outfit (in_event inp))
        \<and> (\<not> is_text_reply action \<longrightarrow> plan_context_hints p = []))"
proof (cases "is_text_reply action")
  case True
  then show ?thesis
    by (auto simp: plan_for_def plan_ok_def is_text_reply_def bears_text_def predicted_deltas costs
        settle_action_response_def)
next
  case False
  then consider "action = GhostTurn" | "action = ProductQa" | "action = Proactive"
    by (cases action) (auto simp: is_text_reply_def)
  then show ?thesis
  proof cases
    case 1
    with plan_ok_ghost [of inp] show ?thesis by (simp add: plan_for_def quiet_plan_def is_text_reply_def)
  next
    case 2
    with plan_ok_zero [of ProductQa 0 inp Neutral] show ?thesis
      by (simp add: plan_for_def quiet_plan_def is_text_reply_def)
  next
    case 3
    then show ?thesis by (simp add: plan_for_def)
  qed
qed

theorem plan_for_plan_witness:
  "plan_for (sample_input (UserMessage sample_message)) ReplyText [] None None Face None (Some Refuse) \<noteq> None"
  using plan_for_plan [of "sample_input (UserMessage sample_message)" ReplyText "[]" None None Face None "Some Refuse"]
  by simp

text \<open>The habit roll refuses a give exactly when the item is a substance the persona
  explicitly does not use and the roll reaches the acceptance share: an unset habit, any other
  item and any other event are never refused by it.\<close>

theorem refuses_give_exact:
  "refuses_give e h roll \<longleftrightarrow>
     (\<exists>m item name q. e = UserMessage m \<and> um_action m = Some (Give item name q)
        \<and> item \<in> {Cigarette, Alcohol, Herb, Coffee} \<and> uses_item h item = Some False
        \<and> UNUSED_SUBSTANCE_ACCEPT \<le> roll)"
  by (auto simp: refuses_give_def event_action_def uses_item_def
      split: event.splits option.splits user_action.splits given_item.splits)

end
