(* ===== verification/Effects.thy ===== *)
theory Effects
  imports Core_Types
begin

text \<open>
  What an accepted give keeps doing to the persona over the turns after it
  (\<open>crates/eros-engine-core/src/effects.rs\<close>): the curve tables by shape and quantity, the
  phase of a step on its row, and the effects active on a turn. A quantity is a \<open>u8\<close>.
\<close>

definition MAX_STEPS :: nat where "MAX_STEPS = 5"

definition FRONT :: "nat list list" where
  "FRONT = [[3], [3, 1], [3, 2, 1], [3, 2, 2, 1], [3, 3, 2, 2, 1]]"

definition BACK :: "nat list list" where
  "BACK = [[1], [1, 3], [1, 2, 3], [1, 2, 2, 3], [1, 2, 2, 3, 3]]"

definition MIDDLE :: "nat list list" where
  "MIDDLE = [[3], [3, 3], [1, 3, 1], [1, 3, 3, 1], [1, 2, 3, 2, 1]]"

definition FRONT_HEAVY :: "nat list" where "FRONT_HEAVY = [4, 3, 3, 2, 1]"
definition BACK_HEAVY :: "nat list" where "BACK_HEAVY = [1, 2, 3, 4, 4]"
definition MIDDLE_HEAVY :: "nat list" where "MIDDLE_HEAVY = [1, 3, 4, 2, 1]"

datatype shape = ShapeFront | ShapeBack | ShapeMiddle

definition item_shape :: "given_item \<Rightarrow> shape option" where
  "item_shape item = (case item of
     Cigarette \<Rightarrow> Some ShapeFront | Food \<Rightarrow> Some ShapeFront | SoftDrink \<Rightarrow> Some ShapeFront
   | Tea \<Rightarrow> Some ShapeFront | Alcohol \<Rightarrow> Some ShapeBack | Medicine \<Rightarrow> Some ShapeMiddle
   | Coffee \<Rightarrow> Some ShapeMiddle | Herb \<Rightarrow> Some ShapeMiddle
   | Watch \<Rightarrow> None | Gem \<Rightarrow> None | Gold \<Rightarrow> None | Camera \<Rightarrow> None | Cash \<Rightarrow> None | Antique \<Rightarrow> None
   | Artwork \<Rightarrow> None | Handmade \<Rightarrow> None | CreditCard \<Rightarrow> None | Flower \<Rightarrow> None)"

datatype effect_phase = Rising | Peak | Fading

record active_effect =
  ae_item :: given_item
  ae_name :: "rstr option"
  ae_quantity :: nat
  ae_level :: nat
  ae_phase :: effect_phase
  ae_step :: nat
  ae_steps :: nat

definition curve :: "given_item \<Rightarrow> nat \<Rightarrow> nat list" where
  "curve item quantity = (case item_shape item of None \<Rightarrow> []
     | Some sh \<Rightarrow>
         (let (rows, heavy) = (case sh of ShapeFront \<Rightarrow> (FRONT, FRONT_HEAVY)
                | ShapeBack \<Rightarrow> (BACK, BACK_HEAVY) | ShapeMiddle \<Rightarrow> (MIDDLE, MIDDLE_HEAVY))
          in if quantity = 0 then [] else if quantity \<le> 5 then rows ! (quantity - 1) else heavy))"

fun index_of :: "'a \<Rightarrow> 'a list \<Rightarrow> nat option" where
  "index_of x [] = None"
| "index_of x (y # ys) = (if y = x then Some 0 else map_option Suc (index_of x ys))"

definition phase :: "nat list \<Rightarrow> nat \<Rightarrow> effect_phase" where
  "phase row i =
     (let peak = fold max row 0;
          first = (case index_of peak row of Some n \<Rightarrow> n | None \<Rightarrow> 0)
      in if row ! i = peak then Peak else if i < first then Rising else Fading)"

definition effect_at :: "nat \<Rightarrow> user_action option \<Rightarrow> active_effect option" where
  "effect_at i action = (case action of
     Some (Give item name quantity) \<Rightarrow>
       (let row = curve item quantity
        in if i < length row
           then Some \<lparr>ae_item = item, ae_name = name, ae_quantity = quantity, ae_level = row ! i,
                      ae_phase = phase row i, ae_step = i + 1, ae_steps = length row\<rparr>
           else None)
   | _ \<Rightarrow> None)"

definition active_effects :: "user_action option list \<Rightarrow> active_effect list" where
  "active_effects prior =
     List.map_filter (\<lambda>(i, action). effect_at i action) (List.enumerate 0 prior)"

section \<open>The curves\<close>

definition all_rows :: "nat list list" where
  "all_rows = FRONT @ BACK @ MIDDLE @ [FRONT_HEAVY, BACK_HEAVY, MIDDLE_HEAVY]"

definition phase_rank :: "effect_phase \<Rightarrow> nat" where
  "phase_rank p = (case p of Rising \<Rightarrow> 0 | Peak \<Rightarrow> 1 | Fading \<Rightarrow> 2)"

text \<open>A row is well shaped: levels 1 to 4, at most five steps, and it rises, peaks, fades.\<close>

definition row_ok :: "nat list \<Rightarrow> bool" where
  "row_ok row \<longleftrightarrow> list_all (\<lambda>l. 1 \<le> l \<and> l \<le> 4) row \<and> length row \<le> 5
     \<and> sorted (map (\<lambda>i. phase_rank (phase row i)) [0..<length row])
     \<and> list_ex (\<lambda>i. phase row i = Peak) [0..<length row]"

lemma all_rows_ok: "list_all row_ok all_rows"
  by code_simp

lemma quantity_cases:
  obtains "q = 0" | "q = 1" | "q = 2" | "q = 3" | "q = 4" | "q = 5" | "5 < (q :: nat)"
  by arith

lemma curve_in_rows: "curve item q \<noteq> [] \<Longrightarrow> curve item q \<in> set all_rows"
  by (cases q rule: quantity_cases)
    (auto simp: curve_def all_rows_def FRONT_def BACK_def MIDDLE_def split: option.splits shape.splits)

lemma curve_length:
  "length (curve item q) = (if item_shape item = None then 0 else min q MAX_STEPS)"
  by (cases q rule: quantity_cases)
    (auto simp: curve_def MAX_STEPS_def FRONT_def BACK_def MIDDLE_def FRONT_HEAVY_def BACK_HEAVY_def
      MIDDLE_HEAVY_def split: option.splits shape.splits)

lemma light_rows: "list_all (list_all (\<lambda>l. l \<le> 3)) (FRONT @ BACK @ MIDDLE)"
  by code_simp

lemma curve_in_light: "q \<le> 5 \<Longrightarrow> curve item q \<noteq> [] \<Longrightarrow> curve item q \<in> set (FRONT @ BACK @ MIDDLE)"
  by (cases q rule: quantity_cases)
    (auto simp: curve_def FRONT_def BACK_def MIDDLE_def split: option.splits shape.splits)

lemma curve_light: "q \<le> 5 \<Longrightarrow> l \<in> set (curve item q) \<Longrightarrow> l \<le> 3"
  using curve_in_light [of q item] light_rows by (force simp: list_all_iff simp del: set_append)

lemma curve_ok: "curve item q \<noteq> [] \<Longrightarrow> row_ok (curve item q)"
  using curve_in_rows all_rows_ok by (auto simp: list_all_iff)

lemma map_filter_enumerate:
  "y \<in> set (List.map_filter (\<lambda>(i, x). f i x) (List.enumerate n xs))
     \<longleftrightarrow> (\<exists>i < length xs. f (n + i) (xs ! i) = Some y)"
proof (induction xs arbitrary: n)
  case Nil
  show ?case by (simp add: List.map_filter_simps)
next
  case (Cons x xs)
  show ?case
    by (auto simp: List.map_filter_simps Cons.IH less_Suc_eq_0_disj split: option.splits)
qed

lemma steps_increasing:
  "sorted_wrt (<) (map ae_step (List.map_filter (\<lambda>(i, a). effect_at i a) (List.enumerate n xs)))
   \<and> (\<forall>e \<in> set (List.map_filter (\<lambda>(i, a). effect_at i a) (List.enumerate n xs)). n < ae_step e)"
proof (induction xs arbitrary: n)
  case Nil
  show ?case by (simp add: List.map_filter_simps)
next
  case (Cons x xs)
  have "ae_step e = n + 1" if "effect_at n x = Some e" for e
    using that by (auto simp: effect_at_def Let_def split: option.splits user_action.splits if_splits)
  with Cons.IH [of "Suc n"] show ?case
    by (fastforce simp: List.map_filter_simps split: option.splits)
qed

text \<open>The effects active on a turn are exactly the accepted gives of a consumable whose
  curve has not run out: a give of quantity q lasts min(q, 5) turns and a valuable never
  lingers; each effect is at the step its age says, newest first, with a level from 1 to 4
  (4 only for a quantity above five).\<close>

theorem active_effects_exact:
  "(e \<in> set (active_effects prior) \<longleftrightarrow>
     (\<exists>i item name q. i < length prior \<and> prior ! i = Some (Give item name q)
        \<and> item_shape item \<noteq> None \<and> i < min q MAX_STEPS
        \<and> e = \<lparr>ae_item = item, ae_name = name, ae_quantity = q, ae_level = curve item q ! i,
               ae_phase = phase (curve item q) i, ae_step = i + 1, ae_steps = min q MAX_STEPS\<rparr>
        \<and> 1 \<le> ae_level e \<and> ae_level e \<le> 4 \<and> (ae_level e = 4 \<longrightarrow> 5 < q)))
   \<and> sorted_wrt (<) (map ae_step (active_effects prior))"
proof -
  have lv: "1 \<le> curve item q ! i \<and> curve item q ! i \<le> 4 \<and> (curve item q ! i = 4 \<longrightarrow> 5 < q)"
    if a: "item_shape item \<noteq> None" "i < q" "i < MAX_STEPS" for item q i
  proof -
    have i: "i < length (curve item q)" using a by (simp add: curve_length)
    have m: "curve item q ! i \<in> set (curve item q)" using i by simp
    have "curve item q \<noteq> []" using i by auto
    from curve_ok [OF this] m have "1 \<le> curve item q ! i \<and> curve item q ! i \<le> 4"
      by (auto simp: row_ok_def list_all_iff)
    then show ?thesis using curve_light [OF _ m] by force
  qed
  have at: "effect_at i a = Some e \<longleftrightarrow> (\<exists>item name q. a = Some (Give item name q)
        \<and> item_shape item \<noteq> None \<and> i < min q MAX_STEPS
        \<and> e = \<lparr>ae_item = item, ae_name = name, ae_quantity = q, ae_level = curve item q ! i,
               ae_phase = phase (curve item q) i, ae_step = i + 1, ae_steps = min q MAX_STEPS\<rparr>
        \<and> 1 \<le> ae_level e \<and> ae_level e \<le> 4 \<and> (ae_level e = 4 \<longrightarrow> 5 < q))" for i a
    using lv
    by (auto simp: effect_at_def Let_def curve_length split: option.splits user_action.splits if_splits)
      (metis option.distinct(1))+
  show ?thesis
    unfolding active_effects_def map_filter_enumerate at
    using steps_increasing [of 0 prior] by auto
qed

theorem active_effects_exact_witness:
  "sorted_wrt (<) (map ae_step (active_effects [Some (Give Alcohol None 9), None, Some (Give Tea None 3)]))"
  by (rule active_effects_exact [THEN conjunct2])

text \<open>Over its turns an effect rises, peaks and fades in that order: the phases of a
  row never step back, and every row that is not empty has its peak.\<close>

theorem effect_phases_in_order:
  assumes "i \<le> j" "j < length (curve item q)"
  shows "phase_rank (phase (curve item q) i) \<le> phase_rank (phase (curve item q) j)
    \<and> (\<exists>k < length (curve item q). phase (curve item q) k = Peak
         \<and> (\<forall>l \<in> set (curve item q). l \<le> curve item q ! k))"
proof -
  have "curve item q \<noteq> []" using assms(2) by auto
  from curve_ok [OF this] have ok: "row_ok (curve item q)" .
  have s: "phase_rank (phase (curve item q) i) \<le> phase_rank (phase (curve item q) j)"
    using ok assms sorted_nth_mono [of "map (\<lambda>i. phase_rank (phase (curve item q) i)) [0..<length (curve item q)]" i j]
    by (simp add: row_ok_def)
  obtain k where k: "k < length (curve item q)" "phase (curve item q) k = Peak"
    using ok by (auto simp: row_ok_def list_ex_iff)
  have "l \<le> fold max (curve item q) 0" if "l \<in> set (curve item q)" for l
    using that Max_ge [of "insert 0 (set (curve item q))" l]
    by (simp add: Max.set_eq_fold [symmetric])
  moreover have "curve item q ! k = fold max (curve item q) 0"
    using k(2) by (simp add: phase_def Let_def split: if_splits)
  ultimately show ?thesis using s k by auto
qed

theorem effect_phases_in_order_witness:
  "phase_rank (phase (curve Herb 9) 1) \<le> phase_rank (phase (curve Herb 9) 3)"
  using effect_phases_in_order [of 1 3 Herb 9] by (simp add: curve_length item_shape_def MAX_STEPS_def)

end
