(* ===== verification/Group_Chat.thy ===== *)
theory Group_Chat
  imports Core_Types
begin

text \<open>
  Group chat, the pure half (\<open>crates/eros-engine-core/src/group.rs\<close>): the director's
  verdict, its normalisation into cues, the seat handles, and how a transcript line reads to
  one speaker. \<open>serde_json::from_str\<close> is the argument \<open>from_str\<close> of
  \<open>parse_verdict\<close>.
\<close>

definition MAX_GROUP_MEMBERS :: nat where "MAX_GROUP_MEMBERS = 3"
definition GROUP_TITLE_MAX_CHARS :: nat where "GROUP_TITLE_MAX_CHARS = 64"
definition UNKNOWN_SPEAKER :: rstr where "UNKNOWN_SPEAKER = [26576, 20301, 32676, 21451]"

datatype director_action = DirText | DirImage | DirTextImage

record director_entry =
  de_member :: rstr
  de_action :: director_action
  de_inner_state :: "rstr option"
  de_reply_mode :: "reply_mode option"
  de_clothing :: "rstr option"
  de_with :: "rstr option"

record director_verdict =
  dv_speakers :: "director_entry list"
  dv_reason :: "rstr option"

record cue =
  cue_seat :: nat
  cue_action :: action_type
  cue_inner_state :: "rstr option"
  cue_reply_mode :: "reply_mode option"
  cue_clothing :: "rstr option"
  cue_with :: "nat option"

datatype line_speaker = SpkUser | SpkMe | SpkOther rstr

definition handle :: "nat \<Rightarrow> rstr" where
  "handle seat = str ''m'' @ decimal (seat + 1)"

definition seat_of :: "rstr \<Rightarrow> nat \<Rightarrow> nat option" where
  "seat_of member seats =
     (case Option.bind (strip_prefix (str ''m'') (trim member)) parse_usize of
        None \<Rightarrow> None
      | Some n \<Rightarrow> if 1 \<le> n \<and> n \<le> seats then Some (n - 1) else None)"

definition parse_verdict :: "(rstr \<Rightarrow> director_verdict option) \<Rightarrow> rstr \<Rightarrow> director_verdict option" where
  "parse_verdict from_str text =
     (let t = trim text;
          t = (case strip_prefix (str ''```json'') t of Some x \<Rightarrow> x
               | None \<Rightarrow> (case strip_prefix (str ''```'') t of Some x \<Rightarrow> x | None \<Rightarrow> t));
          t = trim (case strip_suffix (str ''```'') t of Some x \<Rightarrow> x | None \<Rightarrow> t)
      in from_str t)"

definition settle_action :: "director_action \<Rightarrow> bool \<Rightarrow> action_type" where
  "settle_action a image_available =
     (if a = DirImage \<and> image_available then ReplyImage
      else if a = DirTextImage \<and> image_available then ReplyTextImage else ReplyText)"

definition cue_of :: "director_entry \<Rightarrow> nat \<Rightarrow> nat \<Rightarrow> bool \<Rightarrow> cue" where
  "cue_of e seat seats image_available =
     (let action = settle_action (de_action e) image_available;
          partner = (case Option.bind (de_with e) (\<lambda>h. seat_of h seats) of
             Some w \<Rightarrow> if w \<noteq> seat \<and> action \<noteq> ReplyText then Some w else None
           | None \<Rightarrow> None)
      in \<lparr>cue_seat = seat, cue_action = action, cue_inner_state = de_inner_state e,
          cue_reply_mode = de_reply_mode e, cue_clothing = de_clothing e, cue_with = partner\<rparr>)"

fun normalize_loop :: "director_entry list \<Rightarrow> nat \<Rightarrow> bool \<Rightarrow> bool list \<Rightarrow> cue list" where
  "normalize_loop [] seats img seen = []"
| "normalize_loop (e # es) seats img seen =
     (case seat_of (de_member e) seats of
        None \<Rightarrow> normalize_loop es seats img seen
      | Some seat \<Rightarrow>
          (if seen ! seat then normalize_loop es seats img seen
           else cue_of e seat seats img # normalize_loop es seats img (seen[seat := True])))"

definition normalize :: "director_verdict \<Rightarrow> nat \<Rightarrow> bool \<Rightarrow> cue list" where
  "normalize v seats image_available =
     normalize_loop (dv_speakers v) seats image_available (replicate seats False)"

definition fallback_cues :: "nat \<Rightarrow> cue list" where
  "fallback_cues seats = map (\<lambda>seat. \<lparr>cue_seat = seat, cue_action = ReplyText,
     cue_inner_state = None, cue_reply_mode = None, cue_clothing = None, cue_with = None\<rparr>) [0..<seats]"

definition render_line :: "line_speaker \<Rightarrow> rstr \<Rightarrow> rstr \<times> rstr" where
  "render_line speaker text = (case speaker of
     SpkUser \<Rightarrow> (str ''user'', [29992, 25143, 65306] @ text)
   | SpkMe \<Rightarrow> (str ''assistant'', text)
   | SpkOther name \<Rightarrow> (str ''user'', name @ [65306] @ text))"

definition normalize_title :: "rstr \<Rightarrow> rstr option" where
  "normalize_title raw =
     (let t = trim raw
      in if t = [] \<or> GROUP_TITLE_MAX_CHARS < length t \<or> list_ex is_control t then None else Some t)"

section \<open>Handles\<close>

lemma seat_of_range: "seat_of m seats = Some s \<Longrightarrow> s < seats"
  by (auto simp: seat_of_def split: option.splits if_splits)

lemma trim_handle: "trim (handle s) = handle s"
proof -
  have d: "list_all is_ascii_digit (decimal (s + 1))" "decimal (s + 1) \<noteq> []"
    by (rule decimal_digits decimal_nonempty)+
  have "is_ascii_digit (last (decimal (s + 1)))" using d by (simp add: list_all_iff)
  then have "\<not> is_ws (last (handle s))"
    using d(2) by (auto simp: handle_def is_ws_def is_ascii_digit_def)
  moreover have "\<not> is_ws (hd (handle s))" by (simp add: handle_def is_ws_def)
  ultimately show ?thesis by (intro trim_id) (auto simp: handle_def)
qed

lemma seat_of_handle: "s < seats \<Longrightarrow> seats < 2 ^ 64 \<Longrightarrow> seat_of (handle s) seats = Some s"
  unfolding seat_of_def trim_handle
  using parse_usize_decimal [of "s + 1"] by (simp add: handle_def strip_prefix_def)

section \<open>Normalisation\<close>

lemma normalize_loop_sound:
  assumes "length seen = seats"
  shows "distinct (map cue_seat (normalize_loop es seats img seen))
    \<and> (\<forall>c \<in> set (normalize_loop es seats img seen).
         cue_seat c < seats \<and> \<not> seen ! cue_seat c
         \<and> (\<exists>e \<in> set es. seat_of (de_member e) seats = Some (cue_seat c)
              \<and> c = cue_of e (cue_seat c) seats img))"
  using assms
proof (induction es arbitrary: seen)
  case Nil
  show ?case by simp
next
  case (Cons e es)
  show ?case
  proof (cases "seat_of (de_member e) seats")
    case None
    with Cons.IH [OF Cons.prems] show ?thesis by auto
  next
    case (Some s)
    note s = seat_of_range [OF Some]
    have cs: "cue_seat (cue_of e s seats img) = s" by (simp add: cue_of_def Let_def)
    show ?thesis
    proof (cases "seen ! s")
      case True
      with Some Cons.IH [OF Cons.prems] show ?thesis by auto
    next
      case False
      have "length (seen[s := True]) = seats" using Cons.prems by simp
      note ih = Cons.IH [OF this]
      have "cue_seat c \<noteq> s \<and> \<not> seen ! cue_seat c"
        if "c \<in> set (normalize_loop es seats img (seen[s := True]))" for c
        using ih that s Cons.prems by (cases "cue_seat c = s") auto
      with ih show ?thesis using Some False s cs by auto
    qed
  qed
qed

lemma normalize_loop_seats:
  assumes "length seen = seats"
  shows "set (map cue_seat (normalize_loop es seats img seen))
    = {s. \<not> seen ! s \<and> (\<exists>e \<in> set es. seat_of (de_member e) seats = Some s)}"
  using assms
proof (induction es arbitrary: seen)
  case Nil
  show ?case by simp
next
  case (Cons e es)
  show ?case
  proof (cases "seat_of (de_member e) seats")
    case None
    with Cons.IH [OF Cons.prems] show ?thesis by auto
  next
    case (Some s)
    note s = seat_of_range [OF Some]
    have l: "length (seen[s := True]) = seats" using Cons.prems by simp
    have cs: "cue_seat (cue_of e s seats img) = s" by (simp add: cue_of_def Let_def)
    show ?thesis
    proof (cases "seen ! s")
      case True
      with Some Cons.IH [OF Cons.prems] show ?thesis by auto
    next
      case False
      have "(\<not> seen[s := True] ! t) = (t \<noteq> s \<and> \<not> seen ! t)" for t
        using s Cons.prems by (cases "t = s") auto
      with Some False cs Cons.IH [OF l] show ?thesis by auto
    qed
  qed
qed

text \<open>Whatever the director answers, its cues name seated members only, each at most
  once, and exactly those it named by a valid handle; an image action survives only on a turn
  that can show one (an action only goes down to text); and a partner is another seated member
  in a picture.\<close>

theorem normalize_sound:
  "distinct (map cue_seat (normalize v seats img))
   \<and> set (map cue_seat (normalize v seats img))
       = {s. \<exists>e \<in> set (dv_speakers v). seat_of (de_member e) seats = Some s}
   \<and> (\<forall>c \<in> set (normalize v seats img).
        cue_seat c < seats \<and> is_text_reply (cue_action c)
        \<and> (promises_image (cue_action c) \<longrightarrow> img)
        \<and> (\<forall>w. cue_with c = Some w \<longrightarrow> w < seats \<and> w \<noteq> cue_seat c \<and> promises_image (cue_action c)))"
proof -
  have l: "length (replicate seats False) = seats" by simp
  note snd = normalize_loop_sound [OF l, of "dv_speakers v" img]
  have c: "is_text_reply (cue_action (cue_of e s seats img))
      \<and> (promises_image (cue_action (cue_of e s seats img)) \<longrightarrow> img)
      \<and> (\<forall>w. cue_with (cue_of e s seats img) = Some w \<longrightarrow> w < seats \<and> w \<noteq> s
           \<and> promises_image (cue_action (cue_of e s seats img)))" for e s
    by (auto simp: cue_of_def Let_def settle_action_def is_text_reply_def promises_image_def
        dest: seat_of_range split: option.splits if_splits bind_splits)
  have "{s. \<not> replicate seats False ! s \<and> (\<exists>e \<in> set (dv_speakers v). seat_of (de_member e) seats = Some s)}
      = {s. \<exists>e \<in> set (dv_speakers v). seat_of (de_member e) seats = Some s}"
    using seat_of_range by auto
  moreover have "\<forall>c \<in> set (normalize v seats img).
        cue_seat c < seats \<and> is_text_reply (cue_action c)
        \<and> (promises_image (cue_action c) \<longrightarrow> img)
        \<and> (\<forall>w. cue_with c = Some w \<longrightarrow> w < seats \<and> w \<noteq> cue_seat c \<and> promises_image (cue_action c))"
  proof
    fix x assume "x \<in> set (normalize v seats img)"
    with snd obtain e where "cue_seat x < seats" "x = cue_of e (cue_seat x) seats img"
      unfolding normalize_def by blast
    with c [of e "cue_seat x"] show "cue_seat x < seats \<and> is_text_reply (cue_action x)
        \<and> (promises_image (cue_action x) \<longrightarrow> img)
        \<and> (\<forall>w. cue_with x = Some w \<longrightarrow> w < seats \<and> w \<noteq> cue_seat x \<and> promises_image (cue_action x))"
      by auto
  qed
  moreover have "distinct (map cue_seat (normalize v seats img))"
    using snd unfolding normalize_def by blast
  ultimately show ?thesis
    using normalize_loop_seats [OF l, of "dv_speakers v" img] unfolding normalize_def by metis
qed

theorem normalize_sound_witness:
  "distinct (map cue_seat (normalize \<lparr>dv_speakers =
     [\<lparr>de_member = str ''m2'', de_action = DirImage, de_inner_state = None, de_reply_mode = None,
       de_clothing = None, de_with = Some (str ''m1'')\<rparr>], dv_reason = None\<rparr> 2 True))"
  by (rule normalize_sound [THEN conjunct1])

text \<open>The director's handle of a seat reads back to that seat, and to no other: every
  seat of a group is reachable and two seats never share a handle.\<close>

theorem handle_roundtrip:
  assumes "s < seats" "seats < 2 ^ 64"
  shows "seat_of (handle s) seats = Some s \<and> (\<forall>t < seats. handle t = handle s \<longrightarrow> t = s)"
proof -
  note h = seat_of_handle [OF _ assms(2)]
  have "t = s" if "t < seats" "handle t = handle s" for t
    using h [OF that(1)] h [OF assms(1)] unfolding that(2) by (metis option.inject)
  with h [OF assms(1)] show ?thesis by blast
qed

theorem handle_roundtrip_witness: "seat_of (handle 2) MAX_GROUP_MEMBERS = Some 2"
  using handle_roundtrip [of 2 3] by (simp add: MAX_GROUP_MEMBERS_def)

end
