(* ===== verification/Chat_Store.thy ===== *)
theory Chat_Store
  imports Core_Types
begin

text \<open>
  The chat tables and the queue of asynchronous turns
  (\<open>crates/eros-engine-store/src/chat_queue.rs\<close> and the user-row upsert of
  \<open>chat.rs\<close>). A table is the list of its rows; each method is one transaction, a
  function of the state it starts from, and a statement that violates a key of the schema
  (\<open>migrations/0000_baseline.sql\<close>) is an error that leaves the state alone. Transactions
  are serial: \<open>FOR UPDATE SKIP LOCKED\<close> never finds a locked row. \<open>now()\<close> and
  \<open>gen_random_uuid()\<close> are arguments.
\<close>

section \<open>Tables\<close>

datatype db_error = UniqueViolation | ForeignKeyViolation

datatype role = RUser | RAssistant | RSystemError

record chat_message =
  cm_id :: uuid
  cm_session :: uuid
  cm_role :: role
  cm_content :: rstr
  cm_client_msg_id :: "rstr option"
  cm_metadata :: "json option"
  cm_ghost :: bool
  cm_user_message_id :: "uuid option"
  cm_sent_at :: instant

datatype queue_status = QPending | QClaimed | QDone | QFailed

record queue_row =
  qr_id :: uuid
  qr_session :: uuid
  qr_user_message :: uuid
  qr_user :: uuid
  qr_status :: queue_status
  qr_attempts :: int
  qr_claimed_at :: "instant option"
  qr_last_error :: "rstr option"
  qr_params :: "json option"
  qr_created_at :: instant

record chat_db =
  db_messages :: "chat_message list"
  db_queue :: "queue_row list"
  db_sessions :: "uuid \<rightharpoonup> instant"

definition bind_r :: "'e + 'a \<Rightarrow> ('a \<Rightarrow> 'e + 'b) \<Rightarrow> 'e + 'b" where
  "bind_r x f = (case x of Inl e \<Rightarrow> Inl e | Inr a \<Rightarrow> f a)"

definition message_ids :: "chat_db \<Rightarrow> uuid set" where
  "message_ids db = set (map cm_id (db_messages db))"

definition insert_message :: "chat_message \<Rightarrow> chat_db \<Rightarrow> db_error + chat_db" where
  "insert_message m db =
     (if cm_id m \<in> message_ids db
         \<or> cm_client_msg_id m \<noteq> None
           \<and> list_ex (\<lambda>x. cm_session x = cm_session m \<and> cm_client_msg_id x = cm_client_msg_id m) (db_messages db)
      then Inl UniqueViolation
      else if db_sessions db (cm_session m) = None
         \<or> (case cm_user_message_id m of None \<Rightarrow> False | Some u \<Rightarrow> u \<notin> message_ids db)
      then Inl ForeignKeyViolation
      else Inr (db\<lparr>db_messages := db_messages db @ [m]\<rparr>))"

definition insert_queue_row :: "queue_row \<Rightarrow> chat_db \<Rightarrow> db_error + chat_db" where
  "insert_queue_row q db =
     (if qr_id q \<in> set (map qr_id (db_queue db))
         \<or> qr_user_message q \<in> set (map qr_user_message (db_queue db))
      then Inl UniqueViolation
      else if db_sessions db (qr_session q) = None \<or> qr_user_message q \<notin> message_ids db
      then Inl ForeignKeyViolation
      else Inr (db\<lparr>db_queue := db_queue db @ [q]\<rparr>))"

text \<open>\<open>UPDATE engine.chat_turn_queue SET ... WHERE ...\<close>\<close>

definition update_queue :: "(queue_row \<Rightarrow> bool) \<Rightarrow> (queue_row \<Rightarrow> queue_row) \<Rightarrow> chat_db \<Rightarrow> chat_db" where
  "update_queue P f db = db\<lparr>db_queue := map (\<lambda>q. if P q then f q else q) (db_queue db)\<rparr>"

definition touch_session :: "instant \<Rightarrow> uuid \<Rightarrow> chat_db \<Rightarrow> chat_db" where
  "touch_session now s db = db\<lparr>db_sessions :=
     (case db_sessions db s of None \<Rightarrow> db_sessions db | Some _ \<Rightarrow> (db_sessions db)(s \<mapsto> now))\<rparr>"

section \<open>The user row\<close>

datatype upsert_outcome =
    Inserted uuid
  | Replay uuid bool "chat_message list"
  | DuplicateInProgress uuid

definition replay_chain :: "uuid \<Rightarrow> chat_db \<Rightarrow> chat_message list" where
  "replay_chain mid db = sort_key cm_sent_at
     (filter (\<lambda>m. cm_user_message_id m = Some mid \<and> cm_role m = RAssistant) (db_messages db))"

definition upsert_user_message_in_tx ::
  "instant \<Rightarrow> uuid \<Rightarrow> uuid \<Rightarrow> rstr \<Rightarrow> rstr \<Rightarrow> role \<Rightarrow> json option \<Rightarrow> chat_db
     \<Rightarrow> db_error + (upsert_outcome \<times> chat_db)" where
  "upsert_user_message_in_tx now new_id session content client_msg_id role metadata db =
     (case List.find (\<lambda>m. cm_session m = session \<and> cm_client_msg_id m = Some client_msg_id
                        \<and> cm_role m = RUser) (db_messages db) of
        Some row \<Rightarrow>
          (let chain = replay_chain (cm_id row) db
           in Inr (if chain \<noteq> [] then Replay (cm_id row) False chain
                   else if cm_ghost row then Replay (cm_id row) True []
                   else DuplicateInProgress (cm_id row), db))
      | None \<Rightarrow>
          bind_r (insert_message \<lparr>cm_id = new_id, cm_session = session, cm_role = role,
                     cm_content = content, cm_client_msg_id = Some client_msg_id,
                     cm_metadata = metadata, cm_ghost = False, cm_user_message_id = None,
                     cm_sent_at = now\<rparr> db)
            (\<lambda>db. Inr (Inserted new_id, touch_session now session db)))"

definition mark_user_message_ghosted :: "uuid \<Rightarrow> chat_db \<Rightarrow> chat_db" where
  "mark_user_message_ghosted mid db = db\<lparr>db_messages :=
     map (\<lambda>m. if cm_id m = mid \<and> cm_role m = RUser \<and> \<not> cm_ghost m then m\<lparr>cm_ghost := True\<rparr> else m)
       (db_messages db)\<rparr>"

section \<open>Enqueueing\<close>

datatype enqueue_outcome =
    Queued uuid uuid
  | AlreadyQueued uuid
  | AlreadyCompleted uuid
  | EnqFailed uuid
  | DepthExceeded

datatype claimed_enqueue_outcome =
    EnqClaimed uuid uuid
  | EnqReplay uuid bool "chat_message list"
  | EnqDuplicateInProgress uuid
  | EnqDuplicateFailed uuid

definition queue_status_of :: "uuid \<Rightarrow> chat_db \<Rightarrow> queue_status option" where
  "queue_status_of mid db = map_option qr_status (List.find (\<lambda>q. qr_user_message q = mid) (db_queue db))"

definition pending_depth :: "uuid \<Rightarrow> chat_db \<Rightarrow> int" where
  "pending_depth session db = int (length (filter (\<lambda>q. qr_session q = session
     \<and> (qr_status q = QPending \<or> qr_status q = QClaimed)) (db_queue db)))"

definition enqueue_user_message ::
  "instant \<Rightarrow> uuid \<Rightarrow> uuid \<Rightarrow> uuid \<Rightarrow> rstr \<Rightarrow> rstr \<Rightarrow> role \<Rightarrow> json option \<Rightarrow> uuid \<Rightarrow> json \<Rightarrow> int
     \<Rightarrow> chat_db \<Rightarrow> db_error + (enqueue_outcome \<times> chat_db)" where
  "enqueue_user_message now new_mid new_qid session content client_msg_id role metadata user params
     pending_cap db =
     bind_r (upsert_user_message_in_tx now new_mid session content client_msg_id role metadata db)
       (\<lambda>(outcome, tx). case outcome of
          Inserted message_id \<Rightarrow>
            (if pending_cap \<le> pending_depth session tx then Inr (DepthExceeded, db)
             else bind_r (insert_queue_row \<lparr>qr_id = new_qid, qr_session = session,
                      qr_user_message = message_id, qr_user = user, qr_status = QPending,
                      qr_attempts = 0, qr_claimed_at = None, qr_last_error = None,
                      qr_params = Some params, qr_created_at = now\<rparr> tx)
                    (\<lambda>tx. Inr (Queued message_id new_qid, tx)))
        | Replay mid ghost chain \<Rightarrow> Inr (AlreadyCompleted mid, tx)
        | DuplicateInProgress mid \<Rightarrow>
            Inr (if queue_status_of mid tx = Some QFailed then EnqFailed mid else AlreadyQueued mid, tx))"

definition enqueue_user_message_claimed ::
  "instant \<Rightarrow> uuid \<Rightarrow> uuid \<Rightarrow> uuid \<Rightarrow> rstr \<Rightarrow> rstr \<Rightarrow> role \<Rightarrow> json option \<Rightarrow> uuid \<Rightarrow> json
     \<Rightarrow> chat_db \<Rightarrow> db_error + (claimed_enqueue_outcome \<times> chat_db)" where
  "enqueue_user_message_claimed now new_mid new_qid session content client_msg_id role metadata user
     params db =
     bind_r (upsert_user_message_in_tx now new_mid session content client_msg_id role metadata db)
       (\<lambda>(outcome, tx). case outcome of
          Inserted message_id \<Rightarrow>
            bind_r (insert_queue_row \<lparr>qr_id = new_qid, qr_session = session,
                      qr_user_message = message_id, qr_user = user, qr_status = QClaimed,
                      qr_attempts = 1, qr_claimed_at = Some now, qr_last_error = None,
                      qr_params = Some params, qr_created_at = now\<rparr> tx)
              (\<lambda>tx. Inr (EnqClaimed message_id new_qid, tx))
        | Replay mid ghost chain \<Rightarrow> Inr (EnqReplay mid ghost chain, tx)
        | DuplicateInProgress mid \<Rightarrow>
            Inr (if queue_status_of mid tx = Some QFailed then EnqDuplicateFailed mid
                 else EnqDuplicateInProgress mid, tx))"

section \<open>Claiming\<close>

record claimed_turn =
  ct_queue_id :: uuid
  ct_session :: uuid
  ct_user_message :: uuid
  ct_user :: uuid
  ct_attempts :: int
  ct_params :: "json option"

text \<open>\<open>ORDER BY created_at DESC, id DESC LIMIT 1\<close> and \<open>ORDER BY created_at ASC LIMIT 1\<close>.\<close>

fun newest :: "queue_row list \<Rightarrow> queue_row option" where
  "newest [] = None"
| "newest (q # qs) = (case newest qs of None \<Rightarrow> Some q
     | Some r \<Rightarrow> if qr_created_at r < qr_created_at q
                     \<or> qr_created_at r = qr_created_at q \<and> qr_id r \<le> qr_id q then Some q else Some r)"

fun oldest :: "queue_row list \<Rightarrow> queue_row option" where
  "oldest [] = None"
| "oldest (q # qs) = (case oldest qs of None \<Rightarrow> Some q
     | Some r \<Rightarrow> if qr_created_at q \<le> qr_created_at r then Some q else Some r)"

definition claimable :: "chat_db \<Rightarrow> queue_row \<Rightarrow> bool" where
  "claimable db q \<longleftrightarrow> qr_status q = QPending
     \<and> \<not> list_ex (\<lambda>c. qr_session c = qr_session q \<and> qr_status c = QClaimed) (db_queue db)
     \<and> map_option qr_id (newest (filter (\<lambda>r. qr_session r = qr_session q \<and> qr_status r = QPending)
         (db_queue db))) = Some (qr_id q)"

definition claim_next :: "instant \<Rightarrow> chat_db \<Rightarrow> claimed_turn option \<times> chat_db" where
  "claim_next now db =
     (case oldest (filter (claimable db) (db_queue db)) of
        None \<Rightarrow> (None, db)
      | Some q \<Rightarrow>
          (Some \<lparr>ct_queue_id = qr_id q, ct_session = qr_session q, ct_user_message = qr_user_message q,
                 ct_user = qr_user q, ct_attempts = qr_attempts q + 1, ct_params = qr_params q\<rparr>,
           update_queue (\<lambda>r. qr_id r = qr_id q)
             (\<lambda>r. r\<lparr>qr_status := QClaimed, qr_claimed_at := Some now, qr_attempts := qr_attempts r + 1\<rparr>) db))"

section \<open>Settling\<close>

definition mark_done :: "uuid \<Rightarrow> chat_db \<Rightarrow> chat_db" where
  "mark_done qid db = update_queue (\<lambda>q. qr_id q = qid) (\<lambda>q. q\<lparr>qr_status := QDone\<rparr>) db"

definition release :: "uuid \<Rightarrow> rstr \<Rightarrow> chat_db \<Rightarrow> chat_db" where
  "release qid err db = update_queue (\<lambda>q. qr_id q = qid)
     (\<lambda>q. q\<lparr>qr_status := QPending, qr_claimed_at := None, qr_last_error := Some err\<rparr>) db"

definition notice :: "instant \<Rightarrow> uuid \<Rightarrow> rstr \<Rightarrow> uuid \<Rightarrow> uuid \<Rightarrow> chat_message" where
  "notice now new_id content session mid =
     \<lparr>cm_id = new_id, cm_session = session, cm_role = RSystemError, cm_content = content,
      cm_client_msg_id = None, cm_metadata = None, cm_ghost = False,
      cm_user_message_id = Some mid, cm_sent_at = now\<rparr>"

definition mark_failed_with_notice :: "instant \<Rightarrow> uuid \<Rightarrow> uuid \<Rightarrow> rstr \<Rightarrow> rstr \<Rightarrow> chat_db
    \<Rightarrow> db_error + chat_db" where
  "mark_failed_with_notice now new_mid qid err content db =
     (case List.find (\<lambda>q. qr_id q = qid) (db_queue db) of
        None \<Rightarrow> Inr db
      | Some q \<Rightarrow>
          bind_r (insert_message (notice now new_mid content (qr_session q) (qr_user_message q))
              (update_queue (\<lambda>q. qr_id q = qid) (\<lambda>q. q\<lparr>qr_status := QFailed, qr_last_error := Some err\<rparr>) db))
            (\<lambda>db. Inr (touch_session now (qr_session q) db)))"

text \<open>\<open>reap_stale\<close> inserts one notice per exhausted claim; the ids of the notices are an argument.\<close>

definition STALE_ERROR :: rstr where
  "STALE_ERROR = str ''stale claim: worker died mid-turn''"

fun insert_notices :: "instant \<Rightarrow> uuid list \<Rightarrow> rstr \<Rightarrow> queue_row list \<Rightarrow> chat_db \<Rightarrow> db_error + chat_db" where
  "insert_notices now ids content [] db = Inr db"
| "insert_notices now [] content (q # qs) db = Inl UniqueViolation"
| "insert_notices now (i # ids) content (q # qs) db =
     bind_r (insert_message (notice now i content (qr_session q) (qr_user_message q)) db)
       (insert_notices now ids content qs)"

definition stale_claim :: "instant \<Rightarrow> int \<Rightarrow> queue_row \<Rightarrow> bool" where
  "stale_claim now stale q \<longleftrightarrow> qr_status q = QClaimed
     \<and> (case qr_claimed_at q of None \<Rightarrow> False | Some t \<Rightarrow> t < now - stale)"

record reaped_turn =
  rt_queue_id :: uuid
  rt_session :: uuid
  rt_user_message :: uuid

definition reap_stale :: "instant \<Rightarrow> uuid list \<Rightarrow> int \<Rightarrow> int \<Rightarrow> rstr \<Rightarrow> chat_db
    \<Rightarrow> db_error + (reaped_turn list \<times> chat_db)" where
  "reap_stale now ids stale max_attempts content db =
     (let exhausted = (\<lambda>q. stale_claim now stale q \<and> max_attempts \<le> qr_attempts q);
          failed = filter exhausted (db_queue db)
      in bind_r (insert_notices now ids content failed
             (update_queue exhausted (\<lambda>q. q\<lparr>qr_status := QFailed, qr_last_error := Some STALE_ERROR\<rparr>) db))
          (\<lambda>tx. Inr (map (\<lambda>q. \<lparr>rt_queue_id = qr_id q, rt_session = qr_session q,
                                  rt_user_message = qr_user_message q\<rparr>) failed,
             update_queue (stale_claim now stale)
               (\<lambda>q. q\<lparr>qr_status := QPending, qr_claimed_at := None, qr_last_error := Some STALE_ERROR\<rparr>)
               (fold (touch_session now) (map qr_session failed) tx))))"

end
