(* ===== verification/Chat_Worker.thy ===== *)
theory Chat_Worker
  imports Chat_Store
begin

text \<open>
  The worker of the chat queue (\<open>crates/eros-engine-server/src/pipeline/chat_queue.rs\<close>) and
  its configuration (\<open>state.rs\<close>): how a drive is classified and settled, what a drive
  refuses before it starts, one drain pass, and the protocol of concurrent drives around the
  store. A duration is a count of nanoseconds; the stream a drive runs is the caller's, and
  enters as the frames it produced.
\<close>

section \<open>Configuration\<close>

record chat_queue_config =
  cq_disabled :: bool
  cq_tick :: int
  cq_concurrency :: nat
  cq_claim_stale :: int
  cq_max_attempts :: int
  cq_pending_cap :: int
  cq_generation_timeout :: int

text \<open>\<open>str::parse\<close> of a signed integer type.\<close>

definition parse_int :: "int \<Rightarrow> int \<Rightarrow> rstr \<Rightarrow> int option" where
  "parse_int lo hi s =
     (let neg = (case s of c # _ \<Rightarrow> c = 45 | [] \<Rightarrow> False);
          ds = (case s of c # cs \<Rightarrow> if c = 45 \<or> c = 43 then cs else s | [] \<Rightarrow> s);
          v = (if neg then - int (digits_value ds) else int (digits_value ds))
      in if ds \<noteq> [] \<and> list_all is_ascii_digit ds \<and> lo \<le> v \<and> v \<le> hi then Some v else None)"

definition at_least_1 :: "int option \<Rightarrow> int \<Rightarrow> int" where
  "at_least_1 v dflt = (case v of Some n \<Rightarrow> if 1 \<le> n then n else dflt | None \<Rightarrow> dflt)"

definition config_secs :: "rstr option \<Rightarrow> int \<Rightarrow> int" where
  "config_secs raw dflt =
     at_least_1 (Option.bind raw (\<lambda>v. map_option int (parse_usize v))) dflt * 10 ^ 9"

definition parse_chat_queue_config :: "rstr option \<Rightarrow> rstr option \<Rightarrow> rstr option \<Rightarrow> rstr option
    \<Rightarrow> rstr option \<Rightarrow> rstr option \<Rightarrow> rstr option \<Rightarrow> chat_queue_config" where
  "parse_chat_queue_config disabled_raw tick_raw concurrency_raw claim_stale_raw max_attempts_raw
     pending_cap_raw generation_timeout_raw =
     \<lparr>cq_disabled = (case disabled_raw of None \<Rightarrow> False | Some v \<Rightarrow> v = str ''1'' \<or> v = str ''true''),
      cq_tick = config_secs tick_raw 5,
      cq_concurrency = (case Option.bind concurrency_raw parse_usize of Some n \<Rightarrow> n | None \<Rightarrow> 4),
      cq_claim_stale = config_secs claim_stale_raw 300,
      cq_max_attempts =
        at_least_1 (Option.bind max_attempts_raw (parse_int (- (2 ^ 31)) (2 ^ 31 - 1))) 3,
      cq_pending_cap =
        at_least_1 (Option.bind pending_cap_raw (parse_int (- (2 ^ 63)) (2 ^ 63 - 1))) 20,
      cq_generation_timeout = config_secs generation_timeout_raw 300\<rparr>"

section \<open>Outcomes\<close>

datatype turn_outcome = TurnSuccess | TurnFailure rstr | TurnUnservable rstr

datatype settle_mode = Ladder | TerminalOnFailure

definition classify_outcome :: "nat \<Rightarrow> rstr option \<Rightarrow> turn_outcome" where
  "classify_outcome done_frames last_error =
     (if 0 < done_frames then TurnSuccess
      else (case last_error of Some msg \<Rightarrow> TurnFailure msg | None \<Rightarrow> TurnSuccess))"

text \<open>The frames \<open>drive_to_exhaustion\<close> tallies: the rest pass by.\<close>

datatype drive_frame = DoneFrame | ErrorFrame rstr | OtherFrame

fun tally :: "drive_frame list \<Rightarrow> nat \<Rightarrow> rstr option \<Rightarrow> nat \<times> rstr option" where
  "tally [] done_frames last_error = (done_frames, last_error)"
| "tally (DoneFrame # fs) done_frames last_error = tally fs (done_frames + 1) last_error"
| "tally (ErrorFrame message # fs) done_frames last_error = tally fs done_frames (Some message)"
| "tally (OtherFrame # fs) done_frames last_error = tally fs done_frames last_error"

definition drive_to_exhaustion :: "drive_frame list \<Rightarrow> turn_outcome" where
  "drive_to_exhaustion frames =
     (let (done_frames, last_error) = tally frames 0 None in classify_outcome done_frames last_error)"

definition turn_already_served :: "uuid \<Rightarrow> chat_db \<Rightarrow> bool" where
  "turn_already_served mid db \<longleftrightarrow>
     list_ex (\<lambda>m. cm_user_message_id m = Some mid \<and> cm_role m = RAssistant) (db_messages db)
     \<or> (case List.find (\<lambda>m. cm_id m = mid) (db_messages db) of Some m \<Rightarrow> cm_ghost m | None \<Rightarrow> False)"

definition FAILURE_NOTICE :: rstr where
  "FAILURE_NOTICE = [65, 73, 32, 22238, 22797, 22833, 36133, 65292, 35831, 31245, 21518, 20877, 35797]"

text \<open>A failed database write is logged and swallowed: the state stays as it was.\<close>

definition logged :: "chat_db \<Rightarrow> db_error + chat_db \<Rightarrow> chat_db" where
  "logged db r = (case r of Inl _ \<Rightarrow> db | Inr db' \<Rightarrow> db')"

definition settle_turn :: "chat_queue_config \<Rightarrow> instant \<Rightarrow> uuid \<Rightarrow> claimed_turn \<Rightarrow> turn_outcome
    \<Rightarrow> settle_mode \<Rightarrow> chat_db \<Rightarrow> chat_db" where
  "settle_turn cfg now new_mid turn outcome mode db = (case outcome of
     TurnSuccess \<Rightarrow> mark_done (ct_queue_id turn) db
   | TurnUnservable msg \<Rightarrow>
       logged db (mark_failed_with_notice now new_mid (ct_queue_id turn) msg FAILURE_NOTICE db)
   | TurnFailure msg \<Rightarrow>
       (let terminal = (mode = TerminalOnFailure \<or> cq_max_attempts cfg \<le> ct_attempts turn)
        in if terminal
           then if turn_already_served (ct_user_message turn) db
                then mark_done (ct_queue_id turn) db
                else logged db (mark_failed_with_notice now new_mid (ct_queue_id turn) msg FAILURE_NOTICE db)
           else release (ct_queue_id turn) msg db))"

text \<open>
  What \<open>drive_turn\<close> decides before it runs the stream: \<open>Some outcome\<close> ends the drive there,
  \<open>None\<close> goes on. A read that fails is \<open>Inl\<close>.
\<close>

record turn_row =
  tr_content :: rstr
  tr_instance_id :: "uuid option"
  tr_channel :: rstr
  tr_byoc :: bool

definition drive_refusal :: "rstr + bool \<Rightarrow> rstr + turn_row option \<Rightarrow> bool option \<Rightarrow> rstr + unit
    \<Rightarrow> turn_outcome option" where
  "drive_refusal served row byok_fallback quote = (case served of
     Inr True \<Rightarrow> Some TurnSuccess
   | Inl e \<Rightarrow> Some (TurnFailure (str ''replay guard failed: '' @ e))
   | Inr False \<Rightarrow> (case row of
        Inl e \<Rightarrow> Some (TurnFailure (str ''turn load failed: '' @ e))
      | Inr r \<Rightarrow>
          (if (case r of Some x \<Rightarrow> tr_channel x = str ''group'' | None \<Rightarrow> False)
           then Some (TurnUnservable (str ''group_turn_not_redriven''))
           else if (case r of Some x \<Rightarrow> tr_byoc x | None \<Rightarrow> False)
           then Some (TurnUnservable (str ''byoc_unavailable''))
           else if (case r of Some x \<Rightarrow> tr_instance_id x = None | None \<Rightarrow> True)
           then Some (TurnFailure (str ''user message or instance_id missing''))
           else if byok_fallback = Some False then Some (TurnUnservable (str ''byok_unavailable''))
           else (case quote of
                   Inl e \<Rightarrow> Some (TurnFailure (str ''quote resolve failed: '' @ e))
                 | Inr _ \<Rightarrow> None))))"

text \<open>One drain pass: reap, then claim until the queue or the permits run dry.\<close>

fun claim_all :: "nat \<Rightarrow> instant \<Rightarrow> chat_db \<Rightarrow> claimed_turn list \<times> chat_db" where
  "claim_all 0 now db = ([], db)"
| "claim_all (Suc permits) now db = (case claim_next now db of
     (None, db) \<Rightarrow> ([], db)
   | (Some turn, db) \<Rightarrow> (let (turns, db) = claim_all permits now db in (turn # turns, db)))"

definition drain_once :: "chat_queue_config \<Rightarrow> instant \<Rightarrow> uuid list \<Rightarrow> nat \<Rightarrow> chat_db
    \<Rightarrow> db_error + (claimed_turn list \<times> chat_db)" where
  "drain_once cfg now ids permits db =
     bind_r (reap_stale now ids (cq_generation_timeout cfg + cq_claim_stale cfg) (cq_max_attempts cfg)
              FAILURE_NOTICE db)
       (\<lambda>(reaped, db). Inr (claim_all permits now db))"

section \<open>The protocol\<close>

text \<open>
  The state of the whole: the clock, the database and the drives under way. A drive is a turn
  held by a worker or by a stream handler; it settles within the generation timeout and the
  grace after it, which is what the threshold of the reaper relies on, or its process dies.
\<close>

record live_drive =
  dr_turn :: claimed_turn
  dr_started :: instant
  dr_mode :: settle_mode

record chat_system =
  sys_now :: instant
  sys_db :: chat_db
  sys_drives :: "live_drive list"

definition reap_after :: "chat_queue_config \<Rightarrow> int" where
  "reap_after cfg = cq_generation_timeout cfg + cq_claim_stale cfg"

definition remove_drive :: "live_drive \<Rightarrow> live_drive list \<Rightarrow> live_drive list" where
  "remove_drive d ds = filter (\<lambda>x. x \<noteq> d) ds"

inductive chat_step :: "chat_queue_config \<Rightarrow> chat_system \<Rightarrow> chat_system \<Rightarrow> bool"
  for cfg :: chat_queue_config where
  tick: "sys_now s \<le> t \<Longrightarrow> \<forall>d \<in> set (sys_drives s). t \<le> dr_started d + reap_after cfg
    \<Longrightarrow> chat_step cfg s (s\<lparr>sys_now := t\<rparr>)"
| enqueue: "enqueue_user_message (sys_now s) mid qid session content cid RUser meta user params
      (cq_pending_cap cfg) (sys_db s) = Inr (outcome, db)
    \<Longrightarrow> chat_step cfg s (s\<lparr>sys_db := db\<rparr>)"
| enqueue_stream: "enqueue_user_message_claimed (sys_now s) mid qid session content cid RUser meta user
      params (sys_db s) = Inr (EnqClaimed m q, db)
    \<Longrightarrow> chat_step cfg s (s\<lparr>sys_db := db, sys_drives := sys_drives s @
          [\<lparr>dr_turn = \<lparr>ct_queue_id = q, ct_session = session, ct_user_message = m, ct_user = user,
                      ct_attempts = 1, ct_params = Some params\<rparr>,
            dr_started = sys_now s, dr_mode = TerminalOnFailure\<rparr>]\<rparr>)"
| claim: "claim_next (sys_now s) (sys_db s) = (Some turn, db)
    \<Longrightarrow> chat_step cfg s (s\<lparr>sys_db := db, sys_drives := sys_drives s @
          [\<lparr>dr_turn = turn, dr_started = sys_now s, dr_mode = Ladder\<rparr>]\<rparr>)"
| reply: "d \<in> set (sys_drives s) \<Longrightarrow> cm_role m = RAssistant
    \<Longrightarrow> cm_user_message_id m = Some (ct_user_message (dr_turn d))
    \<Longrightarrow> insert_message m (sys_db s) = Inr db \<Longrightarrow> chat_step cfg s (s\<lparr>sys_db := db\<rparr>)"
| ghost: "d \<in> set (sys_drives s)
    \<Longrightarrow> chat_step cfg s (s\<lparr>sys_db := mark_user_message_ghosted (ct_user_message (dr_turn d)) (sys_db s)\<rparr>)"
| settle: "d \<in> set (sys_drives s)
    \<Longrightarrow> chat_step cfg s (s\<lparr>sys_db := settle_turn cfg (sys_now s) mid (dr_turn d) outcome (dr_mode d) (sys_db s),
          sys_drives := remove_drive d (sys_drives s)\<rparr>)"
| crash: "d \<in> set (sys_drives s) \<Longrightarrow> chat_step cfg s (s\<lparr>sys_drives := remove_drive d (sys_drives s)\<rparr>)"
| reap: "reap_stale (sys_now s) ids (reap_after cfg) (cq_max_attempts cfg) FAILURE_NOTICE (sys_db s)
      = Inr (reaped, db)
    \<Longrightarrow> chat_step cfg s (s\<lparr>sys_db := db\<rparr>)"

inductive chat_init :: "chat_system \<Rightarrow> bool" where
  "chat_init \<lparr>sys_now = t, sys_db = \<lparr>db_messages = [], db_queue = [], db_sessions = sessions\<rparr>,
     sys_drives = []\<rparr>"

inductive_cases chat_stepE: "chat_step cfg s t"
inductive_cases chat_initE: "chat_init s"

end
