(* ===== verification/Chat_Queue_Laws.thy ===== *)
theory Chat_Queue_Laws
  imports Chat_Worker
begin

text \<open>
  What the chat queue guarantees: enqueueing is idempotent and bounded, a claim takes the
  newest waiting turn of a session nobody is answering, and over every interleaving of requests,
  workers, deaths and reapers a turn is held by one drive at a time and a failed turn has its one
  notice.
\<close>

section \<open>Frame facts\<close>

lemma bind_r_Inr: "bind_r x f = Inr y \<longleftrightarrow> (\<exists>a. x = Inr a \<and> f a = Inr y)"
  by (cases x) (auto simp: bind_r_def)

lemma update_queue_simps [queue_simps]:
  "db_messages (update_queue P f db) = db_messages db"
  "db_sessions (update_queue P f db) = db_sessions db"
  "db_queue (update_queue P f db) = map (\<lambda>q. if P q then f q else q) (db_queue db)"
  by (simp_all add: update_queue_def)

lemma touch_session_simps [queue_simps]:
  "db_messages (touch_session now s db) = db_messages db"
  "db_queue (touch_session now s db) = db_queue db"
  by (simp_all add: touch_session_def)

lemma fold_touch_simps [queue_simps]:
  "db_messages (fold (touch_session now) ss db) = db_messages db"
  "db_queue (fold (touch_session now) ss db) = db_queue db"
  by (induction ss arbitrary: db) (simp_all add: queue_simps)

lemma insert_message_InrD:
  "insert_message m db = Inr db' \<Longrightarrow> db_messages db' = db_messages db @ [m] \<and> db_queue db' = db_queue db
     \<and> cm_id m \<notin> message_ids db"
  by (auto simp: insert_message_def split: if_splits)

lemma insert_queue_row_InrD:
  "insert_queue_row q db = Inr db' \<Longrightarrow> db_queue db' = db_queue db @ [q] \<and> db_messages db' = db_messages db
     \<and> qr_id q \<notin> qr_id ` set (db_queue db) \<and> qr_user_message q \<notin> qr_user_message ` set (db_queue db)"
  by (auto simp: insert_queue_row_def split: if_splits)

definition notice_of :: "queue_row \<Rightarrow> chat_message \<Rightarrow> bool" where
  "notice_of q m \<longleftrightarrow> cm_role m = RSystemError \<and> cm_session m = qr_session q
     \<and> cm_user_message_id m = Some (qr_user_message q)"

lemma insert_notices_InrD:
  "insert_notices now ids content qs db = Inr db' \<Longrightarrow>
     db_queue db' = db_queue db \<and> (\<exists>ns. db_messages db' = db_messages db @ ns \<and> list_all2 notice_of qs ns)"
proof (induction now ids content qs db arbitrary: db' rule: insert_notices.induct)
  case (3 now i ids content q qs db)
  from "3.prems" obtain db1 where 1:
    "insert_message (notice now i content (qr_session q) (qr_user_message q)) db = Inr db1"
    "insert_notices now ids content qs db1 = Inr db'"
    by (auto simp: bind_r_Inr)
  from "3.IH" [OF 1(2)] insert_message_InrD [OF 1(1)] show ?case
    by (fastforce simp: notice_of_def notice_def)
qed auto

section \<open>The invariant\<close>

definition notices :: "uuid \<Rightarrow> chat_message list \<Rightarrow> nat" where
  "notices mid ms = length (filter (\<lambda>m. cm_role m = RSystemError \<and> cm_user_message_id m = Some mid) ms)"

text \<open>A row by itself: its attempts are in range and its claim stamp fits its status.\<close>

definition fields_ok :: "chat_queue_config \<Rightarrow> instant \<Rightarrow> queue_row \<Rightarrow> bool" where
  "fields_ok cfg now q \<longleftrightarrow> 0 \<le> qr_attempts q \<and> qr_attempts q \<le> cq_max_attempts cfg
     \<and> (qr_status q = QPending \<longrightarrow> qr_claimed_at q = None \<and> qr_attempts q < cq_max_attempts cfg)
     \<and> (qr_status q = QClaimed \<longrightarrow> (\<exists>t. qr_claimed_at q = Some t \<and> t \<le> now))"

definition driven_by :: "queue_row \<Rightarrow> chat_message \<Rightarrow> bool" where
  "driven_by q m \<longleftrightarrow> cm_id m = qr_user_message q \<and> cm_role m = RUser \<and> cm_session m = qr_session q"

definition db_ok :: "chat_queue_config \<Rightarrow> instant \<Rightarrow> chat_db \<Rightarrow> bool" where
  "db_ok cfg now db \<longleftrightarrow>
     distinct (map qr_id (db_queue db)) \<and> distinct (map qr_user_message (db_queue db))
     \<and> (\<forall>q \<in> set (db_queue db). fields_ok cfg now q \<and> (\<exists>m \<in> set (db_messages db). driven_by q m)
          \<and> notices (qr_user_message q) (db_messages db) = (if qr_status q = QFailed then 1 else 0))
     \<and> (\<forall>m \<in> set (db_messages db).
          (cm_role m = RUser \<longrightarrow> (\<exists>q \<in> set (db_queue db). driven_by q m))
          \<and> (cm_role m = RSystemError \<longrightarrow> (\<exists>q \<in> set (db_queue db). notice_of q m)))"

definition holds :: "chat_db \<Rightarrow> live_drive \<Rightarrow> queue_row \<Rightarrow> bool" where
  "holds db d q \<longleftrightarrow> q \<in> set (db_queue db) \<and> qr_id q = ct_queue_id (dr_turn d)
     \<and> qr_status q = QClaimed \<and> qr_claimed_at q = Some (dr_started d)
     \<and> qr_user_message q = ct_user_message (dr_turn d) \<and> qr_attempts q = ct_attempts (dr_turn d)"

definition sys_ok :: "chat_queue_config \<Rightarrow> chat_system \<Rightarrow> bool" where
  "sys_ok cfg s \<longleftrightarrow> db_ok cfg (sys_now s) (sys_db s)
     \<and> distinct (map (\<lambda>d. ct_queue_id (dr_turn d)) (sys_drives s))
     \<and> (\<forall>d \<in> set (sys_drives s). (\<exists>q. holds (sys_db s) d q) \<and> sys_now s \<le> dr_started d + reap_after cfg)"

definition config_ok :: "chat_queue_config \<Rightarrow> bool" where
  "config_ok cfg \<longleftrightarrow> 1 \<le> cq_max_attempts cfg \<and> 0 < cq_claim_stale cfg \<and> 0 < cq_generation_timeout cfg
     \<and> 1 \<le> cq_pending_cap cfg \<and> 0 < cq_tick cfg"

subsection \<open>Updating rows\<close>

text \<open>An update keeps a row's keys and does not touch whether it has failed.\<close>

definition keeps_keys :: "(queue_row \<Rightarrow> queue_row) \<Rightarrow> bool" where
  "keeps_keys f \<longleftrightarrow> (\<forall>q. qr_id (f q) = qr_id q \<and> qr_session (f q) = qr_session q
     \<and> qr_user_message (f q) = qr_user_message q)"

lemma keeps_keys_if: "keeps_keys f \<Longrightarrow> keeps_keys (\<lambda>q. if P q then f q else q)"
  by (simp add: keeps_keys_def)

lemma keeps_keys_links:
  assumes "keeps_keys u"
  shows "driven_by (u q) m = driven_by q m" "notice_of (u q) m = notice_of q m"
    "map qr_id (map u qs) = map qr_id qs" "map qr_user_message (map u qs) = map qr_user_message qs"
    "qr_user_message (u q) = qr_user_message q"
  using assms by (auto simp: keeps_keys_def driven_by_def notice_of_def)

text \<open>Every transaction but an enqueue rewrites rows in place and appends messages.\<close>

lemma db_ok_map:
  assumes ok: "db_ok cfg now db" and k: "keeps_keys u"
    and q: "db_queue db' = map u (db_queue db)" and m: "db_messages db' = db_messages db @ ns"
    and row: "\<And>q. q \<in> set (db_queue db) \<Longrightarrow> fields_ok cfg now' (u q)
      \<and> notices (qr_user_message q) (db_messages db @ ns) = (if qr_status (u q) = QFailed then 1 else 0)"
    and new: "\<And>m. m \<in> set ns \<Longrightarrow> cm_role m \<noteq> RUser
      \<and> (cm_role m = RSystemError \<longrightarrow> (\<exists>q \<in> set (db_queue db). notice_of q m))"
  shows "db_ok cfg now' db'"
proof -
  note l = keeps_keys_links [OF k]
  have rows: "\<forall>q \<in> set (db_queue db). \<exists>m \<in> set (db_messages db). driven_by q m"
    and ms: "\<forall>m \<in> set (db_messages db). (cm_role m = RUser \<longrightarrow> (\<exists>q \<in> set (db_queue db). driven_by q m))
          \<and> (cm_role m = RSystemError \<longrightarrow> (\<exists>q \<in> set (db_queue db). notice_of q m))"
    and d: "distinct (map qr_id (db_queue db))" "distinct (map qr_user_message (db_queue db))"
    using ok by (auto simp: db_ok_def)
  have "\<forall>q \<in> set (map u (db_queue db)). fields_ok cfg now' q \<and> (\<exists>m \<in> set (db_messages db'). driven_by q m)
      \<and> notices (qr_user_message q) (db_messages db') = (if qr_status q = QFailed then 1 else 0)"
    using rows row l by (auto simp: m)
  moreover have "\<forall>m \<in> set (db_messages db'). (cm_role m = RUser \<longrightarrow> (\<exists>q \<in> set (map u (db_queue db)). driven_by q m))
      \<and> (cm_role m = RSystemError \<longrightarrow> (\<exists>q \<in> set (map u (db_queue db)). notice_of q m))"
    using ms new l unfolding m by (auto simp: bex_simps)
  ultimately show ?thesis unfolding db_ok_def q l(3) l(4) using d by blast
qed

lemma db_ok_rows:
  "db_ok cfg now db \<Longrightarrow> q \<in> set (db_queue db) \<Longrightarrow> fields_ok cfg now q
     \<and> notices (qr_user_message q) (db_messages db) = (if qr_status q = QFailed then 1 else 0)"
  by (simp add: db_ok_def)

lemma db_ok_update:
  assumes ok: "db_ok cfg now db" and k: "keeps_keys f"
    and f: "\<And>q. q \<in> set (db_queue db) \<Longrightarrow> P q \<Longrightarrow> fields_ok cfg now (f q) \<and> (qr_status (f q) = QFailed \<longleftrightarrow> qr_status q = QFailed)"
  shows "db_ok cfg now (update_queue P f db)"
  by (rule db_ok_map [OF ok keeps_keys_if [OF k], where ns = "[]" and P1 = P])
    (use db_ok_rows [OF ok] f in \<open>auto simp: queue_simps\<close>)

lemma count_distinct:
  assumes "distinct (map g xs)" "x \<in> set xs"
  shows "length (filter (\<lambda>y. g y = g x) (filter P xs)) = (if P x then 1 else 0)"
  using assms
proof (induction xs)
  case (Cons a xs)
  show ?case
  proof (cases "x = a")
    case True
    have "filter (\<lambda>y. g y = g a) (filter P xs) = []"
      using Cons.prems(1) by (auto simp: filter_empty_conv) (metis image_eqI)
    with True show ?thesis by simp
  next
    case False
    then have "g a \<noteq> g x" using Cons.prems by auto
    then have "filter (\<lambda>y. g y = g x) (filter P (a # xs)) = filter (\<lambda>y. g y = g x) (filter P xs)" by simp
    moreover have "distinct (map g xs)" "x \<in> set xs" using False Cons.prems by auto
    ultimately show ?thesis using Cons.IH by presburger
  qed
qed simp

lemma notices_of_rows:
  assumes "list_all2 notice_of qs ns"
  shows "notices mid ns = length (filter (\<lambda>q. qr_user_message q = mid) qs)"
  using assms by (induction rule: list_all2_induct) (auto simp: notices_def notice_of_def)

lemma notices_append: "notices mid (ms @ ns) = notices mid ms + notices mid ns"
  by (simp add: notices_def)

text \<open>Claims that fail together with their notices.\<close>

lemma db_ok_fail:
  assumes ok: "db_ok cfg now db"
    and P: "\<And>q. q \<in> set (db_queue db) \<Longrightarrow> P q \<Longrightarrow> qr_status q = QClaimed"
    and ins: "insert_notices now' ids content (filter P (db_queue db))
      (update_queue P (\<lambda>q. q\<lparr>qr_status := QFailed, qr_last_error := Some e\<rparr>) db) = Inr db'"
  shows "db_ok cfg now db'"
proof -
  let ?f = "\<lambda>q. q\<lparr>qr_status := QFailed, qr_last_error := Some e\<rparr>"
  let ?u = "\<lambda>q. if P q then ?f q else q"
  have k: "keeps_keys ?u" by (rule keeps_keys_if) (simp add: keeps_keys_def)
  from insert_notices_InrD [OF ins] obtain ns where
    q': "db_queue db' = map ?u (db_queue db)" and m': "db_messages db' = db_messages db @ ns"
    and ns: "list_all2 notice_of (filter P (db_queue db)) ns"
    by (auto simp: queue_simps)
  have d: "distinct (map qr_user_message (db_queue db))" using ok by (simp add: db_ok_def)
  have row: "fields_ok cfg now (?u q)
      \<and> notices (qr_user_message q) (db_messages db @ ns) = (if qr_status (?u q) = QFailed then 1 else 0)"
    if q: "q \<in> set (db_queue db)" for q
  proof -
    note r = db_ok_rows [OF ok q]
    have "notices (qr_user_message q) ns = (if P q then 1 else 0)"
      unfolding notices_of_rows [OF ns] by (rule count_distinct [OF d q])
    then have "notices (qr_user_message q) (db_messages db @ ns) = (if qr_status (?u q) = QFailed then 1 else 0)"
      using r P [OF q] by (simp add: notices_append)
    moreover have "fields_ok cfg now (?u q)" using r by (simp add: fields_ok_def)
    ultimately show ?thesis by blast
  qed
  have new: "cm_role m \<noteq> RUser \<and> (cm_role m = RSystemError \<longrightarrow> (\<exists>q \<in> set (db_queue db). notice_of q m))"
    if "m \<in> set ns" for m
  proof -
    have "\<exists>q \<in> set (filter P (db_queue db)). notice_of q m"
      using ns that by (induction rule: list_all2_induct) auto
    then show ?thesis by (auto simp: notice_of_def)
  qed
  show ?thesis by (rule db_ok_map [OF ok k q' m' row new])
qed

lemma db_ok_cong:
  "db_messages db = db_messages db' \<Longrightarrow> db_queue db = db_queue db' \<Longrightarrow> db_ok cfg now db = db_ok cfg now db'"
  by (simp add: db_ok_def)

lemma db_ok_later: "db_ok cfg now db \<Longrightarrow> now \<le> t \<Longrightarrow> db_ok cfg t db"
  unfolding db_ok_def fields_ok_def by (blast intro: order_trans)

lemma db_ok_append:
  assumes "db_ok cfg now db" "db_queue db' = db_queue db" "db_messages db' = db_messages db @ [m]"
    "cm_role m = RAssistant"
  shows "db_ok cfg now db'"
  by (rule db_ok_map [OF assms(1), where u = id and ns = "[m]"])
    (use assms db_ok_rows [OF assms(1)] in \<open>auto simp: keeps_keys_def notices_append, auto simp: notices_def\<close>)

lemma db_ok_ghost:
  assumes "db_ok cfg now db"
  shows "db_ok cfg now (mark_user_message_ghosted mid db)"
proof -
  let ?g = "\<lambda>m. if cm_id m = mid \<and> cm_role m = RUser \<and> \<not> cm_ghost m then m\<lparr>cm_ghost := True\<rparr> else m"
  have n: "notices i (map ?g ms) = notices i ms" for i ms
    by (induction ms) (simp_all add: notices_def)
  have l: "driven_by q (?g m) = driven_by q m" "notice_of q (?g m) = notice_of q m"
    "cm_role (?g m) = cm_role m" for q m
    by (simp_all add: driven_by_def notice_of_def)
  have q: "db_queue (mark_user_message_ghosted mid db) = db_queue db"
    and m: "db_messages (mark_user_message_ghosted mid db) = map ?g (db_messages db)"
    by (simp_all add: mark_user_message_ghosted_def)
  show ?thesis
    using assms unfolding db_ok_def q m n set_map ball_simps bex_simps l by blast
qed

section \<open>Each transaction keeps the invariant\<close>

lemma find_unique:
  assumes "distinct (map g xs)" "List.find (\<lambda>x. g x = k) xs = Some x"
  shows "filter (\<lambda>x. g x = k) xs = [x]"
  using assms
proof (induction xs)
  case (Cons a xs)
  have "filter (\<lambda>x. g x = g a) xs = []" using Cons.prems(1) by (simp add: filter_empty_conv) (metis imageI)
  with Cons show ?case by (cases "g a = k") auto
qed simp

lemma mark_failed_InrD:
  assumes "distinct (map qr_id (db_queue db))"
    and "mark_failed_with_notice now i qid e content db = Inr db'"
  shows "db' = db \<or> (\<exists>db1. db_messages db' = db_messages db1 \<and> db_queue db' = db_queue db1
    \<and> insert_notices now [i] content (filter (\<lambda>q. qr_id q = qid) (db_queue db))
        (update_queue (\<lambda>q. qr_id q = qid) (\<lambda>q. q\<lparr>qr_status := QFailed, qr_last_error := Some e\<rparr>) db) = Inr db1)"
proof (cases "List.find (\<lambda>q. qr_id q = qid) (db_queue db)")
  case None
  with assms(2) show ?thesis by (simp add: mark_failed_with_notice_def)
next
  case (Some q)
  note f = find_unique [OF assms(1) Some]
  from assms(2) Some obtain db1 where
    "insert_message (notice now i content (qr_session q) (qr_user_message q))
      (update_queue (\<lambda>q. qr_id q = qid) (\<lambda>q. q\<lparr>qr_status := QFailed, qr_last_error := Some e\<rparr>) db) = Inr db1"
    "db' = touch_session now (qr_session q) db1"
    by (auto simp: mark_failed_with_notice_def bind_r_Inr)
  then show ?thesis unfolding f by (intro disjI2 exI [of _ db1]) (simp add: queue_simps bind_r_def)
qed

text \<open>A transaction that rewrites at most the row \<open>qid\<close>.\<close>

definition only_row :: "uuid \<Rightarrow> chat_db \<Rightarrow> chat_db \<Rightarrow> bool" where
  "only_row qid db db' \<longleftrightarrow> (\<exists>u. keeps_keys u \<and> db_queue db' = map u (db_queue db)
     \<and> (\<forall>q. qr_id q \<noteq> qid \<longrightarrow> u q = q))"

lemma only_row_refl: "only_row qid db db"
  unfolding only_row_def by (intro exI [of _ id]) (simp add: keeps_keys_def)

lemma only_row_update:
  "keeps_keys f \<Longrightarrow> only_row qid db (update_queue (\<lambda>q. qr_id q = qid) f db)"
  unfolding only_row_def queue_simps
  by (intro exI [of _ "\<lambda>q. if qr_id q = qid then f q else q"]) (simp add: keeps_keys_def)

lemma settle_turn_ok:
  assumes ok: "db_ok cfg now db" and q: "q \<in> set (db_queue db)" "qr_id q = ct_queue_id turn"
    "qr_status q = QClaimed" "qr_attempts q = ct_attempts turn"
  shows "db_ok cfg now (settle_turn cfg now i turn outcome mode db)"
    and "only_row (ct_queue_id turn) db (settle_turn cfg now i turn outcome mode db)"
proof -
  let ?id = "ct_queue_id turn"
  have d: "distinct (map qr_id (db_queue db))" using ok by (simp add: db_ok_def)
  have the_row: "r = q" if "r \<in> set (db_queue db)" "qr_id r = ?id" for r
    using d q that by (auto simp: distinct_map inj_on_def)
  have a: "fields_ok cfg now q" using db_ok_rows [OF ok q(1)] by blast
  have upd: "db_ok cfg now (update_queue (\<lambda>r. qr_id r = ?id) f db)
      \<and> only_row ?id db (update_queue (\<lambda>r. qr_id r = ?id) f db)"
    if f: "keeps_keys f" "fields_ok cfg now (f q)" "qr_status (f q) \<noteq> QFailed" for f
  proof
    show "db_ok cfg now (update_queue (\<lambda>r. qr_id r = ?id) f db)"
    proof (rule db_ok_update [OF ok f(1)])
      fix r assume "r \<in> set (db_queue db)" "qr_id r = ?id"
      then have "r = q" by (rule the_row)
      with f q(3) show "fields_ok cfg now (f r) \<and> (qr_status (f r) = QFailed) = (qr_status r = QFailed)"
        by simp
    qed
  qed (rule only_row_update [OF f(1)])
  have done_ok: "db_ok cfg now (mark_done ?id db) \<and> only_row ?id db (mark_done ?id db)"
    unfolding mark_done_def by (rule upd) (use a in \<open>simp_all add: keeps_keys_def fields_ok_def\<close>)
  have rel: "db_ok cfg now (release ?id msg db) \<and> only_row ?id db (release ?id msg db)"
    if "ct_attempts turn < cq_max_attempts cfg" for msg
    unfolding release_def
    by (rule upd) (use a q that in \<open>simp_all add: keeps_keys_def fields_ok_def\<close>)
  have fail: "db_ok cfg now (logged db (mark_failed_with_notice now i ?id msg FAILURE_NOTICE db))
      \<and> only_row ?id db (logged db (mark_failed_with_notice now i ?id msg FAILURE_NOTICE db))" for msg
  proof (cases "mark_failed_with_notice now i ?id msg FAILURE_NOTICE db")
    case (Inl e)
    with ok show ?thesis by (simp add: logged_def only_row_refl)
  next
    case (Inr db')
    from mark_failed_InrD [OF d Inr] consider "db' = db" | db1 where
      "db_messages db' = db_messages db1" "db_queue db' = db_queue db1"
      "insert_notices now [i] FAILURE_NOTICE (filter (\<lambda>q. qr_id q = ?id) (db_queue db))
        (update_queue (\<lambda>q. qr_id q = ?id) (\<lambda>q. q\<lparr>qr_status := QFailed, qr_last_error := Some msg\<rparr>) db) = Inr db1"
      by blast
    then show ?thesis
    proof cases
      case 1
      with ok Inr show ?thesis by (simp add: logged_def only_row_refl)
    next
      case 2
      have "db_ok cfg now db1" using the_row q by (intro db_ok_fail [OF ok _ 2(3)]) auto
      moreover have "only_row ?id db db1"
        using only_row_update [of "\<lambda>q. q\<lparr>qr_status := QFailed, qr_last_error := Some msg\<rparr>" ?id db]
          insert_notices_InrD [OF 2(3)]
        by (simp add: only_row_def keeps_keys_def)
      ultimately show ?thesis
        using 2(1,2) db_ok_cong [OF 2(1,2)] by (simp add: Inr logged_def only_row_def)
    qed
  qed
  show "db_ok cfg now (settle_turn cfg now i turn outcome mode db)"
    and "only_row ?id db (settle_turn cfg now i turn outcome mode db)"
    using done_ok rel fail
    by (simp_all add: settle_turn_def Let_def split: turn_outcome.split)
qed

lemma reap_stale_ok:
  assumes ok: "db_ok cfg now db" and r: "reap_stale now ids stale (cq_max_attempts cfg) content db = Inr (reaped, db')"
  shows "db_ok cfg now db'"
    and "\<exists>u. keeps_keys u \<and> db_queue db' = map u (db_queue db) \<and> (\<forall>q. \<not> stale_claim now stale q \<longrightarrow> u q = q)"
proof -
  let ?P = "\<lambda>q. stale_claim now stale q \<and> cq_max_attempts cfg \<le> qr_attempts q"
  let ?f = "\<lambda>q. q\<lparr>qr_status := QFailed, qr_last_error := Some STALE_ERROR\<rparr>"
  let ?g = "\<lambda>q. q\<lparr>qr_status := QPending, qr_claimed_at := None, qr_last_error := Some STALE_ERROR\<rparr>"
  from r obtain db1 where ins: "insert_notices now ids content (filter ?P (db_queue db)) (update_queue ?P ?f db) = Inr db1"
    and db': "db' = update_queue (stale_claim now stale) ?g
      (fold (touch_session now) (map qr_session (filter ?P (db_queue db))) db1)"
    by (auto simp: reap_stale_def Let_def bind_r_Inr)
  have q1: "db_queue db1 = map (\<lambda>q. if ?P q then ?f q else q) (db_queue db)"
    using insert_notices_InrD [OF ins] by (simp add: queue_simps)
  have "db_ok cfg now db1"
    by (rule db_ok_fail [OF ok _ ins]) (simp add: stale_claim_def)
  then have ok2: "db_ok cfg now (fold (touch_session now) (map qr_session (filter ?P (db_queue db))) db1)"
    by (subst db_ok_cong [where db' = db1]) (simp_all add: queue_simps)
  show "db_ok cfg now db'"
    unfolding db'
  proof (rule db_ok_update [OF ok2])
    fix q assume "q \<in> set (db_queue (fold (touch_session now) (map qr_session (filter ?P (db_queue db))) db1))"
      and s: "stale_claim now stale q"
    then have m: "q \<in> set (db_queue db1)" by (simp add: queue_simps)
    with \<open>db_ok cfg now db1\<close> have f: "fields_ok cfg now q" using db_ok_rows by blast
    have "qr_attempts q < cq_max_attempts cfg"
    proof (rule ccontr)
      assume "\<not> qr_attempts q < cq_max_attempts cfg"
      with s have "?P q" by simp
      from m obtain p where p: "q = (if ?P p then ?f p else p)" unfolding q1 set_map by blast
      with \<open>?P q\<close> show False by (auto simp: stale_claim_def split: if_splits)
    qed
    with f s show "fields_ok cfg now (?g q) \<and> (qr_status (?g q) = QFailed) = (qr_status q = QFailed)"
      by (simp add: fields_ok_def stale_claim_def)
  qed (simp add: keeps_keys_def)
  let ?u = "\<lambda>q. let r = (if ?P q then ?f q else q) in if stale_claim now stale r then ?g r else r"
  have "keeps_keys ?u" by (simp add: keeps_keys_def Let_def)
  moreover have "db_queue db' = map ?u (db_queue db)"
    by (simp add: db' queue_simps q1 Let_def)
  ultimately show "\<exists>u. keeps_keys u \<and> db_queue db' = map u (db_queue db) \<and> (\<forall>q. \<not> stale_claim now stale q \<longrightarrow> u q = q)"
    by (intro exI [of _ ?u]) simp
qed

subsection \<open>Enqueueing\<close>

lemma upsert_cases:
  assumes "upsert_user_message_in_tx now new_id session content cid RUser meta db = Inr (outcome, tx)"
  shows "(outcome = Inserted new_id \<and> db_queue tx = db_queue db \<and> new_id \<notin> message_ids db
        \<and> (\<exists>m. db_messages tx = db_messages db @ [m] \<and> cm_id m = new_id \<and> cm_role m = RUser
              \<and> cm_session m = session \<and> cm_client_msg_id m = Some cid \<and> \<not> cm_ghost m))
     \<or> tx = db \<and> (\<exists>row \<in> set (db_messages db). cm_session row = session \<and> cm_client_msg_id row = Some cid
          \<and> cm_role row = RUser \<and> (outcome = DuplicateInProgress (cm_id row) \<or> (\<exists>g ch. outcome = Replay (cm_id row) g ch)))"
proof (cases "List.find (\<lambda>m. cm_session m = session \<and> cm_client_msg_id m = Some cid \<and> cm_role m = RUser)
    (db_messages db)")
  case None
  with assms obtain db1 where i: "insert_message \<lparr>cm_id = new_id, cm_session = session, cm_role = RUser,
      cm_content = content, cm_client_msg_id = Some cid, cm_metadata = meta, cm_ghost = False,
      cm_user_message_id = None, cm_sent_at = now\<rparr> db = Inr db1"
    "outcome = Inserted new_id" "tx = touch_session now session db1"
    by (auto simp: upsert_user_message_in_tx_def bind_r_Inr)
  from insert_message_InrD [OF i(1)] i(2,3) show ?thesis by (auto simp: queue_simps)
next
  case (Some row)
  with assms find_SomeD [OF Some] show ?thesis
    by (auto simp: upsert_user_message_in_tx_def Let_def split: if_splits)
qed

text \<open>The pair of rows a first enqueue adds.\<close>

definition enqueued :: "uuid \<Rightarrow> chat_db \<Rightarrow> chat_db \<Rightarrow> queue_row \<Rightarrow> bool" where
  "enqueued mid db db' q \<longleftrightarrow> db_queue db' = db_queue db @ [q] \<and> qr_user_message q = mid
     \<and> mid \<notin> message_ids db \<and> qr_id q \<notin> qr_id ` set (db_queue db)
     \<and> (\<exists>m. db_messages db' = db_messages db @ [m] \<and> driven_by q m)"

lemma enqueue_cases:
  assumes "enqueue_user_message now mid qid session content cid RUser meta user params cap db = Inr (outcome, db')"
  shows "(\<exists>q. outcome = Queued mid qid \<and> enqueued mid db db' q \<and> qr_id q = qid \<and> qr_status q = QPending
        \<and> qr_attempts q = 0 \<and> qr_claimed_at q = None \<and> qr_session q = session \<and> pending_depth session db < cap)
     \<or> db' = db \<and> (\<forall>a b. outcome \<noteq> Queued a b)"
proof -
  from assms obtain o1 tx where u: "upsert_user_message_in_tx now mid session content cid RUser meta db = Inr (o1, tx)"
    by (auto simp: enqueue_user_message_def bind_r_Inr)
  from upsert_cases [OF u] show ?thesis
  proof (elim disjE conjE exE)
    fix m assume i: "o1 = Inserted mid" "db_queue tx = db_queue db" "mid \<notin> message_ids db"
      "db_messages tx = db_messages db @ [m]" "cm_id m = mid" "cm_role m = RUser" "cm_session m = session"
    have d: "pending_depth session tx = pending_depth session db" by (simp add: pending_depth_def i(2))
    show ?thesis
    proof (cases "cap \<le> pending_depth session tx")
      case True
      with assms u i show ?thesis by (auto simp: enqueue_user_message_def bind_r_def)
    next
      case False
      with assms u i obtain q where q: "insert_queue_row q tx = Inr db'" "outcome = Queued mid qid"
        "qr_id q = qid" "qr_status q = QPending" "qr_attempts q = 0" "qr_claimed_at q = None"
        "qr_session q = session" "qr_user_message q = mid"
        by (auto simp: enqueue_user_message_def bind_r_def split: sum.splits)
      from insert_queue_row_InrD [OF q(1)] q i False d show ?thesis
        by (intro disjI1 exI [of _ q]) (auto simp: enqueued_def driven_by_def)
    qed
  next
    assume "tx = db" and "\<exists>row \<in> set (db_messages db). cm_session row = session \<and> cm_client_msg_id row = Some cid
          \<and> cm_role row = RUser \<and> (o1 = DuplicateInProgress (cm_id row) \<or> (\<exists>g ch. o1 = Replay (cm_id row) g ch))"
    with assms u show ?thesis by (auto simp: enqueue_user_message_def bind_r_def split: if_splits)
  qed
qed

lemma enqueue_claimed_cases:
  assumes "enqueue_user_message_claimed now mid qid session content cid RUser meta user params db
    = Inr (EnqClaimed m' q', db')"
  shows "m' = mid \<and> q' = qid \<and> (\<exists>q. enqueued mid db db' q \<and> qr_id q = qid \<and> qr_status q = QClaimed
        \<and> qr_attempts q = 1 \<and> qr_claimed_at q = Some now \<and> qr_session q = session)"
proof -
  from assms obtain o1 tx where u: "upsert_user_message_in_tx now mid session content cid RUser meta db = Inr (o1, tx)"
    by (auto simp: enqueue_user_message_claimed_def bind_r_Inr)
  from upsert_cases [OF u] show ?thesis
  proof (elim disjE conjE exE)
    fix m assume i: "o1 = Inserted mid" "db_queue tx = db_queue db" "mid \<notin> message_ids db"
      "db_messages tx = db_messages db @ [m]" "cm_id m = mid" "cm_role m = RUser" "cm_session m = session"
    from assms u i obtain q where q: "insert_queue_row q tx = Inr db'" "m' = mid" "q' = qid"
      "qr_id q = qid" "qr_status q = QClaimed" "qr_attempts q = 1" "qr_claimed_at q = Some now"
      "qr_session q = session" "qr_user_message q = mid"
      by (auto simp: enqueue_user_message_claimed_def bind_r_def split: sum.splits)
    from insert_queue_row_InrD [OF q(1)] q i show ?thesis
      by (intro conjI exI [of _ q]) (auto simp: enqueued_def driven_by_def)
  next
    assume "\<exists>row \<in> set (db_messages db). cm_session row = session \<and> cm_client_msg_id row = Some cid
          \<and> cm_role row = RUser \<and> (o1 = DuplicateInProgress (cm_id row) \<or> (\<exists>g ch. o1 = Replay (cm_id row) g ch))"
    with assms u show ?thesis by (auto simp: enqueue_user_message_claimed_def bind_r_def split: if_splits)
  qed
qed

lemma db_ok_enqueued:
  assumes ok: "db_ok cfg now db" and e: "enqueued mid db db' q"
    and f: "fields_ok cfg now q" "qr_status q \<noteq> QFailed"
  shows "db_ok cfg now db'"
proof -
  from e obtain m where q: "db_queue db' = db_queue db @ [q]" "qr_user_message q = mid"
    "mid \<notin> message_ids db" "qr_id q \<notin> qr_id ` set (db_queue db)"
    and m: "db_messages db' = db_messages db @ [m]" "driven_by q m"
    by (auto simp: enqueued_def)
  have used: "qr_user_message r \<in> message_ids db" if "r \<in> set (db_queue db)" for r
    using ok that by (auto simp: db_ok_def driven_by_def message_ids_def) (metis image_eqI)
  have "\<not> (cm_role n = RSystemError \<and> cm_user_message_id n = Some mid)" if "n \<in> set (db_messages db)" for n
  proof
    assume n: "cm_role n = RSystemError \<and> cm_user_message_id n = Some mid"
    with ok that obtain r where "r \<in> set (db_queue db)" "notice_of r n" by (auto simp: db_ok_def)
    with used [of r] n q(3) show False by (simp add: notice_of_def)
  qed
  then have "notices mid (db_messages db) = 0"
    unfolding notices_def by (simp add: filter_empty_conv)
  moreover have "notices i [m] = 0" for i using m(2) by (simp add: notices_def driven_by_def)
  ultimately have "\<forall>r \<in> set (db_queue db'). fields_ok cfg now r \<and> (\<exists>m \<in> set (db_messages db'). driven_by r m)
      \<and> notices (qr_user_message r) (db_messages db') = (if qr_status r = QFailed then 1 else 0)"
    using ok f m q by (auto simp: db_ok_def notices_append)
  moreover have "mid \<notin> qr_user_message ` set (db_queue db)" using used q(3) by auto
  moreover have "cm_role m = RUser" using m(2) by (simp add: driven_by_def)
  ultimately show ?thesis
    using ok q m unfolding db_ok_def by auto
qed

subsection \<open>Claiming\<close>

lemma newest_None: "newest qs = None \<longleftrightarrow> qs = []"
  by (cases qs; cases "newest (tl qs)") (auto split: if_split_asm)

lemma newest_Some:
  "newest qs = Some q \<Longrightarrow> q \<in> set qs \<and> (\<forall>r \<in> set qs. qr_created_at r < qr_created_at q
     \<or> qr_created_at r = qr_created_at q \<and> qr_id r \<le> qr_id q)"
proof (induction qs arbitrary: q)
  case (Cons a qs)
  show ?case
  proof (cases "newest qs")
    case None
    then have "qs = []" by (simp add: newest_None)
    with Cons.prems show ?thesis by simp
  next
    case (Some r)
    from Cons.IH [OF Some] Cons.prems Some show ?thesis by (auto split: if_splits)
  qed
qed simp

lemma oldest_None: "oldest qs = None \<longleftrightarrow> qs = []"
  by (cases qs; cases "oldest (tl qs)") (auto split: if_split_asm)

lemma oldest_Some:
  "oldest qs = Some q \<Longrightarrow> q \<in> set qs \<and> (\<forall>r \<in> set qs. qr_created_at q \<le> qr_created_at r)"
proof (induction qs arbitrary: q)
  case (Cons a qs)
  show ?case
  proof (cases "oldest qs")
    case None
    then have "qs = []" by (simp add: oldest_None)
    with Cons.prems show ?thesis by simp
  next
    case (Some r)
    from Cons.IH [OF Some] Cons.prems Some show ?thesis by (auto split: if_splits)
  qed
qed simp

definition in_flight :: "uuid \<Rightarrow> chat_db \<Rightarrow> bool" where
  "in_flight s db \<longleftrightarrow> (\<exists>c \<in> set (db_queue db). qr_session c = s \<and> qr_status c = QClaimed)"

lemma claimable_exists:
  assumes "q \<in> set (db_queue db)" "qr_status q = QPending" "\<not> in_flight (qr_session q) db"
  shows "\<exists>r \<in> set (db_queue db). claimable db r \<and> qr_session r = qr_session q"
proof -
  let ?ps = "filter (\<lambda>r. qr_session r = qr_session q \<and> qr_status r = QPending) (db_queue db)"
  have "?ps \<noteq> []" using assms by (auto simp: filter_empty_conv)
  then obtain n where n: "newest ?ps = Some n" using newest_None [of ?ps] by (cases "newest ?ps") auto
  with newest_Some [OF n] assms(3) show ?thesis
    by (intro bexI [of _ n]) (auto simp: claimable_def in_flight_def list_ex_iff)
qed

lemma claimed_row:
  assumes "claim_next now db = (Some turn, db')"
  obtains q where "q \<in> set (db_queue db)" "claimable db q"
    "\<forall>r \<in> set (db_queue db). claimable db r \<longrightarrow> qr_created_at q \<le> qr_created_at r"
    "turn = \<lparr>ct_queue_id = qr_id q, ct_session = qr_session q, ct_user_message = qr_user_message q,
             ct_user = qr_user q, ct_attempts = qr_attempts q + 1, ct_params = qr_params q\<rparr>"
    "db' = update_queue (\<lambda>r. qr_id r = qr_id q)
       (\<lambda>r. r\<lparr>qr_status := QClaimed, qr_claimed_at := Some now, qr_attempts := qr_attempts r + 1\<rparr>) db"
proof -
  from assms obtain q where q: "oldest (filter (claimable db) (db_queue db)) = Some q"
    by (auto simp: claim_next_def split: option.splits)
  from oldest_Some [OF q] assms q that show thesis by (auto simp: claim_next_def)
qed

end
