(* ===== verification/Chat_Queue_Safe.thy ===== *)
theory Chat_Queue_Safe
  imports Chat_Queue_Laws
begin

text \<open>
  The protocol keeps its invariant: every step of \<open>chat_step\<close> (requests, stream handlers,
  workers, replies, ghosting, settling, deaths, reapers) is checked against \<open>sys_ok\<close>, and the
  interpretation of \<open>guarded_system\<close> lifts it to every reachable state.
\<close>

section \<open>Drives\<close>

lemma holds_map:
  assumes "holds db d q" "db_queue db' = map u (db_queue db)" "u q = q"
  shows "holds db' d q"
proof -
  have "u q \<in> set (map u (db_queue db))" using assms(1) by (simp add: holds_def)
  with assms show ?thesis by (simp add: holds_def)
qed

lemma holds_append: "holds db d q \<Longrightarrow> db_queue db' = db_queue db @ qs \<Longrightarrow> holds db' d q"
  by (auto simp: holds_def)

lemma sys_ok_frame:
  assumes ok: "sys_ok cfg s" and db: "db_ok cfg (sys_now s) db'"
    and sub: "set ds \<subseteq> set (sys_drives s)" "distinct (map (\<lambda>d. ct_queue_id (dr_turn d)) ds)"
    and keep: "\<And>d q. d \<in> set ds \<Longrightarrow> holds (sys_db s) d q \<Longrightarrow> holds db' d q"
  shows "sys_ok cfg (s\<lparr>sys_db := db', sys_drives := ds\<rparr>)"
  using assms unfolding sys_ok_def by (simp add: subset_iff) blast

lemma remove_drive_distinct:
  "distinct (map f ds) \<Longrightarrow> distinct (map f (remove_drive d ds))"
  by (simp add: remove_drive_def distinct_map_filter)

lemma remove_drive_other:
  assumes "distinct (map f ds)" "d \<in> set ds" "e \<in> set (remove_drive d ds)"
  shows "e \<in> set ds" "f e \<noteq> f d"
  using assms by (auto simp: remove_drive_def distinct_map inj_on_def)

lemma same_id_same_row:
  "db_ok cfg now db \<Longrightarrow> q \<in> set (db_queue db) \<Longrightarrow> r \<in> set (db_queue db) \<Longrightarrow> qr_id q = qr_id r \<Longrightarrow> q = r"
  by (simp add: db_ok_def distinct_map inj_on_def)

lemma sys_ok_new_drive:
  assumes ok: "sys_ok cfg s" and db: "db_ok cfg (sys_now s) db'" and cfg: "config_ok cfg"
    and keep: "\<And>d q. d \<in> set (sys_drives s) \<Longrightarrow> holds (sys_db s) d q
       \<Longrightarrow> holds db' d q \<and> qr_id q \<noteq> ct_queue_id turn"
    and new: "\<exists>q. holds db' \<lparr>dr_turn = turn, dr_started = sys_now s, dr_mode = mode\<rparr> q"
  shows "sys_ok cfg (s\<lparr>sys_db := db', sys_drives := sys_drives s @
    [\<lparr>dr_turn = turn, dr_started = sys_now s, dr_mode = mode\<rparr>]\<rparr>)"
proof -
  have old: "ct_queue_id (dr_turn d) \<noteq> ct_queue_id turn \<and> (\<exists>q. holds db' d q)"
    if d: "d \<in> set (sys_drives s)" for d
  proof -
    from ok d obtain q where q: "holds (sys_db s) d q" by (auto simp: sys_ok_def)
    with keep [OF d q] show ?thesis by (auto simp: holds_def)
  qed
  then have "ct_queue_id turn \<notin> (\<lambda>d. ct_queue_id (dr_turn d)) ` set (sys_drives s)" by force
  moreover have "0 \<le> reap_after cfg" using cfg by (simp add: config_ok_def reap_after_def)
  ultimately show ?thesis
    using ok db old new unfolding sys_ok_def by simp
qed

section \<open>Steps\<close>

lemma step_claim:
  assumes ok: "sys_ok cfg s" and cfg: "config_ok cfg"
    and c: "claim_next (sys_now s) (sys_db s) = (Some turn, db')"
  shows "sys_ok cfg (s\<lparr>sys_db := db', sys_drives := sys_drives s @
    [\<lparr>dr_turn = turn, dr_started = sys_now s, dr_mode = Ladder\<rparr>]\<rparr>)"
proof -
  let ?f = "\<lambda>r. r\<lparr>qr_status := QClaimed, qr_claimed_at := Some (sys_now s), qr_attempts := qr_attempts r + 1\<rparr>"
  from claimed_row [OF c] obtain q where q: "q \<in> set (db_queue (sys_db s))" "claimable (sys_db s) q"
    and turn: "turn = \<lparr>ct_queue_id = qr_id q, ct_session = qr_session q, ct_user_message = qr_user_message q,
             ct_user = qr_user q, ct_attempts = qr_attempts q + 1, ct_params = qr_params q\<rparr>"
    and db': "db' = update_queue (\<lambda>r. qr_id r = qr_id q) ?f (sys_db s)" by blast
  have dbok: "db_ok cfg (sys_now s) (sys_db s)" using ok by (simp add: sys_ok_def)
  note same = same_id_same_row [OF dbok]
  have pend: "qr_status q = QPending" using q(2) by (simp add: claimable_def)
  have "db_ok cfg (sys_now s) db'"
    unfolding db'
  proof (rule db_ok_update [OF dbok])
    fix r assume "r \<in> set (db_queue (sys_db s))" "qr_id r = qr_id q"
    then have "r = q" using same q by blast
    with pend db_ok_rows [OF dbok q(1)]
    show "fields_ok cfg (sys_now s) (?f r) \<and> (qr_status (?f r) = QFailed) = (qr_status r = QFailed)"
      by (simp add: fields_ok_def)
  qed (simp add: keeps_keys_def)
  then show ?thesis
  proof (rule sys_ok_new_drive [OF ok _ cfg])
    fix d r assume "d \<in> set (sys_drives s)" and h: "holds (sys_db s) d r"
    then have ne: "qr_id r \<noteq> qr_id q" using same [of r q] q pend by (auto simp: holds_def)
    with holds_map [OF h, of db' "\<lambda>r. if qr_id r = qr_id q then ?f r else r"]
    show "holds db' d r \<and> qr_id r \<noteq> ct_queue_id turn" by (simp add: db' queue_simps turn)
  next
    have "?f q \<in> set (db_queue db')" using q by (force simp: db' queue_simps)
    then show "\<exists>r. holds db' \<lparr>dr_turn = turn, dr_started = sys_now s, dr_mode = Ladder\<rparr> r"
      by (intro exI [of _ "?f q"]) (simp add: holds_def turn)
  qed
qed

lemma step_settle:
  assumes ok: "sys_ok cfg s" and d: "d \<in> set (sys_drives s)"
  shows "sys_ok cfg (s\<lparr>sys_db := settle_turn cfg (sys_now s) mid (dr_turn d) outcome (dr_mode d) (sys_db s),
    sys_drives := remove_drive d (sys_drives s)\<rparr>)"
proof -
  have dbok: "db_ok cfg (sys_now s) (sys_db s)"
    and dist: "distinct (map (\<lambda>d. ct_queue_id (dr_turn d)) (sys_drives s))"
    using ok by (simp_all add: sys_ok_def)
  from ok d obtain q where q: "holds (sys_db s) d q" by (auto simp: sys_ok_def)
  have s: "db_ok cfg (sys_now s) (settle_turn cfg (sys_now s) mid (dr_turn d) outcome (dr_mode d) (sys_db s))"
    "only_row (ct_queue_id (dr_turn d)) (sys_db s)
      (settle_turn cfg (sys_now s) mid (dr_turn d) outcome (dr_mode d) (sys_db s))"
    by (rule settle_turn_ok [OF dbok, where q = q]; use q in \<open>simp add: holds_def\<close>)+
  show ?thesis
  proof (rule sys_ok_frame [OF ok s(1) _ remove_drive_distinct [OF dist]])
    show "set (remove_drive d (sys_drives s)) \<subseteq> set (sys_drives s)" by (auto simp: remove_drive_def)
    fix e r assume e: "e \<in> set (remove_drive d (sys_drives s))" and h: "holds (sys_db s) e r"
    have "qr_id r \<noteq> ct_queue_id (dr_turn d)"
      using remove_drive_other(2) [OF dist d e] h by (simp add: holds_def)
    with s(2) holds_map [OF h]
    show "holds (settle_turn cfg (sys_now s) mid (dr_turn d) outcome (dr_mode d) (sys_db s)) e r"
      unfolding only_row_def by blast
  qed
qed

lemma step_reap:
  assumes ok: "sys_ok cfg s"
    and r: "reap_stale (sys_now s) ids (reap_after cfg) (cq_max_attempts cfg) content (sys_db s) = Inr (reaped, db')"
  shows "sys_ok cfg (s\<lparr>sys_db := db'\<rparr>)"
proof -
  have dbok: "db_ok cfg (sys_now s) (sys_db s)"
    and dist: "distinct (map (\<lambda>d. ct_queue_id (dr_turn d)) (sys_drives s))"
    using ok by (simp_all add: sys_ok_def)
  note rs = reap_stale_ok [OF dbok r]
  have "sys_ok cfg (s\<lparr>sys_db := db', sys_drives := sys_drives s\<rparr>)"
  proof (rule sys_ok_frame [OF ok rs(1) subset_refl dist])
    fix d q assume d: "d \<in> set (sys_drives s)" and h: "holds (sys_db s) d q"
    have "\<not> stale_claim (sys_now s) (reap_after cfg) q"
      using ok d h by (auto simp: sys_ok_def holds_def stale_claim_def)
    with rs(2) holds_map [OF h] show "holds db' d q" by blast
  qed
  then show ?thesis by simp
qed

lemma step_append:
  assumes ok: "sys_ok cfg s" and db: "db_ok cfg (sys_now s) db'"
    and q: "db_queue db' = db_queue (sys_db s) @ qs"
  shows "sys_ok cfg (s\<lparr>sys_db := db'\<rparr>)"
proof -
  have dist: "distinct (map (\<lambda>d. ct_queue_id (dr_turn d)) (sys_drives s))"
    using ok by (simp add: sys_ok_def)
  have "sys_ok cfg (s\<lparr>sys_db := db', sys_drives := sys_drives s\<rparr>)"
    by (rule sys_ok_frame [OF ok db subset_refl dist]) (rule holds_append [OF _ q])
  then show ?thesis by simp
qed

lemma step_enqueue:
  assumes ok: "sys_ok cfg s" and cfg: "config_ok cfg"
    and e: "enqueue_user_message (sys_now s) mid qid session content cid RUser meta user params cap (sys_db s)
      = Inr (outcome, db')"
  shows "sys_ok cfg (s\<lparr>sys_db := db'\<rparr>)"
proof -
  have dbok: "db_ok cfg (sys_now s) (sys_db s)" using ok by (simp add: sys_ok_def)
  from enqueue_cases [OF e] show ?thesis
  proof (elim disjE exE conjE)
    fix q assume q: "enqueued mid (sys_db s) db' q" "qr_status q = QPending" "qr_attempts q = 0" "qr_claimed_at q = None"
    have "db_ok cfg (sys_now s) db'"
      by (rule db_ok_enqueued [OF dbok q(1)]) (use q cfg in \<open>simp_all add: fields_ok_def config_ok_def\<close>)
    then show ?thesis using q(1) by (auto simp: enqueued_def intro: step_append [OF ok])
  next
    assume "db' = sys_db s"
    with ok show ?thesis by simp
  qed
qed

lemma step_enqueue_stream:
  assumes ok: "sys_ok cfg s" and cfg: "config_ok cfg"
    and e: "enqueue_user_message_claimed (sys_now s) mid qid session content cid RUser meta user params (sys_db s)
      = Inr (EnqClaimed m q, db')"
  shows "sys_ok cfg (s\<lparr>sys_db := db', sys_drives := sys_drives s @
          [\<lparr>dr_turn = \<lparr>ct_queue_id = q, ct_session = session, ct_user_message = m, ct_user = user,
                      ct_attempts = 1, ct_params = Some params\<rparr>,
            dr_started = sys_now s, dr_mode = TerminalOnFailure\<rparr>]\<rparr>)"
proof -
  have dbok: "db_ok cfg (sys_now s) (sys_db s)" using ok by (simp add: sys_ok_def)
  from enqueue_claimed_cases [OF e] obtain r where r: "enqueued mid (sys_db s) db' r" "qr_id r = qid"
    "qr_status r = QClaimed" "qr_attempts r = 1" "qr_claimed_at r = Some (sys_now s)" and mq: "m = mid" "q = qid"
    by blast
  have "db_ok cfg (sys_now s) db'"
    by (rule db_ok_enqueued [OF dbok r(1)]) (use r cfg in \<open>simp_all add: fields_ok_def config_ok_def\<close>)
  then show ?thesis
  proof (rule sys_ok_new_drive [OF ok _ cfg])
    fix d x assume "d \<in> set (sys_drives s)" and h: "holds (sys_db s) d x"
    then have "qr_id x \<in> qr_id ` set (db_queue (sys_db s))" unfolding holds_def by blast
    with r(1,2) mq holds_append [OF h] show "holds db' d x \<and> qr_id x \<noteq> ct_queue_id
        \<lparr>ct_queue_id = q, ct_session = session, ct_user_message = m, ct_user = user, ct_attempts = 1,
         ct_params = Some params\<rparr>"
      by (auto simp: enqueued_def)
  qed (use r mq in \<open>intro exI [of _ r], simp add: holds_def enqueued_def\<close>)
qed

lemma sys_ok_step:
  assumes cfg: "config_ok cfg" and step: "chat_step cfg s t" and ok: "sys_ok cfg s"
  shows "sys_ok cfg t"
  using step
proof (cases rule: chat_step.cases)
  case (tick u)
  with ok db_ok_later show ?thesis by (auto simp: sys_ok_def)
next
  case (reply d m db)
  have old: "db_ok cfg (sys_now s) (sys_db s)" using ok by (simp add: sys_ok_def)
  note i = insert_message_InrD [OF reply(5)]
  have "db_ok cfg (sys_now s) db" by (rule db_ok_append [OF old, of db m]) (use i reply in auto)
  with reply(1) i step_append [OF ok, of db "[]"] show ?thesis by simp
next
  case (ghost d)
  have "db_ok cfg (sys_now s) (sys_db s)" using ok by (simp add: sys_ok_def)
  from step_append [OF ok db_ok_ghost [OF this], where qs = "[]"] ghost show ?thesis
    by (simp add: mark_user_message_ghosted_def)
next
  case (crash d)
  have "sys_ok cfg (s\<lparr>sys_db := sys_db s, sys_drives := remove_drive d (sys_drives s)\<rparr>)"
    by (rule sys_ok_frame [OF ok]) (use ok in \<open>auto simp: sys_ok_def remove_drive_distinct, auto simp: remove_drive_def\<close>)
  with crash show ?thesis by simp
next
  case enqueue
  with step_enqueue [OF ok cfg] show ?thesis by blast
next
  case enqueue_stream
  with step_enqueue_stream [OF ok cfg] show ?thesis by blast
next
  case claim
  with step_claim [OF ok cfg] show ?thesis by blast
next
  case settle
  with step_settle [OF ok] show ?thesis by blast
next
  case reap
  with step_reap [OF ok] show ?thesis by blast
qed

lemma sys_ok_init: "chat_init s \<Longrightarrow> sys_ok cfg s"
  by (auto simp: sys_ok_def db_ok_def elim!: chat_initE)

interpretation chat: guarded_system chat_init "chat_step cfg" "\<lambda>s. config_ok cfg \<longrightarrow> sys_ok cfg s" for cfg
  by unfold_locales (auto intro: sys_ok_init sys_ok_step)

end
