(* ===== verification/Chat_Queue_Props.thy ===== *)
theory Chat_Queue_Props
  imports Chat_Queue_Safe
begin

text \<open>
  The properties of the chat queue: its safety over every interleaving, which turn a claim
  takes, idempotent and bounded enqueueing, one turn per session in a drain, recovery of dead
  claims, and the one place where a reaped turn is treated differently from a settled one.
\<close>

section \<open>The configuration\<close>

lemma at_least_1_ge: "1 \<le> dflt \<Longrightarrow> 1 \<le> at_least_1 v dflt"
  by (simp add: at_least_1_def split: option.split)

lemma config_secs_pos: "1 \<le> dflt \<Longrightarrow> 0 < config_secs raw dflt"
  using at_least_1_ge [of dflt "Option.bind raw (\<lambda>v. map_option int (parse_usize v))"]
  by (simp add: config_secs_def)

lemma parsed_config_ok: "config_ok (parse_chat_queue_config a b c d e f g)"
  by (simp add: config_ok_def parse_chat_queue_config_def at_least_1_ge config_secs_pos)

section \<open>Safety\<close>

definition all_ok :: "chat_queue_config \<Rightarrow> chat_system \<Rightarrow> bool" where
  "all_ok cfg s \<longleftrightarrow>
     (\<forall>q \<in> set (db_queue (sys_db s)). 0 \<le> qr_attempts q \<and> qr_attempts q \<le> cq_max_attempts cfg
        \<and> notices (qr_user_message q) (db_messages (sys_db s)) = (if qr_status q = QFailed then 1 else 0))
     \<and> (\<forall>m \<in> set (db_messages (sys_db s)). cm_role m = RUser \<longrightarrow>
          length (filter (\<lambda>q. qr_user_message q = cm_id m) (db_queue (sys_db s))) = 1)
     \<and> distinct (map (\<lambda>d. ct_queue_id (dr_turn d)) (sys_drives s))
     \<and> (\<forall>d \<in> set (sys_drives s). \<exists>q \<in> set (db_queue (sys_db s)).
          qr_id q = ct_queue_id (dr_turn d) \<and> qr_status q = QClaimed)"

lemma sys_ok_all_ok: "sys_ok cfg s \<Longrightarrow> all_ok cfg s"
proof -
  assume ok: "sys_ok cfg s"
  then have db: "db_ok cfg (sys_now s) (sys_db s)" by (simp add: sys_ok_def)
  have "length (filter (\<lambda>q. qr_user_message q = cm_id m) (db_queue (sys_db s))) = 1"
    if m: "m \<in> set (db_messages (sys_db s))" "cm_role m = RUser" for m
  proof -
    from db m obtain q where q: "q \<in> set (db_queue (sys_db s))" "qr_user_message q = cm_id m"
      by (auto simp: db_ok_def driven_by_def)
    have "distinct (map qr_user_message (db_queue (sys_db s)))" using db by (simp add: db_ok_def)
    from count_distinct [OF this q(1), of "\<lambda>_. True"] q(2) show ?thesis by simp
  qed
  then show ?thesis
    using ok db_ok_rows [OF db] unfolding all_ok_def sys_ok_def holds_def fields_ok_def by blast
qed

text \<open>C2: Safety of the chat queue, over every interleaving of requests, stream handlers, workers,
  replies, deaths and reapers, under any configuration the environment can produce: a turn has
  exactly one failure notice when it is failed and none otherwise, its attempts stay within the
  limit, every user message has exactly one queue row, and no turn is driven by two drives at a
  time, each drive holding a claimed row.\<close>

theorem chat_queue_safe:
  assumes "reach chat_init (chat_step (parse_chat_queue_config a b c d e f g)) s"
  shows "all_ok (parse_chat_queue_config a b c d e f g) s"
  using chat.inv_reach [OF assms] sys_ok_all_ok parsed_config_ok by blast

definition wit_start :: chat_system where
  "wit_start = \<lparr>sys_now = 0, sys_db = \<lparr>db_messages = [], db_queue = [], db_sessions = [1 \<mapsto> 0]\<rparr>, sys_drives = []\<rparr>"

definition wit_turn :: claimed_turn where
  "wit_turn = \<lparr>ct_queue_id = 20, ct_session = 1, ct_user_message = 10, ct_user = 5, ct_attempts = 1,
     ct_params = Some JNull\<rparr>"

definition wit_db :: "queue_status \<Rightarrow> chat_db" where
  "wit_db st = \<lparr>db_messages = [\<lparr>cm_id = 10, cm_session = 1, cm_role = RUser, cm_content = str ''hi'',
       cm_client_msg_id = Some (str ''a''), cm_metadata = None, cm_ghost = False,
       cm_user_message_id = None, cm_sent_at = 0\<rparr>],
     db_queue = [\<lparr>qr_id = 20, qr_session = 1, qr_user_message = 10, qr_user = 5, qr_status = st,
       qr_attempts = (if st = QPending then 0 else 1), qr_claimed_at = (if st = QPending then None else Some 0),
       qr_last_error = None, qr_params = Some JNull, qr_created_at = 0\<rparr>],
     db_sessions = [1 \<mapsto> 0]\<rparr>"

lemma wit_enqueue:
  "enqueue_user_message 0 10 20 1 (str ''hi'') (str ''a'') RUser None 5 JNull 20 (sys_db wit_start)
     = Inr (Queued 10 20, wit_db QPending)"
  by (simp add: enqueue_user_message_def upsert_user_message_in_tx_def bind_r_def insert_message_def
      wit_start_def wit_db_def message_ids_def touch_session_def insert_queue_row_def pending_depth_def)

lemma wit_claim: "claim_next 0 (wit_db QPending) = (Some wit_turn, wit_db QClaimed)"
  by (simp add: claim_next_def wit_db_def claimable_def update_queue_def wit_turn_def)

abbreviation wit_cfg :: chat_queue_config where
  "wit_cfg \<equiv> parse_chat_queue_config None None None None None None None"

lemma wit_reach: "reach chat_init (chat_step wit_cfg)
  (wit_start\<lparr>sys_db := wit_db QClaimed,
     sys_drives := [\<lparr>dr_turn = wit_turn, dr_started = 0, dr_mode = Ladder\<rparr>]\<rparr>)"
proof -
  have 0: "reach chat_init (chat_step wit_cfg) wit_start"
    by (rule reach_init) (simp add: wit_start_def chat_init.intros)
  have now: "sys_now wit_start = 0" "sys_drives wit_start = []" by (simp_all add: wit_start_def)
  have cap: "cq_pending_cap wit_cfg = 20" by (simp add: parse_chat_queue_config_def at_least_1_def)
  have "chat_step wit_cfg wit_start (wit_start\<lparr>sys_db := wit_db QPending\<rparr>)"
    by (rule chat_step.enqueue [where s = wit_start and cfg = wit_cfg, unfolded now cap, OF wit_enqueue])
  from reach_step [OF 0 this]
  have 1: "reach chat_init (chat_step wit_cfg) (wit_start\<lparr>sys_db := wit_db QPending\<rparr>)" .
  show ?thesis
    by (rule reach_step [OF 1])
      (use chat_step.claim [where s = "wit_start\<lparr>sys_db := wit_db QPending\<rparr>" and cfg = wit_cfg] wit_claim
        in \<open>simp add: now\<close>)
qed

theorem chat_queue_safe_witness:
  "all_ok wit_cfg (wit_start\<lparr>sys_db := wit_db QClaimed,
     sys_drives := [\<lparr>dr_turn = wit_turn, dr_started = 0, dr_mode = Ladder\<rparr>]\<rparr>)"
  by (rule chat_queue_safe [OF wit_reach])

section \<open>Claiming\<close>

text \<open>What a claim returns: nothing when every waiting turn's session is being answered, else the
  newest waiting turn of a free session, the one that has waited longest among those.\<close>

definition claim_spec :: "instant \<Rightarrow> chat_db \<Rightarrow> claimed_turn option \<Rightarrow> chat_db \<Rightarrow> bool" where
  "claim_spec now db claimed db' \<longleftrightarrow> (case claimed of
     None \<Rightarrow> db' = db \<and> (\<forall>q \<in> set (db_queue db). qr_status q = QPending \<longrightarrow> in_flight (qr_session q) db)
   | Some t \<Rightarrow> \<exists>q \<in> set (db_queue db).
       ct_queue_id t = qr_id q \<and> ct_session t = qr_session q \<and> ct_user_message t = qr_user_message q
       \<and> ct_attempts t = qr_attempts q + 1 \<and> qr_status q = QPending \<and> \<not> in_flight (qr_session q) db
       \<and> (\<forall>r \<in> set (db_queue db). qr_status r = QPending \<and> qr_session r = qr_session q
            \<longrightarrow> qr_created_at r \<le> qr_created_at q)
       \<and> (\<forall>r \<in> set (db_queue db). claimable db r \<longrightarrow> qr_created_at q \<le> qr_created_at r)
       \<and> db_messages db' = db_messages db
       \<and> db_queue db' = map (\<lambda>r. if r = q
            then r\<lparr>qr_status := QClaimed, qr_claimed_at := Some now, qr_attempts := qr_attempts r + 1\<rparr>
            else r) (db_queue db))"

lemma distinct_row:
  "distinct (map qr_id qs) \<Longrightarrow> q \<in> set qs \<Longrightarrow> r \<in> set qs \<Longrightarrow> qr_id r = qr_id q \<longleftrightarrow> r = q"
  unfolding distinct_map inj_on_def by blast

lemma claimable_newest:
  assumes d: "distinct (map qr_id (db_queue db))" and q: "q \<in> set (db_queue db)" "claimable db q"
    and r: "r \<in> set (db_queue db)" "qr_status r = QPending" "qr_session r = qr_session q"
  shows "qr_created_at r \<le> qr_created_at q"
proof -
  let ?ps = "filter (\<lambda>r. qr_session r = qr_session q \<and> qr_status r = QPending) (db_queue db)"
  from q(2) obtain n where n: "newest ?ps = Some n" "qr_id n = qr_id q"
    by (auto simp: claimable_def)
  have "n = q" using newest_Some [OF n(1)] n(2) distinct_row [OF d q(1), of n] by simp
  with newest_Some [OF n(1)] r show ?thesis by force
qed

lemma claimable_free: "claimable db q \<Longrightarrow> qr_status q = QPending \<and> \<not> in_flight (qr_session q) db"
  by (auto simp: claimable_def in_flight_def list_ex_iff)

lemma claim_next_spec:
  assumes d: "distinct (map qr_id (db_queue db))"
  shows "claim_spec now db (fst (claim_next now db)) (snd (claim_next now db))"
proof (cases "claim_next now db")
  case (Pair claimed db')
  show ?thesis
  proof (cases claimed)
    case None
    with Pair have "filter (claimable db) (db_queue db) = []" "db' = db"
      by (auto simp: claim_next_def oldest_None split: option.splits)
    then show ?thesis
      using claimable_exists [of _ db] None Pair by (auto simp: claim_spec_def filter_empty_conv)
  next
    case (Some t)
    with Pair have c: "claim_next now db = (Some t, db')" by simp
    from claimed_row [OF c] obtain q where q: "q \<in> set (db_queue db)" "claimable db q"
      "\<forall>r \<in> set (db_queue db). claimable db r \<longrightarrow> qr_created_at q \<le> qr_created_at r"
      and t: "t = \<lparr>ct_queue_id = qr_id q, ct_session = qr_session q, ct_user_message = qr_user_message q,
             ct_user = qr_user q, ct_attempts = qr_attempts q + 1, ct_params = qr_params q\<rparr>"
      and db': "db' = update_queue (\<lambda>r. qr_id r = qr_id q)
       (\<lambda>r. r\<lparr>qr_status := QClaimed, qr_claimed_at := Some now, qr_attempts := qr_attempts r + 1\<rparr>) db"
      by blast
    have m: "db_queue db' = map (\<lambda>r. if r = q
            then r\<lparr>qr_status := QClaimed, qr_claimed_at := Some now, qr_attempts := qr_attempts r + 1\<rparr>
            else r) (db_queue db)"
      unfolding db' queue_simps by (rule map_cong [OF refl]) (simp only: distinct_row [OF d q(1)])
    have "claim_spec now db (Some t) db'"
      unfolding claim_spec_def option.case
    proof (intro bexI [OF _ q(1)] conjI)
      show "\<forall>r \<in> set (db_queue db). qr_status r = QPending \<and> qr_session r = qr_session q
            \<longrightarrow> qr_created_at r \<le> qr_created_at q"
        using claimable_newest [OF d q(1,2)] by blast
    qed (use m q(3) claimable_free [OF q(2)] in \<open>simp_all add: t db' queue_simps\<close>)
    with Some Pair show ?thesis by simp
  qed
qed

text \<open>A claim takes exactly the right turn: it returns nothing only when every waiting turn
  belongs to a session with a turn in flight; otherwise it returns the newest waiting turn of a
  session nobody is answering, the longest waiting one among the claimable turns, stamps that row
  with the attempt and the time, and changes no other row.\<close>

theorem claim_next_exact:
  assumes d: "distinct (map qr_id (db_queue db))"
  shows "claim_spec now db (fst (claim_next now db)) (snd (claim_next now db))"
  by (rule claim_next_spec [OF d])

theorem claim_next_exact_witness:
  "claim_spec 7 (wit_db QPending) (fst (claim_next 7 (wit_db QPending))) (snd (claim_next 7 (wit_db QPending)))
   \<and> fst (claim_next 7 (wit_db QPending)) = Some wit_turn"
  using claim_next_exact [of "wit_db QPending" 7]
  by (simp add: wit_db_def claim_next_def claimable_def wit_turn_def)

subsection \<open>A drain\<close>

lemma in_flight_claim:
  assumes d: "distinct (map qr_id (db_queue db))" and c: "claim_next now db = (Some t, db')"
  shows "in_flight s db' \<longleftrightarrow> in_flight s db \<or> s = ct_session t" "\<not> in_flight (ct_session t) db"
    "map qr_id (db_queue db') = map qr_id (db_queue db)"
proof -
  from claim_next_spec [OF d, of now] c obtain q where q: "q \<in> set (db_queue db)"
    "ct_session t = qr_session q" "\<not> in_flight (qr_session q) db"
    and db': "db_queue db' = map (\<lambda>r. if r = q
            then r\<lparr>qr_status := QClaimed, qr_claimed_at := Some now, qr_attempts := qr_attempts r + 1\<rparr>
            else r) (db_queue db)"
    by (auto simp: claim_spec_def)
  show "\<not> in_flight (ct_session t) db" using q by simp
  show "in_flight s db' \<longleftrightarrow> in_flight s db \<or> s = ct_session t"
    using q unfolding in_flight_def db' set_map by auto
  show "map qr_id (db_queue db') = map qr_id (db_queue db)" by (simp add: db')
qed

lemma claim_all_sessions:
  assumes "distinct (map qr_id (db_queue db))" "claim_all permits now db = (turns, db')"
  shows "distinct (map ct_session turns) \<and> length turns \<le> permits
    \<and> (\<forall>t \<in> set turns. \<not> in_flight (ct_session t) db)
    \<and> (\<forall>s. in_flight s db' \<longleftrightarrow> in_flight s db \<or> s \<in> ct_session ` set turns)"
  using assms
proof (induction permits now db arbitrary: turns db' rule: claim_all.induct)
  case (2 permits now db)
  show ?case
  proof (cases "fst (claim_next now db)")
    case None
    with claim_next_spec [OF "2.prems"(1), of now] "2.prems"(2) show ?thesis
      by (auto simp: claim_spec_def split: prod.splits)
  next
    case (Some t)
    then obtain db1 where c: "claim_next now db = (Some t, db1)" by (cases "claim_next now db") auto
    note f = in_flight_claim [OF "2.prems"(1) c]
    obtain ts where ts: "claim_all permits now db1 = (ts, db')" "turns = t # ts"
      using "2.prems"(2) c by (auto split: prod.splits)
    have d1: "distinct (map qr_id (db_queue db1))" using "2.prems"(1) f(3) by simp
    from "2.IH" [OF c [symmetric] refl d1 ts(1)] f(1,2) show ?thesis by (auto simp: ts(2))
  qed
qed auto

text \<open>One drain pass claims at most as many turns as it has permits, never two turns of one
  session, and no turn of a session that already had a turn in flight, wherever the claim came
  from; the sessions in flight afterwards are those and the ones it claimed.\<close>

theorem drain_keeps_sessions_apart:
  assumes "distinct (map qr_id (db_queue db))" "claim_all permits now db = (turns, db')"
  shows "distinct (map ct_session turns) \<and> length turns \<le> permits
    \<and> (\<forall>t \<in> set turns. \<not> in_flight (ct_session t) db)
    \<and> (\<forall>s. in_flight s db' \<longleftrightarrow> in_flight s db \<or> s \<in> ct_session ` set turns)"
  by (rule claim_all_sessions [OF assms])

theorem drain_keeps_sessions_apart_witness:
  "distinct (map ct_session (fst (claim_all 3 0 (wit_db QPending))))
   \<and> fst (claim_all 3 0 (wit_db QPending)) = [wit_turn]"
proof -
  have c: "claim_all 3 0 (wit_db QPending) = ([wit_turn], wit_db QClaimed)"
    by (simp add: numeral_3_eq_3 wit_claim, simp add: wit_db_def claim_next_def claimable_def)
  have "distinct (map qr_id (db_queue (wit_db QPending)))" by (simp add: wit_db_def)
  from drain_keeps_sessions_apart [OF this c] c show ?thesis by simp
qed

section \<open>Enqueueing\<close>

lemma find_append_None: "List.find P (xs @ ys) = (case List.find P xs of None \<Rightarrow> List.find P ys | Some x \<Rightarrow> Some x)"
  by (induction xs) auto

lemma replay_chain_empty:
  "\<forall>n \<in> set (db_messages db). \<not> (cm_user_message_id n = Some mid \<and> cm_role n = RAssistant)
    \<Longrightarrow> replay_chain mid db = []"
  by (simp add: replay_chain_def filter_empty_conv)

lemma pending_depth_append:
  "db_queue db' = db_queue db @ [q] \<Longrightarrow> qr_session q = s \<Longrightarrow> pending_depth s db' \<le> pending_depth s db + 1"
  by (simp add: pending_depth_def)

text \<open>Enqueueing is idempotent on the client's message id and bounded. When a request queues a
  turn, the session has at most the configured number of unsettled turns, and every later request
  with the same client message id, whatever else it carries, answers that the turn is already
  queued and changes nothing.\<close>

theorem enqueue_idempotent_bounded:
  assumes e: "enqueue_user_message now mid qid session content cid RUser meta user params cap db
      = Inr (Queued m q, db')"
    and fresh: "\<forall>n \<in> set (db_messages db). cm_user_message_id n \<noteq> Some mid"
  shows "m = mid \<and> pending_depth session db' \<le> cap
    \<and> enqueue_user_message now2 mid2 qid2 session content2 cid RUser meta2 user2 params2 cap2 db'
        = Inr (AlreadyQueued mid, db')"
proof -
  from e obtain o1 tx where u: "upsert_user_message_in_tx now mid session content cid RUser meta db = Inr (o1, tx)"
    by (auto simp: enqueue_user_message_def bind_r_Inr)
  from enqueue_cases [OF e] obtain r where r: "m = mid" "enqueued mid db db' r" "qr_status r = QPending"
    "qr_session r = session" "pending_depth session db < cap"
    by auto
  have depth: "pending_depth session db' \<le> cap"
    using pending_depth_append [of db' db r session] r by (simp add: enqueued_def)
  obtain x where tx: "db_messages tx = db_messages db @ [x]" "cm_id x = mid" "cm_role x = RUser"
    "cm_session x = session" "cm_client_msg_id x = Some cid" "\<not> cm_ghost x" "o1 = Inserted mid" "db_queue tx = db_queue db"
    using upsert_cases [OF u] e u
    by (auto simp: enqueue_user_message_def bind_r_def split: if_splits)
  with e u obtain y where y: "insert_queue_row y tx = Inr db'" "qr_user_message y = mid" "qr_status y = QPending"
    by (auto simp: enqueue_user_message_def bind_r_Inr bind_r_def split: sum.splits if_splits)
  note ins = insert_queue_row_InrD [OF y(1)]
  have none: "List.find (\<lambda>m. cm_session m = session \<and> cm_client_msg_id m = Some cid \<and> cm_role m = RUser)
      (db_messages db) = None"
    using u tx(7) by (auto simp: upsert_user_message_in_tx_def Let_def split: option.splits if_splits)
  have "List.find (\<lambda>m. cm_session m = session \<and> cm_client_msg_id m = Some cid \<and> cm_role m = RUser)
      (db_messages db') = Some x"
    using ins tx none by (simp add: find_append_None)
  moreover have "replay_chain mid db' = []"
    by (rule replay_chain_empty) (use ins tx fresh in auto)
  moreover have "queue_status_of mid db' = Some QPending"
  proof -
    have "List.find (\<lambda>q. qr_user_message q = mid) (db_queue tx) = None"
      using ins y(2) unfolding find_None_iff by (metis image_eqI)
    then show ?thesis using ins y by (simp add: queue_status_of_def find_append_None)
  qed
  ultimately have "enqueue_user_message now2 mid2 qid2 session content2 cid RUser meta2 user2 params2 cap2 db'
        = Inr (AlreadyQueued mid, db')"
    using tx by (simp add: enqueue_user_message_def upsert_user_message_in_tx_def bind_r_def)
  with r(1) depth show ?thesis by blast
qed

theorem enqueue_idempotent_bounded_witness:
  "pending_depth 1 (wit_db QPending) \<le> 20
   \<and> enqueue_user_message 9 11 21 1 (str ''other'') (str ''a'') RUser None 6 JNull 20 (wit_db QPending)
       = Inr (AlreadyQueued 10, wit_db QPending)"
  using enqueue_idempotent_bounded [OF wit_enqueue, of 9 11 21 "str ''other''" None 6 JNull 20]
  by (simp add: wit_start_def)

section \<open>Recovery\<close>

text \<open>The transaction of the reaper as one update: what it does to a row, and the notices it adds.\<close>

definition reaped_row :: "instant \<Rightarrow> int \<Rightarrow> int \<Rightarrow> queue_row \<Rightarrow> queue_row" where
  "reaped_row now stale max_attempts q =
     (if \<not> stale_claim now stale q then q
      else if max_attempts \<le> qr_attempts q then q\<lparr>qr_status := QFailed, qr_last_error := Some STALE_ERROR\<rparr>
      else q\<lparr>qr_status := QPending, qr_claimed_at := None, qr_last_error := Some STALE_ERROR\<rparr>)"

lemma insert_notices_total:
  assumes "distinct ids" "set ids \<inter> message_ids db = {}" "length qs \<le> length ids"
    "\<forall>q \<in> set qs. db_sessions db (qr_session q) \<noteq> None \<and> qr_user_message q \<in> message_ids db"
  shows "\<exists>db'. insert_notices now ids content qs db = Inr db'
    \<and> db_messages db' = db_messages db @ map2 (\<lambda>i q. notice now i content (qr_session q) (qr_user_message q)) ids qs"
  using assms
proof (induction now ids content qs db rule: insert_notices.induct)
  case (3 now i ids content q qs db)
  let ?n = "notice now i content (qr_session q) (qr_user_message q)"
  have i: "insert_message ?n db = Inr (db\<lparr>db_messages := db_messages db @ [?n]\<rparr>)"
    using "3.prems" by (auto simp: insert_message_def notice_def)
  have ids: "message_ids (db\<lparr>db_messages := db_messages db @ [?n]\<rparr>) = insert i (message_ids db)"
    by (simp add: message_ids_def notice_def)
  have "\<exists>db'. insert_notices now ids content qs (db\<lparr>db_messages := db_messages db @ [?n]\<rparr>) = Inr db'
    \<and> db_messages db' = db_messages (db\<lparr>db_messages := db_messages db @ [?n]\<rparr>)
        @ map2 (\<lambda>i q. notice now i content (qr_session q) (qr_user_message q)) ids qs"
    by (rule "3.IH") (use "3.prems" in \<open>auto simp: ids\<close>)
  with i show ?case by (auto simp: bind_r_def)
qed auto

lemma reap_stale_runs:
  assumes "distinct ids" "set ids \<inter> message_ids db = {}" "length (db_queue db) \<le> length ids"
    "\<forall>q \<in> set (db_queue db). db_sessions db (qr_session q) \<noteq> None \<and> qr_user_message q \<in> message_ids db"
  shows "\<exists>reaped db'. reap_stale now ids stale max_attempts content db = Inr (reaped, db')
    \<and> db_queue db' = map (reaped_row now stale max_attempts) (db_queue db)
    \<and> db_messages db' = db_messages db @ map2 (\<lambda>i q. notice now i content (qr_session q) (qr_user_message q)) ids
        (filter (\<lambda>q. stale_claim now stale q \<and> max_attempts \<le> qr_attempts q) (db_queue db))"
proof -
  let ?P = "\<lambda>q. stale_claim now stale q \<and> max_attempts \<le> qr_attempts q"
  let ?db1 = "update_queue ?P (\<lambda>q. q\<lparr>qr_status := QFailed, qr_last_error := Some STALE_ERROR\<rparr>) db"
  have m: "message_ids ?db1 = message_ids db" by (simp add: message_ids_def queue_simps)
  have "length (filter ?P (db_queue db)) \<le> length ids"
    by (rule order_trans [OF length_filter_le assms(3)])
  then have "\<exists>tx. insert_notices now ids content (filter ?P (db_queue db)) ?db1 = Inr tx
    \<and> db_messages tx = db_messages ?db1 @ map2 (\<lambda>i q. notice now i content (qr_session q) (qr_user_message q)) ids
        (filter ?P (db_queue db))"
    by (intro insert_notices_total) (use assms m in \<open>auto simp: queue_simps\<close>)
  then obtain tx where tx: "insert_notices now ids content (filter ?P (db_queue db)) ?db1 = Inr tx"
    "db_messages tx = db_messages db @ map2 (\<lambda>i q. notice now i content (qr_session q) (qr_user_message q)) ids
        (filter ?P (db_queue db))"
    by (auto simp: queue_simps)
  have q: "db_queue tx = map (\<lambda>q. if ?P q then q\<lparr>qr_status := QFailed, qr_last_error := Some STALE_ERROR\<rparr> else q)
      (db_queue db)"
    using insert_notices_InrD [OF tx(1)] by (simp add: queue_simps)
  show ?thesis
    using tx by (auto simp: reap_stale_def Let_def bind_r_def queue_simps q reaped_row_def stale_claim_def)
qed

text \<open>The reaper recovers every dead claim in one transaction. Given unused ids for its notices
  and the schema's references, it always succeeds; afterwards no claim is older than the
  threshold, a dead claim with attempts left waits again with its attempts kept, an exhausted one
  is failed and its notice appended in the same transaction, and no other row changes.\<close>

theorem reap_recovers:
  assumes "distinct ids" "set ids \<inter> message_ids db = {}" "length (db_queue db) \<le> length ids"
    "\<forall>q \<in> set (db_queue db). db_sessions db (qr_session q) \<noteq> None \<and> qr_user_message q \<in> message_ids db"
  shows "\<exists>reaped db'. reap_stale now ids stale max_attempts content db = Inr (reaped, db')
    \<and> db_queue db' = map (reaped_row now stale max_attempts) (db_queue db)
    \<and> (\<forall>q \<in> set (db_queue db'). \<not> stale_claim now stale q)
    \<and> db_messages db' = db_messages db @ map2 (\<lambda>i q. notice now i content (qr_session q) (qr_user_message q)) ids
        (filter (\<lambda>q. stale_claim now stale q \<and> max_attempts \<le> qr_attempts q) (db_queue db))"
proof -
  have "\<not> stale_claim now stale (reaped_row now stale max_attempts q)" for q
    by (simp add: reaped_row_def stale_claim_def)
  with reap_stale_runs [OF assms, of now stale max_attempts content] show ?thesis by fastforce
qed

theorem reap_recovers_witness:
  "\<exists>reaped db'. reap_stale (10 ^ 12) [30] 5 3 FAILURE_NOTICE (wit_db QClaimed) = Inr (reaped, db')
    \<and> map qr_status (db_queue db') = [QPending] \<and> map qr_attempts (db_queue db') = [1]
    \<and> db_messages db' = db_messages (wit_db QClaimed)"
  using reap_recovers [of "[30]" "wit_db QClaimed" "10 ^ 12" 5 3 FAILURE_NOTICE]
  by (auto simp: wit_db_def message_ids_def reaped_row_def stale_claim_def)

lemma notices_Cons:
  "notices mid (m # ms)
     = (if cm_role m = RSystemError \<and> cm_user_message_id m = Some mid then 1 else 0) + notices mid ms"
  by (simp add: notices_def)

lemma notices_map2:
  assumes "q \<in> set qs" "length qs \<le> length ids"
  shows "0 < notices (qr_user_message q) (map2 (\<lambda>i q. notice now i content (qr_session q) (qr_user_message q)) ids qs)"
  using assms
proof (induction qs arbitrary: ids)
  case (Cons a qs)
  from Cons.prems(2) obtain i js where ids: "ids = i # js" by (cases ids) auto
  show ?case
  proof (cases "q = a")
    case False
    with Cons ids have "0 < notices (qr_user_message q)
      (map2 (\<lambda>i q. notice now i content (qr_session q) (qr_user_message q)) js qs)" by simp
    then show ?thesis by (simp add: ids notices_Cons)
  qed (simp add: ids notices_Cons notice_def)
qed simp

text \<open>C23: The reaper does not look whether the dead claim's turn was already answered. A turn whose
  reply was stored before its worker died, with its attempts exhausted, is failed and gets a
  failure notice next to its reply; settling the very same turn as a failure would have marked it
  done without a notice.\<close>

theorem reaper_fails_served_turn:
  assumes ids: "distinct ids" "set ids \<inter> message_ids db = {}" "length (db_queue db) \<le> length ids"
    "\<forall>q \<in> set (db_queue db). db_sessions db (qr_session q) \<noteq> None \<and> qr_user_message q \<in> message_ids db"
    and q: "q \<in> set (db_queue db)" "stale_claim now stale q" "cq_max_attempts cfg \<le> qr_attempts q"
    and served: "turn_already_served (qr_user_message q) db"
    and t: "ct_queue_id t = qr_id q" "ct_user_message t = qr_user_message q" "ct_attempts t = qr_attempts q"
  shows "(\<exists>reaped db'. reap_stale now ids stale (cq_max_attempts cfg) FAILURE_NOTICE db = Inr (reaped, db')
      \<and> q\<lparr>qr_status := QFailed, qr_last_error := Some STALE_ERROR\<rparr> \<in> set (db_queue db')
      \<and> notices (qr_user_message q) (db_messages db) < notices (qr_user_message q) (db_messages db'))
    \<and> settle_turn cfg now i t (TurnFailure msg) mode db = mark_done (qr_id q) db"
proof
  let ?F = "filter (\<lambda>q. stale_claim now stale q \<and> cq_max_attempts cfg \<le> qr_attempts q) (db_queue db)"
  from reap_stale_runs [OF ids, of now stale "cq_max_attempts cfg" FAILURE_NOTICE] obtain reaped db' where
    r: "reap_stale now ids stale (cq_max_attempts cfg) FAILURE_NOTICE db = Inr (reaped, db')"
    "db_queue db' = map (reaped_row now stale (cq_max_attempts cfg)) (db_queue db)"
    "db_messages db' = db_messages db
      @ map2 (\<lambda>i q. notice now i FAILURE_NOTICE (qr_session q) (qr_user_message q)) ids ?F"
    by blast
  have "reaped_row now stale (cq_max_attempts cfg) q \<in> set (db_queue db')"
    unfolding r(2) using q(1) by simp
  moreover have "0 < notices (qr_user_message q)
      (map2 (\<lambda>i q. notice now i FAILURE_NOTICE (qr_session q) (qr_user_message q)) ids ?F)"
    by (rule notices_map2) (use q ids(3) in \<open>auto intro: order_trans [OF length_filter_le]\<close>)
  ultimately show "\<exists>reaped db'. reap_stale now ids stale (cq_max_attempts cfg) FAILURE_NOTICE db = Inr (reaped, db')
      \<and> q\<lparr>qr_status := QFailed, qr_last_error := Some STALE_ERROR\<rparr> \<in> set (db_queue db')
      \<and> notices (qr_user_message q) (db_messages db) < notices (qr_user_message q) (db_messages db')"
    using r q(2,3) by (intro exI [of _ reaped] exI [of _ db']) (simp add: reaped_row_def notices_append)
  show "settle_turn cfg now i t (TurnFailure msg) mode db = mark_done (qr_id q) db"
    using q served t by (simp add: settle_turn_def Let_def)
qed

definition wit_served :: chat_db where
  "wit_served = \<lparr>db_messages = db_messages (wit_db QClaimed) @
      [\<lparr>cm_id = 11, cm_session = 1, cm_role = RAssistant, cm_content = str ''hello'', cm_client_msg_id = None,
        cm_metadata = None, cm_ghost = False, cm_user_message_id = Some 10, cm_sent_at = 1\<rparr>],
     db_queue = map (\<lambda>q. q\<lparr>qr_attempts := 3\<rparr>) (db_queue (wit_db QClaimed)), db_sessions = [1 \<mapsto> 0]\<rparr>"

theorem reaper_fails_served_turn_witness:
  "turn_already_served 10 wit_served
   \<and> (\<exists>reaped db'. reap_stale 100 [30] 5 3 FAILURE_NOTICE wit_served = Inr (reaped, db')
        \<and> (\<exists>q \<in> set (db_queue db'). qr_status q = QFailed)
        \<and> notices 10 (db_messages db') > 0)
   \<and> settle_turn wit_cfg 100 30 (wit_turn\<lparr>ct_attempts := 3\<rparr>) (TurnFailure (str ''timeout'')) Ladder wit_served
       = mark_done 20 wit_served"
proof -
  let ?q = "(hd (db_queue wit_served))"
  have m: "cq_max_attempts wit_cfg = 3" by (simp add: parse_chat_queue_config_def at_least_1_def)
  have s: "turn_already_served 10 wit_served"
    by (simp add: turn_already_served_def wit_served_def wit_db_def)
  have q: "qr_id ?q = 20" "qr_user_message ?q = 10" by (simp_all add: wit_served_def wit_db_def)
  have "(\<exists>reaped db'. reap_stale 100 [30] 5 (cq_max_attempts wit_cfg) FAILURE_NOTICE wit_served = Inr (reaped, db')
      \<and> ?q\<lparr>qr_status := QFailed, qr_last_error := Some STALE_ERROR\<rparr> \<in> set (db_queue db')
      \<and> notices (qr_user_message ?q) (db_messages wit_served) < notices (qr_user_message ?q) (db_messages db'))
    \<and> settle_turn wit_cfg 100 30 (wit_turn\<lparr>ct_attempts := 3\<rparr>) (TurnFailure (str ''timeout'')) Ladder wit_served
       = mark_done (qr_id ?q) wit_served"
    by (rule reaper_fails_served_turn)
      (use s in \<open>simp_all add: m, simp_all add: wit_served_def wit_db_def message_ids_def stale_claim_def wit_turn_def\<close>)
  then have w: "(\<exists>reaped db'. reap_stale 100 [30] 5 3 FAILURE_NOTICE wit_served = Inr (reaped, db')
      \<and> ?q\<lparr>qr_status := QFailed, qr_last_error := Some STALE_ERROR\<rparr> \<in> set (db_queue db')
      \<and> notices 10 (db_messages wit_served) < notices 10 (db_messages db'))
    \<and> settle_turn wit_cfg 100 30 (wit_turn\<lparr>ct_attempts := 3\<rparr>) (TurnFailure (str ''timeout'')) Ladder wit_served
       = mark_done 20 wit_served"
    by (simp only: m q)
  then obtain reaped db' where a: "reap_stale 100 [30] 5 3 FAILURE_NOTICE wit_served = Inr (reaped, db')"
      "?q\<lparr>qr_status := QFailed, qr_last_error := Some STALE_ERROR\<rparr> \<in> set (db_queue db')"
      "notices 10 (db_messages wit_served) < notices 10 (db_messages db')"
    by blast
  have "\<exists>q \<in> set (db_queue db'). qr_status q = QFailed" by (rule bexI [OF _ a(2)]) simp
  moreover have "0 < notices 10 (db_messages db')" using a(3) by linarith
  ultimately show ?thesis using s w a(1) by blast
qed

end
