(* ===== verification/Scan_State.thy ===== *)
theory Scan_State
  imports Chat_Store
begin

text \<open>
  The bookkeeping of the relationship scanner
  (\<open>crates/eros-engine-store/src/scan_state.rs\<close>): one row per persona instance with the
  message cursor, the count of user turns behind it, the scan claim and the episode counters.
  A table is the list of its rows, keyed by the instance; each method is one statement.
  \<open>now()\<close> is an argument and a duration is a count of nanoseconds, read in whole seconds
  where the code does.
\<close>

section \<open>Chat rows\<close>

text \<open>A chat message joined with the session it belongs to.\<close>

record chat_row =
  cr_id :: uuid
  cr_session :: uuid
  cr_instance :: "uuid option"
  cr_archived :: bool
  cr_session_channel :: rstr
  cr_classified_at :: "instant option"
  cr_role :: role
  cr_channel :: "rstr option"
  cr_content :: rstr
  cr_metadata :: json
  cr_sent_at :: instant

text \<open>\<open>ORDER BY sent_at, id\<close>.\<close>

definition chat_order :: "chat_row list \<Rightarrow> chat_row list" where
  "chat_order rows = sort_key cr_sent_at (sort_key cr_id rows)"

text \<open>What the scanner counts as said between the two: rows of live text and voice sessions.\<close>

definition said :: "uuid \<Rightarrow> bool \<Rightarrow> chat_row \<Rightarrow> bool" where
  "said i voice r \<longleftrightarrow> cr_instance r = Some i \<and> \<not> cr_archived r
     \<and> (cr_session_channel r = str ''text'' \<or> cr_session_channel r = str ''voice'')
     \<and> (voice \<or> cr_session_channel r = str ''text'')
     \<and> (cr_role r = RUser \<or> cr_role r = RAssistant)
     \<and> (cr_channel r = None \<or> cr_channel r = Some (str ''voice''))"

section \<open>State rows\<close>

definition SCAN_K :: int where "SCAN_K = 20"
definition FLUSH_MIN_TURNS :: int where "FLUSH_MIN_TURNS = 3"
definition MAX_SCAN_FAILURES :: int where "MAX_SCAN_FAILURES = 3"
definition MAX_ARC_FAILURES :: int where "MAX_ARC_FAILURES = 3"

record scan_state =
  ss_instance :: uuid
  ss_scanned_through :: instant
  ss_live_from :: instant
  ss_pending :: int
  ss_last_turn :: "instant option"
  ss_last_scanned :: "instant option"
  ss_failures :: int
  ss_claimed :: "instant option"
  ss_timezone :: "rstr option"
  ss_episodes :: int
  ss_arc_failures :: int
  ss_backfilled :: "instant option"

definition load :: "uuid \<Rightarrow> scan_state list \<Rightarrow> scan_state option" where
  "load i rows = List.find (\<lambda>s. ss_instance s = i) rows"

text \<open>\<open>UPDATE ... WHERE instance_id = i AND P RETURNING ...\<close>: the rows hit, before and after.\<close>

definition hits :: "uuid \<Rightarrow> (scan_state \<Rightarrow> bool) \<Rightarrow> scan_state list \<Rightarrow> bool" where
  "hits i P rows = list_ex (\<lambda>s. ss_instance s = i \<and> P s) rows"

definition upd :: "uuid \<Rightarrow> (scan_state \<Rightarrow> bool) \<Rightarrow> (scan_state \<Rightarrow> scan_state) \<Rightarrow> scan_state list \<Rightarrow> scan_state list" where
  "upd i P f rows = map (\<lambda>s. if ss_instance s = i \<and> P s then f s else s) rows"

definition whole_secs :: "int \<Rightarrow> int" where
  "whole_secs d = d div 10 ^ 9 * 10 ^ 9"

definition unclaimed :: "instant \<Rightarrow> int \<Rightarrow> scan_state \<Rightarrow> bool" where
  "unclaimed now stale s \<longleftrightarrow> (case ss_claimed s of None \<Rightarrow> True | Some t \<Rightarrow> t < now - whole_secs stale)"

record bumped =
  bu_pending :: int
  bu_created :: bool

definition max_opt :: "instant list \<Rightarrow> instant option" where
  "max_opt ts = (case ts of [] \<Rightarrow> None | t # ts \<Rightarrow> Some (fold max ts t))"

definition bump :: "instant \<Rightarrow> chat_row list \<Rightarrow> uuid \<Rightarrow> instant \<Rightarrow> rstr option \<Rightarrow> scan_state list
    \<Rightarrow> bumped \<times> scan_state list" where
  "bump now messages i user_row_sent_at tz rows =
     (case load i rows of
        None \<Rightarrow>
          (let from = (case max_opt (map cr_sent_at (filter (\<lambda>m. cr_instance m = Some i
                              \<and> cr_sent_at m < user_row_sent_at) messages)) of
                       Some t \<Rightarrow> t | None \<Rightarrow> user_row_sent_at - 1000)
           in (\<lparr>bu_pending = 1, bu_created = True\<rparr>,
               rows @ [\<lparr>ss_instance = i, ss_scanned_through = from, ss_live_from = from, ss_pending = 1,
                  ss_last_turn = Some now, ss_last_scanned = None, ss_failures = 0, ss_claimed = None,
                  ss_timezone = tz, ss_episodes = 0, ss_arc_failures = 0, ss_backfilled = None\<rparr>]))
      | Some s \<Rightarrow> (\<lparr>bu_pending = ss_pending s + 1, bu_created = False\<rparr>,
          upd i (\<lambda>_. True) (\<lambda>s. s\<lparr>ss_pending := ss_pending s + 1, ss_last_turn := Some now,
             ss_timezone := (case tz of Some z \<Rightarrow> Some z | None \<Rightarrow> ss_timezone s)\<rparr>) rows))"

section \<open>Claims\<close>

definition claim :: "instant \<Rightarrow> uuid \<Rightarrow> int \<Rightarrow> int \<Rightarrow> scan_state list \<Rightarrow> bool \<times> scan_state list" where
  "claim now i stale min_pending rows =
     (let P = (\<lambda>s. min_pending \<le> ss_pending s \<and> unclaimed now stale s)
      in (hits i P rows, upd i P (\<lambda>s. s\<lparr>ss_claimed := Some now\<rparr>) rows))"

definition due :: "instant \<Rightarrow> int \<Rightarrow> int \<Rightarrow> scan_state \<Rightarrow> bool" where
  "due now idle stale s \<longleftrightarrow> FLUSH_MIN_TURNS \<le> ss_pending s
     \<and> (case ss_last_turn s of None \<Rightarrow> False | Some t \<Rightarrow> t < now - whole_secs idle)
     \<and> unclaimed now stale s"

definition claim_due :: "instant \<Rightarrow> int \<Rightarrow> int \<Rightarrow> nat \<Rightarrow> scan_state list \<Rightarrow> uuid list \<times> scan_state list" where
  "claim_due now idle stale limit rows =
     (let ids = map ss_instance (take limit (sort_key (\<lambda>s. case ss_last_turn s of Some t \<Rightarrow> t | None \<Rightarrow> 0)
                  (filter (due now idle stale) rows)))
      in (ids, map (\<lambda>s. if ss_instance s \<in> set ids then s\<lparr>ss_claimed := Some now\<rparr> else s) rows))"

definition has_claim :: "scan_state \<Rightarrow> bool" where
  "has_claim s \<longleftrightarrow> ss_claimed s \<noteq> None"

definition refresh_claim :: "instant \<Rightarrow> uuid \<Rightarrow> scan_state list \<Rightarrow> bool \<times> scan_state list" where
  "refresh_claim now i rows =
     (hits i has_claim rows, upd i has_claim (\<lambda>s. s\<lparr>ss_claimed := Some now\<rparr>) rows)"

definition claim_for_backfill :: "instant \<Rightarrow> uuid \<Rightarrow> int \<Rightarrow> scan_state list \<Rightarrow> bool \<times> scan_state list" where
  "claim_for_backfill now i stale rows =
     (hits i (unclaimed now stale) rows, upd i (unclaimed now stale) (\<lambda>s. s\<lparr>ss_claimed := Some now\<rparr>) rows)"

definition release_claim :: "uuid \<Rightarrow> scan_state list \<Rightarrow> scan_state list" where
  "release_claim i rows = upd i (\<lambda>_. True) (\<lambda>s. s\<lparr>ss_claimed := None\<rparr>) rows"

section \<open>Settling\<close>

definition finish_scan_ok :: "instant \<Rightarrow> uuid \<Rightarrow> instant \<Rightarrow> int \<Rightarrow> scan_state list \<Rightarrow> bool \<times> scan_state list" where
  "finish_scan_ok now i cursor_to covered rows =
     (hits i has_claim rows,
      upd i has_claim (\<lambda>s. s\<lparr>ss_scanned_through := max (ss_scanned_through s) cursor_to,
        ss_pending := max (ss_pending s - covered) 0, ss_last_scanned := Some now,
        ss_failures := 0, ss_claimed := None\<rparr>) rows)"

definition finish_scan_failed :: "instant \<Rightarrow> uuid \<Rightarrow> instant \<Rightarrow> int \<Rightarrow> scan_state list \<Rightarrow> scan_state list" where
  "finish_scan_failed now i cursor_to covered rows =
     upd i has_claim (\<lambda>s.
       if MAX_SCAN_FAILURES \<le> ss_failures s + 1
       then s\<lparr>ss_scanned_through := max (ss_scanned_through s) cursor_to,
              ss_pending := max (ss_pending s - covered) 0, ss_last_scanned := Some now,
              ss_failures := 0, ss_claimed := None\<rparr>
       else s\<lparr>ss_last_turn := Some now, ss_failures := ss_failures s + 1, ss_claimed := None\<rparr>) rows"

definition set_backfilled_through :: "uuid \<Rightarrow> instant \<Rightarrow> scan_state list \<Rightarrow> bool \<times> scan_state list" where
  "set_backfilled_through i t rows =
     (hits i has_claim rows, upd i has_claim (\<lambda>s. s\<lparr>ss_backfilled := Some t\<rparr>) rows)"

definition ensure_for_backfill :: "chat_row list \<Rightarrow> uuid \<Rightarrow> scan_state list \<Rightarrow> bool \<times> scan_state list" where
  "ensure_for_backfill messages i rows =
     (case max_opt (map cr_sent_at (filter (said i True) messages)) of
        None \<Rightarrow> (False, rows)
      | Some newest_at \<Rightarrow>
          (case load i rows of
             Some _ \<Rightarrow> (False, rows)
           | None \<Rightarrow> (True, rows @ [\<lparr>ss_instance = i, ss_scanned_through = newest_at, ss_live_from = newest_at,
                ss_pending = 0, ss_last_turn = None, ss_last_scanned = None, ss_failures = 0,
                ss_claimed = None, ss_timezone = None, ss_episodes = 0, ss_arc_failures = 0,
                ss_backfilled = None\<rparr>])))"

section \<open>Episode and arc counters\<close>

definition bump_episodes :: "uuid \<Rightarrow> scan_state list \<Rightarrow> int \<times> scan_state list" where
  "bump_episodes i rows =
     ((case load i rows of Some s \<Rightarrow> ss_episodes s + 1 | None \<Rightarrow> 0),
      upd i (\<lambda>_. True) (\<lambda>s. s\<lparr>ss_episodes := ss_episodes s + 1\<rparr>) rows)"

definition reserve_fold :: "uuid \<Rightarrow> scan_state list \<Rightarrow> scan_state list" where
  "reserve_fold i rows = upd i (\<lambda>_. True) (\<lambda>s. s\<lparr>ss_episodes := 0\<rparr>) rows"

definition fold_episodes :: "uuid \<Rightarrow> scan_state list \<Rightarrow> scan_state list" where
  "fold_episodes i rows = upd i (\<lambda>_. True) (\<lambda>s. s\<lparr>ss_episodes := 0, ss_arc_failures := 0\<rparr>) rows"

definition struck_out :: "scan_state \<Rightarrow> scan_state" where
  "struck_out s =
     (if MAX_ARC_FAILURES \<le> ss_arc_failures s + 1 then s\<lparr>ss_episodes := 0, ss_arc_failures := 0\<rparr>
      else s\<lparr>ss_arc_failures := ss_arc_failures s + 1\<rparr>)"

definition arc_failed :: "uuid \<Rightarrow> scan_state list \<Rightarrow> int \<times> scan_state list" where
  "arc_failed i rows =
     ((case load i rows of
         Some s \<Rightarrow> if ss_arc_failures (struck_out s) = 0 then MAX_ARC_FAILURES
                   else ss_arc_failures (struck_out s)
       | None \<Rightarrow> 0),
      upd i (\<lambda>_. True) struck_out rows)"

section \<open>The stretches scans read\<close>

definition read_segment :: "chat_row list \<Rightarrow> uuid \<Rightarrow> instant \<Rightarrow> instant \<Rightarrow> bool \<Rightarrow> nat \<Rightarrow> chat_row list" where
  "read_segment messages i after bound voice limit =
     take limit (chat_order (filter (\<lambda>m. said i voice m \<and> after < cr_sent_at m \<and> cr_sent_at m \<le> bound) messages))"

record backfill_row =
  br_sent_at :: instant
  br_assistant :: bool
  br_unextracted :: bool

definition to_backfill_row :: "chat_row \<Rightarrow> backfill_row" where
  "to_backfill_row m = \<lparr>br_sent_at = cr_sent_at m, br_assistant = (cr_role m = RAssistant),
     br_unextracted = (case cr_classified_at m of None \<Rightarrow> True | Some t \<Rightarrow> t < cr_sent_at m)\<rparr>"

definition in_backfill_window :: "scan_state option \<Rightarrow> chat_row \<Rightarrow> bool" where
  "in_backfill_window st m \<longleftrightarrow>
     (case Option.bind st ss_backfilled of Some t \<Rightarrow> t < cr_sent_at m | None \<Rightarrow> True)
     \<and> (case st of Some s \<Rightarrow> cr_sent_at m \<le> ss_live_from s | None \<Rightarrow> True)"

definition backfill_window :: "chat_row list \<Rightarrow> uuid \<Rightarrow> bool \<Rightarrow> scan_state list \<Rightarrow> backfill_row list" where
  "backfill_window messages i voice rows = map to_backfill_row
     (chat_order (filter (\<lambda>m. said i voice m \<and> in_backfill_window (load i rows) m) messages))"

end
