(* ===== verification/Scan_Laws.thy ===== *)
theory Scan_Laws
  imports Scan_State
begin

text \<open>
  What the scanner's bookkeeping guarantees over any sequence of its statements: counters stay
  in range, the live cursor never moves back nor behind the point live scanning started from,
  and a relationship is claimed by one worker at a time.
\<close>

section \<open>Frame facts\<close>

definition row_ok :: "instant \<Rightarrow> scan_state \<Rightarrow> bool" where
  "row_ok now s \<longleftrightarrow> ss_live_from s \<le> ss_scanned_through s \<and> 0 \<le> ss_pending s \<and> 0 \<le> ss_episodes s
     \<and> 0 \<le> ss_failures s \<and> ss_failures s < MAX_SCAN_FAILURES
     \<and> 0 \<le> ss_arc_failures s \<and> ss_arc_failures s < MAX_ARC_FAILURES
     \<and> (\<forall>t. ss_claimed s = Some t \<longrightarrow> t \<le> now)"

definition rows_ok :: "instant \<Rightarrow> scan_state list \<Rightarrow> bool" where
  "rows_ok now rows \<longleftrightarrow> distinct (map ss_instance rows) \<and> (\<forall>s \<in> set rows. row_ok now s)"

text \<open>What every statement but an erasure keeps of a row.\<close>

definition row_le :: "scan_state \<Rightarrow> scan_state \<Rightarrow> bool" where
  "row_le s t \<longleftrightarrow> ss_instance t = ss_instance s \<and> ss_live_from t = ss_live_from s
     \<and> ss_scanned_through s \<le> ss_scanned_through t"

definition rows_le :: "scan_state list \<Rightarrow> scan_state list \<Rightarrow> bool" where
  "rows_le rows rows' \<longleftrightarrow> (\<forall>s \<in> set rows. \<exists>t \<in> set rows'. row_le s t)"

definition row_op :: "instant \<Rightarrow> (scan_state \<Rightarrow> scan_state) \<Rightarrow> bool" where
  "row_op now f \<longleftrightarrow> (\<forall>s. row_le s (f s) \<and> (row_ok now s \<longrightarrow> row_ok now (f s)))"

lemma row_le_refl [simp]: "row_le s s"
  by (simp add: row_le_def)

lemma rows_le_refl: "rows_le rows rows"
  unfolding rows_le_def using row_le_refl by blast

lemma rows_le_trans: "rows_le a b \<Longrightarrow> rows_le b c \<Longrightarrow> rows_le a c"
  unfolding rows_le_def row_le_def by (metis order_trans)

lemma map_row_op:
  assumes f: "row_op now f" and ok: "rows_ok now rows"
  shows "rows_ok now (map (\<lambda>s. if Q s then f s else s) rows)"
    and "rows_le rows (map (\<lambda>s. if Q s then f s else s) rows)"
proof -
  have "map ss_instance (map (\<lambda>s. if Q s then f s else s) rows) = map ss_instance rows"
    using f by (simp add: row_op_def row_le_def)
  moreover have "\<forall>t \<in> set (map (\<lambda>s. if Q s then f s else s) rows). row_ok now t"
    using ok f by (auto simp: rows_ok_def row_op_def)
  ultimately show "rows_ok now (map (\<lambda>s. if Q s then f s else s) rows)"
    using ok unfolding rows_ok_def by (simp only:)
  show "rows_le rows (map (\<lambda>s. if Q s then f s else s) rows)"
    unfolding rows_le_def
  proof
    fix s assume "s \<in> set rows"
    then have "(if Q s then f s else s) \<in> set (map (\<lambda>s. if Q s then f s else s) rows)" by force
    moreover have "row_le s (if Q s then f s else s)" using f by (simp add: row_op_def)
    ultimately show "\<exists>t \<in> set (map (\<lambda>s. if Q s then f s else s) rows). row_le s t" by blast
  qed
qed

lemma upd_row_op:
  assumes "row_op now f" "rows_ok now rows"
  shows "rows_ok now (upd i P f rows)" "rows_le rows (upd i P f rows)"
  using map_row_op [OF assms] by (simp_all add: upd_def)

lemma load_None: "load i rows = None \<longleftrightarrow> i \<notin> ss_instance ` set rows"
  by (auto simp: load_def find_None_iff)

lemma load_Some: "load i rows = Some s \<Longrightarrow> s \<in> set rows \<and> ss_instance s = i"
  unfolding load_def by (drule find_SomeD) simp

lemma new_row:
  assumes "rows_ok now rows" "load (ss_instance s) rows = None" "row_ok now s"
  shows "rows_ok now (rows @ [s])" "rows_le rows (rows @ [s])"
  using assms unfolding rows_ok_def rows_le_def load_None
  by (auto intro: bexI [where P = "row_le t" for t, OF row_le_refl])

section \<open>The statements\<close>

inductive scan_op :: "instant \<times> scan_state list \<Rightarrow> instant \<times> scan_state list \<Rightarrow> bool" where
  tick: "now \<le> t \<Longrightarrow> scan_op (now, rows) (t, rows)"
| bump: "scan_op (now, rows) (now, snd (bump now messages i at_row tz rows))"
| claim: "scan_op (now, rows) (now, snd (claim now i stale min_pending rows))"
| claim_due: "scan_op (now, rows) (now, snd (claim_due now idle stale limit rows))"
| refresh: "scan_op (now, rows) (now, snd (refresh_claim now i rows))"
| backfill: "scan_op (now, rows) (now, snd (claim_for_backfill now i stale rows))"
| release: "scan_op (now, rows) (now, release_claim i rows)"
| finish_ok: "scan_op (now, rows) (now, snd (finish_scan_ok now i cursor_to covered rows))"
| finish_failed: "scan_op (now, rows) (now, finish_scan_failed now i cursor_to covered rows)"
| backfilled: "scan_op (now, rows) (now, snd (set_backfilled_through i t rows))"
| ensure: "scan_op (now, rows) (now, snd (ensure_for_backfill messages i rows))"
| episodes: "scan_op (now, rows) (now, snd (bump_episodes i rows))"
| reserve: "scan_op (now, rows) (now, reserve_fold i rows)"
| folded: "scan_op (now, rows) (now, fold_episodes i rows)"
| arc: "scan_op (now, rows) (now, snd (arc_failed i rows))"

text \<open>Archiving and erasing delete the row.\<close>

inductive scan_step :: "instant \<times> scan_state list \<Rightarrow> instant \<times> scan_state list \<Rightarrow> bool" where
  scan_step_op: "scan_op s t \<Longrightarrow> scan_step s t"
| scan_step_erase: "scan_step (now, rows) (now, filter (\<lambda>s. ss_instance s \<noteq> i) rows)"

inductive scan_init :: "instant \<times> scan_state list \<Rightarrow> bool" where
  scan_init_empty: "scan_init (now, [])"

lemmas row_defs = row_op_def row_ok_def row_le_def MAX_SCAN_FAILURES_def MAX_ARC_FAILURES_def

lemma row_ops:
  "row_op now (\<lambda>s. s\<lparr>ss_claimed := Some now\<rparr>)"
  "row_op now (\<lambda>s. s\<lparr>ss_claimed := None\<rparr>)"
  "row_op now (\<lambda>s. s\<lparr>ss_pending := ss_pending s + 1, ss_last_turn := Some now, ss_timezone := z s\<rparr>)"
  "row_op now (\<lambda>s. s\<lparr>ss_backfilled := Some t\<rparr>)"
  "row_op now (\<lambda>s. s\<lparr>ss_episodes := ss_episodes s + 1\<rparr>)"
  "row_op now (\<lambda>s. s\<lparr>ss_episodes := 0\<rparr>)"
  "row_op now (\<lambda>s. s\<lparr>ss_episodes := 0, ss_arc_failures := 0\<rparr>)"
  "row_op now struck_out"
  "row_op now (\<lambda>s. s\<lparr>ss_scanned_through := max (ss_scanned_through s) cursor_to,
        ss_pending := max (ss_pending s - covered) 0, ss_last_scanned := Some now,
        ss_failures := 0, ss_claimed := None\<rparr>)"
  "row_op now (\<lambda>s. if MAX_SCAN_FAILURES \<le> ss_failures s + 1
       then s\<lparr>ss_scanned_through := max (ss_scanned_through s) cursor_to,
              ss_pending := max (ss_pending s - covered) 0, ss_last_scanned := Some now,
              ss_failures := 0, ss_claimed := None\<rparr>
       else s\<lparr>ss_last_turn := Some now, ss_failures := ss_failures s + 1, ss_claimed := None\<rparr>)"
  by (auto simp: row_defs struck_out_def)

lemma scan_op_ok:
  assumes "scan_op s t" "rows_ok (fst s) (snd s)"
  shows "rows_ok (fst t) (snd t) \<and> rows_le (snd s) (snd t)"
  using assms
proof (cases rule: scan_op.cases)
  case (tick now t' rows)
  with assms(2) show ?thesis by (auto simp: rows_ok_def row_ok_def rows_le_refl)
next
  case (bump now rows messages i at_row tz)
  show ?thesis
  proof (cases "load i rows")
    case None
    with bump assms(2) new_row [of now rows] show ?thesis
      by (simp add: bump_def Let_def row_ok_def MAX_SCAN_FAILURES_def MAX_ARC_FAILURES_def)
  next
    case (Some s)
    with bump assms(2) upd_row_op [OF row_ops(3)] show ?thesis by (simp add: bump_def)
  qed
next
  case (ensure now rows messages i)
  with assms(2) new_row [of now rows] rows_le_refl show ?thesis
    by (auto simp: ensure_for_backfill_def row_ok_def MAX_SCAN_FAILURES_def MAX_ARC_FAILURES_def
        split: option.split)
next
  case (claim_due now rows idle stale limit)
  with assms(2) map_row_op [OF row_ops(1)] show ?thesis by (simp add: claim_due_def Let_def)
qed (use assms(2) upd_row_op [OF row_ops(1)] upd_row_op [OF row_ops(2)] upd_row_op [OF row_ops(4)]
      upd_row_op [OF row_ops(5)] upd_row_op [OF row_ops(6)] upd_row_op [OF row_ops(7)]
      upd_row_op [OF row_ops(8)] upd_row_op [OF row_ops(9)] upd_row_op [OF row_ops(10)]
    in \<open>simp_all add: claim_def Let_def refresh_claim_def claim_for_backfill_def release_claim_def
      finish_scan_ok_def finish_scan_failed_def set_backfilled_through_def bump_episodes_def
      reserve_fold_def fold_episodes_def arc_failed_def\<close>)

interpretation scan: guarded_system scan_init scan_step "\<lambda>s. rows_ok (fst s) (snd s)"
proof
  fix s assume "scan_init s"
  then show "rows_ok (fst s) (snd s)" by cases (simp add: rows_ok_def)
next
  fix s t assume "scan_step s t" and ok: "rows_ok (fst s) (snd s)"
  then show "rows_ok (fst t) (snd t)"
  proof cases
    case scan_step_op
    with ok scan_op_ok show ?thesis by blast
  next
    case scan_step_erase
    with ok show ?thesis by (auto simp: rows_ok_def distinct_map_filter)
  qed
qed

section \<open>Properties\<close>

lemma scan_ops_le: "scan_op\<^sup>*\<^sup>* s t \<Longrightarrow> rows_ok (fst s) (snd s) \<Longrightarrow> rows_ok (fst t) (snd t) \<and> rows_le (snd s) (snd t)"
proof (induction rule: rtranclp_induct)
  case (step t u)
  with scan_op_ok [OF step(2)] rows_le_trans show ?case by blast
qed (simp add: rows_le_refl)

text \<open>Over any interleaving of the scanner's statements, by any number of workers and with
  relationships archived at any moment, every state row keeps its counters in range: the pending
  count and the episode count are never negative, a failure streak never reaches its limit, the
  cursor is never behind the point live scanning started from, a relationship has one row. And
  from there, as long as a relationship is not archived, no sequence of statements moves its
  cursor back or the start of live scanning at all.\<close>

theorem scan_bookkeeping_safe:
  assumes "reach scan_init scan_step s"
  shows "rows_ok (fst s) (snd s) \<and> (\<forall>t. scan_op\<^sup>*\<^sup>* s t \<longrightarrow> rows_ok (fst t) (snd t) \<and> rows_le (snd s) (snd t))"
  using scan.inv_reach [OF assms] scan_ops_le by blast

lemma scan_wit_reach: "reach scan_init scan_step (7, snd (bump 7 [] 1 5 None []))"
  using reach_step [OF reach_init [of scan_init "(7, [])" scan_step] scan_step_op [OF scan_op.bump]]
    scan_init_empty by blast

theorem scan_bookkeeping_safe_witness:
  "rows_ok 7 (snd (bump 7 [] 1 5 None []))
   \<and> rows_le (snd (bump 7 [] 1 5 None [])) (snd (claim 7 1 900 1 (snd (bump 7 [] 1 5 None []))))"
  using scan_bookkeeping_safe [OF scan_wit_reach] scan_op.claim r_into_rtranclp [of scan_op] by fastforce

subsection \<open>Claims\<close>

lemma hits_iff: "hits i P rows \<longleftrightarrow> (\<exists>s \<in> set rows. ss_instance s = i \<and> P s)"
  by (auto simp: hits_def list_ex_iff)

lemma upd_none: "\<not> hits i P rows \<Longrightarrow> upd i P f rows = rows"
  unfolding hits_iff upd_def by (intro map_idI) auto

definition claimed_at :: "instant \<Rightarrow> uuid \<Rightarrow> scan_state list \<Rightarrow> bool" where
  "claimed_at now i rows \<longleftrightarrow> (\<exists>s \<in> set rows. ss_instance s = i \<and> ss_claimed s = Some now)"

lemma claimed_blocks:
  assumes d: "distinct (map ss_instance rows)" and c: "claimed_at now i rows"
    and t: "now' \<le> now + whole_secs stale" and s: "s \<in> set rows" "ss_instance s = i"
  shows "\<not> unclaimed now' stale s"
proof -
  from c obtain r where r: "r \<in> set rows" "ss_instance r = i" "ss_claimed r = Some now"
    by (auto simp: claimed_at_def)
  with d s have "r = s" unfolding distinct_map inj_on_def by blast
  with r t show ?thesis by (simp add: unclaimed_def)
qed

text \<open>A relationship no claiming statement can take.\<close>

definition held :: "instant \<Rightarrow> int \<Rightarrow> uuid \<Rightarrow> scan_state list \<Rightarrow> bool" where
  "held now stale i rows \<longleftrightarrow>
     (\<forall>k. claim now i stale k rows = (False, rows)) \<and> claim_for_backfill now i stale rows = (False, rows)
     \<and> (\<forall>idle limit. i \<notin> set (fst (claim_due now idle stale limit rows)))"

lemma not_unclaimed_held:
  assumes "\<And>s. s \<in> set rows \<Longrightarrow> ss_instance s = i \<Longrightarrow> \<not> unclaimed now stale s"
  shows "held now stale i rows"
proof -
  have h: "\<not> hits i P rows" if "\<And>s. P s \<Longrightarrow> unclaimed now stale s" for P
    using assms that by (auto simp: hits_iff)
  have "i \<notin> set (fst (claim_due now idle stale limit rows))" for idle limit
    using assms by (auto simp: claim_due_def Let_def due_def dest!: in_set_takeD)
  then show ?thesis
    unfolding held_def claim_def claim_for_backfill_def Let_def
    using h [of "\<lambda>s. k \<le> ss_pending s \<and> unclaimed now stale s" for k] h [of "unclaimed now stale"] upd_none
    by simp
qed

lemma taken_held:
  assumes d: "distinct (map ss_instance rows)" and t: "now' \<le> now + whole_secs stale"
    and s: "s \<in> set rows" "ss_instance s = i" "unclaimed now stale s" "Q s"
    and rows': "rows' = map (\<lambda>s. if Q s then s\<lparr>ss_claimed := Some now\<rparr> else s) rows"
  shows "\<not> held now stale i rows \<and> held now' stale i rows'"
proof
  have "hits i (unclaimed now stale) rows" using s by (auto simp: hits_iff)
  then show "\<not> held now stale i rows" by (simp add: held_def claim_for_backfill_def)
  have "map ss_instance rows' = map ss_instance rows" by (simp add: rows')
  with d have d': "distinct (map ss_instance rows')" by (simp only:)
  have "(if Q s then s\<lparr>ss_claimed := Some now\<rparr> else s) \<in> set rows'"
    unfolding rows' set_map using s(1) by (rule imageI)
  then have "claimed_at now i rows'"
    unfolding claimed_at_def using s(2,4) by (intro bexI [of _ "s\<lparr>ss_claimed := Some now\<rparr>"]) simp_all
  with d' t claimed_blocks show "held now' stale i rows'" by (intro not_unclaimed_held) blast
qed

text \<open>One worker per relationship. Whichever statement takes a relationship (the live scanner's
  claim, the sweeper's batch or the backfill), it was not held before, and nobody can take it
  again before the stale window has passed since, even though the sweeper claims a whole batch at
  once.\<close>

theorem scan_claim_exclusive:
  assumes d: "distinct (map ss_instance rows)" and t: "now' \<le> now + whole_secs stale"
    and c: "claim now i stale k rows = (True, rows') \<or> claim_for_backfill now i stale rows = (True, rows')
      \<or> (\<exists>ids. claim_due now idle stale limit rows = (ids, rows') \<and> i \<in> set ids)"
  shows "\<not> held now stale i rows \<and> held now' stale i rows'"
  using c
proof (elim disjE exE conjE)
  let ?P = "\<lambda>s. k \<le> ss_pending s \<and> unclaimed now stale s"
  assume "claim now i stale k rows = (True, rows')"
  then have h: "hits i ?P rows" and r: "rows' = upd i ?P (\<lambda>s. s\<lparr>ss_claimed := Some now\<rparr>) rows"
    by (simp_all add: claim_def Let_def)
  from h obtain s where "s \<in> set rows" "ss_instance s = i" "?P s" by (auto simp: hits_iff)
  then show ?thesis
    by (intro taken_held [OF d t, of s i "\<lambda>s. ss_instance s = i \<and> ?P s"]) (simp_all add: r upd_def)
next
  assume "claim_for_backfill now i stale rows = (True, rows')"
  then have h: "hits i (unclaimed now stale) rows"
    and r: "rows' = upd i (unclaimed now stale) (\<lambda>s. s\<lparr>ss_claimed := Some now\<rparr>) rows"
    by (simp_all add: claim_for_backfill_def)
  from h obtain s where "s \<in> set rows" "ss_instance s = i" "unclaimed now stale s" by (auto simp: hits_iff)
  then show ?thesis
    by (intro taken_held [OF d t, of s i "\<lambda>s. ss_instance s = i \<and> unclaimed now stale s"]) (simp_all add: r upd_def)
next
  fix ids assume cd: "claim_due now idle stale limit rows = (ids, rows')" "i \<in> set ids"
  then obtain s where "s \<in> set rows" "ss_instance s = i" "due now idle stale s"
    by (auto simp: claim_due_def Let_def dest!: in_set_takeD)
  with cd show ?thesis
    by (intro taken_held [OF d t, of s i "\<lambda>s. ss_instance s \<in> set ids"])
      (auto simp: claim_due_def Let_def due_def)
qed

theorem scan_claim_exclusive_witness:
  "\<not> held 9 (900 * 10 ^ 9) 1 (snd (bump 7 [] 1 5 None []))
   \<and> held (10 ^ 9) (900 * 10 ^ 9) 1 (snd (claim 9 1 (900 * 10 ^ 9) 1 (snd (bump 7 [] 1 5 None []))))"
proof -
  let ?rows = "snd (bump 7 [] 1 5 None [])"
  have "distinct (map ss_instance ?rows)" by (simp add: bump_def load_def Let_def max_opt_def)
  moreover have "claim 9 1 (900 * 10 ^ 9) 1 ?rows = (True, snd (claim 9 1 (900 * 10 ^ 9) 1 ?rows))"
    by (simp add: bump_def load_def Let_def max_opt_def claim_def hits_def unclaimed_def)
  ultimately show ?thesis
    by (intro scan_claim_exclusive [of ?rows "10 ^ 9" 9 "900 * 10 ^ 9" 1 1]) (simp_all add: whole_secs_def)
qed

end
