(* ===== verification/Scan_Read.thy ===== *)
theory Scan_Read
  imports Scan_Laws
begin

text \<open>
  How the chat is cut into the stretches the scanner reads: the live scan's read with its tie
  rule (\<open>crates/eros-engine-server/src/pipeline/dreaming/scan.rs\<close>) and the backfill's planned
  segments (\<open>crates/eros-engine-server/src/backfill.rs\<close>), with the proof that both read every
  row once and in order.
\<close>

section \<open>Cutting\<close>

definition MAX_ROWS_PER_SCAN :: nat where
  "MAX_ROWS_PER_SCAN = 60"

definition drop_trailing_tie :: "chat_row list \<Rightarrow> chat_row list" where
  "drop_trailing_tie rows =
     (if rows = [] then rows
      else let kept = rev (dropWhile (\<lambda>r. cr_sent_at r = cr_sent_at (last rows)) (rev rows))
           in if kept = [] then rows else kept)"

text \<open>The rows a live scan works on.\<close>

definition live_rows :: "chat_row list \<Rightarrow> uuid \<Rightarrow> instant \<Rightarrow> instant \<Rightarrow> bool \<Rightarrow> chat_row list" where
  "live_rows messages i after bound voice =
     (let rows = read_segment messages i after bound voice MAX_ROWS_PER_SCAN
      in if length rows = MAX_ROWS_PER_SCAN then drop_trailing_tie rows else rows)"

definition clean :: "backfill_row list \<Rightarrow> nat \<Rightarrow> bool" where
  "clean rows k \<longleftrightarrow> br_sent_at (rows ! (k + 1)) \<noteq> br_sent_at (rows ! k)"

definition cut_after :: "backfill_row list \<Rightarrow> nat \<Rightarrow> nat" where
  "cut_after rows start =
     (let span = rev [start..<start + MAX_ROWS_PER_SCAN]
      in case List.find (\<lambda>k. br_assistant (rows ! k)) (filter (clean rows) span) of
           Some k \<Rightarrow> k + 1
         | None \<Rightarrow> (case List.find (clean rows) span of
                      Some k \<Rightarrow> k + 1 | None \<Rightarrow> start + MAX_ROWS_PER_SCAN))"

lemma cut_after_cases:
  "start < cut_after rows start \<and> cut_after rows start \<le> start + MAX_ROWS_PER_SCAN
   \<and> (clean rows (cut_after rows start - 1)
      \<or> cut_after rows start = start + MAX_ROWS_PER_SCAN
        \<and> (\<forall>k. start \<le> k \<and> k < start + MAX_ROWS_PER_SCAN \<longrightarrow> \<not> clean rows k))"
proof -
  let ?span = "rev [start..<start + MAX_ROWS_PER_SCAN]"
  show ?thesis
  proof (cases "List.find (\<lambda>k. br_assistant (rows ! k)) (filter (clean rows) ?span)")
    case (Some k)
    from find_SomeD [OF Some] Some show ?thesis by (auto simp: cut_after_def)
  next
    case None
    note n = this
    show ?thesis
    proof (cases "List.find (clean rows) ?span")
      case (Some k)
      from find_SomeD [OF Some] Some n show ?thesis by (auto simp: cut_after_def)
    next
      case None
      then have "\<forall>k. start \<le> k \<and> k < start + MAX_ROWS_PER_SCAN \<longrightarrow> \<not> clean rows k"
        by (auto simp: find_None_iff)
      moreover have "cut_after rows start = start + MAX_ROWS_PER_SCAN"
        using n None by (simp add: cut_after_def)
      moreover have "0 < MAX_ROWS_PER_SCAN" by (simp add: MAX_ROWS_PER_SCAN_def)
      ultimately show ?thesis by simp
    qed
  qed
qed

function segments_from :: "backfill_row list \<Rightarrow> nat \<Rightarrow> (nat \<times> nat) list" where
  "segments_from rows start =
     (if start < length rows
      then if length rows - start \<le> MAX_ROWS_PER_SCAN then [(start, length rows)]
           else let stop = cut_after rows start;
                    through = br_sent_at (rows ! (stop - 1))
                in (start, stop) # segments_from rows
                     (stop + length (takeWhile (\<lambda>r. br_sent_at r = through) (drop stop rows)))
      else [])"
  by auto

termination
proof (relation "measure (\<lambda>(rows, start). length rows - start)")
  fix rows start stop through
  assume "start < length rows" "stop = cut_after rows start"
  moreover have "start < cut_after rows start" using cut_after_cases by blast
  ultimately show "((rows, stop + length (takeWhile (\<lambda>r. br_sent_at r = through) (drop stop rows))), rows, start)
      \<in> measure (\<lambda>(rows, start). length rows - start)"
    by (simp add: diff_less_mono2)
qed simp

declare segments_from.simps [simp del]

definition segments :: "backfill_row list \<Rightarrow> (nat \<times> nat) list" where
  "segments rows = segments_from rows 0"

text \<open>The reads of one run of the backfill whose segments all succeed: each starts where the
  segment before it ended.\<close>

fun backfill_reads :: "chat_row list \<Rightarrow> uuid \<Rightarrow> bool \<Rightarrow> backfill_row list \<Rightarrow> instant \<Rightarrow> (nat \<times> nat) list
    \<Rightarrow> chat_row list list" where
  "backfill_reads messages i voice rows after [] = []"
| "backfill_reads messages i voice rows after ((start, stop) # segs) =
     (let bound = br_sent_at (rows ! (stop - 1))
      in read_segment messages i after bound voice MAX_ROWS_PER_SCAN
           # backfill_reads messages i voice rows bound segs)"

section \<open>Sorted reads\<close>

lemma chat_order_sorted: "sorted (map cr_sent_at (chat_order rows))"
  by (simp add: chat_order_def)

lemma chat_order_filter: "filter P (chat_order rows) = chat_order (filter P rows)"
  by (simp add: chat_order_def filter_sort)

lemma set_chat_order [simp]: "set (chat_order rows) = set rows"
  by (simp add: chat_order_def)

text \<open>What a read sees of the rows said so far.\<close>

lemma read_segment_filter:
  "read_segment messages i a b voice n
     = take n (filter (\<lambda>r. a < cr_sent_at r \<and> cr_sent_at r \<le> b) (chat_order (filter (said i voice) messages)))"
  by (simp add: read_segment_def chat_order_filter filter_filter conj_commute conj_left_commute)

lemma filter_slice:
  assumes "s \<le> e" "e \<le> length xs"
    and "\<And>j. j < s \<Longrightarrow> \<not> P (xs ! j)" "\<And>j. s \<le> j \<Longrightarrow> j < e \<Longrightarrow> P (xs ! j)"
  shows "filter P xs = take (e - s) (drop s xs) @ filter P (drop e xs)"
proof -
  have "xs = take s xs @ take (e - s) (drop s xs) @ drop e xs"
    using assms(1,2) by (metis append_assoc append_take_drop_id le_add_diff_inverse take_add)
  moreover have "filter P (take s xs) = []"
    using assms by (auto simp: filter_empty_conv in_set_conv_nth)
  moreover have "filter P (take (e - s) (drop s xs)) = take (e - s) (drop s xs)"
    using assms by (intro filter_True) (auto simp: in_set_conv_nth)
  ultimately show ?thesis by (metis append_Nil filter_append)
qed

section \<open>The planned segments\<close>

text \<open>One step of the cut on a sorted window: the segment, what it passes over, and the rest.\<close>

lemma cut_step:
  fixes S :: "chat_row list"
  defines "B \<equiv> map to_backfill_row S"
  assumes sorted: "sorted (map cr_sent_at S)" and start: "start < length S"
    and more: "\<not> length S - start \<le> MAX_ROWS_PER_SCAN"
    and stop: "stop = cut_after B start" and through: "through = br_sent_at (B ! (stop - 1))"
    and after: "rest = stop + length (takeWhile (\<lambda>r. br_sent_at r = through) (drop stop B))"
  shows "start < stop \<and> stop - start \<le> MAX_ROWS_PER_SCAN \<and> stop < length S \<and> stop \<le> rest
      \<and> through = cr_sent_at (S ! (stop - 1))"
    and "\<And>j. j < rest \<Longrightarrow> j < length S \<Longrightarrow> cr_sent_at (S ! j) \<le> through"
    and "\<And>j. rest \<le> j \<Longrightarrow> j < length S \<Longrightarrow> through < cr_sent_at (S ! j)"
    and "\<And>j. stop \<le> j \<Longrightarrow> j < rest \<Longrightarrow> j < length S \<Longrightarrow> cr_sent_at (S ! j) = through"
    and "rest = stop \<or> stop = start + MAX_ROWS_PER_SCAN
      \<and> (\<forall>k. start \<le> k \<and> k < stop \<longrightarrow> cr_sent_at (S ! k) = through)"
proof -
  have mono: "cr_sent_at (S ! i) \<le> cr_sent_at (S ! j)" if "i \<le> j" "j < length S" for i j
    using sorted_nth_mono [OF sorted, of i j] that by simp
  have b: "br_sent_at (B ! j) = cr_sent_at (S ! j)" if "j < length S" for j
    using that by (simp add: B_def to_backfill_row_def)
  have c: "start < stop" "stop \<le> start + MAX_ROWS_PER_SCAN"
    "clean B (stop - 1) \<or> stop = start + MAX_ROWS_PER_SCAN
      \<and> (\<forall>k. start \<le> k \<and> k < start + MAX_ROWS_PER_SCAN \<longrightarrow> \<not> clean B k)"
    using cut_after_cases [of start B] unfolding stop by blast+
  have lt: "stop < length S" using c(2) more by linarith
  have thr: "through = cr_sent_at (S ! (stop - 1))" using b [of "stop - 1"] lt by (simp add: through)
  show "start < stop \<and> stop - start \<le> MAX_ROWS_PER_SCAN \<and> stop < length S \<and> stop \<le> rest
      \<and> through = cr_sent_at (S ! (stop - 1))"
    using c lt thr by (simp add: after)
  show tie: "cr_sent_at (S ! j) = through" if j: "stop \<le> j" "j < rest" "j < length S" for j
  proof -
    let ?xs = "drop stop B"
    have "j - stop < length (takeWhile (\<lambda>r. br_sent_at r = through) ?xs)" using j by (simp add: after)
    then have "br_sent_at (?xs ! (j - stop)) = through"
      using nth_mem [of "j - stop" "takeWhile (\<lambda>r. br_sent_at r = through) ?xs"] set_takeWhileD
      by (metis takeWhile_nth)
    moreover have "?xs ! (j - stop) = B ! j" using j by (simp add: B_def)
    ultimately show ?thesis using b j by simp
  qed
  show "cr_sent_at (S ! j) \<le> through" if j: "j < rest" "j < length S" for j
  proof (cases "j < stop")
    case True
    then show ?thesis using mono [of j "stop - 1"] lt by (simp add: thr)
  next
    case False
    with tie j show ?thesis by simp
  qed
  show "through < cr_sent_at (S ! j)" if j: "rest \<le> j" "j < length S" for j
  proof -
    let ?xs = "drop stop B" and ?P = "\<lambda>r. br_sent_at r = through"
    have "length (takeWhile ?P ?xs) < length ?xs" using j by (simp add: after B_def)
    then have "\<not> ?P (?xs ! length (takeWhile ?P ?xs))" by (rule nth_length_takeWhile)
    moreover have "?xs ! length (takeWhile ?P ?xs) = B ! rest" using j by (simp add: after B_def)
    ultimately have "cr_sent_at (S ! rest) \<noteq> through" using b [of rest] j by simp
    moreover have "through \<le> cr_sent_at (S ! rest)"
      using mono [of "stop - 1" rest] j by (simp add: thr after)
    ultimately show ?thesis using mono [of rest j] j by simp
  qed
  show "rest = stop \<or> stop = start + MAX_ROWS_PER_SCAN
      \<and> (\<forall>k. start \<le> k \<and> k < stop \<longrightarrow> cr_sent_at (S ! k) = through)"
  proof (cases "clean B (stop - 1)")
    case True
    then have "cr_sent_at (S ! stop) \<noteq> through"
      using b lt c(1) by (simp add: clean_def thr)
    with tie [of stop] lt show ?thesis by (force simp: after)
  next
    case False
    with c(3) have full: "stop = start + MAX_ROWS_PER_SCAN" and
      nc: "\<And>k. start \<le> k \<Longrightarrow> k < stop \<Longrightarrow> \<not> clean B k" by auto
    have eq: "cr_sent_at (S ! k) = through" if "start \<le> k" "k \<le> stop - 1" for k
      using that(2,1)
    proof (induction rule: inc_induct)
      case (step n)
      with nc [of n] b [of n] b [of "n + 1"] lt show ?case by (simp add: clean_def)
    qed (simp add: thr)
    have "\<forall>k. start \<le> k \<and> k < stop \<longrightarrow> cr_sent_at (S ! k) = through"
      by (intro allI impI, elim conjE, rule eq) simp_all
    with full show ?thesis by blast
  qed
qed

fun walk :: "chat_row list \<Rightarrow> instant \<Rightarrow> (nat \<times> nat) list \<Rightarrow> chat_row list list" where
  "walk S after [] = []"
| "walk S after ((start, stop) # segs) =
     take MAX_ROWS_PER_SCAN
       (filter (\<lambda>r. after < cr_sent_at r \<and> cr_sent_at r \<le> cr_sent_at (S ! (stop - 1))) S)
     # walk S (cr_sent_at (S ! (stop - 1))) segs"

lemma read_slice:
  assumes "s \<le> e" "e \<le> length S" "e - s \<le> MAX_ROWS_PER_SCAN"
    and "\<And>j. j < s \<Longrightarrow> cr_sent_at (S ! j) \<le> a"
    and "\<And>j. s \<le> j \<Longrightarrow> j < e \<Longrightarrow> a < cr_sent_at (S ! j) \<and> cr_sent_at (S ! j) \<le> b"
    and "e - s = MAX_ROWS_PER_SCAN \<or> (\<forall>j. e \<le> j \<and> j < length S \<longrightarrow> b < cr_sent_at (S ! j))"
  shows "take MAX_ROWS_PER_SCAN (filter (\<lambda>r. a < cr_sent_at r \<and> cr_sent_at r \<le> b) S) = take (e - s) (drop s S)"
proof -
  let ?P = "\<lambda>r. a < cr_sent_at r \<and> cr_sent_at r \<le> b"
  have f: "filter ?P S = take (e - s) (drop s S) @ filter ?P (drop e S)"
    by (rule filter_slice) (use assms in \<open>auto simp: not_less\<close>)
  show ?thesis
    using assms(6)
  proof
    assume "e - s = MAX_ROWS_PER_SCAN"
    with f assms(2) show ?thesis by simp
  next
    assume later: "\<forall>j. e \<le> j \<and> j < length S \<longrightarrow> b < cr_sent_at (S ! j)"
    have "filter ?P (drop e S) = []"
    proof -
      have "\<not> ?P r" if "r \<in> set (drop e S)" for r
      proof -
        from that obtain j where j: "j < length S - e" "r = S ! (e + j)"
          using assms(2) by (auto simp: in_set_conv_nth)
        then have "e + j < length S" by linarith
        with j later [rule_format, of "e + j"] show ?thesis by (simp add: not_le)
      qed
      then show ?thesis by (simp add: filter_empty_conv)
    qed
    with f assms(3) show ?thesis by simp
  qed
qed

text \<open>Every row is in a segment, or shares its timestamp with a whole segment before it.\<close>

definition segment_ok :: "nat \<Rightarrow> nat \<times> nat \<Rightarrow> bool" where
  "segment_ok n seg \<longleftrightarrow> fst seg < snd seg \<and> snd seg \<le> n \<and> snd seg - fst seg \<le> MAX_ROWS_PER_SCAN"

definition reached :: "chat_row list \<Rightarrow> (nat \<times> nat) list \<Rightarrow> nat \<Rightarrow> bool" where
  "reached S segs j \<longleftrightarrow> (\<exists>(s, e) \<in> set segs. s \<le> j \<and> (j < e
     \<or> e - s = MAX_ROWS_PER_SCAN \<and> (\<forall>k. s \<le> k \<and> k \<le> j \<longrightarrow> cr_sent_at (S ! k) = cr_sent_at (S ! j))))"

lemma segments_from_sound:
  assumes sorted: "sorted (map cr_sent_at S)" and B: "B = map to_backfill_row S"
    and "\<And>j. j < start \<Longrightarrow> j < length S \<Longrightarrow> cr_sent_at (S ! j) \<le> after"
    and "\<And>j. start \<le> j \<Longrightarrow> j < length S \<Longrightarrow> after < cr_sent_at (S ! j)"
  shows "walk S after (segments_from B start) = map (\<lambda>(s, e). take (e - s) (drop s S)) (segments_from B start)
    \<and> (\<forall>seg \<in> set (segments_from B start). segment_ok (length S) seg \<and> start \<le> fst seg)
    \<and> sorted_wrt (\<lambda>p q. snd p \<le> fst q) (segments_from B start)
    \<and> (\<forall>j. start \<le> j \<and> j < length S \<longrightarrow> reached S (segments_from B start) j)"
  using assms(3,4)
proof (induction "length S - start" arbitrary: start after rule: less_induct)
  case less
  have len: "length B = length S" by (simp add: B)
  consider "length S \<le> start" | "start < length S" "length S - start \<le> MAX_ROWS_PER_SCAN"
    | "start < length S" "\<not> length S - start \<le> MAX_ROWS_PER_SCAN" by linarith
  then show ?case
  proof cases
    case 1
    then have "segments_from B start = []" by (simp add: segments_from.simps [of B start] len)
    with 1 show ?thesis by auto
  next
    case 2
    have last: "cr_sent_at (S ! j) \<le> cr_sent_at (S ! (length S - 1))" if "j < length S" for j
      using sorted_nth_mono [OF sorted, of j "length S - 1"] that by simp
    have "take MAX_ROWS_PER_SCAN (filter (\<lambda>r. after < cr_sent_at r \<and> cr_sent_at r \<le> cr_sent_at (S ! (length S - 1))) S)
        = take (length S - start) (drop start S)"
      by (rule read_slice) (use 2 less.prems last in auto)
    moreover have "segments_from B start = [(start, length S)]"
      using 2 by (simp add: segments_from.simps [of B start] len)
    ultimately show ?thesis using 2 by (simp add: segment_ok_def reached_def)
  next
    case 3
    define stop where "stop = cut_after B start"
    define through where "through = br_sent_at (B ! (stop - 1))"
    define rest where "rest = stop + length (takeWhile (\<lambda>r. br_sent_at r = through) (drop stop B))"
    note c = cut_step [OF sorted 3, folded B, OF stop_def through_def rest_def]
    have segs: "segments_from B start = (start, stop) # segments_from B rest"
      using 3 by (simp add: segments_from.simps [of B start] len stop_def through_def rest_def Let_def)
    have dec: "length S - rest < length S - start" using c(1) 3 by linarith
    note IH = less.hyps [OF dec, of through]
    have ih: "walk S through (segments_from B rest) = map (\<lambda>(s, e). take (e - s) (drop s S)) (segments_from B rest)
      \<and> (\<forall>seg \<in> set (segments_from B rest). segment_ok (length S) seg \<and> rest \<le> fst seg)
      \<and> sorted_wrt (\<lambda>p q. snd p \<le> fst q) (segments_from B rest)
      \<and> (\<forall>j. rest \<le> j \<and> j < length S \<longrightarrow> reached S (segments_from B rest) j)"
      by (rule IH) (use c(2,3) in blast)+
    have "take MAX_ROWS_PER_SCAN (filter (\<lambda>r. after < cr_sent_at r \<and> cr_sent_at r \<le> through) S)
        = take (stop - start) (drop start S)"
    proof (rule read_slice)
      show "stop - start = MAX_ROWS_PER_SCAN \<or> (\<forall>j. stop \<le> j \<and> j < length S \<longrightarrow> through < cr_sent_at (S ! j))"
        using c(3,5) by auto
    qed (use c(1,2) less.prems in auto)
    moreover have "reached S (segments_from B start) j" if j: "start \<le> j" "j < length S" for j
    proof (cases "rest \<le> j")
      case True
      with ih j show ?thesis by (auto simp: reached_def segs)
    next
      case False
      show ?thesis
      proof (cases "j < stop")
        case False
        with c(5) \<open>\<not> rest \<le> j\<close> have full: "stop = start + MAX_ROWS_PER_SCAN"
          "\<And>k. start \<le> k \<Longrightarrow> k < stop \<Longrightarrow> cr_sent_at (S ! k) = through" by auto
        have "cr_sent_at (S ! k) = through" if "start \<le> k" "k \<le> j" for k
          using that full(2) [of k] c(4) [of k] \<open>\<not> rest \<le> j\<close> j by (cases "k < stop") auto
        with full(1) j show ?thesis unfolding reached_def segs by force
      qed (use j in \<open>auto simp: reached_def segs\<close>)
    qed
    ultimately show ?thesis
      using ih c(1) 3 by (auto simp: segs segment_ok_def)
  qed
qed

section \<open>The backfill\<close>

definition backfill_start :: "scan_state option \<Rightarrow> backfill_row list \<Rightarrow> instant" where
  "backfill_start st rows =
     (case Option.bind st ss_backfilled of Some t \<Rightarrow> t | None \<Rightarrow> br_sent_at (hd rows) - 1000)"

definition window_rows :: "chat_row list \<Rightarrow> uuid \<Rightarrow> bool \<Rightarrow> scan_state list \<Rightarrow> chat_row list" where
  "window_rows messages i voice rows =
     chat_order (filter (\<lambda>m. said i voice m \<and> in_backfill_window (load i rows) m) messages)"

lemma read_in_window:
  assumes b: "b = cr_sent_at r" "r \<in> set (window_rows messages i voice rows)"
    and a: "\<forall>t. Option.bind (load i rows) ss_backfilled = Some t \<longrightarrow> t \<le> a"
  shows "read_segment messages i a b voice n
    = take n (filter (\<lambda>m. a < cr_sent_at m \<and> cr_sent_at m \<le> b) (window_rows messages i voice rows))"
proof -
  have "in_backfill_window (load i rows) m" if "a < cr_sent_at m" "cr_sent_at m \<le> b" for m
    using b a that by (auto simp: window_rows_def in_backfill_window_def split: option.splits)
  then have "filter (\<lambda>m. (said i voice m \<and> in_backfill_window (load i rows) m) \<and> a < cr_sent_at m \<and> cr_sent_at m \<le> b) messages
      = filter (\<lambda>m. said i voice m \<and> a < cr_sent_at m \<and> cr_sent_at m \<le> b) messages"
    by (intro filter_cong) auto
  then show ?thesis by (simp add: read_segment_def window_rows_def chat_order_filter filter_filter)
qed

lemma backfill_reads_walk:
  assumes "\<forall>seg \<in> set segs. segment_ok (length (window_rows messages i voice rows)) seg"
    and "\<forall>t. Option.bind (load i rows) ss_backfilled = Some t \<longrightarrow> t \<le> a"
  shows "backfill_reads messages i voice (backfill_window messages i voice rows) a segs
    = walk (window_rows messages i voice rows) a segs"
  using assms
proof (induction "window_rows messages i voice rows" a segs rule: walk.induct)
  case (2 a start stop segs)
  let ?S = "window_rows messages i voice rows"
  have B: "backfill_window messages i voice rows = map to_backfill_row ?S"
    by (simp add: backfill_window_def window_rows_def)
  have st: "stop - 1 < length ?S" using "2.prems"(1) by (auto simp: segment_ok_def)
  have br: "br_sent_at (backfill_window messages i voice rows ! (stop - 1)) = cr_sent_at (?S ! (stop - 1))"
    using st by (simp add: B to_backfill_row_def)
  have mem: "?S ! (stop - 1) \<in> set ?S" using st by (rule nth_mem)
  have win: "\<forall>t. Option.bind (load i rows) ss_backfilled = Some t \<longrightarrow> t \<le> cr_sent_at (?S ! (stop - 1))"
    using mem by (auto simp: window_rows_def in_backfill_window_def split: option.splits)
  have "backfill_reads messages i voice (backfill_window messages i voice rows) (cr_sent_at (?S ! (stop - 1))) segs
    = walk ?S (cr_sent_at (?S ! (stop - 1))) segs"
    by (rule "2.hyps") (use "2.prems"(1) win in auto)
  then show ?case
    using read_in_window [OF refl mem "2.prems"(2)] by (simp only: backfill_reads.simps walk.simps Let_def br)
qed simp

text \<open>The backfill's plan and its reads agree, and miss nothing. The planned segments are in
  order, disjoint and never longer than a scan may read; a run whose segments all succeed reads,
  segment by segment, exactly the rows planned, with each segment starting where the one before
  it stopped; and every row of the window is in a segment, except rows that share their timestamp
  with a whole segment of one timestamp, which the cap passes over.\<close>

theorem backfill_reads_its_segments:
  assumes "S = window_rows messages i voice rows" "B = backfill_window messages i voice rows"
  shows "backfill_reads messages i voice B (backfill_start (load i rows) B) (segments B)
      = map (\<lambda>(s, e). take (e - s) (drop s S)) (segments B)
    \<and> (\<forall>seg \<in> set (segments B). segment_ok (length S) seg)
    \<and> sorted_wrt (\<lambda>p q. snd p \<le> fst q) (segments B)
    \<and> (\<forall>j < length S. reached S (segments B) j)"
proof (cases "S = []")
  case True
  with assms have "B = []" by (simp add: backfill_window_def window_rows_def)
  with True show ?thesis by (simp add: segments_def segments_from.simps)
next
  case False
  have B: "B = map to_backfill_row S" using assms by (simp add: backfill_window_def window_rows_def)
  have sorted: "sorted (map cr_sent_at S)" by (simp add: assms(1) window_rows_def chat_order_sorted)
  let ?a = "backfill_start (load i rows) B"
  have later: "?a < cr_sent_at (S ! j)" if "j < length S" for j
  proof (cases "Option.bind (load i rows) ss_backfilled")
    case None
    have "cr_sent_at (S ! 0) \<le> cr_sent_at (S ! j)" using sorted_nth_mono [OF sorted, of 0 j] that False by simp
    with None False show ?thesis by (simp add: backfill_start_def B hd_map to_backfill_row_def hd_conv_nth)
  next
    case (Some t)
    have "S ! j \<in> set S" using that by simp
    with Some show ?thesis
      by (auto simp: backfill_start_def assms(1) window_rows_def in_backfill_window_def split: option.splits)
  qed
  have "walk S ?a (segments_from B 0) = map (\<lambda>(s, e). take (e - s) (drop s S)) (segments_from B 0)
    \<and> (\<forall>seg \<in> set (segments_from B 0). segment_ok (length S) seg \<and> 0 \<le> fst seg)
    \<and> sorted_wrt (\<lambda>p q. snd p \<le> fst q) (segments_from B 0)
    \<and> (\<forall>j. 0 \<le> j \<and> j < length S \<longrightarrow> reached S (segments_from B 0) j)"
    by (rule segments_from_sound [OF sorted B]) (use later in auto)
  moreover have "backfill_reads messages i voice B ?a (segments B) = walk S ?a (segments B)"
    if "\<forall>seg \<in> set (segments B). segment_ok (length S) seg"
    unfolding assms(2) assms(1)
    by (rule backfill_reads_walk) (use that in \<open>auto simp: assms backfill_start_def\<close>)
  ultimately show ?thesis unfolding segments_def by simp
qed

definition wit_row :: "nat \<Rightarrow> role \<Rightarrow> chat_row" where
  "wit_row k r = \<lparr>cr_id = k, cr_session = 2, cr_instance = Some 1, cr_archived = False,
     cr_session_channel = str ''text'', cr_classified_at = None, cr_role = r, cr_channel = None,
     cr_content = str ''hi'', cr_metadata = JNull, cr_sent_at = int k\<rparr>"

definition wit_rows :: "chat_row list" where
  "wit_rows = [wit_row 5 RUser, wit_row 6 RAssistant]"

lemma wit_window: "window_rows wit_rows 1 True [] = wit_rows" "filter (said 1 True) wit_rows = wit_rows"
  by (simp_all add: window_rows_def wit_rows_def wit_row_def said_def in_backfill_window_def load_def chat_order_def)

theorem backfill_reads_its_segments_witness:
  "backfill_reads wit_rows 1 True (backfill_window wit_rows 1 True []) (- 995) (segments (backfill_window wit_rows 1 True []))
   = [wit_rows]"
proof -
  have B: "backfill_window wit_rows 1 True [] = map to_backfill_row wit_rows"
    using wit_window by (simp add: backfill_window_def window_rows_def)
  have seg: "segments (backfill_window wit_rows 1 True []) = [(0, 2)]"
    unfolding segments_def B segments_from.simps [of "map to_backfill_row wit_rows" 0]
    by (simp add: MAX_ROWS_PER_SCAN_def wit_rows_def)
  have start: "backfill_start (load 1 []) (backfill_window wit_rows 1 True []) = - 995"
    unfolding B by (simp add: load_def backfill_start_def wit_rows_def wit_row_def to_backfill_row_def)
  have "map (\<lambda>(s, e). take (e - s) (drop s wit_rows)) [(0, 2)] = [wit_rows]" by (simp add: wit_rows_def)
  with backfill_reads_its_segments [OF wit_window(1) [symmetric] refl, unfolded start, unfolded seg]
  show ?thesis unfolding seg by (simp only:)
qed

section \<open>The live scan\<close>

text \<open>A prefix that ends before the next timestamp is everything up to its last one.\<close>

lemma prefix_is_filter:
  assumes "sorted (map cr_sent_at (P @ Q))" "P \<noteq> []"
    and "\<And>r. r \<in> set Q \<Longrightarrow> cr_sent_at r \<noteq> cr_sent_at (last P)"
  shows "filter (\<lambda>r. cr_sent_at r \<le> cr_sent_at (last P)) (P @ Q) = P"
proof -
  have "cr_sent_at r \<le> cr_sent_at (last P)" if "r \<in> set P" for r
  proof -
    have "P = butlast P @ [last P]" using assms(2) by simp
    then have "sorted (map cr_sent_at (butlast P) @ [cr_sent_at (last P)])"
      using assms(1) by (metis list.simps(8,9) map_append sorted_append)
    moreover have "r \<in> set (butlast P) \<or> r = last P" using that by (metis append_butlast_last_id assms(2) rotate1.simps(2) set_ConsD set_rotate1)
    ultimately show ?thesis by (auto simp: sorted_append)
  qed
  moreover have "\<not> cr_sent_at r \<le> cr_sent_at (last P)" if "r \<in> set Q" for r
  proof -
    have "cr_sent_at (last P) \<le> cr_sent_at r" using assms(1,2) that by (simp add: sorted_append)
    with assms(3) [OF that] show ?thesis by simp
  qed
  ultimately have "filter (\<lambda>r. cr_sent_at r \<le> cr_sent_at (last P)) P = P"
    "filter (\<lambda>r. cr_sent_at r \<le> cr_sent_at (last P)) Q = []"
    by (simp_all add: filter_empty_conv)
  then show ?thesis by simp
qed

lemma drop_trailing_tie_cases:
  assumes "rows \<noteq> []"
  obtains kept tie where "rows = kept @ tie" "tie \<noteq> []"
    "\<forall>r \<in> set tie. cr_sent_at r = cr_sent_at (last rows)"
    "kept = [] \<and> drop_trailing_tie rows = rows
     \<or> kept \<noteq> [] \<and> drop_trailing_tie rows = kept \<and> cr_sent_at (last kept) \<noteq> cr_sent_at (last rows)"
proof -
  let ?p = "\<lambda>r. cr_sent_at r = cr_sent_at (last rows)"
  let ?kept = "rev (dropWhile ?p (rev rows))" and ?tie = "rev (takeWhile ?p (rev rows))"
  obtain kept tie where kt: "kept = ?kept" "tie = ?tie" by blast
  have "rev rows = takeWhile ?p (rev rows) @ dropWhile ?p (rev rows)" by simp
  then have split: "rows = kept @ tie" unfolding kt by (metis rev_append rev_rev_ident)
  have "takeWhile ?p (rev rows) \<noteq> []"
    using assms by (cases rows rule: rev_cases) auto
  then have tie: "tie \<noteq> []" by (simp add: kt)
  have all: "\<forall>r \<in> set tie. ?p r" unfolding kt by (auto dest: set_takeWhileD)
  have last: "\<not> ?p (last kept)" if "kept \<noteq> []"
    using hd_dropWhile [of ?p "rev rows"] that unfolding kt by (simp add: last_rev)
  have "drop_trailing_tie rows = (if kept = [] then rows else kept)"
    using assms unfolding kt by (simp only: drop_trailing_tie_def Let_def if_False)
  with last show thesis by (intro that [OF split tie all]) (cases "kept = []"; simp)
qed

lemma sorted_tail_later:
  "sorted (map cr_sent_at (P @ Q)) \<Longrightarrow> P \<noteq> [] \<Longrightarrow> r \<in> set Q \<Longrightarrow> cr_sent_at (last P) \<le> cr_sent_at r"
  by (simp add: sorted_append)

text \<open>The rows of a relationship said after one instant and up to another, in order.\<close>

definition between :: "chat_row list \<Rightarrow> uuid \<Rightarrow> bool \<Rightarrow> instant \<Rightarrow> instant \<Rightarrow> chat_row list" where
  "between messages i voice a b =
     filter (\<lambda>r. a < cr_sent_at r \<and> cr_sent_at r \<le> b) (chat_order (filter (said i voice) messages))"

lemma live_rows_filter:
  fixes messages i voice
  defines "btw \<equiv> between messages i voice"
  assumes R: "R = live_rows messages i after bound voice" "R \<noteq> []"
  shows "after < cr_sent_at (last R)" "cr_sent_at (last R) \<le> bound" "length R \<le> MAX_ROWS_PER_SCAN"
    and "R = btw after (cr_sent_at (last R))
      \<or> length R = MAX_ROWS_PER_SCAN \<and> R = take MAX_ROWS_PER_SCAN (btw after (cr_sent_at (last R)))
        \<and> (\<forall>r \<in> set R. cr_sent_at r = cr_sent_at (last R))"
proof -
  define F where "F = btw after bound"
  define R0 where "R0 = take MAX_ROWS_PER_SCAN F"
  have r0: "read_segment messages i after bound voice MAX_ROWS_PER_SCAN = R0"
    by (simp only: read_segment_filter R0_def F_def btw_def between_def)
  have R': "R = (if length R0 = MAX_ROWS_PER_SCAN then drop_trailing_tie R0 else R0)"
    by (simp add: R(1) live_rows_def r0)
  have sorted: "sorted (map cr_sent_at F)"
    unfolding F_def btw_def between_def chat_order_filter by (rule chat_order_sorted)
  have ne: "R0 \<noteq> []" using R(2) unfolding R' drop_trailing_tie_def by (auto split: if_splits)
  obtain kept tie where kt: "R0 = kept @ tie" "tie \<noteq> []" "\<forall>r \<in> set tie. cr_sent_at r = cr_sent_at (last R0)"
    "kept = [] \<and> drop_trailing_tie R0 = R0
     \<or> kept \<noteq> [] \<and> drop_trailing_tie R0 = kept \<and> cr_sent_at (last kept) \<noteq> cr_sent_at (last R0)"
    using drop_trailing_tie_cases [OF ne] by blast
  have split: "F = R0 @ drop MAX_ROWS_PER_SCAN F" by (simp add: R0_def)
  have "R = R0 \<or> R = kept" using kt(4) R' by presburger
  then have sub: "set R \<subseteq> set R0" and len: "length R \<le> length R0" using kt(1) by auto
  have "last R \<in> set R0" using R(2) sub by auto
  then have last: "last R \<in> set F" unfolding R0_def by (rule in_set_takeD)
  show b: "after < cr_sent_at (last R)" "cr_sent_at (last R) \<le> bound"
    using last by (simp_all add: F_def btw_def between_def)
  show "length R \<le> MAX_ROWS_PER_SCAN"
    using len by (simp add: R0_def)
  have cut: "btw after (cr_sent_at (last R)) = filter (\<lambda>r. cr_sent_at r \<le> cr_sent_at (last R)) F"
    unfolding F_def btw_def between_def filter_filter using b(2) by (intro filter_cong) auto
  show "R = btw after (cr_sent_at (last R))
      \<or> length R = MAX_ROWS_PER_SCAN \<and> R = take MAX_ROWS_PER_SCAN (btw after (cr_sent_at (last R)))
        \<and> (\<forall>r \<in> set R. cr_sent_at r = cr_sent_at (last R))"
  proof (cases "length R0 = MAX_ROWS_PER_SCAN")
    case False
    then have "length F < MAX_ROWS_PER_SCAN" by (simp add: R0_def)
    then have "F = R0 @ []" "R = R0" using False by (simp_all add: R0_def R')
    with prefix_is_filter [of R0 "[]"] sorted ne show ?thesis unfolding cut by simp
  next
    case full: True
    show ?thesis
    proof (cases "kept = []")
      case True
      with kt(4) full R' have eq: "R = R0" by presburger
      have ties: "\<forall>r \<in> set R. cr_sent_at r = cr_sent_at (last R)"
        using kt(1,3) True unfolding eq by simp
      have "filter (\<lambda>r. cr_sent_at r \<le> cr_sent_at (last R)) R = R"
        by (rule filter_True) (use ties in force)
      then have "take MAX_ROWS_PER_SCAN (filter (\<lambda>r. cr_sent_at r \<le> cr_sent_at (last R)) F) = R"
        using full eq by (subst split) simp
      with full eq ties show ?thesis unfolding cut by simp
    next
      case False
      with kt(4) full have eq: "R = kept" and ne': "cr_sent_at (last kept) \<noteq> cr_sent_at (last R0)"
        using R' by presburger+
      have F: "F = kept @ (tie @ drop MAX_ROWS_PER_SCAN F)" using split kt(1) by simp
      have "last R0 \<in> set tie" using kt(1,2) by simp
      then have "cr_sent_at (last kept) \<le> cr_sent_at (last R0)"
        using sorted_tail_later [of kept "tie @ drop MAX_ROWS_PER_SCAN F"] F sorted False by simp
      moreover have "cr_sent_at (last R0) \<le> cr_sent_at r" if "r \<in> set (drop MAX_ROWS_PER_SCAN F)" for r
        using sorted_tail_later [of R0 "drop MAX_ROWS_PER_SCAN F"] split sorted ne that by simp
      ultimately have "cr_sent_at r \<noteq> cr_sent_at (last kept)" if "r \<in> set (tie @ drop MAX_ROWS_PER_SCAN F)" for r
        using that kt(3) ne' by fastforce
      with prefix_is_filter [of kept "tie @ drop MAX_ROWS_PER_SCAN F"] F sorted False
      have "filter (\<lambda>r. cr_sent_at r \<le> cr_sent_at (last kept)) F = kept" by simp
      then show ?thesis unfolding cut by (simp add: eq)
    qed
  qed
qed

text \<open>The scans that follow one another while each succeeds: the cursor moves to the last row read.\<close>

fun live_scans :: "nat \<Rightarrow> chat_row list \<Rightarrow> uuid \<Rightarrow> bool \<Rightarrow> instant \<Rightarrow> instant \<Rightarrow> chat_row list list" where
  "live_scans 0 messages i voice after bound = []"
| "live_scans (Suc n) messages i voice after bound =
     (let rows = live_rows messages i after bound voice
      in if rows = [] then []
         else rows # live_scans n messages i voice (cr_sent_at (last rows)) bound)"

lemma sorted_filter_split:
  "sorted (map cr_sent_at xs) \<Longrightarrow> a \<le> m \<Longrightarrow> m \<le> b \<Longrightarrow>
     filter (\<lambda>r. a < cr_sent_at r \<and> cr_sent_at r \<le> b) xs
       = filter (\<lambda>r. a < cr_sent_at r \<and> cr_sent_at r \<le> m) xs @ filter (\<lambda>r. m < cr_sent_at r \<and> cr_sent_at r \<le> b) xs"
proof (induction xs)
  case (Cons x xs)
  show ?case
  proof (cases "m < cr_sent_at x")
    case True
    then have "filter (\<lambda>r. a < cr_sent_at r \<and> cr_sent_at r \<le> m) (x # xs) = []"
      using Cons.prems by (auto simp: filter_empty_conv)
    moreover have "filter (\<lambda>r. a < cr_sent_at r \<and> cr_sent_at r \<le> b) (x # xs)
        = filter (\<lambda>r. m < cr_sent_at r \<and> cr_sent_at r \<le> b) (x # xs)"
      using True Cons.prems by (intro filter_cong) auto
    ultimately show ?thesis by simp
  next
    case False
    with Cons show ?thesis by auto
  qed
qed simp

lemma between_split: "a \<le> m \<Longrightarrow> m \<le> b \<Longrightarrow>
  between messages i voice a b = between messages i voice a m @ between messages i voice m b"
  unfolding between_def by (rule sorted_filter_split [OF chat_order_sorted])

lemma live_rows_empty:
  assumes "live_rows messages i after bound voice = []"
  shows "between messages i voice after bound = []"
proof -
  let ?R0 = "take MAX_ROWS_PER_SCAN (between messages i voice after bound)"
  have "read_segment messages i after bound voice MAX_ROWS_PER_SCAN = ?R0"
    by (simp only: read_segment_filter between_def)
  then have "?R0 = []"
    using assms unfolding live_rows_def drop_trailing_tie_def Let_def by (metis rev_is_Nil_conv)
  then show ?thesis by (simp add: MAX_ROWS_PER_SCAN_def)
qed

text \<open>C16: Live scans read every row exactly once and in order. As long as fewer rows than a scan
  may read share one timestamp, the scans that follow one another while each succeeds read
  together exactly the rows said after the first cursor and up to the bound, in order and without
  a repetition, each at most the cap, and they are done after at most as many scans as there are
  rows.\<close>

theorem live_scans_read_once:
  assumes "length (between messages i voice after bound) \<le> n"
    and "\<forall>t. length (filter (\<lambda>r. cr_sent_at r = t) (between messages i voice after bound)) < MAX_ROWS_PER_SCAN"
  shows "concat (live_scans n messages i voice after bound) = between messages i voice after bound
    \<and> (\<forall>rows \<in> set (live_scans n messages i voice after bound). rows \<noteq> [] \<and> length rows \<le> MAX_ROWS_PER_SCAN)"
  using assms
proof (induction n arbitrary: after)
  case (Suc n)
  let ?R = "live_rows messages i after bound voice"
  show ?case
  proof (cases "?R = []")
    case True
    with live_rows_empty show ?thesis by (simp add: Let_def)
  next
    case False
    let ?m = "cr_sent_at (last ?R)"
    note f = live_rows_filter [OF refl False]
    have split: "between messages i voice after bound = between messages i voice after ?m @ between messages i voice ?m bound"
      using f(1,2) by (intro between_split) simp_all
    have "\<not> (length ?R = MAX_ROWS_PER_SCAN \<and> ?R = take MAX_ROWS_PER_SCAN (between messages i voice after ?m)
        \<and> (\<forall>r \<in> set ?R. cr_sent_at r = ?m))"
    proof
      assume c: "length ?R = MAX_ROWS_PER_SCAN \<and> ?R = take MAX_ROWS_PER_SCAN (between messages i voice after ?m)
        \<and> (\<forall>r \<in> set ?R. cr_sent_at r = ?m)"
      then obtain ys where ys: "between messages i voice after ?m = ?R @ ys"
        by (metis append_take_drop_id)
      have "filter (\<lambda>r. cr_sent_at r = ?m) ?R = ?R" using c by (intro filter_True) blast
      then have "MAX_ROWS_PER_SCAN \<le> length (filter (\<lambda>r. cr_sent_at r = ?m) (between messages i voice after bound))"
        unfolding split ys filter_append length_append using c by simp
      with Suc.prems(2) show False by (meson not_le)
    qed
    with f(4) have R: "?R = between messages i voice after ?m" by blast
    have "length (filter P (between messages i voice ?m bound)) \<le> length (filter P (between messages i voice after bound))" for P
      by (simp add: split)
    then have "\<forall>t. length (filter (\<lambda>r. cr_sent_at r = t) (between messages i voice ?m bound)) < MAX_ROWS_PER_SCAN"
      using Suc.prems(2) by (meson le_less_trans)
    moreover have "0 < length (between messages i voice after ?m)" using False R by (metis length_greater_0_conv)
    then have "length (between messages i voice ?m bound) \<le> n"
      using Suc.prems(1) arg_cong [OF split, of length] by (simp only: length_append)
    ultimately have ih: "concat (live_scans n messages i voice ?m bound) = between messages i voice ?m bound
      \<and> (\<forall>rows \<in> set (live_scans n messages i voice ?m bound). rows \<noteq> [] \<and> length rows \<le> MAX_ROWS_PER_SCAN)"
      by (intro Suc.IH)
    have "live_scans (Suc n) messages i voice after bound = ?R # live_scans n messages i voice ?m bound"
      using False by (simp add: Let_def)
    then show ?thesis using ih R split f(3) False by simp
  qed
qed simp

theorem live_scans_read_once_witness:
  "concat (live_scans 2 wit_rows 1 True 0 10) = wit_rows"
proof -
  have b: "between wit_rows 1 True 0 10 = wit_rows"
    unfolding between_def wit_window(2) by (simp add: chat_order_def wit_rows_def wit_row_def)
  have len: "length wit_rows = 2" by (simp add: wit_rows_def)
  have "\<forall>t. length (filter (\<lambda>r. cr_sent_at r = t) wit_rows) < MAX_ROWS_PER_SCAN"
    by (intro allI le_less_trans [OF length_filter_le]) (simp add: len MAX_ROWS_PER_SCAN_def)
  then show ?thesis
    using live_scans_read_once [of wit_rows 1 True 0 10 2, unfolded b] len by simp
qed

end
