(* ===== verification/Rust_Json.thy ===== *)
theory Rust_Json
  imports Core_Types
begin

text \<open>
  How the derived decoders of \<open>serde\<close> read the fields of a struct from a \<open>json\<close> value
  (\<open>serde_json\<close> itself, the reader of texts, is a parameter where it is used). A field given twice,
  which a derived decoder refuses, is not distinguished.
\<close>

text \<open>\<open>String\<close> and \<open>Option<String>\<close> fields of a derived struct.\<close>

definition string_field :: "json option \<Rightarrow> rstr option" where
  "string_field v = (case v of Some (JStr s) \<Rightarrow> Some s | _ \<Rightarrow> None)"

definition opt_string_field :: "json option \<Rightarrow> rstr option option" where
  "opt_string_field v = (case v of None \<Rightarrow> Some None | Some JNull \<Rightarrow> Some None
     | Some (JStr s) \<Rightarrow> Some (Some s) | _ \<Rightarrow> None)"

text \<open>A struct reads from an object by name and from an array by position.\<close>

definition struct_field :: "json \<Rightarrow> nat \<Rightarrow> rstr \<Rightarrow> json option" where
  "struct_field v k key = (case v of JArr vs \<Rightarrow> if k < length vs then Some (vs ! k) else None
     | _ \<Rightarrow> json_get key v)"

definition struct_shape :: "json \<Rightarrow> nat \<Rightarrow> bool" where
  "struct_shape v n = (case v of JArr vs \<Rightarrow> length vs \<le> n | JObj _ \<Rightarrow> True | _ \<Rightarrow> False)"

text \<open>\<open>Option<Value>\<close> with a default: an absent or a null field is \<open>None\<close>.\<close>

definition opt_value_field :: "json option \<Rightarrow> json option" where
  "opt_value_field v = (case v of Some JNull \<Rightarrow> None | _ \<Rightarrow> v)"

section \<open>JSON in a reply\<close>

text \<open>\<open>find_json_block\<close> and \<open>parse_llm_json\<close> of \<open>server/src/pipeline/mod.rs\<close>.\<close>

text \<open>The scan for the closing brace: depth, inside a string, after a backslash; the result is the
  number of characters up to and including it.\<close>

fun block_end :: "rstr \<Rightarrow> int \<Rightarrow> bool \<Rightarrow> bool \<Rightarrow> nat option" where
  "block_end [] depth in_string escape = None"
| "block_end (b # bs) depth in_string escape =
     (if in_string
      then map_option Suc
        (if escape then block_end bs depth True False
         else if b = 92 then block_end bs depth True True
         else if b = 34 then block_end bs depth False False
         else block_end bs depth True False)
      else if b = 34 then map_option Suc (block_end bs depth True escape)
      else if b = 123 then map_option Suc (block_end bs (depth + 1) False escape)
      else if b = 125
      then if depth - 1 = 0 then Some 1 else map_option Suc (block_end bs (depth - 1) False escape)
      else map_option Suc (block_end bs depth False escape))"

definition find_json_block :: "rstr \<Rightarrow> rstr option" where
  "find_json_block raw =
     (let rest = dropWhile (\<lambda>c. c \<noteq> 123) raw
      in map_option (\<lambda>n. take n rest) (block_end rest 0 False False))"

definition parse_llm_json :: "(rstr \<Rightarrow> json option) \<Rightarrow> (json \<Rightarrow> 'a option) \<Rightarrow> rstr \<Rightarrow> 'a option" where
  "parse_llm_json from_str decode raw =
     (case Option.bind (from_str raw) decode of
        Some x \<Rightarrow> Some x
      | None \<Rightarrow> Option.bind (find_json_block raw) (\<lambda>b. Option.bind (from_str b) decode))"

end
