(* ===== verification/Scan_Parse.thy ===== *)
theory Scan_Parse
  imports Scan_Read Rust_Json
begin

text \<open>
  What the scanner makes of the model's replies
  (\<open>crates/eros-engine-server/src/pipeline/dreaming/parse.rs\<close>, \<open>dreaming/mod.rs\<close>,
  \<open>pipeline/mod.rs\<close>, and \<open>one_line\<close> of \<open>store/src/episode.rs\<close>). The JSON reader of
  \<open>serde_json\<close>, the date reader of \<open>chrono\<close> and the calendar of a timezone are parameters:
  \<open>from_str\<close>, \<open>parse_ymd\<close> (a date is a day number) and \<open>day_of\<close>. Lengths count characters.
\<close>

section \<open>Candidates\<close>

record memory_candidate =
  mc_content :: rstr
  mc_category :: rstr
  mc_metadata :: "(rstr \<times> json) list"

definition memory_candidate_of :: "json \<Rightarrow> memory_candidate option" where
  "memory_candidate_of v = (case v of
     JObj fs \<Rightarrow>
       (case (string_field (json_get (str ''content'') v), string_field (json_get (str ''category'') v)) of
          (Some content, Some category) \<Rightarrow> Some \<lparr>mc_content = content, mc_category = category,
            mc_metadata = filter (\<lambda>(k, _). k \<noteq> str ''content'' \<and> k \<noteq> str ''category'') fs\<rparr>
        | _ \<Rightarrow> None)
   | _ \<Rightarrow> None)"

definition candidate_metadata :: "memory_candidate \<Rightarrow> json option" where
  "candidate_metadata c = (if mc_metadata c = [] then None else Some (JObj (mc_metadata c)))"

definition array_of :: "json option \<Rightarrow> json list" where
  "array_of v = (case v of Some (JArr vs) \<Rightarrow> vs | _ \<Rightarrow> [])"

definition extract_memory_array :: "json \<Rightarrow> memory_candidate list" where
  "extract_memory_array v = List.map_filter memory_candidate_of (array_of (json_get (str ''memories'') v))"

definition normalise_category :: "rstr \<Rightarrow> rstr" where
  "normalise_category raw =
     (let s = to_ascii_lowercase (trim raw)
      in if s \<in> {str ''fact'', str ''preference'', str ''event'', str ''emotion'', str ''relation''} then s
         else str ''fact'')"

record journal_candidate =
  jc_kind :: rstr
  jc_realm :: "rstr option"
  jc_occurred_at :: rstr
  jc_summary :: rstr
  jc_source :: "rstr option"
  jc_due :: "rstr option"

definition journal_candidate_of :: "json \<Rightarrow> journal_candidate option" where
  "journal_candidate_of v =
     (if struct_shape v 6
      then Option.bind (string_field (struct_field v 0 (str ''kind''))) (\<lambda>kind.
           Option.bind (opt_string_field (struct_field v 1 (str ''realm''))) (\<lambda>realm.
           Option.bind (string_field (struct_field v 2 (str ''occurred_at''))) (\<lambda>occurred_at.
           Option.bind (string_field (struct_field v 3 (str ''summary''))) (\<lambda>summary.
           Option.bind (opt_string_field (struct_field v 4 (str ''source''))) (\<lambda>source.
           Option.bind (opt_string_field (struct_field v 5 (str ''due''))) (\<lambda>due.
             Some \<lparr>jc_kind = kind, jc_realm = realm, jc_occurred_at = occurred_at,
                   jc_summary = summary, jc_source = source, jc_due = due\<rparr>))))))
      else None)"

record scan_output =
  so_memories :: "memory_candidate list"
  so_episode :: "rstr option"
  so_journal :: "journal_candidate list"

definition episode_text :: "json option \<Rightarrow> rstr option" where
  "episode_text v = Option.bind v (\<lambda>v.
     Option.bind (case as_str_json v of Some s \<Rightarrow> Some s
                  | None \<Rightarrow> Option.bind (json_get (str ''summary'') v) as_str_json)
       (\<lambda>s. if trim s = [] then None else Some (trim s)))"

definition is_object :: "json \<Rightarrow> bool" where
  "is_object v = (case v of JObj _ \<Rightarrow> True | _ \<Rightarrow> False)"

definition parse_scan_output :: "(rstr \<Rightarrow> json option) \<Rightarrow> rstr \<Rightarrow> scan_output option" where
  "parse_scan_output from_str raw =
     map_option (\<lambda>v. \<lparr>so_memories = extract_memory_array v,
         so_episode = episode_text (json_get (str ''episode'') v),
         so_journal = List.map_filter journal_candidate_of (array_of (json_get (str ''journal'') v))\<rparr>)
       (case Option.bind (from_str raw) (\<lambda>v. if is_object v then Some v else None) of
          Some v \<Rightarrow> Some v
        | None \<Rightarrow> Option.bind (find_json_block raw) from_str)"

section \<open>Text\<close>

text \<open>\<open>one_line\<close>: line breaks become spaces and a space after a space is dropped.\<close>

fun one_line_loop :: "rstr \<Rightarrow> bool \<Rightarrow> rstr" where
  "one_line_loop [] after_space = []"
| "one_line_loop (c # cs) after_space =
     (let c = (if c = 10 \<or> c = 13 then 32 else c)
      in if c = 32 \<and> after_space then one_line_loop cs True else c # one_line_loop cs (c = 32))"

definition one_line :: "rstr \<Rightarrow> rstr" where
  "one_line s = trim (one_line_loop s False)"

fun collapse_loop :: "rstr \<Rightarrow> bool \<Rightarrow> rstr" where
  "collapse_loop [] prev_space = []"
| "collapse_loop (c # cs) prev_space =
     (if c = 32 then if prev_space then collapse_loop cs True else c # collapse_loop cs True
      else c # collapse_loop cs False)"

definition collapse_spaces :: "rstr \<Rightarrow> rstr" where
  "collapse_spaces s = trim (collapse_loop s False)"

text \<open>The rest of the string after the tag that starts at the bracket just passed, if there is one.\<close>

definition after_tag :: "rstr \<Rightarrow> rstr option" where
  "after_tag s = (let t = takeWhile (\<lambda>c. c \<noteq> 93) s
     in if length t < length s \<and> t \<noteq> [] \<and> list_all (\<lambda>c. (97 \<le> c \<and> c \<le> 122) \<or> c = 32) t
        then Some (drop (length t + 1) s) else None)"

function strip_tags :: "rstr \<Rightarrow> rstr \<times> bool" where
  "strip_tags [] = ([], False)"
| "strip_tags (c # cs) =
     (case (if c = 91 then after_tag cs else None) of
        Some rest \<Rightarrow> (fst (strip_tags rest), True)
      | None \<Rightarrow> (c # fst (strip_tags cs), snd (strip_tags cs)))"
  by pat_completeness auto

termination
  by (relation "measure length") (auto simp: after_tag_def Let_def split: if_splits)

definition strip_audio_tags :: "rstr \<Rightarrow> rstr" where
  "strip_audio_tags s = (if snd (strip_tags s) then collapse_spaces (fst (strip_tags s)) else s)"

section \<open>The journal\<close>

definition LLM_KINDS :: "rstr list" where
  "LLM_KINDS = map str [''confession'', ''first_intimacy'', ''conflict'', ''reconciliation'', ''promise'',
     ''gift'', ''shared_plan'', ''user_shared_milestone'']"

definition JOURNAL_SUMMARY_MAX_CHARS :: nat where
  "JOURNAL_SUMMARY_MAX_CHARS = 200"

record journal_insert =
  ji_instance :: uuid
  ji_occurred_on :: int
  ji_kind :: rstr
  ji_realm :: rstr
  ji_summary :: rstr
  ji_source :: rstr
  ji_message :: "uuid option"
  ji_affinity_event :: "uuid option"
  ji_dedup_key :: "rstr option"
  ji_due_on :: "int option"
  ji_recurrence :: rstr

text \<open>\<open>#n\<close> names the \<open>n\<close>th row.\<close>

definition source_message :: "chat_row list \<Rightarrow> rstr option \<Rightarrow> uuid option" where
  "source_message rows source =
     Option.bind source (\<lambda>s. Option.bind (strip_prefix (str ''#'') (trim s)) (\<lambda>n.
       Option.bind (parse_usize n) (\<lambda>n.
         if 1 \<le> n \<and> n - 1 < length rows then Some (cr_id (rows ! (n - 1))) else None)))"

definition journal_of :: "(rstr \<Rightarrow> int option) \<Rightarrow> (instant \<Rightarrow> int) \<Rightarrow> (uuid \<Rightarrow> rstr) \<Rightarrow> chat_row list \<Rightarrow> uuid
    \<Rightarrow> journal_candidate \<Rightarrow> journal_insert option" where
  "journal_of parse_ymd day_of show_uuid rows i c =
     (let kind = trim (jc_kind c) in
      if kind \<notin> set LLM_KINDS then None
      else case parse_ymd (trim (jc_occurred_at c)) of
        None \<Rightarrow> None
      | Some occurred_on \<Rightarrow>
          (if \<not> list_ex (\<lambda>r. day_of (cr_sent_at r) = occurred_on) rows then None
           else let summary = take JOURNAL_SUMMARY_MAX_CHARS (one_line (jc_summary c)) in
             if summary = [] then None
             else
               (let realm = (if map_option trim (jc_realm c) = Some (str ''real'') then str ''real'' else str ''roleplay'');
                    message_id = source_message rows (jc_source c);
                    due_on = (if kind = str ''promise'' \<or> kind = str ''shared_plan''
                              then Option.bind (jc_due c) (\<lambda>d. parse_ymd (trim d)) else None);
                    dedup_key = (if kind = str ''first_intimacy'' then Some (str ''first_intimacy:'' @ realm)
                                 else if kind = str ''gift''
                                 then map_option (\<lambda>id. str ''gift:'' @ show_uuid id) message_id
                                 else None)
                in Some \<lparr>ji_instance = i, ji_occurred_on = occurred_on, ji_kind = kind, ji_realm = realm,
                     ji_summary = summary, ji_source = str ''llm'', ji_message = message_id,
                     ji_affinity_event = None, ji_dedup_key = dedup_key, ji_due_on = due_on,
                     ji_recurrence = (if due_on \<noteq> None then str ''on_due'' else str ''none'')\<rparr>)))"

definition validate_journal :: "(rstr \<Rightarrow> int option) \<Rightarrow> (instant \<Rightarrow> int) \<Rightarrow> (uuid \<Rightarrow> rstr) \<Rightarrow> journal_candidate list
    \<Rightarrow> chat_row list \<Rightarrow> uuid \<Rightarrow> journal_insert list" where
  "validate_journal parse_ymd day_of show_uuid cands rows i =
     List.map_filter (journal_of parse_ymd day_of show_uuid rows i) cands"

section \<open>The arc\<close>

datatype arc_reject = TooLong | Shrunk | OpeningMissing | OpeningTooLong

definition OPENING_MAX_CHARS :: nat where "OPENING_MAX_CHARS = 150"
definition ARC_MAX_CHARS :: nat where "ARC_MAX_CHARS = 900"
definition ARC_SHRINK_FLOOR :: f64 where "ARC_SHRINK_FLOOR = flit 0.7"
definition ARC_SHRINK_MIN_PREVIOUS :: nat where "ARC_SHRINK_MIN_PREVIOUS = 300"

definition arc_guard :: "rstr option \<Rightarrow> rstr \<Rightarrow> rstr option \<Rightarrow> bool \<Rightarrow> arc_reject + unit" where
  "arc_guard previous new_arc opening first_rewrite =
     (if ARC_MAX_CHARS < length new_arc then Inl TooLong
      else if (case previous of None \<Rightarrow> False
               | Some p \<Rightarrow> ARC_SHRINK_MIN_PREVIOUS < length p
                   \<and> f64_of_int (int (length new_arc)) < fmul ARC_SHRINK_FLOOR (f64_of_int (int (length p))))
      then Inl Shrunk
      else if first_rewrite
      then (case opening of
              Some o1 \<Rightarrow> if trim o1 = [] then Inl OpeningMissing
                        else if OPENING_MAX_CHARS < length o1 then Inl OpeningTooLong else Inr ()
            | None \<Rightarrow> Inl OpeningMissing)
      else Inr ())"

definition arc_reply_of :: "json \<Rightarrow> (rstr option \<times> rstr option) option" where
  "arc_reply_of v =
     (if struct_shape v 2
      then Option.bind (opt_string_field (struct_field v 0 (str ''opening''))) (\<lambda>opening.
           Option.bind (opt_string_field (struct_field v 1 (str ''arc''))) (\<lambda>arc. Some (opening, arc)))
      else None)"

definition parse_arc_reply :: "(rstr \<Rightarrow> json option) \<Rightarrow> rstr \<Rightarrow> (rstr option \<times> rstr) option" where
  "parse_arc_reply from_str raw =
     Option.bind (parse_llm_json from_str arc_reply_of (trim raw)) (\<lambda>(opening, arc).
       Option.bind (map_option trim arc) (\<lambda>a.
         if a = [] then None
         else Some (Option.bind (map_option trim opening) (\<lambda>x. if x = [] then None else Some x), a)))"

end
