(* ===== verification/Scan_Run.thy ===== *)
theory Scan_Run
  imports Scan_Parse
begin

text \<open>
  One relationship scan and one arc rewrite
  (\<open>crates/eros-engine-server/src/pipeline/dreaming/scan.rs\<close>, with the guarded writes of
  \<open>store/src/episode.rs\<close>, \<open>journal.rs\<close> and \<open>arc.rs\<close>). What comes from outside (the database
  calls that may fail, the model's reply, the embedding service) is a record \<open>scan_env\<close>; what
  other workers do to the database between two statements of the scan is its field
  \<open>en_others\<close>. An error logged and swallowed leaves the state as it was.
\<close>

section \<open>Tables\<close>

record episode_row =
  ep_id :: uuid
  ep_instance :: uuid
  ep_summary :: rstr
  ep_started_at :: instant
  ep_ended_at :: instant
  ep_first_message :: "uuid option"
  ep_last_message :: "uuid option"
  ep_folded :: bool

record arc_row =
  ar_opening :: rstr
  ar_arc :: rstr
  ar_previous_arc :: "rstr option"
  ar_folded_through :: instant
  ar_updated_at :: instant

record memory_write =
  mw_session :: uuid
  mw_user :: uuid
  mw_content :: rstr
  mw_category :: rstr
  mw_metadata :: "json option"

datatype scan_kind = KScan | KBackfill | KArc
datatype scan_status = StOk | StEmpty | StParseError | StRejected | StFailed

record scan_event =
  ev_instance :: uuid
  ev_kind :: scan_kind
  ev_status :: scan_status
  ev_rows_covered :: int
  ev_memories :: int
  ev_episode :: bool
  ev_journal :: int

record scan_db =
  sd_states :: "scan_state list"
  sd_episodes :: "episode_row list"
  sd_journal :: "journal_insert list"
  sd_memories :: "memory_write list"
  sd_arcs :: "uuid \<rightharpoonup> arc_row"
  sd_events :: "scan_event list"

definition EPISODE_MAX_CHARS :: nat where "EPISODE_MAX_CHARS = 400"

definition on_states :: "(scan_state list \<Rightarrow> scan_state list) \<Rightarrow> scan_db \<Rightarrow> scan_db" where
  "on_states f db = db\<lparr>sd_states := f (sd_states db)\<rparr>"

definition record_event :: "scan_event \<Rightarrow> scan_db \<Rightarrow> scan_db" where
  "record_event ev db = db\<lparr>sd_events := sd_events db @ [ev]\<rparr>"

text \<open>Writes guarded by the relationship's claim.\<close>

definition insert_episode_if_claimed :: "episode_row \<Rightarrow> scan_db \<Rightarrow> bool \<times> scan_db" where
  "insert_episode_if_claimed e db =
     (if hits (ep_instance e) has_claim (sd_states db)
      then (True, db\<lparr>sd_episodes := sd_episodes db
              @ [e\<lparr>ep_summary := take EPISODE_MAX_CHARS (one_line (ep_summary e))\<rparr>]\<rparr>)
      else (False, db))"

definition dedup_taken :: "journal_insert \<Rightarrow> scan_db \<Rightarrow> bool" where
  "dedup_taken j db \<longleftrightarrow> ji_dedup_key j \<noteq> None
     \<and> list_ex (\<lambda>k. ji_instance k = ji_instance j \<and> ji_dedup_key k = ji_dedup_key j) (sd_journal db)"

definition insert_journal_if_claimed :: "journal_insert \<Rightarrow> scan_db \<Rightarrow> bool \<times> scan_db" where
  "insert_journal_if_claimed j db =
     (if hits (ji_instance j) has_claim (sd_states db) \<and> \<not> dedup_taken j db
      then (True, db\<lparr>sd_journal := sd_journal db @ [j]\<rparr>) else (False, db))"

section \<open>A scan\<close>

datatype scan_outcome = ScanOk | ScanEmpty | ScanFailed

datatype scan_mode = Live | Backfill bool

record segment_plan =
  sp_after :: instant
  sp_bound :: instant
  sp_mode :: scan_mode

record scan_env =
  en_now :: instant
  en_voice :: bool
  en_load_ok :: bool
  en_read_ok :: bool
  en_configured :: bool
  en_reply :: "rstr option"
  en_owner :: "uuid option option"
  en_embed_ok :: bool
  en_claim_ok :: bool
  en_episode_id :: "uuid option"
  en_memory_ok :: "nat \<Rightarrow> bool"
  en_journal_ok :: "nat \<Rightarrow> bool"
  en_settle_ok :: bool
  en_others :: "nat \<Rightarrow> scan_db \<Rightarrow> scan_db"
  en_from_str :: "rstr \<Rightarrow> json option"
  en_parse_ymd :: "rstr \<Rightarrow> int option"
  en_day_of :: "rstr option \<Rightarrow> instant \<Rightarrow> int"
  en_show_uuid :: "uuid \<Rightarrow> rstr"
  en_user_text :: "chat_row \<Rightarrow> rstr"

definition scan_kind_of :: "scan_mode \<Rightarrow> scan_kind" where
  "scan_kind_of mode = (case mode of Live \<Rightarrow> KScan | Backfill _ \<Rightarrow> KBackfill)"

text \<open>What a row has left to say in the transcript.\<close>

definition line_text :: "scan_env \<Rightarrow> chat_row \<Rightarrow> rstr" where
  "line_text env r =
     (if cr_role r = RUser then en_user_text env r
      else if cr_channel r = Some (str ''voice'') then strip_audio_tags (cr_content r)
      else cr_content r)"

definition nothing_to_read :: "scan_env \<Rightarrow> chat_row list \<Rightarrow> bool" where
  "nothing_to_read env rows = list_all (\<lambda>r. trim (line_text env r) = []) rows"

definition covered_rows :: "chat_row list \<Rightarrow> int" where
  "covered_rows rows = int (length (filter (\<lambda>r. cr_role r = RUser) rows))"

definition settle_empty :: "scan_env \<Rightarrow> scan_state \<Rightarrow> segment_plan \<Rightarrow> instant \<Rightarrow> scan_db \<Rightarrow> scan_outcome \<times> scan_db" where
  "settle_empty env st seg through db =
     (if \<not> en_settle_ok env then (if sp_mode seg = Live then ScanEmpty else ScanFailed, db)
      else if sp_mode seg = Live
      then (ScanEmpty, on_states (snd \<circ> finish_scan_ok (en_now env) (ss_instance st) through (ss_pending st)) db)
      else let (moved, states) = set_backfilled_through (ss_instance st) through (sd_states db)
           in (if moved then ScanEmpty else ScanFailed, db\<lparr>sd_states := states\<rparr>))"

definition release_failed :: "scan_env \<Rightarrow> scan_state \<Rightarrow> instant \<Rightarrow> int \<Rightarrow> scan_db \<Rightarrow> scan_db" where
  "release_failed env st cursor_to covered db =
     (if en_settle_ok env
      then on_states (finish_scan_failed (en_now env) (ss_instance st) cursor_to covered) db else db)"

definition fail_scan :: "scan_env \<Rightarrow> scan_state \<Rightarrow> segment_plan \<Rightarrow> instant \<Rightarrow> int \<Rightarrow> scan_event \<Rightarrow> scan_db
    \<Rightarrow> scan_outcome \<times> scan_db" where
  "fail_scan env st seg cursor_to covered event db =
     (ScanFailed, record_event event
        (if sp_mode seg = Live then release_failed env st cursor_to covered db else db))"

definition discard :: "scan_event \<Rightarrow> scan_mode \<Rightarrow> scan_db \<Rightarrow> scan_outcome \<times> scan_db" where
  "discard event mode db =
     (case mode of Live \<Rightarrow> ScanEmpty | Backfill _ \<Rightarrow> ScanFailed,
      record_event (event\<lparr>ev_status := StEmpty\<rparr>) db)"

text \<open>The loops that write the memories and the journal rows, counting what was written.\<close>

fun write_memories :: "(nat \<Rightarrow> bool) \<Rightarrow> nat \<Rightarrow> uuid \<Rightarrow> uuid \<Rightarrow> memory_candidate list \<Rightarrow> scan_db \<Rightarrow> int \<times> scan_db" where
  "write_memories ok k session owner [] db = (0, db)"
| "write_memories ok k session owner (c # cs) db =
     (if ok k
      then let (n, db) = write_memories ok (Suc k) session owner cs
             (db\<lparr>sd_memories := sd_memories db @ [\<lparr>mw_session = session, mw_user = owner,
                 mw_content = trim (mc_content c), mw_category = normalise_category (mc_category c),
                 mw_metadata = candidate_metadata c\<rparr>]\<rparr>) in (n + 1, db)
      else write_memories ok (Suc k) session owner cs db)"

fun write_journal :: "(nat \<Rightarrow> bool) \<Rightarrow> nat \<Rightarrow> journal_insert list \<Rightarrow> scan_db \<Rightarrow> int \<times> scan_db" where
  "write_journal ok k [] db = (0, db)"
| "write_journal ok k (j # js) db =
     (if ok k
      then let (written, db) = insert_journal_if_claimed j db; (n, db) = write_journal ok (Suc k) js db
           in (if written then n + 1 else n, db)
      else write_journal ok (Suc k) js db)"

text \<open>The writes of a scan whose claim still held, and its settling.\<close>

definition write_and_settle :: "scan_env \<Rightarrow> scan_state \<Rightarrow> segment_plan \<Rightarrow> chat_row list \<Rightarrow> uuid option
    \<Rightarrow> memory_candidate list \<Rightarrow> journal_insert list \<Rightarrow> scan_event \<Rightarrow> bool \<Rightarrow> scan_db \<Rightarrow> scan_outcome \<times> bool \<times> scan_db" where
  "write_and_settle env st seg rows owner memories journal_rows event episode_written db =
     (let i = ss_instance st;
          (mem_n, db) = (case owner of
             Some u \<Rightarrow> write_memories (en_memory_ok env) 0 (cr_session (last rows)) u memories db
           | None \<Rightarrow> (0, db));
          (jou_n, db) = write_journal (en_journal_ok env) 0 journal_rows (en_others env 2 db);
          event = event\<lparr>ev_memories := mem_n, ev_episode := episode_written, ev_journal := jou_n\<rparr>;
          db = en_others env 3 db
      in if \<not> en_settle_ok env then (ScanFailed, False, record_event event db)
         else
           (let (settled, states) =
              (if sp_mode seg = Live
               then finish_scan_ok (en_now env) i (cr_sent_at (last rows)) (covered_rows rows) (sd_states db)
               else set_backfilled_through i (cr_sent_at (last rows)) (sd_states db))
            in if \<not> settled
               then (let (r, db) = discard event (sp_mode seg) (db\<lparr>sd_states := states\<rparr>) in (r, False, db))
               else
                 (let wrote_any = (0 < mem_n \<or> episode_written \<or> 0 < jou_n)
                  in (if wrote_any then ScanOk else ScanEmpty, episode_written,
                      record_event (event\<lparr>ev_status := (if wrote_any then StOk else StEmpty)\<rparr>)
                        (db\<lparr>sd_states := states\<rparr>)))))"

definition no_episode :: "scan_outcome \<times> scan_db \<Rightarrow> scan_outcome \<times> bool \<times> scan_db" where
  "no_episode r = (fst r, False, snd r)"

text \<open>From the claim check to the end: the claim is checked and its clock restarted, then the
  guarded episode, then the rest.\<close>

definition guarded_writes :: "scan_env \<Rightarrow> scan_state \<Rightarrow> segment_plan \<Rightarrow> chat_row list \<Rightarrow> uuid option
    \<Rightarrow> memory_candidate list \<Rightarrow> journal_insert list \<Rightarrow> rstr option \<Rightarrow> scan_event \<Rightarrow> scan_db
    \<Rightarrow> scan_outcome \<times> bool \<times> scan_db" where
  "guarded_writes env st seg rows owner memories journal_rows episode event db =
     (if \<not> en_claim_ok env then (ScanFailed, False, record_event event db)
      else
        (let (held, states) = refresh_claim (en_now env) (ss_instance st) (sd_states db);
             db = en_others env 1 (db\<lparr>sd_states := states\<rparr>)
         in if \<not> held then no_episode (discard event (sp_mode seg) db)
            else case episode of
              None \<Rightarrow> write_and_settle env st seg rows owner memories journal_rows event False db
            | Some summary \<Rightarrow>
                (case en_episode_id env of
                   None \<Rightarrow> no_episode (fail_scan env st seg (cr_sent_at (last rows)) (covered_rows rows) event db)
                 | Some eid \<Rightarrow>
                     (let (written, db) = insert_episode_if_claimed
                          \<lparr>ep_id = eid, ep_instance = ss_instance st, ep_summary = summary,
                           ep_started_at = cr_sent_at (hd rows), ep_ended_at = cr_sent_at (last rows),
                           ep_first_message = Some (cr_id (hd rows)),
                           ep_last_message = Some (cr_id (last rows)), ep_folded = False\<rparr> db
                      in if \<not> written then no_episode (discard event (sp_mode seg) db)
                         else write_and_settle env st seg rows owner memories journal_rows event True db))))"

text \<open>From the model's reply to the claim check.\<close>

definition digest_reply :: "scan_env \<Rightarrow> scan_state \<Rightarrow> segment_plan \<Rightarrow> chat_row list \<Rightarrow> scan_event \<Rightarrow> rstr \<Rightarrow> scan_db
    \<Rightarrow> scan_outcome \<times> bool \<times> scan_db" where
  "digest_reply env st seg rows event reply db =
     (let fail = (\<lambda>event. no_episode
            (fail_scan env st seg (cr_sent_at (last rows)) (covered_rows rows) event db))
      in case parse_scan_output (en_from_str env) reply of
           None \<Rightarrow> fail (event\<lparr>ev_status := StParseError\<rparr>)
         | Some out \<Rightarrow>
             (case (if sp_mode seg \<noteq> Backfill False \<and> so_memories out \<noteq> [] then en_owner env else Some None) of
                None \<Rightarrow> fail event
              | Some owner \<Rightarrow>
                  (let memories = (if owner \<noteq> None
                         then filter (\<lambda>c. trim (mc_content c) \<noteq> []) (so_memories out) else []);
                       journal_rows = validate_journal (en_parse_ymd env) (en_day_of env (ss_timezone st))
                         (en_show_uuid env) (so_journal out) rows (ss_instance st)
                   in if (memories \<noteq> [] \<or> journal_rows \<noteq> []) \<and> \<not> en_embed_ok env then fail event
                      else guarded_writes env st seg rows owner memories journal_rows (so_episode out) event db)))"

text \<open>
  \<open>scan_segment\<close> up to the count that may start an arc rewrite: the flag of the result says
  whether an episode was written and settled.
\<close>

definition scan_segment :: "scan_env \<Rightarrow> chat_row list \<Rightarrow> scan_state \<Rightarrow> segment_plan \<Rightarrow> scan_db
    \<Rightarrow> scan_outcome \<times> bool \<times> scan_db" where
  "scan_segment env messages st seg db =
     (let i = ss_instance st; live = (sp_mode seg = Live)
      in if \<not> en_read_ok env
         then (ScanFailed, False, if live then release_failed env st (ss_scanned_through st) 0 db else db)
         else
           (let rows = read_segment messages i (sp_after seg) (sp_bound seg) (en_voice env) MAX_ROWS_PER_SCAN;
                rows = (if live \<and> length rows = MAX_ROWS_PER_SCAN then drop_trailing_tie rows else rows)
            in if rows = [] then no_episode (settle_empty env st seg (sp_bound seg) db)
               else if nothing_to_read env rows
               then no_episode (settle_empty env st seg (cr_sent_at (last rows)) db)
               else if \<not> en_configured env then (ScanFailed, False, db)
               else
                 (let event = \<lparr>ev_instance = i, ev_kind = scan_kind_of (sp_mode seg), ev_status = StFailed,
                        ev_rows_covered = int (length rows), ev_memories = 0, ev_episode = False, ev_journal = 0\<rparr>;
                      db = en_others env 0 db
                  in case en_reply env of
                       None \<Rightarrow> no_episode
                         (fail_scan env st seg (cr_sent_at (last rows)) (covered_rows rows) event db)
                     | Some reply \<Rightarrow> digest_reply env st seg rows event reply db)))"

definition scan_instance :: "scan_env \<Rightarrow> chat_row list \<Rightarrow> uuid \<Rightarrow> instant \<Rightarrow> scan_db \<Rightarrow> scan_outcome \<times> bool \<times> scan_db" where
  "scan_instance env messages i bound db =
     (if \<not> en_load_ok env then (ScanFailed, False, db)
      else case load i (sd_states db) of
        None \<Rightarrow> (ScanEmpty, False, db)
      | Some st \<Rightarrow>
          (if bound \<le> ss_scanned_through st
           then (ScanEmpty, False, on_states (release_claim i) db)
           else scan_segment env messages st
                  \<lparr>sp_after = ss_scanned_through st, sp_bound = bound, sp_mode = Live\<rparr> db))"

end
