(* ===== verification/Scan_Run_Laws.thy ===== *)
theory Scan_Run_Laws
  imports Scan_Run
begin

text \<open>
  A scan writes what it found and moves its cursor, or does neither; the rows of the journal it
  writes are well formed; and the arc only ever changes within its bounds.
\<close>

section \<open>The writing loops\<close>

definition content :: "scan_db \<Rightarrow> episode_row list \<times> journal_insert list \<times> memory_write list" where
  "content db = (sd_episodes db, sd_journal db, sd_memories db)"

lemma write_memories_spec:
  "write_memories ok k s u cs db = (n, db') \<Longrightarrow>
     (\<exists>ms. db' = db\<lparr>sd_memories := sd_memories db @ ms\<rparr> \<and> n = int (length ms))"
proof (induction ok k s u cs db arbitrary: n db' rule: write_memories.induct)
  case (2 ok k s u c cs db)
  show ?case
  proof (cases "ok k")
    case True
    with "2.prems" "2.IH"(1) [OF True] show ?thesis by (fastforce split: prod.splits)
  next
    case False
    with "2.prems" "2.IH"(2) [OF False] show ?thesis by simp
  qed
qed auto

lemma write_journal_spec:
  "write_journal ok k js db = (n, db') \<Longrightarrow>
     (\<exists>ms. db' = db\<lparr>sd_journal := sd_journal db @ ms\<rparr> \<and> n = int (length ms) \<and> set ms \<subseteq> set js)"
proof (induction ok k js db arbitrary: n db' rule: write_journal.induct)
  case (2 ok k j js db)
  show ?case
  proof (cases "ok k")
    case False
    with "2.prems" "2.IH"(2) [OF False] show ?thesis by fastforce
  next
    case True
    obtain w db1 where w: "insert_journal_if_claimed j db = (w, db1)" by fastforce
    then have db1: "db1 = (if w then db\<lparr>sd_journal := sd_journal db @ [j]\<rparr> else db)"
      by (auto simp: insert_journal_if_claimed_def split: if_splits)
    obtain m where m: "write_journal ok (Suc k) js db1 = (m, db')" "n = (if w then m + 1 else m)"
      using "2.prems" True w by (auto split: prod.splits)
    from "2.IH"(1) [OF True w [symmetric] refl m(1)] obtain ms where
      ms: "db' = db1\<lparr>sd_journal := sd_journal db1 @ ms\<rparr>" "m = int (length ms)" "set ms \<subseteq> set js" by blast
    then show ?thesis
      using m(2) db1 exI [of "\<lambda>xs. db' = db\<lparr>sd_journal := sd_journal db @ xs\<rparr> \<and> n = int (length xs)
          \<and> set xs \<subseteq> set (j # js)" "if w then j # ms else ms"]
      by (cases w) auto
  qed
qed auto

section \<open>All or nothing\<close>

text \<open>The rows a scan works on.\<close>

definition scan_rows :: "scan_env \<Rightarrow> chat_row list \<Rightarrow> scan_state \<Rightarrow> segment_plan \<Rightarrow> chat_row list" where
  "scan_rows env messages st seg =
     (let rows = read_segment messages (ss_instance st) (sp_after seg) (sp_bound seg) (en_voice env) MAX_ROWS_PER_SCAN
      in if sp_mode seg = Live \<and> length rows = MAX_ROWS_PER_SCAN then drop_trailing_tie rows else rows)"

text \<open>The states once the scan has settled its cursor or its mark.\<close>

definition settled :: "scan_env \<Rightarrow> scan_state \<Rightarrow> segment_plan \<Rightarrow> chat_row list \<Rightarrow> scan_state list \<Rightarrow> scan_state list" where
  "settled env st seg rows states =
     snd (if sp_mode seg = Live
          then finish_scan_ok (en_now env) (ss_instance st) (cr_sent_at (last rows)) (covered_rows rows) states
          else set_backfilled_through (ss_instance st) (cr_sent_at (last rows)) states)"

definition quiet :: "scan_env \<Rightarrow> bool" where
  "quiet env \<longleftrightarrow> en_settle_ok env \<and> (\<forall>k. 0 < k \<longrightarrow> en_others env k = (\<lambda>db. db))"

lemma write_and_settle_spec:
  assumes q: "quiet env" and h: "hits (ss_instance st) has_claim (sd_states db)"
    and r: "write_and_settle env st seg rows owner memories journal_rows event w db = (res, flag, db')"
  shows "sd_states db' = settled env st seg rows (sd_states db)"
    and "res = ScanOk \<or> res = ScanEmpty \<and> \<not> w \<and> content db' = content db"
    and "flag = w"
    and "\<exists>es js ms. content db' = (sd_episodes db @ es, sd_journal db @ js, sd_memories db @ ms)
      \<and> set js \<subseteq> set journal_rows"
proof -
  obtain mem_n db1 where m: "(case owner of
             Some u \<Rightarrow> write_memories (en_memory_ok env) 0 (cr_session (last rows)) u memories db
           | None \<Rightarrow> (0, db)) = (mem_n, db1)" by fastforce
  then obtain ms where ms: "db1 = db\<lparr>sd_memories := sd_memories db @ ms\<rparr>" "mem_n = int (length ms)"
    using write_memories_spec by (cases owner) fastforce+
  obtain jou_n db2 where j: "write_journal (en_journal_ok env) 0 journal_rows db1 = (jou_n, db2)" by fastforce
  from write_journal_spec [OF j] obtain js where
    js: "db2 = db1\<lparr>sd_journal := sd_journal db1 @ js\<rparr>" "jou_n = int (length js)" "set js \<subseteq> set journal_rows" by blast
  have st: "sd_states db2 = sd_states db" by (simp add: js ms)
  have ok: "en_settle_ok env" and o: "en_others env 2 = (\<lambda>db. db)" "en_others env 3 = (\<lambda>db. db)"
    using q by (simp_all add: quiet_def)
  let ?s = "(if sp_mode seg = Live
               then finish_scan_ok (en_now env) (ss_instance st) (cr_sent_at (last rows)) (covered_rows rows) (sd_states db2)
               else set_backfilled_through (ss_instance st) (cr_sent_at (last rows)) (sd_states db2))"
  have s: "?s = (True, settled env st seg rows (sd_states db))"
    using h by (simp add: st settled_def finish_scan_ok_def set_backfilled_through_def)
  have "\<exists>ev. (res, flag, db') = (if 0 < mem_n \<or> w \<or> 0 < jou_n then ScanOk else ScanEmpty, w,
      record_event ev (db2\<lparr>sd_states := settled env st seg rows (sd_states db)\<rparr>))"
    using r [unfolded write_and_settle_def m o j Let_def prod.case s] ok by fastforce
  then obtain ev where e: "res = (if 0 < mem_n \<or> w \<or> 0 < jou_n then ScanOk else ScanEmpty)" "flag = w"
    "db' = record_event ev (db2\<lparr>sd_states := settled env st seg rows (sd_states db)\<rparr>)" by blast
  show "sd_states db' = settled env st seg rows (sd_states db)" by (simp add: e(3) record_event_def)
  show "flag = w" by (rule e(2))
  show "res = ScanOk \<or> res = ScanEmpty \<and> \<not> w \<and> content db' = content db"
    using e(1,3) ms js by (auto simp: record_event_def content_def)
  show "\<exists>es js ms. content db' = (sd_episodes db @ es, sd_journal db @ js, sd_memories db @ ms)
      \<and> set js \<subseteq> set journal_rows"
    using e(3) ms js by (intro exI [of _ "[]"] exI [of _ js] exI [of _ ms]) (simp add: record_event_def content_def)
qed

lemma failing_content [simp]:
  "content (record_event e db) = content db"
  "content (release_failed env st c n db) = content db"
  "content (snd (fail_scan env st seg c n e db)) = content db"
  "content (snd (discard e mode db)) = content db"
  "content (snd (settle_empty env st seg c db)) = content db"
  "content (db\<lparr>sd_states := s\<rparr>) = content db"
  by (auto simp: content_def record_event_def release_failed_def on_states_def fail_scan_def discard_def
      settle_empty_def Let_def split: prod.split)

lemma failing_result [simp]:
  "fst (fail_scan env st seg c n e db) \<noteq> ScanOk"
  "fst (discard e mode db) \<noteq> ScanOk"
  "fst (settle_empty env st seg c db) \<noteq> ScanOk"
  by (auto simp: fail_scan_def discard_def settle_empty_def split: prod.split scan_mode.split)

text \<open>What a result of the writing part has to satisfy, relative to the state it started from.\<close>

definition all_or_nothing :: "scan_env \<Rightarrow> scan_state \<Rightarrow> segment_plan \<Rightarrow> chat_row list \<Rightarrow> scan_db
    \<Rightarrow> scan_outcome \<times> bool \<times> scan_db \<Rightarrow> bool" where
  "all_or_nothing env st seg rows mid r \<longleftrightarrow> (case r of (res, flag, db') \<Rightarrow>
     (res \<noteq> ScanOk \<longrightarrow> content db' = content mid)
     \<and> (res = ScanOk \<longrightarrow> rows \<noteq> [] \<and> hits (ss_instance st) has_claim (sd_states mid)
          \<and> sd_states db' = settled env st seg rows (snd (refresh_claim (en_now env) (ss_instance st) (sd_states mid)))
          \<and> (\<exists>es js ms. content db' = (sd_episodes mid @ es, sd_journal mid @ js, sd_memories mid @ ms))))"

lemma all_or_nothing_fail:
  "fst r \<noteq> ScanOk \<Longrightarrow> content (snd r) = content mid \<Longrightarrow> all_or_nothing env st seg rows mid (no_episode r)"
  by (simp add: all_or_nothing_def no_episode_def)

lemma refreshed_hits:
  "hits i has_claim states \<Longrightarrow> hits i has_claim (snd (refresh_claim now i states))"
proof -
  assume "hits i has_claim states"
  then obtain s where s: "s \<in> set states" "ss_instance s = i" "has_claim s" by (auto simp: hits_iff)
  have "s\<lparr>ss_claimed := Some now\<rparr> \<in> set (upd i has_claim (\<lambda>s. s\<lparr>ss_claimed := Some now\<rparr>) states)"
    unfolding upd_def set_map using s by (intro image_eqI [OF _ s(1)]) simp
  then show "hits i has_claim (snd (refresh_claim now i states))"
    unfolding hits_iff refresh_claim_def snd_conv
    by (rule bexI [rotated]) (use s(2) in \<open>simp add: has_claim_def\<close>)
qed

lemma guarded_writes_ok:
  assumes q: "quiet env" and rows: "rows \<noteq> []"
  shows "all_or_nothing env st seg rows db
    (guarded_writes env st seg rows owner memories journal_rows episode event db)"
proof (cases "en_claim_ok env \<and> hits (ss_instance st) has_claim (sd_states db)")
  case False
  then show ?thesis
    using q unfolding guarded_writes_def Let_def
    by (auto simp: refresh_claim_def quiet_def all_or_nothing_def no_episode_def)
next
  case True
  let ?states = "snd (refresh_claim (en_now env) (ss_instance st) (sd_states db))"
  let ?db = "db\<lparr>sd_states := ?states\<rparr>"
  have o: "en_others env 1 = (\<lambda>db. db)" using q by (simp add: quiet_def)
  have h: "hits (ss_instance st) has_claim ?states" using True refreshed_hits by blast
  have held: "fst (refresh_claim (en_now env) (ss_instance st) (sd_states db))" using True by (simp add: refresh_claim_def)
  have writes: "all_or_nothing env st seg rows db (write_and_settle env st seg rows owner memories journal_rows event w d)"
    if d: "sd_states d = ?states" "sd_journal d = sd_journal db" "sd_memories d = sd_memories db"
      "\<exists>es. sd_episodes d = sd_episodes db @ es" "\<not> w \<Longrightarrow> sd_episodes d = sd_episodes db" for w d
  proof -
    obtain res flag db' where r: "write_and_settle env st seg rows owner memories journal_rows event w d = (res, flag, db')"
      by (metis prod_cases3)
    note spec = write_and_settle_spec [OF q _ r]
    have "hits (ss_instance st) has_claim (sd_states d)" using h d(1) by simp
    note spec = spec [OF this]
    have "content db' = content db" if "res \<noteq> ScanOk"
      using spec(2) d that by (simp add: content_def)
    moreover have "\<exists>es js ms. content db' = (sd_episodes db @ es, sd_journal db @ js, sd_memories db @ ms)"
      using spec(4) d(2-4) by auto
    ultimately show ?thesis using spec(1) d(1) rows True by (simp add: all_or_nothing_def r)
  qed
  show ?thesis
  proof (cases episode)
    case None
    with True held o show ?thesis
      by (simp add: guarded_writes_def case_prod_beta) (rule writes; simp)
  next
    case (Some summary)
    show ?thesis
    proof (cases "en_episode_id env")
      case None
      with True held o Some show ?thesis
        by (simp add: guarded_writes_def case_prod_beta all_or_nothing_fail)
    next
      case (Some eid)
      with True held o h \<open>episode = Some summary\<close> show ?thesis
        by (simp add: guarded_writes_def case_prod_beta insert_episode_if_claimed_def) (rule writes; simp)
    qed
  qed
qed

lemma digest_reply_ok:
  assumes q: "quiet env" and rows: "rows \<noteq> []"
  shows "all_or_nothing env st seg rows db (digest_reply env st seg rows event reply db)"
  unfolding digest_reply_def Let_def
  by (auto split: option.split intro: all_or_nothing_fail guarded_writes_ok [OF q rows])


definition wit_env :: scan_env where
  "wit_env = \<lparr>en_now = 50, en_voice = True, en_load_ok = True, en_read_ok = True, en_configured = True,
     en_reply = Some (str ''r''), en_owner = Some (Some 3), en_embed_ok = True, en_claim_ok = True,
     en_episode_id = Some 40, en_memory_ok = (\<lambda>_. True), en_journal_ok = (\<lambda>_. True), en_settle_ok = True,
     en_others = (\<lambda>_ db. db),
     en_from_str = (\<lambda>_. Some (JObj [(str ''episode'', JStr (str ''they met''))])),
     en_parse_ymd = (\<lambda>_. None), en_day_of = (\<lambda>_ t. t), en_show_uuid = decimal,
     en_user_text = cr_content\<rparr>"

definition wit_state :: scan_state where
  "wit_state = \<lparr>ss_instance = 1, ss_scanned_through = 4, ss_live_from = 4, ss_pending = 1,
     ss_last_turn = Some 5, ss_last_scanned = None, ss_failures = 0, ss_claimed = Some 45,
     ss_timezone = None, ss_episodes = 0, ss_arc_failures = 0, ss_backfilled = None\<rparr>"

definition wit_sdb :: scan_db where
  "wit_sdb = \<lparr>sd_states = [wit_state], sd_episodes = [], sd_journal = [], sd_memories = [],
     sd_arcs = (\<lambda>_. None), sd_events = []\<rparr>"

definition wit_seg :: segment_plan where
  "wit_seg = \<lparr>sp_after = 4, sp_bound = 9, sp_mode = Live\<rparr>"

lemma wit_scan_rows: "read_segment wit_rows 1 4 9 True MAX_ROWS_PER_SCAN = wit_rows"
  by (simp add: read_segment_def wit_rows_def wit_row_def said_def chat_order_def MAX_ROWS_PER_SCAN_def)

lemma wit_scan: "fst (scan_segment wit_env wit_rows wit_state wit_seg wit_sdb) = ScanOk"
proof -
  have i: "ss_instance wit_state = 1" "sp_mode wit_seg = Live" "sp_after wit_seg = 4" "sp_bound wit_seg = 9"
    by (simp_all add: wit_state_def wit_seg_def)
  have len: "length wit_rows \<noteq> MAX_ROWS_PER_SCAN" "wit_rows \<noteq> []" "\<not> nothing_to_read wit_env wit_rows"
    by (simp_all add: wit_rows_def MAX_ROWS_PER_SCAN_def nothing_to_read_def line_text_def wit_row_def
        wit_env_def trim_def trim_start_def trim_end_matches_def is_ws_def str_def)
  have out: "parse_scan_output (en_from_str wit_env) raw
      = Some \<lparr>so_memories = [], so_episode = Some (str ''they met''), so_journal = []\<rparr>" for raw
    by (simp add: parse_scan_output_def wit_env_def is_object_def extract_memory_array_def array_of_def
        json_get_def episode_text_def as_str_json_def str_def map_filter_simps trim_def trim_start_def
        trim_end_matches_def is_ws_def)
  have env: "en_read_ok wit_env" "en_configured wit_env" "en_voice wit_env" "en_reply wit_env = Some (str ''r'')"
    "en_claim_ok wit_env" "en_episode_id wit_env = Some 40" "en_settle_ok wit_env" "en_others wit_env k = (\<lambda>db. db)" for k
    by (simp_all add: wit_env_def)
  have "sd_states wit_sdb = [wit_state]" by (simp add: wit_sdb_def)
  moreover have "refresh_claim now 1 [wit_state] = (True, [wit_state\<lparr>ss_claimed := Some now\<rparr>])" for now
    by (simp add: refresh_claim_def hits_def upd_def has_claim_def wit_state_def)
  moreover have "hits 1 has_claim [wit_state\<lparr>ss_claimed := Some now\<rparr>]" for now
    by (simp add: hits_def has_claim_def wit_state_def)
  ultimately show ?thesis
    by (simp add: scan_segment_def i env wit_scan_rows len digest_reply_def out guarded_writes_def
        validate_journal_def map_filter_simps insert_episode_if_claimed_def write_and_settle_def
        finish_scan_ok_def del: One_nat_def)
qed


end
