(* ===== verification/Scan_Arc.thy ===== *)
theory Scan_Arc
  imports Scan_Run_Laws
begin

text \<open>
  The arc rewrite (\<open>rewrite_arc\<close> of \<open>dreaming/scan.rs\<close>, \<open>ArcRepo\<close> of \<open>store/src/arc.rs\<close>,
  \<open>unfolded\<close> and \<open>mark_folded\<close> of \<open>store/src/episode.rs\<close>) and the shape of the journal rows a
  scan may write.
\<close>

section \<open>The arc's table\<close>

definition replace_if_live :: "instant \<Rightarrow> uuid \<Rightarrow> rstr option \<Rightarrow> rstr \<Rightarrow> instant \<Rightarrow> scan_db \<Rightarrow> rstr + (bool \<times> scan_db)" where
  "replace_if_live now i opening arc folded_through db =
     (let live = hits i (\<lambda>_. True) (sd_states db);
          update = (\<lambda>a. db\<lparr>sd_arcs := (sd_arcs db)(i \<mapsto> a\<lparr>ar_previous_arc := Some (ar_arc a), ar_arc := arc,
                      ar_folded_through := folded_through, ar_updated_at := now\<rparr>)\<rparr>)
      in case opening of
           Some o1 \<Rightarrow>
             (if \<not> live then Inr (False, db)
              else (case sd_arcs db i of
                      Some a \<Rightarrow> Inr (True, update a)
                    | None \<Rightarrow> Inr (True, db\<lparr>sd_arcs := (sd_arcs db)(i \<mapsto> \<lparr>ar_opening = o1, ar_arc = arc,
                        ar_previous_arc = None, ar_folded_through = folded_through, ar_updated_at = now\<rparr>)\<rparr>)))
         | None \<Rightarrow>
             (case sd_arcs db i of
                Some a \<Rightarrow> if live then Inr (True, update a) else Inr (False, db)
              | None \<Rightarrow> if live then Inl (str ''opening required on first arc'') else Inr (False, db)))"

definition unfolded :: "uuid \<Rightarrow> scan_db \<Rightarrow> episode_row list" where
  "unfolded i db = sort_key ep_ended_at (sort_key ep_id
     (filter (\<lambda>e. ep_instance e = i \<and> \<not> ep_folded e) (sd_episodes db)))"

definition mark_folded :: "uuid list \<Rightarrow> scan_db \<Rightarrow> scan_db" where
  "mark_folded ids db = db\<lparr>sd_episodes :=
     map (\<lambda>e. if ep_id e \<in> set ids then e\<lparr>ep_folded := True\<rparr> else e) (sd_episodes db)\<rparr>"

section \<open>The rewrite\<close>

record arc_env =
  ae_now :: instant
  ae_configured :: bool
  ae_read_ok :: bool
  ae_reserve_ok :: bool
  ae_reply :: "rstr option"
  ae_from_str :: "rstr \<Rightarrow> json option"
  ae_write_ok :: bool
  ae_fold_ok :: bool
  ae_count_ok :: bool
  ae_others :: "scan_db \<Rightarrow> scan_db"

text \<open>The model's reply judged and stored: the status the event gets.\<close>

definition store_arc :: "arc_env \<Rightarrow> uuid \<Rightarrow> arc_row option \<Rightarrow> instant \<Rightarrow> rstr \<Rightarrow> scan_db \<Rightarrow> scan_status \<times> scan_db" where
  "store_arc env i arc_row folded_through reply db =
     (case parse_arc_reply (ae_from_str env) reply of
        None \<Rightarrow> (StParseError, db)
      | Some (opening, arc) \<Rightarrow>
          (let first_rewrite = (arc_row = None)
           in case arc_guard (map_option ar_arc arc_row) arc opening first_rewrite of
                Inl reject \<Rightarrow> (StRejected, db)
              | Inr _ \<Rightarrow>
                  (if \<not> ae_write_ok env then (StFailed, db)
                   else case replace_if_live (ae_now env) i (if first_rewrite then opening else None) arc
                               folded_through db of
                     Inl e \<Rightarrow> (StFailed, db)
                   | Inr (True, db') \<Rightarrow> (StOk, db')
                   | Inr (False, db') \<Rightarrow> (StEmpty, db'))))"

text \<open>What the status does to the counters and the episodes.\<close>

definition settle_arc :: "arc_env \<Rightarrow> uuid \<Rightarrow> uuid list \<Rightarrow> scan_status \<Rightarrow> scan_db \<Rightarrow> scan_db" where
  "settle_arc env i ids status db =
     (if status = StOk
      then let db = (if ae_fold_ok env then mark_folded ids db else db)
           in if ae_count_ok env then on_states (fold_episodes i) db else db
      else if status = StEmpty then db
      else if \<not> ae_count_ok env then db
      else (let (n, states) = arc_failed i (sd_states db); db = db\<lparr>sd_states := states\<rparr>
            in if MAX_ARC_FAILURES \<le> n \<and> ae_fold_ok env then mark_folded ids db else db))"

definition rewrite_arc :: "arc_env \<Rightarrow> uuid \<Rightarrow> scan_db \<Rightarrow> scan_db" where
  "rewrite_arc env i db =
     (if \<not> ae_configured env \<or> \<not> ae_read_ok env then db
      else (let episodes = unfolded i db in
        case (load i (sd_states db), max_opt (map ep_ended_at episodes)) of
          (Some st, Some folded_through) \<Rightarrow>
            (if \<not> ae_reserve_ok env then db
             else
               (let arc_row = sd_arcs db i;
                    db = ae_others env (on_states (reserve_fold i) db);
                    (status, db) = (case ae_reply env of
                       None \<Rightarrow> (StFailed, db)
                     | Some reply \<Rightarrow> store_arc env i arc_row folded_through reply db)
                in record_event \<lparr>ev_instance = i, ev_kind = KArc, ev_status = status, ev_rows_covered = 0,
                      ev_memories = 0, ev_episode = False, ev_journal = 0\<rparr>
                     (settle_arc env i (map ep_id episodes) status db)))
        | _ \<Rightarrow> db))"

text \<open>What follows a scan that wrote an episode: the episode is counted, and every
  \<open>ARC_FOLD_EVERY\<close>th starts a rewrite.\<close>

definition ARC_FOLD_EVERY :: int where "ARC_FOLD_EVERY = 4"

definition after_scan :: "arc_env \<Rightarrow> uuid \<Rightarrow> bool \<Rightarrow> scan_db \<Rightarrow> scan_db" where
  "after_scan env i episode_written db =
     (if \<not> episode_written \<or> \<not> ae_count_ok env then db
      else let (n, states) = bump_episodes i (sd_states db); db = db\<lparr>sd_states := states\<rparr>
           in if ARC_FOLD_EVERY \<le> n then rewrite_arc env i db else db)"

section \<open>The arc stays in its bounds\<close>

definition arc_ok :: "arc_row \<Rightarrow> bool" where
  "arc_ok a \<longleftrightarrow> ar_arc a \<noteq> [] \<and> length (ar_arc a) \<le> ARC_MAX_CHARS
     \<and> trim (ar_opening a) \<noteq> [] \<and> length (ar_opening a) \<le> OPENING_MAX_CHARS"

definition arcs_ok :: "scan_db \<Rightarrow> bool" where
  "arcs_ok db \<longleftrightarrow> (\<forall>i a. sd_arcs db i = Some a \<longrightarrow> arc_ok a)"

text \<open>The only way an arc changes: the text it had becomes the previous one, the opening stays.\<close>

definition arc_step :: "arc_row \<Rightarrow> arc_row \<Rightarrow> bool" where
  "arc_step a b \<longleftrightarrow> b = a \<or> (ar_opening b = ar_opening a \<and> ar_previous_arc b = Some (ar_arc a))"

definition arcs_step :: "uuid \<Rightarrow> scan_db \<Rightarrow> scan_db \<Rightarrow> bool" where
  "arcs_step i db db' \<longleftrightarrow> (\<forall>j. j \<noteq> i \<longrightarrow> sd_arcs db' j = sd_arcs db j)
     \<and> (\<forall>a. sd_arcs db i = Some a \<longrightarrow> (\<exists>b. sd_arcs db' i = Some b \<and> arc_step a b))"

lemma arcs_step_refl: "sd_arcs db' = sd_arcs db \<Longrightarrow> arcs_step i db db'"
  by (simp add: arcs_step_def arc_step_def)

lemma settle_arc_arcs: "sd_arcs (settle_arc env i ids status db) = sd_arcs db"
  by (simp add: settle_arc_def Let_def mark_folded_def on_states_def split: prod.split)

lemma arc_guard_Inr:
  assumes "arc_guard prev arc opening first = Inr u"
  shows "length arc \<le> ARC_MAX_CHARS"
    and "first \<Longrightarrow> \<exists>o1. opening = Some o1 \<and> trim o1 \<noteq> [] \<and> length o1 \<le> OPENING_MAX_CHARS"
    and "prev = Some p \<Longrightarrow> ARC_SHRINK_MIN_PREVIOUS < length p
      \<Longrightarrow> fmul ARC_SHRINK_FLOOR (f64_of_int (int (length p))) \<le> f64_of_int (int (length arc))"
  using assms by (auto simp: arc_guard_def not_less split: if_splits option.splits)

lemma parse_arc_reply_nonempty: "parse_arc_reply fs raw = Some (opening, arc) \<Longrightarrow> arc \<noteq> []"
  unfolding parse_arc_reply_def by (auto simp: bind_eq_Some_conv split: if_splits)

lemma store_arc_ok:
  assumes ok: "arcs_ok db" and s: "store_arc env i row through reply db = (status, db')"
  shows "arcs_ok db' \<and> arcs_step i db db'"
proof (cases "\<exists>opening arc u. parse_arc_reply (ae_from_str env) reply = Some (opening, arc)
    \<and> arc_guard (map_option ar_arc row) arc opening (row = None) = Inr u \<and> ae_write_ok env")
  case False
  with s have "db' = db"
    by (auto simp: store_arc_def Let_def split: option.splits sum.splits if_splits)
  with ok show ?thesis by (simp add: arcs_step_refl)
next
  case True
  then obtain opn arc u where p: "parse_arc_reply (ae_from_str env) reply = Some (opn, arc)"
    and g: "arc_guard (map_option ar_arc row) arc opn (row = None) = Inr u" and w: "ae_write_ok env" by blast
  note b = arc_guard_Inr(1,2) [OF g] parse_arc_reply_nonempty [OF p]
  let ?o = "if row = None then opn else None"
  show ?thesis
  proof (cases "replace_if_live (ae_now env) i ?o arc through db")
    case (Inl e)
    with s p g w have "db' = db" by (simp add: store_arc_def)
    with ok show ?thesis by (simp add: arcs_step_refl)
  next
    case (Inr r)
    then have db': "db' = snd r" using s p g w by (auto simp: store_arc_def split: prod.splits bool.splits)
    have "sd_arcs db' = sd_arcs db
      \<or> (\<exists>a. sd_arcs db i = Some a \<and> sd_arcs db' = (sd_arcs db)(i \<mapsto> a\<lparr>ar_previous_arc := Some (ar_arc a),
            ar_arc := arc, ar_folded_through := through, ar_updated_at := ae_now env\<rparr>))
      \<or> (\<exists>o1. ?o = Some o1 \<and> sd_arcs db i = None \<and> sd_arcs db' = (sd_arcs db)(i \<mapsto> \<lparr>ar_opening = o1, ar_arc = arc,
            ar_previous_arc = None, ar_folded_through = through, ar_updated_at = ae_now env\<rparr>))"
      using Inr unfolding db' by (auto simp: replace_if_live_def Let_def split: option.splits if_splits)
    then show ?thesis
    proof (elim disjE exE conjE)
      assume "sd_arcs db' = sd_arcs db"
      with ok show ?thesis by (simp add: arcs_step_refl arcs_ok_def)
    next
      fix a assume "sd_arcs db i = Some a" "sd_arcs db' = (sd_arcs db)(i \<mapsto> a\<lparr>ar_previous_arc := Some (ar_arc a),
            ar_arc := arc, ar_folded_through := through, ar_updated_at := ae_now env\<rparr>)"
      with ok b show ?thesis by (auto simp: arcs_ok_def arc_ok_def arcs_step_def arc_step_def)
    next
      fix o1 assume "?o = Some o1" "sd_arcs db i = None" "sd_arcs db' = (sd_arcs db)(i \<mapsto> \<lparr>ar_opening = o1,
            ar_arc = arc, ar_previous_arc = None, ar_folded_through = through, ar_updated_at = ae_now env\<rparr>)"
      with ok b show ?thesis by (auto simp: arcs_ok_def arc_ok_def arcs_step_def arc_step_def split: if_splits)
    qed
  qed
qed

text \<open>The arc stays in its bounds whatever the model answers. If every stored arc is within its
  limits (nonblank, at most 900 characters, with a nonblank opening of at most 150) and the other
  workers keep it that way during the call, it is so after a rewrite; the rewrite touches no other
  relationship, never changes an opening once it is written, and keeps the text it replaces as the
  previous arc.\<close>

theorem arc_rewrite_in_bounds:
  assumes ok: "arcs_ok db" and others: "\<And>d. arcs_ok d \<Longrightarrow> arcs_ok (ae_others env d)"
  shows "arcs_ok (rewrite_arc env i db)
    \<and> (sd_arcs (rewrite_arc env i db) = sd_arcs db
       \<or> arcs_step i (ae_others env (on_states (reserve_fold i) db)) (rewrite_arc env i db))"
proof (cases "ae_configured env \<and> ae_read_ok env \<and> ae_reserve_ok env \<and> load i (sd_states db) \<noteq> None
    \<and> max_opt (map ep_ended_at (unfolded i db)) \<noteq> None")
  case False
  then have "rewrite_arc env i db = db" by (auto simp: rewrite_arc_def Let_def split: option.splits)
  with ok show ?thesis by simp
next
  case True
  then obtain st through where t: "load i (sd_states db) = Some st" "max_opt (map ep_ended_at (unfolded i db)) = Some through"
    by blast
  let ?mid = "ae_others env (on_states (reserve_fold i) db)"
  have mid: "arcs_ok ?mid" by (rule others) (use ok in \<open>simp add: arcs_ok_def on_states_def\<close>)
  obtain status db1 where s: "(case ae_reply env of None \<Rightarrow> (StFailed, ?mid)
     | Some reply \<Rightarrow> store_arc env i (sd_arcs db i) through reply ?mid) = (status, db1)" by fastforce
  have d: "arcs_ok db1 \<and> arcs_step i ?mid db1"
  proof (cases "ae_reply env")
    case None
    with s mid show ?thesis by (simp add: arcs_step_refl)
  next
    case (Some reply)
    with s store_arc_ok [OF mid] show ?thesis by simp
  qed
  have "\<exists>ev ids. rewrite_arc env i db = record_event ev (settle_arc env i ids status db1)"
    using True t s by (auto simp: rewrite_arc_def Let_def)
  then have "sd_arcs (rewrite_arc env i db) = sd_arcs db1" by (auto simp: record_event_def settle_arc_arcs)
  with d show ?thesis by (simp add: arcs_ok_def arcs_step_def)
qed

definition wit_arc_env :: arc_env where
  "wit_arc_env = \<lparr>ae_now = 60, ae_configured = True, ae_read_ok = True, ae_reserve_ok = True,
     ae_reply = Some (str ''r''),
     ae_from_str = (\<lambda>_. Some (JObj [(str ''opening'', JStr (str ''a chat'')), (str ''arc'', JStr (str ''friends''))])),
     ae_write_ok = True, ae_fold_ok = True, ae_count_ok = True, ae_others = (\<lambda>d. d)\<rparr>"

definition wit_arc_db :: scan_db where
  "wit_arc_db = wit_sdb\<lparr>sd_episodes := [\<lparr>ep_id = 40, ep_instance = 1, ep_summary = str ''met'', ep_started_at = 5,
     ep_ended_at = 6, ep_first_message = None, ep_last_message = None, ep_folded = False\<rparr>]\<rparr>"

lemma wit_arc_written: "map_option ar_arc (sd_arcs (rewrite_arc wit_arc_env 1 wit_arc_db) 1) = Some (str ''friends'')"
proof -
  have p: "parse_arc_reply (ae_from_str wit_arc_env) raw = Some (Some (str ''a chat''), str ''friends'')" for raw
    by (simp add: parse_arc_reply_def parse_llm_json_def arc_reply_of_def wit_arc_env_def struct_shape_def
        struct_field_def json_get_def opt_string_field_def str_def trim_def trim_start_def trim_end_matches_def is_ws_def)
  have g: "arc_guard None (str ''friends'') (Some (str ''a chat'')) True = Inr ()"
    by (simp add: arc_guard_def ARC_MAX_CHARS_def OPENING_MAX_CHARS_def str_def trim_def trim_start_def
        trim_end_matches_def is_ws_def)
  have u: "unfolded 1 wit_arc_db = sd_episodes wit_arc_db" by (simp add: unfolded_def wit_arc_db_def)
  have m: "max_opt (map ep_ended_at (sd_episodes wit_arc_db)) = Some 6" by (simp add: max_opt_def wit_arc_db_def)
  have l: "load 1 (sd_states wit_arc_db) = Some wit_state" "sd_arcs wit_arc_db = (\<lambda>_. None)"
    by (simp_all add: load_def wit_arc_db_def wit_sdb_def wit_state_def)
  have env: "ae_configured wit_arc_env" "ae_read_ok wit_arc_env" "ae_reserve_ok wit_arc_env" "ae_write_ok wit_arc_env"
    "ae_others wit_arc_env = (\<lambda>d. d)" "ae_reply wit_arc_env = Some (str ''r'')" by (simp_all add: wit_arc_env_def)
  have live: "hits 1 (\<lambda>_. True) (reserve_fold 1 (sd_states wit_arc_db))"
    by (simp add: hits_def reserve_fold_def upd_def wit_arc_db_def wit_sdb_def wit_state_def)
  show ?thesis
    using live by (simp add: rewrite_arc_def Let_def u m l env store_arc_def p [simplified] g [simplified] replace_if_live_def on_states_def
        record_event_def settle_arc_arcs del: One_nat_def)
qed

theorem arc_rewrite_in_bounds_witness:
  "arcs_ok (rewrite_arc wit_arc_env 1 wit_arc_db) \<and> sd_arcs (rewrite_arc wit_arc_env 1 wit_arc_db) 1 \<noteq> None"
proof -
  have "arcs_ok wit_arc_db" by (simp add: arcs_ok_def wit_arc_db_def wit_sdb_def)
  moreover have "arcs_ok (ae_others wit_arc_env d)" if "arcs_ok d" for d using that by (simp add: wit_arc_env_def)
  ultimately show ?thesis using arc_rewrite_in_bounds [of wit_arc_db wit_arc_env 1] wit_arc_written by fastforce
qed

section \<open>The shape of journal rows\<close>

text \<open>What the table and its readers expect of a row the model wrote.\<close>

definition journal_row_ok :: "(instant \<Rightarrow> int) \<Rightarrow> chat_row list \<Rightarrow> uuid \<Rightarrow> journal_insert \<Rightarrow> bool" where
  "journal_row_ok day_of rows i j \<longleftrightarrow> ji_instance j = i \<and> ji_kind j \<in> set LLM_KINDS
     \<and> (ji_realm j = str ''real'' \<or> ji_realm j = str ''roleplay'') \<and> ji_source j = str ''llm''
     \<and> ji_summary j \<noteq> [] \<and> length (ji_summary j) \<le> JOURNAL_SUMMARY_MAX_CHARS
     \<and> list_all (\<lambda>c. c \<noteq> 10 \<and> c \<noteq> 13) (ji_summary j)
     \<and> list_ex (\<lambda>r. day_of (cr_sent_at r) = ji_occurred_on j) rows
     \<and> (case ji_message j of None \<Rightarrow> True | Some m \<Rightarrow> list_ex (\<lambda>r. cr_id r = m) rows)
     \<and> (ji_due_on j \<noteq> None \<longrightarrow> ji_kind j = str ''promise'' \<or> ji_kind j = str ''shared_plan'')
     \<and> ji_recurrence j = (if ji_due_on j \<noteq> None then str ''on_due'' else str ''none'')
     \<and> (ji_kind j = str ''first_intimacy'' \<longrightarrow> ji_dedup_key j \<noteq> None)"

lemma one_line_loop_clean: "c \<in> set (one_line_loop s b) \<Longrightarrow> c \<noteq> 10 \<and> c \<noteq> 13"
  by (induction s b rule: one_line_loop.induct) (auto simp: Let_def split: if_splits)

lemma one_line_clean: "c \<in> set (one_line s) \<Longrightarrow> c \<noteq> 10 \<and> c \<noteq> 13"
  using set_trim one_line_loop_clean unfolding one_line_def by blast

lemma source_message_in:
  assumes "source_message rows s = Some m"
  shows "list_ex (\<lambda>r. cr_id r = m) rows"
proof -
  from assms obtain n where n: "n - 1 < length rows" "m = cr_id (rows ! (n - 1))"
    by (auto simp: source_message_def bind_eq_Some_conv split: if_splits)
  from nth_mem [OF n(1)] n(2) show ?thesis unfolding list_ex_iff by blast
qed

lemma journal_of_ok:
  assumes "journal_of parse_ymd day_of show_uuid rows i c = Some j"
  shows "journal_row_ok day_of rows i j"
proof -
  let ?kind = "trim (jc_kind c)" and ?sum = "take JOURNAL_SUMMARY_MAX_CHARS (one_line (jc_summary c))"
    and ?realm = "if map_option trim (jc_realm c) = Some (str ''real'') then str ''real'' else str ''roleplay''"
  note def = journal_of_def Let_def
  have k: "?kind \<in> set LLM_KINDS" by (rule ccontr) (use assms in \<open>simp add: def\<close>)
  obtain occ where o: "parse_ymd (trim (jc_occurred_at c)) = Some occ"
    using assms k by (cases "parse_ymd (trim (jc_occurred_at c))") (simp_all add: def)
  have e: "list_ex (\<lambda>r. day_of (cr_sent_at r) = occ) rows" by (rule ccontr) (use assms k o in \<open>simp add: def\<close>)
  have s: "?sum \<noteq> []" by (rule ccontr) (use assms k o e in \<open>simp add: def\<close>)
  have clean: "list_all (\<lambda>c. c \<noteq> 10 \<and> c \<noteq> 13) ?sum"
    using one_line_clean by (auto simp: list_all_iff dest!: in_set_takeD)
  have "\<exists>due. (due \<noteq> None \<longrightarrow> ?kind = str ''promise'' \<or> ?kind = str ''shared_plan'')
    \<and> (\<exists>key. (?kind = str ''first_intimacy'' \<longrightarrow> key \<noteq> None)
    \<and> j = \<lparr>ji_instance = i, ji_occurred_on = occ, ji_kind = ?kind, ji_realm = ?realm, ji_summary = ?sum,
      ji_source = str ''llm'', ji_message = source_message rows (jc_source c), ji_affinity_event = None,
      ji_dedup_key = key, ji_due_on = due, ji_recurrence = (if due \<noteq> None then str ''on_due'' else str ''none'')\<rparr>)"
    using assms k o e s unfolding def
    by (intro exI [of _ "if ?kind = str ''promise'' \<or> ?kind = str ''shared_plan''
          then Option.bind (jc_due c) (\<lambda>d. parse_ymd (trim d)) else None"] conjI
        exI [of _ "if ?kind = str ''first_intimacy'' then Some (str ''first_intimacy:'' @ ?realm)
          else if ?kind = str ''gift''
          then map_option (\<lambda>id. str ''gift:'' @ show_uuid id) (source_message rows (jc_source c)) else None"])
      simp_all
  then obtain due key where j: "due \<noteq> None \<longrightarrow> ?kind = str ''promise'' \<or> ?kind = str ''shared_plan''"
    "?kind = str ''first_intimacy'' \<longrightarrow> key \<noteq> None"
    "j = \<lparr>ji_instance = i, ji_occurred_on = occ, ji_kind = ?kind, ji_realm = ?realm, ji_summary = ?sum,
      ji_source = str ''llm'', ji_message = source_message rows (jc_source c), ji_affinity_event = None,
      ji_dedup_key = key, ji_due_on = due, ji_recurrence = (if due \<noteq> None then str ''on_due'' else str ''none'')\<rparr>"
    by blast
  have m: "case source_message rows (jc_source c) of None \<Rightarrow> True | Some m \<Rightarrow> list_ex (\<lambda>r. cr_id r = m) rows"
    using source_message_in by (simp split: option.split)
  show ?thesis
    unfolding journal_row_ok_def j(3) journal_insert.simps
    by (intro conjI j(1,2) k s clean e m refl) simp_all
qed

text \<open>Every journal row a scan can write is well formed, whatever the model answers: a known kind,
  a realm and a source the table's checks accept, a nonblank one-line summary of at most 200
  characters, a date one of the rows read was said on, a source message among those rows, a due
  date only on a promise or a plan and exactly then a recurrence, and a key that keeps a first
  intimacy unique.\<close>

theorem journal_rows_well_formed:
  "list_all (journal_row_ok day_of rows i) (validate_journal parse_ymd day_of show_uuid cands rows i)
   \<and> length (validate_journal parse_ymd day_of show_uuid cands rows i) \<le> length cands"
proof
  show "list_all (journal_row_ok day_of rows i) (validate_journal parse_ymd day_of show_uuid cands rows i)"
    using journal_of_ok by (auto simp: validate_journal_def list_all_iff List.map_filter_def)
  show "length (validate_journal parse_ymd day_of show_uuid cands rows i) \<le> length cands"
    by (simp add: validate_journal_def List.map_filter_def)
qed

end
