(* ===== verification/Stream_Scrub.thy ===== *)
theory Stream_Scrub
  imports Rust_Text
begin

text \<open>
  The streaming form of the output rules (\<open>crates/eros-engine-llm/src/stream_scrub.rs\<close>):
  each rule becomes a transform that is fed the deltas of a reply and holds text back until it is
  decided. A compiled regex is a parameter: what \<open>find\<close>, \<open>replace_all\<close> and \<open>replace\<close> of the
  \<open>regex\<close> crate answer for it, with the rule's replacement; the classification of a pattern,
  which reads the syntax tree of \<open>regex_syntax\<close>, is one too. Offsets count characters, except in
  the decision bound, which counts bytes as the code does.
\<close>

section \<open>Transforms\<close>

record regex =
  rx_find :: "rstr \<Rightarrow> (nat \<times> nat) option"
  rx_replace_all :: "rstr \<Rightarrow> rstr"
  rx_replace :: "rstr \<Rightarrow> rstr"

datatype rule_shape = Head | Span rchar rchar | Opaque

text \<open>The state of one transform: \<open>done\<close> and \<open>head\<close>; \<open>in_span\<close> and \<open>held\<close>; or the buffer.\<close>

datatype transform =
    HeadT regex "nat option" rstr bool
  | SpanT regex rchar rchar rstr bool
  | OpaqueT regex rstr

definition head_push :: "regex \<Rightarrow> nat option \<Rightarrow> rstr \<Rightarrow> bool \<Rightarrow> rstr \<Rightarrow> (rstr \<times> bool) \<times> rstr" where
  "head_push r bound head don input =
     (if don then ((head, True), input)
      else
        (let head = head @ input
         in case rx_find r head of
              Some (s, e) \<Rightarrow> if e < length head then (([], True), rx_replace_all r head) else ((head, False), [])
            | None \<Rightarrow> (case bound of
                Some b \<Rightarrow> if b < utf8_len head then (([], True), head) else ((head, False), [])
              | None \<Rightarrow> ((head, False), []))))"

fun span_feed :: "regex \<Rightarrow> rchar \<Rightarrow> rchar \<Rightarrow> rstr \<Rightarrow> bool \<Rightarrow> rstr \<Rightarrow> (rstr \<times> bool) \<times> rstr" where
  "span_feed r op cl held in_span [] = ((held, in_span), [])"
| "span_feed r op cl held in_span (ch # chs) =
     (if in_span
      then if ch = cl
           then (let (st, out) = span_feed r op cl [] False chs in (st, rx_replace r (held @ [ch]) @ out))
           else span_feed r op cl (held @ [ch]) True chs
      else if ch = op then span_feed r op cl (held @ [ch]) True chs
      else (let (st, out) = span_feed r op cl held False chs in (st, ch # out)))"

definition t_push :: "transform \<Rightarrow> rstr \<Rightarrow> transform \<times> rstr" where
  "t_push t input = (case t of
     HeadT r bound head don \<Rightarrow>
       (let ((head, don), out) = head_push r bound head don input in (HeadT r bound head don, out))
   | SpanT r op cl held in_span \<Rightarrow>
       (let ((held, in_span), out) = span_feed r op cl held in_span input in (SpanT r op cl held in_span, out))
   | OpaqueT r buf \<Rightarrow> (OpaqueT r (buf @ input), []))"

definition t_finish :: "transform \<Rightarrow> rstr" where
  "t_finish t = (case t of
     HeadT r bound head don \<Rightarrow> if don then [] else rx_replace_all r head
   | SpanT r op cl held in_span \<Rightarrow> held
   | OpaqueT r buf \<Rightarrow> rx_replace_all r buf)"

section \<open>The scrubber\<close>

record regex_rule =
  rr_models :: "rstr list"
  rr_pattern :: rstr
  rr_regex :: regex

definition transform_for :: "(rstr \<Rightarrow> rule_shape) \<Rightarrow> (rstr \<Rightarrow> nat option) \<Rightarrow> regex_rule \<Rightarrow> transform" where
  "transform_for classify head_decision_bound rule = (case classify (rr_pattern rule) of
     Head \<Rightarrow> HeadT (rr_regex rule) (head_decision_bound (rr_pattern rule)) [] False
   | Span op cl \<Rightarrow> SpanT (rr_regex rule) op cl [] False
   | Opaque \<Rightarrow> OpaqueT (rr_regex rule) [])"

definition scrubber_new :: "(rstr \<Rightarrow> rule_shape) \<Rightarrow> (rstr \<Rightarrow> nat option) \<Rightarrow> regex_rule list \<Rightarrow> rstr \<Rightarrow> transform list" where
  "scrubber_new classify head_decision_bound rules model_id =
     map (transform_for classify head_decision_bound)
       (filter (\<lambda>rule. list_ex (\<lambda>m. m = model_id) (rr_models rule)) rules)"

fun scrub_push :: "transform list \<Rightarrow> rstr \<Rightarrow> transform list \<times> rstr" where
  "scrub_push [] cur = ([], cur)"
| "scrub_push (t # ts) cur =
     (let (t, cur) = t_push t cur; (ts, cur) = scrub_push ts cur in (t # ts, cur))"

fun scrub_finish :: "transform list \<Rightarrow> rstr \<Rightarrow> rstr" where
  "scrub_finish [] cur = cur"
| "scrub_finish (t # ts) cur =
     (let (t, pushed) = t_push t cur; finished = t_finish t in scrub_finish ts (pushed @ finished))"

text \<open>A reply fed delta by delta: what has been emitted, and the scrubber it leaves.\<close>

fun scrub_deltas :: "transform list \<Rightarrow> rstr list \<Rightarrow> transform list \<times> rstr" where
  "scrub_deltas ts [] = (ts, [])"
| "scrub_deltas ts (d # ds) =
     (let (ts, out) = scrub_push ts d; (ts, outs) = scrub_deltas ts ds in (ts, out @ outs))"

definition scrub_stream :: "transform list \<Rightarrow> rstr list \<Rightarrow> rstr" where
  "scrub_stream ts deltas = (let (ts, out) = scrub_deltas ts deltas in out @ scrub_finish ts [])"

section \<open>The whole-text form\<close>

text \<open>\<open>apply_output_regex\<close> of \<open>model_config.rs\<close>: the rules of the model, in order, over the whole text.\<close>

record strip_outcome =
  cleaned :: rstr
  matched_rules :: "nat list"

fun apply_rules :: "rstr \<Rightarrow> nat \<Rightarrow> regex_rule list \<Rightarrow> rstr \<Rightarrow> nat list \<Rightarrow> rstr \<times> nat list" where
  "apply_rules model_id i [] cur hits = (cur, hits)"
| "apply_rules model_id i (rule # rules) cur hits =
     (if \<not> list_ex (\<lambda>m. m = model_id) (rr_models rule) then apply_rules model_id (Suc i) rules cur hits
      else
        (let nxt = rx_replace_all (rr_regex rule) cur
         in if nxt \<noteq> cur then apply_rules model_id (Suc i) rules nxt (hits @ [i])
            else apply_rules model_id (Suc i) rules cur hits))"

definition apply_output_regex :: "regex_rule list \<Rightarrow> rstr \<Rightarrow> rstr \<Rightarrow> strip_outcome" where
  "apply_output_regex rules model_id txt =
     (let (cur, hits) = apply_rules model_id 0 rules txt []
      in \<lparr>cleaned = if hits \<noteq> [] \<and> trim cur = [] then [] else cur, matched_rules = hits\<rparr>)"

section \<open>What a streaming transform promises\<close>

text \<open>
  The contract of the trait: what a transform in a given state makes of the rest of the input,
  \<open>sem\<close>, is what it emits for a part of it followed by what it makes of the remainder.
\<close>

locale streaming =
  fixes push :: "'s \<Rightarrow> rstr \<Rightarrow> 's \<times> rstr"
    and finish :: "'s \<Rightarrow> rstr"
    and sem :: "'s \<Rightarrow> rstr \<Rightarrow> rstr"
    and ok :: "'s \<Rightarrow> bool"
  assumes push_ok: "ok s \<Longrightarrow> ok (fst (push s x))"
    and push_sem: "ok s \<Longrightarrow> snd (push s x) @ sem (fst (push s x)) y = sem s (x @ y)"
    and finish_sem: "ok s \<Longrightarrow> finish s = sem s []"
begin

fun feed :: "'s \<Rightarrow> rstr list \<Rightarrow> 's \<times> rstr list" where
  "feed s [] = (s, [])"
| "feed s (x # xs) = (let (s, y) = push s x; (s, ys) = feed s xs in (s, y # ys))"

lemma feed_sem:
  "ok s \<Longrightarrow> feed s xs = (s', ys) \<Longrightarrow> ok s' \<and> concat ys @ sem s' z = sem s (concat xs @ z)"
proof (induction xs arbitrary: s ys)
  case (Cons x xs)
  obtain s1 y where p: "push s x = (s1, y)" by fastforce
  obtain ys1 where f: "feed s1 xs = (s', ys1)" "ys = y # ys1"
    using Cons.prems(2) p by (auto split: prod.splits)
  have "ok s1" using push_ok [OF Cons.prems(1), of x] p by simp
  from Cons.IH [OF this f(1)] push_sem [OF Cons.prems(1), of x "concat xs @ z"] p f(2)
  show ?case by simp
qed simp

end

text \<open>The rule as a function of the whole text, from a state that already holds some of it.\<close>

definition t_sem :: "transform \<Rightarrow> rstr \<Rightarrow> rstr" where
  "t_sem t y = (case t of
     HeadT r bound head don \<Rightarrow> if don then y else rx_replace_all r (head @ y)
   | SpanT r op cl held in_span \<Rightarrow> rx_replace_all r (held @ y)
   | OpaqueT r buf \<Rightarrow> rx_replace_all r (buf @ y))"

text \<open>
  What a head rule has to satisfy: once a match ends before the end of the text, or there is none
  and the text is past the bound, more text does not change what the rule made of it.
\<close>

definition decided :: "regex \<Rightarrow> nat option \<Rightarrow> bool" where
  "decided r bound \<longleftrightarrow>
     (\<forall>x y s e. rx_find r x = Some (s, e) \<longrightarrow> e < length x \<longrightarrow> rx_replace_all r (x @ y) = rx_replace_all r x @ y)
     \<and> (\<forall>x y b. rx_find r x = None \<longrightarrow> bound = Some b \<longrightarrow> b < utf8_len x \<longrightarrow> rx_replace_all r (x @ y) = x @ y)"

text \<open>
  What \<open>replace_all\<close> of the pattern \<open>open [^close]* close\<close> is documented to do: leftmost matches
  that do not overlap, each replaced as \<open>replace\<close> replaces it alone.
\<close>

definition span_laws :: "regex \<Rightarrow> rchar \<Rightarrow> rchar \<Rightarrow> bool" where
  "span_laws r op cl \<longleftrightarrow> op \<noteq> cl
     \<and> (\<forall>c y. c \<noteq> op \<longrightarrow> rx_replace_all r (c # y) = c # rx_replace_all r y)
     \<and> (\<forall>b y. cl \<notin> set b \<longrightarrow> rx_replace_all r (op # b @ cl # y) = rx_replace r (op # b @ [cl]) @ rx_replace_all r y)
     \<and> (\<forall>b. cl \<notin> set b \<longrightarrow> rx_replace_all r (op # b) = op # b)
     \<and> rx_replace_all r [] = []"

section \<open>Each transform keeps the contract\<close>

definition span_held_ok :: "rchar \<Rightarrow> rchar \<Rightarrow> rstr \<Rightarrow> bool \<Rightarrow> bool" where
  "span_held_ok op cl held in_span \<longleftrightarrow> (if in_span then \<exists>b. held = op # b \<and> cl \<notin> set b else held = [])"

lemma span_feed_sem:
  "span_laws r op cl \<Longrightarrow> span_held_ok op cl held in_span
    \<Longrightarrow> span_feed r op cl held in_span x = ((held', in_span'), out)
    \<Longrightarrow> span_held_ok op cl held' in_span' \<and> out @ rx_replace_all r (held' @ y) = rx_replace_all r (held @ x @ y)"
proof (induction r op cl held in_span x arbitrary: out rule: span_feed.induct)
  case (2 r op cl held in_span ch chs)
  note laws = 2(5) [unfolded span_laws_def]
  show ?case
  proof (cases in_span)
    case True
    then obtain b where b: "held = op # b" "cl \<notin> set b" using 2(6) by (auto simp: span_held_ok_def)
    show ?thesis
    proof (cases "ch = cl")
      case True
      have start: "span_held_ok op cl [] False" by (simp add: span_held_ok_def)
      obtain out1 where f: "span_feed r op cl [] False chs = ((held', in_span'), out1)"
        "out = rx_replace r (held @ [ch]) @ out1"
        using 2(7) \<open>in_span\<close> True by (auto split: prod.splits)
      from 2(1) [OF \<open>in_span\<close> True 2(5) start f(1)] f(2) laws b True show ?thesis by simp
    next
      case False
      have held: "span_held_ok op cl (held @ [ch]) True" using b False by (simp add: span_held_ok_def)
      have f: "span_feed r op cl (held @ [ch]) True chs = ((held', in_span'), out)"
        using 2(7) \<open>in_span\<close> False by simp
      from 2(2) [OF \<open>in_span\<close> False 2(5) held f] show ?thesis by simp
    qed
  next
    case False
    then have h: "held = []" using 2(6) by (simp add: span_held_ok_def)
    show ?thesis
    proof (cases "ch = op")
      case True
      have held: "span_held_ok op cl (held @ [ch]) True" using h True by (simp add: span_held_ok_def)
      have f: "span_feed r op cl (held @ [ch]) True chs = ((held', in_span'), out)"
        using 2(7) False True by simp
      from 2(3) [OF False True 2(5) held f] show ?thesis by simp
    next
      case other: False
      have held: "span_held_ok op cl held False" using h by (simp add: span_held_ok_def)
      obtain out1 where f: "span_feed r op cl held False chs = ((held', in_span'), out1)" "out = ch # out1"
        using 2(7) False other by (auto split: prod.splits)
      have "rx_replace_all r (ch # chs @ y) = ch # rx_replace_all r (chs @ y)" using laws other by blast
      with 2(4) [OF False other 2(5) held f(1)] f(2) h show ?thesis by simp
    qed
  qed
qed simp

lemma span_held_final:
  "span_laws r op cl \<Longrightarrow> span_held_ok op cl held in_span \<Longrightarrow> rx_replace_all r held = held"
  by (cases in_span) (auto simp: span_laws_def span_held_ok_def)

text \<open>
  The states from which the contract holds: a head rule that decides soundly, a span rule that obeys
  the laws and holds an open span or nothing, and any buffering rule.
\<close>

definition t_ok :: "transform \<Rightarrow> bool" where
  "t_ok t = (case t of
     HeadT r bound head don \<Rightarrow> decided r bound
   | SpanT r op cl held in_span \<Rightarrow> span_laws r op cl \<and> span_held_ok op cl held in_span
   | OpaqueT r buf \<Rightarrow> True)"

lemma head_push_sem:
  assumes "decided r bound" and "head_push r bound head don x = ((head', don'), out)"
  shows "out @ (if don' then y else rx_replace_all r (head' @ y)) = (if don then x @ y else rx_replace_all r (head @ x @ y))"
proof (cases don)
  case False
  show ?thesis
  proof (cases "rx_find r (head @ x)")
    case None
    have "bound = Some b \<Longrightarrow> b < utf8_len (head @ x) \<Longrightarrow> rx_replace_all r ((head @ x) @ y) = (head @ x) @ y" for b
      using assms(1) None unfolding decided_def by blast
    then show ?thesis using assms(2) False None
      by (auto simp: head_push_def Let_def split: option.splits if_splits)
  next
    case (Some m)
    obtain s e where m: "m = (s, e)" by fastforce
    have "e < length (head @ x) \<Longrightarrow> rx_replace_all r ((head @ x) @ y) = rx_replace_all r (head @ x) @ y"
      using assms(1) Some m unfolding decided_def by blast
    then show ?thesis using assms(2) False Some m
      by (auto simp: head_push_def Let_def split: if_splits)
  qed
qed (use assms(2) in \<open>simp add: head_push_def\<close>)

interpretation scrub: streaming t_push t_finish t_sem t_ok
proof
  fix t x assume ok: "t_ok t"
  show "t_ok (fst (t_push t x))"
  proof (cases t)
    case (SpanT r op cl held in_span)
    obtain st out where f: "span_feed r op cl held in_span x = (st, out)" by fastforce
    obtain held' in_span' where st: "st = (held', in_span')" by fastforce
    show ?thesis using span_feed_sem [of r op cl held in_span x held' in_span' out] ok SpanT f st
      by (simp add: t_ok_def t_push_def)
  qed (use ok in \<open>simp_all add: t_ok_def t_push_def split: prod.splits\<close>)
next
  fix t x y assume ok: "t_ok t"
  show "snd (t_push t x) @ t_sem (fst (t_push t x)) y = t_sem t (x @ y)"
  proof (cases t)
    case (HeadT r bound head don)
    obtain st out where f: "head_push r bound head don x = (st, out)" by fastforce
    obtain head' don' where st: "st = (head', don')" by fastforce
    show ?thesis using head_push_sem [of r bound head don x head' don' out y] ok HeadT f st
      by (simp add: t_ok_def t_push_def t_sem_def del: if_split)
  next
    case (SpanT r op cl held in_span)
    obtain st out where f: "span_feed r op cl held in_span x = (st, out)" by fastforce
    obtain held' in_span' where st: "st = (held', in_span')" by fastforce
    show ?thesis using span_feed_sem [of r op cl held in_span x held' in_span' out y] ok SpanT f st
      by (simp add: t_ok_def t_push_def t_sem_def)
  qed (simp add: t_push_def t_sem_def)
next
  fix t assume "t_ok t"
  then show "t_finish t = t_sem t []"
    by (cases t) (auto simp: t_ok_def t_finish_def t_sem_def span_held_final)
qed

section \<open>The chain of rules\<close>

text \<open>What a chain makes of the rest of the reply: each transform of what the ones before it make.\<close>

definition chain_sem :: "transform list \<Rightarrow> rstr \<Rightarrow> rstr" where
  "chain_sem ts y = fold t_sem ts y"

lemma scrub_push_sem:
  "list_all t_ok ts \<Longrightarrow> scrub_push ts x = (ts', out)
    \<Longrightarrow> list_all t_ok ts' \<and> out @ chain_sem ts' y = chain_sem ts (x @ y)"
proof (induction ts arbitrary: x y ts' out)
  case (Cons t ts)
  obtain t1 cur where p: "t_push t x = (t1, cur)" by fastforce
  obtain ts1 where q: "scrub_push ts cur = (ts1, out)" "ts' = t1 # ts1"
    using Cons.prems(2) p by (auto split: prod.splits)
  have ok: "t_ok t" "list_all t_ok ts" using Cons.prems(1) by simp_all
  have one: "t_ok t1" "cur @ t_sem t1 y = t_sem t (x @ y)"
    using scrub.push_ok [OF ok(1), of x] scrub.push_sem [OF ok(1), of x y] p by simp_all
  from Cons.IH [OF ok(2) q(1), of "t_sem t1 y"] one q(2) show ?case by (simp add: chain_sem_def)
qed (simp add: chain_sem_def)

lemma scrub_finish_sem: "list_all t_ok ts \<Longrightarrow> scrub_finish ts x = chain_sem ts x"
proof (induction ts arbitrary: x)
  case (Cons t ts)
  obtain t1 cur where p: "t_push t x = (t1, cur)" by fastforce
  have ok: "t_ok t" "list_all t_ok ts" using Cons.prems(1) by simp_all
  have "cur @ t_finish t1 = t_sem t x"
    using scrub.push_ok [OF ok(1), of x] scrub.push_sem [OF ok(1), of x "[]"] p
    by (simp add: scrub.finish_sem)
  then show ?case using Cons.IH [OF ok(2)] p by (simp add: chain_sem_def)
qed (simp add: chain_sem_def)

lemma scrub_deltas_sem:
  "list_all t_ok ts \<Longrightarrow> scrub_deltas ts ds = (ts', out)
    \<Longrightarrow> list_all t_ok ts' \<and> out @ chain_sem ts' y = chain_sem ts (concat ds @ y)"
proof (induction ds arbitrary: ts out)
  case (Cons d ds)
  obtain ts1 out1 where p: "scrub_push ts d = (ts1, out1)" by fastforce
  obtain out2 where q: "scrub_deltas ts1 ds = (ts', out2)" "out = out1 @ out2"
    using Cons.prems(2) p by (auto split: prod.splits)
  from scrub_push_sem [OF Cons.prems(1) p, of "concat ds @ y"]
  have one: "list_all t_ok ts1" "out1 @ chain_sem ts1 (concat ds @ y) = chain_sem ts (d @ concat ds @ y)" by simp_all
  from Cons.IH [OF one(1) q(1)] one(2) q(2) show ?case by simp
qed simp

lemma transform_for_sem: "t_sem (transform_for classify bound rule) y = rx_replace_all (rr_regex rule) y"
  by (simp add: transform_for_def t_sem_def split: rule_shape.splits)

lemma chain_sem_new:
  "chain_sem (scrubber_new classify bound rules m) y = fst (apply_rules m i rules y hits)"
  by (induction rules arbitrary: y i hits) (simp_all add: scrubber_new_def chain_sem_def transform_for_sem Let_def)

lemma scrub_stream_sem:
  assumes "list_all t_ok ts"
  shows "scrub_stream ts ds = chain_sem ts (concat ds)"
proof -
  obtain ts' out where d: "scrub_deltas ts ds = (ts', out)" by fastforce
  from scrub_deltas_sem [OF assms d, of "[]"] scrub_finish_sem [of ts' "[]"] d
  show ?thesis by (simp add: scrub_stream_def)
qed

lemma scrub_stream_cleaned:
  assumes "list_all t_ok (scrubber_new classify bound rules m)"
  shows "cleaned (apply_output_regex rules m (concat ds))
    = (if matched_rules (apply_output_regex rules m (concat ds)) \<noteq> []
         \<and> trim (scrub_stream (scrubber_new classify bound rules m) ds) = []
       then [] else scrub_stream (scrubber_new classify bound rules m) ds)"
  by (simp add: scrub_stream_sem [OF assms] chain_sem_new [of classify bound rules m "concat ds" 0 "[]"]
      apply_output_regex_def case_prod_beta Let_def)

section \<open>Streaming is the whole-text form\<close>


section \<open>Concrete rules\<close>

text \<open>\<open>\[[^\]]*\]\<close> with an empty replacement, and \<open>^a(?:bc)?\<close> with one, as functions.\<close>

fun del_spans :: "rchar \<Rightarrow> rchar \<Rightarrow> nat \<Rightarrow> rstr \<Rightarrow> rstr" where
  "del_spans op cl n [] = []"
| "del_spans op cl 0 (c # s) = (if c = op \<and> cl \<in> set s then del_spans op cl (length (takeWhile (\<lambda>x. x \<noteq> cl) s) + 1) s
     else c # del_spans op cl 0 s)"
| "del_spans op cl (Suc n) (c # s) = del_spans op cl n s"

definition bracket_regex :: regex where
  "bracket_regex =
     \<lparr>rx_find = (\<lambda>s. case split_once 91 s of None \<Rightarrow> None
        | Some (a, b) \<Rightarrow> (case split_once 93 b of None \<Rightarrow> None
          | Some (c, d) \<Rightarrow> Some (length a, length a + length c + 2))),
      rx_replace_all = del_spans 91 93 0, rx_replace = del_spans 91 93 0\<rparr>"

definition optional_tail_regex :: regex where
  "optional_tail_regex =
     \<lparr>rx_find = (\<lambda>s. if prefix (str ''abc'') s then Some (0, 3) else if prefix (str ''a'') s then Some (0, 1) else None),
      rx_replace_all = (\<lambda>s. if prefix (str ''abc'') s then drop 3 s else if prefix (str ''a'') s then drop 1 s else s),
      rx_replace = (\<lambda>s. if prefix (str ''abc'') s then drop 3 s else if prefix (str ''a'') s then drop 1 s else s)\<rparr>"

lemma del_spans_skip: "del_spans op cl (length b) (b @ y) = del_spans op cl 0 y"
  by (induction b) simp_all

lemma del_spans_open: "cl \<notin> set b \<Longrightarrow> del_spans op cl 0 b = b"
  by (induction b) auto

lemma bracket_laws: "span_laws bracket_regex 91 93"
proof -
  have close: "del_spans 91 93 0 (91 # b @ 93 # y) = del_spans 91 93 0 y" if "93 \<notin> set b" for b y
    using that del_spans_skip [of 91 93 "b @ [93]" y] by (simp add: takeWhile_append)
  show ?thesis
    using close by (simp add: span_laws_def bracket_regex_def del_spans_open)
qed

definition bracket_rule :: regex_rule where
  "bracket_rule = \<lparr>rr_models = [str ''m''], rr_pattern = [], rr_regex = bracket_regex\<rparr>"

lemmas scrub_concrete = scrubber_new_def transform_for_def bracket_rule_def bracket_regex_def
  scrub_stream_def t_push_def t_finish_def Let_def


lemma head_rule_decided:
  "(\<forall>ds. scrub_stream [HeadT r bound [] False] ds = rx_replace_all r (concat ds)) \<longleftrightarrow> decided r bound"
proof
  assume all: "\<forall>ds. scrub_stream [HeadT r bound [] False] ds = rx_replace_all r (concat ds)"
  have two: "scrub_stream [HeadT r bound [] False] [x, y] = rx_replace_all r (x @ y)" for x y
    using all [THEN spec, of "[x, y]"] by simp
  show "decided r bound"
    unfolding decided_def
  proof (intro conjI allI impI)
    fix x y s e assume "rx_find r x = Some (s, e)" "e < length x"
    then show "rx_replace_all r (x @ y) = rx_replace_all r x @ y"
      using two [of x y] by (simp add: scrub_stream_def t_push_def t_finish_def head_push_def)
  next
    fix x y b assume "rx_find r x = None" "bound = Some b" "b < utf8_len x"
    then show "rx_replace_all r (x @ y) = x @ y"
      using two [of x y] by (simp add: scrub_stream_def t_push_def t_finish_def head_push_def)
  qed
next
  assume "decided r bound"
  then have ok: "list_all t_ok [HeadT r bound [] False]" by (simp add: t_ok_def)
  show "\<forall>ds. scrub_stream [HeadT r bound [] False] ds = rx_replace_all r (concat ds)"
  proof
    fix ds
    obtain ts' out where d: "scrub_deltas [HeadT r bound [] False] ds = (ts', out)" by fastforce
    from scrub_deltas_sem [OF ok d, of "[]"] scrub_finish_sem [of ts' "[]"] d
    show "scrub_stream [HeadT r bound [] False] ds = rx_replace_all r (concat ds)"
      by (simp add: scrub_stream_def chain_sem_def t_sem_def)
  qed
qed

text \<open>C25: A head rule streams as it applies to the whole text, for every cut into deltas, exactly
  when more text never changes what a match that ends early, or a failure past the bound, decided.
  The rule \<open>^a(?:bc)?\<close>, whose decision bound is the single byte of its core, does not: it is
  applied to \<open>ab\<close> although the next delta completes the longer match.\<close>

theorem head_rule_exact:
  "((\<forall>ds. scrub_stream [HeadT r bound [] False] ds = rx_replace_all r (concat ds)) \<longleftrightarrow> decided r bound)
   \<and> scrub_stream [HeadT optional_tail_regex (Some 1) [] False] [str ''ab'', str ''c''] = str ''bc''
   \<and> rx_replace_all optional_tail_regex (str ''abc'') = []
   \<and> \<not> decided optional_tail_regex (Some 1)"
proof -
  have early: "scrub_stream [HeadT optional_tail_regex (Some 1) [] False] [str ''ab'', str ''c''] = str ''bc''"
    "rx_replace_all optional_tail_regex (concat [str ''ab'', str ''c'']) = []"
    by (simp_all add: scrub_stream_def t_push_def t_finish_def head_push_def optional_tail_regex_def)
  then have "\<not> decided optional_tail_regex (Some 1)"
    unfolding head_rule_decided [symmetric]
    by (intro notI) (drule spec [of _ "[str ''ab'', str ''c'']"], simp)
  with early head_rule_decided show ?thesis by simp
qed

text \<open>A reply of a bracket and blanks streams the blanks, which the whole-text form collapses.\<close>

theorem blank_reply_streams_blanks:
  "scrub_stream (scrubber_new (\<lambda>_. Span 91 93) (\<lambda>_. None) [bracket_rule] (str ''m'')) [str '' [x] ''] = str ''  ''
   \<and> cleaned (apply_output_regex [bracket_rule] (str ''m'') (str '' [x] '')) = []"
  by (simp add: scrub_concrete apply_output_regex_def trim_eq_Nil_iff is_ws_def)

end
