(* ===== verification/Llm_Error.thy ===== *)
theory Llm_Error
  imports Rust_Json
begin

text \<open>
  What a failed model call leaves behind (\<open>crates/eros-engine-llm\<close>): the error body a provider
  sends, cut down to a bounded line without the user's text (\<open>parse_error_body\<close> of
  \<open>openrouter.rs\<close>), the error type of the crate (\<open>error.rs\<close>), the record of one failed attempt and the
  status it is answered with (\<open>failure.rs\<close>), and the detector and repair of undecoded byte-pair text
  (\<open>byte_bpe.rs\<close>). The reader and the printer of \<open>serde_json\<close> are the parameters \<open>from_str\<close> and
  \<open>show_json\<close>; errors of third-party crates carry the text they print.
\<close>

section \<open>Undecoded byte-pair text\<close>

definition GARBLE_PCT_THRESHOLD :: nat where "GARBLE_PCT_THRESHOLD = 3"
definition GARBLE_MIN_MARKERS :: nat where "GARBLE_MIN_MARKERS = 2"
definition GARBLE_MIN_LEN :: nat where "GARBLE_MIN_LEN = 8"
definition GLYPH_SPACE :: rchar where "GLYPH_SPACE = 0x120"
definition GLYPH_NEWLINE :: rchar where "GLYPH_NEWLINE = 0x10A"

definition is_marker :: "rchar \<Rightarrow> bool" where
  "is_marker c \<longleftrightarrow> c = GLYPH_SPACE \<or> c = GLYPH_NEWLINE"

definition looks_byte_garbled :: "rstr \<Rightarrow> bool" where
  "looks_byte_garbled s =
     (let total = length s
      in if total < GARBLE_MIN_LEN then False
         else (let markers = length (filter is_marker s);
                   real_ws = length (filter (\<lambda>c. c = 32 \<or> c = 10 \<or> c = 9 \<or> c = 13) s)
               in real_ws = 0 \<and> GARBLE_MIN_MARKERS \<le> markers \<and> total * GARBLE_PCT_THRESHOLD \<le> markers * 100))"

definition repair_byte_bpe :: "rstr \<Rightarrow> rstr" where
  "repair_byte_bpe s = map (\<lambda>c. if c = GLYPH_SPACE then 32 else if c = GLYPH_NEWLINE then 10 else c) s"

section \<open>Error bodies\<close>

definition ERROR_PREVIEW_MAX :: nat where "ERROR_PREVIEW_MAX = 200"

text \<open>\<open>replace('\r', "\\r").replace('\n', "\\n")\<close>: no replacement makes a character of the next.\<close>

definition flatten_line :: "rstr \<Rightarrow> rstr" where
  "flatten_line s = concat (map (\<lambda>c. if c = 13 then [92, 114] else if c = 10 then [92, 110] else [c]) s)"

definition body_preview :: "rstr \<Rightarrow> rstr" where
  "body_preview s =
     (let flat = flatten_line (trim s)
      in if length flat \<le> ERROR_PREVIEW_MAX then flat else take ERROR_PREVIEW_MAX flat @ [8230])"

record parsed_error_body =
  pb_code :: "rstr option"
  pb_error_type :: "rstr option"
  pb_provider_code :: "rstr option"
  pb_message :: rstr

definition message_only :: "rstr \<Rightarrow> parsed_error_body" where
  "message_only s = \<lparr>pb_code = None, pb_error_type = None, pb_provider_code = None, pb_message = s\<rparr>"

text \<open>The body of an envelope: code, message, type, metadata.\<close>

record err_body =
  eb_code :: "json option"
  eb_message :: "rstr option"
  eb_ty :: "rstr option"
  eb_metadata :: "json option"

definition err_body_of :: "json \<Rightarrow> err_body option" where
  "err_body_of v =
     (if \<not> struct_shape v 4 then None
      else Option.bind (opt_string_field (struct_field v 1 (str ''message''))) (\<lambda>message.
           Option.bind (opt_string_field (struct_field v 2 (str ''type''))) (\<lambda>ty.
             Some \<lparr>eb_code = opt_value_field (struct_field v 0 (str ''code'')), eb_message = message,
                   eb_ty = ty, eb_metadata = opt_value_field (struct_field v 3 (str ''metadata''))\<rparr>)))"

definition err_field_of :: "json \<Rightarrow> err_body option" where
  "err_field_of v = (case v of
     JStr t \<Rightarrow> Some \<lparr>eb_code = None, eb_message = Some t, eb_ty = None, eb_metadata = None\<rparr>
   | _ \<Rightarrow> err_body_of v)"

definition err_envelope_of :: "json \<Rightarrow> err_body option" where
  "err_envelope_of v =
     (if \<not> struct_shape v 1 then None else Option.bind (struct_field v 0 (str ''error'')) err_field_of)"

definition meta_str :: "err_body \<Rightarrow> rstr \<Rightarrow> rstr option" where
  "meta_str b key = Option.bind (eb_metadata b) (\<lambda>m. Option.bind (json_get key m) as_str_json)"

fun join_comma :: "rstr list \<Rightarrow> rstr" where
  "join_comma [] = []"
| "join_comma [s] = s"
| "join_comma (s # t # ss) = s @ [44] @ join_comma (t # ss)"

definition reasons_of :: "err_body \<Rightarrow> rstr list" where
  "reasons_of b = (case Option.bind (eb_metadata b) (json_get (str ''reasons'')) of
     Some (JArr rs) \<Rightarrow> List.map_filter as_str_json rs | _ \<Rightarrow> [])"

definition body_parts :: "(json \<Rightarrow> rstr) \<Rightarrow> err_body \<Rightarrow> parsed_error_body" where
  "body_parts show_json b =
     (let code = map_option show_json (eb_code b);
          out = str ''code='' @ (case code of None \<Rightarrow> str ''?'' | Some c \<Rightarrow> c) @ str '': ''
                @ (case eb_message b of None \<Rightarrow> [] | Some m \<Rightarrow> m);
          out = out @ (case meta_str b (str ''provider_name'') of
                         None \<Rightarrow> [] | Some p \<Rightarrow> str '' [provider='' @ p @ str '']'');
          out = out @ (if reasons_of b = [] then []
                       else str '' [moderation_reasons='' @ join_comma (reasons_of b) @ str '']'')
      in \<lparr>pb_code = code, pb_error_type = or_else (meta_str b (str ''error_type'')) (eb_ty b),
          pb_provider_code = meta_str b (str ''provider_code''), pb_message = body_preview out\<rparr>)"

definition parse_error_body :: "(rstr \<Rightarrow> json option) \<Rightarrow> (json \<Rightarrow> rstr) \<Rightarrow> rstr \<Rightarrow> parsed_error_body" where
  "parse_error_body from_str show_json raw =
     (case Option.bind (from_str raw) err_envelope_of of
        None \<Rightarrow> message_only (body_preview raw)
      | Some b \<Rightarrow> body_parts show_json b)"

section \<open>Errors and attempts\<close>

record upstream_attempt =
  ua_task :: rstr
  ua_model :: rstr
  ua_http_status :: nat
  ua_provider_code :: "rstr option"
  ua_error_type :: "rstr option"
  ua_upstream_code :: "rstr option"
  ua_retry_after :: "nat option"
  ua_message :: rstr

datatype gateway_kind = OpenTimeout | TotalTimeout | IdleTimeout | Transport | DecodeKind | ConfigKind | ChainExhausted

record gateway_error =
  ge_task :: rstr
  ge_model :: "rstr option"
  ge_kind :: gateway_kind
  ge_message :: rstr

datatype attempt_failure = Upstream upstream_attempt | Gateway gateway_error

text \<open>A status code with the text \<open>reqwest\<close> prints for it.\<close>

record status_code =
  sc_code :: nat
  sc_text :: rstr

datatype llm_error =
    HttpErr rstr
  | StatusErr status_code parsed_error_body "nat option"
  | DecodeErr rstr
  | TomlDecodeErr rstr
  | IoErr rstr
  | ConfigErr rstr
  | ProviderErr parsed_error_body
  | StreamParseErr rstr
  | StreamErr rstr
  | Garbled rstr rstr "rstr option"
  | ChainErr "attempt_failure list"

definition failure_display :: "attempt_failure \<Rightarrow> rstr" where
  "failure_display f = (case f of Upstream a \<Rightarrow> ua_message a | Gateway g \<Rightarrow> ge_message g)"

definition error_display :: "llm_error \<Rightarrow> rstr" where
  "error_display e = (case e of
     HttpErr t \<Rightarrow> str ''http transport error: '' @ t
   | StatusErr s b _ \<Rightarrow> str ''non-success status '' @ sc_text s @ str '': '' @ pb_message b
   | DecodeErr t \<Rightarrow> str ''response decode error: '' @ t
   | TomlDecodeErr t \<Rightarrow> str ''toml parse error: '' @ t
   | IoErr t \<Rightarrow> str ''io error: '' @ t
   | ConfigErr t \<Rightarrow> str ''config error: '' @ t
   | ProviderErr b \<Rightarrow> str ''provider error: '' @ pb_message b
   | StreamParseErr t \<Rightarrow> str ''openrouter stream parse error: '' @ t
   | StreamErr t \<Rightarrow> str ''openrouter stream transport error: '' @ t
   | Garbled m _ _ \<Rightarrow> str ''openrouter: model '' @ m @ str '' returned byte-BPE garbled output''
   | ChainErr fs \<Rightarrow> str ''openrouter: all '' @ decimal (length fs) @ str '' candidates failed; last: ''
       @ (if fs = [] then str ''(none)'' else failure_display (last fs)))"

definition is_upstream_status :: "nat \<Rightarrow> bool" where
  "is_upstream_status status \<longleftrightarrow> 500 \<le> status \<and> status < 600"

definition is_retryable_status :: "nat \<Rightarrow> bool" where
  "is_retryable_status status \<longleftrightarrow> is_upstream_status status \<or> status = 408 \<or> status = 429"

definition response_status_for :: "attempt_failure \<Rightarrow> nat" where
  "response_status_for f = (case f of
     Upstream a \<Rightarrow> if 400 \<le> ua_http_status a then ua_http_status a else 502
   | Gateway g \<Rightarrow> (case ge_kind g of
        OpenTimeout \<Rightarrow> 504 | TotalTimeout \<Rightarrow> 504 | IdleTimeout \<Rightarrow> 504 | _ \<Rightarrow> 502))"

definition STREAM_IDLE_TIMEOUT_MSG :: rstr where
  "STREAM_IDLE_TIMEOUT_MSG = str ''openrouter stream idle timeout''"

definition gateway_of :: "rstr \<Rightarrow> rstr \<Rightarrow> llm_error \<Rightarrow> gateway_kind \<Rightarrow> attempt_failure" where
  "gateway_of task model e kind =
     Gateway \<lparr>ge_task = task, ge_model = Some model, ge_kind = kind, ge_message = error_display e\<rparr>"

definition upstream_of :: "rstr \<Rightarrow> rstr \<Rightarrow> nat \<Rightarrow> parsed_error_body \<Rightarrow> nat option \<Rightarrow> attempt_failure" where
  "upstream_of task model status body retry_after =
     Upstream \<lparr>ua_task = task, ua_model = model, ua_http_status = status, ua_provider_code = pb_code body,
       ua_error_type = pb_error_type body, ua_upstream_code = pb_provider_code body,
       ua_retry_after = retry_after, ua_message = pb_message body\<rparr>"

definition from_llm_error :: "rstr \<Rightarrow> rstr \<Rightarrow> llm_error \<Rightarrow> attempt_failure" where
  "from_llm_error task model e = (case e of
     StatusErr s body retry_after \<Rightarrow> upstream_of task model (sc_code s) body retry_after
   | ProviderErr body \<Rightarrow> upstream_of task model 200 body None
   | StreamErr msg \<Rightarrow> gateway_of task model e (if sublist STREAM_IDLE_TIMEOUT_MSG msg then IdleTimeout else Transport)
   | HttpErr _ \<Rightarrow> gateway_of task model e Transport
   | StreamParseErr _ \<Rightarrow> Gateway \<lparr>ge_task = task, ge_model = Some model, ge_kind = DecodeKind,
       ge_message = str ''openrouter stream parse error: undecodable delta envelope''\<rparr>
   | DecodeErr _ \<Rightarrow> gateway_of task model e DecodeKind
   | ConfigErr _ \<Rightarrow> gateway_of task model e ConfigKind
   | TomlDecodeErr _ \<Rightarrow> gateway_of task model e ConfigKind
   | IoErr _ \<Rightarrow> gateway_of task model e ConfigKind
   | Garbled _ _ _ \<Rightarrow> gateway_of task model e DecodeKind
   | ChainErr fs \<Rightarrow> if fs = [] then gateway_of task model e ChainExhausted else last fs)"

definition should_record :: "llm_error \<Rightarrow> bool" where
  "should_record e \<longleftrightarrow> (case e of Garbled _ _ _ \<Rightarrow> False | _ \<Rightarrow> True)"

section \<open>What the records guarantee\<close>

lemma flatten_line_clean: "10 \<notin> set (flatten_line s) \<and> 13 \<notin> set (flatten_line s)"
  by (induction s) (auto simp: flatten_line_def)

lemma body_preview_bounds:
  "10 \<notin> set (body_preview s) \<and> 13 \<notin> set (body_preview s) \<and> length (body_preview s) \<le> ERROR_PREVIEW_MAX + 1"
  using flatten_line_clean [of "trim s"]
  by (auto simp: body_preview_def Let_def ERROR_PREVIEW_MAX_def dest: in_set_takeD)

lemma repair_clean: "list_all (\<lambda>c. \<not> is_marker c) (repair_byte_bpe s)"
  by (induction s) (auto simp: repair_byte_bpe_def is_marker_def GLYPH_SPACE_def GLYPH_NEWLINE_def)

lemma repair_id: "list_all (\<lambda>c. \<not> is_marker c) s \<Longrightarrow> repair_byte_bpe s = s"
  by (induction s) (auto simp: repair_byte_bpe_def is_marker_def)

lemma repaired_not_garbled: "\<not> looks_byte_garbled (repair_byte_bpe s)"
proof -
  have "filter is_marker (repair_byte_bpe s) = []"
    using repair_clean [of s] by (auto simp: list_all_iff filter_empty_conv)
  then show ?thesis by (simp add: looks_byte_garbled_def Let_def GARBLE_MIN_MARKERS_def)
qed

text \<open>An object with a field changed, or left out, by the function below or without the key.\<close>

definition map_key :: "rstr \<Rightarrow> (json \<Rightarrow> json) \<Rightarrow> json \<Rightarrow> json" where
  "map_key key f v = (case v of JObj m \<Rightarrow> JObj (map (\<lambda>(k, x). (k, if k = key then f x else x)) m) | _ \<Rightarrow> v)"

definition drop_key :: "rstr \<Rightarrow> json \<Rightarrow> json" where
  "drop_key key v = (case v of JObj m \<Rightarrow> JObj (filter (\<lambda>(k, x). k \<noteq> key) m) | _ \<Rightarrow> v)"

definition without_flagged :: "json \<Rightarrow> json" where
  "without_flagged = map_key (str ''error'') (map_key (str ''metadata'') (drop_key (str ''flagged_input'')))"

lemma map_of_mapped: "map_of (map (\<lambda>(k, x). (k, if k = key then f x else x)) m) k
    = map_option (\<lambda>x. if k = key then f x else x) (map_of m k)"
  by (induction m) auto

lemma map_of_dropped: "map_of (filter (\<lambda>(k, x). k \<noteq> key) m) k = (if k = key then None else map_of m k)"
  by (induction m) auto

lemma get_map_key: "json_get k (map_key key f v) = map_option (\<lambda>x. if k = key then f x else x) (json_get k v)"
  by (cases v) (simp_all add: json_get_def map_key_def map_of_mapped)

lemma get_drop_key: "k \<noteq> key \<Longrightarrow> json_get k (drop_key key v) = json_get k v"
  by (cases v) (simp_all add: json_get_def drop_key_def map_of_dropped)

lemma shape_map_key: "struct_shape (map_key key f v) n = struct_shape v n"
  by (cases v) (simp_all add: struct_shape_def map_key_def)

lemma field_map_key:
  "struct_field (map_key key f v) i k
     = (case v of JArr _ \<Rightarrow> struct_field v i k | _ \<Rightarrow> map_option (\<lambda>x. if k = key then f x else x) (struct_field v i k))"
  by (cases v) (simp_all add: struct_field_def map_key_def get_map_key json_get_def map_of_mapped)

text \<open>Two bodies that differ in the flagged input of their metadata only.\<close>

definition same_but_flagged :: "err_body \<Rightarrow> err_body \<Rightarrow> bool" where
  "same_but_flagged b c \<longleftrightarrow> eb_code b = eb_code c \<and> eb_message b = eb_message c \<and> eb_ty b = eb_ty c
     \<and> (\<forall>k. k \<noteq> str ''flagged_input'' \<longrightarrow>
          Option.bind (eb_metadata b) (json_get k) = Option.bind (eb_metadata c) (json_get k))"

lemma same_metadata:
  assumes "same_but_flagged b c" and "k \<noteq> str ''flagged_input''"
  shows "Option.bind (eb_metadata b) (json_get k) = Option.bind (eb_metadata c) (json_get k)"
  using assms unfolding same_but_flagged_def by blast

lemma same_parts:
  assumes "same_but_flagged b c"
  shows "body_parts show_json b = body_parts show_json c"
proof -
  have k: "str ''provider_name'' \<noteq> str ''flagged_input''" "str ''error_type'' \<noteq> str ''flagged_input''"
    "str ''provider_code'' \<noteq> str ''flagged_input''" "str ''reasons'' \<noteq> str ''flagged_input''"
    by (simp_all only: str_inj) simp_all
  have "meta_str d key = Option.bind (Option.bind (eb_metadata d) (json_get key)) as_str_json" for d key
    by (simp add: meta_str_def Option.bind_assoc)
  then have m: "meta_str b key = meta_str c key" if "key \<noteq> str ''flagged_input''" for key
    using same_metadata [OF assms that] by (simp only:)
  have r: "reasons_of b = reasons_of c"
    unfolding reasons_of_def same_metadata [OF assms k(4)] by (rule refl)
  have f: "eb_code b = eb_code c" "eb_message b = eb_message c" "eb_ty b = eb_ty c"
    using assms by (simp_all add: same_but_flagged_def)
  show ?thesis unfolding body_parts_def m [OF k(1)] m [OF k(2)] m [OF k(3)] r f by (rule refl)
qed

lemma opt_value_Some: "opt_value_field (Some y) = (if y = JNull then None else Some y)"
  by (cases y) (simp_all add: opt_value_field_def)

lemma opt_value_map:
  assumes "\<And>x. (f x = JNull) = (x = JNull)"
  shows "opt_value_field (map_option f x) = map_option f (opt_value_field x)"
proof (cases x)
  case (Some y)
  show ?thesis using assms [of y] by (cases "y = JNull") (simp_all add: Some opt_value_Some)
qed (simp add: opt_value_field_def)

lemma drop_key_null: "(drop_key key x = JNull) = (x = JNull)"
  by (cases x) (auto simp: drop_key_def)

lemma map_key_str: "map_key key f (JStr t) = JStr t"
  by (simp add: map_key_def)

lemma err_body_map_metadata:
  assumes "err_body_of v = Some b"
  shows "\<exists>c. err_body_of (map_key (str ''metadata'') (drop_key (str ''flagged_input'')) v) = Some c \<and> same_but_flagged b c"
proof (cases v)
  case (JObj m)
  let ?v = "map_key (str ''metadata'') (drop_key (str ''flagged_input'')) v"
  let ?c = "b\<lparr>eb_metadata := map_option (drop_key (str ''flagged_input'')) (eb_metadata b)\<rparr>"
  have k: "str ''message'' \<noteq> str ''metadata''" "str ''type'' \<noteq> str ''metadata''" "str ''code'' \<noteq> str ''metadata''"
    by (simp_all only: str_inj) simp_all
  have other: "struct_field ?v i key = struct_field v i key" if "key \<noteq> str ''metadata''" for i key
    using that JObj by (simp add: field_map_key option.map_ident del: str_simps)
  have meta: "struct_field ?v 3 (str ''metadata'') = map_option (drop_key (str ''flagged_input'')) (struct_field v 3 (str ''metadata''))"
    using JObj by (simp add: field_map_key del: str_simps)
  have "err_body_of ?v = Some ?c"
    using assms unfolding err_body_of_def shape_map_key other [OF k(1)] other [OF k(2)] other [OF k(3)] meta
    by (auto simp: opt_value_map [OF drop_key_null] bind_eq_Some_conv simp del: str_simps split: if_splits)
  moreover have "same_but_flagged b ?c"
    by (cases "eb_metadata b") (simp_all add: same_but_flagged_def get_drop_key del: str_simps)
  ultimately show ?thesis by blast
qed (use assms in \<open>auto simp: map_key_def same_but_flagged_def\<close>)

lemma err_envelope_without_flagged:
  assumes "err_envelope_of v = Some b"
  shows "\<exists>c. err_envelope_of (without_flagged v) = Some c \<and> same_but_flagged b c"
proof (cases v)
  case (JObj m)
  let ?g = "map_key (str ''metadata'') (drop_key (str ''flagged_input''))"
  obtain e where e: "struct_field v 0 (str ''error'') = Some e" "err_field_of e = Some b"
    using assms by (auto simp: err_envelope_of_def bind_eq_Some_conv split: if_splits)
  have "struct_field (without_flagged v) 0 (str ''error'') = Some (?g e)"
    using JObj e(1) by (simp add: without_flagged_def field_map_key del: str_simps)
  moreover have "struct_shape (without_flagged v) 1"
    using JObj by (simp add: struct_shape_def without_flagged_def map_key_def)
  ultimately have env: "err_envelope_of (without_flagged v) = err_field_of (?g e)"
    by (simp add: err_envelope_of_def del: str_simps)
  show ?thesis
  proof (cases e)
    case (JStr t)
    with e(2) env show ?thesis by (auto simp: map_key_str same_but_flagged_def)
  next
    case (JObj m')
    then have "err_body_of e = Some b" using e(2) by (simp add: err_field_of_def)
    from err_body_map_metadata [OF this] obtain c where "err_body_of (?g e) = Some c" "same_but_flagged b c"
      by blast
    then show ?thesis using JObj env by (auto simp: err_field_of_def map_key_def)
  next
    case (JArr vs)
    with e(2) env show ?thesis by (auto simp: map_key_def same_but_flagged_def)
  qed (use e(2) env in \<open>simp_all add: err_field_of_def err_body_of_def struct_shape_def\<close>)
qed (use assms in \<open>auto simp: without_flagged_def map_key_def same_but_flagged_def\<close>)

text \<open>The envelope of a moderation rejection, and one whose \<open>type\<close> is a number, which does not decode.\<close>

definition moderation_envelope :: "json \<Rightarrow> rstr \<Rightarrow> json" where
  "moderation_envelope ty flagged = JObj [(str ''error'', JObj
     [(str ''code'', JNum 403), (str ''message'', JStr (str ''rejected'')), (str ''type'', ty),
      (str ''metadata'', JObj [(str ''flagged_input'', JStr flagged), (str ''provider_name'', JStr (str ''p''))])])]"


definition two_texts :: "rstr \<Rightarrow> json option" where
  "two_texts t =
     (if t = [1] then Some (moderation_envelope (JStr []) (str ''secret''))
      else if t = [2] then Some (without_flagged (moderation_envelope (JStr []) (str ''secret'')))
      else if t = [3] then Some (moderation_envelope (JNum 1) (str ''secret'')) else None)"


end
