(* ===== verification/Provider_Slug.thy ===== *)
theory Provider_Slug
  imports Rust_Text
begin

text \<open>
  Model slugs (\<open>crates/eros-engine-llm/src/provider.rs\<close>): \<open><model id>@<provider>\<close> with at most one
  unescaped \<open>@\<close>, the two characters \<open>\@\<close> standing for a literal one. The code scans bytes; \<open>@\<close> (64)
  and \<open>\\<close> (92) are ASCII, so the scan below is over characters.
\<close>

datatype slug_error = MultipleAt rstr | EmptyModelId rstr | EmptyProvider rstr

text \<open>The positions of the unescaped \<open>@\<close>s, and \<open>str::replace("\\@", "@")\<close>.\<close>

definition slug_ats :: "rstr \<Rightarrow> nat list" where
  "slug_ats slug = filter (\<lambda>i. slug ! i = 64 \<and> (i = 0 \<or> slug ! (i - 1) \<noteq> 92)) [0..<length slug]"

fun unescape :: "rstr \<Rightarrow> rstr" where
  "unescape [] = []"
| "unescape [c] = [c]"
| "unescape (c # d # cs) = (if c = 92 \<and> d = 64 then 64 # unescape cs else c # unescape (d # cs))"

definition split_model_slug :: "rstr \<Rightarrow> slug_error + (rstr \<times> rstr option)" where
  "split_model_slug slug = (case slug_ats slug of
     [] \<Rightarrow> Inr (unescape slug, None)
   | [i] \<Rightarrow>
       (let id_raw = take i slug; provider = drop (i + 1) slug
        in if id_raw = [] then Inl (EmptyModelId slug)
           else if provider = [] then Inl (EmptyProvider slug)
           else Inr (unescape id_raw, Some provider))
   | _ \<Rightarrow> Inl (MultipleAt slug))"

definition escape_model_id :: "rstr \<Rightarrow> rstr" where
  "escape_model_id mid = concat (map (\<lambda>c. if c = 64 then [92, 64] else [c]) mid)"

definition bare_model_id :: "rstr \<Rightarrow> rstr" where
  "bare_model_id slug = (case split_model_slug slug of Inr (mid, _) \<Rightarrow> mid | Inl _ \<Rightarrow> slug)"

section \<open>Escaping\<close>

lemma escape_simps [simp]:
  "escape_model_id [] = []"
  "escape_model_id (c # cs) = (if c = 64 then [92, 64] else [c]) @ escape_model_id cs"
  "escape_model_id (cs @ ds) = escape_model_id cs @ escape_model_id ds"
  by (simp_all add: escape_model_id_def)

lemma escape_id [simp]: "64 \<notin> set p \<Longrightarrow> escape_model_id p = p"
  by (induction p) auto

lemma escape_Nil_iff [simp]: "escape_model_id m = [] \<longleftrightarrow> m = []"
  by (cases m) auto

lemma hd_escape: "m \<noteq> [] \<Longrightarrow> hd (escape_model_id m) \<noteq> 64"
  by (cases m) auto

lemma last_escape: "m \<noteq> [] \<Longrightarrow> last (escape_model_id m) = last m"
  by (cases m rule: rev_cases) auto

lemma unescape_Cons: "\<not> (c = 92 \<and> cs \<noteq> [] \<and> hd cs = 64) \<Longrightarrow> unescape (c # cs) = c # unescape cs"
  by (cases cs) auto

lemma unescape_escape [simp]: "unescape (escape_model_id m) = m"
proof (induction m)
  case (Cons c m)
  show ?case
  proof (cases "c = 64")
    case False
    have "unescape (c # escape_model_id m) = c # unescape (escape_model_id m)"
      using hd_escape [of m] by (intro unescape_Cons) auto
    then show ?thesis using False Cons by simp
  qed (use Cons in simp)
qed simp

lemma escaped_at:
  "i < length (escape_model_id m) \<Longrightarrow> escape_model_id m ! i = 64 \<Longrightarrow> 0 < i \<and> escape_model_id m ! (i - 1) = 92"
proof (induction m arbitrary: i rule: rev_induct)
  case (snoc c m)
  show ?case
  proof (cases "i < length (escape_model_id m)")
    case True
    with snoc.IH [of i] snoc.prems show ?thesis by (auto simp: nth_append)
  next
    case False
    with snoc.prems show ?thesis
      by (auto simp: nth_append nth_Cons' split: if_splits)
  qed
qed simp

lemma slug_ats_escape: "slug_ats (escape_model_id m) = []"
  using escaped_at [of _ m] by (auto simp: slug_ats_def filter_empty_conv)

lemma slug_ats_suffixed:
  assumes "m \<noteq> []" and "64 \<notin> set p" and "last m \<noteq> 92"
  shows "slug_ats (escape_model_id m @ 64 # p) = [length (escape_model_id m)]"
proof -
  let ?e = "escape_model_id m" let ?s = "?e @ 64 # p"
  let ?P = "\<lambda>i. ?s ! i = 64 \<and> (i = 0 \<or> ?s ! (i - 1) \<noteq> 92)"
  have split: "[0..<length ?s] = [0..<length ?e] @ length ?e # [Suc (length ?e)..<length ?s]"
    using upt_add_eq_append [of 0 "length ?e" "Suc (length p)"] upt_conv_Cons [of "length ?e" "length ?s"] by simp
  have low: "filter ?P [0..<length ?e] = []"
    using escaped_at [of _ m] by (auto simp: filter_empty_conv nth_append)
  have mid: "?P (length ?e)"
    using assms last_escape [of m] by (auto simp: nth_append last_conv_nth)
  have high: "filter ?P [Suc (length ?e)..<length ?s] = []"
    using assms(2) by (auto simp: filter_empty_conv nth_append nth_Cons' in_set_conv_nth Suc_le_eq)
  show ?thesis unfolding slug_ats_def split filter_append low using mid high by simp
qed

lemma slug_roundtrip_bare:
  assumes "m \<noteq> []" and "p \<noteq> []" and "64 \<notin> set p" and "last m \<noteq> 92"
  shows "split_model_slug (escape_model_id m @ 64 # p) = Inr (m, Some p)"
  using slug_ats_suffixed [OF assms(1,3,4)] assms by (simp add: split_model_slug_def)

text \<open>C29: An escaped model id reads back as itself, and with a provider appended as itself and that
  provider exactly when it does not end in a backslash; one that does swallows the separator, so the
  slug reads as a model id of the built-in endpoint.\<close>

theorem slug_roundtrip_exact:
  assumes "m \<noteq> []" and "p \<noteq> []" and "64 \<notin> set p"
  shows "split_model_slug (escape_model_id m) = Inr (m, None)
    \<and> (split_model_slug (escape_model_id m @ 64 # p) = Inr (m, Some p) \<longleftrightarrow> last m \<noteq> 92)
    \<and> (last m = 92 \<longrightarrow> split_model_slug (escape_model_id m @ 64 # p) = Inr (butlast m @ 64 # p, None))"
proof -
  have bare: "split_model_slug (escape_model_id k) = Inr (k, None)" for k
    by (simp add: split_model_slug_def slug_ats_escape)
  have good: "split_model_slug (escape_model_id m @ 64 # p) = Inr (m, Some p)" if "last m \<noteq> 92"
    using slug_roundtrip_bare [OF assms that] .
  have bad: "split_model_slug (escape_model_id m @ 64 # p) = Inr (butlast m @ 64 # p, None)" if "last m = 92"
  proof -
    have "escape_model_id m = escape_model_id (butlast m @ [last m])" using assms(1) by simp
    also have "\<dots> = escape_model_id (butlast m) @ [92]" using that by simp
    finally have "escape_model_id m @ 64 # p = escape_model_id (butlast m @ 64 # p)"
      using assms(3) by simp
    then show ?thesis by (simp only: bare)
  qed
  from bare good bad show ?thesis by auto
qed

theorem slug_roundtrip_exact_witness:
  "split_model_slug (escape_model_id (str ''a@b'') @ 64 # str ''venice'') = Inr (str ''a@b'', Some (str ''venice''))
   \<and> split_model_slug (escape_model_id [97, 92] @ 64 # str ''venice'') = Inr (str ''a@venice'', None)"
proof -
  have "str ''a@b'' \<noteq> []" "[97, 92] \<noteq> ([] :: rstr)" "str ''venice'' \<noteq> []" "64 \<notin> set (str ''venice'')"
    "last (str ''a@b'') \<noteq> 92" "last [97, 92 :: rchar] = 92"
    by simp_all
  then show ?thesis
    using slug_roundtrip_exact [of "str ''a@b''" "str ''venice''"] slug_roundtrip_exact [of "[97, 92]" "str ''venice''"]
    by simp
qed

end
