(* ===== verification/Clean_Text.thy ===== *)
theory Clean_Text
  imports Rust_Text
begin

text \<open>
  Cleaning a plain-text model reply: \<open>clean_response\<close> of
  \<open>crates/eros-engine-llm/src/openrouter.rs\<close>, and its incremental form \<open>StreamCleaner\<close>
  (\<open>stream_clean.rs\<close>), which lets a prefix of the final text out while the reply still grows. The
  state of a cleaner is the text pushed so far.
\<close>

definition FENCE :: rstr where "FENCE = [96, 96, 96]"

definition trim_matches :: "(rchar \<Rightarrow> bool) \<Rightarrow> rstr \<Rightarrow> rstr" where
  "trim_matches P s = trim_end_matches P (dropWhile P s)"

text \<open>\<open>rsplit_once\<close> with a non-empty pattern: around its last occurrence.\<close>

fun rsplit_once :: "rstr \<Rightarrow> rstr \<Rightarrow> (rstr \<times> rstr) option" where
  "rsplit_once pat [] = None"
| "rsplit_once pat (c # cs) = (case rsplit_once pat cs of
     Some (a, b) \<Rightarrow> Some (c # a, b)
   | None \<Rightarrow> if prefix pat (c # cs) then Some ([], drop (length pat) (c # cs)) else None)"

definition is_quote :: "rchar \<Rightarrow> bool" where "is_quote c \<longleftrightarrow> c = 34"
definition is_corner :: "rchar \<Rightarrow> bool" where "is_corner c \<longleftrightarrow> c = 0x300C \<or> c = 0x300D"

definition clean_response :: "rstr \<Rightarrow> rstr" where
  "clean_response raw =
     (let s = trim raw;
          s = (case strip_prefix FENCE s of
                 Some stripped \<Rightarrow>
                   (let after_lang = (case split_once 10 stripped of Some (_, x) \<Rightarrow> x | None \<Rightarrow> stripped)
                    in case rsplit_once FENCE after_lang of
                         Some (inner, _) \<Rightarrow> trim inner
                       | None \<Rightarrow> trim after_lang)
               | None \<Rightarrow> s);
          s = trim_matches is_quote (trim s)
      in trim_matches is_corner s)"

type_synonym stream_cleaner = rstr

definition cleaner_push :: "stream_cleaner \<Rightarrow> rstr \<Rightarrow> stream_cleaner" where
  "cleaner_push acc chunk = acc @ chunk"

definition full_clean :: "stream_cleaner \<Rightarrow> rstr" where
  "full_clean acc = clean_response (trim acc)"

definition unstable_tail :: "rchar \<Rightarrow> bool" where
  "unstable_tail c \<longleftrightarrow> is_ws c \<or> c = 34 \<or> c = 0x300C \<or> c = 0x300D \<or> c = 96"

definition cleaner_stable :: "stream_cleaner \<Rightarrow> rstr" where
  "cleaner_stable acc =
     (let held = (case strip_prefix FENCE (trim_start acc) of
                    Some rest \<Rightarrow> (case split_once 10 rest of None \<Rightarrow> True | Some (_, x) \<Rightarrow> trim x = [])
                  | None \<Rightarrow> False)
      in if held then [] else trim_end_matches unstable_tail (full_clean acc))"

section \<open>Trimming\<close>

lemma trim_end_app:
  "u \<noteq> [] \<Longrightarrow> \<not> P (last u) \<Longrightarrow> trim_end_matches P (u @ t) = u @ trim_end_matches P t"
proof -
  assume u: "u \<noteq> []" "\<not> P (last u)"
  have "dropWhile P (rev t @ rev u) = dropWhile P (rev t) @ rev u"
  proof (cases "list_all P (rev t)")
    case True
    then have "dropWhile P (rev t @ rev u) = dropWhile P (rev u)" "dropWhile P (rev t) = []"
      by (simp_all add: list_all_iff dropWhile_append)
    moreover have "dropWhile P (rev u) = rev u" using u by (cases u rule: rev_cases) auto
    ultimately show ?thesis by simp
  qed (auto simp: list_all_iff dropWhile_append)
  then show ?thesis by (simp add: trim_end_matches_def)
qed

lemma dropWhile_app: "\<not> P c \<Longrightarrow> c \<in> set u \<Longrightarrow> dropWhile P (u @ t) = dropWhile P u @ t"
  by (auto simp: dropWhile_append)

lemma dropWhile_last: "u \<noteq> [] \<Longrightarrow> \<not> P (last u) \<Longrightarrow> dropWhile P u \<noteq> [] \<and> last (dropWhile P u) = last u"
  by (induction u) (auto split: if_splits)

lemma trim_matches_app:
  assumes "u \<noteq> []" and "\<not> P (last u)"
  shows "\<exists>t'. prefix t' t \<and> trim_matches P (u @ t) = dropWhile P u @ t'"
proof -
  have "dropWhile P (u @ t) = dropWhile P u @ t" using assms by (intro dropWhile_app [of _ "last u"]) auto
  then have "trim_matches P (u @ t) = dropWhile P u @ trim_end_matches P t"
    using dropWhile_last [of u P] assms(1) trim_end_app [of "dropWhile P u" P t] assms(2)
    by (simp add: trim_matches_def)
  then show ?thesis using trim_end_matches_prefix by blast
qed

lemma trim_is_trim_matches: "trim s = trim_matches is_ws s"
  by (simp add: trim_def trim_start_def trim_matches_def)

definition strip_quotes :: "rstr \<Rightarrow> rstr" where
  "strip_quotes s = trim_matches is_corner (trim_matches is_quote (trim s))"

definition lead :: "rstr \<Rightarrow> rstr" where
  "lead u = dropWhile is_corner (dropWhile is_quote (dropWhile is_ws u))"

definition edge :: "rchar \<Rightarrow> bool" where
  "edge c \<longleftrightarrow> is_ws c \<or> is_quote c \<or> is_corner c"

lemma lead_last: "u \<noteq> [] \<Longrightarrow> \<not> edge (last u) \<Longrightarrow> lead u \<noteq> [] \<and> last (lead u) = last u"
  using dropWhile_last [of u is_ws] dropWhile_last [of "dropWhile is_ws u" is_quote]
    dropWhile_last [of "dropWhile is_quote (dropWhile is_ws u)" is_corner]
  by (simp add: lead_def edge_def)

lemma strip_quotes_app:
  assumes u: "u \<noteq> []" "\<not> edge (last u)"
  shows "\<exists>t'. prefix t' t \<and> strip_quotes (u @ t) = lead u @ t'"
proof -
  let ?u1 = "dropWhile is_ws u" let ?u2 = "dropWhile is_quote ?u1"
  have e: "\<not> is_ws (last u)" "\<not> is_quote (last u)" "\<not> is_corner (last u)" using u(2) by (auto simp: edge_def)
  have l1: "?u1 \<noteq> []" "last ?u1 = last u" using dropWhile_last [of u is_ws] u(1) e(1) by auto
  have l2: "?u2 \<noteq> []" "last ?u2 = last u" using dropWhile_last [of ?u1 is_quote] l1 e by auto
  obtain t1 where t1: "prefix t1 t" "trim (u @ t) = ?u1 @ t1"
    using trim_matches_app [of u is_ws t] u(1) e(1) unfolding trim_is_trim_matches by blast
  obtain t2 where t2: "prefix t2 t1" "trim_matches is_quote (?u1 @ t1) = ?u2 @ t2"
    using trim_matches_app [of ?u1 is_quote t1] l1 e by auto
  obtain t3 where t3: "prefix t3 t2" "trim_matches is_corner (?u2 @ t2) = dropWhile is_corner ?u2 @ t3"
    using trim_matches_app [of ?u2 is_corner t2] l2 e by auto
  show ?thesis
    using t1 t2 t3 by (intro exI [of _ t3]) (simp add: strip_quotes_def lead_def)
qed

lemma trim_end_last: "trim_end_matches P s \<noteq> [] \<Longrightarrow> \<not> P (last (trim_end_matches P s))"
  by (simp add: trim_end_matches_def last_rev hd_dropWhile)

section \<open>Fences\<close>

lemma rsplit_once_None:
  "rsplit_once pat s = None \<Longrightarrow> pat \<noteq> [] \<Longrightarrow> s \<noteq> a @ pat @ b"
proof (induction s arbitrary: a)
  case (Cons c s)
  then have n: "rsplit_once pat s = None" "\<not> prefix pat (c # s)" by (auto split: option.splits if_splits)
  show ?case
  proof
    assume e: "c # s = a @ pat @ b"
    show False
    proof (cases a)
      case Nil
      then show False using e n(2) by (auto simp: prefix_def)
    next
      case (Cons x a')
      then have "s = a' @ pat @ b" using e by simp
      then show False using Cons.IH n(1) Cons.prems(2) by blast
    qed
  qed
qed simp

lemma rsplit_once_Some:
  "rsplit_once pat s = Some (a, b) \<Longrightarrow> pat \<noteq> [] \<Longrightarrow>
     s = a @ pat @ b \<and> (\<forall>a' b'. s = a' @ pat @ b' \<longrightarrow> length a' \<le> length a)"
proof (induction s arbitrary: a)
  case (Cons c s)
  show ?case
  proof (cases "rsplit_once pat s")
    case None
    then have here: "prefix pat (c # s)" "a = []" "b = drop (length pat) (c # s)"
      using Cons.prems(1) by (auto split: if_splits)
    have "a' = []" if "c # s = a' @ pat @ b'" for a' b'
      using that rsplit_once_None [OF None Cons.prems(2)] by (cases a') auto
    then show ?thesis using here by (auto simp: prefix_def)
  next
    case (Some ab)
    obtain a1 b1 where ab: "ab = (a1, b1)" by fastforce
    then have a: "a = c # a1" "b = b1" using Some Cons.prems(1) by auto
    have IH: "s = a1 @ pat @ b1 \<and> (\<forall>a' b'. s = a' @ pat @ b' \<longrightarrow> length a' \<le> length a1)"
      using Cons.IH [of a1] Some ab a(2) Cons.prems(2) by blast
    have "length a' \<le> length a" if "c # s = a' @ pat @ b'" for a' b'
      using that IH a by (cases a') auto
    then show ?thesis using IH a by simp
  qed
qed simp

text \<open>What the fence leaves of a text: everything before its last fence, or all of it.\<close>

definition fence_inner :: "rstr \<Rightarrow> rstr" where
  "fence_inner x = (case rsplit_once FENCE x of Some (a, _) \<Rightarrow> a | None \<Rightarrow> x)"

lemma fence_inner_prefix: "prefix (fence_inner x) x"
  using rsplit_once_Some [of FENCE x]
  by (auto simp: fence_inner_def FENCE_def split: option.splits intro: prefixI)

lemma fence_inner_grows:
  assumes k: "fence_inner x = u @ k" and u: "u \<noteq> []" "last u \<noteq> 96"
  shows "\<exists>t. fence_inner (x @ z) = u @ t"
proof (cases "rsplit_once FENCE (x @ z)")
  case None
  then show ?thesis using fence_inner_prefix [of x] k by (auto simp: fence_inner_def prefix_def)
next
  case (Some ab)
  obtain i r where i: "ab = (i, r)" by fastforce
  have F: "FENCE \<noteq> []" by (simp add: FENCE_def)
  have split: "x @ z = i @ FENCE @ r"
    and last: "\<And>a' b'. x @ z = a' @ FENCE @ b' \<Longrightarrow> length a' \<le> length i"
    using rsplit_once_Some [OF Some [unfolded i] F] by auto
  obtain y where y: "x = u @ y" using fence_inner_prefix [of x] k by (auto simp: prefix_def)
  have "length u \<le> length i"
  proof (rule ccontr)
    assume "\<not> length u \<le> length i"
    then have "prefix i u"
      using prefix_length_prefix [of i "x @ z" u] split y by (simp add: prefix_def)
    then obtain v where v: "u = i @ v" by (auto simp: prefix_def)
    have "v \<noteq> []" using v \<open>\<not> length u \<le> length i\<close> by auto
    have w: "(v @ y) @ z = FENCE @ r" using split y v by simp
    then have vy: "prefix (v @ y) (FENCE @ r)" by (metis prefixI)
    show False
    proof (cases "rsplit_once FENCE x")
      case (Some cd)
      obtain i0 r0 where "cd = (i0, r0)" by fastforce
      then have x: "x = i0 @ FENCE @ r0" "i0 = u @ k"
        using rsplit_once_Some [OF Some [unfolded \<open>cd = _\<close>] F] k Some by (auto simp: fence_inner_def)
      then have "length i0 \<le> length i" by (intro last [of i0 "r0 @ z"]) simp
      then show False using x(2) v \<open>v \<noteq> []\<close> by simp
    next
      case None
      then have nof: "x \<noteq> a @ FENCE @ b" for a b using rsplit_once_None F by blast
      show False
      proof (cases "length FENCE \<le> length (v @ y)")
        case True
        then have "prefix FENCE (v @ y)" using prefix_length_prefix [OF _ vy, of FENCE] by simp
        then obtain b where "v @ y = FENCE @ b" by (auto simp: prefix_def)
        then show False using nof [of i b] y v by simp
      next
        case False
        then have "prefix (v @ y) FENCE" using prefix_length_prefix [OF vy, of FENCE] by simp
        then have "set v \<subseteq> set FENCE" using set_mono_prefix by fastforce
        moreover have "last u \<in> set v" using v \<open>v \<noteq> []\<close> by simp
        ultimately show False using u by (auto simp: FENCE_def)
      qed
    qed
  qed
  then have "prefix u i" using prefix_length_prefix [of u "x @ z" i] split y by (simp add: prefix_def)
  then obtain t where "i = u @ t" by (auto simp: prefix_def)
  then show ?thesis using Some i by (simp add: fence_inner_def)
qed

section \<open>The stable prefix\<close>

lemma trim_end_split: "\<exists>k. s = trim_end_matches P s @ k \<and> list_all P k"
proof -
  have "s = rev (dropWhile P (rev s)) @ rev (takeWhile P (rev s))"
    by (simp flip: rev_append)
  moreover have "list_all P (rev (takeWhile P (rev s)))"
    by (auto simp: list_all_iff dest: set_takeWhileD)
  ultimately show ?thesis unfolding trim_end_matches_def by blast
qed

lemma trim_end_all: "list_all P s \<Longrightarrow> trim_end_matches P s = []"
  by (simp add: trim_end_matches_def list_all_iff)

lemma set_strip_quotes: "set (strip_quotes s) \<subseteq> set s"
  unfolding strip_quotes_def trim_is_trim_matches trim_matches_def
  by (auto dest!: set_dropWhileD subsetD [OF set_trim_end_matches])

lemma edge_unstable: "edge c \<Longrightarrow> unstable_tail c"
  by (auto simp: edge_def unstable_tail_def is_quote_def is_corner_def)

text \<open>The stable part of a text: what is left of its core, which later text cannot reach.\<close>

lemma stable_of_core:
  assumes "trim_end_matches unstable_tail p \<noteq> []"
  shows "trim_end_matches unstable_tail (strip_quotes p) = lead (trim_end_matches unstable_tail p)"
proof -
  let ?u = "trim_end_matches unstable_tail p"
  obtain k where k: "p = ?u @ k" "list_all unstable_tail k" using trim_end_split by blast
  have l: "\<not> unstable_tail (last ?u)" by (rule trim_end_last [OF assms])
  then have "\<not> edge (last ?u)" using edge_unstable by blast
  then obtain k' where k': "prefix k' k" "strip_quotes p = lead ?u @ k'" and u: "lead ?u \<noteq> []" "last (lead ?u) = last ?u"
    using strip_quotes_app [OF assms, of k] lead_last [OF assms] k(1) by auto
  have "list_all unstable_tail k'" using k(2) k'(1) by (auto simp: prefix_def)
  then show ?thesis using trim_end_app [of "lead ?u" unstable_tail k'] u l k'(2) by (simp add: trim_end_all)
qed

lemma stable_without_core:
  assumes "trim_end_matches unstable_tail p = []"
  shows "trim_end_matches unstable_tail (strip_quotes p) = []"
proof -
  obtain k where "p = trim_end_matches unstable_tail p @ k" "list_all unstable_tail k" using trim_end_split by blast
  then have "list_all unstable_tail p" using assms by simp
  then show ?thesis using set_strip_quotes [of p]
    by (intro trim_end_all) (auto simp: list_all_iff dest: subsetD)
qed

lemma trim_trim: "trim (trim s) = trim s"
proof (cases "trim s = []")
  case False
  have "trim_start s \<noteq> []" using False by (auto simp: trim_def trim_end_matches_def)
  then have h: "\<not> is_ws (hd (trim_start s))" by (simp add: trim_start_def hd_dropWhile)
  have "prefix (trim s) (trim_start s)" by (simp add: trim_def trim_end_matches_prefix)
  then have "hd (trim s) = hd (trim_start s)" using False by (auto simp: prefix_def)
  then have "trim_start (trim s) = trim s" using h False by (cases "trim s") (auto simp: trim_start_def)
  moreover have "trim_end_matches is_ws (trim s) = trim s"
    using trim_end_app [of "trim s" is_ws "[]"] trim_end_last [of is_ws "trim_start s"] False
    by (simp add: trim_def trim_end_matches_def)
  ultimately show ?thesis by (simp add: trim_def)
qed simp

lemma strip_quotes_trim: "strip_quotes (trim s) = strip_quotes s"
  by (simp add: strip_quotes_def trim_trim)

lemma full_clean_plain: "strip_prefix FENCE (trim acc) = None \<Longrightarrow> full_clean acc = strip_quotes acc"
  by (simp add: full_clean_def clean_response_def trim_trim strip_quotes_def Let_def)

lemma full_clean_fenced:
  assumes "trim acc = FENCE @ lang @ 10 # x" and "10 \<notin> set lang"
  shows "full_clean acc = strip_quotes (fence_inner x)"
proof -
  have "split_once 10 (lang @ 10 # x) = Some (lang, x)" using assms(2) by (induction lang) auto
  moreover have "trim (FENCE @ lang @ 10 # x) = FENCE @ lang @ 10 # x" using assms(1) trim_trim [of acc] by simp
  ultimately have "full_clean acc = trim_matches is_corner (trim_matches is_quote (trim (trim (fence_inner x))))"
    using assms(1) by (simp add: full_clean_def clean_response_def strip_prefix_def fence_inner_def Let_def
        split: option.splits)
  then show ?thesis by (simp add: strip_quotes_def trim_trim)
qed

lemma no_later_fence:
  assumes "w \<noteq> []" and "last w \<noteq> 96" and "\<not> prefix FENCE w"
  shows "\<not> prefix FENCE (w @ t)"
proof
  assume F: "prefix FENCE (w @ t)"
  have "prefix w (w @ t)" by simp
  with F have "prefix FENCE w \<or> prefix w FENCE" using prefix_same_cases by blast
  then have "set w \<subseteq> set FENCE" using assms(3) set_mono_prefix by blast
  moreover have "last w \<in> set w" using assms(1) by simp
  ultimately show False using assms(2) by (auto simp: FENCE_def)
qed

definition grows_from :: "stream_cleaner \<Rightarrow> rstr \<Rightarrow> bool" where
  "grows_from acc u \<longleftrightarrow> u \<noteq> [] \<and> \<not> unstable_tail (last u) \<and> cleaner_stable acc = lead u
     \<and> (\<forall>z. \<exists>t. full_clean (acc @ z) = strip_quotes (u @ t))
     \<and> (\<forall>z. cleaner_stable (acc @ z) = trim_end_matches unstable_tail (full_clean (acc @ z)))"

lemma unstable_ws: "is_ws c \<Longrightarrow> unstable_tail c" and unstable_tick: "unstable_tail 96"
  by (simp_all add: unstable_tail_def)

lemma stable_grows_plain:
  assumes plain: "strip_prefix FENCE (trim_start acc) = None" and stable: "cleaner_stable acc \<noteq> []"
  shows "grows_from acc (trim_end_matches unstable_tail acc)"
proof -
  let ?u = "trim_end_matches unstable_tail acc"
  obtain k where k: "acc = ?u @ k" using trim_end_split by blast
  have nofence: "\<not> prefix FENCE (trim_start acc)" using plain by (simp add: strip_prefix_def split: if_splits)
  have "prefix (trim acc) (trim_start acc)" by (simp add: trim_def trim_end_matches_prefix)
  then have acc: "full_clean acc = strip_quotes acc"
    using nofence prefix_order.trans by (intro full_clean_plain) (auto simp: strip_prefix_def)
  then have st: "cleaner_stable acc = trim_end_matches unstable_tail (strip_quotes acc)"
    using plain by (simp add: cleaner_stable_def)
  then have u: "?u \<noteq> []" using stable stable_without_core by metis
  have l: "\<not> unstable_tail (last ?u)" by (rule trim_end_last [OF u])
  have l': "\<not> is_ws (last ?u)" "last ?u \<noteq> 96" using l unstable_ws unstable_tick by metis+
  let ?w = "trim_start ?u"
  have w: "?w \<noteq> []" "last ?w = last ?u"
    using dropWhile_last [of ?u is_ws] u l' by (simp_all add: trim_start_def)
  have start: "trim_start (?u @ t) = ?w @ t" for t
    using l' u by (auto simp: trim_start_def intro!: dropWhile_app [of _ "last ?u"])
  have "\<not> prefix FENCE ?w" using nofence start [of k] k prefix_order.trans by (metis prefixI)
  then have never: "\<not> prefix FENCE (?w @ t)" for t using no_later_fence w l'(2) by simp
  have later: "strip_prefix FENCE (trim_start (acc @ z)) = None \<and> full_clean (acc @ z) = strip_quotes (acc @ z)" for z
  proof -
    have "trim_start (acc @ z) = ?w @ (k @ z)" using start [of "k @ z"] k by (metis append_assoc)
    then have n: "\<not> prefix FENCE (trim_start (acc @ z))" using never by simp
    have "prefix (trim (acc @ z)) (trim_start (acc @ z))" by (simp add: trim_def trim_end_matches_prefix)
    then have "\<not> prefix FENCE (trim (acc @ z))" using n prefix_order.trans by blast
    then show ?thesis using n by (auto simp: strip_prefix_def intro: full_clean_plain)
  qed
  have "\<exists>t. full_clean (acc @ z) = strip_quotes (?u @ t)" for z
    using later [of z] k by (metis append_assoc)
  then show ?thesis
    using u l later st stable_of_core [OF u] by (simp add: grows_from_def cleaner_stable_def)
qed

lemma trim_end_nonblank:
  assumes "trim x \<noteq> []"
  shows "trim_end_matches is_ws x \<noteq> [] \<and> trim_end_matches is_ws (p @ x) = p @ trim_end_matches is_ws x
    \<and> (\<exists>t. trim_end_matches is_ws (x @ z) = trim_end_matches is_ws x @ t)"
proof -
  let ?y = "trim_end_matches is_ws x"
  obtain k where k: "x = ?y @ k" "list_all is_ws k" using trim_end_split by blast
  have y: "?y \<noteq> []"
  proof
    assume "?y = []"
    then have "list_all is_ws x" using k by simp
    then show False using assms by (simp add: trim_eq_Nil_iff)
  qed
  then have l: "\<not> is_ws (last ?y)" by (rule trim_end_last)
  have "trim_end_matches is_ws ((p @ ?y) @ k) = (p @ ?y) @ trim_end_matches is_ws k"
    using y l by (intro trim_end_app) simp_all
  then have "trim_end_matches is_ws (p @ x) = p @ ?y" using k by (simp add: trim_end_all)
  moreover have "trim_end_matches is_ws (?y @ (k @ z)) = ?y @ trim_end_matches is_ws (k @ z)"
    using y l by (intro trim_end_app)
  then have "trim_end_matches is_ws (x @ z) = ?y @ trim_end_matches is_ws (k @ z)" using k by (metis append_assoc)
  ultimately show ?thesis using y by blast
qed

lemma split_once_10: "10 \<notin> set lang \<Longrightarrow> split_once 10 (lang @ 10 # x) = Some (lang, x)"
  by (induction lang) auto

lemma stable_grows_fenced:
  assumes start: "trim_start acc = FENCE @ lang @ 10 # x" and lang: "10 \<notin> set lang" and x: "trim x \<noteq> []"
    and stable: "cleaner_stable acc \<noteq> []"
  shows "\<exists>u. grows_from acc u"
proof -
  let ?y = "trim_end_matches is_ws x"
  have F: "trim_start (acc @ z) = FENCE @ lang @ 10 # x @ z" for z
  proof -
    have "96 \<in> set acc" using start set_dropWhileD [of 96 is_ws acc] by (auto simp: trim_start_def FENCE_def)
    then have "trim_start (acc @ z) = trim_start acc @ z"
      by (auto simp: trim_start_def is_ws_def intro: dropWhile_app [of _ 96])
    then show ?thesis using start by simp
  qed
  have trims: "trim (acc @ z) = FENCE @ lang @ 10 # trim_end_matches is_ws (x @ z)" for z
  proof -
    have "trim (x @ z) \<noteq> []" using x by (auto simp: trim_eq_Nil_iff)
    then show ?thesis
      using trim_end_nonblank [of "x @ z" "FENCE @ lang @ [10]" "[]"] F [of z] by (simp add: trim_def)
  qed
  have full: "full_clean (acc @ z) = strip_quotes (fence_inner (trim_end_matches is_ws (x @ z)))" for z
    using full_clean_fenced [OF trims lang] .
  have st: "cleaner_stable (acc @ z) = trim_end_matches unstable_tail (full_clean (acc @ z))" for z
  proof -
    have "trim (x @ z) \<noteq> []" using x by (auto simp: trim_eq_Nil_iff)
    then show ?thesis using F [of z] split_once_10 [OF lang, of "x @ z"]
      by (simp add: cleaner_stable_def strip_prefix_def)
  qed
  let ?u = "trim_end_matches unstable_tail (fence_inner ?y)"
  have st0: "cleaner_stable acc = trim_end_matches unstable_tail (strip_quotes (fence_inner ?y))"
    using st [of "[]"] full [of "[]"] by simp
  then have u: "?u \<noteq> []" using stable stable_without_core by metis
  have l: "\<not> unstable_tail (last ?u)" by (rule trim_end_last [OF u])
  obtain k where k: "fence_inner ?y = ?u @ k" using trim_end_split by blast
  have "\<exists>t. full_clean (acc @ z) = strip_quotes (?u @ t)" for z
  proof -
    obtain t where t: "trim_end_matches is_ws (x @ z) = ?y @ t" using trim_end_nonblank [OF x] by blast
    have "last ?u \<noteq> 96" using l unstable_tick by metis
    then obtain t' where "fence_inner (?y @ t) = ?u @ t'" using fence_inner_grows [OF k u] by blast
    then show ?thesis using full [of z] t by auto
  qed
  then show ?thesis using u l st st0 stable_of_core [OF u]
    by (intro exI [of _ ?u]) (simp add: grows_from_def)
qed

lemma stable_grows:
  assumes "cleaner_stable acc \<noteq> []"
  shows "\<exists>u. grows_from acc u"
proof (cases "strip_prefix FENCE (trim_start acc)")
  case None
  then show ?thesis using stable_grows_plain assms by blast
next
  case (Some rest)
  with assms obtain lang x where s: "split_once 10 rest = Some (lang, x)" and x: "trim x \<noteq> []"
    by (auto simp: cleaner_stable_def split: option.splits if_splits)
  have "trim_start acc = FENCE @ rest" using strip_prefix_SomeD [OF Some] .
  then show ?thesis using split_once_SomeD [OF s] stable_grows_fenced [OF _ _ x assms] by auto
qed

lemma plain_backtick_kept: "prefix (str ''a`'') (full_clean (str ''a`'' @ more))"
proof -
  have w: "\<not> is_ws 97" "\<not> is_quote 97" "\<not> is_corner 97" by (simp_all add: is_ws_def is_quote_def is_corner_def)
  have e: "\<not> edge 96" by (simp add: edge_def is_ws_def is_quote_def is_corner_def)
  have "prefix (trim ([97, 96] @ more)) (trim_start ([97, 96] @ more))" by (simp add: trim_def trim_end_matches_prefix)
  then have "\<not> prefix FENCE (trim ([97, 96] @ more))"
    using w(1) by (auto simp: trim_start_def FENCE_def prefix_def)
  then have "full_clean ([97, 96] @ more) = strip_quotes ([97, 96] @ more)"
    by (intro full_clean_plain) (simp add: strip_prefix_def)
  moreover obtain t where "strip_quotes ([97, 96] @ more) = lead [97, 96] @ t"
    using strip_quotes_app [of "[97, 96]" more] e by auto
  moreover have "lead [97, 96] = [97, 96]" using w by (simp add: lead_def)
  ultimately show ?thesis by simp
qed

lemma stable_continues:
  "prefix (cleaner_stable acc) (full_clean (acc @ z)) \<and> prefix (cleaner_stable acc) (cleaner_stable (acc @ z))"
proof (cases "cleaner_stable acc = []")
  case False
  then obtain u where u: "grows_from acc u" using stable_grows by blast
  obtain t where t: "full_clean (acc @ z) = strip_quotes (u @ t)" using u by (auto simp: grows_from_def)
  have ne: "u \<noteq> []" "\<not> unstable_tail (last u)" using u by (auto simp: grows_from_def)
  then have ed: "\<not> edge (last u)" using edge_unstable by blast
  obtain t' where t': "strip_quotes (u @ t) = lead u @ t'" using strip_quotes_app [OF ne(1) ed] by blast
  have ld: "lead u \<noteq> []" "last (lead u) = last u" using lead_last [OF ne(1) ed] by auto
  have "trim_end_matches unstable_tail (lead u @ t') = lead u @ trim_end_matches unstable_tail t'"
    using trim_end_app ld ne(2) by simp
  then show ?thesis using u t t' by (simp add: grows_from_def)
qed simp

text \<open>C27: What a cleaner lets out is a prefix of what it lets out later and of the cleaned text of
  every way the reply may go on, however it is cut into chunks. It is not the longest such prefix:
  the backtick that ends a text without a fence is held back although no continuation can change it.\<close>

theorem stable_is_stable:
  "prefix (cleaner_stable acc) (full_clean (foldl cleaner_push acc chunks))
   \<and> prefix (cleaner_stable acc) (cleaner_stable (foldl cleaner_push acc chunks))
   \<and> full_clean (foldl cleaner_push [] chunks) = clean_response (trim (concat chunks))
   \<and> cleaner_stable (str ''a`'') = str ''a'' \<and> prefix (str ''a`'') (full_clean (str ''a`'' @ more))"
proof -
  have pushed: "foldl cleaner_push a cs = a @ concat cs" for a cs
    by (induction cs arbitrary: a) (simp_all add: cleaner_push_def)
  have grows: "prefix (cleaner_stable acc) (full_clean (acc @ z)) \<and> prefix (cleaner_stable acc) (cleaner_stable (acc @ z))"
    for z by (rule stable_continues)
  have tick: "cleaner_stable (str ''a`'') = str ''a''"
    by (simp add: cleaner_stable_def full_clean_def clean_response_def trim_def trim_start_def trim_end_matches_def
        is_ws_def strip_prefix_def FENCE_def trim_matches_def is_quote_def is_corner_def unstable_tail_def)
  show ?thesis
    using grows [of "concat chunks"] tick plain_backtick_kept [of more]
    by (simp add: pushed full_clean_def del: str_simps)
qed

end
