(* ===== verification/Llm_Chain.thy ===== *)
theory Llm_Chain
  imports Llm_Error Provider_Slug Clean_Text "HOL-Library.AList"
begin

text \<open>
  The non-streaming model call (\<open>crates/eros-engine-llm/src/openrouter.rs\<close>): where a candidate of the
  chain posts to, the body it posts, what is made of the answer, and the walk over the candidates of
  \<open>execute\<close> and \<open>execute_vision\<close>. The HTTP exchange is the parameter \<open>post\<close>: what the endpoint answers
  to a body when the candidate of that position is tried (each is tried at most once). The reader and
  the printer of \<open>serde_json\<close> and the text of its errors are the parameters of the record \<open>serde\<close>.
  The \<open>f32\<close> values of a request are numbers.
\<close>

section \<open>Endpoints\<close>

record body_rule =
  rule_tasks :: "rstr list option"
  rule_params :: "(rstr \<times> json) list"

record provider_endpoint =
  pe_base_url :: rstr
  pe_api_key :: rstr
  pe_headers :: "(rstr \<times> rstr) list"
  pe_body_rules :: "body_rule list"

record openrouter_client =
  oc_api_key :: rstr
  oc_base_url :: rstr
  oc_providers :: "rstr \<rightharpoonup> provider_endpoint"
  oc_body_rules :: "body_rule list"

record endpoint =
  ep_url :: rstr
  ep_api_key :: rstr
  ep_name :: "rstr option"
  ep_headers :: "(rstr \<times> rstr) list option"

definition slug_error_display :: "slug_error \<Rightarrow> rstr" where
  "slug_error_display e = (case e of
     MultipleAt slug \<Rightarrow> str ''model slug `'' @ slug @ str ''` contains more than one unescaped `@` ''
       @ [8212] @ str '' a literal `@` inside a model id must be escaped as `'' @ [92]
       @ str ''@` (in a TOML double-quoted string, write `'' @ [34, 92, 92, 64, 34] @ str ''`)''
   | EmptyModelId slug \<Rightarrow> str ''model slug `'' @ slug @ str ''` has an empty model id before `@` ''
       @ [8212] @ str '' if the model id itself is meant to start with a literal `@` (e.g. an OpenRouter preset like `@preset/roleplay`), escape it as `''
       @ [92] @ str ''@` (in a TOML double-quoted string, write `'' @ [34, 92, 92, 64, 34] @ str ''`)''
   | EmptyProvider slug \<Rightarrow> str ''model slug `'' @ slug @ str ''` has an empty provider name after `@` ''
       @ [8212] @ str '' if the trailing `@` is meant to be a literal character in the model id, escape it as `''
       @ [92] @ str ''@` (in a TOML double-quoted string, write `'' @ [34, 92, 92, 64, 34] @ str ''`)'')"

definition resolve_endpoint :: "openrouter_client \<Rightarrow> rstr \<Rightarrow> llm_error + (rstr \<times> endpoint)" where
  "resolve_endpoint client slug = (case split_model_slug slug of
     Inl e \<Rightarrow> Inl (ConfigErr (str ''openrouter: '' @ slug_error_display e))
   | Inr (bare, provider) \<Rightarrow>
       (if provider = None \<or> provider = Some (str ''openrouter'')
        then if oc_api_key client = [] then Inl (ConfigErr (str ''openrouter: api key not set''))
             else Inr (bare, \<lparr>ep_url = oc_base_url client, ep_api_key = oc_api_key client, ep_name = None,
                              ep_headers = None\<rparr>)
        else
          (case oc_providers client (the provider) of
             None \<Rightarrow> Inl (ConfigErr (str ''openrouter: model slug `'' @ slug @ str ''` names undeclared provider `''
                            @ the provider @ str ''`''))
           | Some ep \<Rightarrow>
               if pe_api_key ep = []
               then Inl (ConfigErr (str ''openrouter: provider `'' @ the provider @ str ''`: api key not set''))
               else Inr (bare, \<lparr>ep_url = pe_base_url ep, ep_api_key = pe_api_key ep, ep_name = provider,
                                ep_headers = Some (pe_headers ep)\<rparr>))))"

section \<open>The body of a request\<close>

record chat_message =
  cm_role :: rstr
  cm_content :: rstr

record sampling =
  top_p :: "f64 option"
  frequency_penalty :: "f64 option"
  presence_penalty :: "f64 option"
  repetition_penalty :: "f64 option"

record chat_request =
  req_model :: rstr
  req_fallback_model :: "rstr list"
  req_messages :: "chat_message list"
  req_temperature :: f64
  req_sampling :: sampling
  req_max_tokens :: nat
  req_user :: "rstr option"
  req_session_id :: "rstr option"
  req_metadata :: "(rstr \<times> json) list option"
  req_response_format :: "json option"
  req_task :: "rstr option"

text \<open>The serialized \<open>WireRequest\<close> after \<open>for_endpoint\<close>; fields that are \<open>None\<close> are left out.\<close>

definition field_of :: "rstr \<Rightarrow> json option \<Rightarrow> (rstr \<times> json) list" where
  "field_of key v = (case v of None \<Rightarrow> [] | Some x \<Rightarrow> [(key, x)])"

definition wire_request :: "chat_request \<Rightarrow> rstr \<Rightarrow> endpoint \<Rightarrow> bool \<Rightarrow> (rstr \<times> json) list" where
  "wire_request req bare ep stream =
     (let custom = (ep_name ep \<noteq> None);
          session_id = (if custom then None else req_session_id req);
          metadata = (if custom then None else req_metadata req);
          s = req_sampling req
      in [(str ''model'', JStr bare),
          (str ''messages'', JArr (map (\<lambda>m. JObj [(str ''role'', JStr (cm_role m)), (str ''content'', JStr (cm_content m))])
                                     (req_messages req))),
          (str ''temperature'', JNum (req_temperature req))]
         @ field_of (str ''top_p'') (map_option JNum (top_p s))
         @ field_of (str ''frequency_penalty'') (map_option JNum (frequency_penalty s))
         @ field_of (str ''presence_penalty'') (map_option JNum (presence_penalty s))
         @ field_of (str ''repetition_penalty'') (map_option JNum (repetition_penalty s))
         @ [(str ''max_tokens'', JNum (f64_of_int (int (req_max_tokens req))))]
         @ (if stream then [(str ''stream'', JBool True)] else [])
         @ field_of (str ''user'') (map_option JStr (req_user req))
         @ field_of (str ''session_id'') (map_option JStr session_id)
         @ field_of (str ''metadata'') (map_option JObj metadata)
         @ field_of (str ''response_format'') (req_response_format req))"

definition rule_matches :: "body_rule \<Rightarrow> rstr option \<Rightarrow> bool" where
  "rule_matches rule task = (case (rule_tasks rule, task) of
     (None, _) \<Rightarrow> True | (Some _, None) \<Rightarrow> False | (Some xs, Some t) \<Rightarrow> list_ex (\<lambda>x. x = t) xs)"

definition apply_body_rules :: "(rstr \<times> json) list \<Rightarrow> body_rule list \<Rightarrow> rstr option \<Rightarrow> (rstr \<times> json) list" where
  "apply_body_rules body rules task =
     fold (\<lambda>rule. fold (\<lambda>(k, v). AList.update k v) (rule_params rule))
       (filter (\<lambda>r. rule_matches r task) rules) body"

definition endpoint_rules :: "openrouter_client \<Rightarrow> endpoint \<Rightarrow> body_rule list" where
  "endpoint_rules client ep = (case ep_name ep of
     None \<Rightarrow> oc_body_rules client
   | Some p \<Rightarrow> (case oc_providers client p of Some e \<Rightarrow> pe_body_rules e | None \<Rightarrow> []))"

section \<open>The answer\<close>

record serde =
  sd_from_str :: "rstr \<Rightarrow> json option"
  sd_show :: "json \<Rightarrow> rstr"
  sd_error :: "rstr \<Rightarrow> rstr"

text \<open>No answer at all; or a status, the \<open>Retry-After\<close> header, and the body or why it could not be read.\<close>

datatype http_reply = NoReply rstr | Reply status_code "rstr option" "rstr + rstr"

definition is_success :: "status_code \<Rightarrow> bool" where
  "is_success s \<longleftrightarrow> 200 \<le> sc_code s \<and> sc_code s < 300"

definition retry_after_secs :: "rstr option \<Rightarrow> nat option" where
  "retry_after_secs header = Option.bind header (\<lambda>h.
     case parse_usize (trim h) of Some n \<Rightarrow> if n < 2 ^ 32 then Some n else None | None \<Rightarrow> None)"

definition decode_or_api_error :: "serde \<Rightarrow> rstr \<Rightarrow> llm_error" where
  "decode_or_api_error sd body =
     (let is_api_error = (Option.bind (sd_from_str sd body) (json_get (str ''error'')) \<noteq> None)
      in if is_api_error
         then ProviderErr (message_only (str ''openrouter 200 error body: ''
                @ pb_message (parse_error_body (sd_from_str sd) (sd_show sd) body)))
         else DecodeErr (sd_error sd body))"

record wire_choice =
  wc_content :: "rstr option"
  wc_finish_reason :: "rstr option"

record wire_response =
  wr_id :: "rstr option"
  wr_model :: "rstr option"
  wr_usage :: "json option"
  wr_choices :: "wire_choice list"

definition wire_choice_of :: "json \<Rightarrow> wire_choice option" where
  "wire_choice_of v =
     (if \<not> struct_shape v 2 then None
      else Option.bind (struct_field v 0 (str ''message'')) (\<lambda>m.
        if \<not> struct_shape m 1 then None
        else Option.bind (opt_string_field (struct_field m 0 (str ''content''))) (\<lambda>c.
          Option.bind (opt_string_field (struct_field v 1 (str ''finish_reason''))) (\<lambda>f.
            Some \<lparr>wc_content = c, wc_finish_reason = f\<rparr>))))"

fun all_some :: "'a option list \<Rightarrow> 'a list option" where
  "all_some [] = Some []"
| "all_some (x # xs) = Option.bind x (\<lambda>y. map_option (\<lambda>ys. y # ys) (all_some xs))"

definition wire_response_of :: "json \<Rightarrow> wire_response option" where
  "wire_response_of v =
     (if \<not> struct_shape v 4 then None
      else Option.bind (opt_string_field (struct_field v 0 (str ''id''))) (\<lambda>i.
        Option.bind (opt_string_field (struct_field v 1 (str ''model''))) (\<lambda>m.
          case struct_field v 3 (str ''choices'') of
            Some (JArr cs) \<Rightarrow> map_option (\<lambda>choices. \<lparr>wr_id = i, wr_model = m,
                wr_usage = opt_value_field (struct_field v 2 (str ''usage'')), wr_choices = choices\<rparr>)
              (all_some (map wire_choice_of cs))
          | _ \<Rightarrow> None)))"

record chat_response =
  cr_reply :: rstr
  cr_generation_id :: "rstr option"
  cr_model :: "rstr option"
  cr_served_hop :: "rstr option"
  cr_usage :: "json option"
  cr_finish_reason :: "rstr option"
  cr_failures :: "attempt_failure list"

text \<open>The raw text and the finish reason of the first choice; the model as the audit names it.\<close>

definition raw_of :: "wire_response \<Rightarrow> rstr" where
  "raw_of p = (case wr_choices p of [] \<Rightarrow> [] | c # _ \<Rightarrow> (case wc_content c of None \<Rightarrow> [] | Some s \<Rightarrow> s))"

definition finish_reason_of :: "wire_response \<Rightarrow> rstr option" where
  "finish_reason_of p = (case wr_choices p of [] \<Rightarrow> None | c # _ \<Rightarrow> wc_finish_reason c)"

definition model_out :: "wire_response \<Rightarrow> rstr \<Rightarrow> endpoint \<Rightarrow> rstr option" where
  "model_out p bare ep = (case ep_name ep of
     None \<Rightarrow> wr_model p
   | Some name \<Rightarrow> Some (escape_model_id (case wr_model p of Some echo \<Rightarrow> echo | None \<Rightarrow> bare) @ 64 # name))"

definition served :: "wire_response \<Rightarrow> rstr \<Rightarrow> rstr \<Rightarrow> endpoint \<Rightarrow> chat_response" where
  "served p model bare ep =
     \<lparr>cr_reply = clean_response (trim (raw_of p)), cr_generation_id = wr_id p, cr_model = model_out p bare ep,
      cr_served_hop = Some model, cr_usage = wr_usage p, cr_finish_reason = finish_reason_of p, cr_failures = []\<rparr>"

text \<open>The exchange up to the decoded response.\<close>

definition read_reply :: "serde \<Rightarrow> http_reply \<Rightarrow> llm_error + wire_response" where
  "read_reply sd reply = (case reply of
     NoReply e \<Rightarrow> Inl (HttpErr e)
   | Reply status retry_after body \<Rightarrow>
       if \<not> is_success status
       then Inl (StatusErr status
              (parse_error_body (sd_from_str sd) (sd_show sd) (case body of Inr t \<Rightarrow> t | Inl _ \<Rightarrow> []))
              (retry_after_secs retry_after))
       else (case body of
          Inl e \<Rightarrow> Inl (HttpErr e)
        | Inr t \<Rightarrow> (case Option.bind (sd_from_str sd t) wire_response_of of
             Some p \<Rightarrow> Inr p | None \<Rightarrow> Inl (decode_or_api_error sd t))))"

definition FINISH_ERROR :: rstr where
  "FINISH_ERROR = str ''openrouter: non-stream completion finished with finish_reason=error''"

type_synonym post_fn = "nat \<Rightarrow> endpoint \<Rightarrow> (rstr \<times> json) list \<Rightarrow> http_reply"

definition call_once :: "serde \<Rightarrow> post_fn \<Rightarrow> openrouter_client \<Rightarrow> chat_request \<Rightarrow> nat \<Rightarrow> rstr
    \<Rightarrow> llm_error + chat_response" where
  "call_once sd post client req i model = (case resolve_endpoint client model of
     Inl e \<Rightarrow> Inl e
   | Inr (bare, ep) \<Rightarrow>
       (let wire = wire_request req bare ep False;
            rules = endpoint_rules client ep;
            body = (if list_ex (\<lambda>r. rule_matches r (req_task req)) rules
                    then apply_body_rules wire rules (req_task req) else wire)
        in case read_reply sd (post i ep body) of
             Inl e \<Rightarrow> Inl e
           | Inr p \<Rightarrow>
               if finish_reason_of p = Some (str ''error'') then Inl (ProviderErr (message_only FINISH_ERROR))
               else if looks_byte_garbled (raw_of p) then Inl (Garbled model (raw_of p) (finish_reason_of p))
               else Inr (served p model bare ep)))"

section \<open>The vision call\<close>

record vision_request =
  vr_model :: rstr
  vr_fallback_model :: "rstr list"
  vr_system_prompt :: rstr
  vr_image_url :: rstr
  vr_caption :: "rstr option"
  vr_temperature :: f64
  vr_max_tokens :: nat
  vr_sampling :: sampling

definition VISION_TASK :: rstr where "VISION_TASK = str ''chat_vision''"

text \<open>The default instruction, \<open>describe the content of this picture\<close> in Chinese.\<close>

definition DEFAULT_CAPTION :: rstr where
  "DEFAULT_CAPTION = [35831, 25551, 36848, 36825, 24352, 22270, 29255, 30340, 20869, 23481, 12290]"

definition build_vision_body :: "vision_request \<Rightarrow> rstr \<Rightarrow> (rstr \<times> json) list" where
  "build_vision_body req model =
     (let txt = (case map_option trim (vr_caption req) of
                   Some c \<Rightarrow> if c \<noteq> [] then c else DEFAULT_CAPTION | None \<Rightarrow> DEFAULT_CAPTION);
          s = vr_sampling req
      in [(str ''model'', JStr model),
          (str ''messages'', JArr
             [JObj [(str ''role'', JStr (str ''system'')), (str ''content'', JStr (vr_system_prompt req))],
              JObj [(str ''role'', JStr (str ''user'')),
                    (str ''content'', JArr
                       [JObj [(str ''type'', JStr (str ''text'')), (str ''text'', JStr txt)],
                        JObj [(str ''type'', JStr (str ''image_url'')),
                              (str ''image_url'', JObj [(str ''url'', JStr (vr_image_url req))])]])]]),
          (str ''temperature'', JNum (vr_temperature req)),
          (str ''max_tokens'', JNum (f64_of_int (int (vr_max_tokens req)))),
          (str ''stream'', JBool False)]
         @ field_of (str ''top_p'') (map_option JNum (top_p s))
         @ field_of (str ''frequency_penalty'') (map_option JNum (frequency_penalty s))
         @ field_of (str ''presence_penalty'') (map_option JNum (presence_penalty s))
         @ field_of (str ''repetition_penalty'') (map_option JNum (repetition_penalty s)))"

text \<open>One round of the loop of \<open>execute_vision\<close>: like \<open>call_once\<close>, without the look at an erroneous
  finish reason.\<close>

definition vision_once :: "serde \<Rightarrow> post_fn \<Rightarrow> openrouter_client \<Rightarrow> vision_request \<Rightarrow> nat \<Rightarrow> rstr
    \<Rightarrow> llm_error + chat_response" where
  "vision_once sd post client req i model = (case resolve_endpoint client model of
     Inl e \<Rightarrow> Inl e
   | Inr (bare, ep) \<Rightarrow>
       (let body = apply_body_rules (build_vision_body req bare) (endpoint_rules client ep) (Some VISION_TASK)
        in case read_reply sd (post i ep body) of
             Inl e \<Rightarrow> Inl e
           | Inr p \<Rightarrow>
               if looks_byte_garbled (raw_of p) then Inl (Garbled model (raw_of p) (finish_reason_of p))
               else Inr (served p model bare ep)))"

section \<open>The walk\<close>

text \<open>The latest complete garble: model, raw text and finish reason.\<close>

type_synonym salvage = "(rstr \<times> rstr \<times> rstr option) option"

definition note_garble :: "llm_error \<Rightarrow> salvage \<Rightarrow> salvage" where
  "note_garble e last_garbled = (case e of
     Garbled model raw finish_reason \<Rightarrow>
       if finish_reason \<noteq> Some (str ''length'') then Some (model, raw, finish_reason) else last_garbled
   | _ \<Rightarrow> last_garbled)"

definition note_failure :: "rstr \<Rightarrow> rstr \<Rightarrow> llm_error \<Rightarrow> attempt_failure list \<Rightarrow> attempt_failure list" where
  "note_failure task model e failures =
     (if should_record e then failures @ [from_llm_error task model e] else failures)"

definition salvaged :: "rstr \<times> rstr \<times> rstr option \<Rightarrow> attempt_failure list \<Rightarrow> chat_response" where
  "salvaged g failures = (case g of (model, raw, finish_reason) \<Rightarrow>
     \<lparr>cr_reply = clean_response (trim (repair_byte_bpe raw)), cr_generation_id = None, cr_model = Some model,
      cr_served_hop = Some model, cr_usage = None, cr_finish_reason = finish_reason, cr_failures = failures\<rparr>)"

fun walk :: "(nat \<Rightarrow> rstr \<Rightarrow> llm_error + chat_response) \<Rightarrow> rstr \<Rightarrow> nat \<Rightarrow> rstr list \<Rightarrow> attempt_failure list
    \<Rightarrow> salvage \<Rightarrow> llm_error + chat_response" where
  "walk once task i [] failures last_garbled =
     (case last_garbled of Some g \<Rightarrow> Inr (salvaged g failures) | None \<Rightarrow> Inl (ChainErr failures))"
| "walk once task i (model # rest) failures last_garbled = (case once i model of
     Inr resp \<Rightarrow> Inr (resp\<lparr>cr_failures := failures\<rparr>)
   | Inl e \<Rightarrow> walk once task (Suc i) rest (note_failure task model e failures) (note_garble e last_garbled))"

definition candidates_of :: "rstr \<Rightarrow> rstr list \<Rightarrow> rstr list" where
  "candidates_of model fallback = filter (\<lambda>s. s \<noteq> []) (model # fallback)"

definition execute :: "serde \<Rightarrow> post_fn \<Rightarrow> openrouter_client \<Rightarrow> chat_request \<Rightarrow> llm_error + chat_response" where
  "execute sd post client req =
     (let candidates = candidates_of (req_model req) (req_fallback_model req)
      in if candidates = []
         then Inl (ConfigErr (str ''openrouter: no models configured (primary empty, no fallbacks)''))
         else walk (call_once sd post client req) (case req_task req of None \<Rightarrow> [] | Some t \<Rightarrow> t)
                0 candidates [] None)"

definition execute_vision :: "serde \<Rightarrow> post_fn \<Rightarrow> openrouter_client \<Rightarrow> vision_request \<Rightarrow> llm_error + chat_response" where
  "execute_vision sd post client req =
     (let candidates = candidates_of (vr_model req) (vr_fallback_model req)
      in if candidates = [] then Inl (ConfigErr (str ''openrouter: vision has no models configured''))
         else walk (vision_once sd post client req) VISION_TASK 0 candidates [] None)"

end
