(* ===== verification/Llm_Chain_Laws.thy ===== *)
theory Llm_Chain_Laws
  imports Llm_Chain
begin

text \<open>
  What the model call guarantees: the walk takes the candidates in order and stops at the first
  success, accounts for every failed one, and falls back on the last complete garble only when there is
  no success; credentials and the user's audit fields stay with the endpoint they belong to.
\<close>

section \<open>The walk, for any single call\<close>

text \<open>What one attempt adds to the failures, and the garble it leaves to repair.\<close>

definition recorded :: "rstr \<Rightarrow> rstr \<Rightarrow> llm_error + chat_response \<Rightarrow> attempt_failure list" where
  "recorded task model out = (case out of
     Inl e \<Rightarrow> if should_record e then [from_llm_error task model e] else [] | Inr _ \<Rightarrow> [])"

definition repairable :: "llm_error + chat_response \<Rightarrow> salvage" where
  "repairable out = (case out of
     Inl (Garbled m raw f) \<Rightarrow> if f \<noteq> Some (str ''length'') then Some (m, raw, f) else None | _ \<Rightarrow> None)"

definition last_some :: "'a option list \<Rightarrow> 'a option" where
  "last_some xs = (case filter (\<lambda>x. x \<noteq> None) xs of [] \<Rightarrow> None | ys \<Rightarrow> last ys)"

lemma last_some_one: "last_some [g] = g" and last_some_None: "last_some (None # gs) = last_some gs"
  by (cases g) (simp_all add: last_some_def)

text \<open>
  What a single call promises: a success names the candidate and carries no failures of others, and a
  garble carries the candidate and a text that looks garbled.
\<close>

locale candidate_chain =
  fixes once :: "nat \<Rightarrow> rstr \<Rightarrow> llm_error + chat_response"
  assumes success: "once i m = Inr r \<Longrightarrow> cr_served_hop r = Some m \<and> cr_failures r = []"
    and garble: "once i m = Inl (Garbled m' raw f) \<Longrightarrow> m' = m \<and> looks_byte_garbled raw"
begin

lemma walk_failing:
  assumes "\<And>j. j < length xs \<Longrightarrow> isl (once (i + j) (xs ! j))"
  shows "walk once task i (xs @ ys) fs g
    = walk once task (i + length xs) ys
        (fs @ concat (map (\<lambda>j. recorded task (xs ! j) (once (i + j) (xs ! j))) [0..<length xs]))
        (last_some (g # map (\<lambda>j. repairable (once (i + j) (xs ! j))) [0..<length xs]))"
  using assms
proof (induction xs arbitrary: i fs g)
  case Nil
  then show ?case by (simp add: last_some_one)
next
  case (Cons x xs)
  obtain e where e: "once i x = Inl e" using Cons.prems [of 0] by (auto simp: isl_def)
  have rest: "isl (once (Suc i + j) (xs ! j))" if "j < length xs" for j
    using Cons.prems [of "Suc j"] that by simp
  have shift: "map h [0..<Suc (length xs)] = h 0 # map (\<lambda>j. h (Suc j)) [0..<length xs]" for h :: "nat \<Rightarrow> 'b"
    by (simp add: upt_conv_Cons map_Suc_upt [symmetric] del: upt_Suc)
  have fails: "note_failure task x e fs = fs @ recorded task x (once i x)"
    using e by (simp add: note_failure_def recorded_def)
  have garb: "last_some (note_garble e g # rest) = last_some (g # repairable (once i x) # rest)" for rest
    using e by (cases e) (auto simp: note_garble_def repairable_def last_some_def split: list.splits)
  show ?case
    using Cons.IH [of "Suc i" "note_failure task x e fs" "note_garble e g", OF rest] e
    by (simp add: shift fails garb del: upt_Suc)
qed

lemma walk_exact:
  "(\<exists>k < length cs. \<exists>r. once k (cs ! k) = Inr r \<and> (\<forall>j < k. isl (once j (cs ! j)))
      \<and> walk once task 0 cs [] None
          = Inr (r\<lparr>cr_failures := concat (map (\<lambda>j. recorded task (cs ! j) (once j (cs ! j))) [0..<k])\<rparr>))
   \<or> ((\<forall>j < length cs. isl (once j (cs ! j)))
      \<and> walk once task 0 cs [] None
          = (let fs = concat (map (\<lambda>j. recorded task (cs ! j) (once j (cs ! j))) [0..<length cs])
             in case last_some (map (\<lambda>j. repairable (once j (cs ! j))) [0..<length cs]) of
                  Some g \<Rightarrow> Inr (salvaged g fs) | None \<Rightarrow> Inl (ChainErr fs)))"
proof (cases "\<exists>k < length cs. \<not> isl (once k (cs ! k))")
  case True
  define k where "k = (LEAST k. k < length cs \<and> \<not> isl (once k (cs ! k)))"
  have k: "k < length cs" "\<not> isl (once k (cs ! k))"
    using LeastI_ex [of "\<lambda>k. k < length cs \<and> \<not> isl (once k (cs ! k))"] True unfolding k_def by blast+
  have before: "isl (once j (cs ! j))" if "j < k" for j
    using not_less_Least [of j "\<lambda>k. k < length cs \<and> \<not> isl (once k (cs ! k))"] that k(1) unfolding k_def by auto
  obtain r where r: "once k (cs ! k) = Inr r" using k(2) by (cases "once k (cs ! k)") auto
  have split: "cs = take k cs @ cs ! k # drop (Suc k) cs" using k(1) by (rule id_take_nth_drop)
  have same: "map (\<lambda>j. recorded task (take k cs ! j) (once j (take k cs ! j))) [0..<k]
      = map (\<lambda>j. recorded task (cs ! j) (once j (cs ! j))) [0..<k]"
    by (rule map_cong) simp_all
  have "walk once task 0 (take k cs @ cs ! k # drop (Suc k) cs) [] None
      = Inr (r\<lparr>cr_failures := concat (map (\<lambda>j. recorded task (take k cs ! j) (once j (take k cs ! j))) [0..<k])\<rparr>)"
    using walk_failing [of "take k cs" 0 task "cs ! k # drop (Suc k) cs" "[]" None] k(1) before r by simp
  then have "walk once task 0 cs [] None
      = Inr (r\<lparr>cr_failures := concat (map (\<lambda>j. recorded task (cs ! j) (once j (cs ! j))) [0..<k])\<rparr>)"
    unfolding same using split by simp
  then show ?thesis using k(1) r before by blast
next
  case False
  then have "walk once task 0 (cs @ []) [] None
    = walk once task (0 + length cs) [] (concat (map (\<lambda>j. recorded task (cs ! j) (once j (cs ! j))) [0..<length cs]))
        (last_some (None # map (\<lambda>j. repairable (once j (cs ! j))) [0..<length cs]))"
    using walk_failing [of cs 0 task "[]" "[]" None] by simp
  then show ?thesis using False by (simp add: Let_def last_some_None)
qed

lemma last_some_SomeD: "last_some xs = Some g \<Longrightarrow> Some g \<in> set xs"
proof -
  assume a: "last_some xs = Some g"
  then have "filter (\<lambda>x. x \<noteq> None) xs \<noteq> []" by (auto simp: last_some_def)
  then have "last (filter (\<lambda>x. x \<noteq> None) xs) = Some g" using a by (auto simp: last_some_def split: list.splits)
  with last_in_set [OF \<open>filter _ xs \<noteq> []\<close>] show ?thesis by auto
qed

lemma walk_served:
  assumes "walk once task 0 cs [] None = Inr r"
  shows "\<exists>m. m \<in> set cs \<and> cr_served_hop r = Some m"
  using walk_exact [of cs task]
proof
  assume "\<exists>k < length cs. \<exists>r. once k (cs ! k) = Inr r \<and> (\<forall>j < k. isl (once j (cs ! j)))
      \<and> walk once task 0 cs [] None
          = Inr (r\<lparr>cr_failures := concat (map (\<lambda>j. recorded task (cs ! j) (once j (cs ! j))) [0..<k])\<rparr>)"
  then show ?thesis using assms success by fastforce
next
  assume a: "(\<forall>j < length cs. isl (once j (cs ! j)))
      \<and> walk once task 0 cs [] None
          = (let fs = concat (map (\<lambda>j. recorded task (cs ! j) (once j (cs ! j))) [0..<length cs])
             in case last_some (map (\<lambda>j. repairable (once j (cs ! j))) [0..<length cs]) of
                  Some g \<Rightarrow> Inr (salvaged g fs) | None \<Rightarrow> Inl (ChainErr fs))"
  then obtain g fs where g: "last_some (map (\<lambda>j. repairable (once j (cs ! j))) [0..<length cs]) = Some g"
    and r: "r = salvaged g fs"
    using assms by (auto simp: Let_def split: option.splits)
  from last_some_SomeD [OF g] obtain j where j: "j < length cs" "repairable (once j (cs ! j)) = Some g" by auto
  then obtain raw f where "once j (cs ! j) = Inl (Garbled (fst g) raw f)"
    by (auto simp: repairable_def split: sum.splits llm_error.splits if_splits)
  then have "fst g = cs ! j" using garble by blast
  then show ?thesis using r j by (cases g) (auto simp: salvaged_def)
qed

end

section \<open>The two calls of the client\<close>

lemma resolve_fails: "resolve_endpoint client m = Inl e \<Longrightarrow> \<exists>t. e = ConfigErr t"
  by (auto simp: resolve_endpoint_def Let_def split: sum.splits if_splits option.splits)

lemma read_fails: "read_reply sd reply = Inl e \<Longrightarrow> should_record e"
  by (auto simp: read_reply_def should_record_def decode_or_api_error_def Let_def
      split: http_reply.splits if_splits sum.splits option.splits)

lemma no_garble: "resolve_endpoint client m \<noteq> Inl (Garbled m' raw f)" "read_reply sd reply \<noteq> Inl (Garbled m' raw f)"
  using resolve_fails [of client m] read_fails [of sd reply] by (auto simp: should_record_def)

interpretation text_call: candidate_chain "call_once sd post client req" for sd post client req
  by unfold_locales
    (auto simp: call_once_def served_def Let_def no_garble split: sum.splits if_splits prod.splits)

interpretation vision_call: candidate_chain "vision_once sd post client req" for sd post client req
  by unfold_locales
    (auto simp: vision_once_def served_def Let_def no_garble split: sum.splits if_splits prod.splits)

section \<open>The calls against a specification of the chain\<close>

text \<open>
  The chain as a function of what every candidate would answer: the first success with the failures
  before it, else the last complete garble repaired, else every failure.
\<close>

definition chain_spec :: "(nat \<Rightarrow> llm_error + chat_response) \<Rightarrow> rstr \<Rightarrow> rstr list \<Rightarrow> llm_error + chat_response" where
  "chain_spec out task cs =
     (let failures = (\<lambda>k. concat (map (\<lambda>j. recorded task (cs ! j) (out j)) [0..<k]))
      in case List.find (\<lambda>k. \<not> isl (out k)) [0..<length cs] of
           Some k \<Rightarrow> Inr ((projr (out k))\<lparr>cr_failures := failures k\<rparr>)
         | None \<Rightarrow> (case last_some (map (\<lambda>j. repairable (out j)) [0..<length cs]) of
             Some g \<Rightarrow> Inr (salvaged g (failures (length cs)))
           | None \<Rightarrow> Inl (ChainErr (failures (length cs)))))"

lemma find_upt_Some:
  assumes "k < n" and "P k" and "\<And>j. j < k \<Longrightarrow> \<not> P j"
  shows "List.find P [0..<n] = Some k"
proof -
  have "[0..<n] = [0..<k] @ k # [Suc k..<n]"
    using upt_add_eq_append [of 0 k "n - k"] upt_conv_Cons [of k n] assms(1) by simp
  moreover have "List.find P [0..<k] = None" using assms(3) by (simp add: find_None_iff)
  moreover have "List.find P xs = None \<Longrightarrow> List.find P (xs @ ys) = List.find P ys" for xs ys
    by (induction xs) (auto split: if_splits)
  ultimately show ?thesis using assms(2) by simp
qed

context candidate_chain
begin

lemma walk_spec: "walk once task 0 cs [] None = chain_spec (\<lambda>k. once k (cs ! k)) task cs"
  using walk_exact [of cs task]
proof
  assume "\<exists>k < length cs. \<exists>r. once k (cs ! k) = Inr r \<and> (\<forall>j < k. isl (once j (cs ! j)))
      \<and> walk once task 0 cs [] None
          = Inr (r\<lparr>cr_failures := concat (map (\<lambda>j. recorded task (cs ! j) (once j (cs ! j))) [0..<k])\<rparr>)"
  then obtain k r where k: "k < length cs" "once k (cs ! k) = Inr r" "\<forall>j < k. isl (once j (cs ! j))"
    "walk once task 0 cs [] None
          = Inr (r\<lparr>cr_failures := concat (map (\<lambda>j. recorded task (cs ! j) (once j (cs ! j))) [0..<k])\<rparr>)"
    by blast
  have "List.find (\<lambda>k. \<not> isl (once k (cs ! k))) [0..<length cs] = Some k"
    using k(1-3) by (intro find_upt_Some) auto
  then show ?thesis using k by (simp add: chain_spec_def)
next
  assume a: "(\<forall>j < length cs. isl (once j (cs ! j)))
      \<and> walk once task 0 cs [] None
          = (let fs = concat (map (\<lambda>j. recorded task (cs ! j) (once j (cs ! j))) [0..<length cs])
             in case last_some (map (\<lambda>j. repairable (once j (cs ! j))) [0..<length cs]) of
                  Some g \<Rightarrow> Inr (salvaged g fs) | None \<Rightarrow> Inl (ChainErr fs))"
  then have "List.find (\<lambda>k. \<not> isl (once k (cs ! k))) [0..<length cs] = None" by (simp add: find_None_iff)
  then show ?thesis using a by (simp add: chain_spec_def Let_def)
qed

lemma walk_served_case: "case walk once task 0 cs [] None of Inl _ \<Rightarrow> True | Inr r \<Rightarrow> \<exists>m. m \<in> set cs \<and> cr_served_hop r = Some m"
  using walk_served [of task cs] by (cases "walk once task 0 cs [] None") auto

end

definition served_from :: "rstr list \<Rightarrow> llm_error + chat_response \<Rightarrow> bool" where
  "served_from cs out = (case out of Inl _ \<Rightarrow> True | Inr r \<Rightarrow> \<exists>m. m \<in> set cs \<and> cr_served_hop r = Some m)"

text \<open>C18: A call gives what the first candidate that succeeds gives, with the failures of the candidates
  before it; when none does, the last complete garble repaired; and otherwise every failure in order. A
  reply is served by one of the non-empty candidates, for the text call and the vision call alike.\<close>

theorem execute_exact:
  "execute sd post client req
     = (if candidates_of (req_model req) (req_fallback_model req) = []
        then Inl (ConfigErr (str ''openrouter: no models configured (primary empty, no fallbacks)''))
        else chain_spec (\<lambda>k. call_once sd post client req k (candidates_of (req_model req) (req_fallback_model req) ! k))
               (case req_task req of None \<Rightarrow> [] | Some t \<Rightarrow> t) (candidates_of (req_model req) (req_fallback_model req)))
   \<and> served_from (candidates_of (req_model req) (req_fallback_model req)) (execute sd post client req)
   \<and> execute_vision sd post client vreq
     = (if candidates_of (vr_model vreq) (vr_fallback_model vreq) = []
        then Inl (ConfigErr (str ''openrouter: vision has no models configured''))
        else chain_spec (\<lambda>k. vision_once sd post client vreq k (candidates_of (vr_model vreq) (vr_fallback_model vreq) ! k))
               VISION_TASK (candidates_of (vr_model vreq) (vr_fallback_model vreq)))
   \<and> served_from (candidates_of (vr_model vreq) (vr_fallback_model vreq)) (execute_vision sd post client vreq)
   \<and> [] \<notin> set (candidates_of model fallback)"
  using text_call.walk_served_case vision_call.walk_served_case
  by (simp add: execute_def execute_vision_def Let_def text_call.walk_spec [symmetric]
      vision_call.walk_spec [symmetric] served_from_def candidates_of_def del: str_simps)

section \<open>Where a request goes\<close>

lemma map_of_field: "map_of (field_of key v) k = (if k = key then v else None)"
  by (cases v) (auto simp: field_of_def)

text \<open>A slug goes to the endpoint it names: one without a provider, or with the provider
  \<open>openrouter\<close>, to the built-in URL with the built-in key, any other to the URL of that provider with
  its own key, never with an empty key; the body carries the bare model id, and the caller's session id
  and metadata reach the built-in endpoint only.\<close>

theorem endpoint_keeps_credentials:
  assumes "resolve_endpoint client slug = Inr (bare, ep)"
  shows "(\<exists>p. split_model_slug slug = Inr (bare, p)
        \<and> (if p = None \<or> p = Some (str ''openrouter'')
           then ep_name ep = None \<and> ep_url ep = oc_base_url client \<and> ep_api_key ep = oc_api_key client
           else ep_name ep = p \<and> (\<exists>e. oc_providers client (the p) = Some e \<and> ep_url ep = pe_base_url e
                  \<and> ep_api_key ep = pe_api_key e \<and> ep_headers ep = Some (pe_headers e))))
    \<and> ep_api_key ep \<noteq> []
    \<and> map_of (wire_request req bare ep stream) (str ''model'') = Some (JStr bare)
    \<and> map_of (wire_request req bare ep stream) (str ''session_id'')
        = (if ep_name ep = None then map_option JStr (req_session_id req) else None)
    \<and> map_of (wire_request req bare ep stream) (str ''metadata'')
        = (if ep_name ep = None then map_option JObj (req_metadata req) else None)"
proof -
  obtain p where p: "split_model_slug slug = Inr (bare, p)"
    using assms by (auto simp: resolve_endpoint_def Let_def split: sum.splits if_splits option.splits)
  have ends: "(if p = None \<or> p = Some (str ''openrouter'')
           then ep_name ep = None \<and> ep_url ep = oc_base_url client \<and> ep_api_key ep = oc_api_key client
           else ep_name ep = p \<and> (\<exists>e. oc_providers client (the p) = Some e \<and> ep_url ep = pe_base_url e
                  \<and> ep_api_key ep = pe_api_key e \<and> ep_headers ep = Some (pe_headers e)))
      \<and> ep_api_key ep \<noteq> []"
    using assms p by (auto simp: resolve_endpoint_def simp del: str_simps split: if_splits option.splits)
  have "map_of (wire_request req bare ep stream) (str ''model'') = Some (JStr bare)"
    "map_of (wire_request req bare ep stream) (str ''session_id'')
        = (if ep_name ep = None then map_option JStr (req_session_id req) else None)"
    "map_of (wire_request req bare ep stream) (str ''metadata'')
        = (if ep_name ep = None then map_option JObj (req_metadata req) else None)"
    by (simp_all add: wire_request_def Let_def map_add_def map_of_field str_inj del: str_simps split: option.split)
  with p ends show ?thesis by blast
qed

definition two_endpoints :: openrouter_client where
  "two_endpoints = \<lparr>oc_api_key = str ''k0'', oc_base_url = str ''u0'',
     oc_providers = [str ''venice'' \<mapsto> \<lparr>pe_base_url = str ''u1'', pe_api_key = str ''k1'', pe_headers = [], pe_body_rules = []\<rparr>],
     oc_body_rules = []\<rparr>"

definition no_sampling :: sampling where
  "no_sampling = \<lparr>top_p = None, frequency_penalty = None, presence_penalty = None, repetition_penalty = None\<rparr>"

definition one_model :: chat_request where
  "one_model = \<lparr>req_model = str ''m'', req_fallback_model = [], req_messages = [], req_temperature = 1,
     req_sampling = no_sampling, req_max_tokens = 10, req_user = None, req_session_id = Some (str ''s''),
     req_metadata = None, req_response_format = None, req_task = None\<rparr>"

lemma split_plain: "64 \<notin> set s \<Longrightarrow> split_model_slug s = Inr (s, None)"
  using slug_ats_escape [of s] unescape_escape [of s] by (simp add: split_model_slug_def)

lemma split_venice: "split_model_slug (str ''m@venice'') = Inr (str ''m'', Some (str ''venice''))"
  using slug_roundtrip_bare [of "str ''m''" "str ''venice''"] by simp

theorem endpoint_keeps_credentials_witness:
  "\<exists>ep. resolve_endpoint two_endpoints (str ''m@venice'') = Inr (str ''m'', ep) \<and> ep_api_key ep = str ''k1''
     \<and> ep_api_key ep \<noteq> []
     \<and> map_of (wire_request one_model (str ''m'') ep False) (str ''session_id'') = None"
proof -
  let ?ep = "\<lparr>ep_url = str ''u1'', ep_api_key = str ''k1'', ep_name = Some (str ''venice''), ep_headers = Some []\<rparr>"
  have r: "resolve_endpoint two_endpoints (str ''m@venice'') = Inr (str ''m'', ?ep)"
    unfolding resolve_endpoint_def split_venice by (simp add: two_endpoints_def)
  with endpoint_keeps_credentials [OF r, of one_model False] show ?thesis
    by (intro exI [of _ ?ep]) (simp del: str_simps)
qed

section \<open>A generation that dies\<close>

text \<open>C30: A completion whose generation died (finish reason \<open>error\<close>) fails its candidate in the text
  call, so a chain of that one model fails; the vision call, which says it mirrors the chain, serves the
  partial reply.\<close>

theorem vision_serves_a_dead_generation:
  assumes "resolve_endpoint client m = Inr (bare, ep)" and "m \<noteq> []"
    and "read_reply sd reply = Inr p" and "finish_reason_of p = Some (str ''error'')"
    and "\<not> looks_byte_garbled (raw_of p)"
    and "req_model req = m" "req_fallback_model req = []" "vr_model vreq = m" "vr_fallback_model vreq = []"
  shows "execute sd (\<lambda>_ _ _. reply) client req
      = Inl (ChainErr [upstream_of (case req_task req of None \<Rightarrow> [] | Some t \<Rightarrow> t) m 200 (message_only FINISH_ERROR) None])
    \<and> execute_vision sd (\<lambda>_ _ _. reply) client vreq = Inr (served p m bare ep)"
proof -
  have "call_once sd (\<lambda>_ _ _. reply) client req 0 m = Inl (ProviderErr (message_only FINISH_ERROR))"
    using assms by (simp add: call_once_def Let_def)
  moreover have "vision_once sd (\<lambda>_ _ _. reply) client vreq 0 m = Inr (served p m bare ep)"
    using assms by (simp add: vision_once_def Let_def)
  ultimately show ?thesis using assms
    by (simp add: execute_def execute_vision_def candidates_of_def Let_def note_failure_def note_garble_def
        should_record_def from_llm_error_def served_def)
qed

text \<open>A body with one choice that died after \<open>hi\<close>.\<close>

definition dead_body :: json where
  "dead_body = JObj [(str ''choices'', JArr [JObj
     [(str ''message'', JObj [(str ''content'', JStr (str ''hi''))]), (str ''finish_reason'', JStr (str ''error''))]])]"

definition dead_serde :: serde where
  "dead_serde = \<lparr>sd_from_str = (\<lambda>_. Some dead_body), sd_show = (\<lambda>_. []), sd_error = (\<lambda>_. [])\<rparr>"

definition one_picture :: vision_request where
  "one_picture = \<lparr>vr_model = str ''m'', vr_fallback_model = [], vr_system_prompt = [], vr_image_url = [],
     vr_caption = None, vr_temperature = 1, vr_max_tokens = 10, vr_sampling = no_sampling\<rparr>"

theorem vision_serves_a_dead_generation_witness:
  "\<exists>e r. execute dead_serde (\<lambda>_ _ _. Reply \<lparr>sc_code = 200, sc_text = []\<rparr> None (Inr [])) two_endpoints one_model = Inl e
     \<and> execute_vision dead_serde (\<lambda>_ _ _. Reply \<lparr>sc_code = 200, sc_text = []\<rparr> None (Inr [])) two_endpoints one_picture = Inr r
     \<and> cr_finish_reason r = Some (str ''error'')"
proof -
  let ?p = "\<lparr>wr_id = None, wr_model = None, wr_usage = None,
    wr_choices = [\<lparr>wc_content = Some (str ''hi''), wc_finish_reason = Some (str ''error'')\<rparr>]\<rparr>"
  let ?ep = "\<lparr>ep_url = str ''u0'', ep_api_key = str ''k0'', ep_name = None, ep_headers = None\<rparr>"
  have r: "resolve_endpoint two_endpoints (str ''m'') = Inr (str ''m'', ?ep)"
    using split_plain [of "str ''m''"] by (simp add: resolve_endpoint_def two_endpoints_def)
  have p: "read_reply dead_serde (Reply \<lparr>sc_code = 200, sc_text = []\<rparr> None (Inr [])) = Inr ?p"
    by (simp add: read_reply_def is_success_def dead_serde_def dead_body_def wire_response_of_def struct_shape_def
        struct_field_def json_get_def opt_string_field_def wire_choice_of_def opt_value_field_def)
  have f: "finish_reason_of ?p = Some (str ''error'')" "\<not> looks_byte_garbled (raw_of ?p)"
    by (simp_all add: finish_reason_of_def raw_of_def looks_byte_garbled_def GARBLE_MIN_LEN_def)
  have q: "req_model one_model = str ''m''" "req_fallback_model one_model = []"
    "vr_model one_picture = str ''m''" "vr_fallback_model one_picture = []"
    by (simp_all add: one_model_def one_picture_def)
  have m: "str ''m'' \<noteq> []" by simp
  from vision_serves_a_dead_generation [OF r m p f q] f(1) show ?thesis
    by (simp add: served_def del: str_simps)
qed

end
