(* ===== verification/Model_Select.thy ===== *)
theory Model_Select
  imports Llm_Chain "HOL-Library.List_Lexorder"
begin

text \<open>
  Which model a task calls (\<open>crates/eros-engine-llm/src/model_config.rs\<close>): the three shapes of a model
  setting with the cursor of the round robin, the precedence of tier, task and defaults in \<open>resolve\<close>,
  and the resolvers of the tasks that carry a prompt. A resolver that selects returns the configuration
  with the cursors it advanced. The draw of a weighted table is a parameter: a position for the sum of
  the weights. Reading TOML is not modelled; \<open>model_spec_of\<close> is what the reader makes of the three raw
  shapes. Infinite and NaN weights, which it drops too, are not values here.
\<close>

section \<open>Settings\<close>

datatype fallback_spec = Single rstr | Multiple "rstr list"

definition into_vec :: "fallback_spec \<Rightarrow> rstr list" where
  "into_vec spec = (case spec of
     Single s \<Rightarrow> if s = [] then [] else [s]
   | Multiple v \<Rightarrow> filter (\<lambda>s. s \<noteq> []) v)"

datatype model_spec = Fixed rstr | RoundRobin "rstr list" nat | Weighted "(rstr \<times> f64) list"

datatype raw_model_spec = RawFixed rstr | RawRoundRobin "rstr list" | RawWeighted "(rstr \<times> f64) list"

definition model_spec_of :: "raw_model_spec \<Rightarrow> model_spec" where
  "model_spec_of raw = (case raw of
     RawFixed s \<Rightarrow> Fixed s
   | RawRoundRobin models \<Rightarrow> RoundRobin (filter (\<lambda>s. s \<noteq> []) models) 0
   | RawWeighted m \<Rightarrow> Weighted (sort_key fst (filter (\<lambda>(_, w). 0 < w) m)))"

text \<open>The walk over the cumulative weights; the last entry absorbs what rounding leaves.\<close>

fun pick_loop_weighted :: "(rstr \<times> f64) list \<Rightarrow> f64 \<Rightarrow> f64 \<Rightarrow> rstr option" where
  "pick_loop_weighted [] position acc = None"
| "pick_loop_weighted ((model, w) # es) position acc =
     (let acc = fadd acc w in if position < acc then Some model else pick_loop_weighted es position acc)"

definition pick_weighted :: "(rstr \<times> f64) list \<Rightarrow> f64 \<Rightarrow> rstr" where
  "pick_weighted entries position = (case pick_loop_weighted entries position 0 of
     Some model \<Rightarrow> model | None \<Rightarrow> fst (last entries))"

definition select_model :: "(f64 \<Rightarrow> f64) \<Rightarrow> model_spec \<Rightarrow> rstr option \<times> model_spec" where
  "select_model draw spec = (case spec of
     Fixed s \<Rightarrow> (if s \<noteq> [] then Some s else None, spec)
   | RoundRobin models cursor \<Rightarrow>
       if models \<noteq> [] then (Some (models ! (cursor mod length models)), RoundRobin models ((cursor + 1) mod 2 ^ 64))
       else (None, spec)
   | Weighted entries \<Rightarrow>
       (if entries \<noteq> [] then Some (pick_weighted entries (draw (fsum (map snd entries) 0))) else None, spec))"

definition candidate_ids :: "model_spec \<Rightarrow> rstr list" where
  "candidate_ids spec = (case spec of
     Fixed s \<Rightarrow> if s = [] then [] else [s]
   | RoundRobin models _ \<Rightarrow> models
   | Weighted entries \<Rightarrow> map fst entries)"

datatype prompt_spec = Plain rstr | Indexed "rstr list" | Keyed "(rstr \<times> rstr) list"

definition as_plain :: "prompt_spec \<Rightarrow> rstr option" where
  "as_plain spec = (case spec of Plain s \<Rightarrow> Some s | _ \<Rightarrow> None)"

definition prompt_select :: "prompt_spec \<Rightarrow> rstr option \<Rightarrow> rstr option" where
  "prompt_select spec variant = (case spec of
     Plain s \<Rightarrow> Some s
   | Indexed v \<Rightarrow> Option.bind (Option.bind variant parse_usize) (\<lambda>i. if i < length v then Some (v ! i) else None)
   | Keyed m \<Rightarrow> Option.bind variant (map_of m))"

definition plain_or_empty :: "prompt_spec option \<Rightarrow> rstr" where
  "plain_or_empty spec = (case Option.bind spec as_plain of None \<Rightarrow> [] | Some s \<Rightarrow> s)"

text \<open>The trigger of the output filter: the conjunction of the predicates it specifies.\<close>

datatype trait_when = Present | Absent

record trait_predicate =
  tp_any :: "rstr list"
  tp_when :: trait_when

record output_filter_trigger =
  ot_random :: "f64 option"
  ot_models :: "rstr list option"
  ot_traits :: "trait_predicate option"

definition traits_pass :: "output_filter_trigger \<Rightarrow> rstr list \<Rightarrow> bool" where
  "traits_pass t tags = (case ot_traits t of
     None \<Rightarrow> True
   | Some tp \<Rightarrow>
       (let any_present = list_ex (\<lambda>a. list_ex (\<lambda>tag. tag = a) tags) (tp_any tp)
        in case tp_when tp of Present \<Rightarrow> any_present | Absent \<Rightarrow> \<not> any_present))"

definition models_pass :: "output_filter_trigger \<Rightarrow> rstr \<Rightarrow> bool" where
  "models_pass t model_id = (case ot_models t of None \<Rightarrow> True | Some xs \<Rightarrow> list_ex (\<lambda>m. m = model_id) xs)"

definition turn_level_pass :: "output_filter_trigger \<Rightarrow> f64 option \<Rightarrow> rstr list \<Rightarrow> bool" where
  "turn_level_pass t random_draw trait_tags =
     ((case (ot_random t, random_draw) of
         (Some p, Some d) \<Rightarrow> d < p | (Some _, None) \<Rightarrow> False | (None, _) \<Rightarrow> True)
      \<and> traits_pass t trait_tags)"

definition should_filter :: "output_filter_trigger \<Rightarrow> rstr \<Rightarrow> rstr list \<Rightarrow> f64 option \<Rightarrow> output_filter_trigger option" where
  "should_filter t model_id trait_tags random_draw =
     (if \<not> turn_level_pass t random_draw trait_tags then None
      else if \<not> models_pass t model_id then None else Some t)"

datatype filter_timing = AfterExtract | BeforeExtract

record tier_config =
  tc_model :: "model_spec option"
  tc_fallback :: "fallback_spec option"
  tc_allow_traits :: "rstr list option"
  tc_output_filter :: "bool option"
  tc_filter_prompt :: "prompt_spec option"
  tc_trigger :: "output_filter_trigger option"
  tc_timing :: "filter_timing option"
  tc_retry_depth :: "nat option"

record default_config =
  dc_fallback_model :: "rstr option"
  dc_fallback_temperature :: "f64 option"
  dc_fallback_max_tokens :: "nat option"

record task_config =
  tk_model :: model_spec
  tk_temperature :: "f64 option"
  tk_sampling :: sampling
  tk_max_tokens :: "nat option"
  tk_fallback :: "fallback_spec option"
  tk_allow_traits :: "rstr list option"
  tk_output_filter :: "bool option"
  tk_input_filter :: "f64 option"
  tk_filter_prompt :: "prompt_spec option"
  tk_trigger :: "output_filter_trigger option"
  tk_timing :: "filter_timing option"
  tk_retry_depth :: "nat option"
  tk_timeout_secs :: "nat option"
  tk_structured_output :: "bool option"
  tk_ghosting :: "bool option"
  tk_tts_audio_tags :: "bool option"
  tk_recall :: "bool option"
  tk_interval_hours :: "nat option"
  tk_retention_days :: "nat option"
  tk_round_secs :: "nat option"
  tk_debounce_secs :: "nat option"
  tk_thread_cooldown_secs :: "nat option"
  tk_daily_cap :: "nat option"
  tk_reply_window_secs :: "nat option"
  tk_active_window_hours :: "nat option"
  tk_context_days :: "nat option"
  tk_model_read :: "rstr option"
  tk_model_write :: "rstr option"
  tk_tiers :: "rstr \<rightharpoonup> tier_config"

record model_config =
  mc_defaults :: default_config
  mc_tasks :: "rstr \<rightharpoonup> task_config"

section \<open>Resolving a task\<close>

definition FALLBACK_MODEL :: rstr where "FALLBACK_MODEL = str ''x-ai/grok-4-mini''"
definition FALLBACK_TEMPERATURE :: f64 where "FALLBACK_TEMPERATURE = 1 / 2"
definition FALLBACK_MAX_TOKENS :: nat where "FALLBACK_MAX_TOKENS = 200"

record resolved_model =
  rm_model :: rstr
  rm_fallback_model :: "rstr list"
  rm_temperature :: f64
  rm_sampling :: sampling
  rm_max_tokens :: nat
  rm_allow_traits :: "rstr list option"
  rm_retry_depth :: nat

definition tier_of :: "model_config \<Rightarrow> rstr \<Rightarrow> rstr option \<Rightarrow> tier_config option" where
  "tier_of cfg task tier = (case (mc_tasks cfg task, tier) of
     (Some t, Some name) \<Rightarrow> tk_tiers t name | _ \<Rightarrow> None)"

definition set_tier_model :: "rstr \<Rightarrow> rstr \<Rightarrow> model_spec \<Rightarrow> model_config \<Rightarrow> model_config" where
  "set_tier_model task name spec cfg = cfg\<lparr>mc_tasks := (\<lambda>t. if t = task
     then map_option (\<lambda>k. k\<lparr>tk_tiers := (\<lambda>n. if n = name then map_option (\<lambda>c. c\<lparr>tc_model := Some spec\<rparr>) (tk_tiers k n)
                                           else tk_tiers k n)\<rparr>) (mc_tasks cfg t)
     else mc_tasks cfg t)\<rparr>"

definition set_task_model :: "rstr \<Rightarrow> model_spec \<Rightarrow> model_config \<Rightarrow> model_config" where
  "set_task_model task spec cfg = cfg\<lparr>mc_tasks := (\<lambda>t. if t = task
     then map_option (\<lambda>k. k\<lparr>tk_model := spec\<rparr>) (mc_tasks cfg t) else mc_tasks cfg t)\<rparr>"

text \<open>The primary: the tier's model, else the task's, each selection advancing its cursor.\<close>

definition select_tier :: "(f64 \<Rightarrow> f64) \<Rightarrow> model_config \<Rightarrow> rstr \<Rightarrow> rstr option \<Rightarrow> rstr option \<times> model_config" where
  "select_tier draw cfg task tier =
     (case Option.bind (tier_of cfg task tier) tc_model of
        None \<Rightarrow> (None, cfg)
      | Some spec \<Rightarrow> (let (m, spec) = select_model draw spec in (m, set_tier_model task (the tier) spec cfg)))"

definition select_task :: "(f64 \<Rightarrow> f64) \<Rightarrow> model_config \<Rightarrow> rstr \<Rightarrow> rstr option \<times> model_config" where
  "select_task draw cfg task = (case mc_tasks cfg task of
     None \<Rightarrow> (None, cfg)
   | Some t \<Rightarrow> (let (m, spec) = select_model draw (tk_model t) in (m, set_task_model task spec cfg)))"

definition select_primary :: "(f64 \<Rightarrow> f64) \<Rightarrow> model_config \<Rightarrow> rstr \<Rightarrow> rstr option \<Rightarrow> rstr \<times> model_config" where
  "select_primary draw cfg task tier =
     (case select_tier draw cfg task tier of
        (Some m, cfg) \<Rightarrow> (m, cfg)
      | (None, cfg) \<Rightarrow> (case select_task draw cfg task of
          (Some m, cfg) \<Rightarrow> (m, cfg)
        | (None, cfg) \<Rightarrow> ((case dc_fallback_model (mc_defaults cfg) of Some m \<Rightarrow> m | None \<Rightarrow> FALLBACK_MODEL), cfg)))"

definition configured_fallback :: "model_config \<Rightarrow> rstr \<Rightarrow> rstr option \<Rightarrow> rstr list" where
  "configured_fallback cfg task tier =
     (case Option.bind (tier_of cfg task tier) tc_fallback of
        Some spec \<Rightarrow> into_vec spec
      | None \<Rightarrow> (case Option.bind (mc_tasks cfg task) tk_fallback of
          Some spec \<Rightarrow> into_vec spec
        | None \<Rightarrow> (case dc_fallback_model (mc_defaults cfg) of None \<Rightarrow> [] | Some m \<Rightarrow> [m])))"

definition chain_depth :: "model_config \<Rightarrow> rstr \<Rightarrow> rstr option \<Rightarrow> nat \<Rightarrow> nat" where
  "chain_depth cfg task tier dflt =
     (case or_else (Option.bind (tier_of cfg task tier) tc_retry_depth) (Option.bind (mc_tasks cfg task) tk_retry_depth) of
        Some n \<Rightarrow> n | None \<Rightarrow> dflt)"

definition no_sampling_config :: sampling where
  "no_sampling_config = \<lparr>top_p = None, frequency_penalty = None, presence_penalty = None, repetition_penalty = None\<rparr>"

definition resolve_model :: "(f64 \<Rightarrow> f64) \<Rightarrow> model_config \<Rightarrow> rstr \<Rightarrow> rstr option \<Rightarrow> resolved_model \<times> model_config" where
  "resolve_model draw cfg task tier =
     (let task_cfg = mc_tasks cfg task;
          (model, cfg') = select_primary draw cfg task tier;
          fallback_model = filter (\<lambda>m. m \<noteq> model) (configured_fallback cfg task tier);
          retry_depth = chain_depth cfg task tier 2
      in (\<lparr>rm_model = model, rm_fallback_model = take retry_depth fallback_model,
           rm_temperature = (case or_else (Option.bind task_cfg tk_temperature) (dc_fallback_temperature (mc_defaults cfg)) of
              Some t \<Rightarrow> t | None \<Rightarrow> FALLBACK_TEMPERATURE),
           rm_sampling = (case task_cfg of Some t \<Rightarrow> tk_sampling t | None \<Rightarrow> no_sampling_config),
           rm_max_tokens = (case or_else (Option.bind task_cfg tk_max_tokens) (dc_fallback_max_tokens (mc_defaults cfg)) of
              Some n \<Rightarrow> n | None \<Rightarrow> FALLBACK_MAX_TOKENS),
           rm_allow_traits = or_else (Option.bind (tier_of cfg task tier) tc_allow_traits) (Option.bind task_cfg tk_allow_traits),
           rm_retry_depth = retry_depth\<rparr>, cfg'))"

section \<open>Tasks that carry a prompt\<close>

text \<open>The fields every resolved prompt task has; \<open>rp_retry_depth\<close> is not a field of the group
  director's.\<close>

record resolved_prompt =
  rp_model :: rstr
  rp_fallback_model :: "rstr list"
  rp_temperature :: f64
  rp_max_tokens :: nat
  rp_prompt :: rstr
  rp_retry_depth :: nat
  rp_sampling :: sampling

text \<open>A selected model under a depth of its own.\<close>

definition with_prompt :: "resolved_model \<Rightarrow> rstr \<Rightarrow> nat \<Rightarrow> resolved_prompt" where
  "with_prompt m prompt retry_depth =
     \<lparr>rp_model = rm_model m, rp_fallback_model = take retry_depth (rm_fallback_model m), rp_temperature = rm_temperature m,
      rp_max_tokens = rm_max_tokens m, rp_prompt = prompt, rp_retry_depth = retry_depth, rp_sampling = rm_sampling m\<rparr>"

text \<open>
  \<open>resolve_vision\<close>, \<open>resolve_pde\<close>, \<open>resolve_group_director\<close> and \<open>resolve_product_qa\<close>, which differ in
  the name of the task: nothing when the task is absent or its prompt is blank, and then no cursor moves.
\<close>

definition resolve_prompt_task :: "(f64 \<Rightarrow> f64) \<Rightarrow> model_config \<Rightarrow> rstr \<Rightarrow> resolved_prompt option \<times> model_config" where
  "resolve_prompt_task draw cfg task = (case mc_tasks cfg task of
     None \<Rightarrow> (None, cfg)
   | Some t \<Rightarrow>
       (let prompt = plain_or_empty (tk_filter_prompt t)
        in if trim prompt = [] then (None, cfg)
           else (let retry_depth = (case tk_retry_depth t of Some n \<Rightarrow> n | None \<Rightarrow> 1);
                     (m, cfg) = resolve_model draw cfg task None
                 in (Some (with_prompt m prompt retry_depth), cfg))))"

definition resolve_vision :: "(f64 \<Rightarrow> f64) \<Rightarrow> model_config \<Rightarrow> resolved_prompt option \<times> model_config" where
  "resolve_vision draw cfg = resolve_prompt_task draw cfg (str ''chat_vision'')"

definition resolve_product_qa :: "(f64 \<Rightarrow> f64) \<Rightarrow> model_config \<Rightarrow> resolved_prompt option \<times> model_config" where
  "resolve_product_qa draw cfg = resolve_prompt_task draw cfg (str ''chat_product_qa'')"

record resolved_judge = resolved_prompt +
  rj_structured_output :: bool
  rj_timeout :: nat

definition DEFAULT_PDE_TIMEOUT_SECS :: nat where "DEFAULT_PDE_TIMEOUT_SECS = 15"

definition resolve_pde :: "(f64 \<Rightarrow> f64) \<Rightarrow> model_config \<Rightarrow> resolved_judge option \<times> model_config" where
  "resolve_pde draw cfg =
     (let (r, cfg') = resolve_prompt_task draw cfg (str ''pde_decision'')
      in (map_option (\<lambda>p. resolved_prompt.extend p (resolved_judge.fields
              (case Option.bind (mc_tasks cfg (str ''pde_decision'')) tk_structured_output of Some b \<Rightarrow> b | None \<Rightarrow> True)
              (case Option.bind (mc_tasks cfg (str ''pde_decision'')) tk_timeout_secs of
                 Some n \<Rightarrow> n | None \<Rightarrow> DEFAULT_PDE_TIMEOUT_SECS))) r, cfg'))"

text \<open>The extraction tasks keep the depth and the chain of \<open>resolve\<close>.\<close>

definition resolve_extract :: "(f64 \<Rightarrow> f64) \<Rightarrow> model_config \<Rightarrow> rstr \<Rightarrow> resolved_prompt option \<times> model_config" where
  "resolve_extract draw cfg task = (case mc_tasks cfg task of
     None \<Rightarrow> (None, cfg)
   | Some t \<Rightarrow>
       (let prompt = plain_or_empty (tk_filter_prompt t)
        in if trim prompt = [] then (None, cfg)
           else (let (m, cfg) = resolve_model draw cfg task None
                 in (Some (with_prompt m prompt (rm_retry_depth m)), cfg))))"

definition resolve_structuring :: "(f64 \<Rightarrow> f64) \<Rightarrow> model_config \<Rightarrow> rstr \<Rightarrow> rstr \<Rightarrow> resolved_model \<times> model_config" where
  "resolve_structuring draw cfg stage2 stage1 =
     resolve_model draw cfg (if mc_tasks cfg stage2 \<noteq> None then stage2 else stage1) None"

definition output_filter_enabled :: "model_config \<Rightarrow> rstr \<Rightarrow> rstr option \<Rightarrow> bool" where
  "output_filter_enabled cfg task tier =
     (case or_else (Option.bind (tier_of cfg task tier) tc_output_filter) (Option.bind (mc_tasks cfg task) tk_output_filter) of
        Some b \<Rightarrow> b | None \<Rightarrow> False)"

definition input_filter_probability :: "model_config \<Rightarrow> f64" where
  "input_filter_probability cfg =
     (case Option.bind (mc_tasks cfg (str ''chat_companion'')) tk_input_filter of Some p \<Rightarrow> p | None \<Rightarrow> 0)"

definition resolve_input_filter :: "(f64 \<Rightarrow> f64) \<Rightarrow> model_config \<Rightarrow> (f64 \<times> resolved_prompt) option \<times> model_config" where
  "resolve_input_filter draw cfg =
     (let probability = input_filter_probability cfg
      in if probability \<le> 0 then (None, cfg)
         else (let (r, cfg) = resolve_prompt_task draw cfg (str ''chat_input_filter'')
               in (map_option (\<lambda>p. (probability, p)) r, cfg)))"

record resolved_output_filter = resolved_prompt +
  ro_trigger :: output_filter_trigger
  ro_timing :: filter_timing

definition always_fires :: output_filter_trigger where
  "always_fires = \<lparr>ot_random = None, ot_models = None, ot_traits = None\<rparr>"

definition resolve_output_filter :: "(f64 \<Rightarrow> f64) \<Rightarrow> model_config \<Rightarrow> rstr option
    \<Rightarrow> resolved_output_filter option \<times> model_config" where
  "resolve_output_filter draw cfg tier =
     (let task = str ''chat_output_filter''; tier_cfg = tier_of cfg task tier
      in if \<not> output_filter_enabled cfg (str ''chat_companion'') tier then (None, cfg)
         else case mc_tasks cfg task of
           None \<Rightarrow> (None, cfg)
         | Some t \<Rightarrow>
             (let prompt = (case or_else (Option.bind (Option.bind tier_cfg tc_filter_prompt) as_plain)
                                 (Option.bind (tk_filter_prompt t) as_plain) of Some s \<Rightarrow> s | None \<Rightarrow> [])
              in if trim prompt = [] then (None, cfg)
                 else (let trigger = (case or_else (Option.bind tier_cfg tc_trigger) (tk_trigger t) of
                              Some x \<Rightarrow> x | None \<Rightarrow> always_fires);
                           timing = (case or_else (Option.bind tier_cfg tc_timing) (tk_timing t) of
                              Some x \<Rightarrow> x | None \<Rightarrow> AfterExtract);
                           retry_depth = chain_depth cfg task tier 1;
                           (m, cfg) = resolve_model draw cfg task tier
                       in (Some (resolved_prompt.extend (with_prompt m prompt retry_depth)
                                   (resolved_output_filter.fields trigger timing)), cfg))))"

text \<open>The boot check of the extraction prompts runs the resolver, cursors included.\<close>

definition validate_extract_prompt :: "(f64 \<Rightarrow> f64) \<Rightarrow> model_config \<Rightarrow> rstr \<Rightarrow> bool \<times> model_config" where
  "validate_extract_prompt draw cfg name =
     (if mc_tasks cfg name = None then (True, cfg)
      else (let (r, cfg) = resolve_extract draw cfg name in (r \<noteq> None, cfg)))"

definition product_qa_enabled :: "model_config \<Rightarrow> bool" where
  "product_qa_enabled cfg =
     (case Option.bind (Option.bind (mc_tasks cfg (str ''chat_product_qa'')) tk_filter_prompt) as_plain of
        Some p \<Rightarrow> trim p \<noteq> [] | None \<Rightarrow> False)"

end
