(* ===== verification/Model_Select_Laws.thy ===== *)
theory Model_Select_Laws
  imports Model_Select
begin

text \<open>
  What model selection guarantees: the model comes from the first level that offers one, its fallbacks
  never repeat it and stay within the retry depth, selection moves nothing but cursors, and a round robin
  takes its models in turn across the calls of a task.
\<close>

section \<open>Single selections\<close>

lemma pick_loop_weighted_mem: "pick_loop_weighted es position acc = Some m \<Longrightarrow> m \<in> fst ` set es"
  by (induction es position acc rule: pick_loop_weighted.induct) (auto simp: Let_def split: if_splits)

lemma pick_weighted_mem: "es \<noteq> [] \<Longrightarrow> pick_weighted es position \<in> fst ` set es"
  by (auto simp: pick_weighted_def split: option.splits dest: pick_loop_weighted_mem)

lemma select_model_mem: "fst (select_model draw spec) = Some m \<Longrightarrow> m \<in> set (candidate_ids spec)"
  using pick_weighted_mem
  by (auto simp: select_model_def candidate_ids_def split: model_spec.splits if_splits)

lemma select_model_None_iff: "fst (select_model draw spec) = None \<longleftrightarrow> candidate_ids spec = []"
  by (auto simp: select_model_def candidate_ids_def split: model_spec.splits)

lemma select_model_stuck: "fst (select_model draw spec) = None \<Longrightarrow> snd (select_model draw spec) = spec"
  by (auto simp: select_model_def split: model_spec.splits)

text \<open>A setting without its cursor.\<close>

definition rewound :: "model_spec \<Rightarrow> model_spec" where
  "rewound spec = (case spec of RoundRobin models _ \<Rightarrow> RoundRobin models 0 | _ \<Rightarrow> spec)"

lemma rewound_select: "rewound (snd (select_model draw spec)) = rewound spec"
  by (auto simp: select_model_def rewound_def split: model_spec.splits)

lemma rewound_candidates: "candidate_ids (rewound spec) = candidate_ids spec"
  by (auto simp: rewound_def candidate_ids_def split: model_spec.splits)

definition rewound_tier :: "tier_config \<Rightarrow> tier_config" where
  "rewound_tier c = c\<lparr>tc_model := map_option rewound (tc_model c)\<rparr>"

definition rewound_task :: "task_config \<Rightarrow> task_config" where
  "rewound_task t = t\<lparr>tk_model := rewound (tk_model t), tk_tiers := (\<lambda>n. map_option rewound_tier (tk_tiers t n))\<rparr>"

definition rewound_config :: "model_config \<Rightarrow> model_config" where
  "rewound_config cfg = cfg\<lparr>mc_tasks := (\<lambda>t. map_option rewound_task (mc_tasks cfg t))\<rparr>"

lemma rewound_set_task:
  assumes "mc_tasks cfg task = Some t" and "rewound spec = rewound (tk_model t)"
  shows "rewound_config (set_task_model task spec cfg) = rewound_config cfg"
proof -
  have "rewound_task (t\<lparr>tk_model := spec\<rparr>) = rewound_task t" using assms(2) by (simp add: rewound_task_def)
  then show ?thesis using assms(1) by (auto simp: rewound_config_def set_task_model_def fun_eq_iff)
qed

lemma rewound_set_tier:
  assumes "mc_tasks cfg task = Some t" and "tk_tiers t name = Some c" and "tc_model c = Some old"
    and "rewound spec = rewound old"
  shows "rewound_config (set_tier_model task name spec cfg) = rewound_config cfg"
proof -
  have "rewound_tier (c\<lparr>tc_model := Some spec\<rparr>) = rewound_tier c" using assms by (simp add: rewound_tier_def)
  then have "rewound_task (t\<lparr>tk_tiers := (\<lambda>n. if n = name then map_option (\<lambda>c. c\<lparr>tc_model := Some spec\<rparr>) (tk_tiers t n)
      else tk_tiers t n)\<rparr>) = rewound_task t"
    using assms(2) by (auto simp: rewound_task_def fun_eq_iff)
  then show ?thesis using assms(1) by (auto simp: rewound_config_def set_tier_model_def fun_eq_iff)
qed

lemma tier_of_SomeD:
  "tier_of cfg task tier = Some c \<Longrightarrow> \<exists>t name. tier = Some name \<and> mc_tasks cfg task = Some t \<and> tk_tiers t name = Some c"
  by (auto simp: tier_of_def split: option.splits)

lemma rewound_select_tier: "rewound_config (snd (select_tier draw cfg task tier)) = rewound_config cfg"
proof (cases "Option.bind (tier_of cfg task tier) tc_model")
  case (Some spec)
  then obtain c where c: "tier_of cfg task tier = Some c" "tc_model c = Some spec"
    by (auto simp: bind_eq_Some_conv)
  from tier_of_SomeD [OF c(1)] obtain t name
    where t: "tier = Some name" "mc_tasks cfg task = Some t" "tk_tiers t name = Some c" by blast
  show ?thesis
    using rewound_set_tier [OF t(2,3) c(2) rewound_select [of draw spec]] Some t(1)
    by (simp add: select_tier_def case_prod_beta Let_def)
qed (simp add: select_tier_def)

lemma rewound_select_task: "rewound_config (snd (select_task draw cfg task)) = rewound_config cfg"
proof (cases "mc_tasks cfg task")
  case (Some t)
  show ?thesis
    using rewound_set_task [OF Some rewound_select [of draw "tk_model t"]] Some
    by (simp add: select_task_def case_prod_beta Let_def)
qed (simp add: select_task_def)

lemma rewound_primary: "rewound_config (snd (select_primary draw cfg task tier)) = rewound_config cfg"
proof -
  obtain m1 cfg1 where s: "select_tier draw cfg task tier = (m1, cfg1)" by fastforce
  obtain m2 cfg2 where t: "select_task draw cfg1 task = (m2, cfg2)" by fastforce
  have "rewound_config cfg1 = rewound_config cfg" using rewound_select_tier [of draw cfg task tier] s by simp
  moreover have "rewound_config cfg2 = rewound_config cfg1" using rewound_select_task [of draw cfg1 task] t by simp
  ultimately show ?thesis using s t by (cases m1; cases m2) (simp_all add: select_primary_def)
qed

text \<open>The candidates a task offers: those of the first level that has any.\<close>

definition offered :: "model_config \<Rightarrow> rstr \<Rightarrow> rstr option \<Rightarrow> rstr list" where
  "offered cfg task tier =
     (let tier_ids = (case Option.bind (tier_of cfg task tier) tc_model of Some spec \<Rightarrow> candidate_ids spec | None \<Rightarrow> []);
          task_ids = (case mc_tasks cfg task of Some t \<Rightarrow> candidate_ids (tk_model t) | None \<Rightarrow> [])
      in if tier_ids \<noteq> [] then tier_ids else if task_ids \<noteq> [] then task_ids
         else [case dc_fallback_model (mc_defaults cfg) of Some m \<Rightarrow> m | None \<Rightarrow> FALLBACK_MODEL])"

lemma set_tier_stuck:
  assumes "tier_of cfg task tier = Some c" and "tc_model c = Some spec"
  shows "set_tier_model task (the tier) spec cfg = cfg"
proof -
  from tier_of_SomeD [OF assms(1)] obtain t name
    where t: "tier = Some name" "mc_tasks cfg task = Some t" "tk_tiers t name = Some c" by blast
  have "c\<lparr>tc_model := Some spec\<rparr> = c" using assms(2) by simp
  then have "t\<lparr>tk_tiers := (\<lambda>n. if n = name then map_option (\<lambda>c. c\<lparr>tc_model := Some spec\<rparr>) (tk_tiers t n)
      else tk_tiers t n)\<rparr> = t"
    using t(3) by (cases t) (auto simp: fun_eq_iff)
  then show ?thesis using t(1,2) by (cases cfg) (auto simp: set_tier_model_def fun_eq_iff)
qed

lemma select_tier_None:
  assumes "fst (select_tier draw cfg task tier) = None"
  shows "snd (select_tier draw cfg task tier) = cfg
    \<and> (case Option.bind (tier_of cfg task tier) tc_model of Some spec \<Rightarrow> candidate_ids spec = [] | None \<Rightarrow> True)"
proof (cases "Option.bind (tier_of cfg task tier) tc_model")
  case (Some spec)
  then obtain c where c: "tier_of cfg task tier = Some c" "tc_model c = Some spec"
    by (auto simp: bind_eq_Some_conv)
  have none: "fst (select_model draw spec) = None"
    using assms Some by (simp add: select_tier_def case_prod_beta Let_def)
  then have "snd (select_model draw spec) = spec" by (rule select_model_stuck)
  then show ?thesis using none Some set_tier_stuck [OF c]
    by (simp add: select_tier_def case_prod_beta Let_def select_model_None_iff)
qed (simp add: select_tier_def)

lemma select_primary_offered: "fst (select_primary draw cfg task tier) \<in> set (offered cfg task tier)"
proof (cases "fst (select_tier draw cfg task tier)")
  case (Some m)
  obtain cfg1 where s: "select_tier draw cfg task tier = (Some m, cfg1)" using Some by (metis prod.collapse)
  from Some obtain spec where spec: "Option.bind (tier_of cfg task tier) tc_model = Some spec"
    "fst (select_model draw spec) = Some m"
    by (auto simp: select_tier_def case_prod_beta Let_def split: option.splits)
  have "m \<in> set (candidate_ids spec)" by (rule select_model_mem [OF spec(2)])
  then have "m \<in> set (offered cfg task tier)"
    using spec(1) by (auto simp: offered_def Let_def)
  then show ?thesis using s by (simp add: select_primary_def)
next
  case None
  have s: "select_tier draw cfg task tier = (None, cfg)"
    using None select_tier_None [OF None] by (metis prod.collapse)
  have tier: "(case Option.bind (tier_of cfg task tier) tc_model of Some spec \<Rightarrow> candidate_ids spec | None \<Rightarrow> []) = []"
    using select_tier_None [OF None] by (auto split: option.splits)
  show ?thesis
  proof (cases "mc_tasks cfg task")
    case None
    then show ?thesis using s tier by (simp add: select_primary_def select_task_def offered_def Let_def)
  next
    case (Some t)
    show ?thesis
    proof (cases "fst (select_model draw (tk_model t))")
      case None
      then have "select_model draw (tk_model t) = (None, tk_model t)" using select_model_stuck by (metis prod.collapse)
      moreover have "candidate_ids (tk_model t) = []" using None by (simp add: select_model_None_iff)
      ultimately show ?thesis using s tier Some
        by (simp add: select_primary_def select_task_def offered_def Let_def set_task_model_def)
    next
      case (Some m)
      have "m \<in> set (candidate_ids (tk_model t))" by (rule select_model_mem [OF Some])
      then show ?thesis using s tier \<open>mc_tasks cfg task = Some t\<close> Some
        by (auto simp: select_primary_def select_task_def offered_def Let_def case_prod_beta)
    qed
  qed
qed

text \<open>The model of a task comes from the first of tier, task and defaults that offers one; its
  fallbacks are the configured ones in order without that model, at most as many as the retry depth; and
  resolving changes nothing of the configuration but cursors.\<close>

theorem resolve_chain_sound:
  "(case resolve_model draw cfg task tier of (r, cfg') \<Rightarrow>
     rm_model r \<in> set (offered cfg task tier)
     \<and> rm_model r \<notin> set (rm_fallback_model r)
     \<and> prefix (rm_fallback_model r) (filter (\<lambda>m. m \<noteq> rm_model r) (configured_fallback cfg task tier))
     \<and> length (rm_fallback_model r) \<le> rm_retry_depth r
     \<and> rm_retry_depth r = chain_depth cfg task tier 2
     \<and> rewound_config cfg' = rewound_config cfg)"
  using select_primary_offered [of draw cfg task tier] rewound_primary [of draw cfg task tier]
  by (auto simp: resolve_model_def Let_def case_prod_beta dest: in_set_takeD intro: take_is_prefix)

section \<open>The round robin\<close>

text \<open>The models of consecutive calls of a task.\<close>

fun resolve_times :: "nat \<Rightarrow> (f64 \<Rightarrow> f64) \<Rightarrow> model_config \<Rightarrow> rstr \<Rightarrow> rstr option \<Rightarrow> rstr list \<times> model_config" where
  "resolve_times 0 draw cfg task tier = ([], cfg)"
| "resolve_times (Suc n) draw cfg task tier =
     (let (r, cfg) = resolve_model draw cfg task tier; (ms, cfg) = resolve_times n draw cfg task tier
      in (rm_model r # ms, cfg))"

text \<open>The task stands at a cursor, and its tier has no model of its own.\<close>

definition stands_at :: "model_config \<Rightarrow> rstr \<Rightarrow> rstr option \<Rightarrow> rstr list \<Rightarrow> nat \<Rightarrow> bool" where
  "stands_at cfg task tier models c \<longleftrightarrow> models \<noteq> [] \<and> Option.bind (tier_of cfg task tier) tc_model = None
     \<and> (\<exists>t. mc_tasks cfg task = Some t \<and> tk_model t = RoundRobin models c)"

lemma tier_of_set_task: "tier_of (set_task_model task spec cfg) task tier = tier_of cfg task tier"
  by (auto simp: tier_of_def set_task_model_def split: option.splits)

lemma resolve_at:
  assumes "stands_at cfg task tier models c"
  shows "rm_model (fst (resolve_model draw cfg task tier)) = models ! (c mod length models)
    \<and> stands_at (snd (resolve_model draw cfg task tier)) task tier models ((c + 1) mod 2 ^ 64)"
proof -
  let ?spec = "RoundRobin models ((c + 1) mod 2 ^ 64)"
  obtain t where t: "models \<noteq> []" "Option.bind (tier_of cfg task tier) tc_model = None"
    "mc_tasks cfg task = Some t" "tk_model t = RoundRobin models c"
    using assms by (auto simp: stands_at_def)
  have "select_primary draw cfg task tier = (models ! (c mod length models), set_task_model task ?spec cfg)"
    using t by (simp add: select_primary_def select_tier_def select_task_def select_model_def)
  then have "rm_model (fst (resolve_model draw cfg task tier)) = models ! (c mod length models)"
    "snd (resolve_model draw cfg task tier) = set_task_model task ?spec cfg"
    by (simp_all add: resolve_model_def Let_def)
  moreover have "stands_at (set_task_model task ?spec cfg) task tier models ((c + 1) mod 2 ^ 64)"
  proof -
    have "mc_tasks (set_task_model task ?spec cfg) task = Some (t\<lparr>tk_model := ?spec\<rparr>)"
      using t by (simp add: set_task_model_def)
    then show ?thesis using t by (simp add: stands_at_def tier_of_set_task)
  qed
  ultimately show ?thesis by simp
qed

lemma resolve_times_at:
  "stands_at cfg task tier models c \<Longrightarrow> c < 2 ^ 64 \<Longrightarrow>
     fst (resolve_times n draw cfg task tier) = map (\<lambda>k. models ! ((c + k) mod 2 ^ 64 mod length models)) [0..<n]"
proof (induction n arbitrary: cfg c)
  case (Suc n)
  obtain r cfg1 where r: "resolve_model draw cfg task tier = (r, cfg1)" by fastforce
  from resolve_at [OF Suc.prems(1), of draw] r
  have m: "rm_model r = models ! (c mod length models)" and s: "stands_at cfg1 task tier models ((c + 1) mod 2 ^ 64)"
    by simp_all
  have "fst (resolve_times n draw cfg1 task tier)
      = map (\<lambda>k. models ! (((c + 1) mod 2 ^ 64 + k) mod 2 ^ 64 mod length models)) [0..<n]"
    by (rule Suc.IH [OF s]) simp
  also have "\<dots> = map (\<lambda>k. models ! ((c + Suc k) mod 2 ^ 64 mod length models)) [0..<n]"
    by (intro map_cong) (simp_all add: mod_add_left_eq del: power_Suc)
  finally have tail: "fst (resolve_times n draw cfg1 task tier)
      = map (\<lambda>k. models ! ((c + Suc k) mod 2 ^ 64 mod length models)) [0..<n]" .
  have "map h [0..<Suc n] = h 0 # map (\<lambda>k. h (Suc k)) [0..<n]" for h :: "nat \<Rightarrow> rstr"
    by (simp add: upt_conv_Cons map_Suc_upt [symmetric] del: upt_Suc)
  then show ?case using m tail r Suc.prems(2) by (simp add: case_prod_beta del: upt_Suc)
qed simp

text \<open>C26: Consecutive calls of a task with a round robin take its models in turn from the cursor, so as
  many calls as it has models take each once, until the cursor wraps at the word size. The boot check of
  an extraction prompt is such a call: the first call after it takes the second model.\<close>

theorem round_robin_in_turn:
  assumes "stands_at cfg task tier models c" and "c < 2 ^ 64"
    and "stands_at xcfg xtask None xmodels d" and "d < 2 ^ 64"
    and "Option.bind (mc_tasks xcfg xtask) tk_filter_prompt = Some (Plain p)" and "trim p \<noteq> []"
  shows "fst (resolve_times n draw cfg task tier) = map (\<lambda>k. models ! ((c + k) mod 2 ^ 64 mod length models)) [0..<n]
    \<and> (c + length models \<le> 2 ^ 64 \<longrightarrow>
         fst (resolve_times (length models) draw cfg task tier) = rotate (c mod length models) models)
    \<and> fst (resolve_times 1 draw (snd (validate_extract_prompt draw xcfg xtask)) xtask None)
        = [xmodels ! ((d + 1) mod 2 ^ 64 mod length xmodels)]"
proof -
  have "fst (resolve_times (length models) draw cfg task tier) = rotate (c mod length models) models"
    if "c + length models \<le> 2 ^ 64"
  proof (rule nth_equalityI)
    fix k assume "k < length (fst (resolve_times (length models) draw cfg task tier))"
    then have k: "k < length models" by (simp add: resolve_times_at [OF assms(1,2)])
    then have "(c + k) mod 2 ^ 64 = c + k" using that by (intro mod_less) linarith
    then show "fst (resolve_times (length models) draw cfg task tier) ! k = rotate (c mod length models) models ! k"
      using k by (simp add: resolve_times_at [OF assms(1,2)] nth_rotate mod_add_left_eq)
  qed (simp add: resolve_times_at [OF assms(1,2)])
  moreover have "snd (validate_extract_prompt draw xcfg xtask) = snd (resolve_model draw xcfg xtask None)"
    using assms(5,6)
    by (auto simp: validate_extract_prompt_def resolve_extract_def plain_or_empty_def as_plain_def case_prod_beta
        Let_def bind_eq_Some_conv)
  then have "stands_at (snd (validate_extract_prompt draw xcfg xtask)) xtask None xmodels ((d + 1) mod 2 ^ 64)"
    using resolve_at [OF assms(3), of draw] by simp
  then have "fst (resolve_times 1 draw (snd (validate_extract_prompt draw xcfg xtask)) xtask None)
      = [xmodels ! ((d + 1) mod 2 ^ 64 mod length xmodels)]"
    by (subst resolve_times_at [of _ _ _ xmodels "(d + 1) mod 2 ^ 64"]) simp_all
  ultimately show ?thesis using resolve_times_at [OF assms(1,2)] by blast
qed

definition two_model_config :: model_config where
  "two_model_config = \<lparr>mc_defaults = \<lparr>dc_fallback_model = None, dc_fallback_temperature = None, dc_fallback_max_tokens = None\<rparr>,
     mc_tasks = [str ''insight_extraction'' \<mapsto>
       \<lparr>tk_model = RoundRobin [str ''a'', str ''b''] 0, tk_temperature = None, tk_sampling = no_sampling_config,
        tk_max_tokens = None, tk_fallback = None, tk_allow_traits = None, tk_output_filter = None, tk_input_filter = None,
        tk_filter_prompt = Some (Plain (str ''p'')), tk_trigger = None, tk_timing = None, tk_retry_depth = None,
        tk_timeout_secs = None, tk_structured_output = None, tk_ghosting = None, tk_tts_audio_tags = None, tk_recall = None,
        tk_interval_hours = None, tk_retention_days = None, tk_round_secs = None, tk_debounce_secs = None,
        tk_thread_cooldown_secs = None, tk_daily_cap = None, tk_reply_window_secs = None,
        tk_active_window_hours = None, tk_context_days = None, tk_model_read = None, tk_model_write = None,
        tk_tiers = (\<lambda>_. None)\<rparr>]\<rparr>"

theorem round_robin_in_turn_witness:
  "fst (resolve_times 2 (\<lambda>x. x) two_model_config (str ''insight_extraction'') None) = [str ''a'', str ''b'']
   \<and> fst (resolve_times 1 (\<lambda>x. x) (snd (validate_extract_prompt (\<lambda>x. x) two_model_config (str ''insight_extraction'')))
            (str ''insight_extraction'') None) = [str ''b'']"
proof -
  have s: "stands_at two_model_config (str ''insight_extraction'') None [str ''a'', str ''b''] 0"
    by (simp add: stands_at_def tier_of_def two_model_config_def)
  have p: "Option.bind (mc_tasks two_model_config (str ''insight_extraction'')) tk_filter_prompt = Some (Plain (str ''p''))"
    by (simp add: two_model_config_def)
  have t: "trim (str ''p'') \<noteq> []" by (simp add: trim_eq_Nil_iff is_ws_def)
  have z: "(0::nat) < 2 ^ 64" by simp
  show ?thesis
    using round_robin_in_turn [OF s z s z p t, of 2 "\<lambda>x. x"] by (simp add: upt_rec)
qed

end
