(* ===== verification/Model_Tasks.thy ===== *)
theory Model_Tasks
  imports Model_Select_Laws
begin

text \<open>
  The remaining resolvers of \<open>crates/eros-engine-llm/src/model_config.rs\<close>: the voice task, the group
  director, the image composers with their prompt variants, the world tasks with the floors of their
  intervals, the embedding targets, and the boot checks of single tasks. The texts of the prompts that
  ship in code are the parameter \<open>builtin_texts\<close>.
\<close>

record builtin_texts =
  bt_voice_directive :: rstr
  bt_voice_base_audio_tags :: rstr
  bt_audio_tags_addendum :: rstr
  bt_compose_prompt :: rstr
  bt_edit_prompt :: rstr

definition unwrap_or :: "'a option \<Rightarrow> 'a \<Rightarrow> 'a" where
  "unwrap_or x d = (case x of Some y \<Rightarrow> y | None \<Rightarrow> d)"

section \<open>Voice and group\<close>

record resolved_voice =
  rv_model :: rstr
  rv_fallback_model :: "rstr list"
  rv_temperature :: f64
  rv_max_tokens :: nat
  rv_directive :: rstr
  rv_recall :: bool
  rv_sampling :: sampling

definition voice_directive :: "builtin_texts \<Rightarrow> rstr option \<Rightarrow> bool \<Rightarrow> rstr" where
  "voice_directive bt custom audio_tags = (case (custom, audio_tags) of
     (Some c, True) \<Rightarrow> c @ [10, 10] @ bt_audio_tags_addendum bt
   | (Some c, False) \<Rightarrow> c
   | (None, True) \<Rightarrow> bt_voice_base_audio_tags bt @ [10, 10] @ bt_audio_tags_addendum bt
   | (None, False) \<Rightarrow> bt_voice_directive bt)"

definition VOICE_TASK :: rstr where "VOICE_TASK = str ''chat_voice''"

definition resolve_voice :: "(f64 \<Rightarrow> f64) \<Rightarrow> builtin_texts \<Rightarrow> model_config \<Rightarrow> resolved_voice option \<times> model_config" where
  "resolve_voice draw bt cfg = (case mc_tasks cfg VOICE_TASK of
     None \<Rightarrow> (None, cfg)
   | Some t \<Rightarrow>
       (let audio_tags = unwrap_or (tk_tts_audio_tags t) False;
            recall = unwrap_or (tk_recall t) True;
            custom = (case Option.bind (tk_filter_prompt t) as_plain of
                        Some s \<Rightarrow> if trim s \<noteq> [] then Some s else None | None \<Rightarrow> None);
            (m, cfg) = resolve_model draw cfg VOICE_TASK None
        in (Some \<lparr>rv_model = rm_model m, rv_fallback_model = rm_fallback_model m,
                  rv_temperature = rm_temperature m, rv_max_tokens = rm_max_tokens m,
                  rv_directive = voice_directive bt custom audio_tags, rv_recall = recall,
                  rv_sampling = rm_sampling m\<rparr>, cfg)))"

definition validate_voice_model :: "model_config \<Rightarrow> bool" where
  "validate_voice_model cfg = (case mc_tasks cfg VOICE_TASK of
     None \<Rightarrow> True
   | Some t \<Rightarrow> (case tk_model t of Fixed s \<Rightarrow> trim s \<noteq> [] | _ \<Rightarrow> False))"

definition resolve_group_director :: "(f64 \<Rightarrow> f64) \<Rightarrow> model_config \<Rightarrow> (resolved_prompt \<times> bool) option \<times> model_config" where
  "resolve_group_director draw cfg =
     (let (r, cfg') = resolve_prompt_task draw cfg (str ''group_director'')
      in (map_option (\<lambda>p. (p, unwrap_or (Option.bind (mc_tasks cfg (str ''group_director'')) tk_structured_output) True)) r, cfg'))"

definition validate_group_director_prompt :: "model_config \<Rightarrow> bool" where
  "validate_group_director_prompt cfg = (case mc_tasks cfg (str ''group_director'') of
     Some t \<Rightarrow> trim (plain_or_empty (tk_filter_prompt t)) \<noteq> [] | None \<Rightarrow> True)"

definition validate_pde_timeout :: "model_config \<Rightarrow> bool" where
  "validate_pde_timeout cfg = (case Option.bind (mc_tasks cfg (str ''pde_decision'')) tk_timeout_secs of
     Some n \<Rightarrow> n \<noteq> 0 \<and> \<not> 3600 < n | None \<Rightarrow> True)"

definition pde_ghosting_enabled :: "model_config \<Rightarrow> bool" where
  "pde_ghosting_enabled cfg = unwrap_or (Option.bind (mc_tasks cfg (str ''pde_decision'')) tk_ghosting) True"

section \<open>The image composers\<close>

record resolved_compose = resolved_prompt +
  rc_variant_key :: "rstr option"

definition nonblank_variant :: "rstr option \<Rightarrow> rstr option" where
  "nonblank_variant variant = (case map_option trim variant of
     Some v \<Rightarrow> if v \<noteq> [] then Some v else None | None \<Rightarrow> None)"

definition variant_key_of :: "prompt_spec option \<Rightarrow> rstr option \<Rightarrow> rstr option \<Rightarrow> rstr option" where
  "variant_key_of spec selected variant = (case spec of
     None \<Rightarrow> None | Some (Plain _) \<Rightarrow> None | Some _ \<Rightarrow> (if selected \<noteq> None then variant else None))"

definition compose_prompt_of :: "rstr option \<Rightarrow> rstr \<Rightarrow> rstr" where
  "compose_prompt_of selected dflt = (case map_option trim selected of
     Some s \<Rightarrow> if s \<noteq> [] then s else dflt | None \<Rightarrow> dflt)"

definition composed :: "(f64 \<Rightarrow> f64) \<Rightarrow> model_config \<Rightarrow> rstr \<Rightarrow> task_config \<Rightarrow> rstr \<Rightarrow> rstr option
    \<Rightarrow> resolved_compose option \<times> model_config" where
  "composed draw cfg task t prompt key =
     (let retry_depth = unwrap_or (tk_retry_depth t) 1;
          (m, cfg) = resolve_model draw cfg task None
      in (Some (resolved_prompt.extend (with_prompt m prompt retry_depth) (resolved_compose.fields key)), cfg))"

definition COMPOSE_TASK :: rstr where "COMPOSE_TASK = str ''chat_image_prompt_compose''"
definition EDIT_TASK :: rstr where "EDIT_TASK = str ''chat_image_edit_compose''"

definition resolve_image_prompt_compose :: "(f64 \<Rightarrow> f64) \<Rightarrow> builtin_texts \<Rightarrow> model_config \<Rightarrow> rstr option
    \<Rightarrow> resolved_compose option \<times> model_config" where
  "resolve_image_prompt_compose draw bt cfg variant =
     (let variant = nonblank_variant variant
      in case mc_tasks cfg COMPOSE_TASK of
           None \<Rightarrow> (None, cfg)
         | Some t \<Rightarrow>
             (let selected = Option.bind (tk_filter_prompt t) (\<lambda>s. prompt_select s variant)
              in composed draw cfg COMPOSE_TASK t (compose_prompt_of selected (bt_compose_prompt bt))
                   (variant_key_of (tk_filter_prompt t) selected variant)))"

definition resolve_image_edit_compose :: "(f64 \<Rightarrow> f64) \<Rightarrow> builtin_texts \<Rightarrow> model_config \<Rightarrow> rstr option
    \<Rightarrow> resolved_compose option \<times> model_config" where
  "resolve_image_edit_compose draw bt cfg variant =
     (let variant = nonblank_variant variant
      in case mc_tasks cfg EDIT_TASK of
           Some t \<Rightarrow>
             (let selected = Option.bind (tk_filter_prompt t) (\<lambda>s. prompt_select s variant)
              in composed draw cfg EDIT_TASK t (compose_prompt_of selected (bt_edit_prompt bt))
                   (variant_key_of (tk_filter_prompt t) selected variant))
         | None \<Rightarrow> (case mc_tasks cfg COMPOSE_TASK of
             None \<Rightarrow> (None, cfg)
           | Some t \<Rightarrow> composed draw cfg COMPOSE_TASK t (compose_prompt_of None (bt_edit_prompt bt)) None))"

section \<open>The world tasks\<close>

record resolved_world_reply = resolved_prompt +
  wy_debounce_secs :: nat
  wy_thread_cooldown_secs :: nat
  wy_daily_cap :: nat
  wy_reply_window_secs :: nat

record resolved_stories = resolved_prompt +
  ws_structured_output :: bool
  ws_interval_hours :: nat
  ws_retention_days :: nat
  ws_active_window_hours :: nat
  ws_context_days :: nat

definition MIN_BAND_SECS :: nat where "MIN_BAND_SECS = 30"

definition world_task_of :: "model_config \<Rightarrow> rstr \<Rightarrow> (task_config \<Rightarrow> 'a) \<Rightarrow> 'a option" where
  "world_task_of cfg task f = map_option f (mc_tasks cfg task)"

definition resolve_world_director :: "(f64 \<Rightarrow> f64) \<Rightarrow> model_config \<Rightarrow> (resolved_prompt \<times> bool \<times> nat \<times> nat) option \<times> model_config" where
  "resolve_world_director draw cfg =
     (let (r, cfg') = resolve_extract draw cfg (str ''world_director'')
      in (Option.bind r (\<lambda>p. world_task_of cfg (str ''world_director'') (\<lambda>t.
            (p, unwrap_or (tk_structured_output t) True, max (unwrap_or (tk_interval_hours t) 24) 1,
             unwrap_or (tk_retention_days t) 30))), cfg'))"

definition resolve_world_comment :: "(f64 \<Rightarrow> f64) \<Rightarrow> model_config \<Rightarrow> (resolved_prompt \<times> bool \<times> nat) option \<times> model_config" where
  "resolve_world_comment draw cfg =
     (let (r, cfg') = resolve_extract draw cfg (str ''world_comment'')
      in (Option.bind r (\<lambda>p. world_task_of cfg (str ''world_comment'') (\<lambda>t.
            (p, unwrap_or (tk_structured_output t) True, max (unwrap_or (tk_round_secs t) 3600) 60))), cfg'))"

definition resolve_world_reply :: "(f64 \<Rightarrow> f64) \<Rightarrow> model_config \<Rightarrow> resolved_world_reply option \<times> model_config" where
  "resolve_world_reply draw cfg =
     (let (r, cfg') = resolve_extract draw cfg (str ''world_reply'')
      in (Option.bind r (\<lambda>p. world_task_of cfg (str ''world_reply'') (\<lambda>t.
            let debounce_secs = unwrap_or (tk_debounce_secs t) 90
            in resolved_prompt.extend p (resolved_world_reply.fields debounce_secs
                 (unwrap_or (tk_thread_cooldown_secs t) 600) (unwrap_or (tk_daily_cap t) 20)
                 (max (unwrap_or (tk_reply_window_secs t) 604800) (debounce_secs + MIN_BAND_SECS))))), cfg'))"

definition resolve_world_stories_director :: "(f64 \<Rightarrow> f64) \<Rightarrow> model_config \<Rightarrow> resolved_stories option \<times> model_config" where
  "resolve_world_stories_director draw cfg =
     (let (r, cfg') = resolve_extract draw cfg (str ''world_stories_director'')
      in (Option.bind r (\<lambda>p. world_task_of cfg (str ''world_stories_director'') (\<lambda>t.
            resolved_prompt.extend p (resolved_stories.fields
              (unwrap_or (tk_structured_output t) True) (max (unwrap_or (tk_interval_hours t) 8) 1)
              (unwrap_or (tk_retention_days t) 30) (max (unwrap_or (tk_active_window_hours t) 72) 1)
              (max (unwrap_or (tk_context_days t) 7) 1)))), cfg'))"

section \<open>Embedding targets\<close>

datatype embed_route = Voyage | OpenRouter | Custom rstr

record embed_target =
  et_model :: rstr
  et_route :: embed_route

definition DEFAULT_EMBED_MODEL :: rstr where "DEFAULT_EMBED_MODEL = str ''voyage-4-lite''"

definition embed_target_of :: "rstr \<Rightarrow> embed_target" where
  "embed_target_of slug = (case split_model_slug slug of
     Inr (bare, p) \<Rightarrow> \<lparr>et_model = bare, et_route =
       (if p = None \<or> p = Some (str ''voyage'') then Voyage
        else if p = Some (str ''openrouter'') then OpenRouter else Custom (the p))\<rparr>
   | Inl _ \<Rightarrow> \<lparr>et_model = slug, et_route = Voyage\<rparr>)"

definition resolve_embedding :: "model_config \<Rightarrow> embed_target \<times> embed_target" where
  "resolve_embedding cfg =
     (let dflt = \<lparr>et_model = DEFAULT_EMBED_MODEL, et_route = Voyage\<rparr>
      in case mc_tasks cfg (str ''embedding'') of
           None \<Rightarrow> (dflt, dflt)
         | Some t \<Rightarrow> (case (tk_model_read t, tk_model_write t) of
             (Some r, Some w) \<Rightarrow> (embed_target_of r, embed_target_of w)
           | _ \<Rightarrow> (case tk_model t of
               Fixed m \<Rightarrow> if m \<noteq> [] then (embed_target_of m, embed_target_of m) else (dflt, dflt)
             | _ \<Rightarrow> (dflt, dflt))))"

section \<open>What the resolvers guarantee\<close>

text \<open>A boot-checked voice task calls its one configured model and moves no cursor.\<close>

lemma checked_voice_model:
  assumes "validate_voice_model cfg" and "mc_tasks cfg VOICE_TASK = Some t"
  shows "\<exists>s r. tk_model t = Fixed s \<and> s \<noteq> [] \<and> resolve_voice draw bt cfg = (Some r, cfg) \<and> rv_model r = s"
proof -
  obtain s where s: "tk_model t = Fixed s" "trim s \<noteq> []"
    using assms by (auto simp: validate_voice_model_def split: model_spec.splits)
  then have "s \<noteq> []" by auto
  have "t\<lparr>tk_model := Fixed s\<rparr> = t" using s(1) by simp
  then have "set_task_model VOICE_TASK (Fixed s) cfg = cfg"
    using assms(2) by (cases cfg) (auto simp: set_task_model_def fun_eq_iff)
  then have "select_primary draw cfg VOICE_TASK None = (s, cfg)"
    using assms(2) s(1) \<open>s \<noteq> []\<close>
    by (simp add: select_primary_def select_tier_def tier_of_def select_task_def select_model_def)
  then show ?thesis using assms(2) s(1) \<open>s \<noteq> []\<close>
    by (simp add: resolve_voice_def resolve_model_def Let_def)
qed

lemma extract_prompt_nonblank:
  "fst (resolve_extract draw cfg task) = Some p \<Longrightarrow> trim (rp_prompt p) \<noteq> [] \<and> mc_tasks cfg task \<noteq> None"
  by (auto simp: resolve_extract_def with_prompt_def Let_def case_prod_beta split: option.splits if_splits)

lemma prompt_task_nonblank:
  "fst (resolve_prompt_task draw cfg task) = Some p \<Longrightarrow> trim (rp_prompt p) \<noteq> []
     \<and> length (rp_fallback_model p) \<le> rp_retry_depth p"
  by (auto simp: resolve_prompt_task_def with_prompt_def Let_def case_prod_beta split: option.splits if_splits)

text \<open>A boot-checked voice task calls its one configured model and moves no cursor. A prompt task that
  resolves has a usable prompt and a chain within its own depth. The world tasks never wait less than
  their floors, and a reply stays eligible at least one sweeper tick beyond the time it is held back.\<close>

theorem task_resolvers_sound:
  assumes "validate_voice_model cfg" and "mc_tasks cfg VOICE_TASK = Some t"
    and "fst (resolve_world_reply draw cfg) = Some w"
    and "fst (resolve_world_stories_director draw cfg) = Some s"
    and "fst (resolve_prompt_task draw cfg task) = Some p"
  shows "(\<exists>m r. tk_model t = Fixed m \<and> m \<noteq> [] \<and> resolve_voice draw bt cfg = (Some r, cfg) \<and> rv_model r = m)
    \<and> wy_debounce_secs w + MIN_BAND_SECS \<le> wy_reply_window_secs w \<and> trim (rp_prompt w) \<noteq> []
    \<and> 1 \<le> ws_interval_hours s \<and> 1 \<le> ws_active_window_hours s \<and> 1 \<le> ws_context_days s
    \<and> trim (rp_prompt p) \<noteq> [] \<and> length (rp_fallback_model p) \<le> rp_retry_depth p"
proof -
  obtain p1 where p1: "fst (resolve_extract draw cfg (str ''world_reply'')) = Some p1"
    "wy_debounce_secs w + MIN_BAND_SECS \<le> wy_reply_window_secs w" "rp_prompt w = rp_prompt p1"
    using assms(3)
    by (auto simp: resolve_world_reply_def world_task_of_def case_prod_beta Let_def bind_eq_Some_conv
        resolved_prompt.defs resolved_world_reply.defs simp del: str_simps)
  have "1 \<le> ws_interval_hours s \<and> 1 \<le> ws_active_window_hours s \<and> 1 \<le> ws_context_days s"
    using assms(4)
    by (auto simp: resolve_world_stories_director_def world_task_of_def case_prod_beta Let_def bind_eq_Some_conv
        resolved_prompt.defs resolved_stories.defs simp del: str_simps)
  then show ?thesis
    using checked_voice_model [OF assms(1,2), of draw bt] p1 extract_prompt_nonblank [OF p1(1)]
      prompt_task_nonblank [OF assms(5)] by simp
qed

text \<open>The round robin of \<open>two_model_config\<close> with its model fixed, for every task.\<close>

definition every_task_config :: model_config where
  "every_task_config = two_model_config\<lparr>mc_tasks := (\<lambda>_. map_option (\<lambda>t. t\<lparr>tk_model := Fixed (str ''m''),
     tk_reply_window_secs := Some 10\<rparr>) (mc_tasks two_model_config (str ''insight_extraction'')))\<rparr>"

theorem task_resolvers_sound_witness:
  "\<exists>w s p. fst (resolve_world_reply (\<lambda>x. x) every_task_config) = Some w \<and> wy_reply_window_secs w = 120
     \<and> wy_debounce_secs w + MIN_BAND_SECS \<le> wy_reply_window_secs w
     \<and> fst (resolve_world_stories_director (\<lambda>x. x) every_task_config) = Some s \<and> 1 \<le> ws_interval_hours s
     \<and> fst (resolve_prompt_task (\<lambda>x. x) every_task_config (str ''chat_vision'')) = Some p \<and> trim (rp_prompt p) \<noteq> []"
proof -
  obtain t where t: "mc_tasks every_task_config = (\<lambda>_. Some t)" "tk_model t = Fixed (str ''m'')"
    "tk_filter_prompt t = Some (Plain (str ''p''))" "tk_reply_window_secs t = Some 10" "tk_debounce_secs t = None"
    by (simp add: every_task_config_def two_model_config_def)
  have trims: "trim (str ''p'') \<noteq> []" "trim (str ''m'') \<noteq> []" by (simp_all add: trim_eq_Nil_iff is_ws_def)
  have v: "validate_voice_model every_task_config" using t trims by (simp add: validate_voice_model_def)
  have vt: "mc_tasks every_task_config VOICE_TASK = Some t" using t(1) by simp
  have ex: "\<exists>q. fst (resolve_extract (\<lambda>x. x) every_task_config k) = Some q" for k
    using t trims by (simp add: resolve_extract_def plain_or_empty_def as_plain_def case_prod_beta Let_def)
  obtain q where q: "fst (resolve_extract (\<lambda>x. x) every_task_config (str ''world_reply'')) = Some q" using ex by blast
  obtain q' where q': "fst (resolve_extract (\<lambda>x. x) every_task_config (str ''world_stories_director'')) = Some q'"
    using ex by blast
  obtain w where w: "fst (resolve_world_reply (\<lambda>x. x) every_task_config) = Some w" "wy_reply_window_secs w = 120"
    using q t by (simp add: resolve_world_reply_def world_task_of_def case_prod_beta Let_def unwrap_or_def
        MIN_BAND_SECS_def resolved_prompt.defs resolved_world_reply.defs del: str_simps)
  obtain s where s: "fst (resolve_world_stories_director (\<lambda>x. x) every_task_config) = Some s"
    using q' t by (simp add: resolve_world_stories_director_def world_task_of_def case_prod_beta Let_def del: str_simps)
  obtain p where p: "fst (resolve_prompt_task (\<lambda>x. x) every_task_config (str ''chat_vision'')) = Some p"
    using t trims by (simp add: resolve_prompt_task_def plain_or_empty_def as_plain_def case_prod_beta Let_def)
  from task_resolvers_sound [OF v vt w(1) s p] w s p show ?thesis by blast
qed

end
