(* ===== verification/Stream_Frames.thy ===== *)
theory Stream_Frames
  imports Model_Select Stream_Scrub Effects Needs
begin

text \<open>
  The frames a chat turn streams to the client and what surrounds them
  (\<open>crates/eros-engine-server/src/pipeline/stream.rs\<close>): the frame types, the split of the recorded
  failures into their two columns, the error code a failure maps to, the frames of an image turn, and
  the metadata of an assistant row. A frame holds a message id itself, not its text. A column that the code
  fills with a serialized list of failures holds that list.
\<close>

section \<open>Frames\<close>

type_synonym ulid = nat

datatype stream_error_code = UpstreamUnavailable | RateLimited | Internal | CodeTimeout | GenerationTimeout

datatype frame_action_type = FReply | FGhost | FReplyImage | FReplyTextImage | FProductQa

record image_companion =
  ic_member_session_id :: uuid
  ic_instance_id :: uuid

record cast_entry =
  ce_member_session_id :: uuid
  ce_action_type :: frame_action_type

datatype protocol_frame =
    Meta ulid frame_action_type "rstr option" "ulid option" "uuid option"
  | Delta ulid rstr
  | Done ulid bool "json option" "rstr option" bool
  | Final bool "rstr list option" "rstr option" nat nat "upstream_attempt list" "gateway_error list"
  | ErrorFrame stream_error_code bool rstr rstr "nat option" "rstr option"
  | ImageRequest ulid rstr image_ref "rstr option" "image_companion option"
  | ActionResponseFrame uuid action_response
  | BodyState uuid "active_effect list" "needs option"
  | Cast "cast_entry list"
  | Reasoning rstr
  | SpeakerError uuid stream_error_code rstr

definition frame_action_for :: "action_type \<Rightarrow> frame_action_type" where
  "frame_action_for a = (case a of
     ReplyImage \<Rightarrow> FReplyImage | ReplyTextImage \<Rightarrow> FReplyTextImage | GhostTurn \<Rightarrow> FGhost
   | ProductQa \<Rightarrow> FProductQa | _ \<Rightarrow> FReply)"

text \<open>\<open>base64\<close> is the encoder of the \<open>base64\<close> crate, over the text.\<close>

definition build_image_request_frame_with :: "(rstr \<Rightarrow> rstr) \<Rightarrow> ulid \<Rightarrow> rstr \<Rightarrow> image_ref \<Rightarrow> rstr option
    \<Rightarrow> image_companion option \<Rightarrow> protocol_frame" where
  "build_image_request_frame_with base64 message_id composed_prompt image_ref aspect_ratio companion =
     ImageRequest message_id (base64 composed_prompt) image_ref aspect_ratio companion"

definition delegated_image_only_frames_with :: "(rstr \<Rightarrow> rstr) \<Rightarrow> ulid \<Rightarrow> rstr \<Rightarrow> image_ref \<Rightarrow> rstr option
    \<Rightarrow> image_companion option \<Rightarrow> protocol_frame list" where
  "delegated_image_only_frames_with base64 message_id composed_prompt image_ref aspect_ratio companion =
     [Meta message_id FReplyImage None None None,
      Done message_id False None None False,
      build_image_request_frame_with base64 message_id composed_prompt image_ref aspect_ratio companion]"

definition body_state_frame :: "uuid \<Rightarrow> active_effect list \<Rightarrow> needs option \<Rightarrow> protocol_frame option" where
  "body_state_frame user_message_id effects needs =
     (if effects \<noteq> [] \<or> needs \<noteq> None then Some (BodyState user_message_id effects needs) else None)"

section \<open>Failures\<close>

definition failure_pointer :: "attempt_failure \<Rightarrow> rstr" where
  "failure_pointer f = (case f of Upstream _ \<Rightarrow> str ''upstream_error'' | Gateway _ \<Rightarrow> str ''gateway_error'')"

definition operation_hit_upstream :: "attempt_failure list \<Rightarrow> bool" where
  "operation_hit_upstream failures = list_ex (\<lambda>f. case f of Upstream _ \<Rightarrow> True | Gateway _ \<Rightarrow> False) failures"

definition operation_failure_pointer :: "attempt_failure list \<Rightarrow> rstr" where
  "operation_failure_pointer failures =
     (if operation_hit_upstream failures then str ''upstream_error'' else str ''gateway_error'')"

fun split_failures_typed :: "attempt_failure list \<Rightarrow> upstream_attempt list \<times> gateway_error list" where
  "split_failures_typed [] = ([], [])"
| "split_failures_typed (Upstream a # fs) = (let (ups, gws) = split_failures_typed fs in (a # ups, gws))"
| "split_failures_typed (Gateway g # fs) = (let (ups, gws) = split_failures_typed fs in (ups, g # gws))"

definition nonempty :: "'a list \<Rightarrow> 'a list option" where
  "nonempty xs = (if xs = [] then None else Some xs)"

definition split_failures :: "attempt_failure list \<Rightarrow> upstream_attempt list option \<times> gateway_error list option" where
  "split_failures failures = (let (ups, gws) = split_failures_typed failures in (nonempty ups, nonempty gws))"

definition stream_error_code_for :: "attempt_failure \<Rightarrow> stream_error_code" where
  "stream_error_code_for f = (case f of
     Upstream a \<Rightarrow> if ua_http_status a = 429 then RateLimited else UpstreamUnavailable
   | Gateway g \<Rightarrow> (case ge_kind g of
        OpenTimeout \<Rightarrow> CodeTimeout | TotalTimeout \<Rightarrow> CodeTimeout | IdleTimeout \<Rightarrow> CodeTimeout
      | ConfigKind \<Rightarrow> Internal | _ \<Rightarrow> UpstreamUnavailable))"

definition upstream_status_and_code_for :: "attempt_failure \<Rightarrow> nat option \<times> rstr option" where
  "upstream_status_and_code_for f = (case f of
     Upstream a \<Rightarrow> (Some (ua_http_status a), ua_provider_code a) | Gateway _ \<Rightarrow> (None, None))"

definition error_frame_fields_from_last :: "attempt_failure list
    \<Rightarrow> stream_error_code \<times> bool \<times> nat option \<times> rstr option" where
  "error_frame_fields_from_last failures =
     (if failures = [] then (UpstreamUnavailable, True, None, None)
      else (let f = last failures; (upstream_status, provider_code) = upstream_status_and_code_for f
            in (stream_error_code_for f, is_retryable_status (response_status_for f), upstream_status, provider_code)))"

section \<open>What an assistant row carries\<close>

record filter_audit =
  fa_pre_filter_content :: rstr
  fa_filter_model :: rstr
  fa_filter_triggers :: json
  fa_f_client_msg_id :: rstr
  fa_f_generation_id :: "rstr option"

record assistant_insert =
  ai_id :: ulid
  ai_content :: rstr
  ai_action_type :: rstr
  ai_continues_from :: "ulid option"
  ai_truncated :: bool
  ai_generation_id :: "rstr option"
  ai_filter_audit :: "filter_audit option"
  ai_metadata :: "json option"
  ai_llm_attempts :: "upstream_attempt list option"
  ai_gateway_errors :: "gateway_error list option"
  ai_speaker :: "uuid option"

definition memory_scope_json :: "memory_scope \<Rightarrow> json" where
  "memory_scope_json s = JStr (case s of
     MemFull \<Rightarrow> str ''full'' | NeutralAndRelationship \<Rightarrow> str ''neutral_and_relationship''
   | RelationshipOnly \<Rightarrow> str ''relationship_only'' | NeutralOnly \<Rightarrow> str ''neutral_only''
   | InsightsOnly \<Rightarrow> str ''insights_only'' | MemNone \<Rightarrow> str ''none'')"

definition affinity_scope_json :: "affinity_scope \<Rightarrow> json" where
  "affinity_scope_json s = JObj
     [(str ''warmth'', JBool (s_warmth s)), (str ''trust'', JBool (s_trust s)),
      (str ''intrigue'', JBool (s_intrigue s)), (str ''intimacy'', JBool (s_intimacy s)),
      (str ''patience'', JBool (s_patience s)), (str ''tension'', JBool (s_tension s))]"

text \<open>\<open>Map::insert\<close>: replaces the value of a key that is there.\<close>

definition json_insert :: "rstr \<Rightarrow> json \<Rightarrow> (rstr \<times> json) list \<Rightarrow> (rstr \<times> json) list" where
  "json_insert = AList.update"

definition ghost_fallback_metadata :: "json option \<Rightarrow> rstr \<Rightarrow> json option" where
  "ghost_fallback_metadata base reason =
     (let obj = (case base of Some (JObj m) \<Rightarrow> m | _ \<Rightarrow> [])
      in Some (JObj (json_insert (str ''fallback_reason'') (JStr reason) obj)))"

definition extract_text :: "filter_timing \<Rightarrow> rstr \<Rightarrow> rstr \<Rightarrow> rstr" where
  "extract_text timing original visible = (case timing of AfterExtract \<Rightarrow> original | BeforeExtract \<Rightarrow> visible)"

text \<open>\<open>OPENROUTER_USAGE_HIDDEN_KEYS\<close>: keys taken out of the usage a client sees.\<close>

definition filter_usage_keys :: "rstr list \<Rightarrow> json option \<Rightarrow> json option" where
  "filter_usage_keys hidden usage = (case usage of
     Some (JObj m) \<Rightarrow> Some (JObj (filter (\<lambda>(k, v). k \<notin> set hidden) m)) | _ \<Rightarrow> usage)"

definition image_ref_json :: "image_ref \<Rightarrow> json" where
  "image_ref_json r = JStr (case r of Face \<Rightarrow> str ''face'' | Previous \<Rightarrow> str ''previous'')"

text \<open>\<open>metadata.image\<close>; \<open>show_id\<close> prints an id.\<close>

definition opt_key :: "rstr \<Rightarrow> json option \<Rightarrow> (rstr \<times> json) list \<Rightarrow> (rstr \<times> json) list" where
  "opt_key key v m = (case v of None \<Rightarrow> m | Some x \<Rightarrow> json_insert key x m)"

definition nonblank_str :: "(rstr \<Rightarrow> bool) \<Rightarrow> rstr option \<Rightarrow> json option" where
  "nonblank_str keep v = (case v of Some s \<Rightarrow> if keep s then Some (JStr s) else None | None \<Rightarrow> None)"

definition build_delegated_image_marker_with :: "(uuid \<Rightarrow> rstr) \<Rightarrow> rstr \<Rightarrow> rstr option \<Rightarrow> rstr option \<Rightarrow> rstr option
    \<Rightarrow> rstr option \<Rightarrow> rstr option \<Rightarrow> uuid option \<Rightarrow> image_ref \<Rightarrow> uuid option \<Rightarrow> image_companion option \<Rightarrow> json" where
  "build_delegated_image_marker_with show_id subject caption aspect_ratio variant model generation_id
       event_id image_ref edit_of companion =
     (let m = [(str ''prompt'', JStr subject)];
          m = opt_key (str ''companion'') (map_option (\<lambda>c. JObj
                [(str ''member_session_id'', JStr (show_id (ic_member_session_id c))),
                 (str ''instance_id'', JStr (show_id (ic_instance_id c)))]) companion) m;
          m = json_insert (str ''image_ref'') (image_ref_json image_ref) m;
          m = opt_key (str ''caption'') (nonblank_str (\<lambda>s. trim s \<noteq> []) caption) m;
          m = opt_key (str ''aspect_ratio'') (nonblank_str (\<lambda>s. s \<noteq> []) aspect_ratio) m;
          m = opt_key (str ''compose_variant'') (nonblank_str (\<lambda>s. s \<noteq> []) variant) m;
          m = opt_key (str ''compose_model'') (nonblank_str (\<lambda>s. s \<noteq> []) model) m;
          m = opt_key (str ''compose_generation_id'') (nonblank_str (\<lambda>s. s \<noteq> []) generation_id) m;
          m = opt_key (str ''compose_event_id'') (map_option (\<lambda>i. JStr (show_id i)) event_id) m
      in JObj (opt_key (str ''edit_of'') (map_option (\<lambda>i. JStr (show_id i)) edit_of) m))"

section \<open>Facts\<close>

lemma split_failures_typed_filters:
  "split_failures_typed fs
     = (List.map_filter (\<lambda>f. case f of Upstream a \<Rightarrow> Some a | Gateway _ \<Rightarrow> None) fs,
        List.map_filter (\<lambda>f. case f of Gateway g \<Rightarrow> Some g | Upstream _ \<Rightarrow> None) fs)"
  by (induction fs rule: split_failures_typed.induct) (simp_all add: List.map_filter_def)

lemma split_failures_Nil [simp]: "split_failures [] = (None, None)"
  by (simp add: split_failures_def nonempty_def)

end
