(* ===== verification/Filter_Stream.thy ===== *)
theory Filter_Stream
  imports Stream_Frames
begin

text \<open>
  The output filter (\<open>crates/eros-engine-server/src/pipeline/stream.rs\<close>): the validity gate for a
  rewritten reply, and \<open>run_output_filter\<close>, which streams a rewrite out while it checks it and walks on
  to the next model when one fails. What a model's stream yields is a parameter, by the position of the
  model and the request; \<open>char::to_lowercase\<close> and \<open>str::to_lowercase\<close>, tables of the standard library,
  are the two functions of \<open>casing\<close>.
\<close>

section \<open>What a streaming call yields\<close>

record delta_chunk =
  dk_content :: "rstr option"
  dk_reasoning :: "rstr option"
  dk_finish_reason :: "rstr option"
  dk_usage :: "json option"
  dk_generation_id :: "rstr option"
  dk_model :: "rstr option"

text \<open>
  The stream did not open, in time or at all; or it yielded these items, and then ended, or ran into
  the deadline (\<open>True\<close>). An error item is the last one read. \<open>ar_recorded\<close> is whether the row of the
  generation could be written.
\<close>

datatype stream_run = OpenFailed llm_error | OpenTimedOut | Opened "(llm_error + delta_chunk) list" bool

record attempt_run =
  ar_stream :: stream_run
  ar_recorded :: bool

type_synonym stream_fn = "nat \<Rightarrow> rstr \<Rightarrow> chat_request \<Rightarrow> attempt_run"

text \<open>\<open>record_generation\<close>: the id to store, when there is one and its row was written.\<close>

record generation_record =
  gr_task :: rstr
  gr_session_id :: "uuid option"
  gr_generation_id :: "rstr option"
  gr_model :: "rstr option"
  gr_usage :: "json option"

definition record_generation :: "bool \<Rightarrow> generation_record \<Rightarrow> rstr option" where
  "record_generation recorded g = (case gr_generation_id g of
     None \<Rightarrow> None | Some gid \<Rightarrow> if recorded then Some gid else None)"

section \<open>The validity gate\<close>

record casing =
  char_lower :: "rchar \<Rightarrow> rstr"
  str_lower :: "rstr \<Rightarrow> rstr"

text \<open>The Chinese phrases and verbs are given by their code points.\<close>

definition REFUSAL_PATTERNS_HEAD :: "rstr list" where
  "REFUSAL_PATTERNS_HEAD =
     [[25265, 27465, 65292, 25105, 26080, 27861],
      [25265, 27465, 65292, 25105, 19981, 33021],
      [23545, 19981, 36215, 65292, 25105, 26080, 27861],
      [23545, 19981, 36215, 65292, 25105, 19981, 33021],
      [25265, 27465, 65292, 26080, 27861],
      [23545, 19981, 36215, 65292, 26080, 27861],
      [24456, 25265, 27465, 65292, 25105, 26080, 27861],
      [24456, 25265, 27465, 65292, 25105, 19981, 33021],
      str ''i'' @ [39] @ str ''m sorry, but i can'' @ [39] @ str ''t'',
      str ''i'' @ [39] @ str ''m sorry, but i cannot'',
      str ''i cannot rewrite'',
      str ''i can'' @ [39] @ str ''t rewrite'',
      str ''i cannot help'',
      str ''i can'' @ [39] @ str ''t help'',
      str ''i won'' @ [39] @ str ''t be able to'',
      str ''i'' @ [39] @ str ''m not able to'',
      str ''i am not able to'',
      str ''as an ai'',
      str ''i apologize, but'',
      str ''sorry, i can'' @ [39] @ str ''t'',
      str ''sorry, i cannot'',
      str ''unfortunately, i can'' @ [39] @ str ''t'',
      str ''unfortunately, i cannot'']"

definition REFUSAL_SHORT_VERBS :: "rstr list" where
  "REFUSAL_SHORT_VERBS =
     [[26080, 27861], [19981, 33021], [25298, 32477], str ''won'' @ [39] @ str ''t'', str ''cannot'',
      str ''can'' @ [39] @ str ''t'', str ''unable'', str ''refuse'']"

definition REFUSAL_HEAD_SCAN_CHARS :: nat where "REFUSAL_HEAD_SCAN_CHARS = 120"
definition MIN_FILTERED_OUTPUT_CHARS :: nat where "MIN_FILTERED_OUTPUT_CHARS = 80"

definition refusal_in_head :: "casing \<Rightarrow> rstr \<Rightarrow> bool" where
  "refusal_in_head cs txt =
     (let head_lower = concat (map (char_lower cs) (take REFUSAL_HEAD_SCAN_CHARS txt))
      in list_ex (\<lambda>p. sublist p head_lower) REFUSAL_PATTERNS_HEAD)"

definition filter_output_invalidity :: "casing \<Rightarrow> rstr \<Rightarrow> rstr option \<Rightarrow> rstr option" where
  "filter_output_invalidity cs txt finish_reason =
     (if finish_reason = Some (str ''content_filter'') then Some (str ''content_filter'')
      else if refusal_in_head cs txt then Some (str ''refusal_pattern'')
      else if length txt < MIN_FILTERED_OUTPUT_CHARS
      then (if list_ex (\<lambda>verb. sublist verb (str_lower cs txt)) REFUSAL_SHORT_VERBS
            then Some (str ''refusal_pattern'') else Some (str ''too_short''))
      else None)"

section \<open>One attempt\<close>

definition FILTER_TASK :: rstr where "FILTER_TASK = str ''chat_output_filter''"

definition filter_timeout_failure :: "rstr \<Rightarrow> rstr \<Rightarrow> attempt_failure" where
  "filter_timeout_failure task model =
     Gateway \<lparr>ge_task = task, ge_model = Some model, ge_kind = TotalTimeout,
              ge_message = str ''filter timeout after 15s''\<rparr>"

text \<open>\<open>s[n..]\<close> at a byte offset that is a boundary of \<open>s\<close>.\<close>

fun byte_from :: "nat \<Rightarrow> rstr \<Rightarrow> rstr" where
  "byte_from n [] = []"
| "byte_from n (c # cs) = (if n = 0 then c # cs else byte_from (n - utf8_width c) cs)"

record filter_attempt =
  fs_cleaner :: stream_cleaner
  fs_emitted_len :: nat
  fs_go :: bool
  fs_usage :: "json option"
  fs_gen_id :: "rstr option"
  fs_model_echo :: "rstr option"
  fs_finish :: "rstr option"
  fs_abort :: "rstr option"
  fs_deltas :: "rstr list"
  fs_failures :: "attempt_failure list"

definition filter_attempt_new :: filter_attempt where
  "filter_attempt_new = \<lparr>fs_cleaner = [], fs_emitted_len = 0, fs_go = False, fs_usage = None, fs_gen_id = None,
     fs_model_echo = None, fs_finish = None, fs_abort = None, fs_deltas = [], fs_failures = []\<rparr>"

definition filter_note :: "delta_chunk \<Rightarrow> filter_attempt \<Rightarrow> filter_attempt" where
  "filter_note c a = a\<lparr>fs_usage := or_else (dk_usage c) (fs_usage a),
     fs_gen_id := or_else (dk_generation_id c) (fs_gen_id a),
     fs_model_echo := or_else (dk_model c) (fs_model_echo a),
     fs_finish := or_else (dk_finish_reason c) (fs_finish a)\<rparr>"

text \<open>The content of a chunk: what is stable goes out once enough of it has passed the refusal scan.\<close>

definition filter_content :: "casing \<Rightarrow> rstr \<Rightarrow> filter_attempt \<Rightarrow> filter_attempt" where
  "filter_content cs content a =
     (let a = a\<lparr>fs_cleaner := cleaner_push (fs_cleaner a) content\<rparr>;
          stable = cleaner_stable (fs_cleaner a);
          ripe = (\<not> fs_go a \<and> REFUSAL_HEAD_SCAN_CHARS \<le> length stable)
      in if ripe \<and> refusal_in_head cs stable then a\<lparr>fs_abort := Some (str ''refusal_pattern'')\<rparr>
         else
           (let a = a\<lparr>fs_go := (fs_go a \<or> ripe)\<rparr>
            in if fs_go a \<and> fs_emitted_len a < utf8_len stable
               then a\<lparr>fs_deltas := fs_deltas a @ [byte_from (fs_emitted_len a) stable], fs_emitted_len := utf8_len stable\<rparr>
               else a))"

definition filter_failed :: "attempt_failure \<Rightarrow> filter_attempt \<Rightarrow> filter_attempt" where
  "filter_failed fail a = a\<lparr>fs_abort := Some (failure_pointer fail), fs_failures := fs_failures a @ [fail]\<rparr>"

fun filter_items :: "casing \<Rightarrow> rstr \<Rightarrow> (llm_error + delta_chunk) list \<Rightarrow> bool \<Rightarrow> filter_attempt \<Rightarrow> filter_attempt" where
  "filter_items cs model [] deadline a =
     (if deadline then filter_failed (filter_timeout_failure FILTER_TASK model) a else a)"
| "filter_items cs model (Inl e # items) deadline a = filter_failed (from_llm_error FILTER_TASK model e) a"
| "filter_items cs model (Inr c # items) deadline a =
     (let a = filter_note c a
      in if fs_finish a = Some (str ''content_filter'') then a\<lparr>fs_abort := Some (str ''content_filter'')\<rparr>
         else
           (let a = (case dk_content c of None \<Rightarrow> a | Some content \<Rightarrow> filter_content cs content a)
            in if fs_abort a \<noteq> None then a else filter_items cs model items deadline a))"

definition filter_run :: "casing \<Rightarrow> rstr \<Rightarrow> stream_run \<Rightarrow> filter_attempt" where
  "filter_run cs model run = (case run of
     OpenFailed e \<Rightarrow> filter_failed (from_llm_error FILTER_TASK model e) filter_attempt_new
   | OpenTimedOut \<Rightarrow> filter_failed (filter_timeout_failure FILTER_TASK model) filter_attempt_new
   | Opened items deadline \<Rightarrow> filter_items cs model items deadline filter_attempt_new)"

text \<open>Why the attempt is walked past, if it is; and the deltas it shows, the last of them at its end.\<close>

definition attempt_reason :: "casing \<Rightarrow> filter_attempt \<Rightarrow> rstr option" where
  "attempt_reason cs a = (case fs_abort a of
     Some reason \<Rightarrow> Some reason
   | None \<Rightarrow>
       if fs_go a then None
       else (let full = full_clean (fs_cleaner a)
             in if full = [] then Some (str ''empty'') else filter_output_invalidity cs full (fs_finish a)))"

definition attempt_deltas :: "casing \<Rightarrow> filter_attempt \<Rightarrow> rstr list" where
  "attempt_deltas cs a =
     (let full = full_clean (fs_cleaner a)
      in if attempt_reason cs a \<noteq> None then fs_deltas a
         else if \<not> fs_go a then fs_deltas a @ [full]
         else if fs_emitted_len a < utf8_len full then fs_deltas a @ [byte_from (fs_emitted_len a) full]
         else fs_deltas a)"

section \<open>The chain\<close>

record filter_attempt_failure =
  faf_model :: rstr
  faf_reason :: rstr
  faf_emitted :: bool

record run_filter_outcome =
  fo_filtered_text :: rstr
  fo_retries_filter :: nat
  fo_filter_model :: rstr
  fo_f_client_msg_id :: rstr
  fo_f_generation_id :: "rstr option"
  fo_attempts :: "filter_attempt_failure list"
  fo_failures :: "attempt_failure list"

record filter_fail_open =
  ff_f_client_msg_id :: rstr
  ff_attempts :: "filter_attempt_failure list"
  ff_failures :: "attempt_failure list"

text \<open>What the generator yields, and the generation it records in between.\<close>

datatype filter_event =
    FilterDelta rstr
  | AttemptAborted bool
  | Served run_filter_outcome
  | FailOpen filter_fail_open
  | FilterRecorded generation_record

definition no_sampling :: sampling where
  "no_sampling = \<lparr>top_p = None, frequency_penalty = None, presence_penalty = None, repetition_penalty = None\<rparr>"

definition filter_request :: "resolved_output_filter \<Rightarrow> rstr \<Rightarrow> rstr \<Rightarrow> chat_request" where
  "filter_request f original model =
     \<lparr>req_model = model, req_fallback_model = [],
      req_messages = [\<lparr>cm_role = str ''system'', cm_content = rp_prompt f\<rparr>, \<lparr>cm_role = str ''user'', cm_content = original\<rparr>],
      req_temperature = rp_temperature f, req_sampling = rp_sampling f, req_max_tokens = rp_max_tokens f,
      req_user = None, req_session_id = None, req_metadata = None, req_response_format = None,
      req_task = Some FILTER_TASK\<rparr>"

definition filter_generation :: "uuid \<Rightarrow> rstr \<Rightarrow> filter_attempt \<Rightarrow> generation_record" where
  "filter_generation sess model a =
     \<lparr>gr_task = FILTER_TASK, gr_session_id = Some sess, gr_generation_id = fs_gen_id a, gr_model = Some model,
      gr_usage = fs_usage a\<rparr>"

fun filter_walk :: "casing \<Rightarrow> stream_fn \<Rightarrow> uuid \<Rightarrow> resolved_output_filter \<Rightarrow> rstr \<Rightarrow> rstr \<Rightarrow> nat \<Rightarrow> rstr list
    \<Rightarrow> filter_attempt_failure list \<Rightarrow> attempt_failure list \<Rightarrow> filter_event list" where
  "filter_walk cs up sess f original f_id i [] attempts failures =
     [FailOpen \<lparr>ff_f_client_msg_id = f_id, ff_attempts = attempts, ff_failures = failures\<rparr>]"
| "filter_walk cs up sess f original f_id i (model # rest) attempts failures =
     (let run = up i model (filter_request f original model);
          a = filter_run cs model (ar_stream run);
          record = filter_generation sess model a;
          failures = failures @ fs_failures a
      in case attempt_reason cs a of
           Some reason \<Rightarrow>
             (let attempts = attempts @ [\<lparr>faf_model = model, faf_reason = reason, faf_emitted = fs_go a\<rparr>]
              in map FilterDelta (fs_deltas a) @ [FilterRecorded record, AttemptAborted (fs_go a)]
                 @ filter_walk cs up sess f original f_id (Suc i) rest attempts failures)
         | None \<Rightarrow>
             map FilterDelta (fs_deltas a) @ [FilterRecorded record]
             @ map FilterDelta (drop (length (fs_deltas a)) (attempt_deltas cs a))
             @ [Served \<lparr>fo_filtered_text = full_clean (fs_cleaner a), fo_retries_filter = i,
                 fo_filter_model = (case fs_model_echo a of Some m \<Rightarrow> m | None \<Rightarrow> model), fo_f_client_msg_id = f_id,
                 fo_f_generation_id = record_generation (ar_recorded run) record, fo_attempts = attempts,
                 fo_failures = failures\<rparr>])"

definition run_output_filter :: "casing \<Rightarrow> stream_fn \<Rightarrow> uuid \<Rightarrow> resolved_output_filter \<Rightarrow> rstr \<Rightarrow> rstr
    \<Rightarrow> filter_event list" where
  "run_output_filter cs up sess f original f_id =
     filter_walk cs up sess f original f_id 0 (rp_model f # rp_fallback_model f) [] []"

end
