(* ===== verification/Judge.thy ===== *)
theory Judge
  imports Filter_Stream Rust_Json Pde Model_Tasks
begin

text \<open>
  The judge of a turn: the streamed judge call (\<open>crates/eros-engine-server/src/pipeline/reasoning_call.rs\<close>),
  the verdict it reads, and the plan a turn acts on (\<open>pipeline/stream.rs\<close>). The JSON reader is the
  parameter \<open>from_str\<close>; what a model streams is a \<open>stream_fn\<close>. Durations are whole seconds.
\<close>

section \<open>The judge call\<close>

datatype pde_status = PdeOk | PdeEmpty | PdeParseError | PdeUpstreamError | PdeGatewayError

definition pde_status_as_str :: "pde_status \<Rightarrow> rstr" where
  "pde_status_as_str s = (case s of PdeOk \<Rightarrow> str ''ok'' | PdeEmpty \<Rightarrow> str ''empty''
     | PdeParseError \<Rightarrow> str ''parse_error'' | PdeUpstreamError \<Rightarrow> str ''upstream_error''
     | PdeGatewayError \<Rightarrow> str ''gateway_error'')"

definition for_operation :: "attempt_failure list \<Rightarrow> pde_status" where
  "for_operation failures = (if operation_hit_upstream failures then PdeUpstreamError else PdeGatewayError)"

record judge_call =
  jc_task :: rstr
  jc_session_id :: "uuid option"
  jc_chain :: "rstr list"
  jc_system :: rstr
  jc_user :: rstr
  jc_temperature :: f64
  jc_max_tokens :: nat
  jc_sampling :: sampling
  jc_response_format :: "json option"
  jc_open_cap :: nat
  jc_attempt_budget :: nat

record 'v judge_run =
  jr_status :: pde_status
  jr_verdict :: "'v option"
  jr_raw :: "rstr option"
  jr_reasoning :: rstr
  jr_generation_id :: "rstr option"
  jr_failures :: "attempt_failure list"

text \<open>What the call yields, and the generation it records in between.\<close>

datatype 'v judge_step = ReasoningStep rstr | JudgeRecorded generation_record | Finished "'v judge_run"

definition judge_timeout :: "rstr \<Rightarrow> rstr \<Rightarrow> gateway_kind \<Rightarrow> nat \<Rightarrow> rstr \<Rightarrow> attempt_failure" where
  "judge_timeout task model kind limit what = Gateway \<lparr>ge_task = task, ge_model = Some model, ge_kind = kind,
     ge_message = task @ 32 # what @ str '' timeout after '' @ decimal limit @ str ''s''\<rparr>"

definition judge_request :: "judge_call \<Rightarrow> rstr \<Rightarrow> chat_request" where
  "judge_request call model =
     \<lparr>req_model = model, req_fallback_model = [],
      req_messages = [\<lparr>cm_role = str ''system'', cm_content = jc_system call\<rparr>,
                      \<lparr>cm_role = str ''user'', cm_content = jc_user call\<rparr>],
      req_temperature = jc_temperature call, req_sampling = jc_sampling call, req_max_tokens = jc_max_tokens call,
      req_user = None, req_session_id = None, req_metadata = None,
      req_response_format = jc_response_format call, req_task = Some (jc_task call)\<rparr>"

subsection \<open>One attempt\<close>

record judge_attempt =
  ja_reasoning :: "rstr list"
  ja_content :: rstr
  ja_usage :: "json option"
  ja_gen_id :: "rstr option"
  ja_served :: "rstr option"
  ja_finish :: "rstr option"
  ja_failure :: "attempt_failure option"

definition judge_attempt_new :: judge_attempt where
  "judge_attempt_new = \<lparr>ja_reasoning = [], ja_content = [], ja_usage = None, ja_gen_id = None, ja_served = None,
     ja_finish = None, ja_failure = None\<rparr>"

definition option_list :: "'a option \<Rightarrow> 'a list" where
  "option_list x = (case x of None \<Rightarrow> [] | Some y \<Rightarrow> [y])"

definition judge_chunk :: "delta_chunk \<Rightarrow> judge_attempt \<Rightarrow> judge_attempt" where
  "judge_chunk c a = a\<lparr>ja_reasoning := ja_reasoning a @ option_list (dk_reasoning c),
     ja_content := ja_content a @ (case dk_content c of None \<Rightarrow> [] | Some t \<Rightarrow> t),
     ja_usage := or_else (dk_usage c) (ja_usage a), ja_gen_id := or_else (dk_generation_id c) (ja_gen_id a),
     ja_served := or_else (dk_model c) (ja_served a), ja_finish := or_else (dk_finish_reason c) (ja_finish a)\<rparr>"

fun judge_items :: "judge_call \<Rightarrow> rstr \<Rightarrow> (llm_error + delta_chunk) list \<Rightarrow> bool \<Rightarrow> judge_attempt \<Rightarrow> judge_attempt" where
  "judge_items call model [] deadline a =
     (if deadline
      then a\<lparr>ja_failure := Some (judge_timeout (jc_task call) model TotalTimeout (jc_attempt_budget call) (str ''total''))\<rparr>
      else a)"
| "judge_items call model (Inl e # items) deadline a = a\<lparr>ja_failure := Some (from_llm_error (jc_task call) model e)\<rparr>"
| "judge_items call model (Inr c # items) deadline a = judge_items call model items deadline (judge_chunk c a)"

definition judge_attempt_of :: "judge_call \<Rightarrow> rstr \<Rightarrow> stream_run \<Rightarrow> judge_attempt" where
  "judge_attempt_of call model run = (case run of
     OpenFailed e \<Rightarrow> judge_attempt_new\<lparr>ja_failure := Some (from_llm_error (jc_task call) model e)\<rparr>
   | OpenTimedOut \<Rightarrow> judge_attempt_new\<lparr>ja_failure := Some (judge_timeout (jc_task call) model OpenTimeout
        (min (jc_open_cap call) (jc_attempt_budget call)) (str ''open''))\<rparr>
   | Opened items deadline \<Rightarrow> judge_items call model items deadline judge_attempt_new)"

definition judge_generation :: "judge_call \<Rightarrow> judge_attempt \<Rightarrow> generation_record" where
  "judge_generation call a =
     \<lparr>gr_task = jc_task call, gr_session_id = jc_session_id call, gr_generation_id = ja_gen_id a,
      gr_model = ja_served a, gr_usage = ja_usage a\<rparr>"

text \<open>What becomes of an attempt: a failure, a reply that is empty or does not parse, or a verdict.\<close>

datatype 'v judge_outcome = JFailed attempt_failure | JEmpty | JUnparsed rstr | JVerdict 'v

definition judge_text :: "judge_attempt \<Rightarrow> rstr" where
  "judge_text a =
     (let content = (if looks_byte_garbled (ja_content a) then repair_byte_bpe (ja_content a) else ja_content a)
      in trim (clean_response (trim content)))"

definition judge_outcome :: "(rstr \<Rightarrow> 'v option) \<Rightarrow> judge_call \<Rightarrow> rstr \<Rightarrow> judge_attempt \<Rightarrow> 'v judge_outcome" where
  "judge_outcome parse call model a = (case ja_failure a of
     Some f \<Rightarrow> JFailed f
   | None \<Rightarrow>
       if looks_byte_garbled (ja_content a) \<and> ja_finish a = Some (str ''length'')
       then JFailed (from_llm_error (jc_task call) model (ChainErr []))
       else if judge_text a = [] then JEmpty
       else (case parse (judge_text a) of Some v \<Rightarrow> JVerdict v | None \<Rightarrow> JUnparsed (judge_text a)))"

subsection \<open>The chain\<close>

record judge_walk_state =
  jw_failures :: "attempt_failure list"
  jw_reasoning :: rstr
  jw_last :: pde_status
  jw_last_parse :: "(rstr \<times> rstr option) option"

definition judge_exhausted :: "judge_walk_state \<Rightarrow> 'v judge_run" where
  "judge_exhausted w =
     (let (raw, gid) = (case (jw_last w, jw_last_parse w) of
            (PdeParseError, Some (r, g)) \<Rightarrow> (Some r, g) | _ \<Rightarrow> (None, None))
      in \<lparr>jr_status = jw_last w, jr_verdict = None, jr_raw = raw, jr_reasoning = jw_reasoning w,
          jr_generation_id = gid, jr_failures = jw_failures w\<rparr>)"

fun judge_walk :: "(rstr \<Rightarrow> 'v option) \<Rightarrow> judge_call \<Rightarrow> stream_fn \<Rightarrow> nat \<Rightarrow> rstr list \<Rightarrow> judge_walk_state
    \<Rightarrow> 'v judge_step list" where
  "judge_walk parse call up i [] w = [Finished (judge_exhausted w)]"
| "judge_walk parse call up i (model # rest) w =
     (let run = up i model (judge_request call model);
          a = judge_attempt_of call model (ar_stream run);
          gen = judge_generation call a;
          gen_id = record_generation (ar_recorded run) gen;
          w = w\<lparr>jw_reasoning := jw_reasoning w @ concat (ja_reasoning a)\<rparr>
      in map ReasoningStep (ja_reasoning a) @ (if ja_failure a = None then [JudgeRecorded gen] else [])
         @ (case judge_outcome parse call model a of
              JFailed f \<Rightarrow>
                (let failures = jw_failures w @ [f]
                 in judge_walk parse call up (Suc i) rest (w\<lparr>jw_failures := failures, jw_last := for_operation failures\<rparr>))
            | JEmpty \<Rightarrow> judge_walk parse call up (Suc i) rest (w\<lparr>jw_last := PdeEmpty\<rparr>)
            | JUnparsed text \<Rightarrow> judge_walk parse call up (Suc i) rest
                (w\<lparr>jw_last := PdeParseError, jw_last_parse := Some (text, gen_id)\<rparr>)
            | JVerdict v \<Rightarrow> [Finished \<lparr>jr_status = PdeOk, jr_verdict = Some v, jr_raw = None,
                jr_reasoning = jw_reasoning w, jr_generation_id = gen_id, jr_failures = jw_failures w\<rparr>]))"

definition reasoning_call :: "(rstr \<Rightarrow> 'v option) \<Rightarrow> judge_call \<Rightarrow> stream_fn \<Rightarrow> 'v judge_step list" where
  "reasoning_call parse call up = judge_walk parse call up 0 (jc_chain call)
     \<lparr>jw_failures = [], jw_reasoning = [], jw_last = PdeGatewayError, jw_last_parse = None\<rparr>"

section \<open>The verdict\<close>

datatype pde_action = JReplyText | JGhost | JReplyImage | JReplyTextImage | JProductQa

definition pde_action_as_str :: "pde_action \<Rightarrow> rstr" where
  "pde_action_as_str a = (case a of JReplyText \<Rightarrow> str ''reply_text'' | JGhost \<Rightarrow> str ''ghost''
     | JReplyImage \<Rightarrow> str ''reply_image'' | JReplyTextImage \<Rightarrow> str ''reply_text_image''
     | JProductQa \<Rightarrow> str ''product_qa'')"

definition all_pde_actions :: "pde_action list" where
  "all_pde_actions = [JReplyText, JGhost, JReplyImage, JReplyTextImage, JProductQa]"

text \<open>A variant of an enum without data reads from its name, or from an object of its name and null.\<close>

definition variant_of :: "(rstr \<times> 'a) list \<Rightarrow> json \<Rightarrow> 'a option" where
  "variant_of names v = (case v of JStr s \<Rightarrow> map_of names s | JObj [(s, JNull)] \<Rightarrow> map_of names s | _ \<Rightarrow> None)"

definition pde_action_of :: "json \<Rightarrow> pde_action option" where
  "pde_action_of = variant_of (map (\<lambda>a. (pde_action_as_str a, a)) all_pde_actions)"

definition reply_mode_of :: "json \<Rightarrow> reply_mode option" where
  "reply_mode_of = variant_of (map (\<lambda>m. (reply_mode_as_str m, m)) [Listen, Follow, Ask, Judge])"

definition image_ref_of :: "json \<Rightarrow> image_ref option" where
  "image_ref_of = variant_of [(str ''face'', Face), (str ''previous'', Previous)]"

definition action_response_of :: "json \<Rightarrow> action_response option" where
  "action_response_of = variant_of [(str ''accept'', Accept), (str ''refuse'', Refuse)]"

definition need_level_as_str :: "need_level \<Rightarrow> rstr" where
  "need_level_as_str l = (case l of LowNeed \<Rightarrow> str ''low'' | MidNeed \<Rightarrow> str ''mid'' | HighNeed \<Rightarrow> str ''high'')"

definition need_level_of :: "json \<Rightarrow> need_level option" where
  "need_level_of = variant_of (map (\<lambda>l. (need_level_as_str l, l)) [LowNeed, MidNeed, HighNeed])"

text \<open>An \<open>Option\<close> field with a default: absent or null is \<open>None\<close>, anything else must read.\<close>

definition opt_field :: "(json \<Rightarrow> 'a option) \<Rightarrow> json option \<Rightarrow> 'a option option" where
  "opt_field decode v = (case v of None \<Rightarrow> Some None | Some JNull \<Rightarrow> Some None
     | Some x \<Rightarrow> map_option Some (decode x))"

definition default_field :: "'a \<Rightarrow> (json \<Rightarrow> 'a option) \<Rightarrow> json option \<Rightarrow> 'a option" where
  "default_field d decode v = (case v of None \<Rightarrow> Some d | Some x \<Rightarrow> decode x)"

definition str_of :: "json \<Rightarrow> rstr option" where
  "str_of v = (case v of JStr s \<Rightarrow> Some s | _ \<Rightarrow> None)"

record verdict_needs =
  vn_hunger :: need_level
  vn_social :: need_level
  vn_stamina :: need_level
  vn_emotional :: need_level
  vn_outing :: "need_level option"
  vn_indulgence :: "need_level option"

definition verdict_needs_of :: "json \<Rightarrow> verdict_needs option" where
  "verdict_needs_of v =
     (let level = (\<lambda>k key. Option.bind (struct_field v k key) need_level_of)
      in if \<not> struct_shape v 6 then None
         else Option.bind (level 0 (str ''hunger'')) (\<lambda>h.
              Option.bind (level 1 (str ''social'')) (\<lambda>so.
              Option.bind (level 2 (str ''stamina'')) (\<lambda>st.
              Option.bind (level 3 (str ''emotional'')) (\<lambda>e.
              Option.bind (opt_field need_level_of (struct_field v 4 (str ''outing''))) (\<lambda>o'.
              Option.bind (opt_field need_level_of (struct_field v 5 (str ''indulgence''))) (\<lambda>i.
                Some \<lparr>vn_hunger = h, vn_social = so, vn_stamina = st, vn_emotional = e, vn_outing = o',
                  vn_indulgence = i\<rparr>)))))))"

definition shown_level :: "(needs \<Rightarrow> need_level) \<Rightarrow> needs option \<Rightarrow> need_level" where
  "shown_level sel shown = (case shown of Some n \<Rightarrow> sel n | None \<Rightarrow> MidNeed)"

definition resolve_needs :: "verdict_needs \<Rightarrow> needs option \<Rightarrow> needs" where
  "resolve_needs n shown =
     \<lparr>hunger = vn_hunger n, social = vn_social n, stamina = vn_stamina n, emotional = vn_emotional n,
      outing = (case vn_outing n of Some l \<Rightarrow> l | None \<Rightarrow> shown_level outing shown),
      indulgence = (case vn_indulgence n of Some l \<Rightarrow> l | None \<Rightarrow> shown_level indulgence shown)\<rparr>"

record pde_verdict =
  pv_action :: pde_action
  pv_inner_state :: rstr
  pv_reply_mode :: "reply_mode option"
  pv_reason :: "rstr option"
  pv_image_ref :: image_ref
  pv_aspect_ratio :: "rstr option"
  pv_clothing :: "rstr option"
  pv_action_response :: "action_response option"
  pv_needs :: "verdict_needs option"

definition pde_verdict_of :: "json \<Rightarrow> pde_verdict option" where
  "pde_verdict_of v =
     (if \<not> struct_shape v 9 then None
      else Option.bind (Option.bind (struct_field v 0 (str ''action'')) pde_action_of) (\<lambda>action.
           Option.bind (default_field [] str_of (struct_field v 1 (str ''inner_state''))) (\<lambda>inner.
           Option.bind (opt_field reply_mode_of (struct_field v 2 (str ''reply_mode''))) (\<lambda>mode.
           Option.bind (opt_field str_of (struct_field v 3 (str ''reason''))) (\<lambda>reason.
           Option.bind (default_field Face image_ref_of (struct_field v 4 (str ''image_ref''))) (\<lambda>img.
           Option.bind (opt_field str_of (struct_field v 5 (str ''aspect_ratio''))) (\<lambda>aspect.
           Option.bind (opt_field str_of (struct_field v 6 (str ''clothing''))) (\<lambda>clothing.
           Option.bind (opt_field action_response_of (struct_field v 7 (str ''action_response''))) (\<lambda>resp.
             Some \<lparr>pv_action = action, pv_inner_state = inner, pv_reply_mode = mode, pv_reason = reason,
               pv_image_ref = img, pv_aspect_ratio = aspect, pv_clothing = clothing, pv_action_response = resp,
               pv_needs = Option.bind (struct_field v 8 (str ''needs'')) verdict_needs_of\<rparr>)))))))))"

definition parse_pde_verdict :: "(rstr \<Rightarrow> json option) \<Rightarrow> rstr \<Rightarrow> pde_verdict option" where
  "parse_pde_verdict from_str text = parse_llm_json from_str pde_verdict_of text"

end
