(* ===== verification/Side_Calls.thy ===== *)
theory Side_Calls
  imports Judge
begin

text \<open>
  The one-shot model calls around a reply (\<open>crates/eros-engine-server/src/pipeline/stream.rs\<close>): the
  picture description (\<open>run_vision\<close>), the rewrite of the user's input (\<open>run_input_filter\<close>) and the image
  prompt composer (\<open>run_image_prompt_compose\<close>, \<open>build_delegated_image_prompt_for\<close>). Each walks its own
  chain of models, one model per call. What a call returns is a parameter, by the position of the model
  and the request; the rendered payload and the final prompt of the composer, texts of
  \<open>prompt.rs\<close> and \<open>handlers.rs\<close>, are parameters too. Counters do not overflow.
\<close>

section \<open>A chain of one-shot calls\<close>

text \<open>A reply, with whether its generation could be written; an error; or the 15 seconds are over.\<close>

datatype reply_call = Replied chat_response bool | CallFailed llm_error | CallTimedOut

text \<open>What becomes of one model: it failed; it answered and the answer is unusable, with the generation to
  record and the id to keep; or the walk ends with it.\<close>

datatype 'a side_outcome =
    SideFailed attempt_failure
  | SideRejected rstr generation_record "rstr option"
  | SideSettled 'a generation_record

record 'a side_run =
  sd_outcome :: "'a option"
  sd_attempts :: nat
  sd_last_failure :: "rstr option"
  sd_last_generation_id :: "rstr option"
  sd_failures :: "attempt_failure list"
  sd_recorded :: "generation_record list"

definition side_start :: "'a side_run" where
  "side_start = \<lparr>sd_outcome = None, sd_attempts = 0, sd_last_failure = None, sd_last_generation_id = None,
     sd_failures = [], sd_recorded = []\<rparr>"

fun side_note :: "'a side_outcome \<Rightarrow> 'a side_run \<Rightarrow> 'a side_run" where
  "side_note (SideFailed f) w =
     (let failures = sd_failures w @ [f]
      in w\<lparr>sd_attempts := Suc (sd_attempts w), sd_failures := failures,
           sd_last_failure := Some (operation_failure_pointer failures), sd_last_generation_id := None\<rparr>)"
| "side_note (SideRejected reason gen gid) w =
     w\<lparr>sd_attempts := Suc (sd_attempts w), sd_recorded := sd_recorded w @ [gen], sd_last_failure := Some reason,
       sd_last_generation_id := gid\<rparr>"
| "side_note (SideSettled x gen) w =
     w\<lparr>sd_outcome := Some x, sd_attempts := Suc (sd_attempts w), sd_recorded := sd_recorded w @ [gen],
       sd_last_failure := None, sd_last_generation_id := None\<rparr>"

fun side_settled :: "'a side_outcome \<Rightarrow> bool" where
  "side_settled (SideSettled x gen) = True" | "side_settled _ = False"

fun side_walk :: "(nat \<Rightarrow> rstr \<Rightarrow> 'a side_outcome) \<Rightarrow> nat \<Rightarrow> rstr list \<Rightarrow> 'a side_run \<Rightarrow> 'a side_run" where
  "side_walk attempt i [] w = w"
| "side_walk attempt i (m # ms) w =
     (let o' = attempt i m; w = side_note o' w in if side_settled o' then w else side_walk attempt (Suc i) ms w)"

definition side_generation :: "rstr \<Rightarrow> uuid option \<Rightarrow> chat_response \<Rightarrow> generation_record" where
  "side_generation task sess r =
     \<lparr>gr_task = task, gr_session_id = sess, gr_generation_id = cr_generation_id r, gr_model = cr_model r,
      gr_usage = cr_usage r\<rparr>"

text \<open>The arms the three walks share; \<open>judge\<close> reads a reply that is not blank.\<close>

definition side_attempt :: "rstr \<Rightarrow> uuid option \<Rightarrow> rstr \<Rightarrow> (rstr \<Rightarrow> chat_response \<Rightarrow> rstr option \<Rightarrow> rstr + 'a) \<Rightarrow> reply_call
    \<Rightarrow> 'a side_outcome" where
  "side_attempt task sess model judge call = (case call of
     CallFailed e \<Rightarrow> SideFailed (from_llm_error task model e)
   | CallTimedOut \<Rightarrow> SideFailed (filter_timeout_failure task model)
   | Replied r recorded \<Rightarrow>
       (let gen = side_generation task sess r; gid = record_generation recorded gen; text = trim (cr_reply r)
        in if text = [] then SideRejected (str ''empty'') gen gid
           else (case judge text r gid of Inl reason \<Rightarrow> SideRejected reason gen gid | Inr x \<Rightarrow> SideSettled x gen)))"

section \<open>The picture description\<close>

record image_vision =
  iv_description :: rstr
  iv_ocr_text :: "rstr option"
  iv_people :: "rstr option"
  iv_scene :: "rstr option"

definition image_vision_of :: "json \<Rightarrow> image_vision option" where
  "image_vision_of v =
     (if \<not> struct_shape v 4 then None
      else Option.bind (string_field (struct_field v 0 (str ''description''))) (\<lambda>d.
           Option.bind (opt_field str_of (struct_field v 1 (str ''ocr_text''))) (\<lambda>o'.
           Option.bind (opt_field str_of (struct_field v 2 (str ''people''))) (\<lambda>p.
           Option.bind (opt_field str_of (struct_field v 3 (str ''scene''))) (\<lambda>s.
             Some \<lparr>iv_description = d, iv_ocr_text = o', iv_people = p, iv_scene = s\<rparr>)))))"

definition opt_json :: "rstr option \<Rightarrow> json" where
  "opt_json x = (case x of None \<Rightarrow> JNull | Some s \<Rightarrow> JStr s)"

definition image_vision_json :: "image_vision \<Rightarrow> json" where
  "image_vision_json v = JObj [(str ''description'', JStr (iv_description v)), (str ''ocr_text'', opt_json (iv_ocr_text v)),
     (str ''people'', opt_json (iv_people v)), (str ''scene'', opt_json (iv_scene v))]"

definition image_vision_invalidity :: "casing \<Rightarrow> image_vision \<Rightarrow> rstr option \<Rightarrow> rstr option" where
  "image_vision_invalidity cs v finish_reason =
     (if finish_reason = Some (str ''content_filter'') then Some (str ''content_filter'')
      else if trim (iv_description v) = [] then Some (str ''blank_description'')
      else if refusal_in_head cs (iv_description v) then Some (str ''refusal_pattern'') else None)"

record vision_outcome =
  vo_vision :: json
  vo_vision_model :: rstr
  vo_generation_id :: "rstr option"

definition vision_judge :: "casing \<Rightarrow> (rstr \<Rightarrow> json option) \<Rightarrow> rstr \<Rightarrow> rstr \<Rightarrow> chat_response \<Rightarrow> rstr option
    \<Rightarrow> rstr + vision_outcome" where
  "vision_judge cs from_str model text r gid = (case parse_llm_json from_str image_vision_of text of
     None \<Rightarrow> Inl (str ''unparseable'')
   | Some v \<Rightarrow> (case image_vision_invalidity cs v (cr_finish_reason r) of
       Some reason \<Rightarrow> Inl reason
     | None \<Rightarrow> Inr \<lparr>vo_vision = image_vision_json v,
         vo_vision_model = (case cr_model r of Some m \<Rightarrow> m | None \<Rightarrow> model), vo_generation_id = gid\<rparr>))"

definition vision_req :: "resolved_prompt \<Rightarrow> rstr \<Rightarrow> rstr \<Rightarrow> rstr \<Rightarrow> vision_request" where
  "vision_req v image_url caption model =
     \<lparr>vr_model = model, vr_fallback_model = [], vr_system_prompt = rp_prompt v, vr_image_url = image_url,
      vr_caption = (if caption = [] then None else Some caption), vr_temperature = rp_temperature v,
      vr_max_tokens = rp_max_tokens v, vr_sampling = rp_sampling v\<rparr>"

definition run_vision :: "casing \<Rightarrow> (rstr \<Rightarrow> json option) \<Rightarrow> (nat \<Rightarrow> vision_request \<Rightarrow> reply_call) \<Rightarrow> uuid \<Rightarrow> resolved_prompt
    \<Rightarrow> rstr \<Rightarrow> rstr \<Rightarrow> vision_outcome side_run" where
  "run_vision cs from_str up sess v image_url caption =
     side_walk (\<lambda>i model. side_attempt VISION_TASK (Some sess) model (vision_judge cs from_str model)
         (up i (vision_req v image_url (trim caption) model))) 0 (rp_model v # rp_fallback_model v) side_start"

section \<open>The rewrite of the user's input\<close>

definition INPUT_FILTER_TASK :: rstr where "INPUT_FILTER_TASK = str ''chat_input_filter''"

record input_filter_verdict =
  if_rewrite :: bool
  if_content :: "rstr option"
  if_reason :: "rstr option"

definition bool_of :: "json \<Rightarrow> bool option" where
  "bool_of v = (case v of JBool b \<Rightarrow> Some b | _ \<Rightarrow> None)"

definition input_filter_verdict_of :: "json \<Rightarrow> input_filter_verdict option" where
  "input_filter_verdict_of v =
     (if \<not> struct_shape v 3 then None
      else Option.bind (default_field False bool_of (struct_field v 0 (str ''rewrite''))) (\<lambda>b.
           Option.bind (opt_field str_of (struct_field v 1 (str ''content''))) (\<lambda>c.
           Option.bind (opt_field str_of (struct_field v 2 (str ''reason''))) (\<lambda>r.
             Some \<lparr>if_rewrite = b, if_content = c, if_reason = r\<rparr>))))"

definition rewrite_content_invalidity :: "casing \<Rightarrow> rstr \<Rightarrow> rstr option \<Rightarrow> rstr option" where
  "rewrite_content_invalidity cs text finish_reason =
     (if finish_reason = Some (str ''content_filter'') then Some (str ''content_filter'')
      else if refusal_in_head cs text then Some (str ''refusal_pattern'') else None)"

record input_rewrite =
  ir_rewritten_text :: rstr
  ir_filter_model :: rstr
  ir_reason :: "rstr option"
  ir_generation_id :: "rstr option"

text \<open>A reply is definitive: a rewrite, or \<open>None\<close> to keep the input.\<close>

definition input_judge :: "casing \<Rightarrow> (rstr \<Rightarrow> json option) \<Rightarrow> rstr \<Rightarrow> rstr \<Rightarrow> chat_response \<Rightarrow> rstr option
    \<Rightarrow> rstr + input_rewrite option" where
  "input_judge cs from_str model text r gid = Inr (case parse_llm_json from_str input_filter_verdict_of text of
     None \<Rightarrow> None
   | Some v \<Rightarrow>
       if \<not> if_rewrite v then None
       else (let content = trim (case if_content v of Some c \<Rightarrow> c | None \<Rightarrow> [])
             in if content = [] then None
                else if rewrite_content_invalidity cs content (cr_finish_reason r) \<noteq> None then None
                else Some \<lparr>ir_rewritten_text = content,
                  ir_filter_model = (case cr_model r of Some m \<Rightarrow> m | None \<Rightarrow> model),
                  ir_reason = (case if_reason v of Some x \<Rightarrow> if trim x = [] then None else Some x | None \<Rightarrow> None),
                  ir_generation_id = gid\<rparr>))"

text \<open>\<open>[\<dots>]\<close> headings in Chinese, by their code points; no transcript reads as \<open>none\<close>.\<close>

definition NONE_MARK :: rstr where "NONE_MARK = [65288, 26080, 65289]"

definition input_filter_payload :: "rstr \<Rightarrow> rstr \<Rightarrow> rstr" where
  "input_filter_payload transcript raw_input =
     [91, 26368, 36817, 23545, 35805, 93, 10] @ (if trim transcript = [] then NONE_MARK else transcript)
     @ [10, 10, 91, 29992, 25143, 26368, 26032, 36755, 20837, 93, 10] @ raw_input"

definition side_request :: "rstr \<Rightarrow> resolved_prompt \<Rightarrow> rstr \<Rightarrow> rstr \<Rightarrow> chat_request" where
  "side_request task p payload model =
     \<lparr>req_model = model, req_fallback_model = [],
      req_messages = [\<lparr>cm_role = str ''system'', cm_content = rp_prompt p\<rparr>, \<lparr>cm_role = str ''user'', cm_content = payload\<rparr>],
      req_temperature = rp_temperature p, req_sampling = rp_sampling p, req_max_tokens = rp_max_tokens p,
      req_user = None, req_session_id = None, req_metadata = None, req_response_format = None, req_task = Some task\<rparr>"

definition run_input_filter :: "casing \<Rightarrow> (rstr \<Rightarrow> json option) \<Rightarrow> (nat \<Rightarrow> chat_request \<Rightarrow> reply_call) \<Rightarrow> uuid
    \<Rightarrow> resolved_prompt \<Rightarrow> rstr \<Rightarrow> rstr \<Rightarrow> input_rewrite option side_run" where
  "run_input_filter cs from_str up sess f recent_transcript raw_input =
     side_walk (\<lambda>i model. side_attempt INPUT_FILTER_TASK (Some sess) model (input_judge cs from_str model)
         (up i (side_request INPUT_FILTER_TASK f (input_filter_payload recent_transcript raw_input) model)))
       0 (rp_model f # rp_fallback_model f) side_start"

text \<open>What the caller gets of it.\<close>

definition input_rewrite_of :: "input_rewrite option side_run \<Rightarrow> input_rewrite option" where
  "input_rewrite_of run = (case sd_outcome run of Some (Some rw) \<Rightarrow> Some rw | _ \<Rightarrow> None)"

section \<open>The image prompt composer\<close>

record compose_reply =
  co_prompt :: rstr
  co_caption :: "rstr option"

definition compose_reply_of :: "json \<Rightarrow> compose_reply option" where
  "compose_reply_of v =
     (if \<not> struct_shape v 2 then None
      else Option.bind (string_field (struct_field v 0 (str ''prompt''))) (\<lambda>p.
           Option.bind (opt_field str_of (struct_field v 1 (str ''caption''))) (\<lambda>c.
             Some \<lparr>co_prompt = p, co_caption = c\<rparr>)))"

definition parse_compose_reply :: "(rstr \<Rightarrow> json option) \<Rightarrow> rstr \<Rightarrow> rstr \<times> rstr option" where
  "parse_compose_reply from_str raw = (case parse_llm_json from_str compose_reply_of raw of
     Some r \<Rightarrow> (trim (co_prompt r),
       (case co_caption r of Some c \<Rightarrow> if trim c = [] then None else Some (trim c) | None \<Rightarrow> None))
   | None \<Rightarrow> (trim raw, None))"

record compose_outcome =
  cp_prompt :: rstr
  cp_caption :: "rstr option"
  cp_model :: rstr
  cp_generation_id :: "rstr option"
  cp_variant :: "rstr option"

definition compose_judge :: "(rstr \<Rightarrow> json option) \<Rightarrow> rstr option \<Rightarrow> rstr \<Rightarrow> rstr \<Rightarrow> chat_response \<Rightarrow> rstr option
    \<Rightarrow> rstr + compose_outcome" where
  "compose_judge from_str variant model text r gid =
     (let (prompt, caption) = parse_compose_reply from_str text
      in if prompt = [] then Inl (str ''empty_prompt'')
         else Inr \<lparr>cp_prompt = prompt, cp_caption = caption,
           cp_model = (case cr_model r of Some m \<Rightarrow> m | None \<Rightarrow> model), cp_generation_id = gid, cp_variant = variant\<rparr>)"

definition run_image_prompt_compose :: "(rstr \<Rightarrow> json option) \<Rightarrow> (nat \<Rightarrow> chat_request \<Rightarrow> reply_call) \<Rightarrow> uuid option
    \<Rightarrow> resolved_compose \<Rightarrow> rstr \<Rightarrow> rstr \<Rightarrow> compose_outcome side_run" where
  "run_image_prompt_compose from_str up sess c user_payload task =
     side_walk (\<lambda>i model. side_attempt task sess model (compose_judge from_str (rc_variant_key c) model)
         (up i (side_request task (resolved_prompt.truncate c) user_payload model)))
       0 (rp_model c # rp_fallback_model c) side_start"

datatype style_key = Realistic | SemiRealistic | Anime

definition style_str :: "style_key \<Rightarrow> rstr" where
  "style_str s = (case s of Realistic \<Rightarrow> str ''realistic'' | SemiRealistic \<Rightarrow> str ''semi_realistic'' | Anime \<Rightarrow> str ''anime'')"

record image_reply_params =
  ip_force :: bool
  ip_style :: "style_key option"
  ip_aspect_ratio :: "rstr option"
  ip_prompt_variant :: "rstr option"

definition nonblank :: "rstr option \<Rightarrow> rstr option" where
  "nonblank x = (case x of Some s \<Rightarrow> if trim s = [] then None else Some s | None \<Rightarrow> None)"

definition resolve_image_turn_inputs :: "action_plan \<Rightarrow> image_reply_params option \<Rightarrow> style_key \<times> rstr option" where
  "resolve_image_turn_inputs plan req_image =
     ((case Option.bind req_image ip_style of Some s \<Rightarrow> s | None \<Rightarrow> Realistic),
      or_else (nonblank (plan_aspect_ratio plan)) (Option.bind req_image (\<lambda>i. nonblank (ip_aspect_ratio i))))"

record delegated_image_prompt =
  di_subject :: rstr
  di_caption :: "rstr option"
  di_aspect_ratio :: "rstr option"
  di_composed_prompt :: rstr
  di_compose_variant :: "rstr option"
  di_compose_model :: "rstr option"
  di_compose_generation_id :: "rstr option"
  di_compose_event_id :: "uuid option"
  di_failures :: "attempt_failure list"

record compose_event =
  ce_source :: rstr
  ce_status :: rstr
  ce_subject :: "rstr option"
  ce_caption :: "rstr option"
  ce_composed_prompt :: "rstr option"
  ce_variant :: "rstr option"
  ce_generation_id :: "rstr option"
  ce_attempts :: nat
  ce_last_failure :: "rstr option"
  ce_llm_attempts :: "upstream_attempt list option"
  ce_gateway_errors :: "gateway_error list option"

definition compose_source :: "action_type \<Rightarrow> rstr" where
  "compose_source a = (if a = ReplyImage then str ''chat_reply_image'' else str ''chat_reply_text_image'')"

text \<open>
  The composer when it is configured, its audit event, and the wire prompt. \<open>payload\<close> renders the inputs,
  \<open>wrap\<close> is \<open>compose_image_prompt\<close>, \<open>event_id\<close> the id of the audit row, if it could be written.
\<close>

definition build_delegated_image_prompt_for :: "(rstr \<Rightarrow> json option) \<Rightarrow> (nat \<Rightarrow> chat_request \<Rightarrow> reply_call)
    \<Rightarrow> (style_key \<Rightarrow> rstr option \<Rightarrow> rstr) \<Rightarrow> (style_key \<Rightarrow> rstr \<Rightarrow> rstr) \<Rightarrow> uuid option \<Rightarrow> uuid \<Rightarrow> resolved_compose option
    \<Rightarrow> action_plan \<Rightarrow> image_reply_params option \<Rightarrow> rstr \<Rightarrow> delegated_image_prompt \<times> compose_event \<times> generation_record list" where
  "build_delegated_image_prompt_for from_str up payload wrap event_id sess c plan req_image source =
     (let (style, aspect) = resolve_image_turn_inputs plan req_image;
          run = (case c of
            Some c \<Rightarrow> run_image_prompt_compose from_str up (Some sess) c (payload style aspect) COMPOSE_TASK
          | None \<Rightarrow> side_start);
          subject = (case sd_outcome run of Some x \<Rightarrow> cp_prompt x | None \<Rightarrow> []);
          caption = Option.bind (sd_outcome run) cp_caption;
          variant = Option.bind (sd_outcome run) cp_variant;
          model = map_option cp_model (sd_outcome run);
          gid = Option.bind (sd_outcome run) cp_generation_id;
          composed_prompt = wrap style subject;
          status = (if model \<noteq> None then str ''ok'' else if c \<noteq> None then str ''exhausted'' else str ''not_configured'');
          (attempts, gateways) = split_failures (sd_failures run)
      in (\<lparr>di_subject = subject, di_caption = caption, di_aspect_ratio = aspect, di_composed_prompt = composed_prompt,
           di_compose_variant = variant, di_compose_model = model, di_compose_generation_id = gid,
           di_compose_event_id = event_id, di_failures = sd_failures run\<rparr>,
          \<lparr>ce_source = source, ce_status = status, ce_subject = (if subject = [] then None else Some subject),
           ce_caption = caption, ce_composed_prompt = Some composed_prompt, ce_variant = variant,
           ce_generation_id = or_else gid (sd_last_generation_id run), ce_attempts = sd_attempts run,
           ce_last_failure = sd_last_failure run, ce_llm_attempts = attempts, ce_gateway_errors = gateways\<rparr>,
          sd_recorded run))"

end
