(* ===== verification/Side_Calls_Laws.thy ===== *)
theory Side_Calls_Laws
  imports Side_Calls
begin

text \<open>
  What a chain of one-shot calls leaves: which models it called, what it accepted, and what its audit row
  says; and that the input filter takes the first answer as final.
\<close>

section \<open>The walk\<close>

definition outcomes :: "(nat \<Rightarrow> rstr \<Rightarrow> 'a side_outcome) \<Rightarrow> rstr list \<Rightarrow> nat \<Rightarrow> 'a side_outcome list" where
  "outcomes attempt ms i = map (\<lambda>(j, m). attempt j m) (enumerate i ms)"

definition tried :: "'a side_outcome list \<Rightarrow> 'a side_outcome list" where
  "tried os = take (Suc (length (takeWhile (\<lambda>o'. \<not> side_settled o') os))) os"

lemma outcomes_simps [simp]: "outcomes attempt [] i = []"
  "outcomes attempt (m # ms) i = attempt i m # outcomes attempt ms (Suc i)"
  by (simp_all add: outcomes_def)

lemma tried_simps [simp]: "tried [] = []" "tried (x # xs) = x # (if side_settled x then [] else tried xs)"
  by (simp_all add: tried_def)

lemma side_walk_tried: "side_walk attempt i ms w = fold side_note (tried (outcomes attempt ms i)) w"
  by (induction attempt i ms w rule: side_walk.induct) (simp_all add: Let_def)

fun side_failure :: "'a side_outcome \<Rightarrow> attempt_failure list" where
  "side_failure (SideFailed f) = [f]" | "side_failure _ = []"

fun side_record :: "'a side_outcome \<Rightarrow> generation_record list" where
  "side_record (SideFailed f) = []"
| "side_record (SideRejected reason gen gid) = [gen]"
| "side_record (SideSettled x gen) = [gen]"

text \<open>Why the last model was walked past, and the id of its answer.\<close>

fun rejection :: "attempt_failure list \<Rightarrow> 'a side_outcome \<Rightarrow> rstr option" where
  "rejection fs (SideFailed f) = Some (operation_failure_pointer fs)"
| "rejection fs (SideRejected reason gen gid) = Some reason"
| "rejection fs (SideSettled x gen) = None"

fun rejected_id :: "'a side_outcome \<Rightarrow> rstr option" where
  "rejected_id (SideRejected reason gen gid) = gid" | "rejected_id _ = None"

fun settled_value :: "'a side_outcome \<Rightarrow> 'a option" where
  "settled_value (SideSettled x gen) = Some x" | "settled_value _ = None"

definition side_report :: "'a side_outcome list \<Rightarrow> 'a side_run \<Rightarrow> bool" where
  "side_report os run \<longleftrightarrow>
     (let fs = concat (map side_failure os)
      in sd_attempts run = length os \<and> sd_failures run = fs \<and> sd_recorded run = concat (map side_record os)
         \<and> sd_outcome run = (if os = [] then None else settled_value (last os))
         \<and> sd_last_failure run = (if os = [] then None else rejection fs (last os))
         \<and> sd_last_generation_id run = (if os = [] then None else rejected_id (last os)))"

lemma side_note_report:
  assumes "side_report os w" and "list_all (\<lambda>o'. \<not> side_settled o') os"
  shows "side_report (os @ [x]) (side_note x w)"
proof -
  have "os = [] \<or> \<not> side_settled (last os)" using assms(2) by (auto simp: list_all_iff)
  then have "sd_outcome w = None"
    using assms(1) by (cases "last os") (auto simp: side_report_def Let_def)
  then show ?thesis using assms(1) by (cases x) (simp_all add: side_report_def Let_def)
qed

lemma fold_note_report:
  assumes "side_report os w" and "list_all (\<lambda>o'. \<not> side_settled o') os"
  shows "side_report (os @ tried xs) (fold side_note (tried xs) w)"
  using assms
proof (induction xs arbitrary: os w)
  case (Cons x xs)
  note step = side_note_report [OF Cons.prems, of x]
  show ?case
  proof (cases "side_settled x")
    case True
    then show ?thesis using step by simp
  next
    case False
    have "list_all (\<lambda>o'. \<not> side_settled o') (os @ [x])" using Cons.prems(2) False by simp
    from Cons.IH [OF step this] False show ?thesis by simp
  qed
qed simp

lemma side_walk_report: "side_report (tried (outcomes attempt ms 0)) (side_walk attempt 0 ms side_start)"
  using fold_note_report [of "[]" side_start "outcomes attempt ms 0"]
  by (simp add: side_walk_tried side_report_def side_start_def Let_def)

text \<open>A chain of one-shot calls tries its models in order up to the first it can use: the attempts, the
  recorded generations and the failures are exactly those of the models tried; it has a
  value exactly when the last one settled it; and its audit names why the last was walked past (an upstream
  failure anywhere in the chain wins) and the id of its answer, when it was the answer that failed.\<close>

theorem side_audit_exact:
  "let os = tried (outcomes (\<lambda>i model. side_attempt VISION_TASK (Some sess) model (vision_judge cs from_str model)
         (up i (vision_req v url (trim caption) model))) (rp_model v # rp_fallback_model v) 0);
       run = run_vision cs from_str up sess v url caption; fs = concat (map side_failure os)
   in os \<noteq> [] \<and> sd_attempts run = length os \<and> sd_failures run = fs \<and> sd_recorded run = concat (map side_record os)
      \<and> sd_outcome run = settled_value (last os) \<and> sd_last_failure run = rejection fs (last os)
      \<and> sd_last_generation_id run = rejected_id (last os)
      \<and> list_all (\<lambda>o'. \<not> side_settled o') (butlast os)"
proof -
  let ?att = "\<lambda>i model. side_attempt VISION_TASK (Some sess) model (vision_judge cs from_str model)
         (up i (vision_req v url (trim caption) model))"
  let ?os = "tried (outcomes ?att (rp_model v # rp_fallback_model v) 0)"
  have "list_all (\<lambda>o'. \<not> side_settled o') (butlast (tried xs))" for xs :: "vision_outcome side_outcome list"
    by (induction xs) simp_all
  moreover have ne: "?os \<noteq> []" by simp
  moreover have "side_report ?os (run_vision cs from_str up sess v url caption)"
    unfolding run_vision_def by (rule side_walk_report)
  ultimately show ?thesis unfolding Let_def side_report_def by (simp only: if_False not_False_eq_True simp_thms)
qed

section \<open>The input filter\<close>

definition unanswered :: "reply_call \<Rightarrow> bool" where
  "unanswered c = (case c of Replied r recorded \<Rightarrow> trim (cr_reply r) = [] | _ \<Rightarrow> True)"

lemma input_outcome:
  "side_settled (side_attempt task sess m (input_judge cs from_str m) c) = (\<not> unanswered c)"
  by (cases c) (simp_all add: side_attempt_def unanswered_def input_judge_def Let_def)

text \<open>The rewrite a reply asks for.\<close>

definition rewrite_in :: "casing \<Rightarrow> (rstr \<Rightarrow> json option) \<Rightarrow> uuid \<Rightarrow> rstr \<Rightarrow> reply_call \<Rightarrow> input_rewrite option" where
  "rewrite_in cs from_str sess model c = (case c of
     Replied r recorded \<Rightarrow>
       (case input_judge cs from_str model (trim (cr_reply r)) r
               (record_generation recorded (side_generation INPUT_FILTER_TASK (Some sess) r)) of
          Inr x \<Rightarrow> x | Inl _ \<Rightarrow> None)
   | _ \<Rightarrow> None)"

definition usable_rewrite :: "casing \<Rightarrow> input_rewrite \<Rightarrow> bool" where
  "usable_rewrite cs rw \<longleftrightarrow> ir_rewritten_text rw \<noteq> [] \<and> trim (ir_rewritten_text rw) = ir_rewritten_text rw
     \<and> \<not> refusal_in_head cs (ir_rewritten_text rw)"

lemma rewrite_usable: "rewrite_in cs from_str sess model c = Some rw \<Longrightarrow> usable_rewrite cs rw"
  by (auto simp: rewrite_in_def input_judge_def usable_rewrite_def trim_trim rewrite_content_invalidity_def Let_def
      split: reply_call.splits option.splits if_splits)

lemma input_walk:
  "let att = (\<lambda>i model. side_attempt INPUT_FILTER_TASK (Some sess) model (input_judge cs from_str model) (call i model));
       cs' = map (\<lambda>(j, m). (m, call j m)) (enumerate i ms); k = length (takeWhile (\<lambda>(m, c). unanswered c) cs');
       run = side_walk att i ms w
   in sd_outcome w = None \<longrightarrow> sd_attempts run = sd_attempts w + min (Suc k) (length ms)
      \<and> input_rewrite_of run = (if k < length ms then (case cs' ! k of (m, c) \<Rightarrow> rewrite_in cs from_str sess m c) else None)"
proof (induction ms arbitrary: i w)
  case (Cons m ms)
  let ?c = "call i m"
  let ?o = "side_attempt INPUT_FILTER_TASK (Some sess) m (input_judge cs from_str m) ?c"
  show ?case
  proof (cases "unanswered ?c")
    case True
    then have "\<not> side_settled ?o" by (simp add: input_outcome)
    moreover from this have "sd_outcome (side_note ?o w) = sd_outcome w" "sd_attempts (side_note ?o w) = Suc (sd_attempts w)"
      by (cases ?o; simp add: Let_def)+
    ultimately show ?thesis using Cons.IH [of "Suc i" "side_note ?o w"] True by (simp add: Let_def)
  next
    case False
    then obtain r recorded where c: "?c = Replied r recorded" "trim (cr_reply r) \<noteq> []"
      by (cases ?c) (simp_all add: unanswered_def)
    then have "?o = SideSettled (rewrite_in cs from_str sess m ?c) (side_generation INPUT_FILTER_TASK (Some sess) r)"
      by (simp add: side_attempt_def rewrite_in_def input_judge_def Let_def)
    then show ?thesis using False by (simp add: Let_def input_rewrite_of_def split: option.split)
  qed
qed (simp add: input_rewrite_of_def)

text \<open>The input filter asks its models in turn only until one answers with text, and takes that
  answer as final: the input is rewritten as that model asks, or kept, and no later model is called, so a
  fallback never rewrites what an earlier model left alone. A rewrite is never blank, padded or a refusal.\<close>

theorem input_filter_definitive:
  "let chain = rp_model f # rp_fallback_model f;
       calls = map (\<lambda>(j, m). (m, up j (side_request INPUT_FILTER_TASK f (input_filter_payload transcript raw) m)))
                 (enumerate 0 chain);
       k = length (takeWhile (\<lambda>(m, c). unanswered c) calls);
       run = run_input_filter cs from_str up sess f transcript raw
   in sd_attempts run = min (Suc k) (length chain)
      \<and> input_rewrite_of run = (if k < length chain then (case calls ! k of (m, c) \<Rightarrow> rewrite_in cs from_str sess m c) else None)
      \<and> (case input_rewrite_of run of None \<Rightarrow> True | Some rw \<Rightarrow> usable_rewrite cs rw)"
proof -
  let ?chain = "rp_model f # rp_fallback_model f"
  let ?call = "\<lambda>j m. up j (side_request INPUT_FILTER_TASK f (input_filter_payload transcript raw) m)"
  let ?calls = "map (\<lambda>(j, m). (m, ?call j m)) (enumerate 0 ?chain)"
  let ?k = "length (takeWhile (\<lambda>(m, c). unanswered c) ?calls)"
  let ?run = "run_input_filter cs from_str up sess f transcript raw"
  have run: "sd_attempts ?run = min (Suc ?k) (length ?chain)"
    "input_rewrite_of ?run = (if ?k < length ?chain then (case ?calls ! ?k of (m, c) \<Rightarrow> rewrite_in cs from_str sess m c) else None)"
    using input_walk [of sess cs from_str ?call 0 ?chain side_start]
    unfolding Let_def run_input_filter_def by (simp_all add: side_start_def)
  moreover have "case input_rewrite_of ?run of None \<Rightarrow> True | Some rw \<Rightarrow> usable_rewrite cs rw"
    using rewrite_usable by (auto simp: run(2) split: option.split prod.split)
  ultimately show ?thesis unfolding Let_def by blast
qed

end
