(* ===== verification/Filter_Laws.thy ===== *)
theory Filter_Laws
  imports Filter_Stream
begin

text \<open>
  What the streaming output filter guarantees: streaming a rewrite accepts exactly what the gate accepts
  for the whole text, nothing that opens with a refusal is ever shown, what is shown of a served rewrite is
  the rewrite, and a chain ends in one verdict that accounts for every model it walked past.
\<close>

section \<open>Slices\<close>

lemma utf8_len_simps [simp]: "utf8_len [] = 0" "utf8_len (c # s) = utf8_width c + utf8_len s"
  "utf8_len (s @ t) = utf8_len s + utf8_len t"
  by (simp_all add: utf8_len_def)

lemma utf8_width_pos [simp]: "0 < utf8_width c"
  by (simp add: utf8_width_def)

lemma utf8_len_0 [simp]: "utf8_len s = 0 \<longleftrightarrow> s = []"
  by (cases s) auto

lemma byte_from_prefix: "byte_from (utf8_len u) (u @ t) = t"
  by (induction u) (auto, cases t, auto)

lemma emit_rest:
  assumes "prefix u s"
  shows "u @ (if utf8_len u < utf8_len s then byte_from (utf8_len u) s else []) = s"
  using assms by (auto simp: prefix_def byte_from_prefix)

lemma grown_stable: "prefix (cleaner_stable acc) (cleaner_stable (cleaner_push acc x))"
  "prefix (cleaner_stable acc) (full_clean acc)"
  using stable_continues [of acc x] stable_continues [of acc "[]"] by (simp_all add: cleaner_push_def)


section \<open>One attempt\<close>

lemma refusal_head_prefix:
  assumes "prefix s t" and "REFUSAL_HEAD_SCAN_CHARS \<le> length s"
  shows "refusal_in_head cs t = refusal_in_head cs s"
proof -
  obtain z where "t = s @ z" using assms(1) by (auto simp: prefix_def)
  then have "take REFUSAL_HEAD_SCAN_CHARS t = take REFUSAL_HEAD_SCAN_CHARS s" using assms(2) by simp
  then show ?thesis by (simp add: refusal_in_head_def)
qed

text \<open>While the attempt runs: what is out is what is stable, and it has passed the scan.\<close>

definition filter_ok :: "casing \<Rightarrow> filter_attempt \<Rightarrow> bool" where
  "filter_ok cs a \<longleftrightarrow> fs_abort a = None \<and> fs_failures a = []
     \<and> fs_emitted_len a = utf8_len (concat (fs_deltas a))
     \<and> (if fs_go a
        then concat (fs_deltas a) = cleaner_stable (fs_cleaner a)
          \<and> REFUSAL_HEAD_SCAN_CHARS \<le> length (cleaner_stable (fs_cleaner a))
          \<and> \<not> refusal_in_head cs (cleaner_stable (fs_cleaner a))
        else fs_deltas a = [] \<and> length (cleaner_stable (fs_cleaner a)) < REFUSAL_HEAD_SCAN_CHARS)"

text \<open>Aborted by the scan: nothing is out.\<close>

definition filter_refused :: "casing \<Rightarrow> filter_attempt \<Rightarrow> bool" where
  "filter_refused cs a \<longleftrightarrow> fs_abort a = Some (str ''refusal_pattern'') \<and> fs_deltas a = [] \<and> \<not> fs_go a \<and> fs_failures a = []
     \<and> REFUSAL_HEAD_SCAN_CHARS \<le> length (cleaner_stable (fs_cleaner a))
     \<and> refusal_in_head cs (cleaner_stable (fs_cleaner a))"

lemma filter_ok_new: "filter_ok cs filter_attempt_new"
proof -
  have "cleaner_stable [] = []"
    by (simp add: cleaner_stable_def full_clean_def clean_response_def trim_matches_def trim_end_matches_def
        strip_prefix_def FENCE_def trim_start_def)
  then show ?thesis by (simp add: filter_ok_def filter_attempt_new_def REFUSAL_HEAD_SCAN_CHARS_def)
qed

lemma filter_note_ok: "filter_ok cs (filter_note c a) = filter_ok cs a" "fs_cleaner (filter_note c a) = fs_cleaner a"
  by (simp_all add: filter_ok_def filter_note_def)

lemma filter_content_cleaner: "fs_cleaner (filter_content cs x a) = fs_cleaner a @ x"
  "fs_finish (filter_content cs x a) = fs_finish a"
  by (simp_all add: filter_content_def Let_def cleaner_push_def)

lemma filter_content_ok:
  assumes "filter_ok cs a"
  shows "filter_ok cs (filter_content cs x a) \<or> filter_refused cs (filter_content cs x a)"
proof (cases "fs_go a")
  case True
  let ?s = "cleaner_stable (fs_cleaner a)" let ?t = "cleaner_stable (fs_cleaner a @ x)"
  have p: "prefix ?s ?t" using stable_continues [of "fs_cleaner a" x] by simp
  have s: "concat (fs_deltas a) = ?s" "REFUSAL_HEAD_SCAN_CHARS \<le> length ?s" "\<not> refusal_in_head cs ?s"
    "fs_emitted_len a = utf8_len ?s" "fs_abort a = None" "fs_failures a = []"
    using assms True by (simp_all add: filter_ok_def)
  have t: "REFUSAL_HEAD_SCAN_CHARS \<le> length ?t" "\<not> refusal_in_head cs ?t"
    using refusal_head_prefix [OF p s(2)] s(2,3) prefix_length_le [OF p] by auto
  have rest: "?s @ (if utf8_len ?s < utf8_len ?t then byte_from (utf8_len ?s) ?t else []) = ?t"
    by (rule emit_rest [OF p])
  show ?thesis
  proof (cases "utf8_len ?s < utf8_len ?t")
    case True
    then show ?thesis using \<open>fs_go a\<close> s t rest
      by (simp add: filter_content_def Let_def cleaner_push_def filter_ok_def)
  next
    case False
    then have "?s = ?t" using rest by simp
    then show ?thesis using \<open>fs_go a\<close> s t False
      by (simp add: filter_content_def Let_def cleaner_push_def filter_ok_def)
  qed
next
  case False
  let ?t = "cleaner_stable (fs_cleaner a @ x)"
  have s: "fs_deltas a = []" "fs_emitted_len a = 0" "fs_abort a = None" "fs_failures a = []"
    using assms False by (simp_all add: filter_ok_def)
  show ?thesis
  proof (cases "REFUSAL_HEAD_SCAN_CHARS \<le> length ?t")
    case True
    then have "?t \<noteq> []" by (auto simp: REFUSAL_HEAD_SCAN_CHARS_def)
    moreover from this have "byte_from 0 ?t = ?t" by (cases ?t) auto
    ultimately show ?thesis using False s True
      by (simp add: filter_content_def Let_def cleaner_push_def filter_ok_def filter_refused_def)
  next
    case short: False
    then show ?thesis using False s
      by (simp add: filter_content_def Let_def cleaner_push_def filter_ok_def)
  qed
qed

lemmas filter_failed_simps = filter_failed_def failure_pointer_def

text \<open>The whole text against the gate.\<close>

definition whole_reason :: "casing \<Rightarrow> rstr \<Rightarrow> rstr option \<Rightarrow> rstr option" where
  "whole_reason cs full finish =
     (if full = [] then Some (str ''empty'') else filter_output_invalidity cs full finish)"

definition last_finish :: "delta_chunk list \<Rightarrow> rstr option \<Rightarrow> rstr option" where
  "last_finish chunks = fold (\<lambda>c f. or_else (dk_finish_reason c) f) chunks"

definition contents :: "delta_chunk list \<Rightarrow> rstr" where
  "contents chunks = concat (List.map_filter dk_content chunks)"

lemma contents_simps [simp]: "contents [] = []"
  "contents (c # chunks) = (case dk_content c of None \<Rightarrow> [] | Some x \<Rightarrow> x) @ contents chunks"
  by (simp_all add: contents_def List.map_filter_def split: option.splits)

lemma last_finish_simps [simp]: "last_finish [] f = f"
  "last_finish (c # chunks) f = last_finish chunks (or_else (dk_finish_reason c) f)"
  by (simp_all add: last_finish_def)

lemma long_is_valid:
  assumes "prefix s full" and "REFUSAL_HEAD_SCAN_CHARS \<le> length s" and "\<not> refusal_in_head cs s"
    and "finish \<noteq> Some (str ''content_filter'')"
  shows "whole_reason cs full finish = None"
proof -
  have long: "120 \<le> length full"
    using assms(2) prefix_length_le [OF assms(1)] by (simp add: REFUSAL_HEAD_SCAN_CHARS_def)
  then have "full \<noteq> []" "\<not> length full < MIN_FILTERED_OUTPUT_CHARS"
    by (auto simp: MIN_FILTERED_OUTPUT_CHARS_def)
  moreover have "\<not> refusal_in_head cs full"
    using refusal_head_prefix [OF assms(1,2), of cs] assms(3) by blast
  ultimately show ?thesis
    using assms(4) by (simp add: whole_reason_def filter_output_invalidity_def del: str_simps)
qed

lemma refused_is_invalid:
  assumes "prefix s full" and "REFUSAL_HEAD_SCAN_CHARS \<le> length s" and "refusal_in_head cs s"
  shows "whole_reason cs full finish \<noteq> None"
  using refusal_head_prefix [OF assms(1,2), of cs] assms(3)
  by (simp add: whole_reason_def filter_output_invalidity_def del: str_simps)

lemma filter_items_Cons:
  "filter_items cs model (Inr c # items) deadline a =
     (let a = filter_note c a;
          b = (case dk_content c of None \<Rightarrow> a | Some x \<Rightarrow> filter_content cs x a)
      in if fs_finish a = Some (str ''content_filter'') then a\<lparr>fs_abort := Some (str ''content_filter'')\<rparr>
         else if fs_abort b \<noteq> None then b else filter_items cs model items deadline b)"
  by (simp add: Let_def del: str_simps)

lemma filter_ok_abort: "filter_ok cs a \<Longrightarrow> fs_abort a = None"
  "filter_refused cs a \<Longrightarrow> fs_abort a = Some (str ''refusal_pattern'')"
  by (simp_all add: filter_ok_def filter_refused_def del: str_simps)

declare filter_items.simps [simp del]

lemma filter_items_gate:
  assumes "filter_ok cs a" and "fs_finish a \<noteq> Some (str ''content_filter'')"
  shows "attempt_reason cs (filter_items cs model (map Inr chunks) False a) = None
    \<longleftrightarrow> (\<forall>c \<in> set chunks. dk_finish_reason c \<noteq> Some (str ''content_filter''))
      \<and> whole_reason cs (full_clean (fs_cleaner a @ contents chunks)) (last_finish chunks (fs_finish a)) = None"
  using assms
proof (induction chunks arbitrary: a)
  case Nil
  show ?case
  proof (cases "fs_go a")
    case True
    have "prefix (cleaner_stable (fs_cleaner a)) (full_clean (fs_cleaner a))"
      using stable_continues [of "fs_cleaner a" "[]"] by simp
    from long_is_valid [OF this] Nil True filter_ok_abort(1) [OF Nil(1)] show ?thesis
      by (simp add: attempt_reason_def filter_items.simps filter_ok_def del: str_simps)
  next
    case False
    then show ?thesis using filter_ok_abort(1) [OF Nil(1)]
      by (simp add: attempt_reason_def filter_items.simps whole_reason_def Let_def del: str_simps)
  qed
next
  case (Cons c chunks)
  let ?a = "filter_note c a"
  have fin: "fs_finish ?a = or_else (dk_finish_reason c) (fs_finish a)" by (simp add: filter_note_def)
  show ?case
  proof (cases "fs_finish ?a = Some (str ''content_filter'')")
    case True
    then have "dk_finish_reason c = Some (str ''content_filter'')"
      using fin Cons.prems(2) by (simp add: or_else_def del: str_simps split: option.splits)
    then show ?thesis using True by (simp add: attempt_reason_def filter_items_Cons Let_def del: str_simps)
  next
    case False
    then have c: "dk_finish_reason c \<noteq> Some (str ''content_filter'')" using fin by (auto simp: or_else_def)
    show ?thesis
    proof (cases "dk_content c")
      case None
      have ok: "filter_ok cs ?a" using Cons.prems(1) by (simp add: filter_note_ok)
      then have "fs_abort ?a = None" by (rule filter_ok_abort)
      with None Cons.IH [OF ok False] False c fin show ?thesis
        by (simp add: filter_items_Cons filter_note_ok Let_def del: str_simps)
    next
      case (Some x)
      let ?b = "filter_content cs x ?a"
      have b: "fs_cleaner ?b = fs_cleaner a @ x" "fs_finish ?b = fs_finish ?a"
        by (simp_all add: filter_content_cleaner filter_note_ok)
      have "filter_ok cs ?b \<or> filter_refused cs ?b"
        using filter_content_ok Cons.prems(1) filter_note_ok(1) by blast
      then show ?thesis
      proof
        assume ok: "filter_ok cs ?b"
        then have "fs_abort ?b = None" by (rule filter_ok_abort)
        moreover have "fs_finish ?b \<noteq> Some (str ''content_filter'')" using False b by simp
        ultimately show ?thesis using Cons.IH [OF ok] False Some c b fin
          by (simp add: filter_items_Cons Let_def del: str_simps)
      next
        assume refused: "filter_refused cs ?b"
        have "prefix (cleaner_stable (fs_cleaner ?b)) (full_clean (fs_cleaner ?b @ contents chunks))"
          using stable_continues by blast
        from refused_is_invalid [OF this, of cs "last_finish chunks (fs_finish ?a)"] refused
        have "whole_reason cs (full_clean (fs_cleaner a @ contents (c # chunks))) (last_finish (c # chunks) (fs_finish a)) \<noteq> None"
          using Some b fin by (simp add: filter_refused_def del: str_simps)
        moreover have "filter_items cs model (map Inr (c # chunks)) False a = ?b"
          using False Some filter_ok_abort(2) [OF refused]
          by (simp add: filter_items_Cons Let_def del: str_simps)
        ultimately show ?thesis using filter_ok_abort(2) [OF refused]
          by (simp add: attempt_reason_def del: str_simps)
      qed
    qed
  qed
qed


text \<open>How an attempt can end: in a sound state, whatever cut it off, or refused with nothing out.\<close>

definition filter_end :: "casing \<Rightarrow> filter_attempt \<Rightarrow> bool" where
  "filter_end cs a \<longleftrightarrow> filter_ok cs (a\<lparr>fs_abort := None, fs_failures := []\<rparr>) \<or> filter_refused cs a"

lemma filter_end_of_ok: "filter_ok cs a \<Longrightarrow> filter_end cs (a\<lparr>fs_abort := r, fs_failures := fs\<rparr>)"
  by (simp add: filter_end_def filter_ok_def)

lemma filter_end_failed: "filter_ok cs a \<Longrightarrow> filter_end cs (filter_failed fail a)"
  by (simp add: filter_end_def filter_ok_def filter_failed_def)

lemma filter_items_end: "filter_ok cs a \<Longrightarrow> filter_end cs (filter_items cs model items deadline a)"
proof (induction items arbitrary: a)
  case Nil
  then show ?case using filter_end_failed
    by (auto simp: filter_items.simps filter_end_def filter_ok_def)
next
  case (Cons item items)
  show ?case
  proof (cases item)
    case (Inl e)
    then show ?thesis using Cons.prems filter_end_failed by (simp add: filter_items.simps)
  next
    case (Inr c)
    let ?a = "filter_note c a"
    let ?b = "case dk_content c of None \<Rightarrow> ?a | Some x \<Rightarrow> filter_content cs x ?a"
    have a: "filter_ok cs ?a" using Cons.prems by (simp add: filter_note_ok)
    have b: "filter_ok cs ?b \<or> filter_refused cs ?b"
      using a filter_content_ok [OF a] by (simp split: option.splits)
    have abort: "filter_end cs (?a\<lparr>fs_abort := r\<rparr>)" for r
      using a by (simp add: filter_end_def filter_ok_def)
    from b show ?thesis
    proof
      assume ok: "filter_ok cs ?b"
      show ?thesis using abort Cons.IH [OF ok] filter_ok_abort(1) [OF ok] Inr
        by (simp add: filter_items_Cons Let_def del: str_simps)
    next
      assume refused: "filter_refused cs ?b"
      then have "filter_end cs ?b" by (simp add: filter_end_def)
      then show ?thesis using abort filter_ok_abort(2) [OF refused] Inr
        by (simp add: filter_items_Cons Let_def del: str_simps)
    qed
  qed
qed

lemma filter_run_end: "filter_end cs (filter_run cs model run)"
  by (cases run) (simp_all add: filter_run_def filter_end_failed filter_items_end filter_ok_new)

lemma go_shown:
  assumes "filter_end cs a" and "fs_go a"
  shows "concat (fs_deltas a) = cleaner_stable (fs_cleaner a)" "fs_emitted_len a = utf8_len (concat (fs_deltas a))"
    "REFUSAL_HEAD_SCAN_CHARS \<le> length (concat (fs_deltas a))" "\<not> refusal_in_head cs (concat (fs_deltas a))"
    "prefix (concat (fs_deltas a)) (full_clean (fs_cleaner a))"
proof -
  have "filter_ok cs (a\<lparr>fs_abort := None, fs_failures := []\<rparr>)"
    using assms by (auto simp: filter_end_def filter_refused_def)
  then show "concat (fs_deltas a) = cleaner_stable (fs_cleaner a)" "fs_emitted_len a = utf8_len (concat (fs_deltas a))"
    "REFUSAL_HEAD_SCAN_CHARS \<le> length (concat (fs_deltas a))" "\<not> refusal_in_head cs (concat (fs_deltas a))"
    "prefix (concat (fs_deltas a)) (full_clean (fs_cleaner a))"
    using assms(2) stable_continues [of "fs_cleaner a" "[]"] by (simp_all add: filter_ok_def)
qed

lemma not_go_shown: "filter_end cs a \<Longrightarrow> \<not> fs_go a \<Longrightarrow> fs_deltas a = []"
  by (auto simp: filter_end_def filter_ok_def filter_refused_def)

text \<open>What an attempt showed and what was decided about it.\<close>

lemma shown_served:
  assumes "filter_end cs a" and "attempt_reason cs a = None"
  shows "concat (attempt_deltas cs a) = full_clean (fs_cleaner a) \<and> attempt_deltas cs a \<noteq> []
    \<and> prefix (fs_deltas a) (attempt_deltas cs a)
    \<and> \<not> refusal_in_head cs (full_clean (fs_cleaner a)) \<and> MIN_FILTERED_OUTPUT_CHARS \<le> length (full_clean (fs_cleaner a))"
proof (cases "fs_go a")
  case True
  note g = go_shown [OF assms(1) True]
  let ?u = "concat (fs_deltas a)" let ?full = "full_clean (fs_cleaner a)"
  have "?u @ (if utf8_len ?u < utf8_len ?full then byte_from (utf8_len ?u) ?full else []) = ?full"
    by (rule emit_rest [OF g(5)])
  then have "concat (attempt_deltas cs a) = ?full"
    using assms(2) True g(2) by (auto simp: attempt_deltas_def Let_def split: if_splits)
  moreover have "\<not> refusal_in_head cs ?full" using refusal_head_prefix [OF g(5,3), of cs] g(4) by blast
  moreover have "120 \<le> length ?full" using g(3) prefix_length_le [OF g(5)] by (simp add: REFUSAL_HEAD_SCAN_CHARS_def)
  moreover from this have "?full \<noteq> []" by auto
  ultimately show ?thesis using assms(2) True g(2)
    by (auto simp: attempt_deltas_def Let_def MIN_FILTERED_OUTPUT_CHARS_def)
next
  case False
  have "fs_deltas a = []" by (rule not_go_shown [OF assms(1) False])
  then show ?thesis using assms(2) False
    by (auto simp: attempt_deltas_def attempt_reason_def filter_output_invalidity_def Let_def
        simp del: str_simps split: option.splits if_splits)
qed

lemma shown_rejected:
  assumes "filter_end cs a" and "attempt_reason cs a \<noteq> None"
  shows "attempt_deltas cs a = fs_deltas a \<and> (fs_go a \<longleftrightarrow> fs_deltas a \<noteq> [])"
  using assms go_shown(3) [OF assms(1)] not_go_shown [OF assms(1)]
  by (auto simp: attempt_deltas_def Let_def REFUSAL_HEAD_SCAN_CHARS_def)

text \<open>C32: Streaming a rewrite decides as the gate decides on the whole text: a stream that ends by itself
  is served exactly when no chunk reported a content filter and the cleaned text passes the gate under
  the last finish reason. However the stream goes, whatever was shown of it is a prefix of its cleaned
  text, has at least 80 characters and opens with no refusal, so a refusal is never shown; and what was shown
  of a served rewrite is the whole of it.\<close>

theorem filter_stream_is_batch_gate:
  "(attempt_reason cs (filter_run cs model (Opened (map Inr chunks) False)) = None
      \<longleftrightarrow> list_all (\<lambda>c. dk_finish_reason c \<noteq> Some (str ''content_filter'')) chunks
        \<and> whole_reason cs (clean_response (trim (contents chunks))) (last_finish chunks None) = None)
   \<and> (let a = filter_run cs model run; shown = concat (attempt_deltas cs a)
      in (if attempt_deltas cs a = [] then attempt_reason cs a \<noteq> None
          else prefix shown (full_clean (fs_cleaner a)) \<and> MIN_FILTERED_OUTPUT_CHARS \<le> length shown
            \<and> \<not> refusal_in_head cs shown)
       \<and> shown = (if attempt_reason cs a = None then full_clean (fs_cleaner a) else concat (fs_deltas a)))"
proof (intro conjI)
  have "fs_cleaner filter_attempt_new = []" "fs_finish filter_attempt_new = None"
    by (simp_all add: filter_attempt_new_def)
  then show "attempt_reason cs (filter_run cs model (Opened (map Inr chunks) False)) = None
      \<longleftrightarrow> list_all (\<lambda>c. dk_finish_reason c \<noteq> Some (str ''content_filter'')) chunks
        \<and> whole_reason cs (clean_response (trim (contents chunks))) (last_finish chunks None) = None"
    using filter_items_gate [OF filter_ok_new, of cs model chunks]
    by (simp add: filter_run_def full_clean_def list_all_iff del: str_simps)
  let ?a = "filter_run cs model run"
  have e: "filter_end cs ?a" by (rule filter_run_end)
  show "let a = ?a; shown = concat (attempt_deltas cs a)
      in (if attempt_deltas cs a = [] then attempt_reason cs a \<noteq> None
          else prefix shown (full_clean (fs_cleaner a)) \<and> MIN_FILTERED_OUTPUT_CHARS \<le> length shown
            \<and> \<not> refusal_in_head cs shown)
       \<and> shown = (if attempt_reason cs a = None then full_clean (fs_cleaner a) else concat (fs_deltas a))"
  proof (cases "attempt_reason cs ?a")
    case None
    then show ?thesis using shown_served [OF e None] by (simp add: Let_def)
  next
    case (Some reason)
    then have r: "attempt_deltas cs ?a = fs_deltas ?a" "fs_go ?a \<longleftrightarrow> fs_deltas ?a \<noteq> []"
      using shown_rejected [OF e] by simp_all
    show ?thesis
    proof (cases "fs_go ?a")
      case True
      then show ?thesis using Some r go_shown [OF e True]
        by (simp add: Let_def REFUSAL_HEAD_SCAN_CHARS_def MIN_FILTERED_OUTPUT_CHARS_def)
    next
      case False
      then show ?thesis using Some r by (simp add: Let_def)
    qed
  qed
qed

section \<open>The chain\<close>

text \<open>The text of the bubble a client has open: an aborted attempt that had shown text closes it.\<close>

fun bubble_text :: "filter_event list \<Rightarrow> rstr \<Rightarrow> rstr" where
  "bubble_text [] t = t"
| "bubble_text (FilterDelta x # evs) t = bubble_text evs (t @ x)"
| "bubble_text (AttemptAborted had_emitted # evs) t = bubble_text evs (if had_emitted then [] else t)"
| "bubble_text (Served out # evs) t = bubble_text evs t"
| "bubble_text (FailOpen fail # evs) t = bubble_text evs t"
| "bubble_text (FilterRecorded g # evs) t = bubble_text evs t"

text \<open>Whether that bubble has been written to.\<close>

fun streamed_of :: "filter_event list \<Rightarrow> bool \<Rightarrow> bool" where
  "streamed_of [] s = s"
| "streamed_of (FilterDelta x # evs) s = streamed_of evs True"
| "streamed_of (AttemptAborted had_emitted # evs) s = streamed_of evs (s \<and> \<not> had_emitted)"
| "streamed_of (Served out # evs) s = streamed_of evs s"
| "streamed_of (FailOpen fail # evs) s = streamed_of evs s"
| "streamed_of (FilterRecorded g # evs) s = streamed_of evs s"

fun is_verdict :: "filter_event \<Rightarrow> bool" where
  "is_verdict (Served _) = True"
| "is_verdict (FailOpen _) = True"
| "is_verdict _ = False"


definition filter_try :: "casing \<Rightarrow> stream_fn \<Rightarrow> resolved_output_filter \<Rightarrow> rstr \<Rightarrow> nat \<Rightarrow> rstr \<Rightarrow> filter_attempt" where
  "filter_try cs up f original i model =
     filter_run cs model (ar_stream (up i model (filter_request f original model)))"

fun filter_verdicts :: "casing \<Rightarrow> stream_fn \<Rightarrow> resolved_output_filter \<Rightarrow> rstr \<Rightarrow> nat \<Rightarrow> rstr list \<Rightarrow> rstr option list" where
  "filter_verdicts cs up f original i [] = []"
| "filter_verdicts cs up f original i (model # ms) =
     attempt_reason cs (filter_try cs up f original i model) # filter_verdicts cs up f original (Suc i) ms"

text \<open>The verdict a chain ends in, given what came before: the models walked past, and why.\<close>

definition walked_past :: "rstr list \<Rightarrow> rstr option list \<Rightarrow> filter_attempt_failure list \<Rightarrow> bool" where
  "walked_past ms vs attempts \<longleftrightarrow> map faf_model attempts = ms \<and> map (\<lambda>x. Some (faf_reason x)) attempts = vs"

definition good_verdict :: "nat \<Rightarrow> rstr list \<Rightarrow> rstr option list \<Rightarrow> rstr \<Rightarrow> filter_event \<Rightarrow> bool" where
  "good_verdict k chain vs shown v = (case v of
     Served out \<Rightarrow> k < length chain \<and> fo_retries_filter out = k \<and> walked_past (take k chain) (take k vs) (fo_attempts out)
       \<and> fo_filtered_text out = shown \<and> shown \<noteq> []
   | FailOpen fail \<Rightarrow> k = length chain \<and> walked_past chain vs (ff_attempts fail) \<and> shown = []
   | _ \<Rightarrow> False)"

lemma bubble_deltas: "bubble_text (map FilterDelta ds @ evs) t = bubble_text evs (t @ concat ds)"
  by (induction ds arbitrary: t) simp_all

lemma streamed_deltas: "streamed_of (map FilterDelta ds @ evs) s = streamed_of evs (s \<or> ds \<noteq> [])"
  by (induction ds arbitrary: s) simp_all

lemma no_verdict_deltas: "list_all (\<lambda>e. \<not> is_verdict e) (map FilterDelta ds)"
  by (induction ds) simp_all

lemma filter_walk_exact:
  assumes "walked_past done_ms done_vs attempts" and "length done_ms = i"
  shows "\<exists>init v. filter_walk cs up sess f original f_id i ms attempts failures = init @ [v]
    \<and> list_all (\<lambda>e. \<not> is_verdict e) init
    \<and> good_verdict (i + length (takeWhile (\<lambda>r. r \<noteq> None) (filter_verdicts cs up f original i ms)))
        (done_ms @ ms) (done_vs @ filter_verdicts cs up f original i ms)
        (bubble_text (filter_walk cs up sess f original f_id i ms attempts failures) []) v
    \<and> (streamed_of (filter_walk cs up sess f original f_id i ms attempts failures) False
       \<longleftrightarrow> bubble_text (filter_walk cs up sess f original f_id i ms attempts failures) [] \<noteq> [])"
  using assms
proof (induction ms arbitrary: i attempts failures done_ms done_vs)
  case Nil
  then show ?case by (simp add: good_verdict_def)
next
  case (Cons model ms)
  let ?run = "up i model (filter_request f original model)"
  let ?a = "filter_try cs up f original i model"
  have a: "filter_run cs model (ar_stream ?run) = ?a" by (simp add: filter_try_def)
  have e: "filter_end cs ?a" by (simp add: filter_try_def filter_run_end)
  show ?case
  proof (cases "attempt_reason cs ?a")
    case None
    have sh: "concat (attempt_deltas cs ?a) = full_clean (fs_cleaner ?a)" "prefix (fs_deltas ?a) (attempt_deltas cs ?a)"
      "MIN_FILTERED_OUTPUT_CHARS \<le> length (full_clean (fs_cleaner ?a))"
      using shown_served [OF e None] by simp_all
    obtain z where z: "attempt_deltas cs ?a = fs_deltas ?a @ z" using sh(2) by (auto simp: prefix_def)
    have ne: "full_clean (fs_cleaner ?a) \<noteq> []" using sh(3) by (auto simp: MIN_FILTERED_OUTPUT_CHARS_def)
    have dne: "attempt_deltas cs ?a \<noteq> []" using shown_served [OF e None] by simp
    have len: "length done_vs = i" "length attempts = i"
      using Cons.prems by (auto simp: walked_past_def dest: arg_cong [where f = length])
    show ?thesis
      using None Cons.prems sh(1) z ne len dne no_verdict_deltas
      by (simp add: a Let_def bubble_deltas streamed_deltas good_verdict_def)
  next
    case (Some reason)
    have r: "fs_go ?a \<longleftrightarrow> fs_deltas ?a \<noteq> []" using shown_rejected [OF e] Some by simp
    let ?at = "attempts @ [\<lparr>faf_model = model, faf_reason = reason, faf_emitted = fs_go ?a\<rparr>]"
    have "walked_past (done_ms @ [model]) (done_vs @ [Some reason]) ?at" "length (done_ms @ [model]) = Suc i"
      using Cons.prems by (simp_all add: walked_past_def)
    from Cons.IH [OF this, of "failures @ fs_failures ?a"]
    obtain init v where iv:
      "filter_walk cs up sess f original f_id (Suc i) ms ?at (failures @ fs_failures ?a) = init @ [v]"
      "list_all (\<lambda>e. \<not> is_verdict e) init"
      "good_verdict (Suc i + length (takeWhile (\<lambda>r. r \<noteq> None) (filter_verdicts cs up f original (Suc i) ms)))
        ((done_ms @ [model]) @ ms) ((done_vs @ [Some reason]) @ filter_verdicts cs up f original (Suc i) ms)
        (bubble_text (filter_walk cs up sess f original f_id (Suc i) ms ?at (failures @ fs_failures ?a)) []) v"
      "streamed_of (filter_walk cs up sess f original f_id (Suc i) ms ?at (failures @ fs_failures ?a)) False
        \<longleftrightarrow> bubble_text (filter_walk cs up sess f original f_id (Suc i) ms ?at (failures @ fs_failures ?a)) [] \<noteq> []"
      by blast
    let ?pre = "map FilterDelta (fs_deltas ?a) @ [FilterRecorded (filter_generation sess model ?a), AttemptAborted (fs_go ?a)]"
    have w: "filter_walk cs up sess f original f_id i (model # ms) attempts failures = (?pre @ init) @ [v]"
      using Some iv(1) by (simp add: a Let_def)
    have b: "bubble_text ((?pre @ init) @ [v]) [] = bubble_text (init @ [v]) []"
      using r by (simp add: bubble_deltas)
    have st: "streamed_of ((?pre @ init) @ [v]) False = streamed_of (init @ [v]) False"
      using r by (simp add: streamed_deltas)
    have "list_all (\<lambda>e. \<not> is_verdict e) (?pre @ init)" using iv(2) no_verdict_deltas by simp
    moreover have "good_verdict (i + length (takeWhile (\<lambda>r. r \<noteq> None) (filter_verdicts cs up f original i (model # ms))))
        (done_ms @ model # ms) (done_vs @ filter_verdicts cs up f original i (model # ms))
        (bubble_text ((?pre @ init) @ [v]) []) v"
      using iv(1,3) Some unfolding b by simp
    moreover have "streamed_of ((?pre @ init) @ [v]) False \<longleftrightarrow> bubble_text ((?pre @ init) @ [v]) [] \<noteq> []"
      using iv(4) unfolding b st iv(1) .
    ultimately show ?thesis unfolding w by blast
  qed
qed

lemma run_filter_ends:
  "\<exists>init v. run_output_filter cs up sess f original f_id = init @ [v] \<and> list_all (\<lambda>e. \<not> is_verdict e) init
    \<and> good_verdict (length (takeWhile (\<lambda>r. r \<noteq> None) (filter_verdicts cs up f original 0 (rp_model f # rp_fallback_model f))))
        (rp_model f # rp_fallback_model f) (filter_verdicts cs up f original 0 (rp_model f # rp_fallback_model f))
        (bubble_text (run_output_filter cs up sess f original f_id) []) v
    \<and> (streamed_of (run_output_filter cs up sess f original f_id) False
       \<longleftrightarrow> bubble_text (run_output_filter cs up sess f original f_id) [] \<noteq> [])"
proof -
  have "walked_past [] [] []" by (simp add: walked_past_def)
  from filter_walk_exact [OF this, of 0 cs up sess f original f_id "rp_model f # rp_fallback_model f" "[]"]
  show ?thesis
    by (simp add: run_output_filter_def del: filter_walk.simps filter_verdicts.simps)
qed

text \<open>The filter chain ends in exactly one verdict, its last event. It serves the first model whose
  rewrite is accepted, and then the bubble the client has open holds exactly the served text, which is not
  empty; it falls open when every model is walked past, and then the client's bubble is empty, so
  the original can be shown in it. Either verdict names every model walked past, in order, with its reason.\<close>

theorem filter_chain_exact:
  "let chain = rp_model f # rp_fallback_model f;
       evs = run_output_filter cs up sess f original f_id;
       vs = filter_verdicts cs up f original 0 chain
   in evs \<noteq> [] \<and> list_all (\<lambda>e. \<not> is_verdict e) (butlast evs)
    \<and> good_verdict (length (takeWhile (\<lambda>r. r \<noteq> None) vs)) chain vs (bubble_text evs []) (last evs)"
proof -
  from run_filter_ends [of cs up sess f original f_id]
  obtain init v where "run_output_filter cs up sess f original f_id = init @ [v]"
    "list_all (\<lambda>e. \<not> is_verdict e) init"
    "good_verdict (length (takeWhile (\<lambda>r. r \<noteq> None) (filter_verdicts cs up f original 0 (rp_model f # rp_fallback_model f))))
      (rp_model f # rp_fallback_model f) (filter_verdicts cs up f original 0 (rp_model f # rp_fallback_model f))
      (bubble_text (run_output_filter cs up sess f original f_id) []) v"
    by blast
  then show ?thesis by (simp add: Let_def del: filter_verdicts.simps)
qed

end
