(* ===== verification/Chat_Burst.thy ===== *)
theory Chat_Burst
  imports Filter_Laws
begin

text \<open>
  One reply of a chat turn (\<open>drive_chat_burst_for\<close> of
  \<open>crates/eros-engine-server/src/pipeline/stream.rs\<close>): the walk over the chain of models, streaming
  live or buffered behind the output filter, the frames it yields, the rows it inserts and the outcome
  it leaves, with the chain itself from \<open>byok.rs\<close>. A burst keeps a log of what it does in order: frames
  yielded, assistant rows inserted, generations recorded; an insert that fails is logged by the code and
  otherwise ignored. The n-th id a burst mints is the n-th number it has not used. Metrics and traces are
  left out; counters do not overflow.
\<close>

section \<open>The chain\<close>

record byok_turn =
  bt_model :: model_spec
  bt_fallback :: "rstr list"
  bt_retry_depth :: nat
  bt_rules :: "regex_rule list"
  bt_fallback_to_platform :: bool

record chat_hop =
  hop_slug :: rstr
  hop_audit :: rstr
  hop_byok :: "byok_turn option"

definition hop_rules :: "chat_hop \<Rightarrow> regex_rule list \<Rightarrow> regex_rule list" where
  "hop_rules hop platform = (case hop_byok hop of None \<Rightarrow> platform | Some b \<Rightarrow> bt_rules b)"

definition AUDIT_LABEL :: rstr where "AUDIT_LABEL = str ''byok''"

definition audit_slug :: "rstr \<Rightarrow> rstr" where
  "audit_slug slug = escape_model_id (bare_model_id slug) @ 64 # AUDIT_LABEL"

text \<open>The selected primary first, then the fallbacks without it; selecting moves the cursor.\<close>

definition select_slugs :: "(f64 \<Rightarrow> f64) \<Rightarrow> byok_turn \<Rightarrow> rstr list \<times> byok_turn" where
  "select_slugs draw b = (case select_model draw (bt_model b) of
     (None, spec) \<Rightarrow> ([], b\<lparr>bt_model := spec\<rparr>)
   | (Some primary, spec) \<Rightarrow>
       (primary # take (bt_retry_depth b) (filter (\<lambda>m. m \<noteq> primary) (bt_fallback b)), b\<lparr>bt_model := spec\<rparr>))"

definition reply_chain :: "(f64 \<Rightarrow> f64) \<Rightarrow> chat_request \<Rightarrow> byok_turn option \<Rightarrow> chat_hop list" where
  "reply_chain draw req byok =
     (let platform = map (\<lambda>s. \<lparr>hop_slug = s, hop_audit = s, hop_byok = None\<rparr>)
            (filter (\<lambda>s. s \<noteq> []) (req_model req # req_fallback_model req))
      in case byok of
           None \<Rightarrow> platform
         | Some b \<Rightarrow>
             (let (slugs, b') = select_slugs draw b;
                  hops = map (\<lambda>slug. \<lparr>hop_slug = slug, hop_audit = audit_slug slug, hop_byok = Some b'\<rparr>) slugs
              in if bt_fallback_to_platform b then hops @ platform else hops))"

datatype display_override =
    ShowBool bool | ShowFixed rstr | ShowRandom "rstr list" | ShowMap "(rstr \<times> rstr) list"

text \<open>\<open>pick\<close> is the position \<open>gen_range\<close> draws below a length.\<close>

definition display :: "(nat \<Rightarrow> nat) \<Rightarrow> display_override \<Rightarrow> rstr \<Rightarrow> rstr option" where
  "display pick d actual_model = (case d of
     ShowBool b \<Rightarrow> if b then Some actual_model else None
   | ShowFixed s \<Rightarrow> if s = [] then None else Some s
   | ShowRandom v \<Rightarrow> if v = [] then None else Some (v ! pick (length v))
   | ShowMap m \<Rightarrow> or_else (map_of m actual_model) (map_of m (str ''default'')))"

definition hop_display :: "(nat \<Rightarrow> nat) \<Rightarrow> chat_hop \<Rightarrow> display_override option \<Rightarrow> rstr \<Rightarrow> rstr option" where
  "hop_display pick hop dis bare =
     (if hop_byok hop \<noteq> None then Some bare else Option.bind dis (\<lambda>d. display pick d bare))"

section \<open>State\<close>

record produced_message =
  pm_message_id :: ulid
  pm_full_text :: rstr
  pm_action :: action_type

record burst_outcome =
  bo_produced :: "produced_message list"
  bo_filtered :: bool
  bo_retries_chat :: nat
  bo_retries_filter :: nat
  bo_ghost_fallback :: bool
  bo_failures :: "attempt_failure list"

definition default_outcome :: burst_outcome where
  "default_outcome = \<lparr>bo_produced = [], bo_filtered = False, bo_retries_chat = 0, bo_retries_filter = 0,
     bo_ghost_fallback = False, bo_failures = []\<rparr>"

datatype burst_act = Yield protocol_frame | Insert assistant_insert | RecordGen generation_record

record burst =
  b_next :: nat
  b_log :: "burst_act list"
  b_out :: burst_outcome

definition act :: "burst_act list \<Rightarrow> burst \<Rightarrow> burst" where
  "act xs b = b\<lparr>b_log := b_log b @ xs\<rparr>"

definition mint :: "burst \<Rightarrow> burst" where
  "mint b = b\<lparr>b_next := Suc (b_next b)\<rparr>"

definition set_out :: "(burst_outcome \<Rightarrow> burst_outcome) \<Rightarrow> burst \<Rightarrow> burst" where
  "set_out h b = b\<lparr>b_out := h (b_out b)\<rparr>"

text \<open>
  What a burst finds outside: the rules and settings of the deployment, the fallback phrase the table
  yields (\<open>None\<close> also when it cannot be read), the streams of the chat and the filter models, the printer
  of an id, and the two parameters of the scrubber.
\<close>

record burst_env =
  en_output_regex :: "regex_rule list"
  en_classify :: "rstr \<Rightarrow> rule_shape"
  en_bound :: "rstr \<Rightarrow> nat option"
  en_hidden :: "rstr list"
  en_phrase :: "rstr option"
  en_casing :: casing
  en_chat :: stream_fn
  en_filter :: stream_fn
  en_show :: "ulid \<Rightarrow> rstr"
  en_pick :: "nat \<Rightarrow> nat"

record burst_args =
  ba_session_id :: uuid
  ba_frame_action :: frame_action_type
  ba_persist_action :: rstr
  ba_plan_action :: action_type
  ba_req :: chat_request
  ba_display :: "display_override option"
  ba_filter :: "resolved_output_filter option"
  ba_trait_tags :: "rstr list"
  ba_tier :: "rstr option"
  ba_memory_scope :: memory_scope
  ba_affinity_scope :: affinity_scope
  ba_random_draw :: "f64 option"
  ba_speaker :: "uuid option"

definition task_name :: "burst_args \<Rightarrow> rstr" where
  "task_name p = (case req_task (ba_req p) of None \<Rightarrow> str ''chat_companion'' | Some t \<Rightarrow> t)"

definition filtered_mode :: "burst_args \<Rightarrow> bool" where
  "filtered_mode p = (case ba_filter p of
     None \<Rightarrow> False | Some f \<Rightarrow> turn_level_pass (ro_trigger f) (ba_random_draw p) (ba_trait_tags p))"

section \<open>Metadata\<close>

definition filter_attempt_json :: "filter_attempt_failure \<Rightarrow> json" where
  "filter_attempt_json x = JObj
     ([(str ''model'', JStr (faf_model x)), (str ''reason'', JStr (faf_reason x))]
      @ (if faf_emitted x then [(str ''emitted'', JBool True)] else []))"

definition scope_metadata :: "burst_args \<Rightarrow> (rstr \<times> json) list \<Rightarrow> (rstr \<times> json) list" where
  "scope_metadata p m =
     json_insert (str ''affinity_scope'') (affinity_scope_json (ba_affinity_scope p))
       (json_insert (str ''memory_scope'') (memory_scope_json (ba_memory_scope p))
         (json_insert (str ''prompt_traits'') (JArr (map JStr (ba_trait_tags p))) m))"

definition build_metadata :: "burst_args \<Rightarrow> filter_fail_open option \<Rightarrow> filter_attempt_failure list \<Rightarrow> json option" where
  "build_metadata p filter_failure filter_attempts =
     (let m = scope_metadata p [];
          m = opt_key (str ''tier'') (map_option JStr (ba_tier p)) m;
          m = (if filter_attempts = [] then m
               else json_insert (str ''filter_attempts'') (JArr (map filter_attempt_json filter_attempts)) m);
          m = (case filter_failure of None \<Rightarrow> m
               | Some fail \<Rightarrow> json_insert (str ''f_client_msg_id'') (JStr (ff_f_client_msg_id fail))
                   (json_insert (str ''filter_outcome'') (JStr (str ''fail_open'')) m))
      in Some (JObj m))"

definition fallback_metadata :: "burst_args \<Rightarrow> rstr \<Rightarrow> nat \<Rightarrow> json option" where
  "fallback_metadata p reason fallback_retries =
     Some (JObj (opt_key (str ''tier'') (map_option JStr (ba_tier p))
       (json_insert (str ''retries_chat'') (JNum (f64_of_int (int fallback_retries)))
         (scope_metadata p [(str ''fallback_reason'', JStr reason)]))))"

definition regex_json :: "nat list \<Rightarrow> json" where
  "regex_json hits = JArr (map (\<lambda>i. JNum (f64_of_int (int i))) hits)"

text \<open>The audit of a regex strip, with an id of its own.\<close>

definition f_id :: "burst_env \<Rightarrow> ulid \<Rightarrow> rstr" where
  "f_id env i = str ''f_'' @ en_show env i"

definition regex_audit :: "burst_env \<Rightarrow> nat list \<Rightarrow> rstr \<Rightarrow> burst \<Rightarrow> filter_audit option \<times> burst" where
  "regex_audit env hits raw b =
     (if hits = [] then (None, b)
      else (Some \<lparr>fa_pre_filter_content = raw, fa_filter_model = str ''<regex>'',
                  fa_filter_triggers = JObj [(str ''regex'', regex_json hits)],
                  fa_f_client_msg_id = f_id env (b_next b), fa_f_generation_id = None\<rparr>, mint b))"

section \<open>One chat generation\<close>

record chat_attempt =
  at_contents :: "rstr list"
  at_usage :: "json option"
  at_gen_id :: "rstr option"
  at_truncated :: bool
  at_failures :: "attempt_failure list"

definition chat_attempt_new :: chat_attempt where
  "chat_attempt_new = \<lparr>at_contents = [], at_usage = None, at_gen_id = None, at_truncated = False, at_failures = []\<rparr>"

definition at_acc :: "chat_attempt \<Rightarrow> rstr" where
  "at_acc a = concat (at_contents a)"

definition timeout_failure :: "rstr \<Rightarrow> rstr \<Rightarrow> gateway_kind \<Rightarrow> rstr \<Rightarrow> attempt_failure" where
  "timeout_failure task model kind message =
     Gateway \<lparr>ge_task = task, ge_model = Some model, ge_kind = kind, ge_message = message\<rparr>"

definition chat_failed :: "attempt_failure \<Rightarrow> chat_attempt \<Rightarrow> chat_attempt" where
  "chat_failed fail a = a\<lparr>at_truncated := True, at_failures := at_failures a @ [fail]\<rparr>"

definition chat_chunk :: "delta_chunk \<Rightarrow> chat_attempt \<Rightarrow> chat_attempt" where
  "chat_chunk c a = a\<lparr>at_contents := at_contents a @ (case dk_content c of None \<Rightarrow> [] | Some x \<Rightarrow> [x]),
     at_usage := or_else (dk_usage c) (at_usage a), at_gen_id := or_else (dk_generation_id c) (at_gen_id a),
     at_truncated := (at_truncated a \<or> dk_finish_reason c = Some (str ''length'')
       \<or> dk_finish_reason c = Some (str ''content_filter''))\<rparr>"

fun chat_items :: "rstr \<Rightarrow> rstr \<Rightarrow> (llm_error + delta_chunk) list \<Rightarrow> bool \<Rightarrow> chat_attempt \<Rightarrow> chat_attempt" where
  "chat_items task model [] deadline a =
     (if deadline then chat_failed (timeout_failure task model TotalTimeout (str ''stream total timeout after 120s'')) a
      else a)"
| "chat_items task model (Inl e # items) deadline a = chat_failed (from_llm_error task model e) a"
| "chat_items task model (Inr c # items) deadline a = chat_items task model items deadline (chat_chunk c a)"

definition chat_run :: "rstr \<Rightarrow> rstr \<Rightarrow> stream_run \<Rightarrow> chat_attempt" where
  "chat_run task model run = (case run of
     OpenFailed e \<Rightarrow> chat_failed (from_llm_error task model e) chat_attempt_new
   | OpenTimedOut \<Rightarrow> chat_failed (timeout_failure task model OpenTimeout (str ''stream open timeout after 20s'')) chat_attempt_new
   | Opened items deadline \<Rightarrow> chat_items task model items deadline chat_attempt_new)"

definition at_empty :: "chat_attempt \<Rightarrow> bool" where
  "at_empty a \<longleftrightarrow> \<not> at_truncated a \<and> at_acc a = []"

definition chat_generation :: "burst_args \<Rightarrow> chat_hop \<Rightarrow> chat_attempt \<Rightarrow> generation_record" where
  "chat_generation p hop a =
     \<lparr>gr_task = task_name p, gr_session_id = Some (ba_session_id p), gr_generation_id = at_gen_id a,
      gr_model = Some (hop_audit hop), gr_usage = at_usage a\<rparr>"

text \<open>The deltas a live attempt shows: what the scrubber lets out of each content, and its rest at the end.\<close>

fun scrub_emits :: "transform list \<Rightarrow> rstr list \<Rightarrow> rstr list" where
  "scrub_emits ts [] = [scrub_finish ts []]"
| "scrub_emits ts (x # xs) = (let (ts, out) = scrub_push ts x in out # scrub_emits ts xs)"

definition live_deltas :: "burst_env \<Rightarrow> chat_hop \<Rightarrow> chat_attempt \<Rightarrow> rstr list" where
  "live_deltas env hop a =
     filter (\<lambda>x. x \<noteq> [])
       (scrub_emits (scrubber_new (en_classify env) (en_bound env) (hop_rules hop (en_output_regex env))
          (bare_model_id (hop_slug hop))) (at_contents a))"


section \<open>Serving and settling a live attempt\<close>

definition strip_reply :: "burst_env \<Rightarrow> chat_hop \<Rightarrow> rstr \<Rightarrow> strip_outcome" where
  "strip_reply env hop acc = apply_output_regex (hop_rules hop (en_output_regex env)) (bare_model_id (hop_slug hop)) acc"

definition mark_filtered :: "nat list \<Rightarrow> burst \<Rightarrow> burst" where
  "mark_filtered hits b = (if hits = [] then b else set_out (\<lambda>out. out\<lparr>bo_filtered := True\<rparr>) b)"

text \<open>The text to keep, its audit, and whether the rules left nothing of it.\<close>

definition served_text :: "burst_env \<Rightarrow> burst_args \<Rightarrow> chat_hop \<Rightarrow> rstr \<Rightarrow> burst
    \<Rightarrow> rstr \<times> filter_audit option \<times> bool \<times> burst" where
  "served_text env p hop acc b =
     (let strip = strip_reply env hop acc;
          (audit, b) = regex_audit env (matched_rules strip) acc (mark_filtered (matched_rules strip) b)
      in (cleaned strip, audit,
          matched_rules strip \<noteq> [] \<and> cleaned strip = [] \<and> \<not> promises_image (ba_plan_action p), b))"

definition assistant_row :: "burst_args \<Rightarrow> ulid \<Rightarrow> rstr \<Rightarrow> ulid option \<Rightarrow> bool \<Rightarrow> rstr option \<Rightarrow> filter_audit option
    \<Rightarrow> json option \<Rightarrow> upstream_attempt list option \<times> gateway_error list option \<Rightarrow> assistant_insert" where
  "assistant_row p msg content continues truncated gen_id audit metadata fs =
     \<lparr>ai_id = msg, ai_content = content, ai_action_type = ba_persist_action p, ai_continues_from = continues,
      ai_truncated = truncated, ai_generation_id = gen_id, ai_filter_audit = audit, ai_metadata = metadata,
      ai_llm_attempts = fst fs, ai_gateway_errors = snd fs, ai_speaker = ba_speaker p\<rparr>"

definition push_produced :: "burst_args \<Rightarrow> ulid \<Rightarrow> rstr \<Rightarrow> burst \<Rightarrow> burst" where
  "push_produced p msg txt = set_out (\<lambda>out. out\<lparr>bo_produced := bo_produced out
     @ [\<lparr>pm_message_id = msg, pm_full_text = txt, pm_action = ba_plan_action p\<rparr>]\<rparr>)"

definition live_persist :: "burst_env \<Rightarrow> burst_args \<Rightarrow> chat_hop \<Rightarrow> bool \<Rightarrow> ulid \<Rightarrow> ulid option \<Rightarrow> chat_attempt \<Rightarrow> rstr
    \<Rightarrow> bool \<Rightarrow> bool \<Rightarrow> attempt_failure list \<Rightarrow> burst \<Rightarrow> bool \<times> burst" where
  "live_persist env p hop recorded msg continues a acc truncated ghost failures b =
     (let (content, audit, regex_ghost, b) = (if truncated then (acc, None, False, b) else served_text env p hop acc b);
          gen = chat_generation p hop a;
          gen_id = record_generation recorded gen;
          metadata = (if ghost then ghost_fallback_metadata (build_metadata p None []) (str ''empty_completion'')
                      else if regex_ghost then ghost_fallback_metadata (build_metadata p None []) (str ''regex_strip'')
                      else build_metadata p None []);
          row = assistant_row p msg content continues truncated gen_id audit metadata
                  (if truncated then (None, None) else split_failures failures);
          b = push_produced p msg content (act [RecordGen gen, Insert row] b)
      in (regex_ghost,
          act [Yield (Done msg truncated (filter_usage_keys (en_hidden env) (at_usage a)) gen_id (ghost \<or> regex_ghost))] b))"

text \<open>The accepted attempt: only its message is kept.\<close>

definition live_conclude :: "ulid \<Rightarrow> nat \<Rightarrow> bool \<Rightarrow> attempt_failure list \<Rightarrow> burst \<Rightarrow> burst" where
  "live_conclude msg retries ghost failures = set_out (\<lambda>out. out\<lparr>
     bo_produced := filter (\<lambda>m. pm_message_id m = msg) (bo_produced out), bo_retries_chat := retries,
     bo_ghost_fallback := (bo_ghost_fallback out \<or> ghost), bo_failures := failures\<rparr>)"

section \<open>A chain that is exhausted\<close>

definition chain_exhausted :: "rstr \<Rightarrow> nat \<Rightarrow> attempt_failure" where
  "chain_exhausted task chain_len =
     Gateway \<lparr>ge_task = task, ge_model = None, ge_kind = ChainExhausted,
              ge_message = str ''all '' @ decimal chain_len @ str '' candidates failed''\<rparr>"

text \<open>A bubble with a text of the engine's own: the row, the outcome, the three frames.\<close>

definition replacement :: "burst_args \<Rightarrow> rstr \<Rightarrow> rstr \<Rightarrow> nat \<Rightarrow> ulid option \<Rightarrow> nat \<Rightarrow> attempt_failure list \<Rightarrow> burst \<Rightarrow> burst" where
  "replacement p reason txt fallback_retries continues chain_len chain_failures b =
     (let msg = b_next b;
          failures = chain_failures @ [chain_exhausted (task_name p) chain_len];
          row = assistant_row p msg txt continues False None None (fallback_metadata p reason fallback_retries)
                  (split_failures failures);
          b = act [Insert row] (mint b);
          b = set_out (\<lambda>out. out\<lparr>bo_produced := [\<lparr>pm_message_id = msg, pm_full_text = txt, pm_action = ba_plan_action p\<rparr>],
                bo_failures := failures\<rparr>) b
      in act (map Yield [Meta msg (ba_frame_action p) None continues (ba_speaker p), Delta msg txt,
                Done msg False None None False]) b)"

definition garble_repaired_replacement :: "burst_args \<Rightarrow> rstr \<Rightarrow> nat \<Rightarrow> ulid option \<Rightarrow> nat \<Rightarrow> attempt_failure list
    \<Rightarrow> burst \<Rightarrow> burst" where
  "garble_repaired_replacement p = replacement p (str ''garble_repaired'')"

definition stream_failure_pseudo_ghost :: "burst_args \<Rightarrow> rstr \<Rightarrow> nat \<Rightarrow> ulid option \<Rightarrow> nat \<Rightarrow> attempt_failure list
    \<Rightarrow> burst \<Rightarrow> burst" where
  "stream_failure_pseudo_ghost p = replacement p (str ''stream_failure'')"

definition NO_MODELS_FRAME :: protocol_frame where
  "NO_MODELS_FRAME = ErrorFrame Internal False (str ''no models configured'')
     [26381, 21153, 20986, 29616, 38382, 39064, 65292, 35831, 31245, 21518, 20877, 35797] None None"

definition exhausted_frame :: "attempt_failure list \<Rightarrow> protocol_frame" where
  "exhausted_frame failures =
     (let (code, retryable, upstream_status, provider_code) = error_frame_fields_from_last failures
      in ErrorFrame code retryable (str ''all fallback models truncated'')
           [65, 73, 32, 26381, 21153, 26242, 26102, 19981, 21487, 29992, 65292, 31245, 21518, 20877, 35797]
           upstream_status provider_code)"

definition exhaust :: "burst_env \<Rightarrow> burst_args \<Rightarrow> bool \<Rightarrow> rstr option \<Rightarrow> ulid option \<Rightarrow> nat \<Rightarrow> attempt_failure list
    \<Rightarrow> burst \<Rightarrow> burst" where
  "exhaust env p byok_only garble continues n failures b =
     (let b = set_out (\<lambda>out. out\<lparr>bo_retries_chat := n - 1\<rparr>) b
      in case garble of
           Some repaired \<Rightarrow> garble_repaired_replacement p repaired (n - 1) continues n failures b
         | None \<Rightarrow> (case if byok_only then None else en_phrase env of
             Some phrase \<Rightarrow> stream_failure_pseudo_ghost p phrase (n - 1) continues n failures b
           | None \<Rightarrow> act [Yield (exhausted_frame failures)] b))"

section \<open>Live mode\<close>

definition chat_try :: "burst_env \<Rightarrow> burst_args \<Rightarrow> nat \<Rightarrow> chat_hop \<Rightarrow> attempt_run" where
  "chat_try env p i hop = en_chat env i (hop_slug hop) (ba_req p)"

definition chat_attempt_of :: "burst_env \<Rightarrow> burst_args \<Rightarrow> nat \<Rightarrow> chat_hop \<Rightarrow> chat_attempt" where
  "chat_attempt_of env p i hop = chat_run (task_name p) (hop_audit hop) (ar_stream (chat_try env p i hop))"

definition meta_frame :: "burst_env \<Rightarrow> burst_args \<Rightarrow> chat_hop \<Rightarrow> ulid \<Rightarrow> ulid option \<Rightarrow> protocol_frame" where
  "meta_frame env p hop msg continues = Meta msg (ba_frame_action p)
     (hop_display (en_pick env) hop (ba_display p) (bare_model_id (hop_slug hop))) continues (ba_speaker p)"

text \<open>What the walk remembers: the bubble before, the latest complete garble, the failures so far.\<close>

record live_state =
  lw_continues :: "ulid option"
  lw_garble :: "rstr option"
  lw_failures :: "attempt_failure list"

text \<open>The verdict on a live attempt: is it superseded, is it an empty reply that ends the chain.\<close>

definition live_garbled :: "chat_attempt \<Rightarrow> bool" where
  "live_garbled a \<longleftrightarrow> looks_byte_garbled (at_acc a)"

definition live_text :: "chat_attempt \<Rightarrow> rstr" where
  "live_text a = (if live_garbled a then repair_byte_bpe (at_acc a) else at_acc a)"

definition live_truncated :: "nat \<Rightarrow> nat \<Rightarrow> chat_attempt \<Rightarrow> bool" where
  "live_truncated n i a \<longleftrightarrow> at_truncated a \<or> live_garbled a \<or> (at_empty a \<and> Suc i < n)"

definition live_ghost :: "burst_args \<Rightarrow> nat \<Rightarrow> nat \<Rightarrow> chat_attempt \<Rightarrow> bool" where
  "live_ghost p n i a \<longleftrightarrow> at_empty a \<and> Suc i = n \<and> \<not> promises_image (ba_plan_action p)"

fun live_walk :: "burst_env \<Rightarrow> burst_args \<Rightarrow> bool \<Rightarrow> nat \<Rightarrow> nat \<Rightarrow> chat_hop list \<Rightarrow> live_state \<Rightarrow> burst \<Rightarrow> burst" where
  "live_walk env p byok_only n i [] w b = b"
| "live_walk env p byok_only n i (hop # rest) w b =
     (let msg = b_next b;
          a = chat_attempt_of env p i hop;
          b = act (Yield (meta_frame env p hop msg (lw_continues w))
                   # map (\<lambda>x. Yield (Delta msg x)) (live_deltas env hop a)) (mint b);
          failures = lw_failures w @ at_failures a;
          garble = (if live_garbled a \<and> \<not> at_truncated a then Some (live_text a) else lw_garble w);
          truncated = live_truncated n i a;
          ghost = live_ghost p n i a;
          (regex_ghost, b) = live_persist env p hop (ar_recorded (chat_try env p i hop)) msg (lw_continues w) a
                               (live_text a) truncated ghost failures b
      in if ghost then live_conclude msg (n - 1) True failures b
         else if \<not> truncated then live_conclude msg i regex_ghost failures b
         else if Suc i = n then exhaust env p byok_only garble (Some msg) n failures b
         else live_walk env p byok_only n (Suc i) rest
                \<lparr>lw_continues = Some msg, lw_garble = garble, lw_failures = failures\<rparr> b)"


section \<open>Filtered mode\<close>

text \<open>
  The bubble the filter streams into: its id, whether it already carries text, and the verdict of the
  chain. An aborted attempt that had shown text closes the bubble and opens a fresh one.
\<close>

record filter_drive =
  fd_ulid :: ulid
  fd_streamed :: bool
  fd_served :: "run_filter_outcome option"
  fd_failed :: "filter_fail_open option"

fun drive_filter :: "burst_env \<Rightarrow> burst_args \<Rightarrow> chat_hop \<Rightarrow> filter_event list \<Rightarrow> filter_drive \<Rightarrow> burst
    \<Rightarrow> filter_drive \<times> burst" where
  "drive_filter env p hop [] d b = (d, b)"
| "drive_filter env p hop (FilterDelta txt # evs) d b =
     drive_filter env p hop evs (d\<lparr>fd_streamed := True\<rparr>)
       (act [Yield (Delta (fd_ulid d) txt)] (set_out (\<lambda>out. out\<lparr>bo_filtered := True\<rparr>) b))"
| "drive_filter env p hop (AttemptAborted had_emitted # evs) d b =
     (if had_emitted
      then drive_filter env p hop evs (d\<lparr>fd_ulid := b_next b, fd_streamed := False\<rparr>)
        (act [Yield (Done (fd_ulid d) True None None False), Yield (meta_frame env p hop (b_next b) None)] (mint b))
      else drive_filter env p hop evs d b)"
| "drive_filter env p hop (Served out # evs) d b = drive_filter env p hop evs (d\<lparr>fd_served := Some out\<rparr>) b"
| "drive_filter env p hop (FailOpen fail # evs) d b = drive_filter env p hop evs (d\<lparr>fd_failed := Some fail\<rparr>) b"
| "drive_filter env p hop (FilterRecorded g # evs) d b = drive_filter env p hop evs d (act [RecordGen g] b)"

text \<open>\<open>FiredPredicates\<close> as \<open>filter_triggers\<close>.\<close>

definition trait_predicate_json :: "trait_predicate \<Rightarrow> json" where
  "trait_predicate_json tp = JObj [(str ''any'', JArr (map JStr (tp_any tp))),
     (str ''when'', JStr (case tp_when tp of Present \<Rightarrow> str ''present'' | Absent \<Rightarrow> str ''absent''))]"

definition fired_json :: "output_filter_trigger \<Rightarrow> (rstr \<times> json) list" where
  "fired_json t = field_of (str ''random'') (map_option JNum (ot_random t))
     @ field_of (str ''models'') (map_option (\<lambda>xs. JArr (map JStr xs)) (ot_models t))
     @ field_of (str ''traits'') (map_option trait_predicate_json (ot_traits t))"

definition filter_triggers_json :: "output_filter_trigger \<Rightarrow> nat list \<Rightarrow> json" where
  "filter_triggers_json h hits =
     (let triggers = (if hits = [] then fired_json h else json_insert (str ''regex'') (regex_json hits) (fired_json h))
      in if triggers = [] then JNull else JObj triggers)"

text \<open>
  What the client is to see of a reply: its text, the audit, why the filter fell open, and the attempts
  of the chain, with the bubble it stands in and the failures it adds.
\<close>

record shown_reply =
  sr_visible :: rstr
  sr_audit :: "filter_audit option"
  sr_fail :: "filter_fail_open option"
  sr_attempts :: "filter_attempt_failure list"
  sr_ulid :: ulid
  sr_streamed :: bool
  sr_failures :: "attempt_failure list"

definition unfiltered_reply :: "burst_env \<Rightarrow> nat list \<Rightarrow> rstr \<Rightarrow> rstr \<Rightarrow> ulid \<Rightarrow> bool \<Rightarrow> filter_fail_open option
    \<Rightarrow> burst \<Rightarrow> shown_reply \<times> burst" where
  "unfiltered_reply env hits raw visible msg streamed fail b =
     (let (audit, b) = regex_audit env hits raw b
      in (\<lparr>sr_visible = visible, sr_audit = audit, sr_fail = fail,
           sr_attempts = (case fail of None \<Rightarrow> [] | Some f \<Rightarrow> ff_attempts f), sr_ulid = msg, sr_streamed = streamed,
           sr_failures = (case fail of None \<Rightarrow> [] | Some f \<Rightarrow> ff_failures f)\<rparr>, b))"

text \<open>The rewrite. A chain always ends in a verdict; the code panics if it does not.\<close>

definition filtered_reply :: "burst_env \<Rightarrow> burst_args \<Rightarrow> chat_hop \<Rightarrow> resolved_output_filter \<Rightarrow> output_filter_trigger
    \<Rightarrow> strip_outcome \<Rightarrow> rstr \<Rightarrow> ulid \<Rightarrow> burst \<Rightarrow> shown_reply \<times> burst" where
  "filtered_reply env p hop f h strip raw msg b =
     (let evs = run_output_filter (en_casing env) (en_filter env) (ba_session_id p) f (cleaned strip) (f_id env (b_next b));
          (d, b) = drive_filter env p hop evs \<lparr>fd_ulid = msg, fd_streamed = False, fd_served = None, fd_failed = None\<rparr> (mint b)
      in case fd_served d of
           Some out \<Rightarrow>
             (\<lparr>sr_visible = fo_filtered_text out,
               sr_audit = Some \<lparr>fa_pre_filter_content = raw, fa_filter_model = fo_filter_model out,
                 fa_filter_triggers = filter_triggers_json h (matched_rules strip),
                 fa_f_client_msg_id = fo_f_client_msg_id out, fa_f_generation_id = fo_f_generation_id out\<rparr>,
               sr_fail = None, sr_attempts = fo_attempts out, sr_ulid = fd_ulid d, sr_streamed = fd_streamed d,
               sr_failures = fo_failures out\<rparr>,
              set_out (\<lambda>o'. o'\<lparr>bo_retries_filter := fo_retries_filter out\<rparr>) b)
         | None \<Rightarrow> unfiltered_reply env (matched_rules strip) raw (cleaned strip) (fd_ulid d) (fd_streamed d) (fd_failed d) b)"

definition shown_of :: "burst_env \<Rightarrow> burst_args \<Rightarrow> chat_hop \<Rightarrow> strip_outcome \<Rightarrow> rstr \<Rightarrow> ulid \<Rightarrow> burst
    \<Rightarrow> shown_reply \<times> burst" where
  "shown_of env p hop strip raw msg b =
     (if matched_rules strip \<noteq> [] \<and> cleaned strip = []
      then unfiltered_reply env (matched_rules strip) raw [] msg False None b
      else (case ba_filter p of
         None \<Rightarrow> unfiltered_reply env (matched_rules strip) raw (cleaned strip) msg False None b
       | Some f \<Rightarrow> (case should_filter (ro_trigger f) (bare_model_id (hop_slug hop)) (ba_trait_tags p) (ba_random_draw p) of
           None \<Rightarrow> unfiltered_reply env (matched_rules strip) raw (cleaned strip) msg False None b
         | Some h \<Rightarrow> filtered_reply env p hop f h strip raw msg b)))"

text \<open>Serving a buffered reply: Meta, the visible text, the row, Done.\<close>

definition filtered_serve :: "burst_env \<Rightarrow> burst_args \<Rightarrow> chat_hop \<Rightarrow> nat \<Rightarrow> ulid \<Rightarrow> chat_attempt \<Rightarrow> rstr option
    \<Rightarrow> rstr \<Rightarrow> attempt_failure list \<Rightarrow> burst \<Rightarrow> burst" where
  "filtered_serve env p hop i msg a gen_id acc chain_failures b =
     (let b = act [Yield (meta_frame env p hop msg None)] (set_out (\<lambda>out. out\<lparr>bo_retries_chat := i\<rparr>) b);
          strip = strip_reply env hop acc;
          (r, b) = shown_of env p hop strip acc msg (mark_filtered (matched_rules strip) b);
          failures = chain_failures @ sr_failures r;
          visible = sr_visible r;
          ghost = (visible = [] \<and> \<not> promises_image (ba_plan_action p));
          b = (if visible \<noteq> [] \<and> \<not> sr_streamed r then act [Yield (Delta (sr_ulid r) visible)] b else b);
          metadata = build_metadata p (sr_fail r) (sr_attempts r);
          row = assistant_row p (sr_ulid r) visible None False gen_id (sr_audit r)
                  (if ghost then ghost_fallback_metadata metadata (str ''regex_strip'') else metadata)
                  (split_failures failures);
          timing = (case ba_filter p of Some f \<Rightarrow> ro_timing f | None \<Rightarrow> AfterExtract);
          b = push_produced p (sr_ulid r) (extract_text timing (cleaned strip) visible) (act [Insert row] b);
          b = set_out (\<lambda>out. out\<lparr>bo_ghost_fallback := (bo_ghost_fallback out \<or> ghost), bo_failures := failures\<rparr>) b
      in act [Yield (Done (sr_ulid r) False (filter_usage_keys (en_hidden env) (at_usage a)) gen_id ghost)] b)"

text \<open>The last model answered with nothing: an empty row, silent unless a picture was promised.\<close>

definition filtered_empty :: "burst_env \<Rightarrow> burst_args \<Rightarrow> chat_hop \<Rightarrow> nat \<Rightarrow> chat_attempt \<Rightarrow> rstr option
    \<Rightarrow> attempt_failure list \<Rightarrow> burst \<Rightarrow> burst" where
  "filtered_empty env p hop n a gen_id failures b =
     (let msg = b_next b;
          ghost = (\<not> promises_image (ba_plan_action p));
          metadata = build_metadata p None [];
          row = assistant_row p msg [] None False gen_id None
                  (if ghost then ghost_fallback_metadata metadata (str ''empty_completion'') else metadata)
                  (split_failures failures);
          b = act [Insert row] (mint b);
          b = set_out (\<lambda>out. out\<lparr>bo_ghost_fallback := (bo_ghost_fallback out \<or> ghost), bo_retries_chat := n - 1,
                bo_failures := failures\<rparr>) (push_produced p msg [] b)
      in act [Yield (meta_frame env p hop msg None),
              Yield (Done msg False (filter_usage_keys (en_hidden env) (at_usage a)) gen_id ghost)] b)"

fun filtered_walk :: "burst_env \<Rightarrow> burst_args \<Rightarrow> bool \<Rightarrow> nat \<Rightarrow> nat \<Rightarrow> chat_hop list \<Rightarrow> attempt_failure list
    \<Rightarrow> burst \<Rightarrow> burst" where
  "filtered_walk env p byok_only n i [] failures b = b"
| "filtered_walk env p byok_only n i (hop # rest) failures b =
     (let msg = b_next b;
          a = chat_attempt_of env p i hop;
          failures = failures @ at_failures a;
          acc = live_text a;
          gen = chat_generation p hop a;
          gen_id = record_generation (ar_recorded (chat_try env p i hop)) gen;
          b = act [RecordGen gen] (mint b)
      in if at_empty a
         then (if Suc i = n then filtered_empty env p hop n a gen_id failures b
               else filtered_walk env p byok_only n (Suc i) rest failures b)
         else if at_truncated a
         then (if Suc i = n then exhaust env p byok_only None None n failures b
               else filtered_walk env p byok_only n (Suc i) rest failures b)
         else filtered_serve env p hop i msg a gen_id acc failures b)"

section \<open>The burst\<close>

definition byok_only :: "chat_hop list \<Rightarrow> bool" where
  "byok_only chain \<longleftrightarrow> chain \<noteq> [] \<and> hop_byok (last chain) \<noteq> None"

definition drive_chat_burst_for :: "burst_env \<Rightarrow> burst_args \<Rightarrow> chat_hop list \<Rightarrow> burst \<Rightarrow> burst" where
  "drive_chat_burst_for env p chain b =
     (if chain = [] then act [Yield NO_MODELS_FRAME] b
      else if filtered_mode p then filtered_walk env p (byok_only chain) (length chain) 0 chain [] b
      else live_walk env p (byok_only chain) (length chain) 0 chain
             \<lparr>lw_continues = None, lw_garble = None, lw_failures = []\<rparr> b)"

definition burst_start :: "nat \<Rightarrow> burst" where
  "burst_start n = \<lparr>b_next = n, b_log = [], b_out = default_outcome\<rparr>"

end
