(* ===== verification/Turn_Plan.thy ===== *)
theory Turn_Plan
  imports Judge
begin

text \<open>
  From a verdict to the plan a turn acts on (\<open>crates/eros-engine-server/src/pipeline/stream.rs\<close>): the
  sanitizer of judge prose, the guards on the proposed action, the ghosting switch, the forced
  picture, the refused give, the needs that are stored, and the audit payload. A panic is \<open>None\<close>.
\<close>

section \<open>Judge prose\<close>

text \<open>\<open>str::lines\<close>, \<open>split_whitespace\<close> and \<open>join\<close>.\<close>

definition strip_cr :: "rstr \<Rightarrow> rstr" where
  "strip_cr l = (case strip_suffix [13] l of Some x \<Rightarrow> x | None \<Rightarrow> l)"

definition str_lines :: "rstr \<Rightarrow> rstr list" where
  "str_lines s = (let ls = split_at_char 10 s in map strip_cr (butlast ls) @ (if last ls = [] then [] else [last ls]))"

fun split_whitespace :: "rstr \<Rightarrow> rstr list" where
  "split_whitespace [] = []"
| "split_whitespace (c # cs) =
     (if is_ws c then split_whitespace cs
      else (case cs of [] \<Rightarrow> [[c]]
        | d # _ \<Rightarrow> if is_ws d then [c] # split_whitespace cs
                 else (case split_whitespace cs of [] \<Rightarrow> [[c]] | w # ws \<Rightarrow> (c # w) # ws)))"

fun join_with :: "rstr \<Rightarrow> rstr list \<Rightarrow> rstr" where
  "join_with sep [] = []"
| "join_with sep [x] = x"
| "join_with sep (x # xs) = x @ sep @ join_with sep xs"

definition INNER_STATE_MAX_CHARS :: nat where "INNER_STATE_MAX_CHARS = 200"

definition structural_line :: "rstr \<Rightarrow> bool" where
  "structural_line l \<longleftrightarrow> prefix [91] l \<or> prefix (str ''---'') l \<or> prefix [35] l"

definition sanitize_inner_state :: "rstr \<Rightarrow> rstr" where
  "sanitize_inner_state raw =
     (let joined = join_with [32] (filter (\<lambda>l. \<not> structural_line l) (filter (\<lambda>l. l \<noteq> []) (map trim (str_lines raw))));
          no_brackets_or_ctrl = filter (\<lambda>c. c \<noteq> 91 \<and> c \<noteq> 93 \<and> \<not> is_control c) joined;
          collapsed = join_with [32] (split_whitespace no_brackets_or_ctrl)
      in take INNER_STATE_MAX_CHARS collapsed)"

section \<open>Guards\<close>

definition image_capability_available :: "bool \<Rightarrow> model_config \<Rightarrow> bool" where
  "image_capability_available executor_available cfg \<longleftrightarrow>
     executor_available \<and> mc_tasks cfg (str ''chat_image_prompt_compose'') \<noteq> None"

definition guard_action :: "pde_action \<Rightarrow> affinity \<Rightarrow> conversation_signals \<Rightarrow> bool \<Rightarrow> bool \<Rightarrow> bool \<Rightarrow> action_type" where
  "guard_action proposed aff signals image_executor_available product_qa_available action_turn = (case proposed of
     JGhost \<Rightarrow>
       if action_turn then ReplyText
       else if ghost_permitted aff \<lparr>gs_message_count = message_count signals,
                 gs_hours_since_last_ghost = hours_since_last_ghost signals\<rparr> then GhostTurn else ReplyText
   | JReplyImage \<Rightarrow> if image_executor_available then ReplyImage else ReplyText
   | JReplyTextImage \<Rightarrow> if image_executor_available then ReplyTextImage else ReplyText
   | JProductQa \<Rightarrow> if action_turn then ReplyText else if product_qa_available then ProductQa else ReplyText
   | JReplyText \<Rightarrow> ReplyText)"

definition apply_ghosting_killswitch :: "action_plan \<Rightarrow> bool \<Rightarrow> decision_input \<Rightarrow> rstr list \<Rightarrow> action_plan option" where
  "apply_ghosting_killswitch plan ghosting_enabled inp hints =
     (if \<not> ghosting_enabled \<and> plan_action_type plan = GhostTurn
      then plan_for inp ReplyText hints None None Face None None
      else Some plan)"

definition apply_give_refusal :: "action_plan \<Rightarrow> bool \<Rightarrow> action_plan" where
  "apply_give_refusal plan refused =
     (if refused \<and> plan_action_response plan \<noteq> None then plan\<lparr>plan_action_response := Some Refuse\<rparr> else plan)"

section \<open>The plan of a turn\<close>

text \<open>What the deployment and the request allow.\<close>

record turn_caps =
  tp_image_executor :: bool
  tp_product_qa :: bool
  tp_ghosting :: bool
  tp_force_image :: bool
  tp_give_refused :: bool

type_synonym pde_run = "pde_verdict judge_run"

definition verdict_hints :: "pde_verdict \<Rightarrow> rstr list" where
  "verdict_hints v = (let s = sanitize_inner_state (pv_inner_state v) in if s = [] then [] else [s])"

definition verdict_clothing :: "pde_verdict \<Rightarrow> rstr option" where
  "verdict_clothing v = (case pv_clothing v of None \<Rightarrow> None
     | Some c \<Rightarrow> if sanitize_inner_state c = [] then None else Some (sanitize_inner_state c))"

definition verdict_plan :: "turn_caps \<Rightarrow> decision_input \<Rightarrow> pde_verdict \<Rightarrow> action_plan option" where
  "verdict_plan caps inp v =
     (let action = guard_action (pv_action v) (in_affinity inp) (in_signals inp) (tp_image_executor caps)
            (tp_product_qa caps) (event_action (in_event inp) \<noteq> None);
          is_image = (action = ReplyImage \<or> action = ReplyTextImage)
      in plan_for inp action (verdict_hints v) (pv_reply_mode v) (verdict_clothing v)
           (if is_image then pv_image_ref v else Face) (if is_image then pv_aspect_ratio v else None)
           (pv_action_response v))"

text \<open>The judge's verdict when it is there, else the rule engine; and the hints the switch would keep.\<close>

definition judged_plan :: "turn_caps \<Rightarrow> decision_input \<Rightarrow> pde_run option \<Rightarrow> action_plan option \<times> rstr list" where
  "judged_plan caps inp run =
     (case run of
        None \<Rightarrow> (Some (pde_decide inp), [])
      | Some r \<Rightarrow> (case (jr_status r, jr_verdict r) of
          (PdeOk, Some v) \<Rightarrow> (verdict_plan caps inp v, verdict_hints v)
        | _ \<Rightarrow> (Some (pde_decide inp), [])))"

definition forced_image :: "decision_input \<Rightarrow> action_plan \<Rightarrow> action_plan option" where
  "forced_image inp plan = plan_for inp ReplyImage (plan_context_hints plan) (plan_reply_mode plan) (plan_clothing plan)
     Face None (plan_action_response plan)"

definition turn_plan :: "turn_caps \<Rightarrow> decision_input \<Rightarrow> pde_run option \<Rightarrow> action_plan option" where
  "turn_plan caps inp run =
     (let (plan, hints) = judged_plan caps inp run
      in Option.bind plan (\<lambda>plan.
         Option.bind (apply_ghosting_killswitch plan (tp_ghosting caps) inp hints) (\<lambda>plan.
         Option.bind (if tp_force_image caps then forced_image inp plan else Some plan) (\<lambda>plan.
           Some (apply_give_refusal plan (tp_give_refused caps))))))"

text \<open>The needs a turn stores, and those its reply is written with.\<close>

definition judged_needs :: "pde_run option \<Rightarrow> needs option \<Rightarrow> needs option" where
  "judged_needs run prior = Option.bind run (\<lambda>r. Option.bind (jr_verdict r) (\<lambda>v.
     map_option (\<lambda>n. resolve_needs n prior) (pv_needs v)))"

definition accepted_give :: "event \<Rightarrow> action_plan \<Rightarrow> given_item option" where
  "accepted_give e plan = (case (event_action e, plan_action_response plan) of
     (Some (Give item _ _), Some Accept) \<Rightarrow> Some item | _ \<Rightarrow> None)"

definition written_needs :: "event \<Rightarrow> action_plan \<Rightarrow> needs option \<Rightarrow> needs option \<Rightarrow> needs option" where
  "written_needs e plan prior judged = (case accepted_give e plan of
     Some item \<Rightarrow> after_give prior judged item | None \<Rightarrow> judged)"

definition turn_needs :: "event \<Rightarrow> action_plan \<Rightarrow> needs option \<Rightarrow> needs option \<Rightarrow> needs option" where
  "turn_needs e plan prior judged = or_else (written_needs e plan prior judged) prior"

text \<open>Whether the dice of the turn's nudges are rolled.\<close>

definition rolls_nudges :: "event \<Rightarrow> action_plan \<Rightarrow> bool" where
  "rolls_nudges e plan \<longleftrightarrow> plan_reply_mode plan = None \<and> bears_text (plan_action_type plan) \<and> event_action e = None"

section \<open>The audit of a judge run\<close>

definition verdict_needs_json :: "verdict_needs \<Rightarrow> json" where
  "verdict_needs_json n = JObj (
     [(str ''hunger'', JStr (need_level_as_str (vn_hunger n))), (str ''social'', JStr (need_level_as_str (vn_social n))),
      (str ''stamina'', JStr (need_level_as_str (vn_stamina n))), (str ''emotional'', JStr (need_level_as_str (vn_emotional n)))]
     @ field_of (str ''outing'') (map_option (\<lambda>l. JStr (need_level_as_str l)) (vn_outing n))
     @ field_of (str ''indulgence'') (map_option (\<lambda>l. JStr (need_level_as_str l)) (vn_indulgence n)))"

definition nudges_json :: "turn_nudges \<Rightarrow> json" where
  "nudges_json n = JObj [(str ''affirm'', JBool (affirm n)), (str ''share_slice'', JBool (share_slice n)),
     (str ''open_question'', JBool (open_question n))]"

definition verdict_audit :: "pde_verdict \<Rightarrow> reply_mode option \<Rightarrow> turn_nudges option \<Rightarrow> (rstr \<times> json) list" where
  "verdict_audit v mode nudges =
     [(str ''action'', JStr (pde_action_as_str (pv_action v))), (str ''inner_state'', JStr (pv_inner_state v))]
     @ field_of (str ''reply_mode'') (map_option (\<lambda>m. JStr (reply_mode_as_str m)) mode)
     @ [(str ''nudges'', (case nudges of None \<Rightarrow> JNull | Some n \<Rightarrow> nudges_json n))]
     @ field_of (str ''reason'') (map_option JStr (pv_reason v))
     @ [(str ''image_ref'', JStr (case pv_image_ref v of Face \<Rightarrow> str ''face'' | Previous \<Rightarrow> str ''previous''))]
     @ field_of (str ''aspect_ratio'') (map_option JStr (pv_aspect_ratio v))
     @ field_of (str ''clothing'') (map_option JStr (pv_clothing v))
     @ field_of (str ''action_response'') (map_option (\<lambda>r. JStr (action_response_as_str r)) (pv_action_response v))
     @ field_of (str ''needs'') (map_option verdict_needs_json (pv_needs v))"

definition pde_audit_payload :: "pde_run \<Rightarrow> reply_mode option \<Rightarrow> turn_nudges option \<Rightarrow> json option" where
  "pde_audit_payload run mode nudges =
     (let reasoning = (if jr_reasoning run = [] then None else Some (jr_reasoning run))
      in case (jr_verdict run, jr_raw run, reasoning) of
           (Some v, _, r) \<Rightarrow> Some (JObj (verdict_audit v mode nudges
              @ [(str ''reasoning'', (case r of None \<Rightarrow> JNull | Some x \<Rightarrow> JStr x))]))
         | (None, Some raw, None) \<Rightarrow> Some (JStr raw)
         | (None, Some raw, Some r) \<Rightarrow> Some (JObj [(str ''raw'', JStr raw), (str ''reasoning'', JStr r)])
         | (None, None, Some r) \<Rightarrow> Some (JObj [(str ''reasoning'', JStr r)])
         | (None, None, None) \<Rightarrow> None)"

definition action_type_audit_str :: "action_type \<Rightarrow> rstr" where
  "action_type_audit_str a = (case a of ReplyText \<Rightarrow> str ''reply_text'' | GhostTurn \<Rightarrow> str ''ghost''
     | ReplyImage \<Rightarrow> str ''reply_image'' | ReplyTextImage \<Rightarrow> str ''reply_text_image'' | Proactive \<Rightarrow> str ''proactive''
     | ProductQa \<Rightarrow> str ''product_qa'')"

end
