(* ===== verification/Turn_Acts.thy ===== *)
theory Turn_Acts
  imports Chat_Burst Side_Calls Turn_Plan Life_Events
begin

text \<open>
  What one chat turn does, and what it finds outside (\<open>crates/eros-engine-server/src/pipeline/stream.rs\<close>,
  with the persona settings and the nudge dice of \<open>prompt.rs\<close> and the signals of \<open>pipeline/mod.rs\<close>). A turn
  is a log of acts in order: frames yielded, rows written, generations recorded, background work started. A
  write that fails is traced by the code and otherwise ignored, but where the model says that its
  success matters.
\<close>

section \<open>Settings of the persona and the dice\<close>

definition as_bool_json :: "json \<Rightarrow> bool option" where
  "as_bool_json v = (case v of JBool b \<Rightarrow> Some b | _ \<Rightarrow> None)"

definition meta_value :: "companion_persona \<Rightarrow> rstr \<Rightarrow> json option" where
  "meta_value p key = json_get key (art_metadata (cp_genome p))"

definition meta_str :: "companion_persona \<Rightarrow> rstr \<Rightarrow> rstr option" where
  "meta_str p key = Option.bind (meta_value p key) as_str_json"

definition meta_bool :: "companion_persona \<Rightarrow> rstr \<Rightarrow> bool option" where
  "meta_bool p key = Option.bind (meta_value p key) as_bool_json"

definition persona_traits_of :: "companion_persona \<Rightarrow> persona_traits" where
  "persona_traits_of p =
     \<lparr>female = (meta_str p (str ''gender'') = Some (str ''female'')),
      pt_health = (case Option.bind (meta_str p (str ''health'')) health_parse of Some h \<Rightarrow> h | None \<Rightarrow> NormalHealth),
      prefer_trip = (meta_bool p (str ''prefer_trip'') = Some True),
      prefer_events = (case meta_value p (str ''prefer_events'') of
          Some (JArr vs) \<Rightarrow> filter (\<lambda>k. category k = Mid)
            (List.map_filter kind_parse (List.map_filter as_str_json vs))
        | _ \<Rightarrow> []),
      is_virgin = (meta_bool p (str ''is_virgin'') = Some True),
      homesick = meta_bool p (str ''homesick''), sex_addict = meta_bool p (str ''sex_addict'')\<rparr>"

definition persona_habits :: "companion_persona \<Rightarrow> habits" where
  "persona_habits p =
     \<lparr>smoking = meta_bool p (str ''smoking''), alcoholic = meta_bool p (str ''alcoholic''),
      drug = meta_bool p (str ''drug''), coffee = meta_bool p (str ''coffee'')\<rparr>"

text \<open>
  A die is thrown only where no axis in scope is cold: the draws are taken in order by those thrown, so
  a veto shifts the draws of the dice after it.
\<close>

definition WARMTH_COLD_FLOOR :: f64 where "WARMTH_COLD_FLOOR = flit 0.2"
definition TRUST_COLD_FLOOR :: f64 where "TRUST_COLD_FLOOR = flit 0.3"
definition INTRIGUE_COLD_FLOOR :: f64 where "INTRIGUE_COLD_FLOOR = flit 0.3"
definition NUDGE_AFFIRM_P :: f64 where "NUDGE_AFFIRM_P = flit 0.33"
definition NUDGE_SHARE_P :: f64 where "NUDGE_SHARE_P = flit 0.13"
definition NUDGE_QUESTION_P :: f64 where "NUDGE_QUESTION_P = flit 0.05"

definition throw :: "bool \<Rightarrow> f64 \<Rightarrow> (nat \<Rightarrow> f64) \<Rightarrow> nat \<Rightarrow> bool \<times> nat" where
  "throw veto p draws n = (if veto then (False, n) else (draws n < p, Suc n))"

definition roll_nudges :: "affinity option \<Rightarrow> affinity_scope \<Rightarrow> (nat \<Rightarrow> f64) \<Rightarrow> turn_nudges" where
  "roll_nudges aff scope draws =
     (let cold = (\<lambda>below. case aff of Some a \<Rightarrow> below a | None \<Rightarrow> False);
          (af, n) = throw (s_warmth scope \<and> cold (\<lambda>a. warmth a \<le> WARMTH_COLD_FLOOR)) NUDGE_AFFIRM_P draws 0;
          (sh, n) = throw (s_trust scope \<and> cold (\<lambda>a. trust a < TRUST_COLD_FLOOR)) NUDGE_SHARE_P draws n;
          (qu, n) = throw (s_intrigue scope \<and> cold (\<lambda>a. intrigue a < INTRIGUE_COLD_FLOOR)) NUDGE_QUESTION_P draws n
      in \<lparr>affirm = af, share_slice = sh, open_question = qu\<rparr>)"

text \<open>The count and the last instant of the user's earlier rows; a read that fails counts as none.\<close>

definition hours_between :: "instant \<Rightarrow> instant \<Rightarrow> f64" where
  "hours_between now t = fdiv (f64_of_int (num_minutes (now - t))) 60"

definition compute_signals :: "instant \<Rightarrow> affinity \<Rightarrow> (int \<times> instant option) option \<Rightarrow> conversation_signals" where
  "compute_signals now a counted =
     (let (count, last_time) = (case counted of Some x \<Rightarrow> x | None \<Rightarrow> (0, None))
      in \<lparr>message_count = count,
          hours_since_last_message = (case last_time of Some t \<Rightarrow> hours_between now t | None \<Rightarrow> 0),
          sig_ghost_streak = ghost_streak a,
          hours_since_last_ghost = map_option (hours_between now) (last_ghost_at a)\<rparr>)"

section \<open>The request of the judge\<close>

definition nullable :: "rstr \<Rightarrow> json" where
  "nullable ty = JArr [JStr ty, JStr (str ''null'')]"

definition schema_of :: "json \<Rightarrow> (rstr \<times> json) list \<Rightarrow> json" where
  "schema_of ty rest = JObj ((str ''type'', ty) # rest)"

definition enum_of :: "rstr list \<Rightarrow> json list \<Rightarrow> (rstr \<times> json) list" where
  "enum_of names rest = [(str ''enum'', JArr (map JStr names @ rest))]"

definition needs_schema :: json where
  "needs_schema =
     (let keys = [str ''hunger'', str ''social'', str ''stamina'', str ''emotional'', str ''outing'', str ''indulgence''];
          level = schema_of (JStr (str ''string'')) (enum_of [str ''low'', str ''mid'', str ''high''] [])
      in schema_of (nullable (str ''object''))
           [(str ''additionalProperties'', JBool False), (str ''required'', JArr (map JStr keys)),
            (str ''properties'', JObj (map (\<lambda>k. (k, level)) keys))])"

definition verdict_schema :: json where
  "verdict_schema =
     (let text = JStr (str ''string''); maybe = nullable (str ''string'');
          props = [(str ''action'', schema_of text (enum_of (map pde_action_as_str all_pde_actions) [])),
            (str ''inner_state'', schema_of text []),
            (str ''reply_mode'', schema_of maybe (enum_of [str ''listen'', str ''follow'', str ''ask'', str ''judge''] [JNull])),
            (str ''reason'', schema_of maybe []),
            (str ''image_ref'', schema_of text (enum_of [str ''face'', str ''previous''] [])),
            (str ''aspect_ratio'', schema_of maybe (enum_of [str ''1:1'', str ''3:4'', str ''4:3'', str ''9:16'', str ''16:9''] [JNull])),
            (str ''clothing'', schema_of maybe []),
            (str ''action_response'', schema_of maybe (enum_of [str ''accept'', str ''refuse''] [JNull])),
            (str ''needs'', needs_schema)]
      in schema_of (JStr (str ''object''))
           [(str ''additionalProperties'', JBool False), (str ''required'', JArr (map (JStr \<circ> fst) props)),
            (str ''properties'', JObj props)])"

definition pde_response_format :: json where
  "pde_response_format = schema_of (JStr (str ''json_schema''))
     [(str ''json_schema'', JObj [(str ''name'', JStr (str ''pde_verdict'')), (str ''strict'', JBool True),
        (str ''schema'', verdict_schema)])]"

definition PDE_TASK :: rstr where "PDE_TASK = str ''pde_decision''"

definition pde_call :: "uuid \<Rightarrow> resolved_judge \<Rightarrow> rstr \<Rightarrow> judge_call" where
  "pde_call sess p ctx =
     \<lparr>jc_task = PDE_TASK, jc_session_id = Some sess, jc_chain = rp_model p # rp_fallback_model p,
      jc_system = rp_prompt p, jc_user = ctx, jc_temperature = rp_temperature p, jc_max_tokens = rp_max_tokens p,
      jc_sampling = rp_sampling p,
      jc_response_format = (if rj_structured_output p then Some pde_response_format else None),
      jc_open_cap = rj_timeout p, jc_attempt_budget = rj_timeout p\<rparr>"

definition run_pde_decision :: "(rstr \<Rightarrow> json option) \<Rightarrow> stream_fn \<Rightarrow> uuid \<Rightarrow> resolved_judge \<Rightarrow> rstr
    \<Rightarrow> pde_verdict judge_step list" where
  "run_pde_decision from_str up sess p ctx = reasoning_call (parse_pde_verdict from_str) (pde_call sess p ctx) up"

text \<open>The state of the relationship the judge was shown.\<close>

definition level_json :: "need_level \<Rightarrow> json" where
  "level_json l = JStr (need_level_as_str l)"

definition needs_json :: "needs \<Rightarrow> json" where
  "needs_json n = JObj [(str ''hunger'', level_json (hunger n)), (str ''social'', level_json (social n)),
     (str ''stamina'', level_json (stamina n)), (str ''emotional'', level_json (emotional n)),
     (str ''outing'', level_json (outing n)), (str ''indulgence'', level_json (indulgence n))]"

definition pde_inputs_snapshot :: "affinity \<Rightarrow> needs option \<Rightarrow> json" where
  "pde_inputs_snapshot a n = JObj
     [(str ''v'', JNum 1), (str ''intimacy_rung'', JNum (f64_of_int (int (intimacy_rung a)))),
      (str ''patience_band'', JStr (case aff_patience_band a of HighPatience \<Rightarrow> str ''high''
         | MidPatience \<Rightarrow> str ''mid'' | LowPatience \<Rightarrow> str ''low'')),
      (str ''bond'', JNum (bond_score a)), (str ''chemistry'', JNum (chemistry_score a)),
      (str ''axes'', JObj [(str ''warmth'', JNum (warmth a)), (str ''trust'', JNum (trust a)),
         (str ''intrigue'', JNum (intrigue a)), (str ''intimacy'', JNum (intimacy a)),
         (str ''patience'', JNum (patience a)), (str ''tension'', JNum (tension a))]),
      (str ''needs'', case n of None \<Rightarrow> JNull | Some x \<Rightarrow> needs_json x)]"

section \<open>Acts\<close>

record qa_insert =
  qi_id :: ulid
  qi_content :: rstr
  qi_generation_id :: "rstr option"
  qi_truncated :: bool
  qi_llm_attempts :: "upstream_attempt list option"
  qi_gateway_errors :: "gateway_error list option"

record decision_event =
  de_status :: rstr
  de_action :: rstr
  de_proposed_action :: "rstr option"
  de_payload :: "json option"
  de_inputs :: json
  de_generation_id :: "rstr option"
  de_llm_attempts :: "upstream_attempt list option"
  de_gateway_errors :: "gateway_error list option"

record vision_event =
  ve_status :: rstr
  ve_image_url :: rstr
  ve_vision :: "json option"
  ve_generation_id :: "rstr option"
  ve_attempts :: nat
  ve_last_failure :: "rstr option"
  ve_llm_attempts :: "upstream_attempt list option"
  ve_gateway_errors :: "gateway_error list option"

datatype turn_act =
    TYield protocol_frame
  | TInsert assistant_insert
  | TInsertQa qa_insert
  | TRecord generation_record
  | TConvertIgnoredAsk
  | TMarkConsumed
  | TMarkGhosted
  | TMarkProductQa
  | TRecordGhost
  | TResetGhostStreak
  | TSetNeeds needs
  | TDecision decision_event
  | TSetVision vision_outcome
  | TVisionEvent vision_event
  | TInputFailures "upstream_attempt list option" "gateway_error list option"
  | TSetRewrite input_rewrite
  | TComposeEvent compose_event
  | TMergeImage ulid json
  | TSetResponse action_response
  | TPostProcess action_plan "produced_message list"
  | TPanic

definition of_burst_act :: "burst_act \<Rightarrow> turn_act" where
  "of_burst_act a = (case a of Yield f \<Rightarrow> TYield f | Insert r \<Rightarrow> TInsert r | RecordGen g \<Rightarrow> TRecord g)"

text \<open>The frame that ends a turn.\<close>

definition internal_error :: "rstr \<Rightarrow> protocol_frame" where
  "internal_error message = ErrorFrame Internal False message
     [26381, 21153, 20986, 29616, 38382, 39064, 65292, 35831, 31245, 21518, 20877, 35797] None None"

definition build_final_frame :: "bool \<Rightarrow> rstr list option \<Rightarrow> rstr option \<Rightarrow> nat \<Rightarrow> nat \<Rightarrow> attempt_failure list
    \<Rightarrow> protocol_frame" where
  "build_final_frame filtered injected tier retries_chat retries_filter failures =
     (let (attempts, gateways) = split_failures_typed failures
      in Final filtered injected tier retries_chat retries_filter attempts gateways)"

end
