(* ===== verification/Product_Qa.thy ===== *)
theory Product_Qa
  imports Turn_Acts
begin

text \<open>
  The product-answer arm of a turn (\<open>run_stream_with\<close> of
  \<open>crates/eros-engine-server/src/pipeline/stream.rs\<close>): its candidates are asked in turn until one
  yields text, streamed as it comes; then the generation is recorded, the row written and the turn
  closed. What a candidate streams is the parameter \<open>up\<close>.
\<close>

definition PRODUCT_QA_TASK :: rstr where "PRODUCT_QA_TASK = str ''chat_product_qa''"

text \<open>The headings in Chinese, by their code points.\<close>

definition render_product_qa_pairs :: "(rstr \<times> rstr) list \<Rightarrow> rstr" where
  "render_product_qa_pairs pairs =
     join_with [10] (map (\<lambda>(q, a). [29992, 25143, 58, 32] @ q @ [10, 22238, 31572, 58, 32] @ a) pairs)"

definition qa_payload :: "rstr \<Rightarrow> rstr \<Rightarrow> rstr" where
  "qa_payload recent question =
     (let asked = [91, 29992, 25143, 25552, 38382, 93, 10] @ question
      in if recent = [] then asked
         else [91, 26368, 36817, 20135, 21697, 21672, 35810, 93, 10] @ recent @ [10, 10] @ asked)"

definition qa_request :: "resolved_prompt \<Rightarrow> rstr \<Rightarrow> chat_request" where
  "qa_request p payload =
     \<lparr>req_model = [], req_fallback_model = [],
      req_messages = [\<lparr>cm_role = str ''system'', cm_content = rp_prompt p\<rparr>, \<lparr>cm_role = str ''user'', cm_content = payload\<rparr>],
      req_temperature = rp_temperature p, req_sampling = rp_sampling p, req_max_tokens = rp_max_tokens p,
      req_user = None, req_session_id = None, req_metadata = None, req_response_format = None,
      req_task = Some PRODUCT_QA_TASK\<rparr>"

section \<open>One candidate\<close>

record qa_attempt =
  qa_contents :: "rstr list"
  qa_usage :: "json option"
  qa_gen_id :: "rstr option"
  qa_served :: "rstr option"
  qa_cut :: bool
  qa_failure :: "attempt_failure option"

definition qa_attempt_new :: qa_attempt where
  "qa_attempt_new = \<lparr>qa_contents = [], qa_usage = None, qa_gen_id = None, qa_served = None, qa_cut = False,
     qa_failure = None\<rparr>"

definition qa_acc :: "qa_attempt \<Rightarrow> rstr" where
  "qa_acc a = concat (qa_contents a)"

definition qa_chunk :: "delta_chunk \<Rightarrow> qa_attempt \<Rightarrow> qa_attempt" where
  "qa_chunk c a = a\<lparr>qa_contents := qa_contents a @ option_list (dk_content c),
     qa_usage := or_else (dk_usage c) (qa_usage a), qa_gen_id := or_else (dk_generation_id c) (qa_gen_id a),
     qa_served := or_else (dk_model c) (qa_served a),
     qa_cut := (qa_cut a \<or> dk_finish_reason c = Some (str ''length'')
       \<or> dk_finish_reason c = Some (str ''content_filter''))\<rparr>"

text \<open>A failure cuts what was streamed so far; with nothing streamed the next candidate is asked.\<close>

definition qa_failed :: "attempt_failure \<Rightarrow> qa_attempt \<Rightarrow> qa_attempt" where
  "qa_failed f a = a\<lparr>qa_failure := Some f, qa_cut := (qa_cut a \<or> qa_acc a \<noteq> [])\<rparr>"

fun qa_items :: "rstr \<Rightarrow> (llm_error + delta_chunk) list \<Rightarrow> bool \<Rightarrow> qa_attempt \<Rightarrow> qa_attempt" where
  "qa_items model [] deadline a =
     (if deadline
      then qa_failed (timeout_failure PRODUCT_QA_TASK model TotalTimeout (str ''stream total timeout after 120s'')) a
      else a)"
| "qa_items model (Inl e # items) deadline a = qa_failed (from_llm_error PRODUCT_QA_TASK model e) a"
| "qa_items model (Inr c # items) deadline a = qa_items model items deadline (qa_chunk c a)"

definition qa_attempt_of :: "rstr \<Rightarrow> stream_run \<Rightarrow> qa_attempt" where
  "qa_attempt_of model run = (case run of
     OpenFailed e \<Rightarrow> qa_failed (from_llm_error PRODUCT_QA_TASK model e) qa_attempt_new
   | OpenTimedOut \<Rightarrow> qa_failed (timeout_failure PRODUCT_QA_TASK model OpenTimeout
        (str ''stream open timeout after 20s'')) qa_attempt_new
   | Opened items deadline \<Rightarrow> qa_items model items deadline qa_attempt_new)"

definition qa_generation :: "uuid \<Rightarrow> qa_attempt \<Rightarrow> generation_record" where
  "qa_generation sess a =
     \<lparr>gr_task = PRODUCT_QA_TASK, gr_session_id = Some sess, gr_generation_id = qa_gen_id a, gr_model = qa_served a,
      gr_usage = qa_usage a\<rparr>"

text \<open>A generation is recorded only when the candidate named it.\<close>

definition qa_billed :: "uuid \<Rightarrow> qa_attempt \<Rightarrow> turn_act list" where
  "qa_billed sess a = (if qa_gen_id a = None then [] else [TRecord (qa_generation sess a)])"

section \<open>The candidates\<close>

record qa_walk_state =
  qw_last :: qa_attempt
  qw_recorded :: bool
  qw_failures :: "attempt_failure list"
  qw_log :: "turn_act list"

definition qa_walk_start :: qa_walk_state where
  "qa_walk_start = \<lparr>qw_last = qa_attempt_new, qw_recorded = False, qw_failures = [], qw_log = []\<rparr>"

fun qa_walk :: "stream_fn \<Rightarrow> uuid \<Rightarrow> ulid \<Rightarrow> chat_request \<Rightarrow> nat \<Rightarrow> rstr list \<Rightarrow> qa_walk_state \<Rightarrow> qa_walk_state" where
  "qa_walk up sess mid req i [] w = w"
| "qa_walk up sess mid req i (m # ms) w =
     (let run = up i m req;
          a = qa_attempt_of m (ar_stream run);
          w = \<lparr>qw_last = a, qw_recorded = ar_recorded run, qw_failures = qw_failures w @ option_list (qa_failure a),
               qw_log = qw_log w @ qa_billed sess (qw_last w) @ map (\<lambda>x. TYield (Delta mid x)) (qa_contents a)\<rparr>
      in if qa_acc a = [] then qa_walk up sess mid req (Suc i) ms w else w)"

section \<open>The arm\<close>

text \<open>
  What the walk comes to: the text, the identity the row and the closing frame carry, and whether it was
  cut; a configured phrase when every candidate was silent, and an error when there is none.
\<close>

record qa_answer =
  qr_text :: rstr
  qr_usage :: "json option"
  qr_gen_id :: "rstr option"
  qr_cut :: bool
  qr_failures :: "attempt_failure list"

definition qa_error_frame :: "attempt_failure list \<Rightarrow> protocol_frame" where
  "qa_error_frame failures =
     (let (code, retryable, upstream_status, provider_code) = error_frame_fields_from_last failures
      in ErrorFrame code retryable (str ''product_qa generation failed on all candidates'')
           [26381, 21153, 26242, 26102, 19981, 21487, 29992, 65292, 35831, 31245, 21518, 20877, 35797]
           upstream_status provider_code)"

definition qa_closing :: "rstr list \<Rightarrow> ulid \<Rightarrow> rstr option \<Rightarrow> attempt_failure list \<Rightarrow> qa_answer \<Rightarrow> turn_act list" where
  "qa_closing hidden mid tier judge_failures r =
     (let (attempts, gateways) = split_failures (qr_failures r)
      in [TInsertQa \<lparr>qi_id = mid, qi_content = qr_text r, qi_generation_id = qr_gen_id r, qi_truncated = qr_cut r,
            qi_llm_attempts = attempts, qi_gateway_errors = gateways\<rparr>,
          TYield (Done mid (qr_cut r) (filter_usage_keys hidden (qr_usage r)) (qr_gen_id r) False),
          TYield (build_final_frame False None tier 0 0 (judge_failures @ qr_failures r))])"

definition product_qa_arm :: "stream_fn \<Rightarrow> rstr option \<Rightarrow> rstr list \<Rightarrow> uuid \<Rightarrow> ulid \<Rightarrow> rstr option \<Rightarrow> resolved_prompt
    \<Rightarrow> rstr \<Rightarrow> rstr \<Rightarrow> attempt_failure list \<Rightarrow> turn_act list" where
  "product_qa_arm up phrase hidden sess mid tier p recent question judge_failures =
     (let candidates = rp_model p # rp_fallback_model p;
          w = qa_walk up sess mid (qa_request p (qa_payload recent question)) 0 candidates qa_walk_start;
          a = qw_last w;
          gen_id = record_generation (qw_recorded w) (qa_generation sess a);
          opening = [TMarkProductQa, TYield (Meta mid FProductQa None None None)] @ qw_log w @ qa_billed sess a
      in if qa_acc a \<noteq> []
         then opening @ qa_closing hidden mid tier judge_failures
                \<lparr>qr_text = qa_acc a, qr_usage = qa_usage a, qr_gen_id = gen_id, qr_cut = qa_cut a,
                 qr_failures = qw_failures w\<rparr>
         else (case phrase of
             Some txt \<Rightarrow> opening @ [TYield (Delta mid txt)] @ qa_closing hidden mid tier judge_failures
                \<lparr>qr_text = txt, qr_usage = None, qr_gen_id = None, qr_cut = False,
                 qr_failures = qw_failures w @ [chain_exhausted PRODUCT_QA_TASK (length candidates)]\<rparr>
           | None \<Rightarrow> opening @ [TYield (qa_error_frame (qw_failures w))]))"

end
