(* ===== verification/Chat_Turn.thy ===== *)
theory Chat_Turn
  imports Product_Qa
begin

text \<open>
  One chat turn (\<open>run_stream_with\<close> of \<open>crates/eros-engine-server/src/pipeline/stream.rs\<close>): the start, the
  silence of a persona who is offline, the judge, the plan and what it writes, and the five arms. Each task
  has a cursor of its own and is resolved once, so each resolver reads the configuration the turn started
  with. The composer of a picture that goes with a text runs beside the reply; its acts stand where it is
  joined, and there are none when the turn ends before. The texts of the prompts are parameters.
\<close>

section \<open>The request and the surroundings\<close>

record persisted_user_message =
  pu_message_id :: uuid
  pu_session_id :: uuid
  pu_user_id :: uuid
  pu_instance_id :: uuid
  pu_content :: rstr
  pu_prompt_traits :: "prompt_trait list"
  pu_audit :: "llm_audit option"
  pu_tier :: "rstr option"
  pu_memory_scope :: memory_scope
  pu_affinity_scope :: affinity_scope
  pu_image_url :: "rstr option"
  pu_image :: "image_reply_params option"
  pu_quote :: "quoted_message option"
  pu_action :: "user_action option"
  pu_outfit :: "rstr option"

definition to_event :: "persisted_user_message \<Rightarrow> event" where
  "to_event m = UserMessage
     \<lparr>um_content = pu_content m, um_message_id = pu_message_id m, um_prompt_traits = pu_prompt_traits m,
      um_audit = pu_audit m, um_tier = pu_tier m, um_memory_scope = pu_memory_scope m,
      um_affinity_scope = pu_affinity_scope m, um_quote = pu_quote m, um_action = pu_action m,
      um_outfit = pu_outfit m\<rparr>"

text \<open>
  Reads (a failed read of effects, needs, events or pairs is the empty value), the configuration and its
  draws, the models, and the prompt texts. \<open>te_reply_request\<close> is \<open>build_reply_request\<close>, by the plan, the needs
  and the text of the user's row.
\<close>

record turn_env =
  te_persona :: "companion_persona option"
  te_affinity :: "rstr + affinity"
  te_tuning :: affinity_tuning
  te_now :: instant
  te_counted :: "(int \<times> instant option) option"
  te_effects :: "active_effect list"
  te_needs :: "needs option"
  te_foreground :: "event_kind option"
  te_config :: model_config
  te_texts :: builtin_texts
  te_draw :: "f64 \<Rightarrow> f64"
  te_give_roll :: f64
  te_filter_roll :: f64
  te_random :: f64
  te_dice :: "nat \<Rightarrow> f64"
  te_from_str :: "rstr \<Rightarrow> json option"
  te_pairs :: "(rstr \<times> rstr) list"
  te_transcript :: rstr
  te_pde_ctx :: "rstr \<Rightarrow> decision_input \<Rightarrow> bool \<Rightarrow> rstr option \<Rightarrow> needs option \<Rightarrow> bool \<Rightarrow> rstr"
  te_judge :: stream_fn
  te_qa :: stream_fn
  te_vision :: "nat \<Rightarrow> vision_request \<Rightarrow> reply_call"
  te_input :: "nat \<Rightarrow> chat_request \<Rightarrow> reply_call"
  te_compose :: "nat \<Rightarrow> chat_request \<Rightarrow> reply_call"
  te_payload :: "action_plan \<Rightarrow> rstr \<Rightarrow> rstr \<Rightarrow> style_key \<Rightarrow> rstr option \<Rightarrow> rstr"
  te_wrap :: "style_key \<Rightarrow> rstr \<Rightarrow> rstr"
  te_composer_text :: "user_action option \<Rightarrow> action_response option \<Rightarrow> rstr \<Rightarrow> rstr"
  te_event_id :: "uuid option"
  te_rewrite_stored :: bool
  te_reply_request :: "decision_input \<Rightarrow> action_plan \<Rightarrow> needs option \<Rightarrow> rstr \<Rightarrow> rstr + chat_request \<times> rstr list"
  te_byok :: "byok_turn option"
  te_display :: "display_override option"
  te_burst :: burst_env
  te_base64 :: "rstr \<Rightarrow> rstr"
  te_show_id :: "uuid \<Rightarrow> rstr"
  te_next :: nat

section \<open>The start\<close>

definition turn_input :: "turn_env \<Rightarrow> persisted_user_message \<Rightarrow> protocol_frame + decision_input" where
  "turn_input env m = (case te_persona env of
     None \<Rightarrow> Inl (internal_error (str ''persona instance not found''))
   | Some p \<Rightarrow> (case te_affinity env of
       Inl e \<Rightarrow> Inl (internal_error (str ''affinity load failed: '' @ e))
     | Inr row \<Rightarrow>
         (let a = refresh_endpoints (te_now env) (te_tuning env) (apply_time_decay (te_now env) row)
          in Inr \<lparr>in_event = to_event m, in_affinity = a, in_persona = p,
                  in_signals = compute_signals (te_now env) a (te_counted env)\<rparr>)))"

definition force_image :: "persisted_user_message \<Rightarrow> bool" where
  "force_image m \<longleftrightarrow> (case pu_image m of Some i \<Rightarrow> ip_force i | None \<Rightarrow> False)"

definition pde_enabled :: "model_config \<Rightarrow> bool" where
  "pde_enabled cfg = (case Option.bind (Option.bind (mc_tasks cfg PDE_TASK) tk_filter_prompt) as_plain of
     Some p \<Rightarrow> trim p \<noteq> [] | None \<Rightarrow> False)"

definition prior_needs :: "turn_env \<Rightarrow> needs option" where
  "prior_needs env = (if pde_enabled (te_config env) then te_needs env else None)"

definition offline_silence :: "turn_env \<Rightarrow> persisted_user_message \<Rightarrow> decision_input \<Rightarrow> bool" where
  "offline_silence env m inp \<longleftrightarrow> pu_action m = None \<and> \<not> force_image m \<and> pde_ghosting_enabled (te_config env)
     \<and> (case te_foreground env of Some k \<Rightarrow> is_offline (persona_traits_of (in_persona inp)) k | None \<Rightarrow> False)"

definition ghost_frames :: "ulid \<Rightarrow> turn_act list" where
  "ghost_frames i = [TYield (Meta i FGhost None None None), TYield (Done i False None None False)]"

section \<open>The judge\<close>

fun judge_acts :: "pde_verdict judge_step list \<Rightarrow> turn_act list" where
  "judge_acts [] = []"
| "judge_acts (ReasoningStep x # steps) = TYield (Reasoning x) # judge_acts steps"
| "judge_acts (JudgeRecorded g # steps) = TRecord g # judge_acts steps"
| "judge_acts (Finished r # steps) = judge_acts steps"

fun judge_finished :: "pde_verdict judge_step list \<Rightarrow> pde_run option" where
  "judge_finished [] = None"
| "judge_finished (Finished r # steps) = or_else (judge_finished steps) (Some r)"
| "judge_finished (s # steps) = judge_finished steps"

text \<open>What the judge of this turn is shown and may decide.\<close>

definition resolved_pde :: "turn_env \<Rightarrow> resolved_judge option" where
  "resolved_pde env = fst (resolve_pde (te_draw env) (te_config env))"

definition qa_available :: "turn_env \<Rightarrow> bool" where
  "qa_available env \<longleftrightarrow> resolved_pde env \<noteq> None \<and> product_qa_enabled (te_config env)"

definition image_available :: "turn_env \<Rightarrow> persisted_user_message \<Rightarrow> bool" where
  "image_available env m = image_capability_available (pu_image m \<noteq> None) (te_config env)"

definition recent_qa :: "turn_env \<Rightarrow> rstr option" where
  "recent_qa env = (if qa_available env then Some (render_product_qa_pairs (te_pairs env)) else None)"

definition turn_transcript :: "turn_env \<Rightarrow> persisted_user_message \<Rightarrow> rstr" where
  "turn_transcript env m = (if resolved_pde env \<noteq> None \<or> force_image m then te_transcript env else [])"

definition give_refused :: "turn_env \<Rightarrow> decision_input \<Rightarrow> bool" where
  "give_refused env inp = refuses_give (in_event inp) (persona_habits (in_persona inp)) (te_give_roll env)"

definition turn_caps_of :: "turn_env \<Rightarrow> persisted_user_message \<Rightarrow> decision_input \<Rightarrow> turn_caps" where
  "turn_caps_of env m inp =
     \<lparr>tp_image_executor = image_available env m, tp_product_qa = qa_available env,
      tp_ghosting = pde_ghosting_enabled (te_config env), tp_force_image = force_image m,
      tp_give_refused = give_refused env inp\<rparr>"

definition judge_steps :: "turn_env \<Rightarrow> persisted_user_message \<Rightarrow> decision_input \<Rightarrow> pde_verdict judge_step list option" where
  "judge_steps env m inp = map_option (\<lambda>p.
     run_pde_decision (te_from_str env) (te_judge env) (pu_session_id m) p
       (te_pde_ctx env (turn_transcript env m) inp (image_available env m) (recent_qa env) (prior_needs env)
          (give_refused env inp))) (resolved_pde env)"

section \<open>The plan and what is written with it\<close>

text \<open>The dice are rolled into the plan; the audit keeps them only then.\<close>

definition finalised :: "turn_env \<Rightarrow> persisted_user_message \<Rightarrow> decision_input \<Rightarrow> action_plan \<Rightarrow> action_plan" where
  "finalised env m inp plan =
     (if rolls_nudges (in_event inp) plan
      then plan\<lparr>plan_nudges := roll_nudges (Some (in_affinity inp)) (pu_affinity_scope m) (te_dice env)\<rparr> else plan)"

definition decision_of :: "turn_env \<Rightarrow> decision_input \<Rightarrow> action_plan \<Rightarrow> pde_run \<Rightarrow> decision_event" where
  "decision_of env inp plan run =
     (let (attempts, gateways) = split_failures (jr_failures run);
          nudges = (if rolls_nudges (in_event inp) plan then Some (plan_nudges plan) else None)
      in \<lparr>de_status = pde_status_as_str (jr_status run), de_action = action_type_audit_str (plan_action_type plan),
          de_proposed_action = map_option (\<lambda>v. pde_action_as_str (pv_action v)) (jr_verdict run),
          de_payload = pde_audit_payload run (plan_reply_mode plan) nudges,
          de_inputs = pde_inputs_snapshot (in_affinity inp) (prior_needs env),
          de_generation_id = jr_generation_id run, de_llm_attempts = attempts, de_gateway_errors = gateways\<rparr>)"

text \<open>The needs, the audit (spawned), and the two frames ahead of the reply.\<close>

definition plan_acts :: "turn_env \<Rightarrow> persisted_user_message \<Rightarrow> decision_input \<Rightarrow> action_plan \<Rightarrow> pde_run option \<Rightarrow> turn_act list" where
  "plan_acts env m inp plan run =
     (let judged = judged_needs run (prior_needs env);
          written = written_needs (in_event inp) plan (prior_needs env) judged;
          shown = turn_needs (in_event inp) plan (prior_needs env) judged
      in map TSetNeeds (option_list written)
         @ map (\<lambda>r. TDecision (decision_of env inp plan r)) (option_list run)
         @ map (\<lambda>r. TYield (ActionResponseFrame (pu_message_id m) r)) (option_list (plan_action_response plan))
         @ map TYield (option_list (body_state_frame (pu_message_id m) (te_effects env) shown)))"

text \<open>The end of a turn that answered: the stored response, then post-processing (spawned).\<close>

definition settle_acts :: "action_plan \<Rightarrow> rstr option \<Rightarrow> produced_message list \<Rightarrow> turn_act list" where
  "settle_acts plan caption produced =
     map TSetResponse (option_list (plan_action_response plan))
     @ [TPostProcess (plan\<lparr>plan_image_caption := caption\<rparr>) produced]"

section \<open>A picture alone\<close>

definition compose_of :: "turn_env \<Rightarrow> persisted_user_message \<Rightarrow> action_plan \<Rightarrow> rstr \<Rightarrow> delegated_image_prompt \<times> turn_act list" where
  "compose_of env m plan latest =
     (let c = fst (resolve_image_prompt_compose (te_draw env) (te_texts env) (te_config env)
                     (Option.bind (pu_image m) ip_prompt_variant));
          user_text = te_composer_text env (pu_action m) (plan_action_response plan) latest;
          (img, event, recorded) = build_delegated_image_prompt_for (te_from_str env) (te_compose env)
             (te_payload env plan (turn_transcript env m) user_text) (te_wrap env) (te_event_id env) (pu_session_id m)
             c plan (pu_image m) (compose_source (plan_action_type plan))
      in (img, map TRecord recorded @ [TComposeEvent event]))"

definition image_marker :: "turn_env \<Rightarrow> action_plan \<Rightarrow> delegated_image_prompt \<Rightarrow> json" where
  "image_marker env plan img = build_delegated_image_marker_with (te_show_id env) (di_subject img) (di_caption img)
     (di_aspect_ratio img) (di_compose_variant img) (di_compose_model img) (di_compose_generation_id img)
     (di_compose_event_id img) (plan_image_ref plan) None None"

definition image_row :: "turn_env \<Rightarrow> action_plan \<Rightarrow> ulid \<Rightarrow> delegated_image_prompt \<Rightarrow> assistant_insert" where
  "image_row env plan msg img =
     \<lparr>ai_id = msg, ai_content = [], ai_action_type = str ''reply'', ai_continues_from = None, ai_truncated = False,
      ai_generation_id = None, ai_filter_audit = None,
      ai_metadata = Some (JObj [(str ''image'', image_marker env plan img)]), ai_llm_attempts = None,
      ai_gateway_errors = None, ai_speaker = None\<rparr>"

definition image_arm :: "turn_env \<Rightarrow> persisted_user_message \<Rightarrow> action_plan \<Rightarrow> attempt_failure list \<Rightarrow> turn_act list" where
  "image_arm env m plan judge_failures =
     (let msg = te_next env;
          (img, composed) = compose_of env m plan (pu_content m)
      in composed @ [TInsert (image_row env plan msg img)]
         @ map TYield (delegated_image_only_frames_with (te_base64 env) msg (di_composed_prompt img)
             (plan_image_ref plan) (di_aspect_ratio img) None)
         @ [TResetGhostStreak,
            TYield (build_final_frame False None (pu_tier m) 0 0 (judge_failures @ di_failures img))]
         @ settle_acts plan (di_caption img)
             [\<lparr>pm_message_id = msg, pm_full_text = [], pm_action = ReplyImage\<rparr>])"

section \<open>A text\<close>

definition vision_acts :: "turn_env \<Rightarrow> persisted_user_message \<Rightarrow> turn_act list" where
  "vision_acts env m = (case pu_image_url m of None \<Rightarrow> []
   | Some url \<Rightarrow>
       (let (run, status) = (case fst (resolve_vision (te_draw env) (te_config env)) of
              Some v \<Rightarrow> (let run = run_vision (en_casing (te_burst env)) (te_from_str env) (te_vision env)
                               (pu_session_id m) v url (pu_content m)
                         in (run, if sd_outcome run \<noteq> None then str ''ok'' else str ''exhausted''))
            | None \<Rightarrow> (side_start, str ''not_configured''));
            (attempts, gateways) = split_failures (sd_failures run)
        in map TRecord (sd_recorded run) @ map TSetVision (option_list (sd_outcome run))
           @ [TVisionEvent \<lparr>ve_status = status, ve_image_url = url, ve_vision = map_option vo_vision (sd_outcome run),
                ve_generation_id = or_else (Option.bind (sd_outcome run) vo_generation_id) (sd_last_generation_id run),
                ve_attempts = sd_attempts run, ve_last_failure = sd_last_failure run, ve_llm_attempts = attempts,
                ve_gateway_errors = gateways\<rparr>]))"

text \<open>The input filter: its acts, its failures, and the text the model will see.\<close>

definition input_filter_on :: "turn_env \<Rightarrow> persisted_user_message \<Rightarrow> resolved_prompt option" where
  "input_filter_on env m =
     (if pu_action m \<noteq> None \<and> trim (pu_content m) = [] then None
      else (case fst (resolve_input_filter (te_draw env) (te_config env)) of
          Some (probability, f) \<Rightarrow> if te_filter_roll env < probability then Some f else None
        | None \<Rightarrow> None))"

definition input_stage :: "turn_env \<Rightarrow> persisted_user_message \<Rightarrow> turn_act list \<times> attempt_failure list \<times> rstr" where
  "input_stage env m = (case input_filter_on env m of
     None \<Rightarrow> ([], [], pu_content m)
   | Some f \<Rightarrow>
       (let transcript = (if turn_transcript env m \<noteq> [] then turn_transcript env m else te_transcript env);
            run = run_input_filter (en_casing (te_burst env)) (te_from_str env) (te_input env) (pu_session_id m) f
                    transcript (pu_content m);
            (attempts, gateways) = split_failures (sd_failures run);
            rewrite = input_rewrite_of run
        in (map TRecord (sd_recorded run)
            @ (if attempts \<noteq> None \<or> gateways \<noteq> None then [TInputFailures attempts gateways] else [])
            @ map TSetRewrite (option_list rewrite),
            sd_failures run,
            case rewrite of Some rw \<Rightarrow> if te_rewrite_stored env then ir_rewritten_text rw else pu_content m
              | None \<Rightarrow> pu_content m)))"

definition text_action :: "action_plan \<Rightarrow> action_type" where
  "text_action plan = (if plan_action_type plan = ReplyTextImage then ReplyTextImage else ReplyText)"

definition turn_burst_args :: "turn_env \<Rightarrow> persisted_user_message \<Rightarrow> action_plan \<Rightarrow> chat_request \<Rightarrow> rstr list \<Rightarrow> burst_args" where
  "turn_burst_args env m plan req tags =
     (let flt = fst (resolve_output_filter (te_draw env) (te_config env) (pu_tier m))
      in \<lparr>ba_session_id = pu_session_id m, ba_frame_action = frame_action_for (text_action plan),
          ba_persist_action = str ''reply'', ba_plan_action = text_action plan, ba_req = req,
          ba_display = te_display env, ba_filter = flt, ba_trait_tags = tags, ba_tier = pu_tier m,
          ba_memory_scope = pu_memory_scope m, ba_affinity_scope = pu_affinity_scope m,
          ba_random_draw = map_option (\<lambda>_. te_random env) (Option.bind flt (\<lambda>f. ot_random (ro_trigger f))),
          ba_speaker = None\<rparr>)"

fun is_error :: "turn_act \<Rightarrow> bool" where
  "is_error (TYield (ErrorFrame _ _ _ _ _ _)) = True" | "is_error _ = False"

text \<open>An error passes through and ends the turn: nothing after it is asked of the burst.\<close>

definition up_to_error :: "turn_act list \<Rightarrow> turn_act list \<times> bool" where
  "up_to_error acts = (case dropWhile (\<lambda>a. \<not> is_error a) acts of
     [] \<Rightarrow> (acts, False) | e # _ \<Rightarrow> (takeWhile (\<lambda>a. \<not> is_error a) acts @ [e], True))"

text \<open>The picture of a text reply: its acts, its failures and its caption.\<close>

definition picture_stage :: "turn_env \<Rightarrow> persisted_user_message \<Rightarrow> action_plan \<Rightarrow> rstr \<Rightarrow> produced_message list
    \<Rightarrow> turn_act list \<times> attempt_failure list \<times> rstr option" where
  "picture_stage env m plan effective produced =
     (if plan_action_type plan \<noteq> ReplyTextImage \<or> produced = [] then ([], [], None)
      else (let msg = pm_message_id (last produced);
                (img, composed) = compose_of env m plan effective
            in (composed @ [TMergeImage msg (image_marker env plan img),
                  TYield (build_image_request_frame_with (te_base64 env) msg (di_composed_prompt img)
                    (plan_image_ref plan) (di_aspect_ratio img) None)],
                di_failures img, di_caption img)))"

definition text_closing :: "turn_env \<Rightarrow> persisted_user_message \<Rightarrow> action_plan \<Rightarrow> rstr \<Rightarrow> rstr list \<Rightarrow> burst_outcome
    \<Rightarrow> attempt_failure list \<Rightarrow> turn_act list" where
  "text_closing env m plan effective tags out before =
     (let (pictured, compose_failures, caption) = picture_stage env m plan effective (bo_produced out)
      in (if bo_ghost_fallback out then [] else [TResetGhostStreak]) @ pictured
         @ [TYield (build_final_frame (bo_filtered out) (nonempty tags) (pu_tier m) (bo_retries_chat out)
              (bo_retries_filter out) (before @ bo_failures out @ compose_failures))]
         @ settle_acts plan caption (bo_produced out))"

definition text_arm :: "turn_env \<Rightarrow> persisted_user_message \<Rightarrow> decision_input \<Rightarrow> action_plan \<Rightarrow> pde_run option
    \<Rightarrow> attempt_failure list \<Rightarrow> turn_act list" where
  "text_arm env m inp plan run judge_failures =
     (let (filtered, input_failures, effective) = input_stage env m;
          needs = turn_needs (in_event inp) plan (prior_needs env) (judged_needs run (prior_needs env));
          before = vision_acts env m @ filtered
      in case te_reply_request env inp plan needs effective of
           Inl e \<Rightarrow> before @ [TYield (internal_error (str ''build_reply_request failed: '' @ e))]
         | Inr (req, tags) \<Rightarrow>
             (let b = drive_chat_burst_for (te_burst env) (turn_burst_args env m plan req tags)
                        (reply_chain (te_draw env) req (te_byok env)) (burst_start (te_next env));
                  (shown, failed) = up_to_error (map of_burst_act (b_log b))
              in before @ shown
                 @ (if failed then [] else text_closing env m plan effective tags (b_out b) (judge_failures @ input_failures))))"

section \<open>The turn\<close>

definition ghost_arm :: "turn_env \<Rightarrow> persisted_user_message \<Rightarrow> attempt_failure list \<Rightarrow> turn_act list" where
  "ghost_arm env m judge_failures =
     [TMarkGhosted, TRecordGhost] @ ghost_frames (te_next env)
     @ [TYield (build_final_frame False None (pu_tier m) 0 0 judge_failures)]"

definition qa_arm :: "turn_env \<Rightarrow> persisted_user_message \<Rightarrow> attempt_failure list \<Rightarrow> turn_act list" where
  "qa_arm env m judge_failures = (case fst (resolve_product_qa (te_draw env) (te_config env)) of
     None \<Rightarrow> [TPanic]
   | Some p \<Rightarrow> product_qa_arm (te_qa env) (en_phrase (te_burst env)) (en_hidden (te_burst env)) (pu_session_id m)
       (te_next env) (pu_tier m) p (case recent_qa env of Some r \<Rightarrow> r | None \<Rightarrow> []) (pu_content m) judge_failures)"

definition turn_arm :: "turn_env \<Rightarrow> persisted_user_message \<Rightarrow> decision_input \<Rightarrow> action_plan \<Rightarrow> pde_run option \<Rightarrow> turn_act list" where
  "turn_arm env m inp plan run =
     (let judge_failures = (case run of Some r \<Rightarrow> jr_failures r | None \<Rightarrow> [])
      in case plan_action_type plan of
           GhostTurn \<Rightarrow> ghost_arm env m judge_failures
         | ProductQa \<Rightarrow> qa_arm env m judge_failures
         | ReplyImage \<Rightarrow> image_arm env m plan judge_failures
         | Proactive \<Rightarrow> [TYield (build_final_frame False None (pu_tier m) 0 0 judge_failures)]
         | _ \<Rightarrow> text_arm env m inp plan run judge_failures)"

definition planned_turn :: "turn_env \<Rightarrow> persisted_user_message \<Rightarrow> decision_input \<Rightarrow> pde_run option \<Rightarrow> turn_act list" where
  "planned_turn env m inp run = (case turn_plan (turn_caps_of env m inp) inp run of
     None \<Rightarrow> [TPanic]
   | Some plan \<Rightarrow>
       (let plan = finalised env m inp plan
        in plan_acts env m inp plan run @ turn_arm env m inp plan run))"

definition judged_turn :: "turn_env \<Rightarrow> persisted_user_message \<Rightarrow> decision_input \<Rightarrow> turn_act list" where
  "judged_turn env m inp = (case judge_steps env m inp of
     None \<Rightarrow> planned_turn env m inp None
   | Some steps \<Rightarrow> TMarkConsumed # judge_acts steps @ (case judge_finished steps of
         None \<Rightarrow> [TPanic] | Some run \<Rightarrow> planned_turn env m inp (Some run)))"

definition run_stream_with :: "turn_env \<Rightarrow> persisted_user_message \<Rightarrow> turn_act list" where
  "run_stream_with env m = (case turn_input env m of
     Inl e \<Rightarrow> [TYield e]
   | Inr inp \<Rightarrow>
       (if pu_action m = None then [TConvertIgnoredAsk] else [])
       @ (if offline_silence env m inp
          then TMarkGhosted # ghost_frames (te_next env) @ [TYield (build_final_frame False None (pu_tier m) 0 0 [])]
          else judged_turn env m inp))"

end
