(* ===== verification/Turn_Plan_Laws.thy ===== *)
theory Turn_Plan_Laws
  imports Turn_Plan
begin

text \<open>
  What the judge call returns, what its prose is reduced to, and which plans a turn can act on.
\<close>

section \<open>The judge call\<close>

fun judge_tries :: "judge_call \<Rightarrow> stream_fn \<Rightarrow> nat \<Rightarrow> rstr list \<Rightarrow> (rstr \<times> attempt_run \<times> judge_attempt) list" where
  "judge_tries call up i [] = []"
| "judge_tries call up i (m # ms) =
     (let run = up i m (judge_request call m) in (m, run, judge_attempt_of call m (ar_stream run)) # judge_tries call up (Suc i) ms)"

definition try_outcome :: "(rstr \<Rightarrow> 'v option) \<Rightarrow> judge_call \<Rightarrow> rstr \<times> attempt_run \<times> judge_attempt \<Rightarrow> 'v judge_outcome" where
  "try_outcome parse call t = (case t of (m, _, a) \<Rightarrow> judge_outcome parse call m a)"

definition try_steps :: "judge_call \<Rightarrow> rstr \<times> attempt_run \<times> judge_attempt \<Rightarrow> 'v judge_step list" where
  "try_steps call t = (case t of (_, _, a) \<Rightarrow>
     map ReasoningStep (ja_reasoning a) @ (if ja_failure a = None then [JudgeRecorded (judge_generation call a)] else []))"

definition try_generation :: "judge_call \<Rightarrow> rstr \<times> attempt_run \<times> judge_attempt \<Rightarrow> rstr option" where
  "try_generation call t = (case t of (_, run, a) \<Rightarrow> record_generation (ar_recorded run) (judge_generation call a))"

definition try_reasoning :: "rstr \<times> attempt_run \<times> judge_attempt \<Rightarrow> rstr" where
  "try_reasoning t = (case t of (_, _, a) \<Rightarrow> concat (ja_reasoning a))"

fun settles :: "'v judge_outcome \<Rightarrow> bool" where
  "settles (JVerdict v) = True" | "settles _ = False"

fun outcome_failures :: "'v judge_outcome \<Rightarrow> attempt_failure list" where
  "outcome_failures (JFailed f) = [f]" | "outcome_failures _ = []"

fun status_after :: "attempt_failure list \<Rightarrow> 'v judge_outcome \<Rightarrow> pde_status" where
  "status_after failures (JFailed f) = for_operation failures"
| "status_after failures JEmpty = PdeEmpty"
| "status_after failures (JUnparsed t) = PdeParseError"
| "status_after failures (JVerdict v) = PdeOk"

fun unparsed :: "'v judge_outcome \<Rightarrow> rstr option" where
  "unparsed (JUnparsed t) = Some t" | "unparsed _ = None"

fun parsed_text :: "'v judge_outcome \<Rightarrow> bool" where
  "parsed_text (JVerdict v) = True" | "parsed_text (JUnparsed t) = True" | "parsed_text _ = False"

text \<open>The run of a walk that made the tries \<open>ts\<close>, all but the last without a verdict.\<close>

definition judged_run :: "(rstr \<Rightarrow> 'v option) \<Rightarrow> judge_call \<Rightarrow> judge_walk_state
    \<Rightarrow> (rstr \<times> attempt_run \<times> judge_attempt) list \<Rightarrow> 'v judge_run" where
  "judged_run parse call w ts =
     (let os = map (try_outcome parse call) ts; failures = jw_failures w @ concat (map outcome_failures os);
          reasoning = jw_reasoning w @ concat (map try_reasoning ts)
      in if ts = [] then judge_exhausted w
         else \<lparr>jr_status = status_after failures (last os),
           jr_verdict = (case last os of JVerdict v \<Rightarrow> Some v | _ \<Rightarrow> None),
           jr_raw = unparsed (last os), jr_reasoning = reasoning,
           jr_generation_id = (if parsed_text (last os) then try_generation call (last ts) else None),
           jr_failures = failures\<rparr>)"

definition tries_made :: "(rstr \<Rightarrow> 'v option) \<Rightarrow> judge_call \<Rightarrow> (rstr \<times> attempt_run \<times> judge_attempt) list
    \<Rightarrow> (rstr \<times> attempt_run \<times> judge_attempt) list" where
  "tries_made parse call ts = take (Suc (length (takeWhile (\<lambda>t. \<not> settles (try_outcome parse call t)) ts))) ts"

lemma tries_made_simps [simp]:
  "tries_made parse call [] = []"
  "tries_made parse call (t # ts) = t # (if settles (try_outcome parse call t) then [] else tries_made parse call ts)"
  by (simp_all add: tries_made_def)

lemma for_operation_not_parse: "for_operation fs \<noteq> PdeParseError"
  by (simp add: for_operation_def)

lemma exhausted_run:
  assumes "jw_last w' = status_after failures o'" and "\<not> settles o'" and "jw_failures w' = failures"
    and "jw_reasoning w' = reasoning" and "\<And>t. o' = JUnparsed t \<Longrightarrow> jw_last_parse w' = Some (t, g)"
  shows "judge_exhausted w' = \<lparr>jr_status = status_after failures o', jr_verdict = None, jr_raw = unparsed o',
    jr_reasoning = reasoning, jr_generation_id = (case o' of JUnparsed t \<Rightarrow> g | _ \<Rightarrow> None), jr_failures = failures\<rparr>"
  using assms by (cases o') (simp_all add: judge_exhausted_def for_operation_def split: if_splits)

lemma judge_walk_runs:
  "judge_walk parse call up i ms w = concat (map (try_steps call) (tries_made parse call (judge_tries call up i ms)))
     @ [Finished (judged_run parse call w (tries_made parse call (judge_tries call up i ms)))]"
proof (induction ms arbitrary: i w)
  case (Cons m ms)
  let ?run = "up i m (judge_request call m)" let ?a = "judge_attempt_of call m (ar_stream ?run)"
  let ?t = "(m, ?run, ?a)" let ?o = "judge_outcome parse call m ?a"
  let ?ts = "tries_made parse call (judge_tries call up (Suc i) ms)"
  let ?g = "record_generation (ar_recorded ?run) (judge_generation call ?a)"
  let ?w = "w\<lparr>jw_reasoning := jw_reasoning w @ concat (ja_reasoning ?a)\<rparr>"
  have o_eq: "try_outcome parse call ?t = ?o" by (simp add: try_outcome_def)
  show ?case
  proof (cases "settles ?o")
    case True
    then obtain v where "?o = JVerdict v" by (cases ?o) simp_all
    then show ?thesis using o_eq
      by (simp add: Let_def try_steps_def judged_run_def try_reasoning_def try_generation_def)
  next
    case False
    let ?w' = "?w\<lparr>jw_failures := jw_failures w @ outcome_failures ?o,
        jw_last := status_after (jw_failures w @ outcome_failures ?o) ?o,
        jw_last_parse := (case ?o of JUnparsed t \<Rightarrow> Some (t, ?g) | _ \<Rightarrow> jw_last_parse w)\<rparr>"
    have step: "judge_walk parse call up i (m # ms) w = try_steps call ?t @ judge_walk parse call up (Suc i) ms ?w'"
      using False by (cases ?o) (simp_all add: Let_def try_steps_def)
    have run: "judged_run parse call ?w' ?ts = judged_run parse call w (?t # ?ts)"
    proof (cases "?ts = []")
      case True
      have "judge_exhausted ?w' = \<lparr>jr_status = status_after (jw_failures w @ outcome_failures ?o) ?o, jr_verdict = None,
          jr_raw = unparsed ?o, jr_reasoning = jw_reasoning w @ concat (ja_reasoning ?a),
          jr_generation_id = (case ?o of JUnparsed t \<Rightarrow> ?g | _ \<Rightarrow> None), jr_failures = jw_failures w @ outcome_failures ?o\<rparr>"
        by (rule exhausted_run) (use False in simp_all)
      then show ?thesis using True False o_eq
        by (cases ?o) (simp_all add: judged_run_def try_reasoning_def try_generation_def Let_def)
    next
      case more: False
      then obtain t' ts' where "?ts = t' # ts'" by (cases ?ts) simp_all
      then show ?thesis using o_eq by (simp add: judged_run_def Let_def try_reasoning_def)
    qed
    show ?thesis using step run Cons.IH [of "Suc i" ?w'] False o_eq by (simp add: Let_def)
  qed
qed (simp add: judged_run_def)

text \<open>A judge call tries its models in order up to the first whose reply parses, and always finishes
  with one run, last: it yields every attempt's reasoning in order and keeps all of it; the failures are those
  of the attempts tried; the verdict is that attempt's, and without one the status is the last
  attempt's (an upstream failure anywhere in the call wins over a local one), with the text that did not
  parse exactly when it was the last.\<close>

theorem judge_call_exact:
  "let ts = tries_made parse call (judge_tries call up 0 (jc_chain call));
       os = map (try_outcome parse call) ts; fs = concat (map outcome_failures os)
   in \<exists>r. reasoning_call parse call up = concat (map (try_steps call) ts) @ [Finished r]
        \<and> jr_reasoning r = concat (map try_reasoning ts) \<and> jr_failures r = fs
        \<and> jr_status r = (if ts = [] then PdeGatewayError else status_after fs (last os))
        \<and> jr_verdict r = (if ts = [] then None else case last os of JVerdict v \<Rightarrow> Some v | _ \<Rightarrow> None)
        \<and> jr_raw r = (if ts = [] then None else unparsed (last os))"
  unfolding Let_def reasoning_call_def judge_walk_runs
  by (intro exI conjI, rule refl) (simp_all add: judged_run_def judge_exhausted_def Let_def)

section \<open>Judge prose\<close>

definition tidy :: "rstr \<Rightarrow> bool" where
  "tidy s \<longleftrightarrow> length s \<le> INNER_STATE_MAX_CHARS
     \<and> list_all (\<lambda>c. c \<noteq> 91 \<and> c \<noteq> 93 \<and> \<not> is_control c \<and> (is_ws c \<longrightarrow> c = 32)) s
     \<and> (s = [] \<or> hd s \<noteq> 32) \<and> \<not> sublist [32, 32] s"

lemma words_nonempty: "w \<in> set (split_whitespace s) \<Longrightarrow> w \<noteq> [] \<and> list_all (\<lambda>c. c \<in> set s \<and> \<not> is_ws c) w"
proof (induction s arbitrary: w rule: split_whitespace.induct)
  case (2 c cs)
  show ?case
  proof (cases "is_ws c")
    case True
    then show ?thesis using 2(1) [OF True, of w] 2(4) by (auto simp: list_all_iff)
  next
    case False
    show ?thesis
    proof (cases cs)
      case Nil
      then show ?thesis using 2(4) False by simp
    next
      case (Cons d ds)
      show ?thesis
      proof (cases "is_ws d")
        case True
        then show ?thesis using 2(2) [OF False Cons True, of w] 2(4) False Cons by (auto simp: list_all_iff)
      next
        case nd: False
        show ?thesis
        proof (cases "split_whitespace cs")
          case Nil
          then show ?thesis using 2(4) False Cons nd by (auto simp: list_all_iff)
        next
          case (Cons v vs)
          then have "w = c # v \<or> w \<in> set vs" using 2(4) False \<open>cs = d # ds\<close> nd by auto
          moreover note 2(3) [OF False \<open>cs = d # ds\<close> nd, of v] 2(3) [OF False \<open>cs = d # ds\<close> nd, of w]
          ultimately show ?thesis using Cons False by (auto simp: list_all_iff)
        qed
      qed
    qed
  qed
qed simp

lemma words_no_space: "\<forall>w \<in> set (split_whitespace s). w \<noteq> [] \<and> 32 \<notin> set w"
proof
  fix w assume "w \<in> set (split_whitespace s)"
  from words_nonempty [OF this] show "w \<noteq> [] \<and> 32 \<notin> set w"
    by (auto simp: list_all_iff is_ws_def dest: bspec [where x = 32])
qed

lemma join_chars: "set (join_with sep ws) \<subseteq> set sep \<union> \<Union> (set ` set ws)"
  by (induction sep ws rule: join_with.induct) auto

lemma spaced: "(\<forall>w \<in> set ws. w \<noteq> [] \<and> 32 \<notin> set w)
    \<Longrightarrow> (join_with [32] ws = [] \<or> hd (join_with [32] ws) \<noteq> 32) \<and> \<not> sublist [32, 32] (join_with [32] ws)"
proof (induction "[32] :: rstr" ws rule: join_with.induct)
  case (2 x)
  then have "x \<noteq> []" "32 \<notin> set x" by simp_all
  moreover from this have "hd x \<noteq> 32" using hd_in_set by metis
  ultimately show ?case by (auto simp: sublist_def)
next
  case (3 x y zs)
  let ?r = "join_with [32] (y # zs)"
  have r: "?r = [] \<or> hd ?r \<noteq> 32" "\<not> sublist [32, 32] ?r" using 3 by simp_all
  have x: "x \<noteq> []" "32 \<notin> set x" using 3(2) by simp_all
  have "\<not> sublist [32, 32] (x @ 32 # ?r)"
  proof
    assume "sublist [32, 32] (x @ 32 # ?r)"
    then obtain ps ss where e: "x @ 32 # ?r = ps @ 32 # 32 # ss" by (auto simp: sublist_def)
    from append_eq_append_conv2 [THEN iffD1, OF e] obtain us
      where "x = ps @ us \<and> us @ 32 # ?r = 32 # 32 # ss \<or> ps = x @ us \<and> 32 # ?r = us @ 32 # 32 # ss" by auto
    then show False
    proof
      assume a: "x = ps @ us \<and> us @ 32 # ?r = 32 # 32 # ss"
      have "us = []"
      proof (rule ccontr)
        assume "us \<noteq> []"
        then have "hd us = 32" using a by (cases us) simp_all
        then show False using a x(2) \<open>us \<noteq> []\<close> by (cases us) auto
      qed
      then show False using a r(1) by simp
    next
      assume a: "ps = x @ us \<and> 32 # ?r = us @ 32 # 32 # ss"
      then have "us = [] \<or> (\<exists>vs. ?r = vs @ 32 # 32 # ss)" by (cases us) auto
      then show False using a r by (auto simp: sublist_def)
    qed
  qed
  moreover have "hd x \<noteq> 32" using x hd_in_set by metis
  ultimately show ?case using x by simp
qed simp

lemma tidy_take: "tidy s \<or> \<not> length s \<le> INNER_STATE_MAX_CHARS \<Longrightarrow>
    list_all (\<lambda>c. c \<noteq> 91 \<and> c \<noteq> 93 \<and> \<not> is_control c \<and> (is_ws c \<longrightarrow> c = 32)) s \<Longrightarrow> (s = [] \<or> hd s \<noteq> 32)
    \<Longrightarrow> \<not> sublist [32, 32] s \<Longrightarrow> tidy (take INNER_STATE_MAX_CHARS s)"
  by (auto simp: tidy_def INNER_STATE_MAX_CHARS_def list_all_iff hd_take
      dest: in_set_takeD sublist_order.order_trans [OF _ prefix_imp_sublist [OF take_is_prefix]])

lemma sanitized_tidy: "tidy (sanitize_inner_state raw)"
proof -
  let ?joined = "join_with [32] (filter (\<lambda>l. \<not> structural_line l) (filter (\<lambda>l. l \<noteq> []) (map trim (str_lines raw))))"
  let ?clean = "filter (\<lambda>c. c \<noteq> 91 \<and> c \<noteq> 93 \<and> \<not> is_control c) ?joined"
  let ?s = "join_with [32] (split_whitespace ?clean)"
  have words: "\<forall>w \<in> set (split_whitespace ?clean). w \<noteq> [] \<and> 32 \<notin> set w"
    by (rule words_no_space)
  have "list_all (\<lambda>c. c \<noteq> 91 \<and> c \<noteq> 93 \<and> \<not> is_control c \<and> (is_ws c \<longrightarrow> c = 32)) ?s"
    unfolding list_all_iff
  proof
    fix c assume "c \<in> set ?s"
    then have "c = 32 \<or> (\<exists>w \<in> set (split_whitespace ?clean). c \<in> set w)"
      using join_chars [of "[32]" "split_whitespace ?clean"] by auto
    moreover have "c \<in> set ?clean \<and> \<not> is_ws c" if "w \<in> set (split_whitespace ?clean)" "c \<in> set w" for w
      using words_nonempty [OF that(1)] that(2) by (simp add: list_all_iff)
    ultimately have "c = 32 \<or> c \<in> set ?clean \<and> \<not> is_ws c" by blast
    then show "c \<noteq> 91 \<and> c \<noteq> 93 \<and> \<not> is_control c \<and> (is_ws c \<longrightarrow> c = 32)"
      by (auto simp del: set_filter) (simp_all add: is_control_def)
  qed
  then show ?thesis
    unfolding sanitize_inner_state_def Let_def
    using spaced [OF words] by (intro tidy_take) (auto simp: tidy_def)
qed

text \<open>C33: What the judge writes reaches the prompt as one line of at most 200 characters, without brackets,
  control characters, leading or doubled spaces. A structural marker at the start of a line is dropped only when
  it stands there before brackets and control characters are removed: one behind a closing bracket survives.\<close>

theorem sanitized_prose_tidy:
  "tidy (sanitize_inner_state raw) \<and> sanitize_inner_state (str '']# rules'') = str ''# rules''"
proof
  show "tidy (sanitize_inner_state raw)" by (rule sanitized_tidy)
  have lines: "str_lines [93, 35, 32, 114, 117, 108, 101, 115] = [[93, 35, 32, 114, 117, 108, 101, 115]]"
    by (simp add: str_lines_def)
  have trimmed: "trim [93, 35, 32, 114, 117, 108, 101, 115] = [93, 35, 32, 114, 117, 108, 101, 115]"
    by (rule trim_id) (simp_all add: is_ws_def)
  have "sanitize_inner_state [93, 35, 32, 114, 117, 108, 101, 115] = [35, 32, 114, 117, 108, 101, 115]"
    unfolding sanitize_inner_state_def Let_def lines
    by (simp add: trimmed structural_line_def is_control_def is_ws_def INNER_STATE_MAX_CHARS_def)
  then show "sanitize_inner_state (str '']# rules'') = str ''# rules''" by simp
qed

section \<open>The plan a turn acts on\<close>

text \<open>What a turn may do, from what the deployment and the request allow.\<close>

definition allowed_actions :: "turn_caps \<Rightarrow> decision_input \<Rightarrow> action_type list" where
  "allowed_actions caps inp =
     (if tp_force_image caps then [ReplyImage]
      else ReplyText # (if tp_image_executor caps then [ReplyImage, ReplyTextImage] else [])
        @ (if event_action (in_event inp) = None
           then (if tp_product_qa caps then [ProductQa] else [])
             @ (if tp_ghosting caps \<and> ghost_permitted (in_affinity inp)
                     \<lparr>gs_message_count = message_count (in_signals inp),
                      gs_hours_since_last_ghost = hours_since_last_ghost (in_signals inp)\<rparr>
                then [GhostTurn] else [])
           else []))"

definition judged_response :: "pde_run option \<Rightarrow> action_response" where
  "judged_response run = (case run of None \<Rightarrow> Accept | Some r \<Rightarrow>
     (case (jr_status r, jr_verdict r) of
        (PdeOk, Some v) \<Rightarrow> (case pv_action_response v of Some a \<Rightarrow> a | None \<Rightarrow> Accept) | _ \<Rightarrow> Accept))"

definition turn_response :: "turn_caps \<Rightarrow> decision_input \<Rightarrow> pde_run option \<Rightarrow> action_response option" where
  "turn_response caps inp run =
     (if event_action (in_event inp) = None then None
      else Some (if tp_give_refused caps then Refuse else judged_response run))"

definition hints_tidy :: "action_plan \<Rightarrow> bool" where
  "hints_tidy p \<longleftrightarrow> length (plan_context_hints p) \<le> 1 \<and> list_all (\<lambda>h. h \<noteq> [] \<and> tidy h) (plan_context_hints p)"

text \<open>A plan on the way: of a kind still allowed, with the response of the judge or the rules.\<close>

definition plan_in :: "action_type list \<Rightarrow> decision_input \<Rightarrow> action_response \<Rightarrow> action_plan \<Rightarrow> bool" where
  "plan_in acts inp resp p \<longleftrightarrow> plan_action_type p \<in> set acts \<and> plan_ok inp p \<and> hints_tidy p
     \<and> plan_action_response p = (if event_action (in_event inp) = None then None else Some resp)"

lemma verdict_hints_tidy: "length (verdict_hints v) \<le> 1 \<and> list_all (\<lambda>h. h \<noteq> [] \<and> tidy h) (verdict_hints v)"
  using sanitized_tidy [of "pv_inner_state v"] by (simp add: verdict_hints_def Let_def)

lemma plan_for_in:
  assumes "plan_for inp action hints mode clothing ref ratio resp = Some p" and "action \<in> set acts"
    and "event_action (in_event inp) = None \<or> is_text_reply action"
    and "length hints \<le> 1 \<and> list_all (\<lambda>h. h \<noteq> [] \<and> tidy h) hints"
    and "r = (case resp of None \<Rightarrow> Accept | Some r \<Rightarrow> r)"
  shows "plan_in acts inp r p"
proof -
  from plan_for_plan [of inp action hints mode clothing ref ratio resp] assms(1)
  have f: "plan_ok inp p" "plan_action_type p = action"
    "is_text_reply action \<Longrightarrow> event_action (in_event inp) \<noteq> None \<Longrightarrow> plan_action_response p = Some r"
    "\<not> is_text_reply action \<Longrightarrow> plan_context_hints p = []"
    using assms(5) by auto
  have "plan_action_response p = None" if "event_action (in_event inp) = None"
    using f(1) that by (auto simp: plan_ok_def)
  moreover have "plan_context_hints p = hints \<or> plan_context_hints p = []"
    using assms(1) by (auto simp: plan_for_def quiet_plan_def split: action_type.splits)
  ultimately show ?thesis using f assms(2-4) by (auto simp: plan_in_def hints_tidy_def)
qed

lemma plan_for_exists: "action \<noteq> Proactive \<Longrightarrow> \<exists>p. plan_for inp action hints mode clothing ref ratio resp = Some p"
  using plan_for_plan [of inp action hints mode clothing ref ratio resp] by auto

text \<open>What the judge and the rules may propose, before the switch and the forced picture.\<close>

definition proposed_actions :: "turn_caps \<Rightarrow> decision_input \<Rightarrow> action_type list" where
  "proposed_actions caps inp = allowed_actions (caps\<lparr>tp_force_image := False, tp_ghosting := True\<rparr>) inp"

lemma guard_allowed:
  "guard_action a (in_affinity inp) (in_signals inp) (tp_image_executor caps) (tp_product_qa caps)
     (event_action (in_event inp) \<noteq> None) \<in> set (proposed_actions caps inp)"
  by (cases a) (simp_all add: guard_action_def proposed_actions_def allowed_actions_def)

lemma proposed_facts:
  assumes "a \<in> set (proposed_actions caps inp)"
  shows "a \<noteq> Proactive \<and> (event_action (in_event inp) = None \<or> is_text_reply a)"
  using assms by (auto simp: proposed_actions_def allowed_actions_def is_text_reply_def split: if_splits)

lemma verdict_plan_in:
  "\<exists>p. verdict_plan caps inp v = Some p
    \<and> plan_in (proposed_actions caps inp) inp (case pv_action_response v of Some a \<Rightarrow> a | None \<Rightarrow> Accept) p"
proof -
  let ?a = "guard_action (pv_action v) (in_affinity inp) (in_signals inp) (tp_image_executor caps) (tp_product_qa caps)
     (event_action (in_event inp) \<noteq> None)"
  note g = guard_allowed [of "pv_action v" inp caps] 
  note f = proposed_facts [OF g]
  have "\<exists>p. verdict_plan caps inp v = Some p"
    unfolding verdict_plan_def Let_def by (rule plan_for_exists) (rule f [THEN conjunct1])
  then obtain p where p: "verdict_plan caps inp v = Some p" by blast
  then have "plan_in (proposed_actions caps inp) inp (case pv_action_response v of Some a \<Rightarrow> a | None \<Rightarrow> Accept) p"
    unfolding verdict_plan_def Let_def
    by (rule plan_for_in) (use g f verdict_hints_tidy [of v] in \<open>auto split: option.splits\<close>)
  with p show ?thesis by blast
qed

lemma rule_plan_in:
  assumes "in_event inp = UserMessage m"
  shows "plan_in (proposed_actions caps inp) inp Accept (pde_decide inp)"
  using assms pde_decide_ok [of inp]
  by (auto simp: plan_in_def hints_tidy_def pde_decide_def reply_plan_def quiet_plan_def
      proposed_actions_def allowed_actions_def ghost_decide_def simp del: not_None_eq split: if_splits)

lemma judged_plan_in:
  assumes "in_event inp = UserMessage m"
  shows "\<exists>p hints. judged_plan caps inp run = (Some p, hints) \<and> plan_in (proposed_actions caps inp) inp (judged_response run) p
    \<and> length hints \<le> 1 \<and> list_all (\<lambda>h. h \<noteq> [] \<and> tidy h) hints"
proof (cases "\<exists>r v. run = Some r \<and> jr_status r = PdeOk \<and> jr_verdict r = Some v")
  case True
  then obtain r v where r: "run = Some r" "jr_status r = PdeOk" "jr_verdict r = Some v" by blast
  with verdict_plan_in [of caps inp v] verdict_hints_tidy [of v] show ?thesis
    by (auto simp: judged_plan_def judged_response_def)
next
  case False
  then have "judged_plan caps inp run = (Some (pde_decide inp), []) \<and> judged_response run = Accept"
    by (auto simp: judged_plan_def judged_response_def split: option.splits pde_status.splits)
  then show ?thesis using rule_plan_in [OF assms, of caps] by simp
qed

lemma switch_in:
  assumes "plan_in (proposed_actions caps inp) inp resp p" and "length hints \<le> 1 \<and> list_all (\<lambda>h. h \<noteq> [] \<and> tidy h) hints"
  shows "\<exists>q. apply_ghosting_killswitch p (tp_ghosting caps) inp hints = Some q
    \<and> plan_in (allowed_actions (caps\<lparr>tp_force_image := False\<rparr>) inp) inp resp q"
proof (cases "\<not> tp_ghosting caps \<and> plan_action_type p = GhostTurn")
  case True
  then have none: "event_action (in_event inp) = None"
    using assms(1) proposed_facts [of GhostTurn caps inp] by (simp add: plan_in_def is_text_reply_def)
  have "\<exists>q. plan_for inp ReplyText hints None None Face None None = Some q" by (rule plan_for_exists) simp
  then obtain q where q: "plan_for inp ReplyText hints None None Face None None = Some q" by blast
  have "plan_in (allowed_actions (caps\<lparr>tp_force_image := False\<rparr>) inp) inp Accept q"
    by (rule plan_for_in [OF q]) (use assms(2) in \<open>auto simp: allowed_actions_def is_text_reply_def\<close>)
  then show ?thesis using True q none by (simp add: apply_ghosting_killswitch_def plan_in_def)
next
  case False
  then have "apply_ghosting_killswitch p (tp_ghosting caps) inp hints = Some p"
    by (auto simp: apply_ghosting_killswitch_def)
  moreover have "plan_action_type p \<in> set (allowed_actions (caps\<lparr>tp_force_image := False\<rparr>) inp)"
    using assms(1) False by (auto simp: plan_in_def proposed_actions_def allowed_actions_def split: if_splits)
  ultimately show ?thesis using assms(1) by (simp add: plan_in_def)
qed

lemma forced_in:
  assumes "plan_in (allowed_actions (caps\<lparr>tp_force_image := False\<rparr>) inp) inp resp p"
  shows "\<exists>q. (if tp_force_image caps then forced_image inp p else Some p) = Some q
    \<and> plan_in (allowed_actions caps inp) inp resp q"
proof (cases "tp_force_image caps")
  case True
  have "\<exists>q. forced_image inp p = Some q" unfolding forced_image_def by (rule plan_for_exists) simp
  then obtain q where q: "forced_image inp p = Some q" by blast
  let ?r = "case plan_action_response p of None \<Rightarrow> Accept | Some r \<Rightarrow> r"
  have "plan_in (allowed_actions caps inp) inp ?r q"
    using q unfolding forced_image_def
    by (rule plan_for_in) (use assms True in \<open>auto simp: plan_in_def hints_tidy_def allowed_actions_def is_text_reply_def\<close>)
  then show ?thesis using q True assms by (auto simp: plan_in_def split: if_splits)
next
  case False
  then have "caps\<lparr>tp_force_image := False\<rparr> = caps" by simp
  with assms have "plan_in (allowed_actions caps inp) inp resp p" by (simp only:)
  then show ?thesis using False by simp
qed

lemma turn_plan_exists:
  assumes "in_event inp = UserMessage m"
  shows "\<exists>p. turn_plan caps inp run = Some p \<and> plan_action_type p \<in> set (allowed_actions caps inp) \<and> plan_ok inp p
    \<and> hints_tidy p \<and> plan_action_response p = turn_response caps inp run"
proof -
  from judged_plan_in [OF assms, of caps run] obtain p hints where p: "judged_plan caps inp run = (Some p, hints)"
    and pin: "plan_in (proposed_actions caps inp) inp (judged_response run) p"
    and h: "length hints \<le> 1 \<and> list_all (\<lambda>h. h \<noteq> [] \<and> tidy h) hints" by auto
  from switch_in [OF pin h] obtain q where q: "apply_ghosting_killswitch p (tp_ghosting caps) inp hints = Some q"
    "plan_in (allowed_actions (caps\<lparr>tp_force_image := False\<rparr>) inp) inp (judged_response run) q" by blast
  from forced_in [OF q(2)] obtain r where r: "(if tp_force_image caps then forced_image inp q else Some q) = Some r"
    "plan_in (allowed_actions caps inp) inp (judged_response run) r" by blast
  have "turn_plan caps inp run = Some (apply_give_refusal r (tp_give_refused caps))"
    using p q(1) r(1) by (cases "tp_force_image caps") (simp_all add: turn_plan_def)
  then show ?thesis
    using r(2) by (auto simp: plan_in_def turn_response_def apply_give_refusal_def plan_ok_def hints_tidy_def)
qed

text \<open>C12: Whatever the judge answers, or if it fails, a user turn always has a plan and it is one the turn
  allows: a forced picture is a picture; silence needs the ghosting switch, the protections and a turn
  without an action; a product answer its task; a picture its executor. The plan keeps the
  plan contract, carries at most one tidy hint, and answers an action exactly when there is one, with the
  judge's response or acceptance, but with a refusal when the give was refused.\<close>

theorem turn_plan_safe:
  "let inp = inp\<lparr>in_event := UserMessage m\<rparr>
   in case turn_plan caps inp run of
        None \<Rightarrow> False
      | Some p \<Rightarrow> plan_action_type p \<in> set (allowed_actions caps inp) \<and> plan_ok inp p \<and> hints_tidy p
          \<and> plan_action_response p = turn_response caps inp run"
  using turn_plan_exists [of "inp\<lparr>in_event := UserMessage m\<rparr>" m caps run] by (auto simp: Let_def)

end
