(* ===== verification/Chat_Burst_Laws.thy ===== *)
theory Chat_Burst_Laws
  imports Chat_Burst
begin

text \<open>
  What one reply of a chat turn guarantees, whatever the models do. The protocol is stated as a monitor that
  reads the log of a burst: one bubble open at a time, superseded bubbles before the one that
  concludes, the row before its closing frame, the generation before the row that refers to it.
\<close>

section \<open>The protocol as a monitor\<close>

text \<open>
  Between bubbles; in a bubble, with the text the client has of it; concluded by a bubble, with its
  row and whether it was marked silent; ended by an error; or out of order.
\<close>

datatype phase = Idle | Bubble ulid rstr | Concluded assistant_insert rstr bool | Failed | Broken

record monitor =
  mo_phase :: phase
  mo_rows :: "assistant_insert list"
  mo_seen :: "ulid list"
  mo_gens :: "rstr list"

definition monitor_start :: monitor where
  "monitor_start = \<lparr>mo_phase = Idle, mo_rows = [], mo_seen = [], mo_gens = []\<rparr>"

fun watch_frame :: "protocol_frame \<Rightarrow> monitor \<Rightarrow> phase" where
  "watch_frame (Meta i _ _ _ _) m = (if mo_phase m = Idle \<and> i \<notin> set (mo_seen m) then Bubble i [] else Broken)"
| "watch_frame (Delta i x) m = (case mo_phase m of
     Bubble j t \<Rightarrow> if i = j then Bubble j (t @ x) else Broken | _ \<Rightarrow> Broken)"
| "watch_frame (Done i truncated _ gen_id ghost) m = (case mo_phase m of
     Bubble j t \<Rightarrow>
       if i \<noteq> j then Broken
       else if truncated then Idle
       else (case mo_rows m of [] \<Rightarrow> Broken
         | _ \<Rightarrow> (let r = last (mo_rows m)
                 in if ai_id r = i \<and> \<not> ai_truncated r \<and> ai_generation_id r = gen_id then Concluded r t ghost else Broken))
   | _ \<Rightarrow> Broken)"
| "watch_frame (ErrorFrame _ _ _ _ _ _) m = (if mo_phase m = Idle then Failed else Broken)"
| "watch_frame _ m = Broken"

text \<open>A row: after its generation, and no row follows one that is not superseded.\<close>

definition row_in_order :: "assistant_insert \<Rightarrow> monitor \<Rightarrow> bool" where
  "row_in_order r m \<longleftrightarrow> list_all ai_truncated (mo_rows m) \<and> list_all (\<lambda>q. ai_id q \<noteq> ai_id r) (mo_rows m)
     \<and> (case ai_generation_id r of None \<Rightarrow> True | Some g \<Rightarrow> g \<in> set (mo_gens m))"

definition over :: "phase \<Rightarrow> bool" where
  "over ph \<longleftrightarrow> (case ph of Concluded _ _ _ \<Rightarrow> True | Failed \<Rightarrow> True | _ \<Rightarrow> False)"

definition watch :: "burst_act \<Rightarrow> monitor \<Rightarrow> monitor" where
  "watch a m =
     (if over (mo_phase m) then m\<lparr>mo_phase := Broken\<rparr>
      else (case a of
        RecordGen g \<Rightarrow> m\<lparr>mo_gens := (case gr_generation_id g of None \<Rightarrow> mo_gens m | Some x \<Rightarrow> x # mo_gens m)\<rparr>
      | Insert r \<Rightarrow> m\<lparr>mo_phase := (if row_in_order r m then mo_phase m else Broken), mo_rows := mo_rows m @ [r]\<rparr>
      | Yield f \<Rightarrow> m\<lparr>mo_phase := watch_frame f m,
          mo_seen := (case f of Meta i _ _ _ _ \<Rightarrow> i # mo_seen m | _ \<Rightarrow> mo_seen m)\<rparr>))"

definition monitor_of :: "burst \<Rightarrow> monitor" where
  "monitor_of b = fold watch (b_log b) monitor_start"

text \<open>The state of a burst between two bubbles: everything so far is superseded, and ids are fresh.\<close>

definition idle :: "burst \<Rightarrow> bool" where
  "idle b \<longleftrightarrow> mo_phase (monitor_of b) = Idle
     \<and> list_all (\<lambda>r. ai_truncated r \<and> ai_llm_attempts r = None \<and> ai_gateway_errors r = None \<and> ai_id r < b_next b)
         (mo_rows (monitor_of b))
     \<and> list_all (\<lambda>i. i < b_next b) (mo_seen (monitor_of b))
     \<and> list_all (\<lambda>m. pm_message_id m < b_next b) (bo_produced (b_out b))"

text \<open>
  How a burst ends: with the row that concludes it, which alone is not superseded and alone carries the
  failures, as the outcome does; or with an error and no such row.
\<close>

definition concluded :: "burst \<Rightarrow> assistant_insert \<Rightarrow> rstr \<Rightarrow> bool \<Rightarrow> bool" where
  "concluded b r wire ghost \<longleftrightarrow> mo_phase (monitor_of b) = Concluded r wire ghost
     \<and> (\<exists>rows. mo_rows (monitor_of b) = rows @ [r]
          \<and> list_all (\<lambda>q. ai_truncated q \<and> ai_llm_attempts q = None \<and> ai_gateway_errors q = None) rows)
     \<and> \<not> ai_truncated r \<and> (ai_llm_attempts r, ai_gateway_errors r) = split_failures (bo_failures (b_out b))
     \<and> map pm_message_id (bo_produced (b_out b)) = [ai_id r]"

lemma idle_start: "idle (burst_start n)"
  by (simp add: idle_def monitor_of_def burst_start_def monitor_start_def default_outcome_def)

lemma monitor_act: "monitor_of (act xs b) = fold watch xs (monitor_of b)"
  by (simp add: monitor_of_def act_def)

lemma monitor_other [simp]: "monitor_of (mint b) = monitor_of b" "monitor_of (set_out h b) = monitor_of b"
  "monitor_of (mark_filtered hits b) = monitor_of b" "monitor_of (push_produced p msg t b) = monitor_of b"
  by (simp_all add: monitor_of_def mint_def set_out_def mark_filtered_def push_produced_def)

lemma next_other [simp]: "b_next (mint b) = Suc (b_next b)" "b_next (set_out h b) = b_next b"
  "b_next (mark_filtered hits b) = b_next b" "b_next (push_produced p msg t b) = b_next b" "b_next (act xs b) = b_next b"
  by (simp_all add: mint_def set_out_def mark_filtered_def push_produced_def act_def)

lemma out_other [simp]: "b_out (mint b) = b_out b" "b_out (act xs b) = b_out b" "b_out (set_out h b) = h (b_out b)"
  by (simp_all add: mint_def act_def set_out_def)


section \<open>Inside a bubble\<close>

definition in_bubble :: "burst \<Rightarrow> ulid \<Rightarrow> rstr \<Rightarrow> bool" where
  "in_bubble b msg wire \<longleftrightarrow> mo_phase (monitor_of b) = Bubble msg wire \<and> msg < b_next b
     \<and> list_all (\<lambda>r. ai_truncated r \<and> ai_llm_attempts r = None \<and> ai_gateway_errors r = None \<and> ai_id r < msg)
         (mo_rows (monitor_of b))
     \<and> list_all (\<lambda>i. i < b_next b) (mo_seen (monitor_of b))
     \<and> list_all (\<lambda>m. pm_message_id m < msg) (bo_produced (b_out b))"

lemma log_act [simp]: "b_log (act xs b) = b_log b @ xs"
  by (simp add: act_def)

lemma watch_exhausted: "mo_phase m = Idle \<Longrightarrow> watch (Yield (exhausted_frame fs)) m = m\<lparr>mo_phase := Failed\<rparr>"
  by (simp add: watch_def over_def exhausted_frame_def Let_def case_prod_beta del: str_simps)

lemma out_push [simp]: "b_out (push_produced p msg t b) = (b_out b)\<lparr>bo_produced := bo_produced (b_out b)
     @ [\<lparr>pm_message_id = msg, pm_full_text = t, pm_action = ba_plan_action p\<rparr>]\<rparr>"
  by (simp add: push_produced_def set_out_def)

lemma list_all_less_Suc: "list_all (\<lambda>x. f x < n) xs \<Longrightarrow> list_all (\<lambda>x. f x < Suc n) xs"
  by (auto simp: list_all_iff)

lemma watch_deltas:
  "mo_phase m = Bubble i t \<Longrightarrow> fold watch (map (\<lambda>x. Yield (Delta i x)) xs) m = m\<lparr>mo_phase := Bubble i (t @ concat xs)\<rparr>"
  by (induction xs arbitrary: m t) (simp_all add: watch_def over_def)

lemma open_bubble:
  assumes "idle b"
  shows "in_bubble (act [Yield (Meta (b_next b) fa model c sp)] (mint b)) (b_next b) []"
  using assms
  by (auto simp: idle_def in_bubble_def monitor_act watch_def over_def list_all_iff)

lemma deltas_in_bubble:
  assumes "in_bubble b msg wire"
  shows "in_bubble (act (map (\<lambda>x. Yield (Delta msg x)) xs) b) msg (wire @ concat xs)"
  using assms watch_deltas [of "monitor_of b" msg wire xs] by (simp add: in_bubble_def monitor_act)

lemma supersede:
  assumes "in_bubble b msg wire"
  shows "in_bubble (act [Yield (Done msg True u g gh), Yield (Meta (b_next b) fa model c sp)] (mint b)) (b_next b) []"
  using assms by (auto simp: in_bubble_def monitor_act watch_def over_def list_all_iff)

text \<open>The row that closes a superseded live bubble.\<close>

definition recorded_in :: "rstr option \<Rightarrow> burst \<Rightarrow> bool" where
  "recorded_in gen_id b \<longleftrightarrow> (case gen_id of None \<Rightarrow> True | Some g \<Rightarrow> g \<in> set (mo_gens (monitor_of b)))"

lemma close_superseded:
  assumes "in_bubble b msg wire" and "recorded_in g b" and "ai_id r = msg" and "ai_truncated r"
    and "ai_llm_attempts r = None" and "ai_gateway_errors r = None" and "ai_generation_id r = g"
  shows "idle (act [Yield (Done msg True u g gh)] (push_produced p msg t (act [Insert r] b)))"
  using assms
  by (auto simp: in_bubble_def idle_def recorded_in_def monitor_act watch_def over_def row_in_order_def list_all_iff
      split: option.splits)


lemma watch_done:
  assumes "mo_phase m = Bubble i t" and "mo_rows m = rows @ [r]" and "ai_id r = i" and "\<not> ai_truncated r"
    and "ai_generation_id r = g"
  shows "watch (Yield (Done i False u g gh)) m = m\<lparr>mo_phase := Concluded r t gh\<rparr>"
proof -
  have "(case rows @ [r] of [] \<Rightarrow> Broken | _ \<Rightarrow> x) = x" for x by (cases rows) simp_all
  then show ?thesis using assms by (simp add: watch_def over_def)
qed

lemma watch_own_bubble:
  assumes "mo_phase m = Idle" and "row_in_order r m" and "ai_id r = i" and "\<not> ai_truncated r"
    and "ai_generation_id r = g" and "i \<notin> set (mo_seen m)"
  shows "fold watch [Insert r, Yield (Meta i fa model c sp), Yield (Delta i t), Yield (Done i False u g gh)] m
    = m\<lparr>mo_phase := Concluded r t gh, mo_rows := mo_rows m @ [r], mo_seen := i # mo_seen m\<rparr>"
proof -
  have "fold watch [Insert r, Yield (Meta i fa model c sp), Yield (Delta i t)] m
    = m\<lparr>mo_phase := Bubble i t, mo_rows := mo_rows m @ [r], mo_seen := i # mo_seen m\<rparr>"
    using assms by (simp add: watch_def over_def)
  then show ?thesis using assms by (simp add: watch_done)
qed

lemma conclude:
  assumes "in_bubble b msg wire" and "recorded_in (ai_generation_id r) b" and "ai_id r = msg" and "\<not> ai_truncated r"
    and "monitor_of c = fold watch [Insert r, Yield (Done msg False u (ai_generation_id r) gh)] (monitor_of b)"
    and "(ai_llm_attempts r, ai_gateway_errors r) = split_failures (bo_failures (b_out c))"
    and "map pm_message_id (bo_produced (b_out c)) = [msg]"
  shows "concluded c r wire gh"
proof -
  let ?m = "monitor_of b"
  have ph: "mo_phase ?m = Bubble msg wire" and rows: "list_all (\<lambda>r. ai_truncated r \<and> ai_llm_attempts r = None
      \<and> ai_gateway_errors r = None \<and> ai_id r < msg) (mo_rows ?m)"
    using assms(1) by (simp_all add: in_bubble_def)
  have "row_in_order r ?m"
    using rows assms(2,3) by (auto simp: row_in_order_def recorded_in_def list_all_iff)
  then have "monitor_of c = ?m\<lparr>mo_phase := Concluded r wire gh, mo_rows := mo_rows ?m @ [r]\<rparr>"
    using ph assms(3-5) by (simp add: watch_done [where i = msg and t = wire] watch_def [of "Insert r"] over_def)
  then show ?thesis using rows assms(3,4,6,7) by (auto simp: concluded_def list_all_iff)
qed

definition ended_in_error :: "burst \<Rightarrow> attempt_failure list \<Rightarrow> bool" where
  "ended_in_error b failures \<longleftrightarrow> mo_phase (monitor_of b) = Failed \<and> list_all ai_truncated (mo_rows (monitor_of b))
     \<and> b_log b \<noteq> [] \<and> last (b_log b) = Yield (exhausted_frame failures)"

lemma split_recorded: "(fst (split_failures fs), snd (split_failures fs)) = split_failures fs"
  by simp

lemma replacement_concludes:
  assumes "idle b"
  shows "\<exists>r. concluded (replacement p reason txt k c n fs b) r txt False \<and> ai_content r = txt
    \<and> ai_continues_from r = c
    \<and> b_out (replacement p reason txt k c n fs b)
      = (b_out b)\<lparr>bo_produced := [\<lparr>pm_message_id = ai_id r, pm_full_text = txt, pm_action = ba_plan_action p\<rparr>],
           bo_failures := fs @ [chain_exhausted (task_name p) n]\<rparr>"
proof -
  let ?c = "replacement p reason txt k c n fs b"
  let ?r = "assistant_row p (b_next b) txt c False None None (fallback_metadata p reason k)
    (split_failures (fs @ [chain_exhausted (task_name p) n]))"
  have order: "row_in_order ?r (monitor_of b)"
    using assms by (auto simp: row_in_order_def idle_def assistant_row_def list_all_iff)
  have fresh: "b_next b \<notin> set (mo_seen (monitor_of b))" "mo_phase (monitor_of b) = Idle"
    using assms by (auto simp: idle_def list_all_iff)
  have m: "monitor_of ?c = (monitor_of b)\<lparr>mo_phase := Concluded ?r txt False, mo_rows := mo_rows (monitor_of b) @ [?r],
      mo_seen := b_next b # mo_seen (monitor_of b)\<rparr>"
    using watch_own_bubble [OF fresh(2) order, of "b_next b" None] fresh(1)
    by (simp add: replacement_def Let_def monitor_act assistant_row_def del: fold_simps)
  have o: "b_out ?c = (b_out b)\<lparr>bo_produced := [\<lparr>pm_message_id = b_next b, pm_full_text = txt, pm_action = ba_plan_action p\<rparr>],
      bo_failures := fs @ [chain_exhausted (task_name p) n]\<rparr>"
    by (simp add: replacement_def Let_def)
  have "concluded ?c ?r txt False"
    using m o assms by (auto simp: concluded_def idle_def assistant_row_def list_all_iff)
  then show ?thesis using o by (intro exI [of _ ?r]) (simp add: assistant_row_def)
qed

definition exhausts :: "burst_env \<Rightarrow> burst_args \<Rightarrow> bool \<Rightarrow> rstr option \<Rightarrow> nat \<Rightarrow> attempt_failure list \<Rightarrow> burst \<Rightarrow> bool" where
  "exhausts env p byok garble n failures b \<longleftrightarrow>
     (case or_else garble (if byok then None else en_phrase env) of
        Some txt \<Rightarrow> (\<exists>r. concluded b r txt False \<and> ai_content r = txt
          \<and> map pm_full_text (bo_produced (b_out b)) = [txt]
          \<and> bo_failures (b_out b) = failures @ [chain_exhausted (task_name p) n])
      | None \<Rightarrow> ended_in_error b failures)
     \<and> bo_retries_chat (b_out b) = n - 1"

lemma idle_set_out: "bo_produced (h (b_out b)) = bo_produced (b_out b) \<Longrightarrow> idle (set_out h b) = idle b"
  by (simp add: idle_def)

lemma exhaust_ends:
  assumes "idle b"
  shows "exhausts env p byok garble n failures (exhaust env p byok garble c n failures b)"
proof -
  let ?b = "set_out (\<lambda>out. out\<lparr>bo_retries_chat := n - 1\<rparr>) b"
  have i: "idle ?b" using assms by (simp add: idle_set_out)
  have repl: "exhausts env p byok g n failures (replacement p reason t (n - 1) c n failures ?b)"
    if "or_else g (if byok then None else en_phrase env) = Some t" for g reason t
    using replacement_concludes [OF i, of p reason t "n - 1" c n failures] that
    by (auto simp: exhausts_def)
  show ?thesis
  proof (cases garble)
    case (Some t)
    then show ?thesis using repl [of garble t] by (simp add: exhaust_def garble_repaired_replacement_def or_else_def)
  next
    case None
    show ?thesis
    proof (cases "if byok then None else en_phrase env")
      case (Some t)
      then show ?thesis using repl [of None t] None
        by (simp add: exhaust_def stream_failure_pseudo_ghost_def or_else_def)
    next
      case no: None
      have "ended_in_error (act [Yield (exhausted_frame failures)] ?b) failures"
        using i by (simp add: ended_in_error_def monitor_act idle_def watch_exhausted list_all_iff)
      then show ?thesis using None no by (simp add: exhausts_def exhaust_def or_else_def)
    qed
  qed
qed


section \<open>One live attempt\<close>

lemma act_step: "act (x # y # xs) b = act (y # xs) (act [x] b)"
  by (simp add: act_def)

lemma record_in_bubble:
  assumes "in_bubble b msg wire"
  shows "in_bubble (act [RecordGen g] b) msg wire" "recorded_in (record_generation recorded g) (act [RecordGen g] b)"
  using assms
  by (auto simp: in_bubble_def recorded_in_def record_generation_def monitor_act watch_def over_def split: option.splits)

lemma regex_audit_frame:
  assumes "regex_audit env hits raw b = (audit, b')"
  shows "monitor_of b' = monitor_of b \<and> b_next b \<le> b_next b' \<and> b_out b' = b_out b \<and> b_log b' = b_log b"
  using assms by (auto simp: regex_audit_def mint_def split: if_splits) (auto simp: monitor_of_def)

definition regex_emptied :: "burst_args \<Rightarrow> strip_outcome \<Rightarrow> bool" where
  "regex_emptied p strip \<longleftrightarrow> matched_rules strip \<noteq> [] \<and> cleaned strip = [] \<and> \<not> promises_image (ba_plan_action p)"

lemma served_text_frame:
  assumes "served_text env p hop acc b = (content, audit, rg, b')"
  shows "content = cleaned (strip_reply env hop acc) \<and> rg = regex_emptied p (strip_reply env hop acc)
    \<and> monitor_of b' = monitor_of b \<and> b_next b \<le> b_next b' \<and> bo_produced (b_out b') = bo_produced (b_out b)"
proof -
  let ?strip = "strip_reply env hop acc"
  let ?b = "mark_filtered (matched_rules ?strip) b"
  obtain au b1 where ra: "regex_audit env (matched_rules ?strip) acc ?b = (au, b1)" by fastforce
  have out: "bo_produced (b_out ?b) = bo_produced (b_out b)" by (simp add: mark_filtered_def)
  have "content = cleaned ?strip" "rg = regex_emptied p ?strip" "b' = b1"
    using assms ra by (auto simp: served_text_def regex_emptied_def Let_def)
  with regex_audit_frame [OF ra] out show ?thesis by simp
qed

lemma in_bubble_frame:
  assumes "in_bubble b msg wire" and "monitor_of b' = monitor_of b" and "b_next b \<le> b_next b'"
    and "bo_produced (b_out b') = bo_produced (b_out b)"
  shows "in_bubble b' msg wire"
  using assms by (auto simp: in_bubble_def list_all_iff)

lemma live_persist_superseded:
  assumes "in_bubble b msg wire" and "live_persist env p hop recorded msg c a acc True ghost fs b = (rg, b')"
  shows "idle b'"
proof -
  let ?g = "chat_generation p hop a"
  let ?r = "assistant_row p msg acc c True (record_generation recorded ?g) None
    (if ghost then ghost_fallback_metadata (build_metadata p None []) (str ''empty_completion'') else build_metadata p None [])
    (None, None)"
  have b': "b' = act [Yield (Done msg True (filter_usage_keys (en_hidden env) (at_usage a)) (record_generation recorded ?g) ghost)]
      (push_produced p msg acc (act [Insert ?r] (act [RecordGen ?g] b)))"
    using assms(2) by (auto simp: live_persist_def Let_def act_step)
  show ?thesis unfolding b'
    by (rule close_superseded [OF record_in_bubble [OF assms(1)]]) (simp_all add: assistant_row_def)
qed

lemma live_persist_served:
  assumes "in_bubble b msg wire" and "live_persist env p hop recorded msg c a acc False ghost fs b = (rg, b')"
    and "gh = (ghost \<or> rg)"
  shows "rg = regex_emptied p (strip_reply env hop acc)
    \<and> (\<exists>r. concluded (live_conclude msg k gh fs b') r wire gh \<and> ai_content r = cleaned (strip_reply env hop acc)
        \<and> ai_continues_from r = c
        \<and> map pm_full_text (bo_produced (b_out (live_conclude msg k gh fs b'))) = [ai_content r])"
proof -
  obtain content audit rg0 b0 where st: "served_text env p hop acc b = (content, audit, rg0, b0)"
    by (cases "served_text env p hop acc b") auto
  note f = served_text_frame [OF st]
  have in0: "in_bubble b0 msg wire" using in_bubble_frame [OF assms(1), of b0] f by simp
  let ?g = "chat_generation p hop a" let ?gid = "record_generation recorded ?g"
  let ?u = "filter_usage_keys (en_hidden env) (at_usage a)"
  let ?md = "if ghost then ghost_fallback_metadata (build_metadata p None []) (str ''empty_completion'')
    else if rg0 then ghost_fallback_metadata (build_metadata p None []) (str ''regex_strip'') else build_metadata p None []"
  let ?r = "assistant_row p msg content c False ?gid audit ?md (split_failures fs)"
  have b': "b' = act [Yield (Done msg False ?u ?gid (ghost \<or> rg0))] (push_produced p msg content
      (act [Insert ?r] (act [RecordGen ?g] b0)))"
    "rg = rg0"
    using assms(2) unfolding live_persist_def st Let_def
    by (auto simp add: st act_step split del: if_split simp del: str_simps)
  let ?c = "live_conclude msg k gh fs b'"
  have old: "list_all (\<lambda>m. pm_message_id m < msg) (bo_produced (b_out b0))" using in0 by (simp add: in_bubble_def)
  have "filter (\<lambda>m. pm_message_id m = msg) (bo_produced (b_out b0)) = []"
    using old by (auto simp: list_all_iff filter_empty_conv)
  then have pr: "bo_produced (b_out ?c) = [\<lparr>pm_message_id = msg, pm_full_text = content, pm_action = ba_plan_action p\<rparr>]"
    by (simp add: live_conclude_def b')
  have "concluded ?c ?r wire gh"
    by (rule conclude [OF record_in_bubble(1) [OF in0], where g1 = ?g and u = ?u])
      (use record_in_bubble(2) [OF in0, of recorded ?g] pr in
        \<open>simp_all add: assistant_row_def live_conclude_def b' monitor_act assms(3)\<close>)
  then show ?thesis using f b' pr by (intro conjI exI [of _ ?r]) (simp_all add: assistant_row_def)
qed


section \<open>Live mode\<close>

fun attempts_from :: "burst_env \<Rightarrow> burst_args \<Rightarrow> nat \<Rightarrow> chat_hop list \<Rightarrow> chat_attempt list" where
  "attempts_from env p i [] = []"
| "attempts_from env p i (hop # hops) = chat_attempt_of env p i hop # attempts_from env p (Suc i) hops"

text \<open>How many attempts are superseded before one is served; the latest complete garble among them.\<close>

definition superseded :: "nat \<Rightarrow> nat \<Rightarrow> chat_attempt list \<Rightarrow> nat" where
  "superseded n i as = length (takeWhile (\<lambda>(j, a). live_truncated n j a) (enumerate i as))"

definition latest_garble :: "chat_attempt list \<Rightarrow> rstr option \<Rightarrow> rstr option" where
  "latest_garble as = fold (\<lambda>a g. if live_garbled a \<and> \<not> at_truncated a then Some (live_text a) else g) as"

definition failures_of :: "chat_attempt list \<Rightarrow> attempt_failure list" where
  "failures_of as = concat (map at_failures as)"

lemma length_attempts [simp]: "length (attempts_from env p i hops) = length hops"
  by (induction hops arbitrary: i) simp_all

lemma attempts_nth: "k < length hops \<Longrightarrow> attempts_from env p i hops ! k = chat_attempt_of env p (i + k) (hops ! k)"
proof (induction hops arbitrary: i k)
  case (Cons hop hops)
  then show ?case by (cases k) simp_all
qed simp

lemma attempts_fold_simps [simp]:
  "superseded n i [] = 0" "latest_garble [] g = g" "failures_of [] = []"
  "superseded n i (a # as) = (if live_truncated n i a then Suc (superseded n (Suc i) as) else 0)"
  "latest_garble (a # as) g = latest_garble as (if live_garbled a \<and> \<not> at_truncated a then Some (live_text a) else g)"
  "failures_of (a # as) = at_failures a @ failures_of as"
  by (simp_all add: superseded_def latest_garble_def failures_of_def)

text \<open>The attempt that is served: its row holds the whole-text form, its bubble the streamed one.\<close>

definition live_serves :: "burst_env \<Rightarrow> burst_args \<Rightarrow> nat \<Rightarrow> nat \<Rightarrow> chat_hop \<Rightarrow> chat_attempt \<Rightarrow> attempt_failure list
    \<Rightarrow> burst \<Rightarrow> bool" where
  "live_serves env p n i hop a failures b \<longleftrightarrow>
     (\<exists>r ghost. concluded b r (concat (live_deltas env hop a)) ghost
        \<and> ai_content r = cleaned (strip_reply env hop (at_acc a))
        \<and> ghost = (live_ghost p n i a \<or> regex_emptied p (strip_reply env hop (at_acc a)))
        \<and> map pm_full_text (bo_produced (b_out b)) = [ai_content r])
     \<and> bo_retries_chat (b_out b) = i \<and> bo_failures (b_out b) = failures"

lemma not_truncated_text: "\<not> live_truncated n i a \<Longrightarrow> live_text a = at_acc a"
  by (simp add: live_truncated_def live_text_def)

lemma ghost_not_truncated: "live_ghost p n i a \<Longrightarrow> \<not> live_truncated n i a"
  by (auto simp: live_ghost_def live_truncated_def at_empty_def live_garbled_def looks_byte_garbled_def GARBLE_MIN_LEN_def)

lemma live_walk_ends:
  assumes "idle b" and "hops \<noteq> []" and "i + length hops = n"
    and "as = attempts_from env p i hops" and "k = superseded n i as"
  shows "if k < length hops
    then live_serves env p n (i + k) (hops ! k) (as ! k) (lw_failures w @ failures_of (take (Suc k) as))
           (live_walk env p byok n i hops w b)
    else exhausts env p byok (latest_garble as (lw_garble w)) n (lw_failures w @ failures_of as)
           (live_walk env p byok n i hops w b)"
  using assms
proof (induction hops arbitrary: i w b as k)
  case (Cons hop hops)
  let ?a = "chat_attempt_of env p i hop" let ?msg = "b_next b"
  let ?b1 = "act (Yield (meta_frame env p hop ?msg (lw_continues w))
                   # map (\<lambda>x. Yield (Delta ?msg x)) (live_deltas env hop ?a)) (mint b)"
  let ?fs = "lw_failures w @ at_failures ?a"
  let ?g = "if live_garbled ?a \<and> \<not> at_truncated ?a then Some (live_text ?a) else lw_garble w"
  let ?rec = "ar_recorded (chat_try env p i hop)"
  let ?as = "attempts_from env p (Suc i) hops"
  obtain rg b2 where lp: "live_persist env p hop ?rec ?msg (lw_continues w) ?a (live_text ?a) (live_truncated n i ?a)
      (live_ghost p n i ?a) ?fs ?b1 = (rg, b2)" by fastforce
  have bub: "in_bubble ?b1 ?msg (concat (live_deltas env hop ?a))"
    using deltas_in_bubble [OF open_bubble [OF Cons.prems(1)], where xs = "live_deltas env hop ?a"]
    by (simp add: meta_frame_def act_def)
  note walk = live_walk.simps(2) [of env p byok n i hop hops w b, unfolded Let_def lp prod.case]
  show ?case
  proof (cases "live_truncated n i ?a")
    case False
    let ?gh = "live_ghost p n i ?a \<or> rg"
    have "live_walk env p byok n i (hop # hops) w b = live_conclude ?msg i ?gh ?fs b2"
    proof (cases "live_ghost p n i ?a")
      case True
      then have "n - 1 = i" by (auto simp: live_ghost_def)
      then show ?thesis using walk True by simp
    qed (use walk False in simp)
    moreover have lp2: "live_persist env p hop ?rec ?msg (lw_continues w) ?a (at_acc ?a) False
        (live_ghost p n i ?a) ?fs ?b1 = (rg, b2)"
      using lp False not_truncated_text [OF False] by simp
    moreover have "live_serves env p n i hop ?a ?fs (live_conclude ?msg i ?gh ?fs b2)"
      using live_persist_served [OF bub lp2 refl, of i] by (auto simp: live_serves_def live_conclude_def)
    ultimately show ?thesis using False Cons.prems(4,5) by simp
  next
    case True
    have lp2: "live_persist env p hop ?rec ?msg (lw_continues w) ?a (live_text ?a) True (live_ghost p n i ?a) ?fs ?b1 = (rg, b2)"
      using lp True by simp
    have i2: "idle b2" by (rule live_persist_superseded [OF bub lp2])
    have ng: "\<not> live_ghost p n i ?a" using ghost_not_truncated True by blast
    show ?thesis
    proof (cases "hops = []")
      case True
      then have "live_walk env p byok n i (hop # hops) w b = exhaust env p byok ?g (Some ?msg) n ?fs b2"
        using walk ng \<open>live_truncated n i ?a\<close> Cons.prems(3) by simp
      then show ?thesis
        using exhaust_ends [OF i2, of env p byok ?g n ?fs "Some ?msg"] True \<open>live_truncated n i ?a\<close> Cons.prems(4,5)
        by simp
    next
      case more: False
      let ?w = "\<lparr>lw_continues = Some ?msg, lw_garble = ?g, lw_failures = ?fs\<rparr>"
      have "Suc i \<noteq> n" using Cons.prems(3) more by (cases hops) auto
      then have step: "live_walk env p byok n i (hop # hops) w b = live_walk env p byok n (Suc i) hops ?w b2"
        using walk ng True by simp
      have "Suc i + length hops = n" using Cons.prems(3) by simp
      from Cons.IH [OF i2 more this refl refl, of ?w] show ?thesis
        unfolding step using True Cons.prems(4,5)
        by (cases "superseded n (Suc i) ?as < length hops") (simp_all split del: if_split)
    qed
  qed
qed simp


section \<open>Filtered mode\<close>

text \<open>From one burst to a later one in the same reply: generations are only added, messages not yet.\<close>

definition carries_on :: "burst \<Rightarrow> burst \<Rightarrow> bool" where
  "carries_on b b' \<longleftrightarrow> set (mo_gens (monitor_of b)) \<subseteq> set (mo_gens (monitor_of b'))
     \<and> bo_produced (b_out b') = bo_produced (b_out b) \<and> bo_ghost_fallback (b_out b') = bo_ghost_fallback (b_out b)
     \<and> bo_retries_chat (b_out b') = bo_retries_chat (b_out b)"

lemma carries_on_refl [simp]: "carries_on b b"
  by (simp add: carries_on_def)

lemma carries_on_trans: "carries_on a b \<Longrightarrow> carries_on b c \<Longrightarrow> carries_on a c"
  by (auto simp: carries_on_def)

lemma recorded_carried: "carries_on b b' \<Longrightarrow> recorded_in g b \<Longrightarrow> recorded_in g b'"
  by (auto simp: carries_on_def recorded_in_def split: option.splits)

lemma drive_filter_bubble:
  "in_bubble b (fd_ulid d) t \<Longrightarrow> drive_filter env p hop evs d b = (d', b')
    \<Longrightarrow> in_bubble b' (fd_ulid d') (bubble_text evs t) \<and> fd_streamed d' = streamed_of evs (fd_streamed d) \<and> carries_on b b'"
proof (induction env p hop evs d b arbitrary: t rule: drive_filter.induct)
  case (2 env p hop x evs d b)
  let ?b = "act [Yield (Delta (fd_ulid d) x)] (set_out (\<lambda>out. out\<lparr>bo_filtered := True\<rparr>) b)"
  have "in_bubble (set_out (\<lambda>out. out\<lparr>bo_filtered := True\<rparr>) b) (fd_ulid d) t"
    by (rule in_bubble_frame [OF 2(2)]) simp_all
  from deltas_in_bubble [OF this, of "[x]"] have b: "in_bubble ?b (fd_ulid d) (t @ x)" by simp
  have "carries_on b ?b"
    using 2(2) by (simp add: carries_on_def monitor_act watch_def over_def in_bubble_def)
  with 2(1) [of "t @ x"] b 2(3) show ?case by (auto intro: carries_on_trans)
next
  case (3 env p hop had_emitted evs d b)
  show ?case
  proof (cases had_emitted)
    case True
    let ?b = "act [Yield (Done (fd_ulid d) True None None False), Yield (meta_frame env p hop (b_next b) None)] (mint b)"
    have b: "in_bubble ?b (b_next b) []" using supersede [OF 3(3)] by (simp add: meta_frame_def)
    have "carries_on b ?b"
      using 3(3) by (auto simp: carries_on_def monitor_act watch_def over_def in_bubble_def meta_frame_def list_all_iff)
    with 3(1) [OF True, of "[]"] b 3(4) True show ?thesis by (auto intro: carries_on_trans)
  next
    case False
    then show ?thesis using 3(2) [OF False 3(3)] 3(4) by simp
  qed
next
  case (6 env p hop g evs d b)
  have "in_bubble (act [RecordGen g] b) (fd_ulid d) t" using record_in_bubble [OF 6(2)] by simp
  moreover have "carries_on b (act [RecordGen g] b)"
    using 6(2) by (auto simp: carries_on_def monitor_act watch_def over_def in_bubble_def split: option.splits)
  ultimately show ?case using 6(1,3) by (auto intro: carries_on_trans)
qed auto

lemma drive_filter_append:
  "drive_filter env p hop (xs @ ys) d b = (let (d, b) = drive_filter env p hop xs d b in drive_filter env p hop ys d b)"
  by (induction env p hop xs d b rule: drive_filter.induct) simp_all

lemma drive_filter_no_verdict:
  "list_all (\<lambda>e. \<not> is_verdict e) evs \<Longrightarrow> drive_filter env p hop evs d b = (d', b')
    \<Longrightarrow> fd_served d' = fd_served d \<and> fd_failed d' = fd_failed d"
  by (induction env p hop evs d b rule: drive_filter.induct) (auto split: if_splits)

lemma apply_rules_hits: "prefix hits (snd (apply_rules m i rules cur hits))"
proof (induction rules arbitrary: i cur hits)
  case (Cons rule rules)
  have "prefix (hits @ [i]) (snd (apply_rules m (Suc i) rules cur' (hits @ [i])))" for cur' by (rule Cons.IH)
  then have "prefix hits (snd (apply_rules m (Suc i) rules cur' (hits @ [i])))" for cur'
    by (meson prefix_order.trans prefixI)
  then show ?case using Cons.IH by (simp add: Let_def)
qed simp

lemma apply_rules_miss: "snd (apply_rules m i rules cur hits) = hits \<Longrightarrow> fst (apply_rules m i rules cur hits) = cur"
proof (induction rules arbitrary: i cur)
  case (Cons rule rules)
  have "prefix (hits @ [i]) (snd (apply_rules m (Suc i) rules cur' (hits @ [i])))" for cur' by (rule apply_rules_hits)
  then have "snd (apply_rules m (Suc i) rules cur' (hits @ [i])) \<noteq> hits" for cur'
    by (metis prefix_length_le length_append_singleton Suc_n_not_le_n)
  then show ?case using Cons by (auto simp: Let_def split: if_splits)
qed simp

lemma unmatched_is_whole: "matched_rules (strip_reply env hop acc) = [] \<Longrightarrow> cleaned (strip_reply env hop acc) = acc"
  using apply_rules_miss [of "bare_model_id (hop_slug hop)" 0 "hop_rules hop (en_output_regex env)" acc "[]"]
  by (simp add: strip_reply_def apply_output_regex_def case_prod_beta)


text \<open>A reply that waits in its bubble: nothing shown yet, or all of it.\<close>

definition reply_in_bubble :: "burst \<Rightarrow> shown_reply \<Rightarrow> bool" where
  "reply_in_bubble b r \<longleftrightarrow> in_bubble b (sr_ulid r) (if sr_streamed r then sr_visible r else [])"

lemma unfiltered_in_bubble:
  assumes "in_bubble b msg []" and "unfiltered_reply env hits raw visible msg False fail b = (r, b')"
  shows "reply_in_bubble b' r \<and> carries_on b b' \<and> sr_visible r = visible"
proof -
  obtain audit b1 where ra: "regex_audit env hits raw b = (audit, b1)" by fastforce
  note f = regex_audit_frame [OF ra]
  have "in_bubble b1 msg []" by (rule in_bubble_frame [OF assms(1)]) (use f in simp_all)
  moreover have "carries_on b b1" using f by (simp add: carries_on_def)
  ultimately show ?thesis using assms(2) ra by (auto simp: unfiltered_reply_def reply_in_bubble_def)
qed

lemma filtered_in_bubble:
  assumes b: "in_bubble b msg []" and r: "filtered_reply env p hop f h strip raw msg b = (r, b')"
  shows "reply_in_bubble b' r \<and> carries_on b b' \<and> (sr_visible r \<noteq> [] \<or> sr_visible r = cleaned strip)"
proof -
  let ?evs = "run_output_filter (en_casing env) (en_filter env) (ba_session_id p) f (cleaned strip) (f_id env (b_next b))"
  let ?d = "\<lparr>fd_ulid = msg, fd_streamed = False, fd_served = None, fd_failed = None\<rparr>"
  obtain d b1 where dr: "drive_filter env p hop ?evs ?d (mint b) = (d, b1)" by fastforce
  have m: "in_bubble (mint b) (fd_ulid ?d) []" using in_bubble_frame [OF b, of "mint b"] by simp
  note bub = drive_filter_bubble [OF m dr]
  have c: "carries_on b b1" using bub by (simp add: carries_on_def)
  from run_filter_ends [of "en_casing env" "en_filter env" "ba_session_id p" f "cleaned strip" "f_id env (b_next b)"]
  obtain init v k vs where iv: "?evs = init @ [v]" "list_all (\<lambda>e. \<not> is_verdict e) init"
    "good_verdict k (rp_model f # rp_fallback_model f) vs (bubble_text ?evs []) v"
    "streamed_of ?evs False \<longleftrightarrow> bubble_text ?evs [] \<noteq> []"
    by blast
  obtain d0 b0 where d0: "drive_filter env p hop init ?d (mint b) = (d0, b0)" by fastforce
  have none: "fd_served d0 = None" "fd_failed d0 = None"
    using drive_filter_no_verdict [OF iv(2) d0] by simp_all
  have last: "drive_filter env p hop [v] d0 b0 = (d, b1)"
    using dr unfolding iv(1) drive_filter_append d0 by simp
  show ?thesis
  proof (cases v)
    case (Served out)
    then have "fd_served d = Some out" using last by auto
    moreover have "fo_filtered_text out = bubble_text ?evs []" "bubble_text ?evs [] \<noteq> []"
      using iv(3) Served by (simp_all add: good_verdict_def)
    ultimately show ?thesis
      using r dr bub c iv(4) by (auto simp: filtered_reply_def reply_in_bubble_def carries_on_def in_bubble_def)
  next
    case (FailOpen fail)
    then have "fd_served d = None" using last none by auto
    moreover have "bubble_text ?evs [] = []" using iv(3) FailOpen by (simp add: good_verdict_def)
    ultimately have "unfiltered_reply env (matched_rules strip) raw (cleaned strip) (fd_ulid d) False (fd_failed d) b1 = (r, b')"
      "in_bubble b1 (fd_ulid d) []"
      using r dr bub iv(4) by (auto simp: filtered_reply_def)
    from unfiltered_in_bubble [OF this(2,1)] c show ?thesis by (auto intro: carries_on_trans)
  qed (use iv(3) in \<open>simp_all add: good_verdict_def\<close>)
qed

lemma shown_in_bubble:
  assumes "in_bubble b msg []" and "shown_of env p hop strip raw msg b = (r, b')"
  shows "reply_in_bubble b' r \<and> carries_on b b'
    \<and> (if matched_rules strip \<noteq> [] \<and> cleaned strip = [] then sr_visible r = []
       else sr_visible r \<noteq> [] \<or> sr_visible r = cleaned strip)"
  using assms(2) unfiltered_in_bubble [OF assms(1)] filtered_in_bubble [OF assms(1)]
  unfolding shown_of_def by (auto split: if_splits option.splits)


text \<open>
  A buffered reply that is served: its bubble shows exactly the text of its row, and it is marked silent
  exactly when the rules left nothing of the reply and no picture was promised.
\<close>

definition filtered_serves :: "burst_env \<Rightarrow> burst_args \<Rightarrow> nat \<Rightarrow> chat_hop \<Rightarrow> chat_attempt \<Rightarrow> attempt_failure list
    \<Rightarrow> burst \<Rightarrow> bool" where
  "filtered_serves env p i hop a failures b \<longleftrightarrow>
     (\<exists>r ghost. concluded b r (ai_content r) ghost
        \<and> (ai_content r = [] \<longleftrightarrow> matched_rules (strip_reply env hop (live_text a)) \<noteq> []
              \<and> cleaned (strip_reply env hop (live_text a)) = [])
        \<and> ghost = (ai_content r = [] \<and> \<not> promises_image (ba_plan_action p))
        \<and> map pm_full_text (bo_produced (b_out b))
          = [extract_text (case ba_filter p of Some f \<Rightarrow> ro_timing f | None \<Rightarrow> AfterExtract)
               (cleaned (strip_reply env hop (live_text a))) (ai_content r)])
     \<and> bo_retries_chat (b_out b) = i \<and> prefix failures (bo_failures (b_out b))"

lemma filtered_serve_ends:
  assumes "idle b" and "msg < b_next b" and "msg \<notin> set (mo_seen (monitor_of b))"
    and "list_all (\<lambda>r. ai_id r < msg) (mo_rows (monitor_of b))"
    and "bo_produced (b_out b) = []" and "recorded_in gen_id b" and "live_text a = acc" and "acc \<noteq> []"
  shows "filtered_serves env p i hop a failures (filtered_serve env p hop i msg a gen_id acc failures b)"
proof -
  let ?strip = "strip_reply env hop acc"
  let ?b1 = "act [Yield (meta_frame env p hop msg None)] (set_out (\<lambda>out. out\<lparr>bo_retries_chat := i\<rparr>) b)"
  let ?b2 = "mark_filtered (matched_rules ?strip) ?b1"
  obtain r b3 where sh: "shown_of env p hop ?strip acc msg ?b2 = (r, b3)" by fastforce
  have mon: "monitor_of ?b1 = (monitor_of b)\<lparr>mo_phase := Bubble msg [], mo_seen := msg # mo_seen (monitor_of b)\<rparr>"
    using assms(1,3) by (simp add: monitor_act meta_frame_def watch_def over_def idle_def)
  have out: "bo_produced (b_out ?b2) = []" "bo_retries_chat (b_out ?b2) = i"
    using assms(5) by (simp_all add: mark_filtered_def)
  have bub: "in_bubble ?b2 msg []"
    using assms(1,2,4) out by (auto simp: in_bubble_def mon idle_def list_all_iff)
  note s = shown_in_bubble [OF bub sh]
  let ?v = "sr_visible r"
  let ?b4 = "if ?v \<noteq> [] \<and> \<not> sr_streamed r then act [Yield (Delta (sr_ulid r) ?v)] b3 else b3"
  have bub4: "in_bubble ?b4 (sr_ulid r) ?v"
    using s deltas_in_bubble [of b3 "sr_ulid r" "[]" "[?v]"]
    by (auto simp: reply_in_bubble_def split: if_splits)
  have rec2: "recorded_in gen_id ?b2" using assms(6) mon by (cases gen_id) (simp_all add: recorded_in_def)
  have rec4: "recorded_in gen_id ?b4"
  proof -
    have "recorded_in gen_id b3" using recorded_carried s rec2 by blast
    moreover have "mo_gens (monitor_of ?b4) = mo_gens (monitor_of b3)"
      using s by (simp add: monitor_act watch_def over_def reply_in_bubble_def in_bubble_def)
    ultimately show ?thesis unfolding recorded_in_def by (simp only:)
  qed
  let ?c = "filtered_serve env p hop i msg a gen_id acc failures b"
  let ?fs = "failures @ sr_failures r"
  let ?ghost = "?v = [] \<and> \<not> promises_image (ba_plan_action p)"
  let ?u = "filter_usage_keys (en_hidden env) (at_usage a)"
  let ?meta = "build_metadata p (sr_fail r) (sr_attempts r)"
  let ?row = "assistant_row p (sr_ulid r) ?v None False gen_id (sr_audit r)
    (if ?ghost then ghost_fallback_metadata ?meta (str ''regex_strip'') else ?meta) (split_failures ?fs)"
  let ?x = "extract_text (case ba_filter p of Some f \<Rightarrow> ro_timing f | None \<Rightarrow> AfterExtract) (cleaned ?strip) ?v"
  have c: "?c = act [Yield (Done (sr_ulid r) False ?u gen_id ?ghost)]
      (set_out (\<lambda>out. out\<lparr>bo_ghost_fallback := (bo_ghost_fallback out \<or> ?ghost), bo_failures := ?fs\<rparr>)
        (push_produced p (sr_ulid r) ?x (act [Insert ?row] ?b4)))"
    unfolding filtered_serve_def Let_def sh prod.case by (rule refl)
  have b4: "b_out ?b4 = b_out b3" by simp
  have pr: "bo_produced (b_out ?c) = [\<lparr>pm_message_id = sr_ulid r, pm_full_text = ?x, pm_action = ba_plan_action p\<rparr>]"
    "bo_failures (b_out ?c) = ?fs" "bo_retries_chat (b_out ?c) = i"
    using s out b4 unfolding c by (simp_all add: carries_on_def)
  have row: "ai_generation_id ?row = gen_id" "ai_content ?row = ?v" "ai_id ?row = sr_ulid r" "\<not> ai_truncated ?row"
    "(ai_llm_attempts ?row, ai_gateway_errors ?row) = split_failures ?fs"
    by (simp_all add: assistant_row_def)
  have "concluded ?c ?row ?v ?ghost"
  proof (rule conclude [OF bub4, where u = ?u])
    show "recorded_in (ai_generation_id ?row) ?b4" using rec4 row(1) by simp
    show "monitor_of ?c = fold watch [Insert ?row, Yield (Done (sr_ulid r) False ?u (ai_generation_id ?row) ?ghost)] (monitor_of ?b4)"
      unfolding row(1) unfolding c by (simp add: monitor_act)
  qed (use row pr in simp_all)
  moreover have "?v = [] \<longleftrightarrow> matched_rules ?strip \<noteq> [] \<and> cleaned ?strip = []"
    using s unmatched_is_whole [of env hop acc] assms(8) by (auto split: if_splits)
  ultimately show ?thesis
    using pr row assms(7) unfolding filtered_serves_def
    by (intro conjI exI [of _ ?row] exI [of _ ?ghost]) simp_all
qed


text \<open>An empty last reply: an empty row, silent unless a picture was promised.\<close>

definition filtered_stays_silent :: "burst_args \<Rightarrow> nat \<Rightarrow> attempt_failure list \<Rightarrow> burst \<Rightarrow> bool" where
  "filtered_stays_silent p n failures b \<longleftrightarrow>
     (\<exists>r. concluded b r [] (\<not> promises_image (ba_plan_action p)) \<and> ai_content r = []
        \<and> map pm_full_text (bo_produced (b_out b)) = [[]])
     \<and> bo_retries_chat (b_out b) = n - 1 \<and> bo_failures (b_out b) = failures"

lemma filtered_empty_ends:
  assumes "idle b" and "bo_produced (b_out b) = []" and "recorded_in gen_id b"
  shows "filtered_stays_silent p n failures (filtered_empty env p hop n a gen_id failures b)"
proof -
  let ?msg = "b_next b" let ?ghost = "\<not> promises_image (ba_plan_action p)"
  let ?u = "filter_usage_keys (en_hidden env) (at_usage a)"
  let ?meta = "build_metadata p None []"
  let ?row = "assistant_row p ?msg [] None False gen_id None
    (if ?ghost then ghost_fallback_metadata ?meta (str ''empty_completion'') else ?meta) (split_failures failures)"
  let ?c = "filtered_empty env p hop n a gen_id failures b"
  have order: "row_in_order ?row (monitor_of b)"
    using assms(1,3) by (auto simp: row_in_order_def idle_def assistant_row_def list_all_iff recorded_in_def)
  have fresh: "?msg \<notin> set (mo_seen (monitor_of b))" "mo_phase (monitor_of b) = Idle"
    using assms(1) by (auto simp: idle_def list_all_iff)
  have ins: "watch (Insert ?row) (monitor_of b) = (monitor_of b)\<lparr>mo_rows := mo_rows (monitor_of b) @ [?row]\<rparr>"
    using order fresh(2) by (simp add: watch_def over_def)
  have m: "monitor_of ?c = (monitor_of b)\<lparr>mo_phase := Concluded ?row [] ?ghost, mo_rows := mo_rows (monitor_of b) @ [?row],
      mo_seen := ?msg # mo_seen (monitor_of b)\<rparr>"
  proof -
    have "monitor_of ?c = fold watch [Yield (meta_frame env p hop ?msg None), Yield (Done ?msg False ?u gen_id ?ghost)]
        (watch (Insert ?row) (monitor_of b))"
      unfolding filtered_empty_def Let_def by (simp add: monitor_act del: not_None_eq)
    also have "watch (Yield (meta_frame env p hop ?msg None)) (watch (Insert ?row) (monitor_of b))
        = (monitor_of b)\<lparr>mo_phase := Bubble ?msg [], mo_rows := mo_rows (monitor_of b) @ [?row],
            mo_seen := ?msg # mo_seen (monitor_of b)\<rparr>"
      unfolding ins using fresh by (simp add: watch_def over_def meta_frame_def)
    then have "fold watch [Yield (meta_frame env p hop ?msg None), Yield (Done ?msg False ?u gen_id ?ghost)]
        (watch (Insert ?row) (monitor_of b))
      = watch (Yield (Done ?msg False ?u gen_id ?ghost))
          ((monitor_of b)\<lparr>mo_phase := Bubble ?msg [], mo_rows := mo_rows (monitor_of b) @ [?row],
            mo_seen := ?msg # mo_seen (monitor_of b)\<rparr>)"
      by simp
    also have "\<dots> = (monitor_of b)\<lparr>mo_phase := Concluded ?row [] ?ghost, mo_rows := mo_rows (monitor_of b) @ [?row],
            mo_seen := ?msg # mo_seen (monitor_of b)\<rparr>"
      by (subst watch_done [where i = ?msg and t = "[]" and r = ?row and rows = "mo_rows (monitor_of b)"])
        (simp_all add: assistant_row_def)
    finally show ?thesis .
  qed
  have pr: "bo_produced (b_out ?c) = [\<lparr>pm_message_id = ?msg, pm_full_text = [], pm_action = ba_plan_action p\<rparr>]"
    "bo_failures (b_out ?c) = failures" "bo_retries_chat (b_out ?c) = n - 1"
    using assms(2) by (simp_all add: filtered_empty_def Let_def)
  have "concluded ?c ?row [] ?ghost"
    using assms(1) m pr by (auto simp: concluded_def idle_def assistant_row_def list_all_iff)
  then show ?thesis using pr by (auto simp: filtered_stays_silent_def assistant_row_def intro!: exI [of _ ?row])
qed

definition filtered_skips :: "nat \<Rightarrow> nat \<Rightarrow> chat_attempt \<Rightarrow> bool" where
  "filtered_skips n i a \<longleftrightarrow> at_truncated a \<or> (at_empty a \<and> Suc i < n)"

definition skipped :: "nat \<Rightarrow> nat \<Rightarrow> chat_attempt list \<Rightarrow> nat" where
  "skipped n i as = length (takeWhile (\<lambda>(j, a). filtered_skips n j a) (enumerate i as))"

lemma skipped_simps [simp]: "skipped n i [] = 0"
  "skipped n i (a # as) = (if filtered_skips n i a then Suc (skipped n (Suc i) as) else 0)"
  by (simp_all add: skipped_def)

lemma live_text_Nil: "live_text a = [] \<longleftrightarrow> at_acc a = []"
  by (simp add: live_text_def repair_byte_bpe_def)

lemma recorded_idle:
  assumes "idle b" and "b1 = act [RecordGen g] (mint b)"
  shows "idle b1 \<and> recorded_in (record_generation recorded g) b1 \<and> b_next b < b_next b1
    \<and> b_next b \<notin> set (mo_seen (monitor_of b1)) \<and> list_all (\<lambda>r. ai_id r < b_next b) (mo_rows (monitor_of b1))
    \<and> bo_produced (b_out b1) = bo_produced (b_out b)"
  using assms
  by (auto simp: idle_def monitor_act watch_def over_def recorded_in_def record_generation_def list_all_iff less_Suc_eq
      split: option.splits)

lemma filtered_walk_ends:
  assumes "idle b" and "bo_produced (b_out b) = []" and "hops \<noteq> []" and "i + length hops = n"
    and "as = attempts_from env p i hops" and "k = skipped n i as"
  shows "if k < length hops
    then (if at_empty (as ! k)
          then filtered_stays_silent p n (failures @ failures_of (take (Suc k) as)) (filtered_walk env p byok n i hops failures b)
          else filtered_serves env p (i + k) (hops ! k) (as ! k) (failures @ failures_of (take (Suc k) as))
                 (filtered_walk env p byok n i hops failures b))
    else exhausts env p byok None n (failures @ failures_of as) (filtered_walk env p byok n i hops failures b)"
  using assms
proof (induction hops arbitrary: i failures b as k)
  case (Cons hop hops)
  let ?a = "chat_attempt_of env p i hop"
  let ?fs = "failures @ at_failures ?a"
  let ?gen = "chat_generation p hop ?a"
  let ?gid = "record_generation (ar_recorded (chat_try env p i hop)) ?gen"
  let ?b1 = "act [RecordGen ?gen] (mint b)"
  let ?as = "attempts_from env p (Suc i) hops"
  note b1 = recorded_idle [OF Cons.prems(1) refl, of ?gen "ar_recorded (chat_try env p i hop)"]
  have i1: "idle ?b1" and p1: "bo_produced (b_out ?b1) = []" using b1 Cons.prems(2) by simp_all
  note walk = filtered_walk.simps(2) [of env p byok n i hop hops failures b, unfolded Let_def]
  show ?case
  proof (cases "filtered_skips n i ?a")
    case False
    then have nt: "\<not> at_truncated ?a" by (simp add: filtered_skips_def)
    show ?thesis
    proof (cases "at_empty ?a")
      case True
      then have "Suc i = n" using False Cons.prems(4) by (auto simp: filtered_skips_def)
      then show ?thesis
        using walk True False filtered_empty_ends [OF i1 p1, of ?gid p n ?fs env hop ?a] b1 Cons.prems(5,6) by simp
    next
      case ne: False
      then have "live_text ?a \<noteq> []" using nt by (simp add: at_empty_def live_text_Nil)
      then have "filtered_serves env p i hop ?a ?fs (filtered_serve env p hop i (b_next b) ?a ?gid (live_text ?a) ?fs ?b1)"
        using b1 p1 i1 by (intro filtered_serve_ends) simp_all
      then show ?thesis using walk ne nt False Cons.prems(5,6) by simp
    qed
  next
    case True
    show ?thesis
    proof (cases "hops = []")
      case last: True
      then have "at_truncated ?a" "\<not> at_empty ?a" "Suc i = n"
        using True Cons.prems(4) by (auto simp: filtered_skips_def at_empty_def)
      then show ?thesis
        using walk exhaust_ends [OF i1, of env p byok None n ?fs None] last True Cons.prems(5,6) by simp
    next
      case more: False
      have "Suc i \<noteq> n" using Cons.prems(4) more by (cases hops) auto
      then have step: "filtered_walk env p byok n i (hop # hops) failures b = filtered_walk env p byok n (Suc i) hops ?fs ?b1"
        using walk True by (auto simp: filtered_skips_def)
      have "Suc i + length hops = n" using Cons.prems(4) by simp
      from Cons.IH [OF i1 p1 more this refl refl, of ?fs] show ?thesis
        unfolding step using True Cons.prems(5,6)
        by (cases "skipped n (Suc i) ?as < length hops"; cases "at_empty (?as ! skipped n (Suc i) ?as)") simp_all
    qed
  qed
qed simp

end
