(* ===== verification/Chat_Burst_Props.thy ===== *)
theory Chat_Burst_Props
  imports Chat_Burst_Laws
begin

text \<open>
  The properties of one reply of a chat turn: the burst keeps to the wire protocol and its
  bookkeeping, which attempt it serves and what is left when none is, that the client's bubble and the
  stored row agree, and what the error of an exhausted chain reports.
\<close>

section \<open>The text of a live bubble\<close>

lemma concat_nonempty: "concat (filter (\<lambda>x. x \<noteq> []) xs) = concat xs"
  by (induction xs) auto

lemma concat_scrub_emits: "concat (scrub_emits ts xs) = scrub_stream ts xs"
proof (induction xs arbitrary: ts)
  case (Cons x xs)
  obtain ts' out where p: "scrub_push ts x = (ts', out)" by fastforce
  obtain ts'' outs where d: "scrub_deltas ts' xs = (ts'', outs)" by fastforce
  show ?case using Cons [of ts'] p d by (simp add: scrub_stream_def)
qed (simp add: scrub_stream_def)

definition hop_scrubber :: "burst_env \<Rightarrow> chat_hop \<Rightarrow> transform list" where
  "hop_scrubber env hop = scrubber_new (en_classify env) (en_bound env) (hop_rules hop (en_output_regex env))
     (bare_model_id (hop_slug hop))"

lemma live_wire: "concat (live_deltas env hop a) = scrub_stream (hop_scrubber env hop) (at_contents a)"
  by (simp add: live_deltas_def hop_scrubber_def concat_nonempty concat_scrub_emits)

lemma live_row_text:
  assumes "list_all t_ok (hop_scrubber env hop)"
  shows "cleaned (strip_reply env hop (at_acc a)) = concat (live_deltas env hop a)
    \<or> (cleaned (strip_reply env hop (at_acc a)) = [] \<and> trim (concat (live_deltas env hop a)) = [])"
  using scrub_stream_cleaned [OF assms [unfolded hop_scrubber_def], of "at_contents a"]
  unfolding live_wire strip_reply_def at_acc_def hop_scrubber_def [symmetric] by (auto split: if_splits)

section \<open>A reply as a whole\<close>

lemma burst_empty_chain:
  "drive_chat_burst_for env p [] b = act [Yield NO_MODELS_FRAME] b"
  by (simp add: drive_chat_burst_for_def)

definition live_burst_ends :: "burst_env \<Rightarrow> burst_args \<Rightarrow> chat_hop list \<Rightarrow> burst \<Rightarrow> bool" where
  "live_burst_ends env p chain b =
     (let as = attempts_from env p 0 chain; n = length chain; k = superseded n 0 as
      in if k < n then live_serves env p n k (chain ! k) (as ! k) (failures_of (take (Suc k) as)) b
         else exhausts env p (byok_only chain) (latest_garble as None) n (failures_of as) b)"

definition filtered_burst_ends :: "burst_env \<Rightarrow> burst_args \<Rightarrow> chat_hop list \<Rightarrow> burst \<Rightarrow> bool" where
  "filtered_burst_ends env p chain b =
     (let as = attempts_from env p 0 chain; n = length chain; k = skipped n 0 as
      in if k < n
         then (if at_empty (as ! k) then filtered_stays_silent p n (failures_of (take (Suc k) as)) b
               else filtered_serves env p k (chain ! k) (as ! k) (failures_of (take (Suc k) as)) b)
         else exhausts env p (byok_only chain) None n (failures_of as) b)"

lemma burst_live:
  assumes "\<not> filtered_mode p" and "chain \<noteq> []"
  shows "live_burst_ends env p chain (drive_chat_burst_for env p chain (burst_start m))"
proof -
  let ?w = "\<lparr>lw_continues = None, lw_garble = None, lw_failures = []\<rparr>"
  have "drive_chat_burst_for env p chain (burst_start m)
    = live_walk env p (byok_only chain) (length chain) 0 chain ?w (burst_start m)"
    using assms by (simp add: drive_chat_burst_for_def)
  with live_walk_ends [OF idle_start [of m] assms(2) _ refl refl, where i = 0 and n = "length chain" and w = ?w and byok = "byok_only chain"]
  show ?thesis unfolding live_burst_ends_def Let_def by (simp cong: if_cong split del: if_split)
qed

lemma burst_filtered:
  assumes "filtered_mode p" and "chain \<noteq> []"
  shows "filtered_burst_ends env p chain (drive_chat_burst_for env p chain (burst_start m))"
proof -
  have none: "bo_produced (b_out (burst_start m)) = []" by (simp add: burst_start_def default_outcome_def)
  have "drive_chat_burst_for env p chain (burst_start m)
    = filtered_walk env p (byok_only chain) (length chain) 0 chain [] (burst_start m)"
    using assms by (simp add: drive_chat_burst_for_def)
  with filtered_walk_ends [OF idle_start [of m] none assms(2) _ refl refl, where i = 0 and n = "length chain" and failures = "[]" and byok = "byok_only chain"]
  show ?thesis unfolding filtered_burst_ends_def Let_def by (simp cong: if_cong split del: if_split)
qed

text \<open>How any burst ends, whatever the mode.\<close>

definition burst_over :: "burst \<Rightarrow> bool" where
  "burst_over b \<longleftrightarrow> (\<exists>r wire ghost. concluded b r wire ghost)
     \<or> (mo_phase (monitor_of b) = Failed \<and> list_all ai_truncated (mo_rows (monitor_of b)))"

lemma burst_over_intros:
  "concluded b r wire ghost \<Longrightarrow> burst_over b" "ended_in_error b fs \<Longrightarrow> burst_over b"
  by (auto simp: burst_over_def ended_in_error_def)

lemma exhausts_over: "exhausts env p byok g n fs b \<Longrightarrow> burst_over b"
  by (auto simp: exhausts_def intro: burst_over_intros split: option.splits)

lemma live_over: "live_burst_ends env p chain b \<Longrightarrow> burst_over b"
  by (auto simp: live_burst_ends_def live_serves_def Let_def intro: burst_over_intros exhausts_over split: if_splits)

lemma filtered_over: "filtered_burst_ends env p chain b \<Longrightarrow> burst_over b"
  by (auto simp: filtered_burst_ends_def filtered_serves_def filtered_stays_silent_def Let_def
      intro: burst_over_intros exhausts_over split: if_splits)

lemma burst_empty_failed:
  "mo_phase (monitor_of (drive_chat_burst_for env p [] (burst_start m))) = Failed
    \<and> mo_rows (monitor_of (drive_chat_burst_for env p [] (burst_start m))) = []"
  by (simp add: burst_empty_chain monitor_act watch_def over_def NO_MODELS_FRAME_def burst_start_def monitor_of_def
      monitor_start_def del: str_simps)

lemma burst_ends: "burst_over (drive_chat_burst_for env p chain (burst_start m))"
proof (cases "chain = []")
  case True
  then show ?thesis using burst_empty_failed [of env p m] by (simp add: burst_over_def)
next
  case False
  then show ?thesis using burst_live burst_filtered live_over filtered_over by (cases "filtered_mode p") blast+
qed



section \<open>Which attempt is served\<close>


section \<open>What the client sees and what is stored\<close>

definition agrees :: "bool \<Rightarrow> rstr \<Rightarrow> rstr \<Rightarrow> bool" where
  "agrees exact wire content \<longleftrightarrow> wire = content \<or> (\<not> exact \<and> content = [] \<and> trim wire = [])"

lemma concluded_unique:
  "concluded b r wire ghost \<Longrightarrow> mo_phase (monitor_of b) = Concluded r' wire' ghost' \<Longrightarrow> r' = r \<and> wire' = wire"
  by (simp add: concluded_def)

lemma exhausts_agrees:
  assumes "exhausts env p byok g n fs b" and "mo_phase (monitor_of b) = Concluded r wire ghost"
  shows "agrees exact wire (ai_content r)"
  using assms concluded_unique
  by (fastforce simp: exhausts_def agrees_def ended_in_error_def split: option.splits)

lemma filtered_agrees:
  assumes "filtered_burst_ends env p chain b" and "mo_phase (monitor_of b) = Concluded r wire ghost"
  shows "agrees True wire (ai_content r)"
  using assms concluded_unique exhausts_agrees
  by (fastforce simp: filtered_burst_ends_def filtered_serves_def filtered_stays_silent_def agrees_def Let_def
      split: if_splits)

lemma live_agrees:
  assumes "list_all (\<lambda>hop. list_all t_ok (hop_scrubber env hop)) chain"
    and "live_burst_ends env p chain b" and "mo_phase (monitor_of b) = Concluded r wire ghost"
  shows "agrees False wire (ai_content r)"
proof -
  let ?as = "attempts_from env p 0 chain" let ?k = "superseded (length chain) 0 ?as"
  show ?thesis
  proof (cases "?k < length chain")
    case True
    then obtain r0 g where c: "concluded b r0 (concat (live_deltas env (chain ! ?k) (?as ! ?k))) g"
      "ai_content r0 = cleaned (strip_reply env (chain ! ?k) (at_acc (?as ! ?k)))"
      using assms(2) by (auto simp: live_burst_ends_def live_serves_def Let_def)
    have "list_all t_ok (hop_scrubber env (chain ! ?k))" using assms(1) True by (simp add: list_all_length)
    from live_row_text [OF this, of "?as ! ?k"] c concluded_unique [OF c(1) assms(3)] show ?thesis
      by (auto simp: agrees_def)
  next
    case False
    then show ?thesis using assms(2) exhausts_agrees [OF _ assms(3)] by (auto simp: live_burst_ends_def Let_def)
  qed
qed


section \<open>Concrete replies\<close>

definition sample_request :: chat_request where
  "sample_request = \<lparr>req_model = str ''m'', req_fallback_model = [], req_messages = [], req_temperature = f64_of_int 0,
     req_sampling = \<lparr>top_p = None, frequency_penalty = None, presence_penalty = None, repetition_penalty = None\<rparr>,
     req_max_tokens = 8, req_user = None, req_session_id = None, req_metadata = None, req_response_format = None,
     req_task = None\<rparr>"

definition sample_args :: burst_args where
  "sample_args = \<lparr>ba_session_id = 1, ba_frame_action = FReply, ba_persist_action = str ''reply'',
     ba_plan_action = ReplyText, ba_req = sample_request, ba_display = None, ba_filter = None, ba_trait_tags = [],
     ba_tier = None, ba_memory_scope = MemNone, ba_affinity_scope = scope_bond, ba_random_draw = None, ba_speaker = None\<rparr>"

definition sample_env :: "stream_fn \<Rightarrow> burst_env" where
  "sample_env run = \<lparr>en_output_regex = [bracket_rule], en_classify = (\<lambda>_. Span 91 93), en_bound = (\<lambda>_. None),
     en_hidden = [], en_phrase = None, en_casing = \<lparr>char_lower = (\<lambda>c. [c]), str_lower = (\<lambda>s. s)\<rparr>, en_chat = run,
     en_filter = (\<lambda>i slug req. \<lparr>ar_stream = OpenTimedOut, ar_recorded = False\<rparr>), en_show = (\<lambda>i. []), en_pick = (\<lambda>n. 0)\<rparr>"

definition platform_hop :: "rstr \<Rightarrow> chat_hop" where
  "platform_hop slug = \<lparr>hop_slug = slug, hop_audit = slug, hop_byok = None\<rparr>"

definition said :: "rstr \<Rightarrow> rstr option \<Rightarrow> llm_error + delta_chunk" where
  "said x finish = Inr \<lparr>dk_content = Some x, dk_reasoning = None, dk_finish_reason = finish, dk_usage = None, dk_generation_id = None,
     dk_model = None\<rparr>"

text \<open>A reply in two pieces, its bracket cut in the middle; and a timeout followed by a reply cut at its length.\<close>

definition two_pieces :: stream_fn where
  "two_pieces i slug req =
     \<lparr>ar_stream = Opened [said (str ''a[x'') None, said (str '']b'') (Some (str ''stop''))] False, ar_recorded = True\<rparr>"

definition timeout_then_cut :: stream_fn where
  "timeout_then_cut i slug req =
     \<lparr>ar_stream = (if i = 0 then OpenTimedOut else Opened [said (str ''hi'') (Some (str ''length''))] False),
      ar_recorded = True\<rparr>"

lemma sample_scrubber:
  "list_all (\<lambda>hop. list_all t_ok (hop_scrubber (sample_env run) hop)) [platform_hop (str ''m'')]"
  by (simp add: hop_scrubber_def sample_env_def platform_hop_def hop_rules_def scrubber_new_def transform_for_def
      t_ok_def bracket_laws span_held_ok_def bracket_rule_def)


section \<open>The error of an exhausted chain\<close>


end
