(* ===== verification/Chat_Turn_Laws.thy ===== *)
theory Chat_Turn_Laws
  imports Chat_Turn Turn_Plan_Laws Chat_Burst_Props
begin

text \<open>
  What a whole turn guarantees: the order of its frames, read by a monitor that takes over where the
  monitor of the reply burst leaves off; what it leaves behind, and when; and the product answer.
\<close>

section \<open>The frames of a turn\<close>

text \<open>
  Before the reply; in a bubble; after a bubble, with whether it was marked cut; after the picture of
  the last one; ended; or out of order, a panic included.
\<close>

datatype turn_phase = Opening | InBubble ulid | AfterBubble ulid bool | Pictured | Ended | Disordered

fun frame_phase :: "protocol_frame \<Rightarrow> turn_phase \<Rightarrow> turn_phase" where
  "frame_phase (Reasoning _) ph = (if ph = Opening then Opening else Disordered)"
| "frame_phase (ActionResponseFrame _ _) ph = (if ph = Opening then Opening else Disordered)"
| "frame_phase (BodyState _ _ _) ph = (if ph = Opening then Opening else Disordered)"
| "frame_phase (Meta i _ _ _ _) ph = (case ph of
     Opening \<Rightarrow> InBubble i | AfterBubble _ True \<Rightarrow> InBubble i | _ \<Rightarrow> Disordered)"
| "frame_phase (Delta i _) ph = (if ph = InBubble i then ph else Disordered)"
| "frame_phase (Done i t _ _ _) ph = (if ph = InBubble i then AfterBubble i t else Disordered)"
| "frame_phase (ImageRequest i _ _ _ _) ph = (if ph = AfterBubble i False then Pictured else Disordered)"
| "frame_phase (Final _ _ _ _ _ _ _) ph = (case ph of AfterBubble _ _ \<Rightarrow> Ended | Pictured \<Rightarrow> Ended | _ \<Rightarrow> Disordered)"
| "frame_phase (ErrorFrame _ _ _ _ _ _) ph = (case ph of
     Opening \<Rightarrow> Ended | InBubble _ \<Rightarrow> Ended | AfterBubble _ True \<Rightarrow> Ended | _ \<Rightarrow> Disordered)"
| "frame_phase _ ph = Disordered"

fun act_phase :: "turn_act \<Rightarrow> turn_phase \<Rightarrow> turn_phase" where
  "act_phase (TYield f) ph = frame_phase f ph"
| "act_phase TPanic ph = Disordered"
| "act_phase _ ph = ph"

subsection \<open>Inside the reply burst\<close>

fun phase_sim :: "phase \<Rightarrow> turn_phase \<Rightarrow> bool" where
  "phase_sim Idle ph \<longleftrightarrow> ph = Opening \<or> (\<exists>i. ph = AfterBubble i True)"
| "phase_sim (Bubble i t) ph \<longleftrightarrow> ph = InBubble i"
| "phase_sim (Concluded r t g) ph \<longleftrightarrow> ph = AfterBubble (ai_id r) False"
| "phase_sim Failed ph \<longleftrightarrow> ph = Ended"
| "phase_sim Broken ph \<longleftrightarrow> True"

lemma watch_sim:
  assumes "phase_sim (mo_phase m) ph"
  shows "phase_sim (mo_phase (watch a m)) (act_phase (of_burst_act a) ph)"
proof (cases a)
  case (Yield f)
  then show ?thesis using assms
    by (cases f; cases "mo_phase m") (auto simp: watch_def over_def of_burst_act_def Let_def split: list.splits)
qed (use assms in \<open>cases "mo_phase m"; simp add: watch_def over_def of_burst_act_def\<close>)+

lemma burst_sim:
  "phase_sim (mo_phase m) ph
    \<Longrightarrow> phase_sim (mo_phase (fold watch acts m)) (fold act_phase (map of_burst_act acts) ph)"
  by (induction acts arbitrary: m ph) (simp_all add: watch_sim)

text \<open>Once failed or out of order, a burst that goes on is out of order.\<close>

lemma watch_lost: "mo_phase m \<in> {Failed, Broken} \<Longrightarrow> mo_phase (watch a m) = Broken"
  by (cases a; cases "case a of Yield f \<Rightarrow> f | _ \<Rightarrow> Reasoning []") (auto simp: watch_def over_def split: phase.splits)

lemma watch_error: "is_error (of_burst_act a) \<Longrightarrow> mo_phase (watch a m) \<in> {Failed, Broken}"
  by (cases a; cases "case a of Yield f \<Rightarrow> f | _ \<Rightarrow> Reasoning []") (auto simp: watch_def over_def of_burst_act_def)

lemma no_error_before:
  "mo_phase (fold watch acts m) \<notin> {Failed, Broken} \<Longrightarrow> list_all (\<lambda>a. \<not> is_error (of_burst_act a)) acts"
proof (induction acts rule: rev_induct)
  case (snoc a acts)
  let ?m = "fold watch acts m"
  have "mo_phase ?m \<notin> {Failed, Broken}" using snoc.prems watch_lost [of ?m a] by auto
  moreover have "\<not> is_error (of_burst_act a)" using snoc.prems watch_error [of a ?m] by auto
  ultimately show ?case using snoc.IH by simp
qed simp

lemma watch_fails: "mo_phase (watch a m) = Failed \<Longrightarrow> is_error (of_burst_act a)"
  by (cases a; cases "case a of Yield f \<Rightarrow> f | _ \<Rightarrow> Reasoning []")
    (auto simp: watch_def over_def of_burst_act_def Let_def split: if_splits phase.splits list.splits)

section \<open>What a turn leaves behind\<close>

text \<open>The acts that settle a user message for a retry; and those that only a turn that took effect performs.\<close>

fun conclusive :: "turn_act \<Rightarrow> bool" where
  "conclusive (TInsert r) \<longleftrightarrow> \<not> ai_truncated r"
| "conclusive (TInsertQa q) \<longleftrightarrow> True"
| "conclusive TMarkGhosted \<longleftrightarrow> True"
| "conclusive _ \<longleftrightarrow> False"

fun committing :: "turn_act \<Rightarrow> bool" where
  "committing TRecordGhost \<longleftrightarrow> True"
| "committing TResetGhostStreak \<longleftrightarrow> True"
| "committing (TMergeImage i j) \<longleftrightarrow> True"
| "committing (TSetResponse r) \<longleftrightarrow> True"
| "committing (TPostProcess p ms) \<longleftrightarrow> True"
| "committing _ \<longleftrightarrow> False"

fun is_final :: "turn_act \<Rightarrow> bool" where
  "is_final (TYield (Final _ _ _ _ _ _ _)) = True" | "is_final _ = False"

definition row_of :: "burst_act \<Rightarrow> assistant_insert option" where
  "row_of a = (case a of Insert r \<Rightarrow> Some r | _ \<Rightarrow> None)"

lemma watch_over: "over (mo_phase m) \<Longrightarrow> mo_phase (watch a m) = Broken"
  by (simp add: watch_def)

lemma watch_rows:
  "mo_phase (fold watch acts m) \<noteq> Broken \<Longrightarrow> mo_rows (fold watch acts m) = mo_rows m @ List.map_filter row_of acts"
proof (induction acts rule: rev_induct)
  case (snoc a acts)
  let ?m = "fold watch acts m"
  have p: "mo_phase ?m \<noteq> Broken" using snoc.prems watch_lost [of ?m a] by auto
  have "\<not> over (mo_phase ?m)" using snoc.prems watch_over [of ?m a] by auto
  then have "mo_rows (watch a ?m) = mo_rows ?m @ List.map_filter row_of [a]"
    by (cases a) (simp_all add: watch_def row_of_def)
  then show ?case using snoc.IH [OF p] by (simp add: List.map_filter_def)
qed (simp add: List.map_filter_def)

lemma conclusive_rows:
  "length (filter conclusive (map of_burst_act acts))
    = length (filter (\<lambda>r. \<not> ai_truncated r) (List.map_filter row_of acts))"
  by (induction acts) (auto simp: row_of_def of_burst_act_def split: burst_act.splits)

lemma of_burst_act_plain: "\<not> committing (of_burst_act a)"
  by (cases a) (simp_all add: of_burst_act_def)

lemma up_to_error_none: "list_all (\<lambda>a. \<not> is_error a) acts \<Longrightarrow> up_to_error acts = (acts, False)"
proof -
  assume "list_all (\<lambda>a. \<not> is_error a) acts"
  then have "dropWhile (\<lambda>a. \<not> is_error a) acts = []" by (simp add: list_all_iff dropWhile_eq_Nil_conv)
  then show ?thesis by (simp only: up_to_error_def list.case)
qed

lemma up_to_error_last:
  "list_all (\<lambda>a. \<not> is_error a) acts \<Longrightarrow> is_error e \<Longrightarrow> up_to_error (acts @ [e]) = (acts @ [e], True)"
  by (induction acts) (simp_all add: up_to_error_def split: list.splits)

text \<open>The burst as the turn sees it: concluded by one row of one bubble, or failed and without such a row.\<close>

definition burst_answered :: "turn_act list \<Rightarrow> burst_outcome \<Rightarrow> ulid \<Rightarrow> bool" where
  "burst_answered acts out i \<longleftrightarrow> fold act_phase acts Opening = AfterBubble i False \<and> up_to_error acts = (acts, False)
     \<and> list_all (\<lambda>a. \<not> is_error a) acts \<and> list_all (\<lambda>a. \<not> committing a) acts
     \<and> length (filter conclusive acts) = 1 \<and> map pm_message_id (bo_produced out) = [i]"

definition burst_failed :: "turn_act list \<Rightarrow> bool" where
  "burst_failed acts \<longleftrightarrow> fold act_phase acts Opening = Ended \<and> up_to_error acts = (acts, True)
     \<and> list_ex is_error acts \<and> list_all (\<lambda>a. \<not> conclusive a) acts"

lemma burst_for_turn:
  "let b = drive_chat_burst_for env p chain (burst_start n); acts = map of_burst_act (b_log b)
   in list_all (\<lambda>a. \<not> committing a) acts \<and> (burst_failed acts \<or> (\<exists>i. burst_answered acts (b_out b) i))"
proof -
  let ?b = "drive_chat_burst_for env p chain (burst_start n)"
  let ?log = "b_log ?b" let ?m = "fold watch ?log monitor_start"
  have m: "monitor_of ?b = ?m" by (simp add: monitor_of_def)
  have sim: "phase_sim (mo_phase ?m) (fold act_phase (map of_burst_act ?log) Opening)"
    by (rule burst_sim) (simp add: monitor_start_def)
  have plain: "list_all (\<lambda>a. \<not> committing a) (map of_burst_act ?log)"
    by (simp add: list_all_iff of_burst_act_plain)
  have rows: "mo_phase ?m \<noteq> Broken \<Longrightarrow> mo_rows ?m = List.map_filter row_of ?log"
    using watch_rows [of ?log monitor_start] by (simp add: monitor_start_def)
  from burst_ends [of env p chain n] consider r wire ghost where "concluded ?b r wire ghost"
    | "mo_phase ?m = Failed" "list_all ai_truncated (mo_rows ?m)" by (auto simp: burst_over_def m)
  then show ?thesis
  proof cases
    case 1
    then have ph: "mo_phase ?m = Concluded r wire ghost" and pm: "map pm_message_id (bo_produced (b_out ?b)) = [ai_id r]"
      and one: "length (filter (\<lambda>r. \<not> ai_truncated r) (mo_rows ?m)) = 1"
      by (auto simp: concluded_def m list_all_iff filter_empty_conv)
    have none: "list_all (\<lambda>a. \<not> is_error a) (map of_burst_act ?log)"
      using no_error_before [of ?log monitor_start] ph by (simp add: list_all_iff)
    have "burst_answered (map of_burst_act ?log) (b_out ?b) (ai_id r)"
      using sim ph pm none plain one rows conclusive_rows [of ?log] up_to_error_none [OF none]
      by (simp add: burst_answered_def)
    then show ?thesis using plain by (auto simp: Let_def)
  next
    case 2
    then have "?log \<noteq> []" by (auto simp: monitor_start_def)
    then obtain xs a where log: "?log = xs @ [a]" by (metis rev_exhaust)
    let ?x = "fold watch xs monitor_start"
    have f: "mo_phase (watch a ?x) = Failed" using 2(1) log by simp
    then have e: "is_error (of_burst_act a)" by (rule watch_fails)
    have "mo_phase ?x \<notin> {Failed, Broken}" using f watch_lost [of ?x a] by auto
    then have none: "list_all (\<lambda>a. \<not> is_error a) (map of_burst_act xs)"
      using no_error_before [of xs monitor_start] by (simp add: list_all_iff)
    have "filter (\<lambda>r. \<not> ai_truncated r) (mo_rows ?m) = []" using 2(2) by (simp add: list_all_iff filter_empty_conv)
    then have "length (filter conclusive (map of_burst_act ?log)) = 0"
      using conclusive_rows [of ?log] rows 2(1) by simp
    then have "list_all (\<lambda>a. \<not> conclusive a) (map of_burst_act ?log)"
      by (simp add: list_all_iff filter_empty_conv)
    then have "burst_failed (map of_burst_act ?log)"
      using sim 2(1) up_to_error_last [OF none e] e log by (simp add: burst_failed_def)
    then show ?thesis using plain by (simp add: Let_def)
  qed
qed

section \<open>The arms\<close>

text \<open>Acts before the reply: nothing settled, nothing ended.\<close>

definition plain :: "turn_act \<Rightarrow> bool" where
  "plain a \<longleftrightarrow> \<not> conclusive a \<and> \<not> committing a \<and> \<not> is_error a \<and> \<not> is_final a"

definition quiet :: "turn_phase \<Rightarrow> turn_act list \<Rightarrow> bool" where
  "quiet ph acts \<longleftrightarrow> fold act_phase acts ph = ph \<and> list_all plain acts"

lemma quiet_Nil [simp]: "quiet ph []"
  by (simp add: quiet_def)

lemma quiet_append: "quiet ph xs \<Longrightarrow> quiet ph ys \<Longrightarrow> quiet ph (xs @ ys)"
  by (simp add: quiet_def)

lemma quiet_Cons: "act_phase a ph = ph \<Longrightarrow> plain a \<Longrightarrow> quiet ph xs \<Longrightarrow> quiet ph (a # xs)"
  by (simp add: quiet_def)

lemma quiet_map: "(\<And>x. act_phase (f x) ph = ph \<and> plain (f x)) \<Longrightarrow> quiet ph (map f xs)"
  by (induction xs) (simp_all add: quiet_def)

lemma plain_acts [simp]:
  "plain (TRecord g)" "plain TConvertIgnoredAsk" "plain TMarkConsumed" "plain TMarkProductQa" "plain (TSetNeeds n)"
  "plain (TDecision d)" "plain (TSetVision v)" "plain (TVisionEvent e)" "plain (TInputFailures u g')"
  "plain (TSetRewrite rw)" "plain (TComposeEvent c)" "plain (TYield (Meta i fa md ct sp))" "plain (TYield (Delta i x))"
  "plain (TYield (Done i t us gi gh))" "plain (TYield (ActionResponseFrame mi ar))" "plain (TYield (BodyState mi ef ns))"
  "plain (TYield (Reasoning x))" "plain (TYield (ImageRequest i x ref ra co))"
  by (simp_all add: plain_def)

text \<open>After the final frame: nothing, or the stored response and then post-processing.\<close>

fun posting :: "turn_act \<Rightarrow> bool" where
  "posting (TSetResponse r) \<longleftrightarrow> True"
| "posting (TPostProcess p ms) \<longleftrightarrow> True"
| "posting _ \<longleftrightarrow> False"

definition posts_last :: "turn_act list \<Rightarrow> bool" where
  "posts_last acts \<longleftrightarrow> (\<exists>before f after. acts = before @ f # after \<and> is_final f
     \<and> list_all (\<lambda>a. \<not> posting a) before
     \<and> (after = [] \<or> (\<exists>plan caption produced. after = settle_acts plan caption produced)))"

definition settles_once :: "turn_act list \<Rightarrow> bool" where
  "settles_once acts =
     (if list_ex is_error acts then list_all (\<lambda>a. \<not> conclusive a \<and> \<not> committing a) acts
      else length (filter conclusive acts) = 1 \<and> posts_last acts)"

definition arm_ok :: "turn_act list \<Rightarrow> bool" where
  "arm_ok acts \<longleftrightarrow> fold act_phase acts Opening = Ended \<and> settles_once acts"

lemma plain_not_posting: "plain a \<Longrightarrow> \<not> posting a"
  by (cases a) (simp_all add: plain_def)

lemma posts_last_append:
  assumes "posts_last acts" and "list_all plain xs"
  shows "posts_last (xs @ acts)"
proof -
  from assms(1) obtain before f after where a: "acts = before @ f # after" "is_final f"
    "list_all (\<lambda>a. \<not> posting a) before"
    "after = [] \<or> (\<exists>plan caption produced. after = settle_acts plan caption produced)"
    unfolding posts_last_def by blast
  have "list_all (\<lambda>a. \<not> posting a) xs"
    using assms(2) plain_not_posting by (auto simp: list_all_iff)
  then show ?thesis
    unfolding posts_last_def using a by (intro exI [of _ "xs @ before"] exI [of _ f] exI [of _ after]) simp
qed

lemma arm_ok_append:
  assumes "quiet Opening xs" and "arm_ok acts"
  shows "arm_ok (xs @ acts)"
proof -
  have x: "list_all plain xs" using assms(1) by (simp add: quiet_def)
  then have "\<not> list_ex is_error xs" "filter conclusive xs = []" "list_all (\<lambda>a. \<not> conclusive a \<and> \<not> committing a) xs"
    by (auto simp: list_all_iff list_ex_iff filter_empty_conv plain_def)
  then show ?thesis using assms posts_last_append [OF _ x] by (auto simp: arm_ok_def settles_once_def quiet_def)
qed

lemma settle_acts_phase: "fold act_phase (settle_acts plan caption produced) ph = ph"
  by (simp add: settle_acts_def option_list_def split: option.splits)

lemma settle_acts_plain:
  "\<not> list_ex is_error (settle_acts plan caption produced)" "filter conclusive (settle_acts plan caption produced) = []"
  by (simp_all add: settle_acts_def option_list_def split: option.splits)

lemma final_act [simp]: "is_final (TYield (build_final_frame a b c d e fs))" "\<not> is_error (TYield (build_final_frame a b c d e fs))"
  "\<not> conclusive (TYield (build_final_frame a b c d e fs))"
  "frame_phase (build_final_frame a b c d e fs) ph
    = (case ph of AfterBubble _ _ \<Rightarrow> Ended | Pictured \<Rightarrow> Ended | _ \<Rightarrow> Disordered)"
  by (simp_all add: build_final_frame_def split: prod.splits)

lemma arm_ok_final:
  assumes "fold act_phase acts Opening = AfterBubble i t \<or> fold act_phase acts Opening = Pictured"
    and "list_all (\<lambda>a. \<not> is_error a \<and> \<not> posting a) acts" and "length (filter conclusive acts) = 1"
    and "after = [] \<or> after = settle_acts plan caption produced"
  shows "arm_ok (acts @ TYield (build_final_frame fl ps tier rc rf fs) # after)"
proof -
  let ?f = "TYield (build_final_frame fl ps tier rc rf fs)"
  have "posts_last (acts @ ?f # after)"
    unfolding posts_last_def using assms(2,4)
    by (intro exI [of _ acts] exI [of _ ?f] exI [of _ after]) (auto simp: list_all_iff)
  moreover have "fold act_phase after Ended = Ended" "\<not> list_ex is_error after" "filter conclusive after = []"
    using assms(4) settle_acts_phase settle_acts_plain by auto
  ultimately show ?thesis using assms(1-3)
    by (auto simp: arm_ok_def settles_once_def list_all_iff list_ex_iff)
qed

lemma arm_ok_error:
  assumes "list_all plain acts" and "is_error e" and "fold act_phase acts Opening = ph" and "act_phase e ph = Ended"
  shows "arm_ok (acts @ [e])"
proof -
  have "\<not> conclusive e \<and> \<not> committing e" using assms(2) by (cases e) simp_all
  then show ?thesis using assms by (auto simp: arm_ok_def settles_once_def list_all_iff plain_def)
qed

lemma quiet_plain: "quiet ph acts \<Longrightarrow> list_all plain acts"
  by (simp add: quiet_def)

lemma plain_all:
  "list_all plain acts \<Longrightarrow> list_all (\<lambda>a. \<not> is_error a \<and> \<not> posting a) acts \<and> filter conclusive acts = []"
  using plain_not_posting by (auto simp: list_all_iff plain_def filter_empty_conv)

lemma internal_error_act [simp]: "is_error (TYield (internal_error x))" "frame_phase (internal_error x) Opening = Ended"
  by (simp_all add: internal_error_def)

subsection \<open>Silence, a picture, a product answer\<close>

lemma silent_ok: "arm_ok (TMarkGhosted # xs @ ghost_frames i @ [TYield (build_final_frame fl ps tier rc rf fs)])"
  if "xs = [] \<or> xs = [TRecordGhost]"
proof -
  have "arm_ok ((TMarkGhosted # xs @ ghost_frames i) @ TYield (build_final_frame fl ps tier rc rf fs) # [])"
    by (rule arm_ok_final [of _ i False]) (use that in \<open>auto simp: ghost_frames_def\<close>)
  then show ?thesis by simp
qed

lemma compose_quiet: "compose_of env m plan latest = (img, acts) \<Longrightarrow> quiet ph acts"
  by (auto simp: compose_of_def Let_def intro!: quiet_append quiet_map quiet_Cons split: prod.splits)

lemma image_arm_ok: "arm_ok (image_arm env m plan judge_failures)"
proof -
  obtain img composed where c: "compose_of env m plan (pu_content m) = (img, composed)" by fastforce
  let ?acts = "composed @ [TInsert (image_row env plan (te_next env) img)]
     @ map TYield (delegated_image_only_frames_with (te_base64 env) (te_next env) (di_composed_prompt img)
             (plan_image_ref plan) (di_aspect_ratio img) None) @ [TResetGhostStreak]"
  let ?after = "settle_acts plan (di_caption img) [\<lparr>pm_message_id = te_next env, pm_full_text = [], pm_action = ReplyImage\<rparr>]"
  note q = compose_quiet [OF c, of Opening]
  have "arm_ok (?acts @ TYield (build_final_frame False None (pu_tier m) 0 0 (judge_failures @ di_failures img)) # ?after)"
    by (rule arm_ok_final [where i = 0 and t = False, OF _ _ _ disjI2 [OF refl]])
      (use q plain_all [OF quiet_plain [OF q]] in \<open>simp_all add: quiet_def delegated_image_only_frames_with_def
         build_image_request_frame_with_def image_row_def\<close>)
  then show ?thesis by (simp add: image_arm_def c Let_def)
qed

lemma qa_billed_quiet: "quiet ph (qa_billed sess a)"
  by (simp add: qa_billed_def quiet_Cons)

lemma qa_walk_quiet:
  "quiet (InBubble mid) (qw_log w) \<Longrightarrow> quiet (InBubble mid) (qw_log (qa_walk up sess mid req i ms w))"
proof (induction ms arbitrary: i w)
  case (Cons m ms)
  let ?a = "qa_attempt_of m (ar_stream (up i m req))"
  let ?w = "\<lparr>qw_last = ?a, qw_recorded = ar_recorded (up i m req), qw_failures = qw_failures w @ option_list (qa_failure ?a),
               qw_log = qw_log w @ qa_billed sess (qw_last w) @ map (\<lambda>x. TYield (Delta mid x)) (qa_contents ?a)\<rparr>"
  have "quiet (InBubble mid) (map (\<lambda>x. TYield (Delta mid x)) (qa_contents ?a))" by (rule quiet_map) simp
  then have q: "quiet (InBubble mid) (qw_log ?w)" using Cons.prems by (simp add: quiet_append qa_billed_quiet)
  show ?case using q Cons.IH [OF q] by (simp add: Let_def)
qed simp

lemma qa_closing_ok:
  assumes "quiet (InBubble mid) acts"
  shows "arm_ok ([TMarkProductQa, TYield (Meta mid FProductQa None None None)] @ acts @ qa_closing hidden mid tier fs r)"
proof -
  obtain ups gws where s: "split_failures (qr_failures r) = (ups, gws)" by fastforce
  let ?row = "TInsertQa \<lparr>qi_id = mid, qi_content = qr_text r, qi_generation_id = qr_gen_id r, qi_truncated = qr_cut r,
            qi_llm_attempts = ups, qi_gateway_errors = gws\<rparr>"
  let ?acts = "[TMarkProductQa, TYield (Meta mid FProductQa None None None)] @ acts
     @ [?row, TYield (Done mid (qr_cut r) (filter_usage_keys hidden (qr_usage r)) (qr_gen_id r) False)]"
  have "arm_ok (?acts @ TYield (build_final_frame False None tier 0 0 (fs @ qr_failures r)) # [])"
    by (rule arm_ok_final [where i = mid and t = "qr_cut r", OF _ _ _ disjI1 [OF refl]])
      (use assms plain_all [OF quiet_plain [OF assms]] in \<open>simp_all add: quiet_def\<close>)
  then show ?thesis by (simp add: qa_closing_def s)
qed

lemma qa_error_act: "is_error (TYield (qa_error_frame fs))" "frame_phase (qa_error_frame fs) (InBubble i) = Ended"
  by (simp_all add: qa_error_frame_def split: prod.splits)

lemma product_qa_arm_ok:
  "arm_ok (product_qa_arm up phrase hidden sess mid tier p recent question fs)"
proof -
  let ?w = "qa_walk up sess mid (qa_request p (qa_payload recent question)) 0 (rp_model p # rp_fallback_model p) qa_walk_start"
  let ?a = "qw_log ?w @ qa_billed sess (qw_last ?w)"
  have q: "quiet (InBubble mid) ?a"
    by (intro quiet_append qa_walk_quiet qa_billed_quiet) (simp add: qa_walk_start_def)
  show ?thesis
  proof (cases "qa_acc (qw_last ?w) = []")
    case False
    then show ?thesis using qa_closing_ok [OF q] by (simp add: product_qa_arm_def Let_def del: qa_walk.simps)
  next
    case True
    show ?thesis
    proof (cases phrase)
      case None
      have "arm_ok (([TMarkProductQa, TYield (Meta mid FProductQa None None None)] @ ?a) @ [TYield (qa_error_frame (qw_failures ?w))])"
        by (rule arm_ok_error [where ph = "InBubble mid"])
          (use q in \<open>simp_all add: quiet_def qa_error_act del: qa_walk.simps\<close>)
      then show ?thesis using True None by (simp add: product_qa_arm_def Let_def del: qa_walk.simps)
    next
      case (Some x)
      have "quiet (InBubble mid) (?a @ [TYield (Delta mid x)])"
        by (rule quiet_append [OF q]) (simp add: quiet_Cons)
      from qa_closing_ok [OF this] show ?thesis
        using True Some by (simp add: product_qa_arm_def Let_def del: qa_walk.simps)
    qed
  qed
qed

lemma product_qa_resolves: "product_qa_enabled cfg \<Longrightarrow> fst (resolve_product_qa dr cfg) \<noteq> None"
  by (cases "mc_tasks cfg (str ''chat_product_qa'')")
    (auto simp: product_qa_enabled_def resolve_product_qa_def resolve_prompt_task_def plain_or_empty_def Let_def
      simp del: str_simps split: option.splits prod.splits)

subsection \<open>A text\<close>

lemma option_list_quiet: "(\<And>x. act_phase (f x) ph = ph \<and> plain (f x)) \<Longrightarrow> quiet ph (map f (option_list x))"
  by (rule quiet_map)

lemma vision_quiet: "quiet ph (vision_acts env m)"
  by (auto simp: vision_acts_def Let_def intro!: quiet_append quiet_map quiet_Cons split: option.splits prod.splits)

lemma input_quiet: "input_stage env m = (acts, fs, x) \<Longrightarrow> quiet ph acts"
  by (auto simp: input_stage_def Let_def intro!: quiet_append quiet_map quiet_Cons split: option.splits prod.splits if_splits)

lemma judge_quiet: "quiet Opening (judge_acts steps)"
  by (induction steps rule: judge_acts.induct) (auto intro: quiet_Cons)

lemma plan_quiet: "quiet Opening (plan_acts env m inp plan run)"
  by (auto simp: plan_acts_def Let_def body_state_frame_def option_list_def
      intro!: quiet_append quiet_Cons split: option.splits)

lemma picture_acts:
  assumes "picture_stage env m plan eff produced = (acts, fs, caption)" and "map pm_message_id produced = [i]"
  shows "list_all (\<lambda>a. \<not> is_error a \<and> \<not> posting a) acts \<and> filter conclusive acts = []
    \<and> fold act_phase acts (AfterBubble i False) \<in> {AfterBubble i False, Pictured}"
proof (cases "plan_action_type plan = ReplyTextImage")
  case True
  obtain pm where p: "produced = [pm]" "pm_message_id pm = i" using assms(2) by (cases produced) auto
  obtain img composed where c: "compose_of env m plan eff = (img, composed)" by fastforce
  note q = compose_quiet [OF c, of "AfterBubble i False"]
  have "acts = composed @ [TMergeImage i (image_marker env plan img),
      TYield (build_image_request_frame_with (te_base64 env) i (di_composed_prompt img) (plan_image_ref plan)
        (di_aspect_ratio img) None)]"
    using assms(1) True p c by (simp add: picture_stage_def Let_def)
  then show ?thesis using q plain_all [OF quiet_plain [OF q]]
    by (simp add: quiet_def build_image_request_frame_with_def)
qed (use assms(1) in \<open>simp add: picture_stage_def\<close>)

lemma posting_committing: "posting a \<Longrightarrow> committing a"
  by (cases a) simp_all

lemma text_closing_ok:
  assumes "burst_answered acts out i"
  shows "arm_ok (acts @ text_closing env m plan eff tags out fs)"
proof -
  obtain pictured cfs caption where p: "picture_stage env m plan eff (bo_produced out) = (pictured, cfs, caption)"
    by (cases "picture_stage env m plan eff (bo_produced out)") auto
  from assms have ids: "map pm_message_id (bo_produced out) = [i]"
    and b: "fold act_phase acts Opening = AfterBubble i False" "list_all (\<lambda>a. \<not> is_error a) acts"
      "length (filter conclusive acts) = 1" by (simp_all add: burst_answered_def)
  note pa = picture_acts [OF p ids]
  let ?reset = "if bo_ghost_fallback out then [] else [TResetGhostStreak]"
  let ?f = "TYield (build_final_frame (bo_filtered out) (nonempty tags) (pu_tier m) (bo_retries_chat out)
              (bo_retries_filter out) (fs @ bo_failures out @ cfs))"
  have np: "list_all (\<lambda>a. \<not> posting a) acts" using assms posting_committing by (auto simp: burst_answered_def list_all_iff)
  have "arm_ok ((acts @ ?reset @ pictured) @ ?f # settle_acts plan caption (bo_produced out))"
    by (rule arm_ok_final [where i = i and t = False, OF _ _ _ disjI2 [OF refl]])
      (use b pa np in \<open>auto simp: list_all_iff\<close>)
  then show ?thesis by (simp add: text_closing_def p split del: if_split)
qed

lemma text_arm_ok: "arm_ok (text_arm env m inp plan run fs)"
proof -
  obtain filtered ifs eff where i: "input_stage env m = (filtered, ifs, eff)" by (cases "input_stage env m") auto
  have before: "quiet Opening (vision_acts env m @ filtered)"
    by (rule quiet_append [OF vision_quiet input_quiet [OF i]])
  let ?needs = "turn_needs (in_event inp) plan (prior_needs env) (judged_needs run (prior_needs env))"
  show ?thesis
  proof (cases "te_reply_request env inp plan ?needs eff")
    case (Inl e)
    have "arm_ok ([] @ [TYield (internal_error (str ''build_reply_request failed: '' @ e))])"
      by (rule arm_ok_error [where ph = Opening]) (simp_all del: str_simps)
    from arm_ok_append [OF before this] show ?thesis by (simp add: text_arm_def i Inl Let_def del: str_simps)
  next
    case (Inr rt)
    obtain req tags where rt: "rt = (req, tags)" by fastforce
    let ?b = "drive_chat_burst_for (te_burst env) (turn_burst_args env m plan req tags)
                (reply_chain (te_draw env) req (te_byok env)) (burst_start (te_next env))"
    let ?acts = "map of_burst_act (b_log ?b)"
    have plain: "list_all (\<lambda>a. \<not> committing a) ?acts"
      and ends: "burst_failed ?acts \<or> (\<exists>i. burst_answered ?acts (b_out ?b) i)"
      using burst_for_turn [of "te_burst env" "turn_burst_args env m plan req tags"
          "reply_chain (te_draw env) req (te_byok env)" "te_next env"] by (simp_all add: Let_def)
    from ends show ?thesis
    proof
      assume f: "burst_failed ?acts"
      then have "arm_ok ?acts" using plain by (simp add: burst_failed_def arm_ok_def settles_once_def list_all_iff)
      from arm_ok_append [OF before this] f show ?thesis by (simp add: text_arm_def i Inr rt Let_def burst_failed_def)
    next
      assume "\<exists>i. burst_answered ?acts (b_out ?b) i"
      then obtain j where a: "burst_answered ?acts (b_out ?b) j" by blast
      then show ?thesis
        using arm_ok_append [OF before text_closing_ok [OF a]] by (simp add: text_arm_def i Inr rt Let_def burst_answered_def)
    qed
  qed
qed

section \<open>The turn\<close>

lemma judge_finishes: "\<exists>run. judge_finished (run_pde_decision from_str up sess p ctx) = Some run"
proof -
  have tail: "judge_finished (xs @ [Finished r]) \<noteq> None" for xs :: "pde_verdict judge_step list" and r
    by (induction xs rule: judge_finished.induct) (simp_all add: or_else_def split: option.splits)
  show ?thesis
    using tail by (auto simp: run_pde_decision_def reasoning_call_def judge_walk_runs)
qed

lemma turn_arm_ok:
  assumes "plan_action_type plan \<noteq> Proactive" and "plan_action_type plan = ProductQa \<Longrightarrow> qa_available env"
  shows "arm_ok (turn_arm env m inp plan run)"
proof -
  have ghost: "arm_ok (ghost_arm env m fs)" for fs using silent_ok [of "[TRecordGhost]"] by (simp add: ghost_arm_def)
  have "arm_ok (qa_arm env m fs)" if "qa_available env" for fs
    using that product_qa_resolves [of "te_config env" "te_draw env"] product_qa_arm_ok
    by (auto simp: qa_arm_def qa_available_def split: option.splits)
  then show ?thesis using assms ghost image_arm_ok text_arm_ok
    by (cases "plan_action_type plan") (simp_all add: turn_arm_def Let_def)
qed

lemma planned_turn_ok:
  assumes "in_event inp = to_event m"
  shows "arm_ok (planned_turn env m inp run)"
proof -
  obtain p where p: "turn_plan (turn_caps_of env m inp) inp run = Some p"
    and t: "plan_action_type p \<in> set (allowed_actions (turn_caps_of env m inp) inp)"
    using turn_plan_exists [OF assms [unfolded to_event_def], of "turn_caps_of env m inp" run] by blast
  let ?p = "finalised env m inp p"
  have same: "plan_action_type ?p = plan_action_type p" by (simp add: finalised_def)
  have "plan_action_type p \<noteq> Proactive" "plan_action_type p = ProductQa \<Longrightarrow> qa_available env"
    using t by (auto simp: allowed_actions_def turn_caps_of_def split: if_splits)
  then have "arm_ok (turn_arm env m inp ?p run)" using same by (intro turn_arm_ok) simp_all
  from arm_ok_append [OF plan_quiet this] show ?thesis by (simp add: planned_turn_def p Let_def)
qed

lemma judged_turn_ok:
  assumes "in_event inp = to_event m"
  shows "arm_ok (judged_turn env m inp)"
proof (cases "judge_steps env m inp")
  case None
  then show ?thesis using planned_turn_ok [OF assms] by (simp add: judged_turn_def)
next
  case (Some steps)
  then obtain p ctx where st: "steps = run_pde_decision (te_from_str env) (te_judge env) (pu_session_id m) p ctx"
    by (auto simp: judge_steps_def)
  obtain run where r: "judge_finished steps = Some run" unfolding st using judge_finishes by blast
  have "quiet Opening (TMarkConsumed # judge_acts steps)" by (rule quiet_Cons [OF _ _ judge_quiet]) simp_all
  from arm_ok_append [OF this planned_turn_ok [OF assms]] show ?thesis by (simp add: judged_turn_def Some r)
qed

lemma turn_ok: "arm_ok (run_stream_with env m)"
proof (cases "turn_input env m")
  case (Inl e)
  then obtain x where "e = internal_error x" by (auto simp: turn_input_def Let_def split: option.splits sum.splits)
  then show ?thesis using arm_ok_error [of "[]" "TYield e" Opening] Inl by (simp add: run_stream_with_def)
next
  case (Inr inp)
  then have ev: "in_event inp = to_event m" by (auto simp: turn_input_def Let_def split: option.splits sum.splits)
  have "quiet Opening (if pu_action m = None then [TConvertIgnoredAsk] else [])" by (simp add: quiet_Cons)
  moreover have "arm_ok (if offline_silence env m inp
        then TMarkGhosted # ghost_frames (te_next env) @ [TYield (build_final_frame False None (pu_tier m) 0 0 [])]
        else judged_turn env m inp)"
    using silent_ok [of "[]"] judged_turn_ok [OF ev] by simp
  ultimately show ?thesis using arm_ok_append by (simp add: run_stream_with_def Inr split del: if_split)
qed

text \<open>C1: Every turn, whatever the judge, the models and the stores answer, ends: its frames are those before the reply,
  bubbles of which every one but the last is marked cut, at most one picture after the last, and then a
  single closing frame; or a single error, which may leave the bubble of a product answer open. Nothing is
  yielded after that, and no \<open>expect\<close> of the code is hit.\<close>

theorem turn_keeps_protocol:
  "fold act_phase (run_stream_with env m) Opening = Ended"
  using turn_ok [of env m] by (simp add: arm_ok_def)


end
