(* ===== verification/Chat_Turn_Props.thy ===== *)
theory Chat_Turn_Props
  imports Chat_Turn_Laws
begin

text \<open>
  When a turn may be silent, and what a product answer comes to.
\<close>

section \<open>Silence\<close>

definition unghosted :: "turn_act list \<Rightarrow> bool" where
  "unghosted acts \<longleftrightarrow> TMarkGhosted \<notin> set acts \<and> TRecordGhost \<notin> set acts"

lemma unghosted_simps [simp]:
  "unghosted []" "unghosted (xs @ ys) \<longleftrightarrow> unghosted xs \<and> unghosted ys"
  "unghosted (a # xs) \<longleftrightarrow> a \<noteq> TMarkGhosted \<and> a \<noteq> TRecordGhost \<and> unghosted xs"
  by (auto simp: unghosted_def)

lemma plain_unghosted: "list_all plain acts \<Longrightarrow> unghosted acts"
  by (auto simp: unghosted_def list_all_iff plain_def)

lemma quiet_unghosted: "quiet ph acts \<Longrightarrow> unghosted acts"
  by (simp add: plain_unghosted quiet_def)

lemma burst_unghosted: "unghosted (map of_burst_act acts)"
  by (auto simp: unghosted_def of_burst_act_def split: burst_act.splits)

lemma settle_unghosted: "unghosted (settle_acts plan caption produced)"
  by (simp add: settle_acts_def option_list_def split: option.splits)

lemma frames_unghosted: "unghosted (map TYield fs)"
  by (auto simp: unghosted_def)

lemma image_arm_unghosted: "unghosted (image_arm env m plan fs)"
proof -
  obtain img composed where c: "compose_of env m plan (pu_content m) = (img, composed)" by fastforce
  then show ?thesis
    by (simp add: image_arm_def Let_def settle_unghosted frames_unghosted quiet_unghosted [OF compose_quiet [OF c, of Opening]])
qed

lemma qa_closing_unghosted: "unghosted (qa_closing hidden mid tier fs r)"
  by (simp add: qa_closing_def split: prod.splits)

lemma qa_arm_unghosted: "unghosted (product_qa_arm up phrase hidden sess mid tier p recent question fs)"
proof -
  have w: "unghosted (qw_log (qa_walk up sess mid req 0 ms qa_walk_start))" for req ms
    by (rule quiet_unghosted [OF qa_walk_quiet]) (simp add: qa_walk_start_def)
  have b: "unghosted (qa_billed sess a)" for a by (rule quiet_unghosted [OF qa_billed_quiet])
  show ?thesis
    using w b by (simp add: product_qa_arm_def Let_def qa_closing_unghosted del: qa_walk.simps split: option.splits)
qed

lemma picture_unghosted: "picture_stage env m plan eff produced = (acts, fs, caption) \<Longrightarrow> unghosted acts"
  by (auto simp: picture_stage_def Let_def quiet_unghosted [OF compose_quiet [where ph = Opening]]
      split: if_splits prod.splits)

lemma up_to_error_unghosted: "unghosted acts \<Longrightarrow> up_to_error acts = (xs, b) \<Longrightarrow> unghosted xs"
proof -
  assume u: "unghosted acts" and e: "up_to_error acts = (xs, b)"
  have "set xs \<subseteq> set acts"
  proof (cases "dropWhile (\<lambda>a. \<not> is_error a) acts")
    case (Cons x ys)
    then have "x \<in> set acts" using set_dropWhileD [of x "\<lambda>a. \<not> is_error a" acts] by simp
    then show ?thesis using e Cons set_takeWhileD by (fastforce simp: up_to_error_def)
  next
    case Nil
    then have "up_to_error acts = (acts, False)" by (simp only: up_to_error_def list.case)
    then show ?thesis using e by simp
  qed
  then show ?thesis using u by (auto simp: unghosted_def)
qed

lemma text_arm_unghosted: "unghosted (text_arm env m inp plan run fs)"
proof -
  obtain filtered ifs eff where i: "input_stage env m = (filtered, ifs, eff)" by (cases "input_stage env m") auto
  have closing: "unghosted (text_closing env m plan eff tags out before)" for tags out before
  proof -
    obtain pictured cfs caption where p: "picture_stage env m plan eff (bo_produced out) = (pictured, cfs, caption)"
      by (cases "picture_stage env m plan eff (bo_produced out)") auto
    then show ?thesis by (simp add: text_closing_def settle_unghosted picture_unghosted [OF p])
  qed
  have before: "unghosted (vision_acts env m)" "unghosted filtered"
    using quiet_unghosted [OF vision_quiet [of Opening]] quiet_unghosted [OF input_quiet [OF i, of Opening]] by auto
  show ?thesis
    using before closing up_to_error_unghosted [OF burst_unghosted]
    by (auto simp: text_arm_def i Let_def split: sum.splits prod.splits)
qed

text \<open>When the plan is silent, the protections held.\<close>

lemma planned_silence:
  assumes "in_event inp = to_event m"
  shows "unghosted (planned_turn env m inp run)
    \<or> (TMarkGhosted \<in> set (planned_turn env m inp run) \<and> pu_action m = None \<and> \<not> force_image m
       \<and> pde_ghosting_enabled (te_config env)
       \<and> ghost_permitted (in_affinity inp) \<lparr>gs_message_count = message_count (in_signals inp),
           gs_hours_since_last_ghost = hours_since_last_ghost (in_signals inp)\<rparr>)"
proof -
  obtain p where p: "turn_plan (turn_caps_of env m inp) inp run = Some p"
    and t: "plan_action_type p \<in> set (allowed_actions (turn_caps_of env m inp) inp)"
    using turn_plan_exists [OF assms [unfolded to_event_def], of "turn_caps_of env m inp" run] by blast
  let ?p = "finalised env m inp p"
  have same: "plan_action_type ?p = plan_action_type p" by (simp add: finalised_def)
  show ?thesis
  proof (cases "plan_action_type p = GhostTurn")
    case True
    have "TMarkGhosted \<in> set (planned_turn env m inp run)"
      using True same by (simp add: planned_turn_def p Let_def turn_arm_def ghost_arm_def)
    then show ?thesis using True t assms
      by (auto simp: allowed_actions_def turn_caps_of_def event_action_def to_event_def split: if_splits)
  next
    case False
    have "unghosted (qa_arm env m fs)" for fs
      using qa_arm_unghosted by (simp add: qa_arm_def split: option.splits)
    then have "unghosted (turn_arm env m inp ?p run)"
      using False same image_arm_unghosted text_arm_unghosted
      by (cases "plan_action_type p") (simp_all add: turn_arm_def Let_def)
    then show ?thesis using quiet_unghosted [OF plan_quiet] by (simp add: planned_turn_def p Let_def)
  qed
qed

text \<open>C7: A user is met with silence only on a plain message: never with an action, never when a picture is forced, never
  with ghosting switched off. Then either the persona is offline, and no ghost is counted, or the
  protections of the relationship held. Without the mark no ghost is counted.\<close>

theorem silence_is_permitted:
  "case turn_input env m of Inl e \<Rightarrow> run_stream_with env m = [TYield e]
   | Inr inp \<Rightarrow>
       (let acts = run_stream_with env m
        in if TMarkGhosted \<in> set acts
           then pu_action m = None \<and> \<not> force_image m \<and> pde_ghosting_enabled (te_config env)
             \<and> (if offline_silence env m inp then TRecordGhost \<notin> set acts
                else ghost_permitted (in_affinity inp) \<lparr>gs_message_count = message_count (in_signals inp),
                  gs_hours_since_last_ghost = hours_since_last_ghost (in_signals inp)\<rparr>)
           else TRecordGhost \<notin> set acts)"
proof (cases "turn_input env m")
  case (Inr inp)
  then have ev: "in_event inp = to_event m" by (auto simp: turn_input_def Let_def split: option.splits sum.splits)
  let ?ok = "pu_action m = None \<and> \<not> force_image m \<and> pde_ghosting_enabled (te_config env)
       \<and> ghost_permitted (in_affinity inp) \<lparr>gs_message_count = message_count (in_signals inp),
           gs_hours_since_last_ghost = hours_since_last_ghost (in_signals inp)\<rparr>"
  have judged: "unghosted (judged_turn env m inp) \<or> (TMarkGhosted \<in> set (judged_turn env m inp) \<and> ?ok)"
    using planned_silence [OF ev] quiet_unghosted [OF judge_quiet]
    by (auto simp: judged_turn_def split: option.splits)
  have acts: "set (run_stream_with env m) = (if pu_action m = None then {TConvertIgnoredAsk} else {})
      \<union> (if offline_silence env m inp
          then set (TMarkGhosted # ghost_frames (te_next env) @ [TYield (build_final_frame False None (pu_tier m) 0 0 [])])
          else set (judged_turn env m inp))"
    by (cases "pu_action m") (simp_all add: run_stream_with_def Inr)
  show ?thesis
  proof (cases "offline_silence env m inp")
    case True
    then show ?thesis unfolding Inr sum.case Let_def acts
      by (auto simp: offline_silence_def ghost_frames_def)
  next
    case False
    then show ?thesis using judged unfolding Inr sum.case Let_def acts by (auto simp: unghosted_def)
  qed
qed (simp add: run_stream_with_def)

section \<open>The product answer\<close>

text \<open>The candidates' attempts, and those made: up to the first that yields text.\<close>

fun qa_tries :: "stream_fn \<Rightarrow> chat_request \<Rightarrow> nat \<Rightarrow> rstr list \<Rightarrow> qa_attempt list" where
  "qa_tries up req i [] = []"
| "qa_tries up req i (m # ms) = qa_attempt_of m (ar_stream (up i m req)) # qa_tries up req (Suc i) ms"

definition qa_made :: "qa_attempt list \<Rightarrow> qa_attempt list" where
  "qa_made ts = take (Suc (length (takeWhile (\<lambda>a. qa_acc a = []) ts))) ts"

lemma qa_made_simps [simp]:
  "qa_made [] = []" "qa_made (t # ts) = t # (if qa_acc t = [] then qa_made ts else [])"
  by (simp_all add: qa_made_def)

text \<open>What a log records, stores and shows.\<close>

definition recordings :: "turn_act list \<Rightarrow> generation_record list" where
  "recordings acts = concat (map (\<lambda>a. case a of TRecord g \<Rightarrow> [g] | _ \<Rightarrow> []) acts)"

definition qa_rows_in :: "turn_act list \<Rightarrow> qa_insert list" where
  "qa_rows_in acts = concat (map (\<lambda>a. case a of TInsertQa q \<Rightarrow> [q] | _ \<Rightarrow> []) acts)"

definition wire_text :: "turn_act list \<Rightarrow> rstr" where
  "wire_text acts = concat (map (\<lambda>a. case a of TYield (Delta i x) \<Rightarrow> x | _ \<Rightarrow> []) acts)"

lemmas log_defs = recordings_def qa_rows_in_def wire_text_def

lemma log_append [simp]:
  "recordings [] = []" "qa_rows_in [] = []" "wire_text [] = []"
  "recordings (xs @ ys) = recordings xs @ recordings ys" "qa_rows_in (xs @ ys) = qa_rows_in xs @ qa_rows_in ys"
  "wire_text (xs @ ys) = wire_text xs @ wire_text ys"
  by (simp_all add: log_defs)

lemma log_deltas [simp]:
  "recordings (map (\<lambda>x. TYield (Delta i x)) xs) = []" "qa_rows_in (map (\<lambda>x. TYield (Delta i x)) xs) = []"
  "wire_text (map (\<lambda>x. TYield (Delta i x)) xs) = concat xs"
  by (induction xs) (simp_all add: log_defs)

lemma log_billed [simp]: "qa_rows_in (qa_billed sess a) = []" "wire_text (qa_billed sess a) = []"
  by (simp_all add: qa_billed_def log_defs)

definition billed_of :: "uuid \<Rightarrow> qa_attempt list \<Rightarrow> generation_record list" where
  "billed_of sess ts = map (qa_generation sess) (filter (\<lambda>a. qa_gen_id a \<noteq> None) ts)"

definition qa_failures_of :: "qa_attempt list \<Rightarrow> attempt_failure list" where
  "qa_failures_of ts = concat (map (\<lambda>a. option_list (qa_failure a)) ts)"

lemma made_of_simps:
  "billed_of sess [] = []" "billed_of sess (a # ts) = recordings (qa_billed sess a) @ billed_of sess ts"
  "qa_failures_of [] = []" "qa_failures_of (a # ts) = option_list (qa_failure a) @ qa_failures_of ts"
  by (simp_all add: billed_of_def qa_failures_of_def qa_billed_def recordings_def)

lemma qa_walk_made:
  "let w' = qa_walk up sess mid req i ms w; ts = qa_made (qa_tries up req i ms)
   in recordings (qw_log w') @ recordings (qa_billed sess (qw_last w'))
        = recordings (qw_log w) @ recordings (qa_billed sess (qw_last w)) @ billed_of sess ts
      \<and> qa_rows_in (qw_log w') = qa_rows_in (qw_log w) \<and> wire_text (qw_log w') = wire_text (qw_log w) @ concat (map qa_acc ts)
      \<and> qw_failures w' = qw_failures w @ qa_failures_of ts \<and> qw_last w' = (if ts = [] then qw_last w else last ts)"
proof (induction ms arbitrary: i w)
  case (Cons m ms)
  define a where "a = qa_attempt_of m (ar_stream (up i m req))"
  define w2 where "w2 = \<lparr>qw_last = a, qw_recorded = ar_recorded (up i m req),
    qw_failures = qw_failures w @ option_list (qa_failure a),
    qw_log = qw_log w @ qa_billed sess (qw_last w) @ map (\<lambda>x. TYield (Delta mid x)) (qa_contents a)\<rparr>"
  have step: "qa_walk up sess mid req i (m # ms) w = (if qa_acc a = [] then qa_walk up sess mid req (Suc i) ms w2 else w2)"
    by (simp add: Let_def a_def w2_def)
  have w2: "recordings (qw_log w2) = recordings (qw_log w) @ recordings (qa_billed sess (qw_last w))"
    "qa_rows_in (qw_log w2) = qa_rows_in (qw_log w)" "wire_text (qw_log w2) = wire_text (qw_log w) @ qa_acc a"
    "qw_last w2 = a" "qw_failures w2 = qw_failures w @ option_list (qa_failure a)"
    by (simp_all add: w2_def qa_acc_def)
  have tries: "qa_made (qa_tries up req i (m # ms)) = a # (if qa_acc a = [] then qa_made (qa_tries up req (Suc i) ms) else [])"
    by (simp add: a_def)
  show ?case
  proof (cases "qa_acc a = []")
    case True
    then show ?thesis using Cons.IH [of "Suc i" w2] unfolding step tries Let_def
      by (cases "qa_made (qa_tries up req (Suc i) ms) = []") (auto simp: w2 made_of_simps)
  next
    case False
    then show ?thesis unfolding step tries Let_def by (simp add: w2 made_of_simps)
  qed
qed (simp add: made_of_simps)

lemma made_accs:
  "ts \<noteq> [] \<Longrightarrow> concat (map qa_acc (qa_made ts)) = qa_acc (last (qa_made ts)) \<and> qa_made ts \<noteq> []"
proof (induction ts)
  case (Cons t ts)
  then show ?case by (cases ts) auto
qed simp

text \<open>A product answer comes from one candidate, the first that yields text: every generation the candidates named
  is recorded, once and in order, those walked past included; the failures are those of the candidates asked; and
  what the client is shown is exactly the stored text. When no candidate yields text, the
  deployment's phrase takes its place with the exhausted chain on record, and without a phrase no row is
  written and the error is that of the last failure.\<close>

theorem product_qa_exact:
  "let acts = product_qa_arm up phrase hidden sess mid tier p recent question fs;
       chain = rp_model p # rp_fallback_model p;
       ts = qa_made (qa_tries up (qa_request p (qa_payload recent question)) 0 chain); failures = qa_failures_of ts
   in recordings acts = billed_of sess ts
      \<and> (case qa_rows_in acts of
           [q] \<Rightarrow> qi_content q = wire_text acts
             \<and> (if qa_acc (last ts) \<noteq> []
                then qi_content q = qa_acc (last ts) \<and> qi_truncated q = qa_cut (last ts)
                  \<and> (qi_llm_attempts q, qi_gateway_errors q) = split_failures failures
                else Some (qi_content q) = phrase \<and> qi_generation_id q = None \<and> \<not> qi_truncated q
                  \<and> (qi_llm_attempts q, qi_gateway_errors q)
                    = split_failures (failures @ [chain_exhausted PRODUCT_QA_TASK (length chain)]))
         | [] \<Rightarrow> phrase = None \<and> qa_acc (last ts) = [] \<and> last acts = TYield (qa_error_frame failures)
         | _ \<Rightarrow> False)"
proof -
  let ?req = "qa_request p (qa_payload recent question)" let ?chain = "rp_model p # rp_fallback_model p"
  define w where "w = qa_walk up sess mid ?req 0 ?chain qa_walk_start"
  define ts where "ts = qa_made (qa_tries up ?req 0 ?chain)"
  have accs: "concat (map qa_acc ts) = qa_acc (last ts)" "ts \<noteq> []"
    using made_accs [of "qa_tries up ?req 0 ?chain"] by (simp_all add: ts_def)
  have start: "recordings (qw_log qa_walk_start) = []" "qa_rows_in (qw_log qa_walk_start) = []"
    "wire_text (qw_log qa_walk_start) = []" "recordings (qa_billed sess (qw_last qa_walk_start)) = []"
    "qw_failures qa_walk_start = []"
    by (simp_all add: qa_walk_start_def qa_billed_def qa_attempt_new_def log_defs)
  have walk: "recordings (qw_log w) @ recordings (qa_billed sess (last ts)) = billed_of sess ts"
    "qa_rows_in (qw_log w) = []" "wire_text (qw_log w) = qa_acc (last ts)" "qw_failures w = qa_failures_of ts"
    "qw_last w = last ts"
    using qa_walk_made [of up sess mid ?req 0 ?chain qa_walk_start] accs
    unfolding Let_def w_def [symmetric] ts_def [symmetric] by (auto simp: start)
  have closing: "recordings (qa_closing hidden mid tier fs r) = []" "wire_text (qa_closing hidden mid tier fs r) = []"
    "qa_rows_in (qa_closing hidden mid tier fs r) = [\<lparr>qi_id = mid, qi_content = qr_text r, qi_generation_id = qr_gen_id r,
       qi_truncated = qr_cut r, qi_llm_attempts = fst (split_failures (qr_failures r)),
       qi_gateway_errors = snd (split_failures (qr_failures r))\<rparr>]" for r
    by (cases "split_failures (qr_failures r)"; cases "split_failures_typed (fs @ qr_failures r)";
        simp add: qa_closing_def log_defs build_final_frame_def)+
  have opened: "recordings (TMarkProductQa # TYield (Meta mid FProductQa None None None) # xs) = recordings xs"
    "qa_rows_in (TMarkProductQa # TYield (Meta mid FProductQa None None None) # xs) = qa_rows_in xs"
    "wire_text (TMarkProductQa # TYield (Meta mid FProductQa None None None) # xs) = wire_text xs"
    "recordings (TYield f # xs) = recordings xs" "qa_rows_in (TYield f # xs) = qa_rows_in xs"
    "wire_text (TYield (Delta mid x) # xs) = x @ wire_text xs" for xs f x
    by (simp_all add: log_defs)
  show ?thesis
    unfolding Let_def product_qa_arm_def w_def [symmetric] ts_def [symmetric]
    using walk by (auto simp: closing opened split: option.splits)
qed

end
