(* ===== verification/Replay.thy ===== *)
theory Replay
  imports Chat_Turn
begin

text \<open>
  The replay of a turn that already has an outcome (\<open>replay_stream\<close> of
  \<open>crates/eros-engine-server/src/pipeline/stream.rs\<close>, over the rows \<open>REPLAY_CHAIN_SQL\<close> of
  \<open>crates/eros-engine-store/src/chat.rs\<close> joins): a retry of the same message gets the stored rows as frames
  instead of a second turn.
\<close>

section \<open>The stored rows\<close>

record replay_message =
  rm_id :: ulid
  rm_content :: rstr
  rm_continues :: "ulid option"
  rm_truncated :: bool
  rm_generation_id :: "rstr option"
  rm_metadata :: "json option"
  rm_speaker :: "uuid option"
  rm_channel :: "rstr option"
  rm_model :: "rstr option"
  rm_usage :: "json option"

text \<open>The generation a row refers to, when its id is stored: each id has one row.\<close>

definition generation_of :: "generation_record list \<Rightarrow> rstr option \<Rightarrow> generation_record option" where
  "generation_of gens gid = (case gid of None \<Rightarrow> None | Some g \<Rightarrow> List.find (\<lambda>r. gr_generation_id r = Some g) gens)"

definition joined :: "generation_record list \<Rightarrow> replay_message \<Rightarrow> replay_message" where
  "joined gens r = (let g = generation_of gens (rm_generation_id r)
     in r\<lparr>rm_model := Option.bind g gr_model, rm_usage := Option.bind g gr_usage\<rparr>)"

definition PRODUCT_QA_CHANNEL :: rstr where "PRODUCT_QA_CHANNEL = str ''product_qa''"

fun stored_row :: "turn_act \<Rightarrow> replay_message list" where
  "stored_row (TInsert r) = [\<lparr>rm_id = ai_id r, rm_content = ai_content r, rm_continues = ai_continues_from r,
     rm_truncated = ai_truncated r, rm_generation_id = ai_generation_id r, rm_metadata = ai_metadata r,
     rm_speaker = ai_speaker r, rm_channel = None, rm_model = None, rm_usage = None\<rparr>]"
| "stored_row (TInsertQa q) = [\<lparr>rm_id = qi_id q, rm_content = qi_content q, rm_continues = None,
     rm_truncated = qi_truncated q, rm_generation_id = qi_generation_id q, rm_metadata = None, rm_speaker = None,
     rm_channel = Some PRODUCT_QA_CHANNEL, rm_model = None, rm_usage = None\<rparr>]"
| "stored_row _ = []"

definition stored_rows :: "generation_record list \<Rightarrow> turn_act list \<Rightarrow> replay_message list" where
  "stored_rows gens acts = map (joined gens) (concat (map stored_row acts))"

section \<open>The frames\<close>

definition replay_model :: "(nat \<Rightarrow> nat) \<Rightarrow> display_override option \<Rightarrow> rstr option \<Rightarrow> rstr option" where
  "replay_model pk dis model = Option.bind model (\<lambda>m.
     if (case split_model_slug m of Inr (_, Some provider) \<Rightarrow> provider = AUDIT_LABEL | _ \<Rightarrow> False)
     then Some (bare_model_id m)
     else Option.bind dis (\<lambda>d. display pk d (bare_model_id m)))"

definition of_product_qa :: "replay_message \<Rightarrow> bool" where
  "of_product_qa r \<longleftrightarrow> rm_channel r = Some PRODUCT_QA_CHANNEL"

definition fallback_ghost :: "json option \<Rightarrow> bool" where
  "fallback_ghost metadata \<longleftrightarrow>
     (case Option.bind (Option.bind metadata (json_get (str ''fallback_reason''))) as_str_json of
        Some s \<Rightarrow> s = str ''regex_strip'' \<or> s = str ''empty_completion'' | None \<Rightarrow> False)"

definition replay_frames :: "(nat \<Rightarrow> nat) \<Rightarrow> display_override option \<Rightarrow> rstr list \<Rightarrow> replay_message \<Rightarrow> protocol_frame list" where
  "replay_frames pk dis hidden r =
     [Meta (rm_id r) (if of_product_qa r then FProductQa else FReply) (replay_model pk dis (rm_model r))
        (rm_continues r) (rm_speaker r)]
     @ (if rm_content r = [] then [] else [Delta (rm_id r) (rm_content r)])
     @ [Done (rm_id r) (rm_truncated r) (filter_usage_keys hidden (rm_usage r)) (rm_generation_id r)
          (fallback_ghost (rm_metadata r))]"

definition REPLAYED_ERROR :: protocol_frame where
  "REPLAYED_ERROR = ErrorFrame UpstreamUnavailable True (str ''all fallback models truncated (replayed)'')
     [65, 73, 32, 26381, 21153, 26242, 26102, 19981, 21487, 29992, 65292, 31245, 21518, 20877, 35797] None None"

text \<open>\<open>fresh\<close> is the id minted for a replayed silence.\<close>

definition replay_stream :: "(nat \<Rightarrow> nat) \<Rightarrow> display_override option \<Rightarrow> rstr list \<Rightarrow> ulid \<Rightarrow> bool \<Rightarrow> replay_message list
    \<Rightarrow> protocol_frame list" where
  "replay_stream pk dis hidden fresh ghost rows =
     (let final = build_final_frame False None None 0 0 []
      in if ghost then [Meta fresh FGhost None None None, Done fresh False None None False, final]
         else concat (map (replay_frames pk dis hidden) rows)
           @ [if rows \<noteq> [] \<and> \<not> list_ex of_product_qa rows \<and> list_all rm_truncated rows
              then REPLAYED_ERROR else final])"

end
