(* ===== verification/Replay_Laws.thy ===== *)
theory Replay_Laws
  imports Replay Chat_Turn_Laws
begin

text \<open>
  What a retry sees of a turn that has ended: frames in the order of a turn, with the same last bubble; and
  where they are not the frames of the live turn.
\<close>

section \<open>The rows a turn stores\<close>

definition rowless :: "turn_act list \<Rightarrow> bool" where
  "rowless acts \<longleftrightarrow> concat (map stored_row acts) = []"

lemma rowless_simps [simp]:
  "rowless []" "rowless (xs @ ys) \<longleftrightarrow> rowless xs \<and> rowless ys" "rowless (a # xs) \<longleftrightarrow> stored_row a = [] \<and> rowless xs"
  by (auto simp: rowless_def)

lemma rowless_map: "(\<And>x. stored_row (f x) = []) \<Longrightarrow> rowless (map f xs)"
  by (induction xs) simp_all

lemma rowless_settle: "rowless (settle_acts plan caption produced)"
  by (auto simp: settle_acts_def intro: rowless_map)

lemma rowless_compose: "compose_of env m plan latest = (img, acts) \<Longrightarrow> rowless acts"
  by (auto simp: compose_of_def Let_def intro!: rowless_map split: prod.splits)

lemma rowless_picture: "picture_stage env m plan eff produced = (acts, fs, caption) \<Longrightarrow> rowless acts"
  by (auto simp: picture_stage_def Let_def rowless_compose split: if_splits prod.splits)

lemma rowless_vision: "rowless (vision_acts env m)"
  by (auto simp: vision_acts_def Let_def intro!: rowless_map split: option.splits prod.splits)

lemma rowless_input: "input_stage env m = (acts, fs, x) \<Longrightarrow> rowless acts"
  by (auto simp: input_stage_def Let_def intro!: rowless_map split: option.splits prod.splits if_splits)

lemma rowless_judge: "rowless (judge_acts steps)"
  by (induction steps rule: judge_acts.induct) auto

lemma rowless_plan: "rowless (plan_acts env m inp plan run)"
  by (auto simp: plan_acts_def Let_def intro!: rowless_map)

lemma rowless_qa_billed: "rowless (qa_billed sess a)"
  by (simp add: qa_billed_def)

lemma rowless_qa_walk: "rowless (qw_log w) \<Longrightarrow> rowless (qw_log (qa_walk up sess mid req i ms w))"
proof (induction ms arbitrary: i w)
  case (Cons m ms)
  let ?a = "qa_attempt_of m (ar_stream (up i m req))"
  let ?w = "\<lparr>qw_last = ?a, qw_recorded = ar_recorded (up i m req), qw_failures = qw_failures w @ option_list (qa_failure ?a),
               qw_log = qw_log w @ qa_billed sess (qw_last w) @ map (\<lambda>x. TYield (Delta mid x)) (qa_contents ?a)\<rparr>"
  have q: "rowless (qw_log ?w)" using Cons.prems by (auto simp: rowless_qa_billed intro: rowless_map)
  show ?case using q Cons.IH [OF q] by (simp add: Let_def)
qed simp


text \<open>The rows of a turn: none and marked silent; or superseded ones and then the one that settles it; or, after an error,
  superseded ones only.\<close>

definition rows_settle :: "turn_act list \<Rightarrow> bool" where
  "rows_settle acts \<longleftrightarrow>
     (let rows = concat (map stored_row acts)
      in if list_ex is_error acts then list_all (\<lambda>r. rm_truncated r \<and> \<not> of_product_qa r) rows
         else if TMarkGhosted \<in> set acts then True
         else (\<exists>olds r. rows = olds @ [r] \<and> list_all (\<lambda>r. rm_truncated r \<and> \<not> of_product_qa r) olds
                 \<and> (of_product_qa r \<and> olds = [] \<or> \<not> rm_truncated r)))"

lemma rows_settle_append:
  assumes "rowless xs" and "quiet Opening xs" and "rows_settle acts"
  shows "rows_settle (xs @ acts)"
proof -
  have "\<not> list_ex is_error xs" "TMarkGhosted \<notin> set xs"
    using assms(2) by (auto simp: quiet_def list_all_iff list_ex_iff plain_def)
  then show ?thesis using assms(3)
    unfolding rows_settle_def Let_def map_append concat_append assms(1) [unfolded rowless_def] append_Nil by simp
qed

lemma rows_settle_rows:
  assumes "\<not> list_ex is_error acts" and "concat (map stored_row acts) = olds @ [r]"
    and "list_all (\<lambda>r. rm_truncated r \<and> \<not> of_product_qa r) olds" and "of_product_qa r \<and> olds = [] \<or> \<not> rm_truncated r"
  shows "rows_settle acts"
  unfolding rows_settle_def Let_def using assms by auto

definition plain_row :: "assistant_insert \<Rightarrow> replay_message" where
  "plain_row r = \<lparr>rm_id = ai_id r, rm_content = ai_content r, rm_continues = ai_continues_from r,
     rm_truncated = ai_truncated r, rm_generation_id = ai_generation_id r, rm_metadata = ai_metadata r,
     rm_speaker = ai_speaker r, rm_channel = None, rm_model = None, rm_usage = None\<rparr>"

lemma stored_row_insert: "stored_row (TInsert r) = [plain_row r]"
  by (simp add: plain_row_def)

lemma plain_row_simps [simp]: "rm_truncated (plain_row r) = ai_truncated r" "\<not> of_product_qa (plain_row r)"
  by (simp_all add: plain_row_def of_product_qa_def)

lemma burst_stored: "concat (map stored_row (map of_burst_act acts)) = map plain_row (List.map_filter row_of acts)"
  by (induction acts) (auto simp: of_burst_act_def row_of_def plain_row_def List.map_filter_def split: burst_act.splits)

lemma burst_rows:
  "let b = drive_chat_burst_for env p chain (burst_start n); rows = concat (map stored_row (map of_burst_act (b_log b)))
   in if list_ex is_error (map of_burst_act (b_log b)) then list_all (\<lambda>r. rm_truncated r \<and> \<not> of_product_qa r) rows
      else \<exists>olds r. rows = olds @ [r] \<and> list_all (\<lambda>r. rm_truncated r \<and> \<not> of_product_qa r) olds \<and> \<not> rm_truncated r"
proof -
  let ?b = "drive_chat_burst_for env p chain (burst_start n)"
  let ?m = "fold watch (b_log ?b) monitor_start"
  have m: "monitor_of ?b = ?m" by (simp add: monitor_of_def)
  have rows: "mo_phase ?m \<noteq> Broken \<Longrightarrow> concat (map stored_row (map of_burst_act (b_log ?b))) = map plain_row (mo_rows ?m)"
    using watch_rows [of "b_log ?b" monitor_start] burst_stored [of "b_log ?b"] by (simp add: monitor_start_def)
  from burst_ends [of env p chain n] consider r wire ghost where "concluded ?b r wire ghost"
    | "mo_phase ?m = Failed" "list_all ai_truncated (mo_rows ?m)" by (auto simp: burst_over_def m)
  then show ?thesis
  proof cases
    case 1
    then obtain olds where o: "mo_rows ?m = olds @ [r]" "list_all ai_truncated olds" "\<not> ai_truncated r"
      and ph: "mo_phase ?m = Concluded r wire ghost" by (auto simp: concluded_def m list_all_iff)
    have none: "\<not> list_ex is_error (map of_burst_act (b_log ?b))"
      using no_error_before [of "b_log ?b" monitor_start] ph by (auto simp: list_all_iff list_ex_iff)
    have "concat (map stored_row (map of_burst_act (b_log ?b))) = map plain_row olds @ [plain_row r]"
      using rows ph o(1) by simp
    then show ?thesis unfolding Let_def using none o(2,3)
      by (auto simp: list_all_iff intro!: exI [of _ "map plain_row olds"] exI [of _ "plain_row r"])
  next
    case 2
    have "\<exists>x\<in>set (b_log ?b). is_error (of_burst_act x)"
    proof -
      have "b_log ?b \<noteq> []" using 2(1) by (auto simp: monitor_start_def)
      then obtain xs a where log: "b_log ?b = xs @ [a]" by (metis rev_exhaust)
      have "mo_phase (watch a (fold watch xs monitor_start)) = Failed" using 2(1) log by simp
      then show ?thesis using watch_fails log by auto
    qed
    then have "list_ex is_error (map of_burst_act (b_log ?b))" by (auto simp: list_ex_iff)
    then show ?thesis unfolding Let_def using rows 2 by (simp add: list_all_iff)
  qed
qed

subsection \<open>Arm by arm\<close>

lemma settle_no_error: "\<not> list_ex is_error (settle_acts plan caption produced)"
  by (rule settle_acts_plain)

lemma quiet_no_error: "quiet ph acts \<Longrightarrow> \<not> list_ex is_error acts"
  by (auto simp: quiet_def list_all_iff list_ex_iff plain_def)

lemma image_rows: "rows_settle (image_arm env m plan fs)"
proof -
  obtain img composed where c: "compose_of env m plan (pu_content m) = (img, composed)" by fastforce
  note q = quiet_no_error [OF compose_quiet [OF c, of Opening]] and r = rowless_compose [OF c, unfolded rowless_def]
  note a = rowless_settle [of plan "di_caption img" "[\<lparr>pm_message_id = te_next env, pm_full_text = [], pm_action = ReplyImage\<rparr>]",
      unfolded rowless_def]
  show ?thesis
    by (rule rows_settle_rows [where olds = "[]" and r = "plain_row (image_row env plan (te_next env) img)"])
      (simp_all add: image_arm_def c Let_def q r a settle_no_error delegated_image_only_frames_with_def
         build_image_request_frame_with_def stored_row_insert image_row_def del: stored_row.simps(1) concat_eq_Nil_conv)
qed

lemma qa_rows: "rows_settle (product_qa_arm up phrase hidden sess mid tier p recent question fs)"
proof -
  let ?w = "qa_walk up sess mid (qa_request p (qa_payload recent question)) 0 (rp_model p # rp_fallback_model p) qa_walk_start"
  let ?a = "qw_log ?w @ qa_billed sess (qw_last ?w)"
  have q: "quiet (InBubble mid) ?a"
    by (intro quiet_append qa_walk_quiet qa_billed_quiet) (simp add: qa_walk_start_def)
  have r: "rowless ?a" by (simp add: rowless_qa_billed rowless_qa_walk qa_walk_start_def del: qa_walk.simps)
  let ?open = "[TMarkProductQa, TYield (Meta mid FProductQa None None None)]"
  have closed: "rows_settle (?open @ ?a @ more @ qa_closing hidden mid tier fs ans)"
    if "rowless more" "\<not> list_ex is_error more" for more ans
  proof -
    obtain ups gws where s: "split_failures (qr_failures ans) = (ups, gws)" by fastforce
    show ?thesis
      by (rule rows_settle_rows [where olds = "[]" and r = "hd (stored_row (hd (qa_closing hidden mid tier fs ans)))"])
        (use quiet_no_error [OF q] r that in \<open>simp_all add: qa_closing_def s rowless_def of_product_qa_def del: qa_walk.simps\<close>)
  qed
  have failed: "rows_settle (?open @ ?a @ [TYield (qa_error_frame xs)])" for xs
    using r by (auto simp: rows_settle_def rowless_def qa_error_act list_all_iff simp del: qa_walk.simps)
  show ?thesis
  proof (cases phrase)
    case None
    then show ?thesis using closed [of "[]"] failed by (simp add: product_qa_arm_def Let_def del: qa_walk.simps)
  next
    case (Some x)
    then show ?thesis using closed [of "[]"] closed [of "[TYield (Delta mid x)]"]
      by (simp add: product_qa_arm_def Let_def del: qa_walk.simps)
  qed
qed

lemma text_rows: "rows_settle (text_arm env m inp plan run fs)"
proof -
  obtain filtered ifs eff where i: "input_stage env m = (filtered, ifs, eff)" by (cases "input_stage env m") auto
  have quiet: "quiet Opening (vision_acts env m @ filtered)" and rowless: "rowless (vision_acts env m @ filtered)"
    using quiet_append [OF vision_quiet input_quiet [OF i]] rowless_vision rowless_input [OF i] by simp_all
  let ?needs = "turn_needs (in_event inp) plan (prior_needs env) (judged_needs run (prior_needs env))"
  show ?thesis
  proof (cases "te_reply_request env inp plan ?needs eff")
    case (Inl e)
    have "rows_settle [TYield (internal_error (str ''build_reply_request failed: '' @ e))]"
      by (simp add: rows_settle_def del: str_simps)
    from rows_settle_append [OF rowless quiet this] show ?thesis by (simp add: text_arm_def i Inl Let_def del: str_simps)
  next
    case (Inr rt)
    obtain req tags where rt: "rt = (req, tags)" by fastforce
    let ?b = "drive_chat_burst_for (te_burst env) (turn_burst_args env m plan req tags)
                (reply_chain (te_draw env) req (te_byok env)) (burst_start (te_next env))"
    let ?acts = "map of_burst_act (b_log ?b)"
    note br = burst_rows [of "te_burst env" "turn_burst_args env m plan req tags"
          "reply_chain (te_draw env) req (te_byok env)" "te_next env", unfolded Let_def]
    have ends: "burst_failed ?acts \<or> (\<exists>i. burst_answered ?acts (b_out ?b) i)"
      using burst_for_turn [of "te_burst env" "turn_burst_args env m plan req tags"
          "reply_chain (te_draw env) req (te_byok env)" "te_next env"] by (simp add: Let_def)
    from ends show ?thesis
    proof
      assume f: "burst_failed ?acts"
      then have "rows_settle ?acts" using br by (simp add: burst_failed_def rows_settle_def Let_def)
      from rows_settle_append [OF rowless quiet this] f show ?thesis
        by (simp add: text_arm_def i Inr rt Let_def burst_failed_def)
    next
      assume "\<exists>i. burst_answered ?acts (b_out ?b) i"
      then obtain j where a: "burst_answered ?acts (b_out ?b) j" by blast
      then have none: "\<not> list_ex is_error ?acts" by (auto simp: burst_answered_def list_all_iff list_ex_iff)
      with br obtain olds r where rows: "concat (map stored_row ?acts) = olds @ [r]"
        "list_all (\<lambda>r. rm_truncated r \<and> \<not> of_product_qa r) olds" "\<not> rm_truncated r" by auto
      obtain pictured cfs caption where p: "picture_stage env m plan eff (bo_produced (b_out ?b)) = (pictured, cfs, caption)"
        by (cases "picture_stage env m plan eff (bo_produced (b_out ?b))") auto
      have ids: "map pm_message_id (bo_produced (b_out ?b)) = [j]" using a by (simp add: burst_answered_def)
      let ?c = "text_closing env m plan eff tags (b_out ?b) (fs @ ifs)"
      have pe: "\<not> list_ex is_error pictured" using picture_acts [OF p ids] by (auto simp: list_all_iff list_ex_iff)
      have c: "rowless ?c" "\<not> list_ex is_error ?c"
        by (simp_all add: text_closing_def p rowless_settle settle_no_error rowless_picture [OF p] pe)
      have "rows_settle (?acts @ ?c)"
        by (rule rows_settle_rows [where olds = olds and r = r, OF _ _ rows(2)])
          (use none c rows in \<open>simp_all add: rowless_def del: concat_eq_Nil_conv map_map\<close>)
      from rows_settle_append [OF rowless quiet this] show ?thesis
        using a by (simp add: text_arm_def i Inr rt Let_def burst_answered_def)
    qed
  qed
qed

subsection \<open>The turn\<close>

lemma turn_arm_rows:
  assumes "plan_action_type plan \<noteq> Proactive" and "plan_action_type plan = ProductQa \<Longrightarrow> qa_available env"
  shows "rows_settle (turn_arm env m inp plan run)"
proof -
  have ghost: "rows_settle (ghost_arm env m fs)" for fs
    by (simp add: ghost_arm_def ghost_frames_def rows_settle_def)
  have "rows_settle (qa_arm env m fs)" if "qa_available env" for fs
    using that product_qa_resolves [of "te_config env" "te_draw env"] qa_rows
    by (auto simp: qa_arm_def qa_available_def split: option.splits)
  then show ?thesis using assms ghost image_rows text_rows
    by (cases "plan_action_type plan") (simp_all add: turn_arm_def Let_def)
qed

lemma planned_rows:
  assumes "in_event inp = to_event m"
  shows "rows_settle (planned_turn env m inp run)"
proof -
  obtain p where p: "turn_plan (turn_caps_of env m inp) inp run = Some p"
    and t: "plan_action_type p \<in> set (allowed_actions (turn_caps_of env m inp) inp)"
    using turn_plan_exists [OF assms [unfolded to_event_def], of "turn_caps_of env m inp" run] by blast
  let ?p = "finalised env m inp p"
  have same: "plan_action_type ?p = plan_action_type p" by (simp add: finalised_def)
  have "plan_action_type p \<noteq> Proactive" "plan_action_type p = ProductQa \<Longrightarrow> qa_available env"
    using t by (auto simp: allowed_actions_def turn_caps_of_def split: if_splits)
  then have "rows_settle (turn_arm env m inp ?p run)" using same by (intro turn_arm_rows) simp_all
  from rows_settle_append [OF rowless_plan plan_quiet this] show ?thesis by (simp add: planned_turn_def p Let_def)
qed

lemma judged_rows:
  assumes "in_event inp = to_event m"
  shows "rows_settle (judged_turn env m inp)"
proof (cases "judge_steps env m inp")
  case None
  then show ?thesis using planned_rows [OF assms] by (simp add: judged_turn_def)
next
  case (Some steps)
  then obtain p ctx where st: "steps = run_pde_decision (te_from_str env) (te_judge env) (pu_session_id m) p ctx"
    by (auto simp: judge_steps_def)
  obtain run where r: "judge_finished steps = Some run" unfolding st using judge_finishes by blast
  have "quiet Opening (TMarkConsumed # judge_acts steps)" by (rule quiet_Cons [OF _ _ judge_quiet]) simp_all
  from rows_settle_append [OF _ this planned_rows [OF assms]] rowless_judge show ?thesis
    by (simp add: judged_turn_def Some r)
qed

lemma turn_rows: "rows_settle (run_stream_with env m)"
proof (cases "turn_input env m")
  case (Inl e)
  then obtain x where "e = internal_error x" by (auto simp: turn_input_def Let_def split: option.splits sum.splits)
  then show ?thesis using Inl by (simp add: run_stream_with_def rows_settle_def)
next
  case (Inr inp)
  then have ev: "in_event inp = to_event m" by (auto simp: turn_input_def Let_def split: option.splits sum.splits)
  have "quiet Opening (if pu_action m = None then [TConvertIgnoredAsk] else [])" by (simp add: quiet_Cons)
  moreover have "rowless (if pu_action m = None then [TConvertIgnoredAsk] else [])" by simp
  moreover have "rows_settle (if offline_silence env m inp
        then TMarkGhosted # ghost_frames (te_next env) @ [TYield (build_final_frame False None (pu_tier m) 0 0 [])]
        else judged_turn env m inp)"
    using judged_rows [OF ev] by (simp add: rows_settle_def ghost_frames_def)
  ultimately show ?thesis using rows_settle_append by (simp add: run_stream_with_def Inr split del: if_split)
qed

section \<open>The replay\<close>

lemma joined_simps [simp]: "rm_truncated (joined gens r) = rm_truncated r" "of_product_qa (joined gens r) = of_product_qa r"
  "rm_id (joined gens r) = rm_id r" "rm_content (joined gens r) = rm_content r"
  by (simp_all add: joined_def of_product_qa_def Let_def)

lemma replay_bubble:
  assumes "ph = Opening \<or> (\<exists>i. ph = AfterBubble i True)"
  shows "fold frame_phase (replay_frames pk dis hidden r) ph = AfterBubble (rm_id r) (rm_truncated r)"
  using assms by (auto simp: replay_frames_def)

lemma replay_superseded:
  assumes "list_all rm_truncated rows"
  shows "fold frame_phase (concat (map (replay_frames pk dis hidden) rows)) Opening
    = (if rows = [] then Opening else AfterBubble (rm_id (last rows)) True)"
  using assms
proof (induction rows rule: rev_induct)
  case (snoc r rows)
  then show ?case using replay_bubble [of "if rows = [] then Opening else AfterBubble (rm_id (last rows)) True" pk dis hidden r]
    by (auto split: if_splits)
qed simp

text \<open>C9: A retry is answered as the turn was: when the turn ended in its closing frame the replay of what it stored is a
  turn in order that ends in the closing frame, a cut product answer included; when it ended in an error it
  has left nothing to replay, or the replay ends in an error too.\<close>

theorem replay_answers_as_the_turn:
  "let acts = run_stream_with env m; rows = stored_rows gens acts; ghost = (TMarkGhosted \<in> set acts);
       frames = replay_stream pk dis hidden fresh ghost rows
   in if rows = [] \<and> \<not> ghost then list_ex is_error acts
      else fold frame_phase frames Opening = Ended \<and> is_error (TYield (last frames)) = list_ex is_error acts"
proof -
  let ?acts = "run_stream_with env m" and ?final = "build_final_frame False None None 0 0 []"
  let ?all = "concat (map stored_row ?acts)"
  have rs: "rows_settle ?acts" by (rule turn_rows)
  have ghost: "list_ex is_error ?acts \<Longrightarrow> TMarkGhosted \<notin> set ?acts"
    using turn_ok [of env m] by (auto simp: arm_ok_def settles_once_def list_all_iff split: if_splits)
  have final: "\<not> is_error (TYield ?final)" by simp
  consider (error) "list_ex is_error ?acts" | (ghost) "\<not> list_ex is_error ?acts" "TMarkGhosted \<in> set ?acts"
    | (rows) "\<not> list_ex is_error ?acts" "TMarkGhosted \<notin> set ?acts" by blast
  then show ?thesis
  proof cases
    case error
    then have t: "list_all rm_truncated (stored_rows gens ?acts)" "\<not> list_ex of_product_qa (stored_rows gens ?acts)"
      using rs by (auto simp: rows_settle_def stored_rows_def list_all_iff list_ex_iff)
    then show ?thesis using error ghost replay_superseded [OF t(1), of pk dis hidden]
      by (simp add: Let_def replay_stream_def REPLAYED_ERROR_def)
  next
    case ghost
    then show ?thesis by (simp add: Let_def replay_stream_def)
  next
    case rows
    then obtain olds r where o: "?all = olds @ [r]" "list_all (\<lambda>r. rm_truncated r \<and> \<not> of_product_qa r) olds"
      "of_product_qa r \<and> olds = [] \<or> \<not> rm_truncated r" using rs by (auto simp: rows_settle_def Let_def)
    let ?olds = "map (joined gens) olds" and ?r = "joined gens r"
    have sr: "stored_rows gens ?acts = ?olds @ [?r]" by (simp only: stored_rows_def o(1) map_append list.map)
    have t: "list_all rm_truncated ?olds" using o(2) by (auto simp: list_all_iff)
    have b: "fold frame_phase (replay_frames pk dis hidden ?r) (if ?olds = [] then Opening else AfterBubble (rm_id (last ?olds)) True)
        = AfterBubble (rm_id ?r) (rm_truncated ?r)" by (rule replay_bubble) auto
    have fin: "\<not> (\<not> list_ex of_product_qa (?olds @ [?r]) \<and> list_all rm_truncated (?olds @ [?r]))" using o(3) by auto
    show ?thesis unfolding Let_def sr
      using rows b fin replay_superseded [OF t, of pk dis hidden] by (auto simp: replay_stream_def Let_def)
  qed
qed

end
