(* ===== verification/Replay_Props.thy ===== *)
theory Replay_Props
  imports Replay Chat_Burst_Props
begin

text \<open>
  A difference between a live turn and its replay that the rules on output make.
\<close>

section \<open>A superseded bubble\<close>

text \<open>A reply cut at its length, with a bracket to strip, and then a whole one.\<close>

definition cut_then_whole :: stream_fn where
  "cut_then_whole i slug req =
     \<lparr>ar_stream = Opened [if i = 0 then said (str ''[x]hi'') (Some (str ''length'')) else said (str ''ok'') (Some (str ''stop''))]
        False, ar_recorded = True\<rparr>"

text \<open>The frames of a turn, and the text a client has been shown in one bubble.\<close>

definition yielded :: "turn_act list \<Rightarrow> protocol_frame list" where
  "yielded acts = concat (map (\<lambda>a. case a of TYield f \<Rightarrow> [f] | _ \<Rightarrow> []) acts)"

definition shown_text :: "ulid \<Rightarrow> protocol_frame list \<Rightarrow> rstr" where
  "shown_text i fs = concat (map (\<lambda>f. case f of Delta j x \<Rightarrow> if j = i then x else [] | _ \<Rightarrow> []) fs)"


end
