(* ===== verification/Affinity_Store.thy ===== *)
theory Affinity_Store
  imports Affinity_Props Scan_Parse Llm_Error "HOL-Library.Product_Lexorder"
begin

text \<open>
  The relationship rows and their log (\<open>crates/eros-engine-store/src/affinity.rs\<close>, the tier moments of
  \<open>journal.rs\<close>, and the statement of \<open>server/src/pipeline/stream.rs\<close> that clears a ghost streak). A statement
  locks the row it changes, so each operation is a function on the tables. An operation reads the
  server's clock as \<open>now\<close> (its readings lie well under a minute apart, which the decay does not count) and
  the transaction's as \<open>tx\<close>; identifiers the database generates are arguments. The balance of the
  threshold gate is kept decoded; a column that is null or does not decode counts as none.
\<close>

section \<open>Tables\<close>

record stored_affinity =
  sa_row :: affinity
  sa_pending :: "pending_deltas option"
  sa_bond_tier :: nat
  sa_chem_tier :: nat

record affinity_snapshot =
  sn_warmth :: f64
  sn_trust :: f64
  sn_intrigue :: f64
  sn_intimacy :: f64
  sn_patience :: f64
  sn_tension :: f64
  sn_bond :: f64
  sn_chemistry :: f64
  sn_bond_tier :: nat
  sn_chem_tier :: nat
  sn_warmth_grade :: int
  sn_patience_grade :: int
  sn_ghost_streak :: int
  sn_total_ghosts :: int
  sn_updated_at :: instant

definition snapshot_of :: "affinity \<Rightarrow> affinity_snapshot" where
  "snapshot_of a =
     \<lparr>sn_warmth = warmth a, sn_trust = trust a, sn_intrigue = intrigue a, sn_intimacy = intimacy a,
      sn_patience = patience a, sn_tension = tension a, sn_bond = bond_score a, sn_chemistry = chemistry_score a,
      sn_bond_tier = bond_tier a, sn_chem_tier = chem_tier a, sn_warmth_grade = warmth_grade a,
      sn_patience_grade = patience_grade a, sn_ghost_streak = ghost_streak a, sn_total_ghosts = total_ghosts a,
      sn_updated_at = updated_at a\<rparr>"

text \<open>\<open>ae_deltas\<close> is none for the empty object a silence logs.\<close>

record affinity_event =
  ae_id :: uuid
  ae_affinity :: uuid
  ae_type :: rstr
  ae_deltas :: "affinity_deltas option"
  ae_effective :: affinity_deltas
  ae_labels :: "turn_label_changes option"
  ae_line :: "f64 \<times> f64"
  ae_context :: json
  ae_before :: affinity_snapshot
  ae_after :: affinity_snapshot
  ae_generation :: "rstr option"
  ae_llm_attempts :: "upstream_attempt list option"
  ae_gateway_errors :: "gateway_error list option"
  ae_user_message :: "uuid option"
  ae_created_at :: instant

record journal_entry =
  je_insert :: journal_insert
  je_created_at :: instant

record affinity_db =
  ad_rows :: "stored_affinity list"
  ad_events :: "affinity_event list"
  ad_journal :: "journal_entry list"

definition row_id :: "stored_affinity \<Rightarrow> uuid" where
  "row_id s = aff_id (sa_row s)"

definition find_row :: "uuid \<Rightarrow> affinity_db \<Rightarrow> stored_affinity option" where
  "find_row i db = List.find (\<lambda>s. row_id s = i) (ad_rows db)"

definition put_row :: "stored_affinity \<Rightarrow> affinity_db \<Rightarrow> affinity_db" where
  "put_row s db = db\<lparr>ad_rows := map (\<lambda>r. if row_id r = row_id s then s else r) (ad_rows db)\<rparr>"

definition log_event :: "affinity_event \<Rightarrow> affinity_db \<Rightarrow> affinity_db" where
  "log_event e db = db\<lparr>ad_events := ad_events db @ [e]\<rparr>"

section \<open>Loading\<close>

text \<open>A row starts from the column defaults; the endpoint default is the exact decimal the database computes.\<close>

definition FRESH_ENDPOINT :: f64 where
  "FRESH_ENDPOINT = flit (2435897435897435897408974358974358974359 / 10 ^ 40)"

definition fresh_row :: "uuid \<Rightarrow> uuid \<Rightarrow> uuid \<Rightarrow> uuid \<Rightarrow> instant \<Rightarrow> stored_affinity" where
  "fresh_row i sess user inst tx =
     \<lparr>sa_row = \<lparr>aff_id = i, session_id = sess, user_id = user, instance_id = inst, warmth = FRESH_ENDPOINT,
        trust = 0, intrigue = 0, intimacy = 0, patience = FRESH_ENDPOINT, tension = 0, warmth_grade = 2,
        patience_grade = 2, ghost_streak = 0, last_ghost_at = None, total_ghosts = 0, feeling_clause = None,
        feeling_clause_at = None, created_at = tx, updated_at = tx\<rparr>,
      sa_pending = None, sa_bond_tier = 1, sa_chem_tier = 1\<rparr>"

definition stored_of_session :: "uuid \<Rightarrow> affinity_db \<Rightarrow> stored_affinity option" where
  "stored_of_session sess db = List.find (\<lambda>s. session_id (sa_row s) = sess) (ad_rows db)"

definition load_on :: "uuid \<Rightarrow> affinity_db \<Rightarrow> affinity option" where
  "load_on sess db = map_option sa_row (stored_of_session sess db)"

definition load_or_create_on :: "uuid \<Rightarrow> instant \<Rightarrow> uuid \<Rightarrow> uuid \<Rightarrow> uuid \<Rightarrow> affinity_db \<Rightarrow> affinity \<times> affinity_db" where
  "load_or_create_on i tx sess user inst db = (case load_on sess db of
     Some a \<Rightarrow> (a, db)
   | None \<Rightarrow> (let s = fresh_row i sess user inst tx in (sa_row s, db\<lparr>ad_rows := ad_rows db @ [s]\<rparr>)))"

definition load_or_create_if_live :: "(uuid \<Rightarrow> bool) \<Rightarrow> uuid \<Rightarrow> instant \<Rightarrow> uuid \<Rightarrow> uuid \<Rightarrow> uuid \<Rightarrow> affinity_db
    \<Rightarrow> affinity option \<times> affinity_db" where
  "load_or_create_if_live live i tx sess user inst db =
     (if live sess then map_prod Some (\<lambda>db. db) (load_or_create_on i tx sess user inst db) else (None, db))"

definition newest_first :: "('a \<Rightarrow> instant \<times> uuid) \<Rightarrow> 'a list \<Rightarrow> 'a list" where
  "newest_first key xs = rev (sort_key key xs)"

text \<open>A tie of instants may come in any order; it comes in that of the table here.\<close>

definition load_latest_for_pair :: "uuid \<Rightarrow> uuid \<Rightarrow> affinity_db \<Rightarrow> affinity option" where
  "load_latest_for_pair user inst db =
     (case rev (sort_key updated_at (filter (\<lambda>a. user_id a = user \<and> instance_id a = inst) (map sa_row (ad_rows db)))) of
        [] \<Rightarrow> None | a # _ \<Rightarrow> Some a)"

text \<open>A page of the user's relationships: \<open>genome\<close> is the join with the instances.\<close>

definition page_key :: "affinity \<Rightarrow> instant \<times> uuid" where
  "page_key a = (updated_at a, session_id a)"

definition list_for_user :: "(uuid \<Rightarrow> uuid option option) \<Rightarrow> uuid \<Rightarrow> (instant \<times> uuid) option \<Rightarrow> nat \<Rightarrow> affinity_db
    \<Rightarrow> (affinity \<times> uuid option) list" where
  "list_for_user genome user after limit db =
     (let joined = List.map_filter (\<lambda>a. map_option (Pair a) (genome (instance_id a)))
            (filter (\<lambda>a. user_id a = user) (map sa_row (ad_rows db)));
          wanted = (case after of Some k \<Rightarrow> filter (\<lambda>(a, g). page_key a < k) joined | None \<Rightarrow> joined)
      in take limit (newest_first (page_key \<circ> fst) wanted))"

section \<open>The log read back\<close>

definition events_of :: "uuid \<Rightarrow> affinity_db \<Rightarrow> affinity_event list" where
  "events_of sess db = newest_first (\<lambda>e. (ae_created_at e, ae_id e))
     (filter (\<lambda>e. list_ex (\<lambda>s. row_id s = ae_affinity e \<and> session_id (sa_row s) = sess) (ad_rows db)) (ad_events db))"

definition list_events :: "uuid \<Rightarrow> nat \<Rightarrow> nat \<Rightarrow> rstr option \<Rightarrow> affinity_db \<Rightarrow> affinity_event list" where
  "list_events sess limit offset type db =
     take limit (drop offset (filter (\<lambda>e. case type of None \<Rightarrow> True | Some t \<Rightarrow> ae_type e = t) (events_of sess db)))"

definition TURN_EVENTS :: "rstr list" where
  "TURN_EVENTS = [str ''message'', str ''gift'', str ''proactive'', str ''ghost'']"

definition latest_turn_event :: "uuid \<Rightarrow> affinity_db \<Rightarrow> affinity_event option" where
  "latest_turn_event sess db = List.find (\<lambda>e. ae_type e \<in> set TURN_EVENTS) (events_of sess db)"

definition judged_turn_event :: "affinity_event \<Rightarrow> bool" where
  "judged_turn_event e \<longleftrightarrow> ae_type e = str ''message'' \<and> ae_generation e \<noteq> None
     \<and> (case json_get (str ''eval_skip_reason'') (ae_context e) of None \<Rightarrow> True | Some v \<Rightarrow> v = JNull)"

definition last_judged_endpoints :: "uuid \<Rightarrow> instant option \<Rightarrow> nat \<Rightarrow> affinity_db \<Rightarrow> (f64 \<times> f64) list" where
  "last_judged_endpoints sess since limit db =
     take limit (map (\<lambda>e. (sn_warmth (ae_after e), sn_patience (ae_after e)))
       (filter (\<lambda>e. judged_turn_event e \<and> (case since of None \<Rightarrow> True | Some t \<Rightarrow> t < ae_created_at e)) (events_of sess db)))"

text \<open>The reasons: \<open>trim\<close> of SQL takes spaces only. A reason is written as a string.\<close>

definition reason_of :: "affinity_event \<Rightarrow> rstr option" where
  "reason_of e = (if ae_type e = str ''message'' \<or> ae_type e = str ''gift''
     then (case Option.bind (json_get (str ''affinity_reason'') (ae_context e)) as_str_json of
         Some s \<Rightarrow> if list_ex (\<lambda>c. c \<noteq> 32) s then Some s else None | None \<Rightarrow> None)
     else None)"

definition recent_emotional_reasons :: "(uuid \<Rightarrow> instant option) \<Rightarrow> uuid \<Rightarrow> uuid \<Rightarrow> nat \<Rightarrow> affinity_db \<Rightarrow> rstr list" where
  "recent_emotional_reasons sent_at sess before limit db = (case sent_at before of
     None \<Rightarrow> []
   | Some t \<Rightarrow> take limit (List.map_filter reason_of (filter (\<lambda>e. ae_created_at e < t) (events_of sess db))))"

definition recent_reasons :: "uuid \<Rightarrow> nat \<Rightarrow> affinity_db \<Rightarrow> rstr list" where
  "recent_reasons sess limit db = take limit (List.map_filter reason_of (events_of sess db))"

section \<open>Tier moments\<close>

definition engine_row :: "uuid \<Rightarrow> int \<Rightarrow> rstr \<Rightarrow> rstr \<Rightarrow> rstr \<Rightarrow> rstr \<Rightarrow> journal_insert" where
  "engine_row inst on kind summary key recurrence =
     \<lparr>ji_instance = inst, ji_occurred_on = on, ji_kind = kind, ji_realm = str ''real'', ji_summary = summary,
      ji_source = str ''engine'', ji_message = None, ji_affinity_event = None, ji_dedup_key = Some key,
      ji_due_on = None, ji_recurrence = recurrence\<rparr>"

definition TIER_REACHED :: rstr where "TIER_REACHED = str ''tier_reached''"

definition tier_key :: "affinity_line \<Rightarrow> rstr \<Rightarrow> rstr" where
  "tier_key line key = line_as_str line @ str '':'' @ key"

definition tier_reached :: "uuid \<Rightarrow> affinity_line \<Rightarrow> rstr \<Rightarrow> rstr \<Rightarrow> uuid \<Rightarrow> int \<Rightarrow> journal_insert" where
  "tier_reached inst line key zh event on =
     (engine_row inst on TIER_REACHED
        ([20320, 20204, 30340, 20851, 31995, 21040, 20102, 12300] @ zh @ [12301]) (tier_key line key) (str ''none''))
     \<lparr>ji_affinity_event := Some event\<rparr>"

definition rung :: "affinity_line \<Rightarrow> affinity \<Rightarrow> nat \<times> rstr \<times> rstr" where
  "rung line a = (case line of
     Bond \<Rightarrow> (let l = aff_bond_label a in (bond_rank l, bond_as_key l, bond_zh l))
   | Chemistry \<Rightarrow> (let l = aff_chemistry_label a in (chem_rank l, chem_as_key l, chem_zh l)))"

definition keys_above :: "affinity_line \<Rightarrow> nat \<Rightarrow> rstr list" where
  "keys_above line rank = List.map_filter (\<lambda>tier.
     (let (r, key) = (case line of
            Bond \<Rightarrow> (let l = bond_from_tier tier in (bond_rank l, bond_as_key l))
          | Chemistry \<Rightarrow> (let l = chem_from_tier tier in (chem_rank l, chem_as_key l)))
      in if rank < r then Some key else None)) [1..<6]"

definition insert_journal :: "instant \<Rightarrow> journal_insert \<Rightarrow> journal_entry list \<Rightarrow> journal_entry list" where
  "insert_journal tx j rows =
     (if ji_dedup_key j \<noteq> None \<and> list_ex (\<lambda>r. ji_instance (je_insert r) = ji_instance j
           \<and> ji_dedup_key (je_insert r) = ji_dedup_key j) rows
      then rows else rows @ [\<lparr>je_insert = j, je_created_at = tx\<rparr>])"

definition DAY :: int where "DAY = 24 * 60 * 60 * 10 ^ 9"

definition undone :: "instant \<Rightarrow> uuid \<Rightarrow> rstr list \<Rightarrow> journal_entry \<Rightarrow> bool" where
  "undone tx inst keys r \<longleftrightarrow> ji_instance (je_insert r) = inst \<and> ji_kind (je_insert r) = TIER_REACHED
     \<and> (case ji_dedup_key (je_insert r) of Some k \<Rightarrow> k \<in> set keys | None \<Rightarrow> False)
     \<and> tx - DAY < je_created_at r"

definition line_moves :: "instant \<Rightarrow> affinity \<Rightarrow> affinity \<Rightarrow> uuid \<Rightarrow> int \<Rightarrow> affinity_line \<Rightarrow> journal_entry list
    \<Rightarrow> journal_entry list" where
  "line_moves tx before after event on line rows =
     (let was = fst (rung line before); (now, key, zh) = rung line after
      in if was < now then insert_journal tx (tier_reached (instance_id after) line key zh event on) rows
         else if now < was
         then filter (\<lambda>r. \<not> undone tx (instance_id after) (map (tier_key line) (keys_above line now)) r) rows
         else rows)"

definition record_label_moves :: "instant \<Rightarrow> affinity \<Rightarrow> affinity \<Rightarrow> uuid \<Rightarrow> int \<Rightarrow> journal_entry list \<Rightarrow> journal_entry list" where
  "record_label_moves tx before after event on rows =
     line_moves tx before after event on Chemistry (line_moves tx before after event on Bond rows)"

section \<open>A graded turn\<close>

definition scale_positive :: "f64 \<Rightarrow> f64 \<Rightarrow> f64" where
  "scale_positive scale d = (if 0 < d then fmul d scale else d)"

definition scale_positive_line_deltas :: "f64 \<Rightarrow> affinity_deltas \<Rightarrow> affinity_deltas" where
  "scale_positive_line_deltas scale d =
     d\<lparr>d_trust := scale_positive scale (d_trust d), d_intrigue := scale_positive scale (d_intrigue d),
       d_intimacy := scale_positive scale (d_intimacy d), d_tension := scale_positive scale (d_tension d)\<rparr>"

record persist_args =
  pa_grades :: axis_grades
  pa_rule_deltas :: affinity_deltas
  pa_boost :: f64
  pa_event_type :: rstr
  pa_context :: json
  pa_generation :: "rstr option"
  pa_levels :: endpoint_level_reads
  pa_llm_attempts :: "upstream_attempt list option"
  pa_gateway_errors :: "gateway_error list option"
  pa_user_message :: "uuid option"
  pa_tier_drop :: "affinity_line option"
  pa_growth_scale :: f64
  pa_on :: int

definition pending_of :: "stored_affinity \<Rightarrow> pending_deltas" where
  "pending_of s = (case sa_pending s of Some p \<Rightarrow> p | None \<Rightarrow> zero_pending)"

definition settled :: "instant \<Rightarrow> affinity_tuning \<Rightarrow> affinity \<Rightarrow> affinity" where
  "settled now t a = refresh_endpoints now t (apply_time_decay now a)"

definition read_levels :: "endpoint_level_reads \<Rightarrow> affinity \<Rightarrow> affinity" where
  "read_levels l a = a\<lparr>warmth_grade := (case r_warmth l of Some g \<Rightarrow> saturate 1 3 g | None \<Rightarrow> warmth_grade a),
     patience_grade := (case r_patience l of Some g \<Rightarrow> saturate 1 3 g | None \<Rightarrow> patience_grade a)\<rparr>"

text \<open>The row before the turn, the verdict, the row after it and the balance it leaves.\<close>

definition judged :: "instant \<Rightarrow> affinity_tuning \<Rightarrow> persist_args \<Rightarrow> stored_affinity
    \<Rightarrow> affinity \<times> grade_turn_outcome \<times> affinity \<times> pending_deltas" where
  "judged now t p s =
     (let before = settled now t (sa_row s);
          outcome = grade_turn before (pa_grades p) (pa_rule_deltas p) (pending_of s) (pa_boost p) t;
          current = apply_deltas now (scale_positive_line_deltas (pa_growth_scale p) (out_committed outcome)) before;
          (current, pending) = (case pa_tier_drop p of
              Some line \<Rightarrow> (drop_line_tier before line current, clear_line line (out_pending outcome))
            | None \<Rightarrow> (current, out_pending outcome))
      in (before, outcome, refresh_endpoints now t (read_levels (pa_levels p) current), pending))"

definition effective_between :: "affinity \<Rightarrow> affinity \<Rightarrow> affinity_deltas" where
  "effective_between before after =
     \<lparr>d_warmth = fsub (warmth after) (warmth before), d_trust = fsub (trust after) (trust before),
      d_intrigue = fsub (intrigue after) (intrigue before), d_intimacy = fsub (intimacy after) (intimacy before),
      d_patience = fsub (patience after) (patience before), d_tension = fsub (tension after) (tension before)\<rparr>"

definition line_between :: "affinity \<Rightarrow> affinity \<Rightarrow> f64 \<times> f64" where
  "line_between before after =
     (fsub (bond_score after) (bond_score before), fsub (chemistry_score after) (chemistry_score before))"

definition projected :: "affinity \<Rightarrow> pending_deltas \<Rightarrow> stored_affinity" where
  "projected a pending = \<lparr>sa_row = a, sa_pending = Some pending, sa_bond_tier = bond_tier a, sa_chem_tier = chem_tier a\<rparr>"

text \<open>The audit: the keys the engine owns, written over whatever the caller supplied.\<close>

definition obj_insert :: "rstr \<Rightarrow> json \<Rightarrow> (rstr \<times> json) list \<Rightarrow> (rstr \<times> json) list" where
  "obj_insert key v m = (key, v) # filter (\<lambda>(k, _). k \<noteq> key) m"

definition obj_remove :: "rstr \<Rightarrow> (rstr \<times> json) list \<Rightarrow> (rstr \<times> json) list" where
  "obj_remove key m = filter (\<lambda>(k, _). k \<noteq> key) m"

definition obj_set :: "rstr \<Rightarrow> json option \<Rightarrow> (rstr \<times> json) list \<Rightarrow> (rstr \<times> json) list" where
  "obj_set key v m = (case v of Some x \<Rightarrow> obj_insert key x m | None \<Rightarrow> obj_remove key m)"

definition axes_json :: "f64 \<Rightarrow> f64 \<Rightarrow> f64 \<Rightarrow> f64 \<Rightarrow> json" where
  "axes_json t ig im tn = JObj [(str ''trust'', JNum t), (str ''intrigue'', JNum ig), (str ''intimacy'', JNum im),
     (str ''tension'', JNum tn)]"

definition caller_object :: "json \<Rightarrow> (rstr \<times> json) list" where
  "caller_object v = (case v of JObj m \<Rightarrow> m | JNull \<Rightarrow> [] | _ \<Rightarrow> [(str ''caller'', v)])"

definition audit_context :: "f64 \<Rightarrow> affinity_tuning \<Rightarrow> persist_args \<Rightarrow> grade_turn_outcome \<Rightarrow> affinity \<Rightarrow> pending_deltas \<Rightarrow> json" where
  "audit_context decay t p outcome current pending =
     (let g = pa_grades p; x = out_penalty outcome; num = JNum \<circ> f64_of_int;
          m = caller_object (pa_context p);
          m = obj_insert (str ''grades'') (axes_json (f64_of_int (g_trust g)) (f64_of_int (g_intrigue g))
                (f64_of_int (g_intimacy g)) (f64_of_int (g_tension g))) m;
          m = obj_remove (str ''effective_grades'') m;
          m = obj_insert (str ''pending_after'') (axes_json (p_trust pending) (p_intrigue pending) (p_intimacy pending)
                (p_tension pending)) m;
          m = obj_set (str ''tier_drop'') (map_option (JStr \<circ> line_as_str) (pa_tier_drop p)) m;
          m = obj_set (str ''growth_scale'') (if pa_growth_scale p \<noteq> 1 then Some (JNum (pa_growth_scale p)) else None) m;
          m = (case r_warmth (pa_levels p) of Some l \<Rightarrow> obj_insert (str ''warmth_grade'') (num l) m | None \<Rightarrow> m);
          m = (case r_patience (pa_levels p) of Some l \<Rightarrow> obj_insert (str ''patience_grade'') (num l) m | None \<Rightarrow> m);
          m = obj_insert (str ''boost_warmth'') (JNum (endpoint_boost (chemistry_score current))) m;
          m = obj_insert (str ''boost_patience'') (JNum (endpoint_boost (bond_score current))) m;
          m = obj_insert (str ''decay_factor'') (JNum decay) m;
          m = obj_insert (str ''units'') (JObj [(str ''bond'', JNum (grade_unit_bond t)), (str ''chem'', JNum (grade_unit_chem t))]) m
      in JObj (obj_set (str ''cross_penalty_assessed'')
           (if cross_penalty_is_zero x then None
            else Some (axes_json (x_trust x) (x_intrigue x) (x_intimacy x) (x_tension x))) m))"

definition turn_event :: "instant \<Rightarrow> uuid \<Rightarrow> persist_args \<Rightarrow> uuid \<Rightarrow> json \<Rightarrow> affinity \<Rightarrow> grade_turn_outcome \<Rightarrow> affinity \<Rightarrow> affinity_event" where
  "turn_event tx event p i context before outcome current =
     \<lparr>ae_id = event, ae_affinity = i, ae_type = pa_event_type p, ae_deltas = Some (out_raw outcome),
      ae_effective = effective_between before current, ae_labels = diff_labels before current,
      ae_line = line_between before current, ae_context = context, ae_before = snapshot_of before,
      ae_after = snapshot_of current, ae_generation = pa_generation p, ae_llm_attempts = pa_llm_attempts p,
      ae_gateway_errors = pa_gateway_errors p, ae_user_message = pa_user_message p, ae_created_at = tx\<rparr>"

definition persist_with_event :: "instant \<Rightarrow> instant \<Rightarrow> affinity_tuning \<Rightarrow> uuid \<Rightarrow> persist_args \<Rightarrow> uuid \<Rightarrow> affinity_db
    \<Rightarrow> (affinity \<times> affinity_db) option" where
  "persist_with_event now tx t event p i db = (case find_row i db of
     None \<Rightarrow> None
   | Some s \<Rightarrow>
       (let decay = endpoint_time_decay (days_since now (updated_at (sa_row s))) (time_decay_rate t) (time_decay_floor t);
            (before, outcome, current, pending) = judged now t p s;
            current = current\<lparr>updated_at := tx\<rparr>;
            e = turn_event tx event p i (audit_context decay t p outcome current pending) before outcome current;
            db = log_event e (put_row (projected current pending) db)
        in Some (current, db\<lparr>ad_journal := record_label_moves tx before current event (pa_on p) (ad_journal db)\<rparr>)))"

section \<open>Silences\<close>

definition ghosted :: "instant \<Rightarrow> affinity \<Rightarrow> affinity" where
  "ghosted tx a = a\<lparr>ghost_streak := ghost_streak a + 1, total_ghosts := total_ghosts a + 1, last_ghost_at := Some tx,
     updated_at := tx\<rparr>"

definition ghost_event :: "instant \<Rightarrow> uuid \<Rightarrow> uuid option \<Rightarrow> uuid \<Rightarrow> affinity \<Rightarrow> affinity \<Rightarrow> affinity_event" where
  "ghost_event tx event message i before after =
     \<lparr>ae_id = event, ae_affinity = i, ae_type = str ''ghost'', ae_deltas = None, ae_effective = zero_deltas,
      ae_labels = None, ae_line = (0, 0), ae_context = JObj [], ae_before = snapshot_of before,
      ae_after = snapshot_of after, ae_generation = None, ae_llm_attempts = None, ae_gateway_errors = None,
      ae_user_message = message, ae_created_at = tx\<rparr>"

definition record_ghost :: "instant \<Rightarrow> uuid \<Rightarrow> uuid option \<Rightarrow> uuid \<Rightarrow> affinity_db \<Rightarrow> (affinity \<times> affinity_db) option" where
  "record_ghost tx event message i db = (case find_row i db of
     None \<Rightarrow> None
   | Some s \<Rightarrow>
       (let before = sa_row s; after = ghosted tx before
        in Some (after, log_event (ghost_event tx event message i before after) (put_row (s\<lparr>sa_row := after\<rparr>) db))))"

text \<open>The statement of a turn that answered; it logs nothing.\<close>

definition reset_ghost_streak :: "instant \<Rightarrow> uuid \<Rightarrow> affinity_db \<Rightarrow> affinity_db" where
  "reset_ghost_streak tx sess db = db\<lparr>ad_rows := map (\<lambda>s.
     if session_id (sa_row s) = sess \<and> ghost_streak (sa_row s) \<noteq> 0
     then s\<lparr>sa_row := (sa_row s)\<lparr>ghost_streak := 0, updated_at := tx\<rparr>\<rparr> else s) (ad_rows db)\<rparr>"

section \<open>A life choice\<close>

definition dropped :: "instant \<Rightarrow> affinity_tuning \<Rightarrow> affinity_line list \<Rightarrow> stored_affinity
    \<Rightarrow> affinity \<times> affinity \<times> pending_deltas" where
  "dropped now t lines s =
     (let before = settled now t (sa_row s);
          current = fold (drop_line_tier before) lines before;
          pending = fold clear_line lines (pending_of s)
      in (before, refresh_endpoints now t (current\<lparr>updated_at := now\<rparr>), pending))"

definition choice_event :: "instant \<Rightarrow> uuid \<Rightarrow> rstr \<Rightarrow> rstr \<Rightarrow> uuid \<Rightarrow> affinity \<Rightarrow> affinity \<Rightarrow> affinity_event" where
  "choice_event tx event choice resolution i before current =
     \<lparr>ae_id = event, ae_affinity = i, ae_type = str ''life_choice'', ae_deltas = Some (effective_between before current),
      ae_effective = effective_between before current, ae_labels = diff_labels before current,
      ae_line = line_between before current,
      ae_context = JObj [(str ''life_choice'', JStr resolution), (str ''choice_id'', JStr choice)],
      ae_before = snapshot_of before, ae_after = snapshot_of current, ae_generation = None, ae_llm_attempts = None,
      ae_gateway_errors = None, ae_user_message = None, ae_created_at = tx\<rparr>"

definition persist_life_choice_drop :: "(uuid \<Rightarrow> rstr) \<Rightarrow> (instant \<Rightarrow> int) \<Rightarrow> instant \<Rightarrow> instant \<Rightarrow> affinity_tuning \<Rightarrow> uuid
    \<Rightarrow> uuid \<Rightarrow> uuid \<Rightarrow> rstr \<Rightarrow> affinity_line list \<Rightarrow> affinity_db \<Rightarrow> (affinity \<times> affinity_db) option" where
  "persist_life_choice_drop show date now tx t event sess choice resolution lines db =
     (case stored_of_session sess db of
        None \<Rightarrow> None
      | Some s \<Rightarrow>
          (let (before, current, pending) = dropped now t lines s;
               current = current\<lparr>updated_at := tx\<rparr>;
               e = choice_event tx event (show choice) resolution (row_id s) before current;
               db = log_event e (put_row (projected current pending) db)
           in Some (current, db\<lparr>ad_journal := record_label_moves tx before current event (date now) (ad_journal db)\<rparr>)))"

section \<open>The feeling clause\<close>

definition set_feeling_clause :: "uuid \<Rightarrow> rstr \<Rightarrow> instant \<Rightarrow> affinity_db \<Rightarrow> affinity_db" where
  "set_feeling_clause sess clause as_of db = db\<lparr>ad_rows := map (\<lambda>s.
     if session_id (sa_row s) = sess
        \<and> (case feeling_clause_at (sa_row s) of None \<Rightarrow> True | Some t \<Rightarrow> t \<le> as_of)
     then s\<lparr>sa_row := (sa_row s)\<lparr>feeling_clause := Some clause, feeling_clause_at := Some as_of\<rparr>\<rparr> else s) (ad_rows db)\<rparr>"

end
