(* ===== verification/Affinity_Store_Laws.thy ===== *)
theory Affinity_Store_Laws
  imports Affinity_Store
begin

text \<open>
  The log accounts for the row. Over every sequence of the operations, an entry starts where the one
  before it ended but for the absence between them, and the row is where the last one ended. The one
  change of the row that is not logged, the reset of a ghost streak, moves its clock.
\<close>

section \<open>Entries\<close>

text \<open>What a snapshot says of the relationship itself: everything but the streak and the clock.\<close>

definition core :: "affinity_snapshot \<Rightarrow> affinity_snapshot" where
  "core s = s\<lparr>sn_ghost_streak := 0, sn_updated_at := 0\<rparr>"

definition faded :: "affinity_snapshot \<Rightarrow> affinity_snapshot \<Rightarrow> bool" where
  "faded s s' \<longleftrightarrow> sn_trust s' = sn_trust s \<and> sn_intimacy s' = sn_intimacy s \<and> sn_intrigue s' \<le> sn_intrigue s
     \<and> sn_tension s' \<le> sn_tension s \<and> sn_warmth_grade s' = sn_warmth_grade s
     \<and> sn_patience_grade s' = sn_patience_grade s \<and> sn_total_ghosts s' = sn_total_ghosts s"

definition silence :: "affinity_event \<Rightarrow> bool" where
  "silence e \<longleftrightarrow> ae_type e = str ''ghost''"

definition continues :: "affinity_snapshot \<Rightarrow> affinity_event \<Rightarrow> bool" where
  "continues s e \<longleftrightarrow> (if silence e then core (ae_before e) = core s else faded s (ae_before e))"

definition moved :: "(affinity_snapshot \<Rightarrow> f64) \<Rightarrow> affinity_event \<Rightarrow> f64" where
  "moved f e = fsub (f (ae_after e)) (f (ae_before e))"

definition balanced :: "affinity_event \<Rightarrow> bool" where
  "balanced e \<longleftrightarrow> ae_effective e = \<lparr>d_warmth = moved sn_warmth e, d_trust = moved sn_trust e,
       d_intrigue = moved sn_intrigue e, d_intimacy = moved sn_intimacy e, d_patience = moved sn_patience e,
       d_tension = moved sn_tension e\<rparr>
     \<and> ae_line e = (moved sn_bond e, moved sn_chemistry e)
     \<and> (ae_labels e = None) = (sn_bond_tier (ae_after e) = sn_bond_tier (ae_before e)
          \<and> sn_chem_tier (ae_after e) = sn_chem_tier (ae_before e))"

fun log_ok :: "affinity_snapshot \<Rightarrow> affinity_event list \<Rightarrow> bool" where
  "log_ok s [] = True" | "log_ok s (e # es) = (continues s e \<and> balanced e \<and> log_ok (ae_after e) es)"

fun log_end :: "affinity_snapshot \<Rightarrow> affinity_event list \<Rightarrow> affinity_snapshot" where
  "log_end s [] = s" | "log_end s (e # es) = log_end (ae_after e) es"

lemma log_ok_append [simp]:
  "log_ok s (es @ [e]) = (log_ok s es \<and> continues (log_end s es) e \<and> balanced e)"
  "log_end s (es @ [e]) = ae_after e"
  by (induction es arbitrary: s) simp_all

lemma continues_core: "core s = core s' \<Longrightarrow> continues s e = continues s' e"
  by (cases s; cases s') (simp add: continues_def faded_def core_def)

definition FRESH :: affinity_snapshot where
  "FRESH = snapshot_of (sa_row (fresh_row 0 0 0 0 0))"

definition history :: "uuid \<Rightarrow> affinity_db \<Rightarrow> affinity_event list" where
  "history i db = filter (\<lambda>e. ae_affinity e = i) (ad_events db)"

definition columns_ok :: "stored_affinity \<Rightarrow> bool" where
  "columns_ok s \<longleftrightarrow> axes_ok (sa_row s) \<and> warmth_grade (sa_row s) \<in> {1..3} \<and> patience_grade (sa_row s) \<in> {1..3}
     \<and> sa_bond_tier s = bond_tier (sa_row s) \<and> sa_chem_tier s = chem_tier (sa_row s)
     \<and> 0 \<le> ghost_streak (sa_row s) \<and> ghost_streak (sa_row s) \<le> total_ghosts (sa_row s)"

definition entry_ok :: "stored_affinity \<Rightarrow> affinity_event \<Rightarrow> stored_affinity \<Rightarrow> bool" where
  "entry_ok s e s' \<longleftrightarrow> row_id s' = row_id s \<and> session_id (sa_row s') = session_id (sa_row s) \<and> ae_affinity e = row_id s
     \<and> continues (snapshot_of (sa_row s)) e \<and> balanced e \<and> ae_after e = snapshot_of (sa_row s') \<and> columns_ok s'
     \<and> total_ghosts (sa_row s') = total_ghosts (sa_row s) + (if silence e then 1 else 0)"

section \<open>Each operation writes such an entry\<close>

lemma fsub_clamped_le: "unit x \<Longrightarrow> 0 \<le> d \<Longrightarrow> clamp (fsub x d) 0 1 \<le> x"
  using fadd_le [of x "- d"] by (auto simp: unit_def clamp_def fsub_def fadd_def)

lemma fsub_same [simp]: "fsub x x = 0"
  by (simp add: fsub_def)

lemma bond_same: "trust a = trust b \<Longrightarrow> intrigue a = intrigue b \<Longrightarrow> bond_score a = bond_score b"
  and chem_same: "intimacy a = intimacy b \<Longrightarrow> tension a = tension b \<Longrightarrow> chemistry_score a = chemistry_score b"
  by (simp_all add: bond_score_def chemistry_score_def)


lemma decay_fades:
  assumes "axes_ok a"
  shows "faded (snapshot_of a) (snapshot_of (settled now t a))"
proof -
  have "0 \<le> fmul (flit c) d" if "0 \<le> c" "0 \<le> d" for c d
    using that f64.rnd_mono [of 0 c] by (intro fmul_nonneg) (simp_all add: flit_def)
  then show ?thesis using assms
    by (auto simp: faded_def snapshot_of_def settled_def refresh_endpoints_def apply_time_decay_def Let_def axes_ok_def intro!: fsub_clamped_le)
qed

lemma settled_ok:
  "axes_ok a \<Longrightarrow> axes_ok (settled now t a)"
  by (simp add: settled_def axis_simps)

lemma settled_fields [simp]:
  "aff_id (settled now t a) = aff_id a" "session_id (settled now t a) = session_id a"
  "warmth_grade (settled now t a) = warmth_grade a" "patience_grade (settled now t a) = patience_grade a"
  "ghost_streak (settled now t a) = ghost_streak a" "total_ghosts (settled now t a) = total_ghosts a"
  "instance_id (settled now t a) = instance_id a"
  by (simp_all add: settled_def refresh_endpoints_def apply_time_decay_def Let_def)

lemma tiers_of_labels:
  "aff_bond_label a = aff_bond_label b \<longleftrightarrow> bond_tier a = bond_tier b"
  "aff_chemistry_label a = aff_chemistry_label b \<longleftrightarrow> chem_tier a = chem_tier b"
proof -
  have "bond_rank (aff_bond_label a) + 1 = bond_tier a" "chem_rank (aff_chemistry_label a) + 1 = chem_tier a" for a
    using tier_index_range(1) [of "bond_score a"] tier_index_range(1) [of "chemistry_score a"]
    by (simp_all add: aff_bond_label_def aff_chemistry_label_def bond_tier_def chem_tier_def
        bond_rank_from_tier chem_rank_from_tier)
  then show "aff_bond_label a = aff_bond_label b \<longleftrightarrow> bond_tier a = bond_tier b"
    "aff_chemistry_label a = aff_chemistry_label b \<longleftrightarrow> chem_tier a = chem_tier b"
    by (metis aff_bond_label_def, metis aff_chemistry_label_def)
qed

lemma entry_balanced:
  assumes "ae_before e = snapshot_of before" "ae_after e = snapshot_of after" "ae_effective e = effective_between before after"
    "ae_line e = line_between before after" "ae_labels e = diff_labels before after"
  shows "balanced e"
  using assms by (auto simp: balanced_def moved_def snapshot_of_def effective_between_def line_between_def
      diff_labels_def Let_def label_changes_is_empty_def tiers_of_labels)

lemma clock_is_no_axis [simp]:
  "axes_ok (a\<lparr>updated_at := x\<rparr>) = axes_ok a" "bond_tier (a\<lparr>updated_at := x\<rparr>) = bond_tier a"
  "chem_tier (a\<lparr>updated_at := x\<rparr>) = chem_tier a"
  "axes_ok (a\<lparr>ghost_streak := n, updated_at := x\<rparr>) = axes_ok a" "bond_tier (a\<lparr>ghost_streak := n, updated_at := x\<rparr>) = bond_tier a"
  "chem_tier (a\<lparr>ghost_streak := n, updated_at := x\<rparr>) = chem_tier a"
  by (simp_all add: axes_ok_def bond_tier_def chem_tier_def bond_score_def chemistry_score_def)


text \<open>The columns no operation on the axes touches.\<close>

definition identity :: "affinity \<Rightarrow> uuid \<times> uuid \<times> int \<times> int" where
  "identity a = (aff_id a, session_id a, ghost_streak a, total_ghosts a)"

lemma identity_kept [simp]:
  "identity (settled now t a) = identity a" "identity (refresh_endpoints now t a) = identity a"
  "identity (apply_deltas now d a) = identity a" "identity (drop_line_tier b l a) = identity a"
  "identity (read_levels r a) = identity a" "identity (a\<lparr>updated_at := x\<rparr>) = identity a"
  by (simp_all add: identity_def refresh_endpoints_def apply_deltas_def drop_line_tier_def read_levels_def Let_def
      split: affinity_line.split)

definition grades_ok :: "affinity \<Rightarrow> bool" where
  "grades_ok a \<longleftrightarrow> warmth_grade a \<in> {1..3} \<and> patience_grade a \<in> {1..3}"

lemma grades_kept [simp]:
  "grades_ok (settled now t a) = grades_ok a" "grades_ok (refresh_endpoints now t a) = grades_ok a"
  "grades_ok (apply_deltas now d a) = grades_ok a" "grades_ok (drop_line_tier b l a) = grades_ok a"
  "grades_ok (a\<lparr>updated_at := x\<rparr>) = grades_ok a"
  by (simp_all add: grades_ok_def refresh_endpoints_def apply_deltas_def drop_line_tier_def Let_def split: affinity_line.split)

lemma grades_read: "grades_ok a \<Longrightarrow> grades_ok (read_levels r a)"
  by (auto simp: grades_ok_def read_levels_def saturate_def split: option.split)

lemma axes_ok_read [axis_simps]: "axes_ok (read_levels r a) = axes_ok a"
  by (simp add: axes_ok_def read_levels_def)

lemma fold_drop:
  "identity (fold (drop_line_tier b) lines a) = identity a" "grades_ok (fold (drop_line_tier b) lines a) = grades_ok a"
  "axes_ok a \<Longrightarrow> axes_ok (fold (drop_line_tier b) lines a)"
  by (induction lines arbitrary: a) (simp_all add: axis_simps)

lemma columns_identity:
  "columns_ok s = (axes_ok (sa_row s) \<and> grades_ok (sa_row s) \<and> sa_bond_tier s = bond_tier (sa_row s)
     \<and> sa_chem_tier s = chem_tier (sa_row s) \<and> 0 \<le> ghost_streak (sa_row s) \<and> ghost_streak (sa_row s) \<le> total_ghosts (sa_row s))"
  by (auto simp: columns_ok_def grades_ok_def)

lemma judged_facts:
  assumes "judged now t p s = (before, outcome, current, pending)" "columns_ok s"
  shows "before = settled now t (sa_row s)" "axes_ok current" "grades_ok current" "identity current = identity (sa_row s)"
  using assms by (auto simp: judged_def Let_def columns_identity axis_simps grades_read split: option.splits)

lemma dropped_facts:
  assumes "dropped now t lines s = (before, current, pending)" "columns_ok s"
  shows "before = settled now t (sa_row s)" "axes_ok current" "grades_ok current" "identity current = identity (sa_row s)"
  using assms by (auto simp: dropped_def Let_def columns_identity axis_simps fold_drop settled_ok)

lemma logged_entry:
  assumes col: "columns_ok s" and b: "before = settled now t (sa_row s)"
    and f: "axes_ok current" "grades_ok current" "identity current = identity (sa_row s)" and after: "after = current\<lparr>updated_at := tx\<rparr>"
    and e: "ae_before e = snapshot_of before" "ae_after e = snapshot_of after" "ae_effective e = effective_between before after"
      "ae_line e = line_between before after" "ae_labels e = diff_labels before after" "ae_affinity e = row_id s" "\<not> silence e"
  shows "entry_ok s e (projected after pending)"
proof -
  have "balanced e" by (rule entry_balanced [OF e(1-5)])
  moreover have "continues (snapshot_of (sa_row s)) e"
    using col decay_fades e(7) by (simp add: continues_def e(1) b columns_ok_def)
  ultimately show ?thesis using col f e(2,6,7)
    by (simp add: entry_ok_def projected_def columns_identity row_id_def after identity_def)
qed

section \<open>The tables\<close>

definition row_ok :: "affinity_db \<Rightarrow> stored_affinity \<Rightarrow> bool" where
  "row_ok db s \<longleftrightarrow> columns_ok s \<and> log_ok FRESH (history (row_id s) db)
     \<and> core (log_end FRESH (history (row_id s) db)) = core (snapshot_of (sa_row s))
     \<and> total_ghosts (sa_row s) = int (length (filter silence (history (row_id s) db)))"

definition db_ok :: "affinity_db \<Rightarrow> bool" where
  "db_ok db \<longleftrightarrow> distinct (map row_id (ad_rows db)) \<and> distinct (map (session_id \<circ> sa_row) (ad_rows db))
     \<and> (\<forall>s\<in>set (ad_rows db). row_ok db s) \<and> ae_affinity ` set (ad_events db) \<subseteq> row_id ` set (ad_rows db)"

lemma find_row_some: "find_row i db = Some s \<Longrightarrow> s \<in> set (ad_rows db) \<and> row_id s = i"
  unfolding find_row_def by (rule find_SomeD)

lemma stored_of_session_some: "stored_of_session i db = Some s \<Longrightarrow> s \<in> set (ad_rows db) \<and> session_id (sa_row s) = i"
  unfolding stored_of_session_def by (rule find_SomeD)

lemma history_log [simp]:
  "history i (log_event e db) = history i db @ (if ae_affinity e = i then [e] else [])"
  "history i (put_row s db) = history i db" "history i (db\<lparr>ad_journal := j\<rparr>) = history i db"
  by (simp_all add: history_def log_event_def put_row_def)

lemma row_ok_entry:
  assumes "row_ok db s" "entry_ok s e s'"
  shows "row_ok (log_event e (put_row s' db)) s'"
proof -
  have "continues (log_end FRESH (history (row_id s) db)) e"
    using assms continues_core unfolding row_ok_def entry_ok_def by blast
  then show ?thesis using assms by (auto simp: row_ok_def entry_ok_def)
qed

lemma db_ok_entry:
  assumes ok: "db_ok db" and s: "s \<in> set (ad_rows db)" and e: "entry_ok s e s'"
  shows "db_ok ((log_event e (put_row s' db))\<lparr>ad_journal := j\<rparr>)"
proof -
  let ?db = "(log_event e (put_row s' db))\<lparr>ad_journal := j\<rparr>"
  have row: "row_ok (db\<lparr>ad_journal := j'\<rparr>) r = row_ok db r" for db r j' by (simp add: row_ok_def)
  have i: "row_id s' = row_id s" "session_id (sa_row s') = session_id (sa_row s)" "ae_affinity e = row_id s"
    using e by (simp_all add: entry_ok_def)
  have rows: "ad_rows ?db = map (\<lambda>r. if row_id r = row_id s then s' else r) (ad_rows db)"
    by (simp add: log_event_def put_row_def i)
  have d: "distinct (map row_id (ad_rows db))" "distinct (map (session_id \<circ> sa_row) (ad_rows db))"
    using ok by (simp_all add: db_ok_def)
  have same: "r = s" if "r \<in> set (ad_rows db)" "row_id r = row_id s" for r
    using d(1) s that by (auto simp: distinct_map inj_on_def)
  have "map row_id (ad_rows ?db) = map row_id (ad_rows db)"
    "map (session_id \<circ> sa_row) (ad_rows ?db) = map (session_id \<circ> sa_row) (ad_rows db)"
    unfolding rows using same i by auto
  moreover have "row_ok ?db r" if r: "r \<in> set (ad_rows ?db)" for r
  proof (cases "r = s'")
    case True
    then show ?thesis using ok s e row_ok_entry by (auto simp: row db_ok_def)
  next
    case False
    then have "r \<in> set (ad_rows db)" "row_id r \<noteq> row_id s" using r unfolding rows by (auto split: if_splits)
    then show ?thesis using ok i(3) by (auto simp: row db_ok_def row_ok_def)
  qed
  moreover have "ae_affinity ` set (ad_events ?db) \<subseteq> row_id ` set (ad_rows ?db)"
  proof -
    have "ae_affinity ` set (ad_events ?db) = insert (row_id s) (ae_affinity ` set (ad_events db))"
      by (simp add: log_event_def put_row_def i)
    moreover have "row_id ` set (ad_rows ?db) = row_id ` set (ad_rows db)"
      using \<open>map row_id (ad_rows ?db) = map row_id (ad_rows db)\<close> by (metis list.set_map)
    ultimately show ?thesis using ok s by (auto simp: db_ok_def)
  qed
  ultimately show ?thesis using d by (simp add: db_ok_def)
qed

lemma turn_entry:
  assumes "persist_with_event now tx t event p i db = Some (a, db')" "db_ok db" "pa_event_type p \<noteq> str ''ghost''"
  obtains s e s' j where "s \<in> set (ad_rows db)" "entry_ok s e s'" "db' = (log_event e (put_row s' db))\<lparr>ad_journal := j\<rparr>"
proof -
  obtain s where s: "find_row i db = Some s" using assms(1) by (auto simp: persist_with_event_def split: option.splits)
  note m = find_row_some [OF s]
  then have col: "columns_ok s" using assms(2) by (auto simp: db_ok_def row_ok_def)
  obtain before outcome current pending where g: "judged now t p s = (before, outcome, current, pending)"
    by (cases "judged now t p s") auto
  note f = judged_facts [OF g col]
  let ?c = "current\<lparr>updated_at := tx\<rparr>"
  define e where "e = turn_event tx event p i (audit_context (endpoint_time_decay (days_since now (updated_at (sa_row s)))
    (time_decay_rate t) (time_decay_floor t)) t p outcome ?c pending) before outcome ?c"
  have db': "db' = (log_event e (put_row (projected ?c pending) db))
        \<lparr>ad_journal := record_label_moves tx before ?c event (pa_on p) (ad_journal db)\<rparr>"
    using assms(1) s g by (auto simp: persist_with_event_def Let_def e_def log_event_def put_row_def)
  have e: "ae_before e = snapshot_of before" "ae_after e = snapshot_of ?c" "ae_effective e = effective_between before ?c"
      "ae_line e = line_between before ?c" "ae_labels e = diff_labels before ?c" "ae_affinity e = i" "ae_type e = pa_event_type p"
    by (simp_all add: e_def turn_event_def)
  have "entry_ok s e (projected ?c pending)"
    using e(6,7) m assms(3) by (intro logged_entry [OF col f refl e(1-5)]) (simp_all add: silence_def)
  from that [OF _ this db'] m show thesis by blast
qed

lemma drop_entry:
  assumes "persist_life_choice_drop show date now tx t event sess choice resolution lines db = Some (a, db')" "db_ok db"
  obtains s e s' j where "s \<in> set (ad_rows db)" "entry_ok s e s'" "db' = (log_event e (put_row s' db))\<lparr>ad_journal := j\<rparr>"
proof -
  obtain s where s: "stored_of_session sess db = Some s"
    using assms(1) by (auto simp: persist_life_choice_drop_def split: option.splits)
  note m = stored_of_session_some [OF s]
  then have col: "columns_ok s" using assms(2) by (auto simp: db_ok_def row_ok_def)
  obtain before current pending where g: "dropped now t lines s = (before, current, pending)"
    by (cases "dropped now t lines s") auto
  note f = dropped_facts [OF g col]
  let ?c = "current\<lparr>updated_at := tx\<rparr>"
  define e where "e = choice_event tx event (show choice) resolution (row_id s) before ?c"
  have db': "db' = (log_event e (put_row (projected ?c pending) db))
        \<lparr>ad_journal := record_label_moves tx before ?c event (date now) (ad_journal db)\<rparr>"
    using assms(1) s g by (auto simp: persist_life_choice_drop_def Let_def e_def log_event_def put_row_def)
  have e: "ae_before e = snapshot_of before" "ae_after e = snapshot_of ?c" "ae_effective e = effective_between before ?c"
      "ae_line e = line_between before ?c" "ae_labels e = diff_labels before ?c" "ae_affinity e = row_id s"
      "ae_type e = str ''life_choice''"
    by (simp_all add: e_def choice_event_def)
  have "entry_ok s e (projected ?c pending)"
    using e(6,7) by (intro logged_entry [OF col f refl e(1-5)]) (simp_all add: silence_def)
  from that [OF _ this db'] m show thesis by blast
qed

lemma ghost_entry:
  assumes "record_ghost tx event message i db = Some (a, db')" "db_ok db"
  obtains s e s' where "s \<in> set (ad_rows db)" "entry_ok s e s'" "db' = log_event e (put_row s' db)"
proof -
  obtain s where s: "find_row i db = Some s" using assms(1) by (auto simp: record_ghost_def split: option.splits)
  note m = find_row_some [OF s]
  then have col: "columns_ok s" using assms(2) by (auto simp: db_ok_def row_ok_def)
  let ?s = "s\<lparr>sa_row := ghosted tx (sa_row s)\<rparr>"
  define e where "e = ghost_event tx event message i (sa_row s) (ghosted tx (sa_row s))"
  have db': "db' = log_event e (put_row ?s db)"
    using assms(1) s by (auto simp: record_ghost_def Let_def e_def)
  have e: "ae_before e = snapshot_of (sa_row s)" "ae_after e = snapshot_of (ghosted tx (sa_row s))" "ae_effective e = zero_deltas"
      "ae_line e = (0, 0)" "ae_labels e = None" "ae_affinity e = i" "ae_type e = str ''ghost''"
    by (simp_all add: e_def ghost_event_def)
  have same: "bond_score (ghosted tx a) = bond_score a" "chemistry_score (ghosted tx a) = chemistry_score a"
    "axes_ok (ghosted tx a) = axes_ok a" for a
    by (simp_all add: ghosted_def bond_score_def chemistry_score_def axes_ok_def)
  have "balanced e"
    using same by (simp add: balanced_def e moved_def snapshot_of_def ghosted_def zero_deltas_def bond_tier_def chem_tier_def)
  moreover have "continues (snapshot_of (sa_row s)) e" by (simp add: continues_def silence_def e)
  ultimately have "entry_ok s e ?s"
    using col m e(2,6,7) same
    by (simp add: entry_ok_def columns_ok_def row_id_def silence_def bond_tier_def chem_tier_def) (simp add: ghosted_def)
  from that [OF _ this db'] m show thesis by blast
qed

section \<open>Every sequence of operations\<close>

lemma accounts_ok_rows:
  assumes ok: "db_ok db" and ids: "\<And>s. row_id (f s) = row_id s" "\<And>s. session_id (sa_row (f s)) = session_id (sa_row s)"
    and kept: "\<And>s. core (snapshot_of (sa_row (f s))) = core (snapshot_of (sa_row s))"
      "\<And>s. total_ghosts (sa_row (f s)) = total_ghosts (sa_row s)" "\<And>s. columns_ok s \<Longrightarrow> columns_ok (f s)"
  shows "db_ok (db\<lparr>ad_rows := map f (ad_rows db)\<rparr>)"
proof -
  have "map row_id (map f (ad_rows db)) = map row_id (ad_rows db)"
    "map (session_id \<circ> sa_row) (map f (ad_rows db)) = map (session_id \<circ> sa_row) (ad_rows db)"
    using ids by simp_all
  moreover have "row_id ` set (map f (ad_rows db)) = row_id ` set (ad_rows db)"
    using ids(1) by (simp add: image_image)
  moreover have "history i (db\<lparr>ad_rows := rs\<rparr>) = history i db" for i rs by (simp add: history_def)
  ultimately show ?thesis using ok ids kept unfolding db_ok_def row_ok_def by (simp del: map_map)
qed

inductive store_step :: "affinity_db \<Rightarrow> affinity_db \<Rightarrow> bool" where
  step_load: "i \<notin> row_id ` set (ad_rows db) \<Longrightarrow> store_step db (snd (load_or_create_on i tx sess user inst db))"
| step_turn: "pa_event_type p \<noteq> str ''ghost'' \<Longrightarrow> persist_with_event now tx t event p i db = Some (a, db')
    \<Longrightarrow> store_step db db'"
| step_ghost: "record_ghost tx event message i db = Some (a, db') \<Longrightarrow> store_step db db'"
| step_choice: "persist_life_choice_drop show date now tx t event sess choice resolution lines db = Some (a, db')
    \<Longrightarrow> store_step db db'"
| step_reset: "store_step db (reset_ghost_streak tx sess db)"
| step_feeling: "store_step db (set_feeling_clause sess clause as_of db)"

definition store_init :: "affinity_db \<Rightarrow> bool" where
  "store_init db \<longleftrightarrow> ad_rows db = [] \<and> ad_events db = [] \<and> ad_journal db = []"

lemma fresh_ok: "columns_ok (fresh_row i sess user inst tx)"
  "core (snapshot_of (sa_row (fresh_row i sess user inst tx))) = core FRESH"
proof -
  have "tier_index 0 = 1" using cut_bounds by (simp add: tier_index_def)
  moreover have "bond_score (sa_row (fresh_row i sess user inst tx)) = 0" "chemistry_score (sa_row (fresh_row i sess user inst tx)) = 0"
    for i sess user inst tx
    by (simp_all add: fresh_row_def bond_score_def chemistry_score_def clamp_def fadd_def fdiv_def)
  moreover have "unit FRESH_ENDPOINT"
    using f64.rnd_mono [of 0 "2435897435897435897408974358974358974359 / 10 ^ 40"]
      f64.rnd_mono [of "2435897435897435897408974358974358974359 / 10 ^ 40" 1]
    by (simp add: unit_def FRESH_ENDPOINT_def flit_def f64.rnd_1 is_f64_def rnd64_idem)
  ultimately show "columns_ok (fresh_row i sess user inst tx)"
    "core (snapshot_of (sa_row (fresh_row i sess user inst tx))) = core FRESH"
    by (simp_all add: columns_ok_def axes_ok_def bond_tier_def chem_tier_def core_def FRESH_def snapshot_of_def)
      (simp_all add: fresh_row_def)
qed

lemma db_ok_load:
  assumes ok: "db_ok db" and new: "i \<notin> row_id ` set (ad_rows db)"
  shows "db_ok (snd (load_or_create_on i tx sess user inst db))"
proof (cases "load_on sess db")
  case None
  let ?s = "fresh_row i sess user inst tx"
  have i: "row_id ?s = i" "session_id (sa_row ?s) = sess" "total_ghosts (sa_row ?s) = 0" by (simp_all add: fresh_row_def row_id_def)
  have "sess \<notin> session_id ` sa_row ` set (ad_rows db)"
    using None by (auto simp: load_on_def stored_of_session_def find_None_iff)
  moreover have "history i db = []" using ok new by (auto simp: db_ok_def history_def filter_empty_conv)
  moreover have "history j (db\<lparr>ad_rows := rs\<rparr>) = history j db" for j rs by (simp add: history_def)
  ultimately show ?thesis using None ok new fresh_ok [of i sess user inst tx] i
    by (auto simp: load_or_create_on_def Let_def db_ok_def row_ok_def image_image)
next
  case (Some a)
  then show ?thesis using ok by (simp add: load_or_create_on_def)
qed

interpretation relationships: guarded_system store_init store_step db_ok
proof
  show "store_init s \<Longrightarrow> db_ok s" for s by (simp add: store_init_def db_ok_def)
  show "db_ok b" if "store_step a b" "db_ok a" for a b
    using that
  proof (induction rule: store_step.induct)
    case (step_turn p now tx t event i db a db')
    from turn_entry [OF step_turn(2,3,1)] db_ok_entry [OF step_turn(3)] show ?case by metis
  next
    case (step_ghost tx event message i db a db')
    obtain s e s' where g: "s \<in> set (ad_rows db)" "entry_ok s e s'" "db' = log_event e (put_row s' db)"
      by (rule ghost_entry [OF step_ghost])
    from db_ok_entry [OF step_ghost(2) g(1,2), of "ad_journal (log_event e (put_row s' db))"] show ?case by (simp add: g(3))
  next
    case (step_choice sh date now tx t event sess choice resolution lines db a db')
    from drop_entry [OF step_choice] db_ok_entry [OF step_choice(2)] show ?case by metis
  next
    case (step_reset db tx sess)
    then show ?case unfolding reset_ghost_streak_def
      by (rule accounts_ok_rows) (auto simp: row_id_def core_def snapshot_of_def columns_ok_def bond_score_def chemistry_score_def
          bond_tier_def chem_tier_def axes_ok_def)
  next
    case (step_feeling db sess clause as_of)
    then show ?case unfolding set_feeling_clause_def
      by (rule accounts_ok_rows) (auto simp: row_id_def core_def snapshot_of_def columns_ok_def bond_score_def chemistry_score_def
          bond_tier_def chem_tier_def axes_ok_def)
  qed (rule db_ok_load)
qed

text \<open>C5: The log accounts for the row. After any sequence of loads, graded turns, silences, life choices,
  streak resets and feeling clauses, each entry of a relationship starts where the one before it ended
  but for what absence takes (a silence, which takes nothing, exactly there), reports its own difference axis by
  axis, and names a label change exactly when a tier changed; the row is where the last entry ended, its
  tier columns are the tiers of its scores, and its ghosts are the silences logged.\<close>

theorem affinity_log_accounts:
  assumes "reach store_init store_step db" "s \<in> set (ad_rows db)"
  shows "log_ok FRESH (history (row_id s) db)
    \<and> core (log_end FRESH (history (row_id s) db)) = core (snapshot_of (sa_row s))
    \<and> columns_ok s \<and> total_ghosts (sa_row s) = int (length (filter silence (history (row_id s) db)))"
  using relationships.inv_reach [OF assms(1)] assms(2) unfolding db_ok_def row_ok_def by blast

definition one_silence :: affinity_db where
  "one_silence = \<lparr>ad_rows = [(fresh_row 1 2 3 4 5)\<lparr>sa_row := ghosted 9 (sa_row (fresh_row 1 2 3 4 5))\<rparr>],
     ad_events = [ghost_event 9 7 None 1 (sa_row (fresh_row 1 2 3 4 5)) (ghosted 9 (sa_row (fresh_row 1 2 3 4 5)))],
     ad_journal = []\<rparr>"

lemma one_silence_reached: "reach store_init store_step one_silence"
proof -
  let ?empty = "\<lparr>ad_rows = [], ad_events = [], ad_journal = []\<rparr>" and ?s = "fresh_row 1 2 3 4 5"
  let ?db = "?empty\<lparr>ad_rows := [?s]\<rparr>"
  have "reach store_init store_step ?empty" by (rule reach_init) (simp add: store_init_def)
  moreover have "snd (load_or_create_on 1 5 2 3 4 ?empty) = ?db"
    by (simp add: load_or_create_on_def load_on_def stored_of_session_def Let_def)
  then have "store_step ?empty ?db" using step_load [of 1 ?empty 5 2 3 4] by simp
  moreover have "record_ghost 9 7 None 1 ?db = Some (ghosted 9 (sa_row ?s), one_silence)"
    by (simp add: record_ghost_def find_row_def row_id_def fresh_row_def Let_def log_event_def put_row_def one_silence_def ghosted_def)
  then have "store_step ?db one_silence" by (rule step_ghost)
  ultimately show ?thesis by (blast intro: reach_step)
qed

theorem affinity_log_accounts_witness:
  "length (filter silence (history 1 one_silence)) = 1"
proof -
  let ?s = "(fresh_row 1 2 3 4 5)\<lparr>sa_row := ghosted 9 (sa_row (fresh_row 1 2 3 4 5))\<rparr>"
  have "?s \<in> set (ad_rows one_silence)" by (simp add: one_silence_def)
  moreover have "row_id ?s = 1" "total_ghosts (sa_row ?s) = 1" by (simp_all add: row_id_def fresh_row_def ghosted_def)
  ultimately show ?thesis using affinity_log_accounts [OF one_silence_reached, of ?s] by simp
qed

section \<open>The unlogged reset\<close>

text \<open>C35: A turn that answers after a silence first resets the streak, which also moves the row's clock to the
  present; graded after that, the turn starts from the stored intrigue and tension as they are: the absence since
  the silence takes nothing. Where there is no streak it takes its share.\<close>

theorem streak_reset_forgives_absence:
  "case find_row i db of
     None \<Rightarrow> persist_with_event now tx t event p i (reset_ghost_streak now sess db) = None
   | Some s \<Rightarrow>
       (case persist_with_event now tx t event p i (reset_ghost_streak now (session_id (sa_row s)) db) of
          None \<Rightarrow> False
        | Some (a, db') \<Rightarrow>
            (let before = ae_before (last (ad_events db')); row = sa_row s
             in (sn_intrigue before, sn_tension before) =
                  (if ghost_streak row = 0 then (intrigue (apply_time_decay now row), tension (apply_time_decay now row))
                   else (intrigue row, tension row))))"
proof -
  let ?f = "\<lambda>x s. if session_id (sa_row s) = x \<and> ghost_streak (sa_row s) \<noteq> 0
     then s\<lparr>sa_row := (sa_row s)\<lparr>ghost_streak := 0, updated_at := now\<rparr>\<rparr> else s"
  have "List.find (\<lambda>s. row_id s = i) (map (?f x) ss) = map_option (?f x) (List.find (\<lambda>s. row_id s = i) ss)" for x ss
    by (induction ss) (simp_all add: row_id_def)
  then have find: "find_row i (reset_ghost_streak now x db) = map_option (?f x) (find_row i db)" for x
    by (simp add: find_row_def reset_ghost_streak_def)
  have still: "apply_time_decay now (a\<lparr>ghost_streak := 0, updated_at := now\<rparr>) = a\<lparr>ghost_streak := 0, updated_at := now\<rparr>" for a
    by (simp add: apply_time_decay_def days_since_def num_minutes_def Let_def fdiv_def f64_of_int_def)
  have refreshed: "intrigue (refresh_endpoints now t a) = intrigue a" "tension (refresh_endpoints now t a) = tension a" for a
    by (simp_all add: refresh_endpoints_def Let_def)
  have before: "ae_before (last (ad_events (snd x))) = snapshot_of (settled now t (sa_row s))"
    if "persist_with_event now tx t event p i d = Some x" "find_row i d = Some s" for d x s
    using that by (auto simp: persist_with_event_def Let_def log_event_def put_row_def turn_event_def judged_def split: option.splits prod.splits)
  have some: "\<exists>x. persist_with_event now tx t event p i d = Some x" if "find_row i d = Some s" for d s
    using that by (simp add: persist_with_event_def Let_def split: prod.split)
  show ?thesis
  proof (cases "find_row i db")
    case None
    then show ?thesis by (simp add: persist_with_event_def find)
  next
    case (Some s)
    let ?d = "reset_ghost_streak now (session_id (sa_row s)) db" and ?s = "?f (session_id (sa_row s)) s"
    have f: "find_row i ?d = Some ?s" by (simp add: find Some)
    obtain a db' where x: "persist_with_event now tx t event p i ?d = Some (a, db')" using some [OF f] by fastforce
    have "ae_before (last (ad_events db')) = snapshot_of (settled now t (sa_row ?s))" using before [OF x f] by simp
    then show ?thesis using Some x
      by (simp add: snapshot_of_def settled_def refreshed still)
  qed
qed

end
