(* ===== verification/Journal_Moments.thy ===== *)
theory Journal_Moments
  imports Affinity_Store_Laws
begin

text \<open>
  The moments the engine itself writes into a relationship's journal
  (\<open>crates/eros-engine-store/src/journal.rs\<close>): the first chat, an accepted action, and the labels a
  relationship reaches or falls below. An action is stored as the JSON its derived encoder writes
  (\<open>UserAction\<close> of \<open>core/src/types.rs\<close>) with the decided response added; an enum is read from its name (the
  other encodings \<open>serde\<close> takes for one are not written by anything here).
\<close>

section \<open>A stored action\<close>

definition given_item_as_str :: "given_item \<Rightarrow> rstr" where
  "given_item_as_str i = str (case i of Cigarette \<Rightarrow> ''cigarette'' | Alcohol \<Rightarrow> ''alcohol'' | Medicine \<Rightarrow> ''medicine''
     | Food \<Rightarrow> ''food'' | SoftDrink \<Rightarrow> ''soft_drink'' | Tea \<Rightarrow> ''tea'' | Coffee \<Rightarrow> ''coffee'' | Herb \<Rightarrow> ''herb''
     | Watch \<Rightarrow> ''watch'' | Gem \<Rightarrow> ''gem'' | Gold \<Rightarrow> ''gold'' | Camera \<Rightarrow> ''camera'' | Cash \<Rightarrow> ''cash''
     | Antique \<Rightarrow> ''antique'' | Artwork \<Rightarrow> ''artwork'' | Handmade \<Rightarrow> ''handmade'' | CreditCard \<Rightarrow> ''credit_card''
     | Flower \<Rightarrow> ''flower'')"

definition all_given_items :: "given_item list" where
  "all_given_items = [Cigarette, Alcohol, Medicine, Food, SoftDrink, Tea, Coffee, Herb, Watch, Gem, Gold, Camera, Cash,
     Antique, Artwork, Handmade, CreditCard, Flower]"

definition given_item_parse :: "rstr \<Rightarrow> given_item option" where
  "given_item_parse s = List.find (\<lambda>i. given_item_as_str i = s) all_given_items"

definition user_action_type :: "user_action \<Rightarrow> rstr" where
  "user_action_type a = str (case a of Give _ _ _ \<Rightarrow> ''give'' | Kiss \<Rightarrow> ''kiss'' | Hug \<Rightarrow> ''hug'' | Touch \<Rightarrow> ''touch''
     | Lick \<Rightarrow> ''lick'' | FrenchKiss \<Rightarrow> ''french_kiss'' | HugFromBehind \<Rightarrow> ''hug_from_behind'' | Tease \<Rightarrow> ''tease''
     | Custom _ \<Rightarrow> ''custom'' | Tip _ \<Rightarrow> ''tip'' | Gift _ _ \<Rightarrow> ''gift'')"

definition user_action_fields :: "user_action \<Rightarrow> (rstr \<times> json) list" where
  "user_action_fields a = (str ''type'', JStr (user_action_type a)) # (case a of
     Give item name n \<Rightarrow> (str ''item'', JStr (given_item_as_str item))
       # (case name of Some x \<Rightarrow> [(str ''name'', JStr x)] | None \<Rightarrow> []) @ [(str ''quantity'', JNum (f64_of_int (int n)))]
   | Custom text \<Rightarrow> [(str ''text'', JStr text)]
   | Tip usd \<Rightarrow> [(str ''amount_usd'', JNum usd)]
   | Gift kind name \<Rightarrow> [(str ''kind'', JStr (item_kind_as_str kind)), (str ''name'', JStr name)]
   | _ \<Rightarrow> [])"

definition u8_field :: "json option \<Rightarrow> nat option" where
  "u8_field v = (case v of Some (JNum x) \<Rightarrow> List.find (\<lambda>n. f64_of_int (int n) = x) [0..<256] | _ \<Rightarrow> None)"

definition num_field :: "json option \<Rightarrow> f64 option" where
  "num_field v = (case v of Some (JNum x) \<Rightarrow> Some x | _ \<Rightarrow> None)"

definition user_action_of :: "(rstr \<times> json) list \<Rightarrow> user_action option" where
  "user_action_of m =
     (let field = map_of m; text = (\<lambda>k. string_field (field k))
      in Option.bind (text (str ''type'')) (\<lambda>t.
        if t = str ''give'' then
          Option.bind (Option.bind (text (str ''item'')) given_item_parse) (\<lambda>item.
            Option.bind (opt_string_field (field (str ''name''))) (\<lambda>name.
              map_option (Give item name) (u8_field (field (str ''quantity'')))))
        else if t = str ''custom'' then map_option Custom (text (str ''text''))
        else if t = str ''tip'' then map_option Tip (num_field (field (str ''amount_usd'')))
        else if t = str ''gift'' then
          Option.bind (Option.bind (text (str ''kind'')) item_kind_parse) (\<lambda>kind. map_option (Gift kind) (text (str ''name'')))
        else List.find (\<lambda>a. user_action_type a = t) [Kiss, Hug, Touch, Lick, FrenchKiss, HugFromBehind, Tease]))"

section \<open>Mechanism rows\<close>

definition first_meet :: "uuid \<Rightarrow> int \<Rightarrow> journal_insert" where
  "first_meet inst on = engine_row inst on (str ''first_meet'') [20320, 20204, 31532, 19968, 27425, 32842, 22825]
     (str ''first_meet'') (str ''monthly_then_yearly'')"

definition gift_moment :: "(uuid \<Rightarrow> rstr) \<Rightarrow> uuid \<Rightarrow> uuid \<Rightarrow> int \<Rightarrow> rstr option \<Rightarrow> bool \<Rightarrow> journal_insert" where
  "gift_moment show inst msg on item is_tip =
     (engine_row inst on (str ''gift'')
        (if is_tip then [29992, 25143, 32473, 20102, 20320, 25171, 36175]
         else (case item of Some name \<Rightarrow> [29992, 25143, 36865, 20102, 20320] @ name
             | None \<Rightarrow> [29992, 25143, 36865, 20102, 20320, 19968, 20221, 31036, 29289]))
        (str ''gift:'' @ show msg) (str ''none''))\<lparr>ji_message := Some msg\<rparr>"

definition first_kiss :: "uuid \<Rightarrow> uuid \<Rightarrow> int \<Rightarrow> journal_insert" where
  "first_kiss inst msg on =
     (engine_row inst on (str ''first_intimacy'')
        [29992, 25143, 20146, 20102, 20320, 65292, 20320, 25509, 21463, 20102] (str ''first_intimacy:real'') (str ''none''))
     \<lparr>ji_message := Some msg\<rparr>"

definition named :: "rstr option \<Rightarrow> rstr option" where
  "named name = (case name of Some n \<Rightarrow> if n = [] then None else Some n | None \<Rightarrow> None)"

definition accepted_moment :: "(uuid \<Rightarrow> rstr) \<Rightarrow> json \<Rightarrow> uuid \<Rightarrow> uuid \<Rightarrow> int \<Rightarrow> journal_insert option" where
  "accepted_moment show action inst msg on = (case action of
     JObj m \<Rightarrow> (case user_action_of (obj_remove (str ''response'') m) of
         Some (Give _ name _) \<Rightarrow> Some (gift_moment show inst msg on (named name) False)
       | Some (Gift _ name) \<Rightarrow> Some (gift_moment show inst msg on (named (Some name)) False)
       | Some (Tip _) \<Rightarrow> Some (gift_moment show inst msg on None True)
       | Some Kiss \<Rightarrow> Some (first_kiss inst msg on)
       | Some FrenchKiss \<Rightarrow> Some (first_kiss inst msg on)
       | _ \<Rightarrow> None)
   | _ \<Rightarrow> None)"

section \<open>An action reads back\<close>

interpretation given_item: codec given_item_as_str given_item_parse
proof
  show "given_item_parse (given_item_as_str x) = Some x" for x
    by (cases x; simp add: given_item_parse_def all_given_items_def given_item_as_str_def)
  show "given_item_parse s = Some x \<Longrightarrow> given_item_as_str x = s" for s x
    by (auto simp: given_item_parse_def find_Some_iff)
qed

lemma u8_roundtrip:
  assumes "n < 256"
  shows "u8_field (Some (JNum (f64_of_int (int n)))) = Some n"
proof -
  have "List.find (\<lambda>k. f64_of_int (int k) = f64_of_int (int n)) [0..<256] = Some n"
    unfolding find_Some_iff using assms by (intro exI [of _ n]) auto
  then show ?thesis by (simp add: u8_field_def)
qed

text \<open>The quantity is a byte.\<close>

definition action_ok :: "user_action \<Rightarrow> bool" where
  "action_ok a = (case a of Give _ _ n \<Rightarrow> n < 256 | _ \<Rightarrow> True)"

lemma user_action_roundtrip:
  assumes "action_ok a"
  shows "user_action_of (user_action_fields a) = Some a"
proof (cases a)
  case (Give item name n)
  then show ?thesis using assms u8_roundtrip [of n]
    by (cases name) (simp_all add: action_ok_def user_action_of_def user_action_fields_def user_action_type_def string_field_def
        opt_string_field_def given_item.parse_print Let_def)
qed (simp_all add: user_action_of_def user_action_fields_def user_action_type_def string_field_def num_field_def
    item_kind.parse_print Let_def)

lemma response_removed: "obj_remove (str ''response'') (user_action_fields a) = user_action_fields a"
  by (cases a) (simp_all add: user_action_fields_def obj_remove_def split: option.split)

text \<open>An accepted action stored with its response reads back as the action it was, and leaves the moment that action
  leaves: a gift for something given, by its name where it has one, a tip without its amount, the first kiss, and nothing for
  any other.\<close>

theorem accepted_moment_exact:
  assumes "action_ok a"
  shows "accepted_moment show (JObj (obj_insert (str ''response'') r (user_action_fields a))) inst msg on
    = (case a of Give _ name _ \<Rightarrow> Some (gift_moment show inst msg on (named name) False)
       | Gift _ name \<Rightarrow> Some (gift_moment show inst msg on (named (Some name)) False)
       | Tip _ \<Rightarrow> Some (gift_moment show inst msg on None True)
       | Kiss \<Rightarrow> Some (first_kiss inst msg on) | FrenchKiss \<Rightarrow> Some (first_kiss inst msg on) | _ \<Rightarrow> None)"
proof -
  have "obj_remove (str ''response'') (obj_insert (str ''response'') r (user_action_fields a)) = user_action_fields a"
    using response_removed [of a] by (simp add: obj_remove_def obj_insert_def)
  then show ?thesis using user_action_roundtrip [OF assms]
    by (simp add: accepted_moment_def split: user_action.split)
qed

theorem accepted_moment_exact_witness:
  "accepted_moment (\<lambda>_. []) (JObj (obj_insert (str ''response'') (JStr (str ''accept'')) (user_action_fields (Give Tea None 2)))) 1 2 3
   = Some (gift_moment (\<lambda>_. []) 1 2 3 None False)"
  using accepted_moment_exact [of "Give Tea None 2" "\<lambda>_. []" "JStr (str ''accept'')" 1 2 3] by (simp add: action_ok_def named_def)

section \<open>Label moves\<close>

definition label_key :: "affinity_line \<Rightarrow> nat \<Rightarrow> rstr" where
  "label_key line tier = tier_key line (case line of Bond \<Rightarrow> bond_as_key (bond_from_tier tier)
     | Chemistry \<Rightarrow> chem_as_key (chem_from_tier tier))"

definition moment_of :: "uuid \<Rightarrow> rstr \<Rightarrow> journal_entry \<Rightarrow> bool" where
  "moment_of inst key r \<longleftrightarrow> ji_instance (je_insert r) = inst \<and> ji_dedup_key (je_insert r) = Some key"

definition unique_keys :: "journal_entry list \<Rightarrow> bool" where
  "unique_keys rows \<longleftrightarrow> distinct (List.map_filter (\<lambda>r. map_option (Pair (ji_instance (je_insert r)))
     (ji_dedup_key (je_insert r))) rows)"

lemma rung_tier: "fst (rung line a) = line_tier line a - 1"
  "tier_key line (fst (snd (rung line a))) = label_key line (line_tier line a)"
  using tier_index_range(1) [of "bond_score a"] tier_index_range(1) [of "chemistry_score a"]
  by (cases line; simp add: rung_def label_key_def Let_def line_tier_def aff_bond_label_def aff_chemistry_label_def
      bond_tier_def chem_tier_def bond_rank_from_tier chem_rank_from_tier)+

lemma map_filter_if: "List.map_filter (\<lambda>x. if P x then Some (f x) else None) xs = map f (filter P xs)"
  by (induction xs) (simp_all add: List.map_filter_simps)

lemma map_filter_cong: "(\<And>x. x \<in> set xs \<Longrightarrow> f x = g x) \<Longrightarrow> List.map_filter f xs = List.map_filter g xs"
  by (induction xs) (auto simp: List.map_filter_simps split: option.split)

lemma from_tier_rank:
  "k \<in> {1..5} \<Longrightarrow> bond_rank (bond_from_tier k) = k - 1 \<and> chem_rank (chem_from_tier k) = k - 1"
  by (auto simp: bond_from_tier_def chem_from_tier_def bond_rank_def chem_rank_def Let_def)

lemma keys_above_exact:
  assumes "1 \<le> t"
  shows "map (tier_key line) (keys_above line (t - 1)) = map (label_key line) (filter (\<lambda>k. t < k) [1..<6])"
proof -
  let ?key = "\<lambda>k. case line of Bond \<Rightarrow> bond_as_key (bond_from_tier k) | Chemistry \<Rightarrow> chem_as_key (chem_from_tier k)"
  have "keys_above line (t - 1) = List.map_filter (\<lambda>k. if t < k then Some (?key k) else None) [1..<6]"
    unfolding keys_above_def
  proof (rule map_filter_cong)
    fix k :: nat
    assume "k \<in> set [1..<6]"
    then have "k \<in> {1..5}" by auto
    then show "(let (r, key) = (case line of
            Bond \<Rightarrow> (let l = bond_from_tier k in (bond_rank l, bond_as_key l))
          | Chemistry \<Rightarrow> (let l = chem_from_tier k in (chem_rank l, chem_as_key l)))
      in if t - 1 < r then Some key else None) = (if t < k then Some (?key k) else None)"
      using from_tier_rank [of k] assms by (cases line) auto
  qed
  then show ?thesis by (simp add: map_filter_if label_key_def comp_def)
qed

lemma label_key_lines: "label_key Bond k \<noteq> label_key Chemistry k'"
  by (simp add: label_key_def tier_key_def line_as_str_def)

lemma line_moves_keys:
  defines "row \<equiv> \<lambda>tx inst key r. moment_of inst key r \<and> ji_kind (je_insert r) = TIER_REACHED \<and> tx - DAY < je_created_at r"
  shows "line_moves tx before after event on line rows =
    (let was = line_tier line before; now = line_tier line after; inst = instance_id after
     in if was < now then insert_journal tx (tier_reached inst line (fst (snd (rung line after))) (snd (snd (rung line after))) event on) rows
        else if now < was
        then filter (\<lambda>r. \<not> list_ex (\<lambda>k. now < k \<and> row tx inst (label_key line k) r) [1..<6]) rows
        else rows)"
proof -
  have t: "1 \<le> line_tier line before" "1 \<le> line_tier line after" by (rule line_tier_range)+
  have "undone tx inst (map (tier_key line) (keys_above line (line_tier line after - 1))) r
     \<longleftrightarrow> list_ex (\<lambda>k. line_tier line after < k \<and> row tx inst (label_key line k) r) [1..<6]" for inst r
    unfolding keys_above_exact [OF t(2)] undone_def row_def moment_of_def list_ex_iff
    by (auto split: option.splits simp del: upt_Suc)
  then show ?thesis using t rung_tier(1) [of line before] rung_tier(1) [of line after]
    by (cases "rung line after") (auto simp: line_moves_def Let_def)
qed

lemma unique_insert: "unique_keys rows \<Longrightarrow> unique_keys (insert_journal tx j rows)"
  by (auto simp: unique_keys_def insert_journal_def List.map_filter_def list_ex_iff)

lemma unique_filter: "unique_keys rows \<Longrightarrow> unique_keys (filter P rows)"
proof (induction rows)
  case (Cons r rows)
  have "set (List.map_filter f (filter P rs)) \<subseteq> set (List.map_filter f rs)" for f :: "journal_entry \<Rightarrow> (uuid \<times> rstr) option" and rs
    by (auto simp: List.map_filter_def)
  then show ?case using Cons by (auto simp: unique_keys_def List.map_filter_simps split: option.splits if_splits)
qed (simp add: unique_keys_def)

lemma unique_line_moves: "unique_keys rows \<Longrightarrow> unique_keys (line_moves tx before after event on line rows)"
  by (auto simp: line_moves_def Let_def unique_insert unique_filter split: prod.split)

text \<open>What one line's moves do to the rows, and that they leave those of the other line alone.\<close>

definition line_journalled :: "instant \<Rightarrow> affinity \<Rightarrow> affinity \<Rightarrow> affinity_line \<Rightarrow> journal_entry list \<Rightarrow> bool" where
  "line_journalled tx before after line rows \<longleftrightarrow>
     (let was = line_tier line before; now = line_tier line after; inst = instance_id after
      in if was < now then list_ex (moment_of inst (label_key line now)) rows
         else if now < was
         then \<not> list_ex (\<lambda>r. list_ex (\<lambda>k. now < k \<and> moment_of inst (label_key line k) r
                \<and> ji_kind (je_insert r) = TIER_REACHED \<and> tx - DAY < je_created_at r) [1..<6]) rows
         else True)"

lemma inserted_moment:
  "list_ex (moment_of (instance_id after) (label_key line (line_tier line after)))
     (insert_journal tx (tier_reached (instance_id after) line (fst (snd (rung line after))) zh event on) rows)"
  by (auto simp: insert_journal_def moment_of_def tier_reached_def engine_row_def rung_tier(2) list_ex_iff)

lemma line_moves_journalled: "line_journalled tx before after line (line_moves tx before after event on line rows)"
  unfolding line_journalled_def line_moves_keys Let_def
  using inserted_moment [of after line tx _ event on rows] by (auto simp: list_ex_iff)

lemma other_line_found:
  assumes bond: "\<And>r. Q r \<Longrightarrow> \<exists>k. ji_dedup_key (je_insert r) = Some (label_key Bond k)"
  shows "list_ex Q (line_moves tx before after event on Chemistry rows) = list_ex Q rows"
proof -
  have "\<not> Q r" if "ji_dedup_key (je_insert r) = Some (label_key Chemistry k)" for r k
    using bond [of r] that by (auto simp: label_key_lines [symmetric] label_key_lines)
  then have no: "\<not> Q \<lparr>je_insert = tier_reached (instance_id after) Chemistry (fst (snd (rung Chemistry after))) zh event on,
      je_created_at = tx\<rparr>" "\<And>r inst k. moment_of inst (label_key Chemistry k) r \<Longrightarrow> \<not> Q r" for zh
    by (simp_all add: tier_reached_def engine_row_def rung_tier(2) moment_of_def)
  show ?thesis unfolding line_moves_keys Let_def using no
    by (simp add: insert_journal_def) (auto simp: list_ex_iff)
qed

lemma other_line_kept:
  assumes "line_journalled tx before after Bond rows"
  shows "line_journalled tx before after Bond (line_moves tx before after event on Chemistry rows)"
proof -
  have "list_ex (moment_of inst (label_key Bond k)) (line_moves tx before after event on Chemistry rows)
      = list_ex (moment_of inst (label_key Bond k)) rows" for inst k
    by (rule other_line_found) (auto simp: moment_of_def)
  moreover have "list_ex (\<lambda>r. list_ex (\<lambda>k. n < k \<and> moment_of inst (label_key Bond k) r
          \<and> ji_kind (je_insert r) = TIER_REACHED \<and> tx - DAY < je_created_at r) [1..<6])
        (line_moves tx before after event on Chemistry rows)
      = list_ex (\<lambda>r. list_ex (\<lambda>k. n < k \<and> moment_of inst (label_key Bond k) r
          \<and> ji_kind (je_insert r) = TIER_REACHED \<and> tx - DAY < je_created_at r) [1..<6]) rows" for inst n
    by (rule other_line_found) (auto simp: moment_of_def list_ex_iff simp del: upt_Suc)
  ultimately show ?thesis using assms unfolding line_journalled_def Let_def by (simp cong: if_cong split del: if_split)
qed



end
