(* ===== verification/Byok_Guard.thy ===== *)
theory Byok_Guard
  imports Llm_Error "HOL-Library.Word" "HOL-Library.List_Lexorder" "HOL-Library.Product_Lexorder"
begin

text \<open>
  The transport of a caller's own keys (\<open>crates/eros-engine-llm/src/byok.rs\<close>): which addresses a request
  may reach, how many bytes of an answer are read, whether a strip rule can grow a reply, and the credentials
  taken out of what a provider says. Addresses are words, as they travel; a body is a list of chunks of
  bytes. The URL parser, the system resolver, the regular-expression parser and the lossy UTF-8 decoder are
  parameters. An endpoint is connected to only at an address \<open>guarded_lookup\<close> returns (the HTTP client's own
  contract).
\<close>

unbundle bit_operations_syntax

section \<open>Addresses\<close>

datatype ip_addr = V4 "32 word" | V6 "128 word"

definition octet :: "32 word \<Rightarrow> nat \<Rightarrow> 8 word" where
  "octet ip i = ucast (drop_bit (24 - 8 * i) ip)"

definition segment :: "128 word \<Rightarrow> nat \<Rightarrow> 16 word" where
  "segment ip i = ucast (drop_bit (112 - 16 * i) ip)"

definition v4_allowed :: "32 word \<Rightarrow> bool" where
  "v4_allowed ip =
     (let a = octet ip 0; b = octet ip 1; c = octet ip 2
      in \<not> (a = 0
        \<or> a = 10
        \<or> a = 127
        \<or> (a = 100 \<and> b AND 0xc0 = 64)
        \<or> (a = 169 \<and> b = 254)
        \<or> (a = 172 \<and> b AND 0xf0 = 16)
        \<or> (a = 192 \<and> b = 0 \<and> c = 0)
        \<or> (a = 192 \<and> b = 168)
        \<or> (a = 198 \<and> b AND 0xfe = 18)
        \<or> 224 \<le> a))"

text \<open>\<open>Ipv6Addr::to_ipv4_mapped\<close>.\<close>

definition to_ipv4_mapped :: "128 word \<Rightarrow> 32 word option" where
  "to_ipv4_mapped ip = (if map (segment ip) [0, 1, 2, 3, 4, 5] = [0, 0, 0, 0, 0, 0xffff] then Some (ucast ip) else None)"

definition address_allowed :: "ip_addr \<Rightarrow> bool" where
  "address_allowed ip = (case ip of
     V4 v4 \<Rightarrow> v4_allowed v4
   | V6 v6 \<Rightarrow> (case to_ipv4_mapped v6 of
       Some v4 \<Rightarrow> v4_allowed v4
     | None \<Rightarrow>
         (let s = segment v6
          in if s 0 = 0x64 \<and> s 1 = 0xff9b \<and> map s [2, 3, 4, 5] = [0, 0, 0, 0] then v4_allowed (ucast v6)
             else \<not> (v6 = 0
               \<or> v6 = 1
               \<or> s 0 AND 0xfe00 = 0xfc00
               \<or> s 0 AND 0xffc0 = 0xfe80
               \<or> s 0 AND 0xffc0 = 0xfec0
               \<or> s 0 AND 0xff00 = 0xff00))))"

text \<open>\<open>GuardedResolver::resolve\<close>: what the system resolver answers, filtered; a failed lookup stays failed.\<close>

definition ADDRESS_REFUSED :: rstr where "ADDRESS_REFUSED = str ''byok: destination address not allowed''"

definition guarded_lookup :: "(rstr \<Rightarrow> rstr + ip_addr list) \<Rightarrow> rstr \<Rightarrow> rstr + ip_addr list" where
  "guarded_lookup lookup_host host = (case lookup_host host of
     Inl e \<Rightarrow> Inl e
   | Inr found \<Rightarrow>
       (let addrs = filter address_allowed found in if addrs = [] then Inl ADDRESS_REFUSED else Inr addrs))"

section \<open>Strip rules\<close>

text \<open>\<open>minimum_len\<close> is \<open>None\<close> on a pattern that does not parse, \<open>Some None\<close> on one that matches nothing.\<close>

definition replacement_is_non_growing :: "(rstr \<Rightarrow> nat option option) \<Rightarrow> rstr \<Rightarrow> rstr \<Rightarrow> bool" where
  "replacement_is_non_growing minimum_len pattern replacement =
     (if 36 \<in> set replacement then False
      else (case minimum_len pattern of
         None \<Rightarrow> False
       | Some properties \<Rightarrow> (case properties of None \<Rightarrow> True | Some shortest \<Rightarrow> utf8_len replacement \<le> shortest)))"

section \<open>Bounded bodies\<close>

definition ERROR_BODY_MAX :: nat where "ERROR_BODY_MAX = 64 * 1024"
definition STREAM_BYTES_FLOOR :: nat where "STREAM_BYTES_FLOOR = 2 ^ 20"

definition stream_byte_limit :: "nat \<Rightarrow> nat" where
  "stream_byte_limit max_tokens = max (max_tokens * 1024) STREAM_BYTES_FLOOR"

type_synonym bytes = "nat list"

text \<open>The chunks of a body; \<open>None\<close> is one that could not be read.\<close>

fun read_chunks :: "nat \<Rightarrow> bytes \<Rightarrow> bytes option list \<Rightarrow> bytes" where
  "read_chunks cap buf chunks =
     (if length buf < cap
      then (case chunks of
        Some chunk # rest \<Rightarrow> read_chunks cap (buf @ take (min (length chunk) (cap - length buf)) chunk) rest
      | _ \<Rightarrow> buf)
      else buf)"

declare read_chunks.simps [simp del]

definition read_capped :: "(bytes \<Rightarrow> rstr) \<Rightarrow> bytes option list \<Rightarrow> nat \<Rightarrow> rstr" where
  "read_capped from_utf8_lossy chunks cap = from_utf8_lossy (read_chunks cap [] chunks)"

definition exceeded :: "nat \<Rightarrow> rstr" where
  "exceeded limit = str ''byok: response exceeded '' @ decimal limit @ str '' bytes''"

fun byte_capped :: "nat \<Rightarrow> nat \<Rightarrow> bool \<Rightarrow> (rstr + bytes) list \<Rightarrow> (rstr + bytes) list" where
  "byte_capped limit seen tripped [] = []"
| "byte_capped limit seen tripped (item # s) =
     (if tripped then []
      else (let seen = (case item of Inr b \<Rightarrow> seen + length b | Inl _ \<Rightarrow> seen)
            in if limit < seen then Inl (exceeded limit) # byte_capped limit seen True s
               else item # byte_capped limit seen False s))"

section \<open>Credentials in what a provider says\<close>

definition REDACTED :: rstr where "REDACTED = str ''<redacted>''"
definition MIN_REDACT_LEN :: nat where "MIN_REDACT_LEN = 4"

text \<open>What the URL parser makes of a URL: its serialisation, its query string, the decoded values in it.\<close>

record parsed_url =
  pu_text :: rstr
  pu_query :: "rstr option"
  pu_values :: "rstr list"

text \<open>\<open>Redactor::new\<close>: header values that are not UTF-8 are \<open>None\<close>.\<close>

definition query_value :: "rstr \<Rightarrow> rstr" where
  "query_value pair = (case split_once 61 pair of None \<Rightarrow> pair | Some (_, v) \<Rightarrow> v)"

definition redactor_new :: "(rstr \<Rightarrow> parsed_url option) \<Rightarrow> rstr \<Rightarrow> rstr option list option \<Rightarrow> rstr \<Rightarrow> rstr list" where
  "redactor_new parse_url api_key headers url =
     (let found = [api_key, url] @ (case headers of None \<Rightarrow> [] | Some hs \<Rightarrow> List.map_filter (\<lambda>v. v) hs)
            @ (case parse_url url of
                 None \<Rightarrow> []
               | Some p \<Rightarrow> pu_text p
                   # (case pu_query p of None \<Rightarrow> [] | Some q \<Rightarrow> map query_value (split_at_char 38 q)) @ pu_values p);
          found = filter (\<lambda>s. MIN_REDACT_LEN \<le> utf8_len s) found;
          found = (if api_key \<noteq> [] then found @ [api_key] else found)
      in remdups_adj (sort_key (\<lambda>s. (- int (utf8_len s), s)) found))"

text \<open>\<open>str::replace\<close> of a non-empty pattern; a redactor holds no empty one.\<close>

function replace_str :: "rstr \<Rightarrow> rstr \<Rightarrow> rstr \<Rightarrow> rstr" where
  "replace_str pat rep [] = []"
| "replace_str pat rep (c # cs) =
     (if pat \<noteq> [] \<and> prefix pat (c # cs) then rep @ replace_str pat rep (drop (length pat) (c # cs))
      else c # replace_str pat rep cs)"
  by pat_completeness auto

termination by (relation "measure (\<lambda>(p, r, t). length t)") auto

definition redact :: "rstr list \<Rightarrow> rstr \<Rightarrow> rstr" where
  "redact secrets t = fold (\<lambda>secret out. if sublist secret out then replace_str secret REDACTED out else out) secrets t"

definition redact_body :: "rstr list \<Rightarrow> parsed_error_body \<Rightarrow> parsed_error_body" where
  "redact_body secrets body =
     \<lparr>pb_code = map_option (redact secrets) (pb_code body),
      pb_error_type = map_option (redact secrets) (pb_error_type body),
      pb_provider_code = map_option (redact secrets) (pb_provider_code body),
      pb_message = redact secrets (pb_message body)\<rparr>"

end
