(* ===== verification/Stream_Call.thy ===== *)
theory Stream_Call
  imports Chat_Burst Byok_Guard
begin

text \<open>
  The streaming model call (\<open>execute_stream_as\<close> of \<open>crates/eros-engine-llm/src/openrouter.rs\<close>): the body it
  posts, the answer it refuses, and what each server-sent event becomes, for the engine's own client and for
  the per-turn client of a caller's own keys. The exchange, the decoder of the event stream, the decoders of
  text, the URL parser and the minted id are the fields of \<open>stream_io\<close>. An integer field of an event is a
  number with an integral value.
\<close>

section \<open>Events\<close>

definition u64_field :: "json option \<Rightarrow> f64 option" where
  "u64_field v = (case v of None \<Rightarrow> Some 0
     | Some (JNum x) \<Rightarrow> if x = of_int \<lfloor>x\<rfloor> \<and> 0 \<le> x \<and> x < 2 ^ 64 then Some x else None
     | _ \<Rightarrow> None)"

definition opt_f64_field :: "json option \<Rightarrow> f64 option option" where
  "opt_f64_field v = (case v of None \<Rightarrow> Some None | Some JNull \<Rightarrow> Some None | Some (JNum x) \<Rightarrow> Some (Some x) | _ \<Rightarrow> None)"

text \<open>\<open>UsageBlock\<close>, as it serialises.\<close>

definition usage_block_of :: "json \<Rightarrow> json option" where
  "usage_block_of v =
     (if \<not> struct_shape v 4 then None
      else Option.bind (u64_field (struct_field v 0 (str ''prompt_tokens''))) (\<lambda>p.
        Option.bind (u64_field (struct_field v 1 (str ''completion_tokens''))) (\<lambda>c.
          Option.bind (u64_field (struct_field v 2 (str ''total_tokens''))) (\<lambda>t.
            map_option (\<lambda>cost. JObj ([(str ''prompt_tokens'', JNum p), (str ''completion_tokens'', JNum c),
                (str ''total_tokens'', JNum t)] @ field_of (str ''cost'') (map_option JNum cost)))
              (opt_f64_field (struct_field v 3 (str ''cost'')))))))"

record wire_stream_delta =
  wd_content :: "rstr option"
  wd_reasoning :: "json option"
  wd_reasoning_content :: "json option"

definition default_delta :: wire_stream_delta where
  "default_delta = \<lparr>wd_content = None, wd_reasoning = None, wd_reasoning_content = None\<rparr>"

definition wire_stream_delta_of :: "json \<Rightarrow> wire_stream_delta option" where
  "wire_stream_delta_of v =
     (if \<not> struct_shape v 3 then None
      else map_option (\<lambda>c. \<lparr>wd_content = c, wd_reasoning = opt_value_field (struct_field v 1 (str ''reasoning'')),
          wd_reasoning_content = opt_value_field (struct_field v 2 (str ''reasoning_content''))\<rparr>)
        (opt_string_field (struct_field v 0 (str ''content''))))"

definition reasoning_text :: "json option \<Rightarrow> rstr option" where
  "reasoning_text v = (case v of Some (JStr s) \<Rightarrow> if s \<noteq> [] then Some s else None | _ \<Rightarrow> None)"

definition delta_reasoning :: "wire_stream_delta \<Rightarrow> rstr option" where
  "delta_reasoning d = (case reasoning_text (wd_reasoning d) of
     Some s \<Rightarrow> Some s | None \<Rightarrow> reasoning_text (wd_reasoning_content d))"

record wire_stream_choice =
  ws_delta :: wire_stream_delta
  ws_finish_reason :: "rstr option"

definition default_choice :: wire_stream_choice where
  "default_choice = \<lparr>ws_delta = default_delta, ws_finish_reason = None\<rparr>"

definition wire_stream_choice_of :: "json \<Rightarrow> wire_stream_choice option" where
  "wire_stream_choice_of v =
     (if \<not> struct_shape v 2 then None
      else Option.bind (case struct_field v 0 (str ''delta'') of None \<Rightarrow> Some default_delta | Some d \<Rightarrow> wire_stream_delta_of d) (\<lambda>d.
        map_option (\<lambda>f. \<lparr>ws_delta = d, ws_finish_reason = f\<rparr>) (opt_string_field (struct_field v 1 (str ''finish_reason'')))))"

record wire_stream_error =
  we_code :: "json option"
  we_message :: rstr

definition wire_stream_error_of :: "json \<Rightarrow> wire_stream_error option" where
  "wire_stream_error_of v =
     (if \<not> struct_shape v 2 then None
      else map_option (\<lambda>m. \<lparr>we_code = opt_value_field (struct_field v 0 (str ''code'')), we_message = m\<rparr>)
        (case struct_field v 1 (str ''message'') of None \<Rightarrow> Some [] | f \<Rightarrow> string_field f))"

record wire_stream_frame =
  wf_id :: "rstr option"
  wf_model :: "rstr option"
  wf_usage :: "json option"
  wf_choices :: "wire_stream_choice list"
  wf_error :: "wire_stream_error option"

text \<open>An optional field that is a struct: absent or null is \<open>None\<close>.\<close>

definition opt_struct_field :: "(json \<Rightarrow> 'a option) \<Rightarrow> json option \<Rightarrow> 'a option option" where
  "opt_struct_field decode v = (case opt_value_field v of None \<Rightarrow> Some None | Some x \<Rightarrow> map_option Some (decode x))"

definition wire_stream_frame_of :: "json \<Rightarrow> wire_stream_frame option" where
  "wire_stream_frame_of v =
     (if \<not> struct_shape v 5 then None
      else Option.bind (opt_string_field (struct_field v 0 (str ''id''))) (\<lambda>i.
        Option.bind (opt_string_field (struct_field v 1 (str ''model''))) (\<lambda>m.
          Option.bind (opt_struct_field usage_block_of (struct_field v 2 (str ''usage''))) (\<lambda>u.
            Option.bind (case struct_field v 3 (str ''choices'') of None \<Rightarrow> Some []
                | Some (JArr cs) \<Rightarrow> all_some (map wire_stream_choice_of cs) | _ \<Rightarrow> None) (\<lambda>cs.
              map_option (\<lambda>e. \<lparr>wf_id = i, wf_model = m, wf_usage = u, wf_choices = cs, wf_error = e\<rparr>)
                (opt_struct_field wire_stream_error_of (struct_field v 4 (str ''error''))))))))"

definition mid_stream_error_body :: "(json \<Rightarrow> rstr) \<Rightarrow> json option \<Rightarrow> rstr \<Rightarrow> parsed_error_body" where
  "mid_stream_error_body show_json code message =
     (let code = map_option show_json code
      in (message_only (body_preview (str ''mid-stream error: code='' @ (case code of Some c \<Rightarrow> c | None \<Rightarrow> str ''?'')
            @ str '': '' @ message)))\<lparr>pb_code := code\<rparr>)"

definition STREAM_FINISH_ERROR :: rstr where
  "STREAM_FINISH_ERROR = str ''openrouter stream terminated with finish_reason=error''"

text \<open>One event; \<open>redactor\<close> is present, and \<open>ep_name\<close> the label \<open>byok\<close>, on a hop with a caller's own key.\<close>

definition chunk_of :: "bool \<Rightarrow> rstr option \<Rightarrow> wire_stream_frame \<Rightarrow> wire_stream_choice \<Rightarrow> delta_chunk" where
  "chunk_of byok label frame choice =
     \<lparr>dk_content = (case wd_content (ws_delta choice) of Some s \<Rightarrow> if s \<noteq> [] then Some s else None | None \<Rightarrow> None),
      dk_reasoning = delta_reasoning (ws_delta choice), dk_finish_reason = ws_finish_reason choice,
      dk_usage = wf_usage frame, dk_generation_id = (if byok then None else wf_id frame),
      dk_model = map_option (\<lambda>echo. case label of None \<Rightarrow> echo | Some p \<Rightarrow> escape_model_id echo @ 64 # p) (wf_model frame)\<rparr>"

definition redact_opt :: "rstr list option \<Rightarrow> rstr \<Rightarrow> rstr" where
  "redact_opt r t = (case r of Some secrets \<Rightarrow> redact secrets t | None \<Rightarrow> t)"

definition redact_body_opt :: "rstr list option \<Rightarrow> parsed_error_body \<Rightarrow> parsed_error_body" where
  "redact_body_opt r b = (case r of Some secrets \<Rightarrow> redact_body secrets b | None \<Rightarrow> b)"

definition read_event :: "serde \<Rightarrow> bool \<Rightarrow> rstr option \<Rightarrow> rstr list option \<Rightarrow> rstr + rstr \<Rightarrow> (llm_error + delta_chunk) option" where
  "read_event sd byok label r ev = (case ev of
     Inl e \<Rightarrow> Some (Inl (StreamErr e))
   | Inr line \<Rightarrow>
       if line = str ''[DONE]'' then None
       else (case Option.bind (sd_from_str sd line) wire_stream_frame_of of
          None \<Rightarrow> Some (Inl (StreamParseErr (take 256 (redact_opt r line))))
        | Some frame \<Rightarrow> (case wf_error frame of
            Some err \<Rightarrow> Some (Inl (ProviderErr (redact_body_opt r
                (mid_stream_error_body (sd_show sd) (we_code err) (redact_opt r (we_message err))))))
          | None \<Rightarrow>
              (let choice = (case wf_choices frame of [] \<Rightarrow> default_choice | c # _ \<Rightarrow> c)
               in if ws_finish_reason choice = Some (str ''error'') then Some (Inl (ProviderErr (message_only STREAM_FINISH_ERROR)))
                  else Some (Inr (chunk_of byok label frame choice))))))"

section \<open>The call\<close>

text \<open>A transport error shows its URL or not; a stretch of the body arrives, breaks, or is too long in coming.\<close>

record transport_error =
  te_shown :: rstr
  te_without_url :: rstr

datatype arrival = Arrived bytes | Broken transport_error | Silent

datatype stream_reply =
    NoAnswer transport_error
  | Refused status_code "rstr option" "bytes option list"
  | Opened "rstr option" "arrival list"

record stream_io =
  io_post :: "endpoint \<Rightarrow> (rstr \<times> json) list \<Rightarrow> stream_reply"
  io_text :: "bytes option list \<Rightarrow> rstr option"
  io_lossy :: "bytes \<Rightarrow> rstr"
  io_events :: "(rstr + bytes) list \<Rightarrow> (rstr + rstr) list"
  io_parse_url :: "rstr \<Rightarrow> parsed_url option"
  io_minted :: rstr

record stream_client = openrouter_client +
  oc_byok :: bool

definition strip_url :: "transport_error \<Rightarrow> bool \<Rightarrow> rstr" where
  "strip_url e byok = (if byok then te_without_url e else te_shown e)"

definition STREAM_IDLE_SECS :: nat where "STREAM_IDLE_SECS = 45"

definition idle_bounded :: "bool \<Rightarrow> arrival list \<Rightarrow> (rstr + bytes) list" where
  "idle_bounded byok = map (\<lambda>r. case r of
     Arrived b \<Rightarrow> Inr b
   | Broken e \<Rightarrow> Inl (strip_url e byok)
   | Silent \<Rightarrow> Inl (STREAM_IDLE_TIMEOUT_MSG @ str '': no bytes for '' @ decimal STREAM_IDLE_SECS @ str ''s''))"

definition hop_redactor :: "stream_io \<Rightarrow> stream_client \<Rightarrow> endpoint \<Rightarrow> rstr list option" where
  "hop_redactor io client ep =
     (if oc_byok client
      then Some (redactor_new (io_parse_url io) (ep_api_key ep) (map_option (map (\<lambda>h. Some (snd h))) (ep_headers ep)) (ep_url ep))
      else None)"

definition stream_body :: "stream_client \<Rightarrow> chat_request \<Rightarrow> rstr \<Rightarrow> endpoint \<Rightarrow> (rstr \<times> json) list" where
  "stream_body client req bare ep =
     (let wire = wire_request req bare ep True;
          rules = endpoint_rules (openrouter_client.truncate client) ep
      in if list_ex (\<lambda>r. rule_matches r (req_task req)) rules then apply_body_rules wire rules (req_task req) else wire)"

definition refusal :: "serde \<Rightarrow> stream_io \<Rightarrow> rstr list option \<Rightarrow> bytes option list \<Rightarrow> parsed_error_body" where
  "refusal sd io r chunks = (case r of
     Some secrets \<Rightarrow> redact_body secrets (parse_error_body (sd_from_str sd) (sd_show sd)
         (redact secrets (read_capped (io_lossy io) chunks ERROR_BODY_MAX)))
   | None \<Rightarrow> parse_error_body (sd_from_str sd) (sd_show sd) (case io_text io chunks of Some t \<Rightarrow> t | None \<Rightarrow> []))"

definition id_chunk :: "rstr \<Rightarrow> delta_chunk" where
  "id_chunk i = \<lparr>dk_content = None, dk_reasoning = None, dk_finish_reason = None, dk_usage = None,
     dk_generation_id = Some i, dk_model = None\<rparr>"

definition stream_items :: "serde \<Rightarrow> stream_io \<Rightarrow> stream_client \<Rightarrow> chat_request \<Rightarrow> endpoint \<Rightarrow> rstr option \<Rightarrow> arrival list
    \<Rightarrow> (llm_error + delta_chunk) list" where
  "stream_items sd io client req ep header arrivals =
     (let byok = oc_byok client;
          label = (if byok then Some AUDIT_LABEL else ep_name ep);
          r = hop_redactor io client ep;
          header_gen_id = (if byok then Some (str ''byok-'' @ io_minted io) else header);
          head = (case header_gen_id of None \<Rightarrow> [] | Some i \<Rightarrow> [Inr (id_chunk i)]);
          body = idle_bounded byok arrivals;
          body = (if byok then byte_capped (stream_byte_limit (req_max_tokens req)) 0 False body else body)
      in head @ List.map_filter (read_event sd byok label r) (io_events io body))"

definition execute_stream_as :: "serde \<Rightarrow> stream_io \<Rightarrow> stream_client \<Rightarrow> chat_request \<Rightarrow> rstr
    \<Rightarrow> llm_error + (llm_error + delta_chunk) list" where
  "execute_stream_as sd io client req model =
     (if model = [] then Inl (ConfigErr (str ''openrouter: execute_stream requires a non-empty model''))
      else (case resolve_endpoint (openrouter_client.truncate client) model of
         Inl e \<Rightarrow> Inl e
       | Inr (bare, ep) \<Rightarrow>
           (case io_post io ep (stream_body client req bare ep) of
              NoAnswer e \<Rightarrow> Inl (HttpErr (strip_url e (oc_byok client)))
            | Refused status retry_after chunks \<Rightarrow>
                Inl (StatusErr status (refusal sd io (hop_redactor io client ep) chunks) (retry_after_secs retry_after))
            | Opened header arrivals \<Rightarrow> Inr (stream_items sd io client req ep header arrivals))))"

definition execute_stream :: "serde \<Rightarrow> stream_io \<Rightarrow> stream_client \<Rightarrow> chat_request \<Rightarrow> llm_error + (llm_error + delta_chunk) list" where
  "execute_stream sd io client req = execute_stream_as sd io client req (req_model req)"

text \<open>The constructor of the per-turn client: no built-in endpoint, no rules.\<close>

definition byok_client :: "(rstr \<rightharpoonup> provider_endpoint) \<Rightarrow> stream_client" where
  "byok_client providers = \<lparr>oc_api_key = [], oc_base_url = [], oc_providers = providers, oc_body_rules = [], oc_byok = True\<rparr>"

end
