(* ===== verification/Byok_Turn.thy ===== *)
theory Byok_Turn
  imports Stream_Call Tuning_Config
begin

text \<open>
  A chat turn on a caller's own keys (\<open>crates/eros-engine-server/src/byok.rs\<close>, with \<open>check_header_pairs\<close> of
  \<open>model_config.rs\<close> and \<open>parse_byok_config\<close> of \<open>state.rs\<close>): who may ask for one, what of the request is refused and with which message, and the
  turn that is built. The maps of the request are lists in key order. The URL, address, header and pattern
  parsers are the fields of \<open>readers\<close>.
\<close>

section \<open>The request\<close>

record byok_provider =
  bp_chat :: rstr
  bp_api_key :: rstr
  bp_headers :: "(rstr \<times> rstr) list option"

datatype byok_model = BFixed rstr | BRoundRobin "rstr list" | BWeighted "(rstr \<times> f64) list"

datatype byok_fallback = One rstr | Many "rstr list"

record byok_regex_rule =
  br_pattern :: rstr
  br_replacement :: "rstr option"
  br_models :: "rstr list option"

record byok_request =
  by_providers :: "(rstr \<times> byok_provider) list"
  by_model :: byok_model
  by_fallback :: "byok_fallback option"
  by_retry_depth :: "nat option"
  by_output_regex :: "byok_regex_rule list option"
  by_fallback_to_platform :: bool

record byok_config =
  bc_caller_secret :: "rstr option"
  bc_allow_private_network :: bool

record url_parts =
  ur_scheme :: rstr
  ur_username :: rstr
  ur_password :: "rstr option"
  ur_host :: "rstr option"

text \<open>\<open>rd_compile\<close> gives the error's text or the regex, whose replacement is fixed later.\<close>

record readers =
  rd_url :: "rstr \<Rightarrow> url_parts option"
  rd_ip :: "rstr \<Rightarrow> ip_addr option"
  rd_header_name :: "rstr \<Rightarrow> bool"
  rd_header_value :: "rstr \<Rightarrow> bool"
  rd_compile :: "rstr \<Rightarrow> rstr + (rstr \<Rightarrow> regex)"
  rd_minimum_len :: "rstr \<Rightarrow> nat option option"

definition MAX_PROVIDERS :: nat where "MAX_PROVIDERS = 4"
definition MAX_PROVIDER_NAME_LEN :: nat where "MAX_PROVIDER_NAME_LEN = 32"
definition MAX_URL_LEN :: nat where "MAX_URL_LEN = 2048"
definition MAX_KEY_LEN :: nat where "MAX_KEY_LEN = 1024"
definition MAX_HEADERS :: nat where "MAX_HEADERS = 8"
definition MAX_HEADER_VALUE_LEN :: nat where "MAX_HEADER_VALUE_LEN = 1024"
definition MAX_MODELS :: nat where "MAX_MODELS = 8"
definition MAX_SLUG_LEN :: nat where "MAX_SLUG_LEN = 256"
definition MAX_REGEX_RULES :: nat where "MAX_REGEX_RULES = 16"
definition MAX_PATTERN_CHARS :: nat where "MAX_PATTERN_CHARS = 512"
definition MAX_REPLACEMENT_CHARS :: nat where "MAX_REPLACEMENT_CHARS = 512"
definition DEFAULT_RETRY_DEPTH :: nat where "DEFAULT_RETRY_DEPTH = 2"

text \<open>The prepared turn: the hops' part and the client they post through.\<close>

record prepared_turn = byok_turn +
  bt_client :: stream_client

section \<open>Admission\<close>

definition MIN_BYOK_CALLER_SECRET_LEN :: nat where "MIN_BYOK_CALLER_SECRET_LEN = 32"

definition parse_byok_config :: "rstr option \<Rightarrow> rstr option \<Rightarrow> rstr + byok_config" where
  "parse_byok_config caller_secret allow_private_network =
     (let secret = (case map_option trim caller_secret of Some s \<Rightarrow> if s \<noteq> [] then Some s else None | None \<Rightarrow> None);
          cfg = (\<lambda>c. \<lparr>bc_caller_secret = c, bc_allow_private_network = parse_bool_flag allow_private_network\<rparr>)
      in case secret of
           None \<Rightarrow> Inr (cfg None)
         | Some s \<Rightarrow> if utf8_len s < MIN_BYOK_CALLER_SECRET_LEN
             then Inl (str ''BYOK_CALLER_SECRET must be at least 32 bytes'') else Inr (cfg (Some s)))"

text \<open>\<open>str::as_bytes\<close>.\<close>

definition utf8_bytes :: "rchar \<Rightarrow> nat list" where
  "utf8_bytes c =
     (if c < 128 then [c]
      else if c < 2048 then [192 + c div 64, 128 + c mod 64]
      else if c < 65536 then [224 + c div 4096, 128 + c div 64 mod 64, 128 + c mod 64]
      else [240 + c div 262144, 128 + c div 4096 mod 64, 128 + c div 64 mod 64, 128 + c mod 64])"

definition as_bytes :: "rstr \<Rightarrow> 8 word list" where
  "as_bytes s = map word_of_nat (concat (map utf8_bytes s))"

definition constant_time_eq :: "8 word list \<Rightarrow> 8 word list \<Rightarrow> bool" where
  "constant_time_eq a b \<longleftrightarrow> length a = length b \<and> fold (\<lambda>(x, y) acc. acc OR (x XOR y)) (zip a b) 0 = 0"

text \<open>\<open>sent\<close> is the value of the header \<open>x-byok-caller-secret\<close>.\<close>

definition admit :: "byok_config \<Rightarrow> 8 word list option \<Rightarrow> rstr + unit" where
  "admit cfg sent = (case bc_caller_secret cfg of
     None \<Rightarrow> Inl (str ''byok is not enabled on this deployment'')
   | Some secret \<Rightarrow>
       if constant_time_eq (case sent of Some v \<Rightarrow> v | None \<Rightarrow> []) (as_bytes secret) then Inr ()
       else Inl (str ''byok caller secret missing or wrong''))"

section \<open>Validation\<close>

definition valid_provider_name :: "rstr \<Rightarrow> bool" where
  "valid_provider_name name \<longleftrightarrow> name \<noteq> [] \<and> utf8_len name \<le> MAX_PROVIDER_NAME_LEN \<and> name \<noteq> str ''openrouter''
     \<and> list_all (\<lambda>b. 97 \<le> b \<and> b \<le> 122 \<or> is_ascii_digit b \<or> b = 95) name"

definition NAMES_REFUSED :: rstr where
  "NAMES_REFUSED = str ''byok.providers: names must match [a-z0-9_]{1,32} and must not be `openrouter`''"

definition trim_brackets :: "rstr \<Rightarrow> rstr" where
  "trim_brackets host = trim_end_matches (\<lambda>c. c = 93) (dropWhile (\<lambda>c. c = 91) host)"

definition check_url :: "readers \<Rightarrow> rstr \<Rightarrow> rstr \<Rightarrow> bool \<Rightarrow> rstr + unit" where
  "check_url rd scope raw allow_private =
     (if MAX_URL_LEN < utf8_len raw then Inl (scope @ str ''.chat: longer than 2048 bytes'')
      else (case rd_url rd raw of
         None \<Rightarrow> Inl (scope @ str ''.chat: not a valid URL'')
       | Some url \<Rightarrow>
           if \<not> (ur_scheme url = str ''https'' \<or> ur_scheme url = str ''http'' \<and> allow_private)
           then Inl (scope @ str ''.chat: scheme must be https'')
           else if ur_username url \<noteq> [] \<or> ur_password url \<noteq> None
           then Inl (scope @ str ''.chat: credentials inside the URL are not accepted'')
           else (case ur_host url of
              None \<Rightarrow> Inl (scope @ str ''.chat: URL has no host'')
            | Some host \<Rightarrow> (case rd_ip rd (trim_brackets host) of
                Some ip \<Rightarrow> if \<not> allow_private \<and> \<not> address_allowed ip
                  then Inl (scope @ str ''.chat: destination address not allowed'') else Inr ()
              | None \<Rightarrow> Inr ()))))"

text \<open>\<open>check_header_pairs\<close>; the hyphenated literal is an em dash in the source.\<close>

fun check_header_pairs :: "readers \<Rightarrow> rstr \<Rightarrow> (rstr \<times> rstr) list \<Rightarrow> rstr + unit" where
  "check_header_pairs rd scope [] = Inr ()"
| "check_header_pairs rd scope ((name, v) # rest) =
     (let lower = to_ascii_lowercase name
      in if lower = str ''authorization'' \<or> lower = str ''content-type''
         then Inl (scope @ str '': `'' @ name @ str ''` is engine-owned '' @ [8212]
                @ str '' the engine sets Authorization from the provider'' @ [39]
                @ str ''s API key and Content-Type from the request body; it cannot be overridden'')
         else if \<not> rd_header_name rd name then Inl (scope @ str '': `'' @ name @ str ''` is not a valid HTTP header name'')
         else if \<not> rd_header_value rd v
         then Inl (scope @ str '': value for `'' @ name @ str ''` is not a valid HTTP header value'')
         else check_header_pairs rd scope rest)"

definition endpoint_of :: "readers \<Rightarrow> rstr \<Rightarrow> byok_provider \<Rightarrow> rstr + provider_endpoint" where
  "endpoint_of rd scope p =
     (if bp_api_key p = [] \<or> MAX_KEY_LEN < utf8_len (bp_api_key p) \<or> \<not> rd_header_value rd (bp_api_key p)
      then Inl (scope @ str ''.api_key: 1..=1024 bytes of valid header text required'')
      else
        (let headers = (case bp_headers p of Some h \<Rightarrow> h | None \<Rightarrow> [])
         in if MAX_HEADERS < length headers then Inl (scope @ str ''.headers: at most 8 entries'')
            else (case List.find (\<lambda>(_, v). MAX_HEADER_VALUE_LEN < utf8_len v) headers of
               Some (name, _) \<Rightarrow> Inl (scope @ str ''.headers: value for `'' @ name @ str ''` exceeds 1024 bytes'')
             | None \<Rightarrow> (case check_header_pairs rd (scope @ str ''.headers'') headers of
                 Inl e \<Rightarrow> Inl e
               | Inr _ \<Rightarrow> Inr \<lparr>pe_base_url = bp_chat p, pe_api_key = bp_api_key p, pe_headers = headers,
                                pe_body_rules = []\<rparr>))))"

fun endpoints_of :: "readers \<Rightarrow> bool \<Rightarrow> (rstr \<times> byok_provider) list \<Rightarrow> rstr + (rstr \<times> provider_endpoint) list" where
  "endpoints_of rd allow_private [] = Inr []"
| "endpoints_of rd allow_private ((name, p) # rest) =
     (if \<not> valid_provider_name name then Inl NAMES_REFUSED
      else
        (let scope = str ''byok.providers.'' @ name
         in case check_url rd scope (bp_chat p) allow_private of
              Inl e \<Rightarrow> Inl e
            | Inr _ \<Rightarrow> (case endpoint_of rd scope p of
                Inl e \<Rightarrow> Inl e
              | Inr ep \<Rightarrow> map_sum (\<lambda>e. e) (\<lambda>eps. (name, ep) # eps) (endpoints_of rd allow_private rest))))"

definition slugs_of :: "byok_model \<Rightarrow> rstr list" where
  "slugs_of model = (case model of BFixed s \<Rightarrow> [s] | BRoundRobin v \<Rightarrow> v | BWeighted m \<Rightarrow> map fst m)"

definition fallbacks_of :: "byok_fallback option \<Rightarrow> rstr list" where
  "fallbacks_of f = (case f of None \<Rightarrow> [] | Some (One s) \<Rightarrow> [s] | Some (Many v) \<Rightarrow> v)"

definition check_count :: "rstr \<Rightarrow> nat \<Rightarrow> rstr + unit" where
  "check_count field n =
     (if n = 0 \<or> MAX_MODELS < n then Inl (field @ str '': 1..=8 entries required'') else Inr ())"

definition check_slug :: "rstr \<Rightarrow> rstr \<Rightarrow> (rstr \<times> byok_provider) list \<Rightarrow> rstr + unit" where
  "check_slug field slug providers =
     (if MAX_SLUG_LEN < utf8_len slug then Inl (field @ str '': every model is at most 256 bytes'')
      else (case split_model_slug slug of
         Inr (mid, Some p) \<Rightarrow> if mid \<noteq> [] \<and> p \<in> set (map fst providers) then Inr ()
           else Inl (field @ str '': every model must end in @<name> naming one of byok.providers'')
       | _ \<Rightarrow> Inl (field @ str '': every model must end in @<name> naming one of byok.providers'')))"

text \<open>A loop of checks stops at the first that fails.\<close>

fun check_all :: "('a \<Rightarrow> rstr + unit) \<Rightarrow> 'a list \<Rightarrow> rstr + unit" where
  "check_all f [] = Inr ()"
| "check_all f (x # xs) = (case f x of Inl e \<Rightarrow> Inl e | Inr _ \<Rightarrow> check_all f xs)"

text \<open>A weight or a sum that leaves the finite numbers of binary64.\<close>

definition f64_finite :: "f64 \<Rightarrow> bool" where
  "f64_finite x \<longleftrightarrow> \<bar>x\<bar> < 2 ^ 1024"

definition check_weights :: "byok_model \<Rightarrow> rstr + unit" where
  "check_weights model = (case model of
     BWeighted m \<Rightarrow>
       if list_ex (\<lambda>w. \<not> (f64_finite w \<and> 0 < w)) (map snd m) \<or> \<not> f64_finite (fsum (map snd m) 0)
       then Inl (str ''byok.model: weights must be finite, greater than 0, and sum to a finite total'') else Inr ()
   | _ \<Rightarrow> Inr ())"

definition compile_rule :: "readers \<Rightarrow> rstr list \<Rightarrow> nat \<Rightarrow> byok_regex_rule \<Rightarrow> rstr + regex_rule" where
  "compile_rule rd chain_ids i r =
     (let loc = str ''byok.output_regex['' @ decimal i @ str '']'';
          replacement = (case br_replacement r of Some t \<Rightarrow> t | None \<Rightarrow> [])
      in if br_pattern r = [] \<or> MAX_PATTERN_CHARS < length (br_pattern r)
         then Inl (loc @ str ''.pattern: 1..=512 chars required'')
         else if MAX_REPLACEMENT_CHARS < length replacement then Inl (loc @ str ''.replacement: at most 512 chars'')
         else if (case br_models r of None \<Rightarrow> False
                  | Some models \<Rightarrow> MAX_MODELS < length models \<or> list_ex (\<lambda>m. MAX_SLUG_LEN < utf8_len m) models)
         then Inl (loc @ str ''.models: at most 8 entries of at most 256 bytes'')
         else (case rd_compile rd (br_pattern r) of
            Inl e \<Rightarrow> Inl (loc @ str ''.pattern: '' @ e)
          | Inr rx \<Rightarrow>
              if \<not> replacement_is_non_growing (rd_minimum_len rd) (br_pattern r) replacement
              then Inl (loc @ str ''.replacement: must contain no `$` and be no longer in bytes than the shortest text the pattern can match'')
              else Inr \<lparr>rr_models = (case br_models r of Some m \<Rightarrow> m | None \<Rightarrow> chain_ids), rr_pattern = br_pattern r,
                        rr_regex = rx replacement\<rparr>))"

fun compile_from :: "readers \<Rightarrow> rstr list \<Rightarrow> nat \<Rightarrow> byok_regex_rule list \<Rightarrow> rstr + regex_rule list" where
  "compile_from rd chain_ids i [] = Inr []"
| "compile_from rd chain_ids i (r # rs) = (case compile_rule rd chain_ids i r of
     Inl e \<Rightarrow> Inl e | Inr c \<Rightarrow> map_sum (\<lambda>e. e) (\<lambda>cs. c # cs) (compile_from rd chain_ids (i + 1) rs))"

definition compile_rules :: "readers \<Rightarrow> byok_regex_rule list \<Rightarrow> rstr list \<Rightarrow> rstr + regex_rule list" where
  "compile_rules rd rules chain_ids =
     (if MAX_REGEX_RULES < length rules then Inl (str ''byok.output_regex: at most 16 rules'')
      else compile_from rd chain_ids 0 rules)"

text \<open>\<open>cursor\<close> is where the user's round robin stands.\<close>

definition turn_model :: "byok_model \<Rightarrow> nat \<Rightarrow> model_spec" where
  "turn_model model cursor = (case model of
     BFixed s \<Rightarrow> Fixed s | BRoundRobin v \<Rightarrow> RoundRobin v cursor | BWeighted m \<Rightarrow> Weighted m)"

definition chain_ids_of :: "byok_request \<Rightarrow> rstr list" where
  "chain_ids_of req = remdups_adj (sort (map bare_model_id (slugs_of (by_model req)) @ map bare_model_id (fallbacks_of (by_fallback req))))"

definition prepare :: "readers \<Rightarrow> byok_request \<Rightarrow> byok_config \<Rightarrow> nat \<Rightarrow> rstr + prepared_turn" where
  "prepare rd req cfg cursor =
     (if by_providers req = [] \<or> MAX_PROVIDERS < length (by_providers req)
      then Inl (str ''byok.providers: 1..=4 entries required'')
      else (case endpoints_of rd (bc_allow_private_network cfg) (by_providers req) of
         Inl e \<Rightarrow> Inl e
       | Inr endpoints \<Rightarrow>
      (let primary = slugs_of (by_model req); fallback = fallbacks_of (by_fallback req)
       in case check_count (str ''byok.model'') (length primary) of Inl e \<Rightarrow> Inl e | Inr _ \<Rightarrow>
         (case check_all (\<lambda>s. check_slug (str ''byok.model'') s (by_providers req)) primary of Inl e \<Rightarrow> Inl e | Inr _ \<Rightarrow>
         (case check_weights (by_model req) of Inl e \<Rightarrow> Inl e | Inr _ \<Rightarrow>
         (if MAX_MODELS < length fallback then Inl (str ''byok.fallback: at most 8 entries'')
          else (case check_all (\<lambda>s. check_slug (str ''byok.fallback'') s (by_providers req)) fallback of Inl e \<Rightarrow> Inl e | Inr _ \<Rightarrow>
            (case compile_rules rd (case by_output_regex req of Some rs \<Rightarrow> rs | None \<Rightarrow> []) (chain_ids_of req) of
               Inl e \<Rightarrow> Inl e
             | Inr rules \<Rightarrow>
                 Inr \<lparr>bt_model = turn_model (by_model req) cursor, bt_fallback = fallback,
                      bt_retry_depth = (case by_retry_depth req of Some d \<Rightarrow> d | None \<Rightarrow> DEFAULT_RETRY_DEPTH),
                      bt_rules = rules, bt_fallback_to_platform = by_fallback_to_platform req,
                      bt_client = byok_client (map_of endpoints)\<rparr>))))))))"

section \<open>The route's entry\<close>

record stream_pre_error =
  sp_status :: nat
  sp_code :: rstr
  sp_message :: rstr
  sp_user_message :: rstr

text \<open>The text shown to the user says in Chinese that the request is invalid.\<close>

definition pre_error :: "nat \<Rightarrow> rstr \<Rightarrow> rstr \<Rightarrow> stream_pre_error" where
  "pre_error status code message =
     \<lparr>sp_status = status, sp_code = code, sp_message = message, sp_user_message = [35831, 27714, 26080, 25928]\<rparr>"

definition admit_and_prepare :: "readers \<Rightarrow> byok_config \<Rightarrow> nat \<Rightarrow> 8 word list option \<Rightarrow> byok_request
    \<Rightarrow> stream_pre_error + prepared_turn" where
  "admit_and_prepare rd cfg cursor sent req = (case admit cfg sent of
     Inl m \<Rightarrow> Inl (pre_error 403 (str ''byok_forbidden'') m)
   | Inr _ \<Rightarrow> (case prepare rd req cfg cursor of
       Inl m \<Rightarrow> Inl (pre_error 400 (str ''invalid_payload'') m)
     | Inr t \<Rightarrow> Inr t))"

end
