(* ===== verification/Byok_Guard_Laws.thy ===== *)
theory Byok_Guard_Laws
  imports Byok_Guard
begin

text \<open>
  What the transport of a caller's own keys promises: the address guard is a list of refused networks, a
  body is cut at its bound and nowhere else, and no credential is left in a text that was redacted.
\<close>

unbundle bit_operations_syntax

section \<open>The address guard as a list of networks\<close>

text \<open>An abstract form of the guard: the networks it refuses, as prefixes.\<close>

definition dotted :: "nat \<Rightarrow> nat \<Rightarrow> nat \<Rightarrow> nat \<Rightarrow> 32 word" where
  "dotted a b c d = word_of_nat (((a * 256 + b) * 256 + c) * 256 + d)"

definition in_net :: "'a::len word \<Rightarrow> 'a word \<times> nat \<Rightarrow> bool" where
  "in_net ip net \<longleftrightarrow> drop_bit (LENGTH('a) - snd net) ip = drop_bit (LENGTH('a) - snd net) (fst net)"

definition refused_v4 :: "(32 word \<times> nat) list" where
  "refused_v4 = [(dotted 0 0 0 0, 8), (dotted 10 0 0 0, 8), (dotted 100 64 0 0, 10), (dotted 127 0 0 0, 8),
     (dotted 169 254 0 0, 16), (dotted 172 16 0 0, 12), (dotted 192 0 0 0, 24), (dotted 192 168 0 0, 16),
     (dotted 198 18 0 0, 15), (dotted 224 0 0 0, 3)]"

definition embedded_v4 :: "(128 word \<times> nat) list" where
  "embedded_v4 = [(0xffff00000000, 96), (0x0064ff9b000000000000000000000000, 96)]"

definition refused_v6 :: "(128 word \<times> nat) list" where
  "refused_v6 = [(0, 128), (1, 128), (0xfc000000000000000000000000000000, 7), (0xfe800000000000000000000000000000, 10),
     (0xfec00000000000000000000000000000, 10), (0xff000000000000000000000000000000, 8)]"

definition bits_below :: "nat \<Rightarrow> (nat \<Rightarrow> bool) \<Rightarrow> bool" where
  "bits_below n P = list_all P [0..<n]"

lemma bits_below_simps [simp]: "bits_below 0 P" "bits_below (Suc n) P \<longleftrightarrow> bits_below n P \<and> P n"
  "bits_below (numeral k) P \<longleftrightarrow> bits_below (pred_numeral k) P \<and> P (pred_numeral k)"
  unfolding numeral_eq_Suc [of k] by (auto simp: bits_below_def)

lemma word_eq_bits: "(x :: 'a::len word) = y \<longleftrightarrow> bits_below LENGTH('a) (\<lambda>k. bit x k = bit y k)"
  by (auto simp: bits_below_def list_all_iff bit_eq_iff)

lemma drop_bits:
  assumes "n \<le> LENGTH('a)" "take_bit (LENGTH('a) - n) w = (w :: 'a::len word)"
  shows "drop_bit n x = w \<longleftrightarrow> bits_below (LENGTH('a) - n) (\<lambda>k. bit x (n + k) = bit w k)"
proof
  assume b: "bits_below (LENGTH('a) - n) (\<lambda>k. bit x (n + k) = bit w k)"
  show "drop_bit n x = w"
  proof (rule bit_word_eqI)
    fix k
    have "bit w k \<longleftrightarrow> k < LENGTH('a) - n \<and> bit w k" using arg_cong [OF assms(2), of "\<lambda>v. bit v k"] by (simp add: bit_take_bit_iff)
    then show "bit (drop_bit n x) k = bit w k"
      using b assms(1) by (cases "n + k < LENGTH('a)") (auto simp: bits_below_def list_all_iff bit_drop_bit_eq dest: bit_imp_le_length)
  qed
qed (auto simp: bits_below_def list_all_iff bit_drop_bit_eq)

lemma octet_bits:
  "octet ip i = c \<longleftrightarrow> bits_below 8 (\<lambda>k. bit ip (24 - 8 * i + k) = bit c k)"
  "octet ip i AND m = c \<longleftrightarrow> bits_below 8 (\<lambda>k. (bit ip (24 - 8 * i + k) \<and> bit m k) = bit c k)"
  by (simp_all add: word_eq_bits [of _ c] octet_def bit_ucast_iff bit_drop_bit_eq bit_and_iff)

lemma octet_high: "224 \<le> octet ip 0 \<longleftrightarrow> drop_bit 29 ip = 7"
proof -
  have "224 \<le> x \<longleftrightarrow> drop_bit 5 x = 7" for x :: "8 word"
  proof -
    have "unat x < 256" using unsigned_less [of x] by simp
    then show ?thesis by (auto simp: word_le_nat_alt word_unat_eq_iff unat_drop_bit_eq drop_bit_eq_div unat_div)
  qed
  then show ?thesis by (simp add: drop_bits octet_def bit_ucast_iff bit_drop_bit_eq)
qed

lemma v4_nets:
  "in_net ip (dotted 0 0 0 0, 8) \<longleftrightarrow> octet ip 0 = 0"
  "in_net ip (dotted 10 0 0 0, 8) \<longleftrightarrow> octet ip 0 = 10"
  "in_net ip (dotted 127 0 0 0, 8) \<longleftrightarrow> octet ip 0 = 127"
  "in_net ip (dotted 100 64 0 0, 10) \<longleftrightarrow> octet ip 0 = 100 \<and> octet ip 1 AND 0xc0 = 64"
  "in_net ip (dotted 169 254 0 0, 16) \<longleftrightarrow> octet ip 0 = 169 \<and> octet ip 1 = 254"
  "in_net ip (dotted 172 16 0 0, 12) \<longleftrightarrow> octet ip 0 = 172 \<and> octet ip 1 AND 0xf0 = 16"
  "in_net ip (dotted 192 0 0 0, 24) \<longleftrightarrow> octet ip 0 = 192 \<and> octet ip 1 = 0 \<and> octet ip 2 = 0"
  "in_net ip (dotted 192 168 0 0, 16) \<longleftrightarrow> octet ip 0 = 192 \<and> octet ip 1 = 168"
  "in_net ip (dotted 198 18 0 0, 15) \<longleftrightarrow> octet ip 0 = 198 \<and> octet ip 1 AND 0xfe = 18"
  "in_net ip (dotted 224 0 0 0, 3) \<longleftrightarrow> 224 \<le> octet ip 0"
  by (simp add: in_net_def dotted_def drop_bits octet_bits octet_high; blast?)+

lemma segment_bits:
  "segment ip i = c \<longleftrightarrow> bits_below 16 (\<lambda>k. bit ip (112 - 16 * i + k) = bit c k)"
  "segment ip i AND m = c \<longleftrightarrow> bits_below 16 (\<lambda>k. (bit ip (112 - 16 * i + k) \<and> bit m k) = bit c k)"
  by (simp_all add: word_eq_bits [of _ c] segment_def bit_ucast_iff bit_drop_bit_eq bit_and_iff)

lemma v6_nets:
  "in_net ip (0xfc000000000000000000000000000000, 7) \<longleftrightarrow> segment ip 0 AND 0xfe00 = 0xfc00"
  "in_net ip (0xfe800000000000000000000000000000, 10) \<longleftrightarrow> segment ip 0 AND 0xffc0 = 0xfe80"
  "in_net ip (0xfec00000000000000000000000000000, 10) \<longleftrightarrow> segment ip 0 AND 0xffc0 = 0xfec0"
  "in_net ip (0xff000000000000000000000000000000, 8) \<longleftrightarrow> segment ip 0 AND 0xff00 = 0xff00"
  by (simp add: in_net_def drop_bits segment_bits; blast?)+

lemma v6_hosts: "in_net ip (0 :: 128 word, 128) \<longleftrightarrow> ip = 0" "in_net ip (1 :: 128 word, 128) \<longleftrightarrow> ip = 1"
  by (simp_all add: in_net_def)

lemma v6_embedded:
  "in_net ip (0xffff00000000, 96) \<longleftrightarrow> map (segment ip) [0, 1, 2, 3, 4, 5] = [0, 0, 0, 0, 0, 0xffff]"
  "in_net ip (0x0064ff9b000000000000000000000000, 96) \<longleftrightarrow> segment ip 0 = 0x64 \<and> segment ip 1 = 0xff9b
     \<and> map (segment ip) [2, 3, 4, 5] = [0, 0, 0, 0]"
  by (simp add: in_net_def drop_bits segment_bits; blast?)+

text \<open>C38: The address guard refuses exactly the addresses of a list of networks (private, shared, loopback,
  link-local, documentation of benchmarks, multicast and reserved ones); an IPv6 address that carries an IPv4
  one, mapped or by NAT64, is judged by the address it carries.\<close>

theorem address_guard_networks:
  "address_allowed ip \<longleftrightarrow> (case ip of
     V4 a \<Rightarrow> \<not> list_ex (in_net a) refused_v4
   | V6 a \<Rightarrow> if list_ex (in_net a) embedded_v4 then \<not> list_ex (in_net (ucast a)) refused_v4
            else \<not> list_ex (in_net a) refused_v6)"
proof -
  have v4: "v4_allowed a \<longleftrightarrow> \<not> list_ex (in_net a) refused_v4" for a
    by (auto simp: refused_v4_def v4_nets v4_allowed_def Let_def)
  show ?thesis
    by (auto simp: refused_v6_def embedded_v4_def v6_nets v6_hosts v6_embedded address_allowed_def to_ipv4_mapped_def
        Let_def v4 split: ip_addr.split)
qed

section \<open>Bounds of a body\<close>

definition payload :: "(rstr + bytes) list \<Rightarrow> nat" where
  "payload s = sum_list (map (\<lambda>item. case item of Inr b \<Rightarrow> length b | Inl _ \<Rightarrow> 0) s)"

lemma payload_simps [simp]: "payload [] = 0" "payload (Inl e # s) = payload s" "payload (Inr b # s) = length b + payload s"
  "payload (s @ t) = payload s + payload t"
  by (simp_all add: payload_def)

lemma byte_capped_tripped [simp]: "byte_capped limit n True s = []"
  by (cases s) simp_all

lemma byte_capped_cut:
  "n \<le> limit \<Longrightarrow> n + payload (byte_capped limit n False s) \<le> limit \<and>
     (if n + payload s \<le> limit then byte_capped limit n False s = s
      else \<exists>k. byte_capped limit n False s = take k s @ [Inl (exceeded limit)])"
proof (induction s arbitrary: n)
  case (Cons item s)
  show ?case
  proof (cases item)
    case (Inl e)
    have "(\<exists>k. byte_capped limit n False s = take k s @ [Inl (exceeded limit)])
        \<Longrightarrow> \<exists>k. item # byte_capped limit n False s = take k (item # s) @ [Inl (exceeded limit)]"
      by (metis append_Cons take_Suc_Cons)
    then show ?thesis using Cons.IH [OF Cons.prems] Cons.prems by (auto simp: Inl Let_def)
  next
    case (Inr b)
    show ?thesis
    proof (cases "n + length b \<le> limit")
      case True
      have "(\<exists>k. byte_capped limit (n + length b) False s = take k s @ [Inl (exceeded limit)])
          \<Longrightarrow> \<exists>k. item # byte_capped limit (n + length b) False s = take k (item # s) @ [Inl (exceeded limit)]"
        by (metis append_Cons take_Suc_Cons)
      then show ?thesis using Cons.IH [OF True] True by (auto simp: Inr Let_def add.assoc)
    next
      case False
      then show ?thesis using Cons.prems by (auto simp: Inr Let_def intro: exI [of _ 0])
    qed
  qed
qed simp

lemma read_chunks_take:
  "length buf \<le> cap \<Longrightarrow> read_chunks cap buf chunks
     = take cap (buf @ concat (map the (takeWhile (\<lambda>c. c \<noteq> None) chunks)))"
proof (induction chunks arbitrary: buf)
  case Nil
  then show ?case by (simp add: read_chunks.simps)
next
  case (Cons c cs)
  show ?case
  proof (cases "length buf < cap \<and> c \<noteq> None")
    case True
    then obtain b where c: "c = Some b" by auto
    let ?buf = "buf @ take (min (length b) (cap - length buf)) b"
    have "read_chunks cap buf (c # cs) = read_chunks cap ?buf cs" using True by (subst read_chunks.simps) (simp add: c)
    also have "\<dots> = take cap (?buf @ concat (map the (takeWhile (\<lambda>c. c \<noteq> None) cs)))"
      using Cons.prems by (intro Cons.IH) simp
    also have "\<dots> = take cap (buf @ b @ concat (map the (takeWhile (\<lambda>c. c \<noteq> None) cs)))"
      using True by (simp add: min_def)
    finally show ?thesis by (simp add: c)
  next
    case False
    then show ?thesis using Cons.prems by (subst read_chunks.simps) (auto split: option.split)
  qed
qed

text \<open>However much an endpoint sends, no more than the bound of a body is read: a streamed body passes
  unchanged up to its bound and then ends in one error, and an error body is its first bytes up to the cap.\<close>

theorem byok_body_bounded:
  "let limit = stream_byte_limit max_tokens; out = byte_capped limit 0 False s;
       sent = concat (map the (takeWhile (\<lambda>c. c \<noteq> None) chunks))
   in payload out \<le> limit
      \<and> (if payload s \<le> limit then out = s else \<exists>k. out = take k s @ [Inl (exceeded limit)])
      \<and> read_capped lossy chunks ERROR_BODY_MAX = lossy (take ERROR_BODY_MAX sent)"
  using byte_capped_cut [of 0 "stream_byte_limit max_tokens" s] read_chunks_take [of "[]" ERROR_BODY_MAX chunks]
  by (simp add: Let_def read_capped_def)

section \<open>Credentials\<close>

text \<open>A credential that no part of the placeholder itself spells.\<close>

definition hideable :: "rstr \<Rightarrow> bool" where
  "hideable s \<longleftrightarrow> s \<noteq> [] \<and> 60 \<notin> set s \<and> 62 \<notin> set s \<and> \<not> sublist s (str ''redacted'')"

lemma sublist_around:
  "sublist s (xs @ c # ys) \<Longrightarrow> c \<notin> set s \<Longrightarrow> sublist s xs \<or> sublist s ys"
proof -
  assume s: "sublist s (xs @ c # ys)" and c: "c \<notin> set s"
  from s obtain ps ss where e: "xs @ c # ys = ps @ s @ ss" by (auto simp: sublist_def)
  show ?thesis
  proof (cases "length (ps @ s) \<le> length xs")
    case True
    then have "ps @ s = take (length (ps @ s)) xs"
      using arg_cong [OF e, of "take (length (ps @ s))"] by simp
    then have "xs = ps @ s @ drop (length (ps @ s)) xs" by (metis append.assoc append_take_drop_id)
    then show ?thesis by (metis sublist_appendI)
  next
    case long: False
    show ?thesis
    proof (cases "length xs < length ps")
      case True
      then have "s @ ss = drop (length ps - Suc (length xs)) ys"
        using arg_cong [OF e, of "drop (length ps)"] by (simp add: drop_Cons' numeral_eq_Suc Suc_diff_Suc)
      then show ?thesis by (metis append_take_drop_id sublist_appendI)
    next
      case False
      with long have i: "length ps \<le> length xs" "length xs < length ps + length s" by simp_all
      have "c = (xs @ c # ys) ! length xs" by simp
      also have "\<dots> = s ! (length xs - length ps)" using i by (simp add: e nth_append) (metis add.commute less_diff_conv2)
      finally have "c \<in> set s" using i by (metis add_diff_inverse_nat less_diff_conv2 nat_add_left_cancel_less not_less nth_mem)
      with c show ?thesis by simp
    qed
  qed
qed

lemma hideable_around:
  assumes "hideable s" "sublist s (p @ REDACTED @ q)"
  shows "sublist s p \<or> sublist s q"
proof -
  have r: "REDACTED = 60 # str ''redacted'' @ [62]" by (simp add: REDACTED_def)
  have "sublist s p \<or> sublist s (str ''redacted'' @ 62 # q)"
    using assms sublist_around [of s p 60 "str ''redacted'' @ 62 # q"] by (simp add: r hideable_def del: str_simps)
  then show ?thesis using assms(1) sublist_around [of s "str ''redacted''" 62 q] by (auto simp: hideable_def simp del: str_simps)
qed

text \<open>Replacing one credential brings back no other, and leaves none of its own.\<close>

lemma replace_keeps_absent:
  "hideable s \<Longrightarrow> sublist s (p @ replace_str pat REDACTED t) \<Longrightarrow> sublist s (p @ t)"
proof (induction pat "REDACTED" t arbitrary: p rule: replace_str.induct)
  case (2 pat c cs)
  show ?case
  proof (cases "pat \<noteq> [] \<and> prefix pat (c # cs)")
    case True
    let ?rest = "drop (length pat) (c # cs)"
    have "sublist s p \<or> sublist s (replace_str pat REDACTED ?rest)"
      using 2 True by (intro hideable_around) auto
    then show ?thesis
    proof
      assume "sublist s (replace_str pat REDACTED ?rest)"
      then have "sublist s ?rest" using 2(1) [OF True, of "[]"] 2(3) by simp
      moreover have "sublist ?rest (p @ c # cs)"
        by (metis append_assoc append_take_drop_id sublist_appendI append_Nil2)
      ultimately show ?thesis by (rule sublist_order.order_trans)
    qed (metis sublist_appendI append_Nil sublist_order.order_trans)
  next
    case False
    then show ?thesis using 2(2) [OF False, of "p @ [c]"] 2(3,4) by auto
  qed
qed simp

lemma replace_leaves_none:
  "hideable pat \<Longrightarrow> (\<And>i. i < length p \<Longrightarrow> \<not> prefix pat (drop i (p @ t))) \<Longrightarrow> \<not> sublist pat (p @ replace_str pat REDACTED t)"
proof (induction pat "REDACTED" t arbitrary: p rule: replace_str.induct)
  case (1 pat)
  show ?case
  proof
    assume "sublist pat (p @ replace_str pat REDACTED [])"
    then obtain ps ss where p: "p = ps @ pat @ ss" by (auto simp: sublist_def)
    then show False using 1(2) [of "length ps"] 1(1) by (simp add: hideable_def)
  qed
next
  case (2 pat c cs)
  show ?case
  proof (cases "pat \<noteq> [] \<and> prefix pat (c # cs)")
    case True
    show ?thesis
    proof
      assume "sublist pat (p @ replace_str pat REDACTED (c # cs))"
      then have "sublist pat p \<or> sublist pat (replace_str pat REDACTED (drop (length pat) (c # cs)))"
        using True 2(3) by (intro hideable_around) auto
      moreover have "\<not> sublist pat p"
      proof
        assume "sublist pat p"
        then obtain ps ss where p: "p = ps @ pat @ ss" by (auto simp: sublist_def)
        then show False using 2(4) [of "length ps"] True by simp
      qed
      moreover have "\<not> sublist pat (replace_str pat REDACTED (drop (length pat) (c # cs)))"
        using 2(1) [OF True, of "[]"] 2(3) by simp
      ultimately show False by simp
    qed
  next
    case False
    have "\<not> prefix pat (drop i ((p @ [c]) @ cs))" if "i < length (p @ [c])" for i
      using that 2(4) [of i] False 2(3) by (cases "i < length p") (auto simp: hideable_def less_Suc_eq)
    then show ?thesis using 2(2) [OF False, of "p @ [c]"] 2(3) False by auto
  qed
qed

lemma redact_simps [simp]: "redact [] t = t"
  "redact (s # ss) t = redact ss (if sublist s t then replace_str s REDACTED t else t)"
  by (simp_all add: redact_def)

lemma redact_keeps_absent:
  "hideable s \<Longrightarrow> sublist s (redact secrets t) \<Longrightarrow> sublist s t"
proof (induction secrets arbitrary: t)
  case (Cons x xs)
  then have "sublist s (if sublist x t then replace_str x REDACTED t else t)" by simp
  then show ?case using replace_keeps_absent [OF Cons.prems(1), of "[]" x t] by (auto split: if_splits)
qed simp

lemma redact_leaves_none:
  assumes "s \<in> set secrets" "hideable s"
  shows "\<not> sublist s (redact secrets t)"
  using assms(1)
proof (induction secrets arbitrary: t)
  case (Cons x xs)
  show ?case
  proof (cases "s = x")
    case True
    have "\<not> sublist s (if sublist x t then replace_str x REDACTED t else t)"
      using replace_leaves_none [OF assms(2), of "[]" t] by (simp add: True)
    then show ?thesis using redact_keeps_absent [OF assms(2)] by auto
  next
    case False
    then show ?thesis using Cons by auto
  qed
qed simp

definition credential :: "(rstr \<Rightarrow> parsed_url option) \<Rightarrow> rstr \<Rightarrow> rstr option list \<Rightarrow> rstr \<Rightarrow> rstr \<Rightarrow> bool" where
  "credential parse_url api_key headers url s \<longleftrightarrow> s \<noteq> [] \<and> (s = api_key \<or> 4 \<le> utf8_len s \<and>
     (s = url \<or> Some s \<in> set headers
      \<or> (case parse_url url of None \<Rightarrow> False
         | Some p \<Rightarrow> s = pu_text p \<or> s \<in> set (pu_values p)
             \<or> (case pu_query p of None \<Rightarrow> False | Some q \<Rightarrow> s \<in> query_value ` set (split_at_char 38 q)))))"

lemma set_somes: "s \<in> set (List.map_filter (\<lambda>v. v) xs) \<longleftrightarrow> Some s \<in> set xs"
  by (induction xs) (auto simp: List.map_filter_simps split: option.split)

lemma credential_redacted:
  "credential parse_url api_key headers url s \<Longrightarrow> s \<in> set (redactor_new parse_url api_key (Some headers) url)"
  by (cases "parse_url url")
    (auto simp: credential_def redactor_new_def Let_def MIN_REDACT_LEN_def set_somes split: option.splits)

text \<open>No credential of a hop is left in a text that was redacted, neither one that stood there nor one
  that the replacement of another put together: the key at any length; the URL, the header values and the
  values of the query string, raw and decoded, from four bytes on.\<close>

theorem redacted_hides_credentials:
  assumes "credential parse_url api_key headers url s" "hideable s"
  shows "\<not> sublist s (redact (redactor_new parse_url api_key (Some headers) url) t)"
  by (rule redact_leaves_none [OF credential_redacted [OF assms(1)] assms(2)])

theorem redacted_hides_credentials_witness:
  "\<not> sublist (str ''sk-1'') (redact (redactor_new (\<lambda>_. None) (str ''sk-1'') (Some []) (str ''https://x'')) (str ''bad key sk-1''))"
  by (rule redacted_hides_credentials) (simp_all add: credential_def hideable_def sublist_Cons_right)

end
