(* ===== verification/Byok_Laws.thy ===== *)
theory Byok_Laws
  imports Byok_Turn Byok_Guard_Laws Model_Select_Laws
begin

text \<open>
  A turn on a caller's own keys as a whole: who gets one, where its requests go, what is refused without
  showing what, and that its strip rules shrink.
\<close>

unbundle bit_operations_syntax

section \<open>Admission\<close>

lemma fold_or_xor_0:
  "fold (\<lambda>(x, y) acc. acc OR (x XOR y)) ps (a :: 8 word) = 0 \<longleftrightarrow> a = 0 \<and> list_all (\<lambda>(x, y). x = y) ps"
proof (induction ps arbitrary: a)
  case (Cons p ps)
  have "a OR (x XOR y) = 0 \<longleftrightarrow> a = 0 \<and> x = y" for x y :: "8 word"
    by (auto simp: bit_eq_iff bit_or_iff bit_xor_iff)
  then show ?case using Cons by (cases p) auto
qed simp

lemma constant_time_eq_iff: "constant_time_eq a b \<longleftrightarrow> a = b"
proof -
  have "list_all (\<lambda>(x, y). x = y) (zip a b) \<longleftrightarrow> a = b" if "length a = length b"
    using that by (induction a b rule: list_induct2) auto
  then show ?thesis by (auto simp: constant_time_eq_def fold_or_xor_0)
qed

lemma as_bytes_length: "length (as_bytes s) = utf8_len s"
proof -
  have "length (utf8_bytes c) = utf8_width c" for c by (simp add: utf8_bytes_def utf8_width_def)
  then show ?thesis by (simp add: as_bytes_def length_concat utf8_len_def comp_def)
qed

text \<open>On a deployment that boots, a caller is served on its own keys exactly when the secret is set and
  sent, byte for byte; a request without the header never is. Admission comes before validation: without the
  secret the answer is 403 and says nothing of the request, with it a refused request is answered 400.\<close>

theorem byok_admission_exact:
  "case parse_byok_config secret allow of
     Inl _ \<Rightarrow> True
   | Inr cfg \<Rightarrow>
      (case bc_caller_secret cfg of
         None \<Rightarrow> admit_and_prepare rd cfg cursor sent req
           = Inl (pre_error 403 (str ''byok_forbidden'') (str ''byok is not enabled on this deployment''))
       | Some s \<Rightarrow> 32 \<le> length (as_bytes s) \<and> admit_and_prepare rd cfg cursor sent req =
           (if sent \<noteq> Some (as_bytes s)
            then Inl (pre_error 403 (str ''byok_forbidden'') (str ''byok caller secret missing or wrong''))
            else map_sum (pre_error 400 (str ''invalid_payload'')) (\<lambda>t. t) (prepare rd req cfg cursor)))"
proof (cases "parse_byok_config secret allow")
  case (Inr cfg)
  show ?thesis
  proof (cases "bc_caller_secret cfg")
    case None
    then show ?thesis by (simp add: Inr admit_and_prepare_def admit_def del: str_simps)
  next
    case (Some s)
    then have len: "32 \<le> length (as_bytes s)"
      using Inr by (auto simp: parse_byok_config_def Let_def as_bytes_length MIN_BYOK_CALLER_SECRET_LEN_def
          split: option.splits if_splits)
    then have "as_bytes s \<noteq> []" by auto
    then show ?thesis using len
      by (auto simp: Inr Some admit_and_prepare_def admit_def constant_time_eq_iff simp del: str_simps split: option.split sum.split)
  qed
qed simp

section \<open>Where a turn's requests go\<close>

lemma check_all_Inr: "check_all f xs = Inr () \<longleftrightarrow> (\<forall>x \<in> set xs. f x = Inr ())"
  by (induction xs) (auto split: sum.split)

definition endpoint_checked :: "readers \<Rightarrow> bool \<Rightarrow> rstr \<Rightarrow> bool" where
  "endpoint_checked rd allow_private raw \<longleftrightarrow> (case rd_url rd raw of
     None \<Rightarrow> False
   | Some url \<Rightarrow> (ur_scheme url = str ''https'' \<or> ur_scheme url = str ''http'' \<and> allow_private)
       \<and> ur_username url = [] \<and> ur_password url = None
       \<and> (case ur_host url of None \<Rightarrow> False
          | Some host \<Rightarrow> (case rd_ip rd (trim_brackets host) of None \<Rightarrow> True | Some ip \<Rightarrow> allow_private \<or> address_allowed ip)))"

lemma check_url_Inr: "check_url rd scope raw allow = Inr () \<Longrightarrow> endpoint_checked rd allow raw"
  by (auto simp: check_url_def endpoint_checked_def simp del: str_simps split: option.splits if_splits)

lemma endpoint_of_Inr:
  "endpoint_of rd scope p = Inr e \<Longrightarrow> pe_base_url e = bp_chat p \<and> pe_api_key e = bp_api_key p \<and> bp_api_key p \<noteq> []
     \<and> pe_headers e = (case bp_headers p of Some h \<Rightarrow> h | None \<Rightarrow> [])"
  by (auto simp: endpoint_of_def Let_def split: if_splits option.splits sum.splits prod.splits)

lemma endpoints_of_Inr:
  "endpoints_of rd allow ps = Inr eps \<Longrightarrow> map fst eps = map fst ps
     \<and> (\<forall>(name, p) \<in> set ps. name \<noteq> str ''openrouter'')
     \<and> (\<forall>name e. map_of eps name = Some e \<longrightarrow> (\<exists>p. map_of ps name = Some p \<and> pe_base_url e = bp_chat p
          \<and> pe_api_key e = bp_api_key p \<and> bp_api_key p \<noteq> [] \<and> endpoint_checked rd allow (bp_chat p)))"
proof (induction ps arbitrary: eps)
  case (Cons np ps)
  obtain name p where np: "np = (name, p)" by force
  have v: "valid_provider_name name" using Cons.prems by (auto simp: np split: if_splits)
  let ?scope = "str ''byok.providers.'' @ name"
  have u: "check_url rd ?scope (bp_chat p) allow = Inr ()"
    using Cons.prems v by (auto simp: np Let_def simp del: str_simps split: sum.splits)
  obtain e where e: "endpoint_of rd ?scope p = Inr e"
    using Cons.prems v u by (auto simp: np Let_def simp del: str_simps split: sum.splits)
  obtain es where es: "endpoints_of rd allow ps = Inr es" "eps = (name, e) # es"
    using Cons.prems v u e by (cases "endpoints_of rd allow ps") (auto simp: np Let_def simp del: str_simps)
  show ?case using Cons.IH [OF es(1)] endpoint_of_Inr [OF e] check_url_Inr [OF u] v
    by (auto simp: np es(2) valid_provider_name_def simp del: str_simps)
qed simp

lemma check_slug_Inr:
  "check_slug field s providers = Inr () \<Longrightarrow> \<exists>mid p. split_model_slug s = Inr (mid, Some p) \<and> mid \<noteq> [] \<and> p \<in> fst ` set providers"
  by (auto simp: check_slug_def simp del: str_simps split: if_splits sum.splits option.splits)

lemma prepare_InrD:
  assumes "prepare rd req cfg cursor = Inr t"
  obtains endpoints where
    "endpoints_of rd (bc_allow_private_network cfg) (by_providers req) = Inr endpoints"
    "\<And>s. s \<in> set (slugs_of (by_model req)) \<union> set (fallbacks_of (by_fallback req)) \<Longrightarrow> \<exists>mid p. split_model_slug s = Inr (mid, Some p) \<and> mid \<noteq> [] \<and> p \<in> fst ` set (by_providers req)"
    "slugs_of (by_model req) \<noteq> []" "length (slugs_of (by_model req)) \<le> 8" "length (fallbacks_of (by_fallback req)) \<le> 8"
    "compile_rules rd (case by_output_regex req of Some rs \<Rightarrow> rs | None \<Rightarrow> []) (chain_ids_of req) = Inr (bt_rules t)"
    "bt_model t = turn_model (by_model req) cursor" "bt_fallback t = fallbacks_of (by_fallback req)"
    "bt_client t = byok_client (map_of endpoints)" "bt_fallback_to_platform t = by_fallback_to_platform req"
proof -
  note d = assms [unfolded prepare_def Let_def]
  obtain endpoints where e: "endpoints_of rd (bc_allow_private_network cfg) (by_providers req) = Inr endpoints"
    using d by (auto simp del: str_simps split: if_splits sum.splits)
  have c: "check_count (str ''byok.model'') (length (slugs_of (by_model req))) = Inr ()"
    using d e by (auto simp del: str_simps split: if_splits sum.splits)
  have m: "check_all (\<lambda>s. check_slug (str ''byok.model'') s (by_providers req)) (slugs_of (by_model req)) = Inr ()"
    using d e c by (auto simp del: str_simps split: if_splits sum.splits)
  have w: "check_weights (by_model req) = Inr ()" using d e c m by (auto simp del: str_simps split: if_splits sum.splits)
  have n: "length (fallbacks_of (by_fallback req)) \<le> 8"
    using d e c m w by (auto simp: MAX_MODELS_def simp del: str_simps split: if_splits sum.splits)
  have f: "check_all (\<lambda>s. check_slug (str ''byok.fallback'') s (by_providers req)) (fallbacks_of (by_fallback req)) = Inr ()"
    using d e c m w by (auto simp del: str_simps split: if_splits sum.splits)
  have r: "compile_rules rd (case by_output_regex req of Some rs \<Rightarrow> rs | None \<Rightarrow> []) (chain_ids_of req) = Inr (bt_rules t)"
    "bt_model t = turn_model (by_model req) cursor" "bt_fallback t = fallbacks_of (by_fallback req)"
    "bt_client t = byok_client (map_of endpoints)" "bt_fallback_to_platform t = by_fallback_to_platform req"
    using d e c m w f by (auto simp del: str_simps split: if_splits sum.splits)
  show ?thesis
    using that [OF e _ _ _ n r] m f c check_slug_Inr
    by (fastforce simp: check_all_Inr check_count_def MAX_MODELS_def simp del: str_simps split: if_splits)
qed

lemma byok_resolve:
  assumes "split_model_slug s = Inr (mid, Some p)" "p \<noteq> str ''openrouter''" "providers p = Some e" "pe_api_key e \<noteq> []"
  shows "resolve_endpoint (openrouter_client.truncate (byok_client providers)) s
    = Inr (mid, \<lparr>ep_url = pe_base_url e, ep_api_key = pe_api_key e, ep_name = Some p, ep_headers = Some (pe_headers e)\<rparr>)"
  using assms by (simp add: resolve_endpoint_def byok_client_def openrouter_client.truncate_def del: str_simps)

lemma candidate_ids_turn: "set (candidate_ids (turn_model model cursor)) \<subseteq> set (slugs_of model)"
  by (cases model) (auto simp: turn_model_def candidate_ids_def slugs_of_def)

lemma select_slugs_within:
  "set (fst (select_slugs draw b)) \<subseteq> set (candidate_ids (bt_model b)) \<union> set (bt_fallback b)"
  using select_model_mem [of draw "bt_model b"]
  by (auto simp: select_slugs_def split: prod.split option.split dest!: in_set_takeD)

text \<open>The endpoint a slug of a turn posts to is one the request declared, as it was checked.\<close>

definition own_endpoint :: "readers \<Rightarrow> byok_request \<Rightarrow> bool \<Rightarrow> stream_client \<Rightarrow> rstr \<Rightarrow> bool" where
  "own_endpoint rd req allow client slug \<longleftrightarrow> (case resolve_endpoint (openrouter_client.truncate client) slug of
     Inl _ \<Rightarrow> False
   | Inr (mid, ep) \<Rightarrow> (case ep_name ep of
       None \<Rightarrow> False
     | Some name \<Rightarrow> (case map_of (by_providers req) name of
         None \<Rightarrow> False
       | Some p \<Rightarrow> ep_url ep = bp_chat p \<and> ep_api_key ep = bp_api_key p \<and> endpoint_checked rd allow (ep_url ep))))"

lemma prepared_slug:
  assumes "prepare rd req cfg cursor = Inr t" "slug \<in> set (slugs_of (by_model req)) \<union> set (fallbacks_of (by_fallback req))"
  shows "own_endpoint rd req (bc_allow_private_network cfg) (bt_client t) slug"
proof -
  from assms(1) obtain endpoints where
    e: "endpoints_of rd (bc_allow_private_network cfg) (by_providers req) = Inr endpoints" and
    s: "\<exists>mid p. split_model_slug slug = Inr (mid, Some p) \<and> mid \<noteq> [] \<and> p \<in> fst ` set (by_providers req)" and
    c: "bt_client t = byok_client (map_of endpoints)"
    by (rule prepare_InrD) (use assms(2) in blast)
  from s obtain mid p where p: "split_model_slug slug = Inr (mid, Some p)" "p \<in> fst ` set (by_providers req)" by blast
  note E = endpoints_of_Inr [OF e]
  have "p \<in> fst ` set endpoints" using p(2) E by (metis list.set_map)
  then obtain ep where ep: "map_of endpoints p = Some ep" by (metis map_of_eq_None_iff option.exhaust)
  then obtain q where q: "map_of (by_providers req) p = Some q" "pe_base_url ep = bp_chat q" "pe_api_key ep = bp_api_key q"
    "bp_api_key q \<noteq> []" "endpoint_checked rd (bc_allow_private_network cfg) (bp_chat q)" using E by blast
  have "p \<noteq> str ''openrouter''" using p(2) E by fastforce
  from byok_resolve [where providers = "map_of endpoints", OF p(1) this ep] q show ?thesis by (simp add: own_endpoint_def c)
qed


definition plain_readers :: readers where
  "plain_readers = \<lparr>rd_url = (\<lambda>_. Some \<lparr>ur_scheme = str ''https'', ur_username = [], ur_password = None, ur_host = Some (str ''h'')\<rparr>),
     rd_ip = (\<lambda>_. None), rd_header_name = (\<lambda>_. True), rd_header_value = (\<lambda>_. True),
     rd_compile = (\<lambda>p. Inr (\<lambda>rep. \<lparr>rx_find = (\<lambda>_. None), rx_replace_all = (\<lambda>x. if x = p then rep else x), rx_replace = (\<lambda>x. x)\<rparr>)),
     rd_minimum_len = (\<lambda>p. Some (Some (utf8_len p)))\<rparr>"

definition one_key :: byok_request where
  "one_key = \<lparr>by_providers = [(str ''mine'', \<lparr>bp_chat = str ''https://h/c'', bp_api_key = str ''k'', bp_headers = None\<rparr>)],
     by_model = BFixed (str ''m@mine''), by_fallback = None, by_retry_depth = None,
     by_output_regex = Some [\<lparr>br_pattern = str ''abc'', br_replacement = Some (str ''x''), br_models = None\<rparr>],
     by_fallback_to_platform = False\<rparr>"

definition plain_ask :: chat_request where
  "plain_ask = \<lparr>req_model = str ''p'', req_fallback_model = [], req_messages = [], req_temperature = f64_of_int 1,
     req_sampling = no_sampling, req_max_tokens = 10, req_user = None, req_session_id = None,
     req_metadata = None, req_response_format = None, req_task = None\<rparr>"

definition no_private :: byok_config where
  "no_private = \<lparr>bc_caller_secret = None, bc_allow_private_network = False\<rparr>"

lemma one_key_stages:
  "\<exists>eps. endpoints_of plain_readers False (by_providers one_key) = Inr eps"
  "check_slug field (str ''m@mine'') (by_providers one_key) = Inr ()"
  "\<exists>r. compile_rules plain_readers (the (by_output_regex one_key)) ids = Inr [r]"
proof -
  have split: "split_model_slug (str ''m@mine'') = Inr (str ''m'', Some (str ''mine''))"
    using slug_roundtrip_bare [of "str ''m''" "str ''mine''"] by simp
  then show "check_slug field (str ''m@mine'') (by_providers one_key) = Inr ()"
    by (simp add: check_slug_def one_key_def MAX_SLUG_LEN_def utf8_width_def str_inj del: str_simps)
      (simp add: utf8_width_def)
  show "\<exists>eps. endpoints_of plain_readers False (by_providers one_key) = Inr eps"
    by (simp add: one_key_def plain_readers_def valid_provider_name_def check_url_def endpoint_of_def Let_def
        MAX_PROVIDER_NAME_LEN_def MAX_URL_LEN_def MAX_KEY_LEN_def MAX_HEADERS_def is_ascii_digit_def utf8_width_def)
  show "\<exists>r. compile_rules plain_readers (the (by_output_regex one_key)) ids = Inr [r]"
    by (simp add: one_key_def plain_readers_def compile_rules_def compile_rule_def Let_def MAX_REGEX_RULES_def MAX_PATTERN_CHARS_def
        MAX_REPLACEMENT_CHARS_def replacement_is_non_growing_def utf8_width_def)
qed

lemma one_key_prepared:
  obtains t r where "prepare plain_readers one_key no_private 0 = Inr t" "bt_rules t = [r]"
proof -
  obtain eps where e: "endpoints_of plain_readers False (by_providers one_key) = Inr eps" using one_key_stages(1) by blast
  obtain r where r: "compile_rules plain_readers (the (by_output_regex one_key)) (chain_ids_of one_key) = Inr [r]"
    using one_key_stages(3) by blast
  have "slugs_of (by_model one_key) = [str ''m@mine'']" "by_fallback one_key = None" "length (by_providers one_key) = 1"
    "by_output_regex one_key = Some (the (by_output_regex one_key))" "check_weights (by_model one_key) = Inr ()"
    by (simp_all add: one_key_def slugs_of_def check_weights_def)
  then have "\<exists>t. prepare plain_readers one_key no_private 0 = Inr t \<and> bt_rules t = [r]"
    using e r one_key_stages(2)
    by (auto simp: prepare_def no_private_def fallbacks_of_def check_count_def MAX_MODELS_def MAX_PROVIDERS_def Let_def
        simp del: str_simps split: option.split)
  then show ?thesis using that by blast
qed


section \<open>Refusals\<close>

text \<open>Everything a refusal may say: fixed sentences, the names of providers and headers, the number of a rule
  and what the regex compiler says of its pattern. No URL, key, header value or model is an argument.\<close>

definition header_refusals :: "rstr \<Rightarrow> rstr \<Rightarrow> rstr list" where
  "header_refusals scope h =
     [scope @ str ''.headers: value for `'' @ h @ str ''` exceeds 1024 bytes'',
      (scope @ str ''.headers'') @ str '': `'' @ h @ str ''` is engine-owned '' @ [8212]
        @ str '' the engine sets Authorization from the provider'' @ [39]
        @ str ''s API key and Content-Type from the request body; it cannot be overridden'',
      (scope @ str ''.headers'') @ str '': `'' @ h @ str ''` is not a valid HTTP header name'',
      (scope @ str ''.headers'') @ str '': value for `'' @ h @ str ''` is not a valid HTTP header value'']"

definition provider_refusals :: "rstr \<Rightarrow> rstr list \<Rightarrow> rstr list" where
  "provider_refusals name header_names =
     (let scope = str ''byok.providers.'' @ name
      in map (\<lambda>m. scope @ m) [str ''.chat: longer than 2048 bytes'', str ''.chat: not a valid URL'', str ''.chat: scheme must be https'',
            str ''.chat: credentials inside the URL are not accepted'', str ''.chat: URL has no host'',
            str ''.chat: destination address not allowed'', str ''.api_key: 1..=1024 bytes of valid header text required'',
            str ''.headers: at most 8 entries'']
         @ concat (map (header_refusals scope) header_names))"

definition rule_refusals :: "nat \<Rightarrow> rstr option \<Rightarrow> rstr list" where
  "rule_refusals i compile_error =
     (let loc = str ''byok.output_regex['' @ decimal i @ str '']''
      in map (\<lambda>m. loc @ m) [str ''.pattern: 1..=512 chars required'', str ''.replacement: at most 512 chars'',
            str ''.models: at most 8 entries of at most 256 bytes'',
            str ''.replacement: must contain no `$` and be no longer in bytes than the shortest text the pattern can match'']
         @ (case compile_error of None \<Rightarrow> [] | Some e \<Rightarrow> [loc @ str ''.pattern: '' @ e]))"

definition fixed_refusals :: "rstr list" where
  "fixed_refusals = [str ''byok.providers: 1..=4 entries required'', NAMES_REFUSED, str ''byok.model: 1..=8 entries required'',
     str ''byok.model: every model is at most 256 bytes'',
     str ''byok.model: every model must end in @<name> naming one of byok.providers'',
     str ''byok.model: weights must be finite, greater than 0, and sum to a finite total'',
     str ''byok.fallback: at most 8 entries'', str ''byok.fallback: every model is at most 256 bytes'',
     str ''byok.fallback: every model must end in @<name> naming one of byok.providers'',
     str ''byok.output_regex: at most 16 rules'']"

definition header_names :: "byok_provider \<Rightarrow> rstr list" where
  "header_names p = map fst (case bp_headers p of Some h \<Rightarrow> h | None \<Rightarrow> [])"

definition compile_error :: "readers \<Rightarrow> byok_regex_rule \<Rightarrow> rstr option" where
  "compile_error rd r = (case rd_compile rd (br_pattern r) of Inl e \<Rightarrow> Some e | Inr _ \<Rightarrow> None)"

definition refusal_texts :: "(rstr \<times> rstr list) list \<Rightarrow> rstr option list \<Rightarrow> rstr set" where
  "refusal_texts names compile_errors =
     set fixed_refusals \<union> (\<Union>(n, hs) \<in> set names. set (provider_refusals n hs))
     \<union> (\<Union>i < length compile_errors. set (rule_refusals i (compile_errors ! i)))"

lemma check_url_Inl: "check_url rd (str ''byok.providers.'' @ name) raw allow = Inl m \<Longrightarrow> m \<in> set (provider_refusals name hs)"
  by (auto simp: check_url_def provider_refusals_def Let_def simp del: str_simps split: if_splits option.splits)

lemma check_header_pairs_Inl:
  "check_header_pairs rd (scope @ str ''.headers'') hs = Inl m \<Longrightarrow> \<exists>h \<in> fst ` set hs. m \<in> set (header_refusals scope h)"
proof (induction hs)
  case (Cons h hs)
  then show ?case by (cases h) (auto simp: Let_def header_refusals_def simp del: str_simps split: if_splits)
qed simp

lemma endpoint_of_Inl:
  assumes "endpoint_of rd (str ''byok.providers.'' @ name) p = Inl m"
  shows "m \<in> set (provider_refusals name (header_names p))"
proof -
  let ?hs = "case bp_headers p of Some h \<Rightarrow> h | None \<Rightarrow> []"
  let ?scope = "str ''byok.providers.'' @ name"
  let ?found = "List.find (\<lambda>(_, v). MAX_HEADER_VALUE_LEN < utf8_len v) ?hs"
  have of_header: "t \<in> set (provider_refusals name (header_names p))"
    if "h \<in> fst ` set ?hs" "t \<in> set (header_refusals ?scope h)" for h t
    using that unfolding provider_refusals_def header_names_def Let_def set_append set_concat list.set_map by blast
  consider (key) "m = ?scope @ str ''.api_key: 1..=1024 bytes of valid header text required''"
    | (many) "m = ?scope @ str ''.headers: at most 8 entries''"
    | (long) h v where "?found = Some (h, v)" "m = ?scope @ str ''.headers: value for `'' @ h @ str ''` exceeds 1024 bytes''"
    | (pairs) "check_header_pairs rd (?scope @ str ''.headers'') ?hs = Inl m"
    using assms unfolding endpoint_of_def Let_def
    by (cases ?found) (auto simp del: str_simps split: if_splits sum.splits)
  then show ?thesis
  proof cases
    case long
    then have "(h, v) \<in> set ?hs" by (metis find_Some_iff nth_mem)
    then have "h \<in> fst ` set ?hs" by force
    then show ?thesis using long(2) by (intro of_header) (auto simp: header_refusals_def simp del: str_simps)
  next
    case pairs
    from check_header_pairs_Inl [OF this] show ?thesis by (blast intro: of_header)
  qed (simp_all add: provider_refusals_def Let_def del: str_simps)
qed

lemma endpoints_of_Inl:
  "endpoints_of rd allow ps = Inl m \<Longrightarrow> m = NAMES_REFUSED \<or> (\<exists>(n, p) \<in> set ps. m \<in> set (provider_refusals n (header_names p)))"
proof (induction ps)
  case (Cons np ps)
  obtain name p where np: "np = (name, p)" by force
  show ?case using Cons check_url_Inl [of rd name "bp_chat p" allow m "header_names p"] endpoint_of_Inl [of rd name p m]
    by (cases "endpoints_of rd allow ps") (auto simp: np Let_def simp del: str_simps split: if_splits sum.splits)
qed simp

lemma check_all_Inl: "check_all f xs = Inl m \<Longrightarrow> \<exists>x \<in> set xs. f x = Inl m"
  by (induction xs) (auto split: sum.splits)

lemma check_slug_Inl: "check_slug field s ps = Inl m \<Longrightarrow>
  m = field @ str '': every model is at most 256 bytes'' \<or> m = field @ str '': every model must end in @<name> naming one of byok.providers''"
  by (auto simp: check_slug_def simp del: str_simps split: if_splits sum.splits option.splits)

lemma compile_rule_Inl: "compile_rule rd ids i r = Inl m \<Longrightarrow> m \<in> set (rule_refusals i (compile_error rd r))"
  by (auto simp: compile_rule_def rule_refusals_def compile_error_def Let_def simp del: str_simps split: if_splits sum.splits option.splits)

lemma compile_from_Inl:
  "compile_from rd ids i rs = Inl m \<Longrightarrow> \<exists>k < length rs. m \<in> set (rule_refusals (i + k) (compile_error rd (rs ! k)))"
proof (induction rs arbitrary: i)
  case (Cons r rs)
  show ?case
  proof (cases "compile_rule rd ids i r")
    case (Inl e)
    then have "m \<in> set (rule_refusals i (compile_error rd r))" using Cons.prems compile_rule_Inl by auto
    then show ?thesis by (intro exI [of _ 0]) simp
  next
    case (Inr c)
    then have "compile_from rd ids (i + 1) rs = Inl m" using Cons.prems by (cases "compile_from rd ids (i + 1) rs") auto
    from Cons.IH [OF this] obtain k where "k < length rs" "m \<in> set (rule_refusals (i + 1 + k) (compile_error rd (rs ! k)))" by blast
    then show ?thesis by (intro exI [of _ "Suc k"]) simp
  qed
qed simp

text \<open>A refused request is answered with a sentence that depends on the names of its providers and
  headers and on what the regex compiler says of a pattern, and on nothing else: the sentences of
  \<open>refusal_texts\<close>, which takes no URL, key, header value or model.\<close>

theorem byok_refusals_hide_secrets:
  "case prepare rd req cfg cursor of
     Inr _ \<Rightarrow> True
   | Inl m \<Rightarrow> m \<in> refusal_texts (map (\<lambda>(n, p). (n, header_names p)) (by_providers req))
       (map (compile_error rd) (case by_output_regex req of Some rs \<Rightarrow> rs | None \<Rightarrow> []))"
proof (cases "prepare rd req cfg cursor")
  case (Inl m)
  let ?rules = "case by_output_regex req of Some rs \<Rightarrow> rs | None \<Rightarrow> []"
  let ?R = "refusal_texts (map (\<lambda>(n, p). (n, header_names p)) (by_providers req)) (map (compile_error rd) ?rules)"
  have fixed: "t \<in> ?R" if "t \<in> set fixed_refusals" for t using that by (simp add: refusal_texts_def)
  note d = Inl [unfolded prepare_def Let_def]
  have "m \<in> ?R"
  proof (cases "m \<in> set fixed_refusals")
    case False
    note other = False [unfolded fixed_refusals_def]
    have slugs: "check_all (\<lambda>s. check_slug field s (by_providers req)) xs \<noteq> Inl m" if "field \<in> {str ''byok.model'', str ''byok.fallback''}" for field xs
      using that other by (auto simp del: str_simps dest!: check_all_Inl check_slug_Inl) (simp_all add: str_def)
    have "check_count (str ''byok.model'') n \<noteq> Inl m" for n using other by (auto simp: check_count_def)
    moreover have "check_weights (by_model req) \<noteq> Inl m" using other
      by (auto simp: check_weights_def simp del: str_simps split: byok_model.splits if_splits)
    ultimately consider (endpoint) "endpoints_of rd (bc_allow_private_network cfg) (by_providers req) = Inl m"
      | (rules) "compile_from rd (chain_ids_of req) 0 ?rules = Inl m"
      using d other slugs unfolding compile_rules_def
      by (auto simp del: str_simps split: if_splits sum.splits)
    then show ?thesis
    proof cases
      case endpoint
      from endpoints_of_Inl [OF this] obtain n p where "(n, p) \<in> set (by_providers req)" "m \<in> set (provider_refusals n (header_names p))"
        using other by auto
      then show ?thesis by (force simp: refusal_texts_def)
    next
      case rules
      from compile_from_Inl [OF this] obtain k where "k < length ?rules" "m \<in> set (rule_refusals k (compile_error rd (?rules ! k)))" by auto
      then show ?thesis unfolding refusal_texts_def by (intro UnI2 UN_I [of k]) (simp_all add: nth_map)
    qed
  qed (rule fixed)
  then show ?thesis by (simp add: Inl)
qed simp

section \<open>Rules that shrink\<close>

text \<open>What the regex crate documents of \<open>replace_all\<close> with a replacement without \<open>$\<close>, and of the shortest match: a
  text falls into stretches, matched or not, and every matched one is replaced.\<close>

definition literal_replacement :: "(rstr \<Rightarrow> regex) \<Rightarrow> nat option \<Rightarrow> bool" where
  "literal_replacement rx shortest \<longleftrightarrow> (\<forall>rep x. 36 \<notin> set rep \<longrightarrow> (\<exists>ps.
     x = concat (map fst ps) \<and> rx_replace_all (rx rep) x = concat (map (\<lambda>(s, hit). if hit then rep else s) ps)
     \<and> (\<forall>(s, hit) \<in> set ps. hit \<longrightarrow> (case shortest of None \<Rightarrow> False | Some n \<Rightarrow> n \<le> utf8_len s))))"

definition regex_crate :: "readers \<Rightarrow> bool" where
  "regex_crate rd \<longleftrightarrow> (\<forall>p rx shortest. rd_compile rd p = Inr rx \<longrightarrow> rd_minimum_len rd p = Some shortest
     \<longrightarrow> literal_replacement rx shortest)"

lemma utf8_len_append [simp]: "utf8_len (s @ t) = utf8_len s + utf8_len t"
  by (simp add: utf8_len_def)

lemma literal_replacement_shrinks:
  assumes "literal_replacement rx shortest" "36 \<notin> set rep"
    and "case shortest of None \<Rightarrow> True | Some n \<Rightarrow> utf8_len rep \<le> n"
  shows "utf8_len (rx_replace_all (rx rep) x) \<le> utf8_len x"
proof -
  obtain ps where x: "x = concat (map fst ps)"
    and r: "rx_replace_all (rx rep) x = concat (map (\<lambda>(s, hit). if hit then rep else s) ps)"
    and hit: "\<forall>(s, hit) \<in> set ps. hit \<longrightarrow> (case shortest of None \<Rightarrow> False | Some n \<Rightarrow> n \<le> utf8_len s)"
    using assms(1,2) unfolding literal_replacement_def by blast
  from hit have "utf8_len (concat (map (\<lambda>(s, hit). if hit then rep else s) ps)) \<le> utf8_len (concat (map fst ps))"
  proof (induction ps)
    case (Cons p ps)
    obtain s b where p: "p = (s, b)" by force
    have "utf8_len (if b then rep else s) \<le> utf8_len s"
      using Cons.prems assms(3) by (auto simp: p split: option.splits)
    then show ?case using Cons by (simp add: p)
  qed simp
  then show ?thesis by (simp add: r) (simp add: x)
qed

definition shrinks :: "regex_rule \<Rightarrow> bool" where
  "shrinks r \<longleftrightarrow> (\<forall>x. utf8_len (rx_replace_all (rr_regex r) x) \<le> utf8_len x)"

lemma compile_rule_shrinks:
  assumes "regex_crate rd" "compile_rule rd ids i r = Inr c"
  shows "shrinks c"
proof -
  let ?rep = "case br_replacement r of Some t \<Rightarrow> t | None \<Rightarrow> []"
  obtain rx where rx: "rd_compile rd (br_pattern r) = Inr rx" "rr_regex c = rx ?rep"
    and g: "replacement_is_non_growing (rd_minimum_len rd) (br_pattern r) ?rep"
    using assms(2) unfolding compile_rule_def Let_def
    by (auto simp del: str_simps split: if_splits sum.splits)
  from g obtain shortest where s: "rd_minimum_len rd (br_pattern r) = Some shortest" "36 \<notin> set ?rep"
    "case shortest of None \<Rightarrow> True | Some n \<Rightarrow> utf8_len ?rep \<le> n"
    by (auto simp: replacement_is_non_growing_def split: if_splits option.splits)
  have "literal_replacement rx shortest" using assms(1) rx(1) s(1) by (auto simp: regex_crate_def)
  from literal_replacement_shrinks [OF this s(2,3)] show ?thesis by (simp add: shrinks_def rx(2))
qed

lemma compile_from_shrinks:
  "regex_crate rd \<Longrightarrow> compile_from rd ids i rs = Inr cs \<Longrightarrow> list_all shrinks cs"
proof (induction rs arbitrary: i cs)
  case (Cons r rs)
  then show ?case
    by (cases "compile_from rd ids (Suc i) rs") (auto dest: compile_rule_shrinks split: sum.splits)
qed simp

lemma apply_rules_shrinks:
  "list_all shrinks rules \<Longrightarrow> utf8_len (fst (apply_rules m i rules x hits)) \<le> utf8_len x"
proof (induction m i rules x hits rule: apply_rules.induct)
  case (2 m i rule rules cur hits)
  then show ?case
    by (cases "list_ex (\<lambda>k. k = m) (rr_models rule)"; cases "rx_replace_all (rr_regex rule) cur = cur")
      (auto simp: Let_def shrinks_def intro: order_trans)
qed simp

text \<open>However the caller's strip rules feed on each other's output, a reply never gets longer by them.\<close>

theorem byok_rules_never_lengthen:
  assumes "prepare rd req cfg cursor = Inr t" "regex_crate rd"
  shows "utf8_len (cleaned (apply_output_regex (bt_rules t) model reply)) \<le> utf8_len reply"
proof -
  from assms(1) have "compile_rules rd (case by_output_regex req of Some rs \<Rightarrow> rs | None \<Rightarrow> []) (chain_ids_of req) = Inr (bt_rules t)"
    by (rule prepare_InrD)
  then have "list_all shrinks (bt_rules t)"
    by (auto simp: compile_rules_def split: if_splits intro: compile_from_shrinks [OF assms(2)])
  from apply_rules_shrinks [OF this, of model 0 reply "[]"] show ?thesis
    by (auto simp: apply_output_regex_def Let_def split: prod.splits)
qed

lemma plain_regex_crate: "regex_crate plain_readers"
proof -
  have "\<exists>ps. x = concat (map fst ps) \<and> (if x = p then rep else x) = concat (map (\<lambda>(s, hit). if hit then rep else s) ps)
      \<and> (\<forall>(s, hit) \<in> set ps. hit \<longrightarrow> utf8_len p \<le> utf8_len s)" for p rep x :: rstr
    by (rule exI [of _ "[(x, x = p)]"]) auto
  then show ?thesis by (auto simp: regex_crate_def plain_readers_def literal_replacement_def)
qed

theorem byok_rules_never_lengthen_witness:
  "\<exists>t :: prepared_turn. bt_rules t \<noteq> [] \<and> utf8_len (cleaned (apply_output_regex (bt_rules t) (str ''m'') (str ''abc''))) \<le> utf8_len (str ''abc'')"
proof -
  obtain t r where t: "prepare plain_readers one_key no_private 0 = Inr t" "bt_rules t = [r]" by (rule one_key_prepared)
  from byok_rules_never_lengthen [OF t(1) plain_regex_crate, of "str ''m''" "str ''abc''"] t(2) show ?thesis by (intro exI [of _ t]) simp
qed

section \<open>What a call shows\<close>

definition body_texts :: "parsed_error_body \<Rightarrow> rstr list" where
  "body_texts b = pb_message b # List.map_filter (\<lambda>v. v) [pb_code b, pb_error_type b, pb_provider_code b]"

text \<open>The provider's words an error carries; one sentence is the engine's own.\<close>

definition provider_texts :: "llm_error \<Rightarrow> rstr list" where
  "provider_texts e = (case e of
     StatusErr _ b _ \<Rightarrow> body_texts b | ProviderErr b \<Rightarrow> if b = message_only STREAM_FINISH_ERROR then [] else body_texts b | StreamParseErr t \<Rightarrow> [t] | _ \<Rightarrow> [])"

definition call_errors :: "llm_error + (llm_error + delta_chunk) list \<Rightarrow> llm_error list" where
  "call_errors r = (case r of Inl e \<Rightarrow> [e] | Inr items \<Rightarrow> concat (map (\<lambda>i. case i of Inl e \<Rightarrow> [e] | Inr _ \<Rightarrow> []) items))"

lemma redact_body_texts: "t \<in> set (body_texts (redact_body secrets b)) \<Longrightarrow> \<exists>u. t = redact secrets u"
  by (auto simp: body_texts_def redact_body_def List.map_filter_simps split: option.splits)

text \<open>C20: On a caller's own key nothing the provider says comes back with a credential in it: no error of the
  call, neither a refusal nor an error inside the stream nor an event that does not parse, contains the key,
  the URL, a header value or a query value of the hop.\<close>

theorem byok_call_hides_credentials:
  assumes "oc_byok client" "resolve_endpoint (openrouter_client.truncate client) model = Inr (bare, ep)"
    and "ep_headers ep = Some hs" "credential (io_parse_url io) (ep_api_key ep) (map (\<lambda>h. Some (snd h)) hs) (ep_url ep) s" "hideable s"
  shows "list_all (\<lambda>e. list_all (\<lambda>t. \<not> sublist s t) (provider_texts e)) (call_errors (execute_stream_as sd io client req model))"
proof -
  obtain secrets where r: "hop_redactor io client ep = Some secrets" and s: "s \<in> set secrets"
    using assms credential_redacted [OF assms(4)] by (simp add: hop_redactor_def)
  have hidden: "\<not> sublist s (redact secrets u)" for u by (rule redact_leaves_none [OF s assms(5)])
  have cut: "\<not> sublist s (take n (redact secrets u))" for n u
    by (meson hidden prefix_imp_sublist sublist_order.order_trans take_is_prefix)
  have body: "list_all (\<lambda>t. \<not> sublist s t) (body_texts (redact_body secrets b))" for b
    using hidden redact_body_texts by (fastforce simp: list_all_iff)
  have event: "list_all (\<lambda>t. \<not> sublist s t) (provider_texts e)" if "read_event sd byok label (Some secrets) ev = Some (Inl e)" for byok label ev e
    using that body cut
    by (auto simp: read_event_def provider_texts_def redact_opt_def redact_body_opt_def Let_def simp del: str_simps
        split: sum.splits if_splits option.splits)
  have items: "list_all (\<lambda>t. \<not> sublist s t) (provider_texts e)"
    if "Inl e \<in> set (stream_items sd io client req ep header arrivals)" for e header arrivals
  proof -
    have "\<exists>ev label. read_event sd True label (Some secrets) ev = Some (Inl e)"
      using that assms(1) r unfolding stream_items_def Let_def
      by (auto simp: List.map_filter_def split: option.splits) metis
    then show ?thesis by (auto intro: event)
  qed
  show ?thesis
  proof (cases "model = []")
    case False
    show ?thesis
    proof (cases "io_post io ep (stream_body client req bare ep)")
      case (Opened header arrivals)
      then show ?thesis using False assms(2)
        by (auto simp: execute_stream_as_def call_errors_def list_all_iff [of _ "concat _"] intro!: items split: sum.splits)
    next
      case (Refused status retry chunks)
      then show ?thesis using False assms(2) r body
        by (simp add: execute_stream_as_def call_errors_def provider_texts_def refusal_def)
    qed (use False assms(2) in \<open>simp add: execute_stream_as_def call_errors_def provider_texts_def\<close>)
  qed (simp add: execute_stream_as_def call_errors_def provider_texts_def)
qed

definition echoing :: stream_io where
  "echoing = \<lparr>io_post = (\<lambda>ep _. Refused \<lparr>sc_code = 401, sc_text = []\<rparr> None [Some [1]]), io_text = (\<lambda>_. None),
     io_lossy = (\<lambda>_. str ''bad key sk-1''), io_events = (\<lambda>_. []), io_parse_url = (\<lambda>_. None), io_minted = []\<rparr>"

definition unread :: serde where
  "unread = \<lparr>sd_from_str = (\<lambda>_. None), sd_show = (\<lambda>_. []), sd_error = (\<lambda>_. [])\<rparr>"

definition mine :: stream_client where
  "mine = byok_client [str ''mine'' \<mapsto> \<lparr>pe_base_url = str ''https://h/c'', pe_api_key = str ''sk-1'', pe_headers = [], pe_body_rules = []\<rparr>]"

theorem byok_call_hides_credentials_witness:
  "list_all (\<lambda>e. list_all (\<lambda>t. \<not> sublist (str ''sk-1'') t) (provider_texts e))
     (call_errors (execute_stream_as unread echoing mine plain_ask (str ''m@mine'')))"
proof -
  have split: "split_model_slug (str ''m@mine'') = Inr (str ''m'', Some (str ''mine''))"
    using slug_roundtrip_bare [of "str ''m''" "str ''mine''"] by simp
  have r: "resolve_endpoint (openrouter_client.truncate mine) (str ''m@mine'')
      = Inr (str ''m'', \<lparr>ep_url = str ''https://h/c'', ep_api_key = str ''sk-1'', ep_name = Some (str ''mine''), ep_headers = Some []\<rparr>)"
    using byok_resolve [OF split, where providers = "[str ''mine'' \<mapsto> \<lparr>pe_base_url = str ''https://h/c'',
        pe_api_key = str ''sk-1'', pe_headers = [], pe_body_rules = []\<rparr>]"] by (simp add: mine_def)
  have h: "hideable (str ''sk-1'')" by (simp add: hideable_def sublist_Cons_right)
  show ?thesis
    by (rule byok_call_hides_credentials [OF _ r _ _ h]) (simp_all add: mine_def byok_client_def credential_def del: str_simps, simp)
qed

lemma redact_elsewhere: "(\<And>s. s \<in> set secrets \<Longrightarrow> \<not> set s \<subseteq> set t) \<Longrightarrow> redact secrets t = t"
proof (induction secrets)
  case (Cons s secrets)
  have "\<not> sublist s t" using Cons.prems [of s] set_mono_sublist [of s t] by auto
  then show ?case using Cons by simp
qed simp

lemma flatten_line_id: "10 \<notin> set t \<Longrightarrow> 13 \<notin> set t \<Longrightarrow> flatten_line t = t"
  by (induction t) (auto simp: flatten_line_def)


end
