(* ===== verification/Group_Turn.thy ===== *)
theory Group_Turn
  imports Group_Chat Chat_Turn Chat_Worker
begin

text \<open>
  A group turn (\<open>run_group_turn\<close> of \<open>crates/eros-engine-server/src/pipeline/group.rs\<close>, the director of
  \<open>group_director.rs\<close>): seating, casting, and the relay of the speakers. Each speaker is one burst of
  \<open>Chat_Burst\<close> under its own session. What the database and the models answer, the dice, the assembled requests
  and the composer's payload are the fields of \<open>group_env\<close>, by the position of the speaker in the cast. A
  failed write of the audit or of a marker is logged and ignored by the code.
\<close>

section \<open>How a speaker sees the group\<close>

record injected =
  inj_id :: uuid
  inj_role :: rstr
  inj_text :: rstr

record group_speaker_view =
  gv_group_session_id :: uuid
  gv_speaker_session_id :: uuid
  gv_names :: "uuid \<rightharpoonup> rstr"
  gv_block :: rstr

definition name_of :: "(uuid \<rightharpoonup> rstr) \<Rightarrow> uuid option \<Rightarrow> rstr" where
  "name_of names s = (case Option.bind s names of Some n \<Rightarrow> n | None \<Rightarrow> UNKNOWN_SPEAKER)"

text \<open>Whose line it is; a row of another role is not shown.\<close>

definition line_of :: "group_speaker_view \<Rightarrow> (uuid \<rightharpoonup> uuid option) \<Rightarrow> injected \<Rightarrow> line_speaker option" where
  "line_of view speakers m =
     (let speaker = (case speakers (inj_id m) of Some s \<Rightarrow> s | None \<Rightarrow> None)
      in if inj_role m = str ''user'' then Some SpkUser
         else if inj_role m = str ''assistant''
         then Some (case speaker of
             Some s \<Rightarrow> if s = gv_speaker_session_id view then SpkMe else SpkOther (name_of (gv_names view) (Some s))
           | None \<Rightarrow> SpkOther UNKNOWN_SPEAKER)
         else None)"

definition speaker_line :: "group_speaker_view \<Rightarrow> (uuid \<rightharpoonup> uuid option) \<Rightarrow> (uuid \<rightharpoonup> rstr) \<Rightarrow> injected \<Rightarrow> injected option" where
  "speaker_line view speakers own m = Option.bind (line_of view speakers m) (\<lambda>line.
     Option.bind (if line = SpkMe then own (inj_id m) else Some (inj_text m)) (\<lambda>text.
       if trim text = [] then None
       else (case render_line line text of (role, text) \<Rightarrow> Some \<lparr>inj_id = inj_id m, inj_role = role, inj_text = text\<rparr>)))"

definition speaker_view :: "injected list \<Rightarrow> injected list \<Rightarrow> (uuid \<rightharpoonup> uuid option) \<Rightarrow> group_speaker_view \<Rightarrow> injected list" where
  "speaker_view raw stripped speakers view =
     (let own = map_of (rev (map (\<lambda>m. (inj_id m, inj_text m)) stripped))
      in List.map_filter (speaker_line view speakers own) raw)"

definition group_block :: "rstr option \<Rightarrow> (rstr \<times> rstr option) list \<Rightarrow> rstr" where
  "group_block title others =
     [10, 10, 91, 32676, 32842, 93, 10]
     @ (case title of Some t \<Rightarrow> [20320, 29616, 22312, 22312, 32676, 32842, 12300] @ t @ [12301, 37324, 12290, 10] | None \<Rightarrow> [20320, 29616, 22312, 22312, 19968, 20010, 32676, 32842, 37324, 12290, 10])
     @ (if others = [] then [32676, 37324, 21482, 26377, 20320, 21644, 23545, 26041, 12290, 10]
        else [22312, 22330, 30340, 36824, 26377, 65306, 10] @ concat (map (\<lambda>(name, personality).
          case Option.bind (map_option trim personality) (\<lambda>p. if p \<noteq> [] then Some p else None) of
            Some p \<Rightarrow> [45, 32] @ name @ [65306] @ p @ [10]
          | None \<Rightarrow> [45, 32] @ name @ [10]) others))
     @ [21482, 35828, 20320, 33258, 24049, 30340, 35805, 65292, 19981, 26367, 21035, 20154, 35828, 35805, 65292, 19981, 22312, 24320, 22836, 20889, 21517, 23383, 12290]"

record group_row =
  gr_id :: uuid
  gr_role :: rstr
  gr_content :: rstr
  gr_channel :: "rstr option"
  gr_metadata :: "json option"
  gr_speaker_session_id :: "uuid option"

definition transcript_line :: "(uuid \<rightharpoonup> rstr) \<Rightarrow> group_row \<Rightarrow> rstr option" where
  "transcript_line names m =
     (if gr_role m = str ''user'' then Some ([29992, 25143, 65306] @ gr_content m)
      else if gr_role m = str ''assistant''
      then (let name = name_of names (gr_speaker_session_id m)
            in if trim (gr_content m) \<noteq> [] then Some (name @ [65306] @ gr_content m)
               else if (case gr_metadata m of Some md \<Rightarrow> json_get (str ''image'') md \<noteq> None | None \<Rightarrow> False)
               then Some (name @ [65306] @ [65288, 21457, 20102, 19968, 24352, 29031, 29255, 65289]) else None)
      else None)"

definition transcript_text :: "group_row list \<Rightarrow> (uuid \<rightharpoonup> rstr) \<Rightarrow> rstr" where
  "transcript_text rows names =
     join_with [10] (List.map_filter (transcript_line names) (filter (\<lambda>m. gr_channel m = None) rows))"

section \<open>The director\<close>

definition DIRECTOR_TASK :: rstr where "DIRECTOR_TASK = str ''group_director''"

record director_seat =
  ds_name :: rstr
  ds_personality :: "rstr option"
  ds_bond :: bond_label
  ds_chemistry :: chemistry_label
  ds_rung :: nat

definition seat_text :: "nat \<Rightarrow> director_seat \<Rightarrow> rstr" where
  "seat_text i s =
     [45, 32] @ handle i @ [65306]
     @ (case ds_personality s of
          Some p \<Rightarrow> if trim p \<noteq> [] then ds_name s @ [65288] @ trim p @ [65289] else ds_name s @ [32]
        | None \<Rightarrow> ds_name s @ [32])
     @ str ''bond='' @ bond_as_key (ds_bond s) @ str '' chemistry='' @ chem_as_key (ds_chemistry s)
     @ [32, 20146, 23494, 24230, 61, 31532, 32] @ decimal (ds_rung s) @ [32, 26723, 10]"

definition director_context :: "rstr option \<Rightarrow> director_seat list \<Rightarrow> bool \<Rightarrow> rstr \<Rightarrow> rstr list \<Rightarrow> rstr \<Rightarrow> rstr" where
  "director_context title seats img transcript mention_names latest =
     (case title of Some t \<Rightarrow> [91, 32676, 32842, 93, 32] @ t @ [10] | None \<Rightarrow> [])
     @ [91, 25104, 21592, 93, 10]
     @ concat (map (\<lambda>(i, s). seat_text i s) (enumerate 0 seats))
     @ [91, 22270, 29255, 33021, 21147, 93, 32, 26412, 36718, 21487, 21457, 22270, 61] @ (if img then [26159] else [21542]) @ [10]
     @ (if img
        then [91, 21516, 26694, 93, 32, 21457, 22270, 30340, 21457, 35328, 20154, 21487, 29992, 32, 119, 105, 116, 104, 32, 25351, 23450, 19968, 20301, 21516, 26694, 25104, 21592, 65288, 109, 49, 47, 109, 50, 47, 109, 51, 65289, 65292, 29420, 33258, 19968, 20154, 25110, 19981, 21457, 22270, 26102, 20026, 32, 110, 117, 108, 108, 10] else [])
     @ [91, 26368, 36817, 32676, 32842, 93, 10]
     @ (if trim transcript = [] then [65288, 26080, 65289] else transcript) @ [10]
     @ (if mention_names \<noteq> [] then [91, 29992, 25143, 28857, 21517, 93, 32] @ join_with [12289] mention_names @ [10] else [])
     @ [10, 91, 29992, 25143, 26368, 26032, 28040, 24687, 93, 10] @ latest"

definition nullable_string :: json where
  "nullable_string = JObj [(str ''type'', JArr [JStr (str ''string''), JStr (str ''null'')])]"

definition director_response_format :: "nat \<Rightarrow> json" where
  "director_response_format seat_count =
     (let handles = map (\<lambda>i. JStr (handle i)) [0..<seat_count];
          item_props = JObj
            [(str ''member'', JObj [(str ''type'', JStr (str ''string'')), (str ''enum'', JArr handles)]),
             (str ''action'', JObj [(str ''type'', JStr (str ''string'')),
                (str ''enum'', JArr (map JStr [str ''reply_text'', str ''reply_image'', str ''reply_text_image'']))]),
             (str ''inner_state'', nullable_string),
             (str ''reply_mode'', JObj [(str ''type'', JArr [JStr (str ''string''), JStr (str ''null'')]),
                (str ''enum'', JArr (map (\<lambda>m. JStr (reply_mode_as_str m)) [Listen, Follow, Ask, Judge] @ [JNull]))]),
             (str ''clothing'', nullable_string),
             (str ''with'', JObj [(str ''type'', JArr [JStr (str ''string''), JStr (str ''null'')]),
                (str ''enum'', JArr (handles @ [JNull]))])];
          required = (\<lambda>ks. (str ''required'', JArr (map JStr ks)));
          object = (\<lambda>ks props. JObj [(str ''type'', JStr (str ''object'')), (str ''additionalProperties'', JBool False),
             required ks, (str ''properties'', props)])
      in JObj [(str ''type'', JStr (str ''json_schema'')),
           (str ''json_schema'', JObj [(str ''name'', JStr (str ''group_director'')), (str ''strict'', JBool True),
              (str ''schema'', object [str ''speakers'', str ''reason''] (JObj
                 [(str ''speakers'', JObj [(str ''type'', JStr (str ''array'')),
                    (str ''items'', object [str ''member'', str ''action'', str ''inner_state'', str ''reply_mode'', str ''clothing'', str ''with''] item_props)]),
                  (str ''reason'', nullable_string)]))])])"

text \<open>The caps of an attempt, in seconds.\<close>

definition STREAM_OPEN_TIMEOUT :: nat where "STREAM_OPEN_TIMEOUT = 20"
definition STREAM_TOTAL_TIMEOUT :: nat where "STREAM_TOTAL_TIMEOUT = 120"

definition director_call :: "uuid \<Rightarrow> resolved_prompt \<Rightarrow> bool \<Rightarrow> rstr \<Rightarrow> nat \<Rightarrow> judge_call" where
  "director_call gid p structured ctx seat_count =
     \<lparr>jc_task = DIRECTOR_TASK, jc_session_id = Some gid, jc_chain = rp_model p # rp_fallback_model p,
      jc_system = rp_prompt p, jc_user = ctx, jc_temperature = rp_temperature p, jc_max_tokens = rp_max_tokens p,
      jc_sampling = rp_sampling p,
      jc_response_format = (if structured then Some (director_response_format seat_count) else None),
      jc_open_cap = STREAM_OPEN_TIMEOUT, jc_attempt_budget = STREAM_OPEN_TIMEOUT + STREAM_TOTAL_TIMEOUT\<rparr>"

definition run_director :: "(rstr \<Rightarrow> director_verdict option) \<Rightarrow> stream_fn \<Rightarrow> uuid \<Rightarrow> resolved_prompt \<Rightarrow> bool \<Rightarrow> rstr \<Rightarrow> nat
    \<Rightarrow> director_verdict judge_step list" where
  "run_director from_str up gid p structured ctx seat_count =
     reasoning_call (parse_verdict from_str) (director_call gid p structured ctx seat_count) up"

text \<open>The verdict as \<open>serde_json\<close> prints it.\<close>

definition director_action_as_str :: "director_action \<Rightarrow> rstr" where
  "director_action_as_str a = (case a of DirText \<Rightarrow> str ''reply_text'' | DirImage \<Rightarrow> str ''reply_image''
     | DirTextImage \<Rightarrow> str ''reply_text_image'')"

definition opt_json :: "rstr option \<Rightarrow> json" where
  "opt_json x = (case x of Some s \<Rightarrow> JStr s | None \<Rightarrow> JNull)"

definition director_entry_json :: "director_entry \<Rightarrow> json" where
  "director_entry_json e = JObj
     [(str ''member'', JStr (de_member e)), (str ''action'', JStr (director_action_as_str (Group_Chat.de_action e))),
      (str ''inner_state'', opt_json (de_inner_state e)), (str ''reply_mode'', opt_json (map_option reply_mode_as_str (de_reply_mode e))),
      (str ''clothing'', opt_json (de_clothing e)), (str ''with'', opt_json (de_with e))]"

definition director_audit_payload :: "director_verdict judge_run \<Rightarrow> json option" where
  "director_audit_payload run =
     (let reasoning = (if jr_reasoning run = [] then JNull else JStr (jr_reasoning run))
      in case (jr_verdict run, jr_raw run) of
           (Some v, _) \<Rightarrow> Some (JObj [(str ''speakers'', JArr (map director_entry_json (dv_speakers v))),
              (str ''reason'', opt_json (dv_reason v)), (str ''reasoning'', reasoning)])
         | (None, Some raw) \<Rightarrow> Some (JObj [(str ''raw'', JStr raw), (str ''reasoning'', reasoning)])
         | (None, None) \<Rightarrow> if jr_reasoning run \<noteq> [] then Some (JObj [(str ''reasoning'', reasoning)]) else None)"

section \<open>The turn and its surroundings\<close>

record group_turn =
  gt_group_session_id :: uuid
  gt_user_id :: uuid
  gt_user_message_id :: uuid
  gt_content :: rstr
  gt_title :: "rstr option"
  gt_members :: "(uuid \<times> uuid) list"
  gt_mentions :: "uuid list"
  gt_member_scopes :: "uuid \<rightharpoonup> memory_scope option \<times> affinity_scope option"
  gt_prompt_traits :: "prompt_trait list"
  gt_audit :: "llm_audit option"
  gt_tier :: "rstr option"
  gt_image :: "image_reply_params option"

record seat =
  st_member_session_id :: uuid
  st_instance_id :: uuid
  st_persona :: companion_persona
  st_affinity :: affinity
  st_signals :: conversation_signals

record image_companion_context =
  cx_name :: rstr
  cx_appearance :: "rstr option"
  cx_personality :: "rstr option"
  cx_speaker_name :: rstr

record group_spoken =
  gp_speaker_session_id :: uuid
  gp_instance_id :: uuid
  gp_name :: rstr
  gp_produced :: "produced_message list"

record director_event =
  dre_status :: rstr
  dre_payload :: "json option"
  dre_inputs :: json
  dre_generation_id :: "rstr option"
  dre_llm_attempts :: "upstream_attempt list option"
  dre_gateway_errors :: "gateway_error list option"

text \<open>The acts of a turn, its audit row, and the post-processing it starts: the members seated and who spoke.\<close>

datatype group_act = GAct turn_act | GDirector director_event | GPostProcess uuid uuid rstr "(uuid \<times> uuid) list" "group_spoken list"

text \<open>\<open>ge_aborted\<close> says whether a composer whose text failed had resolved its model before it was aborted.\<close>

record group_env =
  ge_persona :: "uuid \<Rightarrow> rstr + companion_persona option"
  ge_affinity :: "uuid \<Rightarrow> rstr + affinity option"
  ge_counted :: "uuid \<Rightarrow> (int \<times> instant option) option"
  ge_tuning :: affinity_tuning
  ge_now :: instant
  ge_config :: model_config
  ge_texts :: builtin_texts
  ge_draw :: "f64 \<Rightarrow> f64"
  ge_verdict :: "rstr \<Rightarrow> director_verdict option"
  ge_from_str :: "rstr \<Rightarrow> json option"
  ge_window :: "group_row list option"
  ge_speaker_names :: "uuid list \<Rightarrow> (uuid \<times> rstr) list option"
  ge_director :: stream_fn
  ge_dice :: "nat \<Rightarrow> nat \<Rightarrow> f64"
  ge_random :: "nat \<Rightarrow> f64"
  ge_compose :: "nat \<Rightarrow> nat \<Rightarrow> chat_request \<Rightarrow> reply_call"
  ge_payload :: "nat \<Rightarrow> action_plan \<Rightarrow> rstr \<Rightarrow> rstr \<Rightarrow> image_companion_context option \<Rightarrow> style_key \<Rightarrow> rstr option \<Rightarrow> rstr"
  ge_wrap :: "nat \<Rightarrow> style_key \<Rightarrow> rstr \<Rightarrow> rstr"
  ge_composer_text :: "rstr \<Rightarrow> rstr"
  ge_event_id :: "nat \<Rightarrow> uuid option"
  ge_aborted :: "nat \<Rightarrow> bool"
  ge_insert :: "nat \<Rightarrow> bool"
  ge_reply_request :: "nat \<Rightarrow> decision_input \<Rightarrow> action_plan \<Rightarrow> group_speaker_view \<Rightarrow> rstr + chat_request \<times> rstr list"
  ge_display :: "display_override option"
  ge_burst :: "nat \<Rightarrow> burst_env"
  ge_base64 :: "rstr \<Rightarrow> rstr"
  ge_show_id :: "uuid \<Rightarrow> rstr"
  ge_next :: nat

section \<open>Seating\<close>

definition default_affinity_scope :: affinity_scope where "default_affinity_scope = scope_bond"

definition scopes_of :: "group_turn \<Rightarrow> uuid \<Rightarrow> memory_scope \<times> affinity_scope" where
  "scopes_of t member = (case gt_member_scopes t member of
     None \<Rightarrow> (default_memory_scope, default_affinity_scope)
   | Some (ms, as) \<Rightarrow> (case ms of Some x \<Rightarrow> x | None \<Rightarrow> default_memory_scope,
                      case as of Some x \<Rightarrow> x | None \<Rightarrow> default_affinity_scope))"

definition group_event :: "group_turn \<Rightarrow> uuid \<Rightarrow> event" where
  "group_event t member = (case scopes_of t member of (ms, as) \<Rightarrow> UserMessage
     \<lparr>um_content = gt_content t, um_message_id = gt_user_message_id t, um_prompt_traits = gt_prompt_traits t,
      um_audit = gt_audit t, um_tier = gt_tier t, um_memory_scope = ms, um_affinity_scope = as, um_quote = None,
      um_action = None, um_outfit = None\<rparr>)"

definition seat_member :: "group_env \<Rightarrow> uuid \<times> uuid \<Rightarrow> seat option" where
  "seat_member env m = (case ge_persona env (snd m) of
     Inr (Some p) \<Rightarrow>
       (let row = (case ge_affinity env (fst m) of Inr (Some a) \<Rightarrow> a | _ \<Rightarrow> unrecorded (ge_now env));
            a = refresh_endpoints (ge_now env) (ge_tuning env) (apply_time_decay (ge_now env) row)
        in Some \<lparr>st_member_session_id = fst m, st_instance_id = snd m, st_persona = p, st_affinity = a,
                 st_signals = compute_signals (ge_now env) a (ge_counted env (fst m))\<rparr>)
   | _ \<Rightarrow> None)"

definition seats_of :: "group_env \<Rightarrow> group_turn \<Rightarrow> seat list" where
  "seats_of env t = List.map_filter (seat_member env) (gt_members t)"

definition st_name :: "seat \<Rightarrow> rstr" where "st_name s = genome_name (cp_genome (st_persona s))"

definition seated_names :: "seat list \<Rightarrow> uuid \<rightharpoonup> rstr" where
  "seated_names seats = map_of (rev (map (\<lambda>s. (st_member_session_id s, st_name s)) seats))"

definition group_names :: "group_env \<Rightarrow> seat list \<Rightarrow> group_row list \<Rightarrow> uuid \<rightharpoonup> rstr" where
  "group_names env seats window =
     (let names = seated_names seats;
          unknown = filter (\<lambda>s. names s = None) (List.map_filter gr_speaker_session_id window)
      in if unknown = [] then names
         else (case ge_speaker_names env unknown of Some xs \<Rightarrow> names ++ map_of (rev xs) | None \<Rightarrow> names))"

definition NO_MEMBER_FRAME :: protocol_frame where
  "NO_MEMBER_FRAME = Stream_Frames.ErrorFrame Internal False (str ''no seatable group member'')
     [32676, 37324, 26242, 26102, 27809, 26377, 21487, 20197, 22238, 22797, 30340, 35282, 33394] None None"

section \<open>Casting\<close>

definition director_seat_of :: "seat \<Rightarrow> director_seat" where
  "director_seat_of s = \<lparr>ds_name = st_name s, ds_personality = tip_personality (cp_genome (st_persona s)),
     ds_bond = aff_bond_label (st_affinity s), ds_chemistry = aff_chemistry_label (st_affinity s),
     ds_rung = intimacy_rung (st_affinity s)\<rparr>"

definition director_inputs :: "(uuid \<Rightarrow> rstr) \<Rightarrow> seat list \<Rightarrow> bool \<Rightarrow> uuid list \<Rightarrow> json" where
  "director_inputs show_id seats img mentions = JObj
     [(str ''members'', JArr (map (\<lambda>(i, s). JObj
         [(str ''handle'', JStr (handle i)), (str ''member_session_id'', JStr (show_id (st_member_session_id s))),
          (str ''bond'', JStr (bond_as_key (aff_bond_label (st_affinity s)))),
          (str ''chemistry'', JStr (chem_as_key (aff_chemistry_label (st_affinity s)))),
          (str ''rung'', JNum (f64_of_int (int (intimacy_rung (st_affinity s)))))]) (enumerate 0 seats))),
      (str ''image_available'', JBool img), (str ''mentions'', JArr (map (JStr \<circ> show_id) mentions))]"

text \<open>The row of a director run: a decision event without actions.\<close>

definition record_director_event :: "rstr \<Rightarrow> director_verdict judge_run \<Rightarrow> json \<Rightarrow> director_event" where
  "record_director_event status run inputs =
     (let (attempts, gateways) = split_failures (jr_failures run)
      in \<lparr>dre_status = status, dre_payload = director_audit_payload run, dre_inputs = inputs,
          dre_generation_id = jr_generation_id run, dre_llm_attempts = attempts, dre_gateway_errors = gateways\<rparr>)"

fun director_acts :: "director_verdict judge_step list \<Rightarrow> turn_act list" where
  "director_acts [] = []"
| "director_acts (ReasoningStep x # steps) = TYield (Reasoning x) # director_acts steps"
| "director_acts (JudgeRecorded g # steps) = TRecord g # director_acts steps"
| "director_acts (Finished r # steps) = director_acts steps"

fun director_finished :: "director_verdict judge_step list \<Rightarrow> director_verdict judge_run option" where
  "director_finished [] = None"
| "director_finished (Finished r # steps) = or_else (director_finished steps) (Some r)"
| "director_finished (s # steps) = director_finished steps"

definition verdict_cues :: "director_verdict judge_run \<Rightarrow> nat \<Rightarrow> bool \<Rightarrow> cue list" where
  "verdict_cues run seats img = (case jr_verdict run of Some v \<Rightarrow> normalize v seats img | None \<Rightarrow> [])"

definition run_status :: "director_verdict judge_run \<Rightarrow> cue list \<Rightarrow> rstr" where
  "run_status run cues =
     (if jr_status run = PdeOk \<and> cues = [] then str ''empty'' else pde_status_as_str (jr_status run))"

definition casting :: "group_env \<Rightarrow> group_turn \<Rightarrow> seat list \<Rightarrow> (uuid \<rightharpoonup> rstr) \<Rightarrow> rstr
    \<Rightarrow> group_act list \<times> attempt_failure list \<times> cue list" where
  "casting env t seats names transcript =
     (let img = image_capability_available (gt_image t \<noteq> None) (ge_config env)
      in case fst (resolve_group_director (ge_draw env) (ge_config env)) of
           None \<Rightarrow> ([], [], fallback_cues (length seats))
         | Some (p, structured) \<Rightarrow>
             (let ctx = director_context (gt_title t) (map director_seat_of seats) img transcript
                    (List.map_filter names (gt_mentions t)) (gt_content t);
                  steps = run_director (ge_verdict env) (ge_director env) (gt_group_session_id t) p structured ctx (length seats);
                  shown = map GAct (director_acts steps)
              in case director_finished steps of
                   None \<Rightarrow> (shown @ [GAct TPanic], [], [])
                 | Some run \<Rightarrow>
                     (let cues = verdict_cues run (length seats) img
                      in (shown @ [GDirector (record_director_event (run_status run cues) run
                             (director_inputs (ge_show_id env) seats img (gt_mentions t)))],
                          jr_failures run,
                          if cues = [] then fallback_cues (length seats) else cues))))"

definition cast_frame :: "seat list \<Rightarrow> cue list \<Rightarrow> protocol_frame" where
  "cast_frame seats cues = Cast (map (\<lambda>c. \<lparr>ce_member_session_id = st_member_session_id (seats ! cue_seat c),
     ce_action_type = frame_action_for (cue_action c)\<rparr>) cues)"

section \<open>The relay\<close>

record relay =
  rl_next :: nat
  rl_config :: model_config
  rl_spoken :: "group_spoken list"
  rl_filtered :: bool
  rl_retries_chat :: nat
  rl_retries_filter :: nat
  rl_injected :: "rstr list option"
  rl_failures :: "attempt_failure list"

definition tidy_prose :: "rstr option \<Rightarrow> rstr option" where
  "tidy_prose x = Option.bind (map_option sanitize_inner_state x) (\<lambda>s. if s \<noteq> [] then Some s else None)"

definition seat_input :: "group_turn \<Rightarrow> seat \<Rightarrow> decision_input" where
  "seat_input t s = \<lparr>in_event = group_event t (st_member_session_id s), in_affinity = st_affinity s, in_persona = st_persona s,
     in_signals = st_signals s\<rparr>"

definition cue_plan :: "group_turn \<Rightarrow> seat \<Rightarrow> (nat \<Rightarrow> f64) \<Rightarrow> cue \<Rightarrow> action_plan option" where
  "cue_plan t s dice c = map_option (\<lambda>plan.
       if plan_reply_mode plan = None \<and> bears_text (plan_action_type plan)
       then plan\<lparr>plan_nudges := roll_nudges (Some (st_affinity s)) default_affinity_scope dice\<rparr> else plan)
     (plan_for (seat_input t s) (cue_action c) (option_list (tidy_prose (cue_inner_state c))) (cue_reply_mode c)
        (tidy_prose (cue_clothing c)) Face None None)"

definition companion_of :: "seat list \<Rightarrow> cue \<Rightarrow> seat option" where
  "companion_of seats c = map_option (\<lambda>w. seats ! w) (cue_with c)"

definition companion_context :: "seat \<Rightarrow> seat \<Rightarrow> image_companion_context" where
  "companion_context s c = \<lparr>cx_name = st_name c, cx_appearance = Turn_Acts.meta_str (st_persona c) (str ''appearance''),
     cx_personality = tip_personality (cp_genome (st_persona c)), cx_speaker_name = st_name s\<rparr>"

definition companion_id :: "seat \<Rightarrow> image_companion" where
  "companion_id c = \<lparr>ic_member_session_id = st_member_session_id c, ic_instance_id = st_instance_id c\<rparr>"

text \<open>The picture of a cue: composed with the configuration as it stands, with the configuration after.\<close>

definition group_compose :: "group_env \<Rightarrow> group_turn \<Rightarrow> nat \<Rightarrow> rstr \<Rightarrow> seat list \<Rightarrow> seat \<Rightarrow> cue \<Rightarrow> action_plan \<Rightarrow> model_config
    \<Rightarrow> delegated_image_prompt \<times> group_act list \<times> model_config" where
  "group_compose env t k transcript seats s c plan cfg =
     (let (resolved, cfg) = resolve_image_prompt_compose (ge_draw env) (ge_texts env) cfg (Option.bind (gt_image t) ip_prompt_variant);
          (img, event, recorded) = build_delegated_image_prompt_for (ge_from_str env) (ge_compose env k)
             (ge_payload env k plan transcript (ge_composer_text env (gt_content t)) (map_option (companion_context s) (companion_of seats c)))
             (ge_wrap env k) (ge_event_id env k) (gt_group_session_id t) resolved plan (gt_image t) (compose_source (plan_action_type plan))
      in (img, map (GAct \<circ> TRecord) recorded @ [GAct (TComposeEvent event)], cfg))"

text \<open>A picture the composer had no subject for names no companion.\<close>

definition shown_companion :: "seat list \<Rightarrow> cue \<Rightarrow> delegated_image_prompt \<Rightarrow> image_companion option" where
  "shown_companion seats c img = (if di_compose_model img \<noteq> None then map_option companion_id (companion_of seats c) else None)"

definition group_marker :: "group_env \<Rightarrow> action_plan \<Rightarrow> delegated_image_prompt \<Rightarrow> image_companion option \<Rightarrow> json" where
  "group_marker env plan img shown = build_delegated_image_marker_with (ge_show_id env) (di_subject img) (di_caption img)
     (di_aspect_ratio img) (di_compose_variant img) (di_compose_model img) (di_compose_generation_id img)
     (di_compose_event_id img) (plan_image_ref plan) None shown"

definition group_image_row :: "group_env \<Rightarrow> seat \<Rightarrow> ulid \<Rightarrow> json \<Rightarrow> assistant_insert" where
  "group_image_row env s msg marker =
     \<lparr>ai_id = msg, ai_content = [], ai_action_type = str ''reply'', ai_continues_from = None, ai_truncated = False,
      ai_generation_id = None, ai_filter_audit = None, ai_metadata = Some (JObj [(str ''image'', marker)]),
      ai_llm_attempts = None, ai_gateway_errors = None, ai_speaker = Some (st_member_session_id s)\<rparr>"

fun named_meta :: "uuid \<Rightarrow> protocol_frame \<Rightarrow> protocol_frame" where
  "named_meta s (Meta m a d c sp) = Meta m a d c (Some s)"
| "named_meta s f = f"

definition spoken_of :: "seat \<Rightarrow> produced_message list \<Rightarrow> group_spoken" where
  "spoken_of s produced = \<lparr>gp_speaker_session_id = st_member_session_id s, gp_instance_id = st_instance_id s,
     gp_name = st_name s, gp_produced = produced\<rparr>"

definition speaker_error :: "seat \<Rightarrow> stream_error_code \<Rightarrow> rstr \<Rightarrow> group_act" where
  "speaker_error s code message = GAct (TYield (SpeakerError (st_member_session_id s) code message))"

definition image_turn :: "group_env \<Rightarrow> group_turn \<Rightarrow> nat \<Rightarrow> rstr \<Rightarrow> seat list \<Rightarrow> seat \<Rightarrow> cue \<Rightarrow> action_plan \<Rightarrow> relay
    \<Rightarrow> group_act list \<times> relay" where
  "image_turn env t k transcript seats s c plan st =
     (let (img, composed, cfg) = group_compose env t k transcript seats s c plan (rl_config st);
          st = st\<lparr>rl_config := cfg, rl_failures := rl_failures st @ di_failures img\<rparr>;
          shown = shown_companion seats c img;
          msg = rl_next st;
          st = st\<lparr>rl_next := Suc msg\<rparr>
      in if \<not> ge_insert env k
         then (composed @ [speaker_error s Internal (str ''image persist failed'')], st)
         else (composed @ [GAct (TInsert (group_image_row env s msg (group_marker env plan img shown)))]
                 @ map (\<lambda>f. GAct (TYield (named_meta (st_member_session_id s) f)))
                     (delegated_image_only_frames_with (ge_base64 env) msg (di_composed_prompt img) (plan_image_ref plan)
                        (di_aspect_ratio img) shown),
               st\<lparr>rl_spoken := rl_spoken st @ [spoken_of s [\<lparr>pm_message_id = msg, pm_full_text = [], pm_action = ReplyImage\<rparr>]]\<rparr>))"

definition others_of :: "seat list \<Rightarrow> seat \<Rightarrow> (rstr \<times> rstr option) list" where
  "others_of seats s = map (\<lambda>o'. (st_name o', tip_personality (cp_genome (st_persona o'))))
     (filter (\<lambda>o'. st_member_session_id o' \<noteq> st_member_session_id s) seats)"

definition view_of :: "group_turn \<Rightarrow> (uuid \<rightharpoonup> rstr) \<Rightarrow> seat list \<Rightarrow> seat \<Rightarrow> group_speaker_view" where
  "view_of t names seats s = \<lparr>gv_group_session_id = gt_group_session_id t, gv_speaker_session_id = st_member_session_id s,
     gv_names = names, gv_block = group_block (gt_title t) (others_of seats s)\<rparr>"

definition group_burst_args :: "group_env \<Rightarrow> group_turn \<Rightarrow> nat \<Rightarrow> seat \<Rightarrow> action_plan \<Rightarrow> chat_request \<Rightarrow> rstr list
    \<Rightarrow> resolved_output_filter option \<Rightarrow> burst_args" where
  "group_burst_args env t k s plan req tags flt =
     \<lparr>ba_session_id = gt_group_session_id t, ba_frame_action = frame_action_for (text_action plan),
      ba_persist_action = str ''reply'', ba_plan_action = text_action plan, ba_req = req, ba_display = ge_display env,
      ba_filter = flt, ba_trait_tags = tags, ba_tier = gt_tier t,
      ba_memory_scope = fst (scopes_of t (st_member_session_id s)), ba_affinity_scope = snd (scopes_of t (st_member_session_id s)),
      ba_random_draw = map_option (\<lambda>_. ge_random env k) (Option.bind flt (\<lambda>f. ot_random (ro_trigger f))),
      ba_speaker = Some (st_member_session_id s)\<rparr>"

text \<open>What of a burst reaches the client: an error becomes the speaker's own and ends its part.\<close>

fun relayed :: "seat \<Rightarrow> burst_act list \<Rightarrow> group_act list \<times> bool" where
  "relayed s [] = ([], False)"
| "relayed s (a # rest) = (case a of
     Yield (Stream_Frames.ErrorFrame code _ message _ _ _) \<Rightarrow> ([speaker_error s code message], True)
   | _ \<Rightarrow> (let (acts, failed) = relayed s rest in (GAct (of_burst_act a) # acts, failed)))"

text \<open>The picture that goes with a text: composed beside it, joined after it.\<close>

definition group_picture :: "group_env \<Rightarrow> group_turn \<Rightarrow> nat \<Rightarrow> rstr \<Rightarrow> seat list \<Rightarrow> seat \<Rightarrow> cue \<Rightarrow> action_plan
    \<Rightarrow> produced_message list \<Rightarrow> relay \<Rightarrow> group_act list \<times> relay" where
  "group_picture env t k transcript seats s c plan produced st =
     (if plan_action_type plan \<noteq> ReplyTextImage then ([], st)
      else
        (let (img, composed, cfg) = group_compose env t k transcript seats s c plan (rl_config st)
         in if produced = [] then ([], if ge_aborted env k then st\<lparr>rl_config := cfg\<rparr> else st)
            else (let msg = pm_message_id (last produced);
                      shown = shown_companion seats c img
                  in (composed @ [GAct (TMergeImage msg (group_marker env plan img shown)),
                        GAct (TYield (build_image_request_frame_with (ge_base64 env) msg (di_composed_prompt img)
                          (plan_image_ref plan) (di_aspect_ratio img) shown))],
                      st\<lparr>rl_config := cfg, rl_failures := rl_failures st @ di_failures img\<rparr>))))"

definition text_turn :: "group_env \<Rightarrow> group_turn \<Rightarrow> nat \<Rightarrow> (uuid \<rightharpoonup> rstr) \<Rightarrow> rstr \<Rightarrow> seat list \<Rightarrow> seat \<Rightarrow> cue \<Rightarrow> action_plan \<Rightarrow> relay
    \<Rightarrow> group_act list \<times> relay" where
  "text_turn env t k names transcript seats s c plan st =
     (let aborted = (\<lambda>st. if plan_action_type plan = ReplyTextImage \<and> ge_aborted env k
            then st\<lparr>rl_config := snd (snd (group_compose env t k transcript seats s c plan (rl_config st)))\<rparr> else st)
      in case ge_reply_request env k (seat_input t s) plan (view_of t names seats s) of
           Inl e \<Rightarrow> ([speaker_error s Internal (str ''build_reply_request failed: '' @ e)], aborted st)
         | Inr (req, tags) \<Rightarrow>
             (let (flt, cfg) = resolve_output_filter (ge_draw env) (rl_config st) (gt_tier t);
                  st = st\<lparr>rl_config := cfg, rl_injected := (if tags \<noteq> [] then Some tags else rl_injected st)\<rparr>;
                  b = drive_chat_burst_for (ge_burst env k) (group_burst_args env t k s plan req tags flt)
                        (reply_chain (ge_draw env) req None) (burst_start (rl_next st));
                  (acts, failed) = relayed s (b_log b);
                  st = st\<lparr>rl_next := b_next b\<rparr>
              in if failed then (acts, aborted st)
                 else
                   (let out = b_out b;
                        st = st\<lparr>rl_filtered := (rl_filtered st \<or> bo_filtered out),
                               rl_retries_chat := rl_retries_chat st + bo_retries_chat out,
                               rl_retries_filter := rl_retries_filter st + bo_retries_filter out,
                               rl_failures := rl_failures st @ bo_failures out\<rparr>;
                        (pictured, st) = group_picture env t k transcript seats s c plan (bo_produced out) st
                    in (acts @ pictured,
                        if bo_produced out \<noteq> []
                        then st\<lparr>rl_spoken := rl_spoken st @ [spoken_of s (bo_produced out)]\<rparr> else st))))"

definition speaker_turn :: "group_env \<Rightarrow> group_turn \<Rightarrow> nat \<Rightarrow> (uuid \<rightharpoonup> rstr) \<Rightarrow> rstr \<Rightarrow> seat list \<Rightarrow> cue \<Rightarrow> relay
    \<Rightarrow> group_act list \<times> relay" where
  "speaker_turn env t k names transcript seats c st =
     (let s = seats ! cue_seat c
      in case cue_plan t s (ge_dice env k) c of
           None \<Rightarrow> ([GAct TPanic], st)
         | Some plan \<Rightarrow>
             (if plan_action_type plan = ReplyImage then image_turn env t k transcript seats s c plan st
              else text_turn env t k names transcript seats s c plan st))"

fun relay_loop :: "group_env \<Rightarrow> group_turn \<Rightarrow> nat \<Rightarrow> (uuid \<rightharpoonup> rstr) \<Rightarrow> rstr \<Rightarrow> seat list \<Rightarrow> cue list \<Rightarrow> relay
    \<Rightarrow> group_act list list \<times> relay" where
  "relay_loop env t k names transcript seats [] st = ([], st)"
| "relay_loop env t k names transcript seats (c # cs) st =
     (let (acts, st) = speaker_turn env t k names transcript seats c st;
          (rest, st) = relay_loop env t (Suc k) names transcript seats cs st
      in (acts # rest, st))"

section \<open>The turn\<close>

definition NO_REPLY_FRAME :: protocol_frame where
  "NO_REPLY_FRAME = Stream_Frames.ErrorFrame UpstreamUnavailable True (str ''no group member produced a reply'')
     [26242, 26102, 27809, 26377, 20154, 22238, 22797, 65292, 35831, 31245, 21518, 20877, 35797] None None"

definition group_closing :: "group_turn \<Rightarrow> seat list \<Rightarrow> relay \<Rightarrow> group_act list" where
  "group_closing t seats st =
     (if rl_spoken st = [] then [GAct (TYield NO_REPLY_FRAME)]
      else [GAct (TYield (build_final_frame (rl_filtered st) (rl_injected st) (gt_tier t) (rl_retries_chat st)
              (rl_retries_filter st) (rl_failures st))),
            GPostProcess (gt_group_session_id t) (gt_user_id t) (gt_content t)
              (map (\<lambda>s. (st_member_session_id s, st_instance_id s)) seats) (rl_spoken st)])"

definition relay_start :: "group_env \<Rightarrow> attempt_failure list \<Rightarrow> relay" where
  "relay_start env failures = \<lparr>rl_next = ge_next env, rl_config = ge_config env, rl_spoken = [], rl_filtered = False,
     rl_retries_chat = 0, rl_retries_filter = 0, rl_injected = None, rl_failures = failures\<rparr>"

definition group_transcript :: "group_env \<Rightarrow> group_turn \<Rightarrow> (uuid \<rightharpoonup> rstr) \<Rightarrow> rstr" where
  "group_transcript env t names =
     (let window = (case ge_window env of Some w \<Rightarrow> w | None \<Rightarrow> [])
      in transcript_text (filter (\<lambda>m. gr_id m \<noteq> gt_user_message_id t) window) names)"

definition run_group_turn :: "group_env \<Rightarrow> group_turn \<Rightarrow> group_act list" where
  "run_group_turn env t =
     (let seats = seats_of env t
      in if seats = [] then [GAct (TYield NO_MEMBER_FRAME)]
         else
           (let names = group_names env seats (case ge_window env of Some w \<Rightarrow> w | None \<Rightarrow> []);
                transcript = group_transcript env t names;
                (cast_acts, failures, cues) = casting env t seats names transcript;
                (parts, st) = relay_loop env t 0 names transcript seats cues (relay_start env failures)
            in cast_acts @ [GAct (TYield (cast_frame seats cues))] @ concat parts @ group_closing t seats st))"

section \<open>The driver\<close>

fun group_tally :: "group_act list \<Rightarrow> nat \<Rightarrow> rstr option \<Rightarrow> nat \<times> rstr option" where
  "group_tally [] done_frames last_error = (done_frames, last_error)"
| "group_tally (GAct (TYield (Done _ _ _ _ _)) # acts) done_frames last_error = group_tally acts (Suc done_frames) last_error"
| "group_tally (GAct (TYield (Stream_Frames.ErrorFrame _ _ message _ _ _)) # acts) done_frames last_error =
     group_tally acts done_frames (Some message)"
| "group_tally (_ # acts) done_frames last_error = group_tally acts done_frames last_error"

definition drive_group_to_exhaustion :: "group_env \<Rightarrow> group_turn \<Rightarrow> turn_outcome" where
  "drive_group_to_exhaustion env t =
     (let (done_frames, last_error) = group_tally (run_group_turn env t) 0 None in classify_outcome done_frames last_error)"

end
