(* ===== verification/Group_Turn_Laws.thy ===== *)
theory Group_Turn_Laws
  imports Group_Turn Chat_Turn_Laws
begin

text \<open>
  What a group turn guarantees: its cast, the part of each speaker and its end, for whatever the database and
  the models answer; and what a speaker is shown of the others.
\<close>

section \<open>Whose burst it is\<close>

fun acts_for :: "uuid option \<Rightarrow> burst_act \<Rightarrow> bool" where
  "acts_for sp (Yield (Meta _ _ _ _ s)) \<longleftrightarrow> s = sp"
| "acts_for sp (Yield (Delta _ _)) \<longleftrightarrow> True"
| "acts_for sp (Yield (Done _ _ _ _ _)) \<longleftrightarrow> True"
| "acts_for sp (Yield (Stream_Frames.ErrorFrame _ _ _ _ _ _)) \<longleftrightarrow> True"
| "acts_for sp (Yield _) \<longleftrightarrow> False"
| "acts_for sp (Insert r) \<longleftrightarrow> ai_speaker r = sp"
| "acts_for sp (RecordGen _) \<longleftrightarrow> True"

definition log_for :: "burst_args \<Rightarrow> burst \<Rightarrow> bool" where
  "log_for p b \<longleftrightarrow> list_all (acts_for (ba_speaker p)) (b_log b)"

lemma log_for_act [simp]: "log_for p (act xs b) \<longleftrightarrow> log_for p b \<and> list_all (acts_for (ba_speaker p)) xs"
  by (simp add: log_for_def)

lemma log_for_other [simp]: "log_for p (mint b) = log_for p b" "log_for p (set_out h b) = log_for p b"
  "log_for p (push_produced q m t b) = log_for p b" "log_for p (mark_filtered hits b) = log_for p b"
  "log_for p (live_conclude m r g fs b) = log_for p b"
  by (simp_all add: log_for_def mint_def set_out_def push_produced_def mark_filtered_def live_conclude_def)

lemma acts_for_built [simp]: "acts_for (ba_speaker p) (Yield (meta_frame env p hop m c))"
  "ai_speaker (assistant_row p m x c t g a md s') = ba_speaker p" "acts_for s (Yield (exhausted_frame fs))"
  "acts_for s (Yield NO_MODELS_FRAME)"
  by (simp_all add: meta_frame_def assistant_row_def exhausted_frame_def NO_MODELS_FRAME_def split: prod.splits)

lemma regex_audit_for [simp]: "log_for p (snd (regex_audit env hits raw b)) = log_for p b"
  by (simp add: regex_audit_def)

lemma served_text_for: "served_text env p hop acc b = (x, a, g, b') \<Longrightarrow> log_for q b' = log_for q b"
  by (auto simp: served_text_def Let_def split: prod.splits dest: arg_cong [where f = "\<lambda>r. log_for q (snd r)"])

lemma live_persist_for: "log_for p b \<Longrightarrow> log_for p (snd (live_persist env p hop rec m c a acc t g fs b))"
  by (auto simp: live_persist_def Let_def split: prod.splits if_splits dest: served_text_for)

lemma replacement_for: "log_for p b \<Longrightarrow> log_for p (replacement p reason x n c k fs b)"
  by (simp add: replacement_def Let_def)

lemma exhaust_for: "log_for p b \<Longrightarrow> log_for p (exhaust env p bo g c n fs b)"
  by (auto simp: exhaust_def Let_def garble_repaired_replacement_def stream_failure_pseudo_ghost_def replacement_for
      split: option.splits)

lemma deltas_for [simp]: "list_all (acts_for s) (map (\<lambda>x. Yield (Delta m x)) xs)"
  by (simp add: list_all_iff)

lemma live_walk_for: "log_for p b \<Longrightarrow> log_for p (live_walk env p bo n i hops w b)"
proof (induction hops arbitrary: i w b)
  case (Cons hop rest)
  let ?b = "act (Yield (meta_frame env p hop (b_next b) (lw_continues w))
    # map (\<lambda>x. Yield (Delta (b_next b) x)) (live_deltas env hop (chat_attempt_of env p i hop))) (mint b)"
  have o: "log_for p ?b" using Cons.prems by simp
  show ?case
    using live_persist_for [OF o] Cons.IH
    by (auto simp: Let_def exhaust_for split: prod.splits dest: arg_cong [where f = "\<lambda>r. log_for p (snd r)"])
qed simp

lemma drive_filter_for: "log_for p b \<Longrightarrow> log_for p (snd (drive_filter env p hop evs d b))"
  by (induction env p hop evs d b rule: drive_filter.induct) simp_all

lemma unfiltered_for [simp]: "log_for p (snd (unfiltered_reply env hits raw v m s f b)) = log_for p b"
  by (simp add: unfiltered_reply_def split: prod.split) (metis regex_audit_for snd_conv)

lemma filtered_for: "log_for p b \<Longrightarrow> log_for p (snd (filtered_reply env p hop f h st raw m b))"
proof -
  assume "log_for p b"
  then have "log_for p (snd (drive_filter env p hop evs d (mint b)))" for evs d by (simp add: drive_filter_for)
  then show ?thesis
    by (simp add: filtered_reply_def Let_def split: prod.split option.split) (metis snd_conv)
qed

lemma shown_for: "log_for p b \<Longrightarrow> log_for p (snd (shown_of env p hop st raw m b))"
  by (simp add: shown_of_def filtered_for split: option.split)

lemma filtered_serve_for: "log_for p b \<Longrightarrow> log_for p (filtered_serve env p hop i m a g acc fs b)"
proof -
  assume b: "log_for p b"
  let ?b = "mark_filtered (matched_rules (strip_reply env hop acc))
    (act [Yield (meta_frame env p hop m None)] (set_out (\<lambda>out. out\<lparr>bo_retries_chat := i\<rparr>) b))"
  obtain r b' where s: "shown_of env p hop (strip_reply env hop acc) acc m ?b = (r, b')" by fastforce
  have "log_for p b'" using shown_for [of p ?b env hop "strip_reply env hop acc" acc m] b s by simp
  then show ?thesis using s by (simp add: filtered_serve_def Let_def)
qed

lemma filtered_walk_for: "log_for p b \<Longrightarrow> log_for p (filtered_walk env p bo n i hops fs b)"
proof (induction hops arbitrary: i fs b)
  case (Cons hop rest)
  then show ?case by (simp add: Let_def exhaust_for filtered_serve_for filtered_empty_def)
qed simp

text \<open>Every bubble and every row of a burst names the speaker it was started for.\<close>

lemma burst_for_speaker: "list_all (acts_for (ba_speaker p)) (b_log (drive_chat_burst_for env p chain (burst_start n)))"
proof -
  have "log_for p (burst_start n)" by (simp add: log_for_def burst_start_def)
  then have "log_for p (drive_chat_burst_for env p chain (burst_start n))"
    by (simp add: drive_chat_burst_for_def live_walk_for filtered_walk_for)
  then show ?thesis by (simp add: log_for_def)
qed

section \<open>The part of a speaker\<close>

text \<open>What a speaker's part may hold: its bubbles, its rows, its picture, and what its calls cost.\<close>

fun part_act :: "uuid \<Rightarrow> turn_act \<Rightarrow> bool" where
  "part_act s (TYield (Meta _ _ _ _ sp)) \<longleftrightarrow> sp = Some s"
| "part_act s (TYield (Delta _ _)) \<longleftrightarrow> True"
| "part_act s (TYield (Done _ _ _ _ _)) \<longleftrightarrow> True"
| "part_act s (TYield (ImageRequest _ _ _ _ _)) \<longleftrightarrow> True"
| "part_act s (TInsert r) \<longleftrightarrow> ai_speaker r = Some s"
| "part_act s (TRecord _) \<longleftrightarrow> True"
| "part_act s (TComposeEvent _) \<longleftrightarrow> True"
| "part_act s (TMergeImage _ _) \<longleftrightarrow> True"
| "part_act s _ \<longleftrightarrow> False"

text \<open>It ends with its last bubble, the picture behind it, and one row that is not superseded; or in its own error.\<close>

definition part_answered :: "uuid \<Rightarrow> group_act list \<Rightarrow> bool" where
  "part_answered s part \<longleftrightarrow> (\<exists>acts i. part = map GAct acts \<and> list_all (part_act s) acts
     \<and> fold act_phase acts Opening \<in> {AfterBubble i False, Pictured} \<and> length (filter conclusive acts) = 1)"

definition part_failed :: "uuid \<Rightarrow> group_act list \<Rightarrow> bool" where
  "part_failed s part \<longleftrightarrow> (\<exists>acts code message i. part = map GAct (acts @ [TYield (SpeakerError s code message)])
     \<and> list_all (part_act s) acts \<and> fold act_phase acts Opening \<in> {Opening, InBubble i, AfterBubble i True}
     \<and> list_all (\<lambda>a. \<not> conclusive a) acts)"

lemma part_of_burst: "acts_for (Some s) a \<Longrightarrow> \<not> is_error (of_burst_act a) \<Longrightarrow> part_act s (of_burst_act a)"
  by (cases "(Some s, a)" rule: acts_for.cases) (auto simp: of_burst_act_def)

lemma relayed_plain:
  "list_all (\<lambda>a. \<not> is_error (of_burst_act a)) acts \<Longrightarrow> relayed s acts = (map (GAct \<circ> of_burst_act) acts, False)"
  by (induction acts) (auto simp: of_burst_act_def split: burst_act.splits protocol_frame.splits)

lemma relayed_error:
  assumes "list_all (\<lambda>a. \<not> is_error (of_burst_act a)) acts" and "is_error (of_burst_act a)"
  shows "\<exists>code message. relayed s (acts @ [a]) = (map (GAct \<circ> of_burst_act) acts @ [speaker_error s code message], True)"
  using assms
proof (induction acts)
  case Nil
  then show ?case by (auto simp: of_burst_act_def split: burst_act.splits protocol_frame.splits)
next
  case (Cons x acts)
  then obtain code message where
    "relayed s (acts @ [a]) = (map (GAct \<circ> of_burst_act) acts @ [speaker_error s code message], True)" by auto
  then show ?case using Cons.prems by (auto simp: of_burst_act_def split: burst_act.splits protocol_frame.splits)
qed

lemma before_error: "is_error a \<Longrightarrow> act_phase a ph = Ended \<Longrightarrow> \<exists>i. ph \<in> {Opening, InBubble i, AfterBubble i True}"
  by (cases a; cases "case a of TYield f \<Rightarrow> f | _ \<Rightarrow> Reasoning []"; cases ph) (auto split: bool.splits)

lemma up_to_error_whole:
  assumes "up_to_error (map h xs) = (map h xs, True)"
  obtains ys a where "xs = ys @ [a]" "is_error (h a)" "list_all (\<lambda>a. \<not> is_error (h a)) ys"
proof -
  let ?ok = "\<lambda>a. \<not> is_error a"
  from assms obtain e rest where d: "dropWhile ?ok (map h xs) = e # rest"
    and t: "takeWhile ?ok (map h xs) @ [e] = map h xs" by (auto simp: up_to_error_def split: list.splits)
  from t obtain ys a where xs: "xs = ys @ [a]" by (cases xs rule: rev_cases) auto
  with t have "takeWhile ?ok (map h xs) = map h ys" "e = h a" by auto
  moreover have "is_error e" using hd_dropWhile [of ?ok "map h xs"] d by simp
  moreover have "\<forall>a \<in> set (takeWhile ?ok (map h xs)). ?ok a" by (auto dest: set_takeWhileD)
  ultimately show ?thesis using that [OF xs] by (auto simp: list_all_iff)
qed

text \<open>A failed burst breaks off at its one error; an answered one is relayed whole.\<close>

lemma relayed_burst_failed:
  assumes "burst_failed (map of_burst_act ws)" and "list_all (acts_for (Some (st_member_session_id s))) ws"
  shows "\<exists>part. relayed s ws = (part, True) \<and> part_failed (st_member_session_id s) part"
proof -
  let ?e = "\<lambda>a. is_error (of_burst_act a)"
  from assms(1) have ended: "fold act_phase (map of_burst_act ws) Opening = Ended"
    and up: "up_to_error (map of_burst_act ws) = (map of_burst_act ws, True)"
    and row: "list_all (\<lambda>a. \<not> conclusive (of_burst_act a)) ws" by (simp_all add: burst_failed_def list_all_iff)
  from up obtain xs a where ws: "ws = xs @ [a]" "?e a" "list_all (\<lambda>a. \<not> ?e a) xs"
    by (rule up_to_error_whole)
  from relayed_error [OF ws(3,2), of s] obtain code message where
    r: "relayed s ws = (map (GAct \<circ> of_burst_act) xs @ [speaker_error s code message], True)" using ws(1) by auto
  from before_error [OF ws(2)] ended ws(1) obtain i where
    "fold act_phase (map of_burst_act xs) Opening \<in> {Opening, InBubble i, AfterBubble i True}" by fastforce
  moreover have "list_all (part_act (st_member_session_id s)) (map of_burst_act xs)"
    using assms(2) ws part_of_burst by (auto simp: list_all_iff)
  ultimately have "part_failed (st_member_session_id s) (map GAct (map of_burst_act xs
      @ [TYield (SpeakerError (st_member_session_id s) code message)]))"
    unfolding part_failed_def using row ws(1)
    by (intro exI [of _ "map of_burst_act xs"] exI [of _ code] exI [of _ message] exI [of _ i]) (auto simp: list_all_iff)
  then show ?thesis using r by (simp add: speaker_error_def)
qed

text \<open>What a speaker's step returns: an answer and a new entry among those who spoke, or a failure and none.\<close>

definition step_ok :: "seat \<Rightarrow> relay \<Rightarrow> group_act list \<times> relay \<Rightarrow> bool" where
  "step_ok s st r \<longleftrightarrow>
     (part_answered (st_member_session_id s) (fst r)
        \<and> (\<exists>ms. ms \<noteq> [] \<and> rl_spoken (snd r) = rl_spoken st @ [spoken_of s ms]))
     \<or> (part_failed (st_member_session_id s) (fst r) \<and> rl_spoken (snd r) = rl_spoken st)"

lemma group_compose_quiet:
  assumes "group_compose env t k tr seats s c plan cfg = (img, cps, cfg')"
  shows "\<exists>xs. cps = map GAct xs \<and> list_all (part_act m) xs \<and> filter conclusive xs = [] \<and> (\<forall>ph. fold act_phase xs ph = ph)"
proof -
  obtain e recorded where c: "cps = map (GAct \<circ> TRecord) recorded @ [GAct (TComposeEvent e)]"
    using assms by (auto simp: group_compose_def Let_def split: prod.splits)
  have "fold act_phase (map TRecord recorded) ph = ph" for ph by (induction recorded) simp_all
  then show ?thesis using c
    by (intro exI [of _ "map TRecord recorded @ [TComposeEvent e]"]) (auto simp: list_all_iff filter_empty_conv)
qed

lemma group_picture_ok:
  assumes "group_picture env t k tr seats s c plan produced st = (acts, st')" and "map pm_message_id produced = [i]"
  shows "rl_spoken st' = rl_spoken st \<and> (\<exists>xs. acts = map GAct xs \<and> list_all (part_act m) xs \<and> filter conclusive xs = []
    \<and> fold act_phase xs (AfterBubble i False) \<in> {AfterBubble i False, Pictured})"
proof (cases "plan_action_type plan = ReplyTextImage")
  case True
  obtain pm where p: "produced = [pm]" "pm_message_id pm = i" using assms(2) by (cases produced) auto
  obtain img cps cfg where c: "group_compose env t k tr seats s c plan (rl_config st) = (img, cps, cfg)"
    by (cases "group_compose env t k tr seats s c plan (rl_config st)") auto
  from group_compose_quiet [OF c, of m] obtain xs where x: "cps = map GAct xs" "list_all (part_act m) xs"
    "filter conclusive xs = []" "fold act_phase xs (AfterBubble i False) = AfterBubble i False" by blast
  have "acts = map GAct (xs @ [TMergeImage i (group_marker env plan img (shown_companion seats c img)),
      TYield (build_image_request_frame_with (ge_base64 env) i (di_composed_prompt img) (plan_image_ref plan)
        (di_aspect_ratio img) (shown_companion seats c img))])" and "rl_spoken st' = rl_spoken st"
    using assms(1) True p c x(1) by (auto simp: group_picture_def Let_def)
  then show ?thesis using x(2-4) by (fastforce simp: build_image_request_frame_with_def)
next
  case False
  then have "acts = map GAct []" "st' = st" using assms(1) by (auto simp: group_picture_def)
  then show ?thesis by fastforce
qed

lemma image_turn_ok: "step_ok s st (image_turn env t k tr seats s c plan st)"
proof -
  let ?m = "st_member_session_id s"
  obtain img cps cfg where c: "group_compose env t k tr seats s c plan (rl_config st) = (img, cps, cfg)"
    by (cases "group_compose env t k tr seats s c plan (rl_config st)") auto
  from group_compose_quiet [OF c, of ?m] obtain xs where x: "cps = map GAct xs" "list_all (part_act ?m) xs"
    "filter conclusive xs = []" "fold act_phase xs Opening = Opening" by blast
  show ?thesis
  proof (cases "ge_insert env k")
    case False
    have "part_failed ?m (map GAct (xs @ [TYield (SpeakerError ?m Internal (str ''image persist failed''))]))"
      unfolding part_failed_def using x(2-4)
      by (intro exI [of _ xs] exI [of _ Internal] exI [of _ "str ''image persist failed''"] exI [of _ 0])
        (auto simp: list_all_iff filter_empty_conv simp del: str_simps)
    then show ?thesis using False c x(1)
      by (simp add: step_ok_def image_turn_def Let_def speaker_error_def del: str_simps)
  next
    case True
    let ?shown = "shown_companion seats c img"
    let ?acts = "xs @ [TInsert (group_image_row env s (rl_next st) (group_marker env plan img ?shown))]
      @ map (\<lambda>f. TYield (named_meta ?m f)) (delegated_image_only_frames_with (ge_base64 env) (rl_next st) (di_composed_prompt img)
          (plan_image_ref plan) (di_aspect_ratio img) ?shown)"
    have "part_answered ?m (map GAct ?acts)"
      unfolding part_answered_def using x(2-4)
      by (intro exI [of _ ?acts] exI [of _ 0])
        (auto simp: delegated_image_only_frames_with_def build_image_request_frame_with_def group_image_row_def)
    then show ?thesis using True c x(1) by (auto simp: step_ok_def image_turn_def Let_def comp_def)
  qed
qed

lemma text_turn_ok: "step_ok s st (text_turn env t k names tr seats s c plan st)"
proof (cases "ge_reply_request env k (seat_input t s) plan (view_of t names seats s)")
  case (Inl e)
  let ?msg = "str ''build_reply_request failed: '' @ e"
  have "part_failed (st_member_session_id s) (map GAct ([] @ [TYield (SpeakerError (st_member_session_id s) Internal ?msg)]))"
    unfolding part_failed_def by (intro exI [of _ "[]"] exI [of _ Internal] exI [of _ ?msg] exI [of _ 0]) (simp del: str_simps)
  then show ?thesis using Inl by (simp add: step_ok_def text_turn_def Let_def speaker_error_def del: str_simps)
next
  case (Inr rt)
  obtain req tags where rt: "rt = (req, tags)" by fastforce
  obtain flt cfg where f: "resolve_output_filter (ge_draw env) (rl_config st) (gt_tier t) = (flt, cfg)" by fastforce
  let ?m = "st_member_session_id s"
  let ?p = "group_burst_args env t k s plan req tags flt"
  let ?b = "drive_chat_burst_for (ge_burst env k) ?p (reply_chain (ge_draw env) req None) (burst_start (rl_next st))"
  let ?acts = "map of_burst_act (b_log ?b)"
  have who: "list_all (acts_for (Some ?m)) (b_log ?b)"
    using burst_for_speaker [of ?p "ge_burst env k" "reply_chain (ge_draw env) req None" "rl_next st"]
    by (simp add: group_burst_args_def)
  have ends: "burst_failed ?acts \<or> (\<exists>i. burst_answered ?acts (b_out ?b) i)"
    using burst_for_turn [of "ge_burst env k" ?p "reply_chain (ge_draw env) req None" "rl_next st"] by (simp add: Let_def)
  from ends show ?thesis
  proof
    assume "burst_failed ?acts"
    from relayed_burst_failed [OF this who] obtain part where "relayed s (b_log ?b) = (part, True)" "part_failed ?m part" by blast
    then show ?thesis by (simp add: step_ok_def text_turn_def Inr rt f Let_def)
  next
    assume "\<exists>i. burst_answered ?acts (b_out ?b) i"
    then obtain i where a: "burst_answered ?acts (b_out ?b) i" by blast
    then have none: "list_all (\<lambda>a. \<not> is_error (of_burst_act a)) (b_log ?b)" and one: "length (filter conclusive ?acts) = 1"
      and ph: "fold act_phase ?acts Opening = AfterBubble i False" and ids: "map pm_message_id (bo_produced (b_out ?b)) = [i]"
      by (simp_all add: burst_answered_def list_all_iff)
    have r: "relayed s (b_log ?b) = (map GAct ?acts, False)" using relayed_plain [OF none, of s] by simp
    have by_s: "list_all (part_act ?m) ?acts" using who none part_of_burst by (auto simp: list_all_iff)
    let ?st = "st\<lparr>rl_config := cfg, rl_injected := (if tags \<noteq> [] then Some tags else rl_injected st), rl_next := b_next ?b,
      rl_filtered := (rl_filtered st \<or> bo_filtered (b_out ?b)), rl_retries_chat := rl_retries_chat st + bo_retries_chat (b_out ?b),
      rl_retries_filter := rl_retries_filter st + bo_retries_filter (b_out ?b), rl_failures := rl_failures st @ bo_failures (b_out ?b)\<rparr>"
    obtain pictured st' where g: "group_picture env t k tr seats s c plan (bo_produced (b_out ?b)) ?st = (pictured, st')" by fastforce
    from group_picture_ok [OF g ids, of ?m] obtain xs where sp: "rl_spoken st' = rl_spoken st"
      and x: "pictured = map GAct xs" "list_all (part_act ?m) xs" "filter conclusive xs = []"
        "fold act_phase xs (AfterBubble i False) \<in> {AfterBubble i False, Pictured}" by auto
    have "part_answered ?m (map GAct (?acts @ xs))"
      unfolding part_answered_def using by_s one ph x(2-4) by (intro exI [of _ "?acts @ xs"] exI [of _ i]) simp
    moreover have "bo_produced (b_out ?b) \<noteq> []" using ids by auto
    ultimately show ?thesis using r g sp x(1) by (auto simp: step_ok_def text_turn_def Inr rt f Let_def)
  qed
qed

lemma speaker_turn_ok:
  assumes "is_text_reply (cue_action c)"
  shows "step_ok (seats ! cue_seat c) st (speaker_turn env t k names tr seats c st)"
proof -
  let ?s = "seats ! cue_seat c"
  have "cue_action c \<noteq> Proactive" using assms by (auto simp: is_text_reply_def)
  then obtain plan where "cue_plan t ?s (ge_dice env k) c = Some plan"
    using plan_for_exists by (fastforce simp: cue_plan_def)
  then show ?thesis by (simp add: speaker_turn_def Let_def image_turn_ok text_turn_ok)
qed

section \<open>The cast\<close>

fun casting_act :: "group_act \<Rightarrow> bool" where
  "casting_act (GAct (TYield (Reasoning _))) \<longleftrightarrow> True"
| "casting_act (GAct (TRecord _)) \<longleftrightarrow> True"
| "casting_act (GDirector _) \<longleftrightarrow> True"
| "casting_act _ \<longleftrightarrow> False"

definition good_cast :: "nat \<Rightarrow> cue list \<Rightarrow> bool" where
  "good_cast seats cues \<longleftrightarrow> cues \<noteq> [] \<and> distinct (map cue_seat cues)
     \<and> list_all (\<lambda>c. cue_seat c < seats \<and> is_text_reply (cue_action c)) cues"

lemma fallback_good: "0 < seats \<Longrightarrow> good_cast seats (fallback_cues seats)"
  by (auto simp: good_cast_def fallback_cues_def is_text_reply_def list_all_iff comp_def)

lemma normalized_good: "normalize v seats img \<noteq> [] \<Longrightarrow> good_cast seats (normalize v seats img)"
  using normalize_sound [of v seats img] by (simp add: good_cast_def list_all_iff)

lemma director_acts_casting: "list_all casting_act (map GAct (director_acts steps))"
  by (induction steps rule: director_acts.induct) simp_all

lemma director_finishes: "\<exists>run. director_finished (run_director from_str up g p structured ctx n) = Some run"
proof -
  have "director_finished (xs @ [Finished r]) \<noteq> None" for xs :: "director_verdict judge_step list" and r
    by (induction xs rule: director_finished.induct) (simp_all add: or_else_def split: option.splits)
  then show ?thesis by (auto simp: run_director_def reasoning_call_def judge_walk_runs)
qed

lemma casting_good:
  assumes "casting env t seats names tr = (acts, fs, cues)" and "seats \<noteq> []"
  shows "list_all casting_act acts \<and> good_cast (length seats) cues"
proof (cases "fst (resolve_group_director (ge_draw env) (ge_config env))")
  case None
  then show ?thesis using assms fallback_good [of "length seats"] by (auto simp: casting_def)
next
  case (Some d)
  obtain p structured where d: "d = (p, structured)" by fastforce
  let ?img = "image_capability_available (gt_image t \<noteq> None) (ge_config env)"
  let ?steps = "run_director (ge_verdict env) (ge_director env) (gt_group_session_id t) p structured
    (director_context (gt_title t) (map director_seat_of seats) ?img tr (List.map_filter names (gt_mentions t)) (gt_content t)) (length seats)"
  obtain run where r: "director_finished ?steps = Some run" using director_finishes by blast
  have "good_cast (length seats) (if verdict_cues run (length seats) ?img = [] then fallback_cues (length seats)
      else verdict_cues run (length seats) ?img)"
    using assms(2) fallback_good [of "length seats"] normalized_good by (auto simp: verdict_cues_def split: option.splits)
  then show ?thesis using assms(1) director_acts_casting [of ?steps] by (auto simp: casting_def Some d r Let_def simp del: not_None_eq)
qed

section \<open>The turn\<close>

definition who :: "seat list \<Rightarrow> cue \<Rightarrow> uuid" where
  "who seats c = st_member_session_id (seats ! cue_seat c)"

definition part_ended :: "seat list \<Rightarrow> cue \<Rightarrow> group_act list \<Rightarrow> bool" where
  "part_ended seats c part \<longleftrightarrow> part_answered (who seats c) part \<or> part_failed (who seats c) part"

text \<open>Those whose part was answered, in the order of the cast.\<close>

definition answering :: "seat list \<Rightarrow> cue list \<Rightarrow> group_act list list \<Rightarrow> uuid list" where
  "answering seats cues parts =
     map (\<lambda>(c, part). who seats c) (filter (\<lambda>(c, part). part_answered (who seats c) part) (zip cues parts))"

lemma failed_not_answered: "part_failed s part \<Longrightarrow> \<not> part_answered s part"
proof
  assume "part_failed s part" and "part_answered s part"
  then obtain xs ys code message where "part = map GAct xs" "list_all (part_act s) xs"
    "part = map GAct (ys @ [TYield (SpeakerError s code message)])" unfolding part_failed_def part_answered_def by blast
  then have "map GAct xs = map GAct (ys @ [TYield (SpeakerError s code message)])" "list_all (part_act s) xs" by simp_all
  moreover have "inj GAct" by (simp add: inj_def)
  ultimately have "xs = ys @ [TYield (SpeakerError s code message)]" "list_all (part_act s) xs" by (simp_all only: inj_map_eq_map)
  then show False by simp
qed

lemma relay_ok:
  assumes "list_all (\<lambda>c. is_text_reply (cue_action c)) cues" and "relay_loop env t k names tr seats cues st = (parts, st')"
  shows "list_all2 (part_ended seats) cues parts
    \<and> (\<exists>spoken. rl_spoken st' = rl_spoken st @ spoken \<and> map gp_speaker_session_id spoken = answering seats cues parts)"
  using assms
proof (induction cues arbitrary: k st parts st')
  case Nil
  then show ?case by (simp add: answering_def)
next
  case (Cons c cs)
  obtain part st1 where a: "speaker_turn env t k names tr seats c st = (part, st1)" by fastforce
  obtain rest st2 where b: "relay_loop env t (Suc k) names tr seats cs st1 = (rest, st2)" by fastforce
  have ends: "st' = st2" "parts = part # rest" using Cons.prems(2) a b by (simp_all add: Let_def)
  from Cons.IH [OF _ b] Cons.prems(1) obtain spoken where ih: "list_all2 (part_ended seats) cs rest"
    "rl_spoken st2 = rl_spoken st1 @ spoken" "map gp_speaker_session_id spoken = answering seats cs rest" by auto
  have "step_ok (seats ! cue_seat c) st (part, st1)"
    using speaker_turn_ok [of c seats st env t k names tr] Cons.prems(1) a by simp
  then consider ms where "part_answered (who seats c) part" "rl_spoken st1 = rl_spoken st @ [spoken_of (seats ! cue_seat c) ms]"
    | "part_failed (who seats c) part" "rl_spoken st1 = rl_spoken st" by (auto simp: step_ok_def who_def)
  then show ?case
  proof cases
    case 1
    then have "part_ended seats c part" by (simp add: part_ended_def)
    moreover have "gp_speaker_session_id (spoken_of (seats ! cue_seat c) ms) = who seats c" by (simp add: spoken_of_def who_def)
    ultimately show ?thesis using 1 ih ends by (simp add: answering_def)
  next
    case 2
    then have "part_ended seats c part" by (simp add: part_ended_def)
    then show ?thesis using 2 ih ends failed_not_answered [OF 2(1)] by (simp add: answering_def)
  qed
qed

text \<open>C3: A group turn, whatever the director, the models and the stores answer. With no member that can be seated it is
  one error. Otherwise the director's reasoning and its record come first, then one cast: at least one speaker, each
  seated and cast once. Then each speaker's part, in the order of the cast: every bubble and every row in it
  names that speaker, and it ends answered, with one row that is not superseded, or in that speaker's own error without
  such a row, which leaves the others their parts; no part moves a relationship, closes the turn or recasts it. Last, if
  nobody answered, one error; else one closing frame, and behind it the post-processing of exactly those who answered.\<close>

theorem group_turn_shape:
  "let seats = seats_of env t
   in if seats = [] then run_group_turn env t = [GAct (TYield NO_MEMBER_FRAME)]
      else \<exists>before cues parts spoken closing.
        run_group_turn env t = before @ [GAct (TYield (cast_frame seats cues))] @ concat parts @ closing
        \<and> list_all casting_act before \<and> good_cast (length seats) cues \<and> list_all2 (part_ended seats) cues parts
        \<and> map gp_speaker_session_id spoken = answering seats cues parts
        \<and> (if spoken = [] then closing = [GAct (TYield NO_REPLY_FRAME)]
           else \<exists>f. is_final (TYield f) \<and> closing = [GAct (TYield f),
             GPostProcess (gt_group_session_id t) (gt_user_id t) (gt_content t)
               (map (\<lambda>s. (st_member_session_id s, st_instance_id s)) seats) spoken])"
proof (cases "seats_of env t = []")
  case True
  then show ?thesis by (simp add: run_group_turn_def)
next
  case False
  let ?seats = "seats_of env t"
  let ?names = "group_names env ?seats (case ge_window env of Some w \<Rightarrow> w | None \<Rightarrow> [])"
  let ?tr = "group_transcript env t ?names"
  obtain acts fs cues where c: "casting env t ?seats ?names ?tr = (acts, fs, cues)" by (metis prod_cases3)
  obtain parts st where r: "relay_loop env t 0 ?names ?tr ?seats cues (relay_start env fs) = (parts, st)" by fastforce
  from casting_good [OF c False] have g: "list_all casting_act acts" "good_cast (length ?seats) cues" by simp_all
  then have "list_all (\<lambda>c. is_text_reply (cue_action c)) cues" by (simp add: good_cast_def list_all_iff)
  from relay_ok [OF this r] have p: "list_all2 (part_ended ?seats) cues parts"
    and s: "map gp_speaker_session_id (rl_spoken st) = answering ?seats cues parts" by (auto simp: relay_start_def)
  have run: "run_group_turn env t = acts @ [GAct (TYield (cast_frame ?seats cues))] @ concat parts @ group_closing t ?seats st"
    using False c r by (simp add: run_group_turn_def Let_def)
  have closing: "if rl_spoken st = [] then group_closing t ?seats st = [GAct (TYield NO_REPLY_FRAME)]
     else \<exists>f. is_final (TYield f) \<and> group_closing t ?seats st = [GAct (TYield f),
       GPostProcess (gt_group_session_id t) (gt_user_id t) (gt_content t)
         (map (\<lambda>s. (st_member_session_id s, st_instance_id s)) ?seats) (rl_spoken st)]"
    using final_act(1) by (auto simp: group_closing_def)
  have "\<exists>before cues parts spoken closing.
        run_group_turn env t = before @ [GAct (TYield (cast_frame ?seats cues))] @ concat parts @ closing
        \<and> list_all casting_act before \<and> good_cast (length ?seats) cues \<and> list_all2 (part_ended ?seats) cues parts
        \<and> map gp_speaker_session_id spoken = answering ?seats cues parts
        \<and> (if spoken = [] then closing = [GAct (TYield NO_REPLY_FRAME)]
           else \<exists>f. is_final (TYield f) \<and> closing = [GAct (TYield f),
             GPostProcess (gt_group_session_id t) (gt_user_id t) (gt_content t)
               (map (\<lambda>s. (st_member_session_id s, st_instance_id s)) ?seats) spoken])"
    by (intro exI conjI) (rule run g p s closing)+
  then show ?thesis using False by (simp only: Let_def if_False)
qed

section \<open>What a speaker is shown\<close>

text \<open>A line as the speaker's model reads it: its own words as the assistant's, cleaned; anyone else's as the user's, named.\<close>

definition shown_line :: "injected list \<Rightarrow> injected list \<Rightarrow> (uuid \<rightharpoonup> uuid option) \<Rightarrow> group_speaker_view \<Rightarrow> injected \<Rightarrow> bool" where
  "shown_line raw stripped speakers view m \<longleftrightarrow>
     (if inj_role m = str ''assistant''
      then speakers (inj_id m) = Some (Some (gv_speaker_session_id view))
         \<and> (inj_id m, inj_text m) \<in> (\<lambda>x. (inj_id x, inj_text x)) ` set stripped
      else inj_role m = str ''user''
         \<and> (\<exists>name x. x \<in> set raw \<and> inj_id x = inj_id m \<and> inj_text m = name @ [65306] @ inj_text x
               \<and> (inj_role x = str ''user'' \<or> speakers (inj_id x) \<noteq> Some (Some (gv_speaker_session_id view)))))"

lemma roles_differ [simp]: "str ''user'' \<noteq> str ''assistant''" "str ''assistant'' \<noteq> str ''user''"
  by simp_all

lemma speaker_line_shown:
  assumes "speaker_line view speakers own x = Some m" and "x \<in> set raw"
    and "\<And>i y. own i = Some y \<Longrightarrow> (i, y) \<in> (\<lambda>x. (inj_id x, inj_text x)) ` set stripped"
  shows "inj_id m = inj_id x \<and> shown_line raw stripped speakers view m"
proof -
  from assms(1) obtain line where l: "line_of view speakers x = Some line"
    by (cases "line_of view speakers x") (simp_all add: speaker_line_def)
  let ?y = "if line = SpkMe then own (inj_id x) else Some (inj_text x)"
  from assms(1) l obtain y where y: "?y = Some y" by (cases ?y) (simp_all add: speaker_line_def)
  have m: "m = (case render_line line y of (role, y) \<Rightarrow> \<lparr>inj_id = inj_id x, inj_role = role, inj_text = y\<rparr>)"
    using assms(1) l y unfolding speaker_line_def by (simp only: bind.simps) (simp split: if_splits prod.splits)
  show ?thesis
  proof (cases line)
    case SpkMe
    then have "speakers (inj_id x) = Some (Some (gv_speaker_session_id view))"
      using l by (auto simp: line_of_def Let_def simp del: str_simps split: if_splits option.splits)
    then show ?thesis using SpkMe y m assms(3) by (simp add: shown_line_def render_line_def del: str_simps)
  next
    case SpkUser
    then have "inj_role x = str ''user''"
      using l by (auto simp: line_of_def Let_def simp del: str_simps split: if_splits option.splits)
    then show ?thesis using SpkUser y m assms(2)
      by (auto simp: shown_line_def render_line_def simp del: str_simps
          intro!: exI [of _ "[29992, 25143]"])
  next
    case (SpkOther name)
    then have "speakers (inj_id x) \<noteq> Some (Some (gv_speaker_session_id view))"
      using l by (auto simp: line_of_def Let_def simp del: str_simps split: if_splits option.splits)
    then show ?thesis using SpkOther y m assms(2)
      by (auto simp: shown_line_def render_line_def simp del: str_simps intro!: exI [of _ name])
  qed
qed

lemma map_of_rev_in: "map_of (rev (map f xs)) i = Some y \<Longrightarrow> (i, y) \<in> f ` set xs"
  by (auto dest: map_of_SomeD)

lemma map_filter_subseq: "(\<And>x y. f x = Some y \<Longrightarrow> g y = h x) \<Longrightarrow> subseq (map g (List.map_filter f xs)) (map h xs)"
  by (induction xs) (auto simp: List.map_filter_simps split: option.splits)

lemma map_filter_all: "(\<And>x y. x \<in> set xs \<Longrightarrow> f x = Some y \<Longrightarrow> P y) \<Longrightarrow> list_all P (List.map_filter f xs)"
  by (induction xs) (auto simp: List.map_filter_simps split: option.splits)

text \<open>C22: The history a group member's model is shown keeps the rows' order and adds none. A line stands there as the
  assistant's only if it is that member's own, and then in its cleaned text, never the raw one; every other line,
  the user's or another member's, stands as the user's, behind the name of who said it, so no member is ever shown the
  words of another as its own.\<close>

theorem speaker_view_attributes:
  "list_all (shown_line raw stripped speakers view) (speaker_view raw stripped speakers view)
   \<and> subseq (map inj_id (speaker_view raw stripped speakers view)) (map inj_id raw)"
proof -
  let ?own = "map_of (rev (map (\<lambda>m. (inj_id m, inj_text m)) stripped))"
  note line = speaker_line_shown [where own = ?own and stripped = stripped and view = view and speakers = speakers,
      OF _ _ map_of_rev_in]
  have "list_all (shown_line raw stripped speakers view) (List.map_filter (speaker_line view speakers ?own) raw)"
    by (rule map_filter_all) (use line [where raw = raw] in blast)
  moreover have "subseq (map inj_id (List.map_filter (speaker_line view speakers ?own) raw)) (map inj_id raw)"
    by (rule map_filter_subseq) (use line [where raw = "[x]" for x] in fastforce)
  ultimately show ?thesis by (simp add: speaker_view_def)
qed

section \<open>The dice\<close>

text \<open>C39: A member's nudge dice are rolled under the default scope whatever scope the request gives that member, so a
  member sent with the chemistry scope still keeps its affirming die in the cup for a cold warmth, an axis its
  prompt does not show; under its own scope the die is thrown.\<close>

theorem group_dice_ignore_member_scope:
  "map_option plan_nudges (cue_plan (t\<lparr>gt_member_scopes := ms\<rparr>) s dice c) = map_option plan_nudges (cue_plan t s dice c)
   \<and> \<not> affirm (roll_nudges (Some (a\<lparr>warmth := 0\<rparr>)) default_affinity_scope (\<lambda>_. 0))
   \<and> affirm (roll_nudges (Some (a\<lparr>warmth := 0\<rparr>)) scope_chemistry (\<lambda>_. 0))"
proof -
  have "0 \<le> WARMTH_COLD_FLOOR" by (simp add: WARMTH_COLD_FLOOR_def flit_pos)
  moreover have "0 < NUDGE_AFFIRM_P" using flit_bounds [of "0.33"] by (simp add: NUDGE_AFFIRM_P_def)
  moreover have "map_option plan_nudges (cue_plan (t\<lparr>gt_member_scopes := ms\<rparr>) s dice c) = map_option plan_nudges (cue_plan t s dice c)"
    by (cases "cue_action c") (simp_all add: cue_plan_def plan_for_def quiet_plan_def)
  ultimately show ?thesis
    by (simp add: roll_nudges_def default_affinity_scope_def scope_bond_def scope_chemistry_def throw_def Let_def split: prod.splits)
qed

end
