(* ===== verification/Prompt_Text.thy ===== *)
theory Prompt_Text
  imports Journal_Moments Turn_Acts
begin

text \<open>
  The small texts a reply model reads around a turn, from \<open>crates/eros-engine-server/src/prompt.rs\<close>: the action of
  the user as a marker and as a sentence, what a give hands over, the lingering effects, the needs, the
  reactions and the recall sections. Chinese words are lists of code points.
\<close>

section \<open>User actions\<close>

definition given_words :: "given_item \<Rightarrow> rstr \<times> rstr" where
  "given_words item = (case item of
     Cigarette \<Rightarrow> ([25903], [28895]) | Alcohol \<Rightarrow> ([26479], [37202]) | Medicine \<Rightarrow> ([29255], [33647])
   | Food \<Rightarrow> ([20221], [21507, 30340]) | SoftDrink \<Rightarrow> ([29942], [39278, 26009]) | Tea \<Rightarrow> ([26479], [33590])
   | Coffee \<Rightarrow> ([26479], [21654, 21857]) | Herb \<Rightarrow> ([21253], [33647, 33609]) | Watch \<Rightarrow> ([22359], [25163, 34920])
   | Gem \<Rightarrow> ([39063], [23453, 30707]) | Gold \<Rightarrow> ([22359], [40644, 37329]) | Camera \<Rightarrow> ([21488], [30456, 26426])
   | Cash \<Rightarrow> ([24352], [38046, 31080]) | Antique \<Rightarrow> ([20214], [21476, 33891]) | Artwork \<Rightarrow> ([20214], [33402, 26415, 21697])
   | Handmade \<Rightarrow> ([20221], [25163, 20316, 31036, 29289]) | CreditCard \<Rightarrow> ([24352], [20449, 29992, 21345]) | Flower \<Rightarrow> ([26421], [33457]))"

definition quoted :: "rstr \<Rightarrow> rstr" where
  "quoted s = [12300] @ s @ [12301]"

definition given_phrase :: "given_item \<Rightarrow> rstr option \<Rightarrow> nat \<Rightarrow> rstr" where
  "given_phrase item name quantity = (case given_words item of (u, word) \<Rightarrow>
     decimal quantity @ [32] @ u @ (case name of Some n \<Rightarrow> quoted n | None \<Rightarrow> word))"

definition tip_tier_adjective :: "f64 \<Rightarrow> rstr" where
  "tip_tier_adjective amount_usd =
     (if amount_usd < 10 then [19968, 33324] else if amount_usd < 100 then [26377, 28857, 22810]
      else if amount_usd < 1000 then [36229, 32423, 22810] else if amount_usd < 10000 then [38750, 24120, 22840, 24352]
      else [36817, 20046, 19981, 21487, 24605, 35758])"

definition tip_value_noun :: "f64 \<Rightarrow> rstr" where
  "tip_value_noun amount_usd =
     (if amount_usd < 10 then [19968, 26479, 39278, 26009] else if amount_usd < 100 then [19968, 20010, 27721, 22561]
      else if amount_usd < 1000 then [19968, 22359, 25163, 34920] else if amount_usd < 10000 then [19968, 37096, 26032, 25163, 26426]
      else if amount_usd < 100000 then [19968, 36742, 36710] else if amount_usd < 10000000 then [19968, 22871, 25151, 23376]
      else [19968, 20010, 22269, 23478])"

definition action_phrase :: "user_action \<Rightarrow> rstr" where
  "action_phrase a = (case a of
     Give item name quantity \<Rightarrow> [36882, 32473, 20320] @ [32] @ given_phrase item name quantity
   | Kiss \<Rightarrow> [20945, 36807, 26469, 24819, 20146, 20320]
   | Hug \<Rightarrow> [24819, 25265, 20320]
   | Touch \<Rightarrow> [20280, 25163, 24819, 25720, 20320]
   | Lick \<Rightarrow> [24819, 33300, 20320]
   | FrenchKiss \<Rightarrow> [20945, 36807, 26469, 24819, 21644, 20320, 33292, 21563]
   | HugFromBehind \<Rightarrow> [24708, 24708, 36208, 21040, 20320, 36523, 21518, 65292, 24819, 25265, 20303, 20320]
   | Tease \<Rightarrow> [20280, 25163, 24819, 25361, 36887, 20320]
   | user_action.Custom x \<Rightarrow> x
   | Tip amount_usd \<Rightarrow> [32473, 20320, 21457, 20102, 19968, 20010, 32418, 21253, 65292, 30456, 24403, 20110] @ tip_value_noun amount_usd
   | Gift kind name \<Rightarrow> [36865, 20320] @ quoted name)"

definition action_subject :: "user_action \<Rightarrow> rstr" where
  "action_subject a = (case a of
     user_action.Custom x \<Rightarrow> [23545, 26041, 30340, 21160, 20316, 65306] @ quoted x
   | Tip amount_usd \<Rightarrow> [23545, 26041] @ action_phrase a @ [65292, 23545, 20320, 26469, 35828, 31639] @ quoted (tip_tier_adjective amount_usd) @ [30340, 19968, 31508]
   | _ \<Rightarrow> [23545, 26041] @ action_phrase a)"

definition action_marker :: "user_action \<Rightarrow> rstr" where
  "action_marker a = [65288] @ action_phrase a @ [65289]"

definition user_text_with_action :: "user_action option \<Rightarrow> rstr \<Rightarrow> rstr" where
  "user_text_with_action action text = (case action of Some a \<Rightarrow> action_marker a @ text | None \<Rightarrow> text)"

definition action_outcome :: "user_action \<Rightarrow> action_response \<Rightarrow> rstr" where
  "action_outcome a response = action_subject a @ [65292]
     @ (case response of Accept \<Rightarrow> [20320, 25509, 21463, 20102] | Refuse \<Rightarrow> [20320, 27809, 26377, 25509, 21463]) @ [12290]"

definition nonblank_text :: "rstr option \<Rightarrow> rstr option" where
  "nonblank_text x = Option.bind (map_option trim x) (\<lambda>s. if s \<noteq> [] then Some s else None)"

definition user_action_context :: "user_action \<Rightarrow> action_response \<Rightarrow> rstr option \<Rightarrow> rstr" where
  "user_action_context a response personality =
     [10, 10] @ str ''[user_action]'' @ [10] @ action_outcome a response
     @ (case (a, nonblank_text personality) of
          (Tip _, Some p) \<Rightarrow> [20195, 20837, 20320] @ quoted p @ [30340, 25171, 36175, 20154, 26684, 65292, 29992, 20320, 33258, 24049, 30340, 35805, 22238, 24212, 12290]
        | _ \<Rightarrow> [29992, 20320, 33258, 24049, 30340, 35805, 22238, 24212, 12290])"

definition composer_user_text :: "user_action option \<Rightarrow> action_response option \<Rightarrow> rstr \<Rightarrow> rstr" where
  "composer_user_text action response text =
     (let base = user_text_with_action action text
      in case (action, response) of (Some a, Some r) \<Rightarrow> base @ [10] @ action_outcome a r | _ \<Rightarrow> base)"

text \<open>The action and its decided response, as a row's metadata keeps them.\<close>

definition action_from_metadata :: "json option \<Rightarrow> user_action option" where
  "action_from_metadata meta = Option.bind (Option.bind meta (json_get (str ''action''))) (\<lambda>v. case v of
     JObj m \<Rightarrow> user_action_of (obj_remove (str ''response'') m) | _ \<Rightarrow> None)"

definition action_response_from_metadata :: "json option \<Rightarrow> action_response option" where
  "action_response_from_metadata meta =
     Option.bind (Option.bind (Option.bind meta (json_get (str ''action''))) (json_get (str ''response''))) (\<lambda>v.
       if v = JStr (str ''accept'') then Some Accept else if v = JStr (str ''refuse'') then Some Refuse else None)"

definition effects_from_metadata :: "json option list \<Rightarrow> active_effect list" where
  "effects_from_metadata rows = active_effects (map (\<lambda>m.
     if action_response_from_metadata m = Some Accept then action_from_metadata m else None) rows)"

section \<open>Body and needs\<close>

definition effect_words :: "given_item \<Rightarrow> rstr list" where
  "effect_words item = (case item of
     Cigarette \<Rightarrow> [[20313, 21619, 36824, 22312], [36824, 26377, 28857, 39128], [28895, 21170, 24456, 36275], [25277, 24471, 22836, 26197]]
   | Alcohol \<Rightarrow> [[26377, 19968, 28857, 37202, 24847], [24494, 37306], [37257, 24847, 19978, 22836], [37257, 24471, 21385, 23475]]
   | Medicine \<Rightarrow> [[33647, 25928, 36731, 24494], [33647, 25928, 26126, 26174], [33647, 25928, 24456, 24378], [33647, 21170, 36807, 29467]]
   | Food \<Rightarrow> [[36824, 30041, 30528, 28857, 39281], [25402, 39281, 30340], [21018, 21507, 39281], [21507, 25745, 20102]]
   | SoftDrink \<Rightarrow> [[22068, 37324, 36824, 26377, 28857, 29980], [25402, 35299, 28212], [27491, 29245, 21475], [21917, 24471, 32922, 23376, 21457, 32960]]
   | Tea \<Rightarrow> [[33590, 39321, 36824, 22312], [24515, 38745, 20102, 20123], [31070, 28165, 27668, 29245], [21917, 24471, 26377, 28857, 24515, 24908]]
   | Coffee \<Rightarrow> [[25552, 20102, 28857, 31070], [31934, 31070, 36215, 26469, 20102], [31934, 31070, 24456, 36275], [24515, 36339, 24471, 26377, 28857, 24555]]
   | Herb \<Rightarrow> [[33647, 33609, 21170, 36824, 36731], [33647, 33609, 35265, 25928, 20102], [33647, 33609, 21170, 24456, 36275], [33647, 33609, 21170, 22826, 20914]]
   | _ \<Rightarrow> [])"

definition effect_word :: "given_item \<Rightarrow> nat \<Rightarrow> rstr" where
  "effect_word item level = (if effect_words item = [] then [] else effect_words item ! (max 1 (min level 4) - 1))"

definition effect_direction :: "effect_phase \<Rightarrow> rstr" where
  "effect_direction p = (case p of Rising \<Rightarrow> [36824, 22312, 24448, 19978, 36208] | Peak \<Rightarrow> [27491, 22312, 21170, 22836, 19978] | Fading \<Rightarrow> [22312, 24930, 24930, 36864])"

definition body_state :: "active_effect list \<Rightarrow> rstr option" where
  "body_state effects = (if effects = [] then None
     else Some (join_with [65307] (map (\<lambda>e. given_phrase (ae_item e) (ae_name e) (ae_quantity e) @ [65292]
       @ effect_word (ae_item e) (ae_level e) @ [65292] @ effect_direction (ae_phase e)) effects)))"

text \<open>The craving: one habit of those the persona has, by \<open>at_pick\<close>; the cast of a float to an index cuts towards zero.\<close>

definition habit_words :: "habits \<Rightarrow> rstr list" where
  "habit_words h = List.map_filter (\<lambda>(has, words). if has = Some True then Some words else None)
     [(smoking h, [24456, 24819, 25277, 26681, 28895]), (alcoholic h, [24456, 24819, 21917, 19968, 26479]), (drug h, [24456, 24819, 25277, 21475, 22823, 40635]), (coffee h, [24456, 24819, 21917, 26479, 21654, 21857])]"

definition craving :: "habits \<Rightarrow> f64 \<Rightarrow> rstr" where
  "craving h at_pick =
     (let uses = habit_words h
      in if uses = [] then [24456, 24819, 25918, 32437, 19968, 19979]
         else uses ! min (nat \<lfloor>fmul (max 0 (min at_pick 1)) (f64_of_int (int (length uses)))\<rfloor>) (length uses - 1))"

definition need_word :: "need_level \<times> rstr option \<times> rstr \<Rightarrow> rstr option" where
  "need_word x = (case x of (l, low, high) \<Rightarrow> (case l of LowNeed \<Rightarrow> low | MidNeed \<Rightarrow> None | HighNeed \<Rightarrow> Some high))"

definition needs_line :: "needs \<Rightarrow> habits \<Rightarrow> f64 \<Rightarrow> rstr option" where
  "needs_line n h at_pick =
     (let words = List.map_filter need_word
            [(hunger n, Some [19981, 39295], [39295, 20102]), (social n, Some [19981, 24819, 36319, 20154, 25171, 20132, 36947], [24819, 25214, 20154, 35828, 35828, 35805]),
             (stamina n, Some [24456, 32047], [31934, 31070, 24456, 22909]), (emotional n, Some [24515, 37324, 25402, 28385, 36275], [24456, 24819, 34987, 22312, 20046]),
             (outing n, Some [21482, 24819, 24453, 22312, 23627, 37324], [24819, 20986, 38376, 36208, 36208]), (indulgence n, None, craving h at_pick)]
      in if words = [] then None else Some (join_with [65307] words))"

section \<open>Reactions and recall\<close>

record reaction_line =
  re_content :: rstr
  re_is_image :: bool
  re_emoji :: rstr

definition REACTION_QUOTE_CHARS :: nat where "REACTION_QUOTE_CHARS = 20"

definition reaction_text :: "reaction_line \<Rightarrow> rstr option" where
  "reaction_text l =
     (let text = join_with [32] (split_whitespace (re_content l))
      in if text = [] then (if re_is_image l then Some ([20320, 21457, 30340, 29031, 29255, 65292, 23545, 26041, 22238, 20102] @ [32] @ re_emoji l) else None)
         else Some ([20320, 35828, 30340] @ quoted (take REACTION_QUOTE_CHARS text
                @ (if REACTION_QUOTE_CHARS < length text then [8230] else [])) @ [65292, 23545, 26041, 22238, 20102] @ [32] @ re_emoji l))"

definition reactions_context :: "reaction_line list \<Rightarrow> rstr" where
  "reactions_context lines =
     (let body = List.map_filter reaction_text lines
      in if body = [] then [] else [10, 10] @ str ''[reactions]'' @ [10] @ join_with [10] body)"

definition bullet_list :: "rstr list \<Rightarrow> rstr" where
  "bullet_list items = join_with [10] (map (\<lambda>f. str ''- '' @ f) items)"

definition render_recall_sections :: "(rstr \<times> rstr list) list \<Rightarrow> rstr list \<Rightarrow> rstr option \<times> rstr option" where
  "render_recall_sections profile_groups relationship_facts =
     (let groups = filter (\<lambda>(label, items). items \<noteq> []) profile_groups
      in (if groups = [] then None
          else Some (join_with [10, 10] (map (\<lambda>(label, items). [91] @ label @ [93, 10] @ bullet_list items) groups)),
          if relationship_facts = [] then None else Some (bullet_list relationship_facts)))"

end
