(* ===== verification/Model_History.thy ===== *)
theory Model_History
  imports Prompt_Text Group_Turn
begin

text \<open>
  What a reply model is shown of the conversation: the history reads of \<open>crates/eros-engine-store/src/chat.rs\<close>
  (\<open>history_up_to\<close>, \<open>group_history_for_turn\<close>), the rows as the model reads them (\<open>model_facing_history\<close> and its parts in
  \<open>crates/eros-engine-server/src/pipeline/handlers.rs\<close>), the strips and the echo cancellation of \<open>repetition.rs\<close>, and the
  window ladder of \<open>history_window.rs\<close>.
\<close>

section \<open>History rows\<close>

record history_row =
  hr_id :: uuid
  hr_session :: uuid
  hr_role :: rstr
  hr_content :: rstr
  hr_sent_at :: instant
  hr_user_message_id :: "uuid option"
  hr_channel :: "rstr option"
  hr_pre_filter_content :: "rstr option"
  hr_metadata :: "json option"
  hr_speaker_session_id :: "uuid option"

definition row_before :: "history_row \<Rightarrow> history_row \<Rightarrow> bool" where
  "row_before m a \<longleftrightarrow> hr_sent_at m < hr_sent_at a \<or> (hr_sent_at m = hr_sent_at a \<and> hr_id m < hr_id a)"

definition chronological :: "history_row list \<Rightarrow> history_row list" where
  "chronological rows = sort_key hr_sent_at (sort_key hr_id rows)"

definition newest_rows :: "nat \<Rightarrow> 'a list \<Rightarrow> 'a list" where
  "newest_rows n xs = drop (length xs - n) xs"

definition anchor_row :: "history_row list \<Rightarrow> uuid \<Rightarrow> uuid \<Rightarrow> history_row option" where
  "anchor_row rows session anchor = List.find (\<lambda>m. hr_id m = anchor \<and> hr_session m = session) rows"

definition history_up_to :: "history_row list \<Rightarrow> uuid \<Rightarrow> uuid \<Rightarrow> nat \<Rightarrow> history_row list" where
  "history_up_to rows session anchor limit = (case anchor_row rows session anchor of
     None \<Rightarrow> []
   | Some a \<Rightarrow> newest_rows limit (chronological (filter (\<lambda>m. hr_session m = session \<and> \<not> row_before a m) rows)))"

definition group_history_for_turn :: "history_row list \<Rightarrow> uuid \<Rightarrow> uuid \<Rightarrow> nat \<Rightarrow> history_row list" where
  "group_history_for_turn rows session anchor limit = (case anchor_row rows session anchor of
     None \<Rightarrow> []
   | Some a \<Rightarrow> chronological
       (newest_rows limit (chronological (filter (\<lambda>m. hr_session m = session \<and> \<not> row_before a m) rows))
        @ filter (\<lambda>m. hr_session m = session \<and> hr_user_message_id m = Some anchor \<and> hr_role m = str ''assistant''
            \<and> row_before a m) rows))"

section \<open>Strips\<close>

definition SENTENCE_DELIMS :: "rchar list" where
  "SENTENCE_DELIMS = [12290, 65281, 65311, 10, 8230, 33, 63, 126]"

function strip_leading_sentence :: "rstr \<Rightarrow> rstr" where
  "strip_leading_sentence rest =
     (let segment = takeWhile (\<lambda>c. c \<notin> set SENTENCE_DELIMS) rest;
          after = drop (Suc (length segment)) rest
      in if trim segment \<noteq> [] then trim after
         else if after = [] then [] else strip_leading_sentence after)"
  by pat_completeness auto
termination
  by (relation "measure length") auto

declare strip_leading_sentence.simps [simp del]

definition is_open_paren :: "rchar \<Rightarrow> bool" where
  "is_open_paren c \<longleftrightarrow> c = 40 \<or> c = 65288"

definition is_close_paren :: "rchar \<Rightarrow> bool" where
  "is_close_paren c \<longleftrightarrow> c = 41 \<or> c = 65289"

text \<open>A block closes, holds something, and at most 120 characters.\<close>

function drop_action_blocks :: "rstr \<Rightarrow> rstr" where
  "drop_action_blocks rest = (case dropWhile (\<lambda>c. \<not> is_open_paren c) rest of
     [] \<Rightarrow> rest
   | p # after \<Rightarrow>
       (let before = takeWhile (\<lambda>c. \<not> is_open_paren c) rest;
            body = takeWhile (\<lambda>c. \<not> is_close_paren c) after
        in if length body < length after \<and> 0 < length body \<and> length body \<le> 120
           then before @ drop_action_blocks (drop (Suc (length body)) after)
           else before @ p # drop_action_blocks after))"
  by pat_completeness auto
termination
proof (relation "measure length", simp)
  fix rest :: rstr and p after x xa
  assume d: "dropWhile (\<lambda>c. \<not> is_open_paren c) rest = p # after"
  have "length (p # after) \<le> length rest" unfolding d [symmetric] by (rule length_dropWhile_le)
  then show "(drop (Suc (length xa)) after, rest) \<in> measure length" and "(after, rest) \<in> measure length" by simp_all
qed

declare drop_action_blocks.simps [simp del]

fun split_char :: "rchar \<Rightarrow> rstr \<Rightarrow> rstr list" where
  "split_char d [] = [[]]"
| "split_char d (c # cs) = (if c = d then [] # split_char d cs
     else (case split_char d cs of w # ws \<Rightarrow> (c # w) # ws | [] \<Rightarrow> [[c]]))"

definition strip_action_blocks :: "rstr \<Rightarrow> rstr" where
  "strip_action_blocks text = join_with [10] (filter (\<lambda>l. l \<noteq> [])
     (map (\<lambda>line. join_with [32] (split_whitespace line)) (split_char 10 (drop_action_blocks text))))"

section \<open>Rows as the model reads them\<close>

definition effective_user_text :: "history_row \<Rightarrow> rstr" where
  "effective_user_text m = (case hr_pre_filter_content m of
     Some s \<Rightarrow> if trim s \<noteq> [] then s else hr_content m | None \<Rightarrow> hr_content m)"

definition text_field :: "rstr \<Rightarrow> json \<Rightarrow> rstr option" where
  "text_field k v = nonblank_text (Option.bind (json_get k v) as_str_json)"

definition meta_field :: "rstr \<Rightarrow> history_row \<Rightarrow> json option" where
  "meta_field k m = Option.bind (hr_metadata m) (json_get k)"

definition photo_marker :: "json \<Rightarrow> rstr" where
  "photo_marker img = (case text_field (str ''caption'') img of
     Some c \<Rightarrow> [91, 20320, 30340, 29031, 29255, 65306] @ c @ [93] | None \<Rightarrow> [91, 20320, 30340, 29031, 29255, 93])"

definition model_facing_assistant_text :: "history_row \<Rightarrow> bool \<Rightarrow> rstr" where
  "model_facing_assistant_text m strip =
     (let text = (if strip then strip_action_blocks (strip_leading_sentence (hr_content m)) else hr_content m)
      in case meta_field (str ''image'') m of
           None \<Rightarrow> text
         | Some img \<Rightarrow> if trim text = [] then photo_marker img else text @ [10, 10] @ photo_marker img)"

definition reaction_quote_source :: "rstr \<Rightarrow> bool \<Rightarrow> rstr" where
  "reaction_quote_source content strip =
     (if \<not> strip then content
      else (let stripped = strip_action_blocks (strip_leading_sentence content)
            in if trim stripped = [] \<and> trim content \<noteq> [] then content else stripped))"

definition build_image_preamble :: "json \<Rightarrow> rstr option" where
  "build_image_preamble vision = map_option (\<lambda>description. join_with [10]
       ([[91, 29992, 25143, 21457, 36865, 20102, 19968, 24352, 22270, 29255, 93], [30011, 38754, 65306] @ description]
        @ map (\<lambda>x. [25991, 23383, 65306] @ x) (option_list (text_field (str ''ocr_text'') vision))
        @ map (\<lambda>x. [20154, 29289, 65306] @ x) (option_list (text_field (str ''people'') vision))
        @ map (\<lambda>x. [22330, 26223, 65306] @ x) (option_list (text_field (str ''scene'') vision))))
     (text_field (str ''description'') vision)"

definition model_facing_user_text :: "history_row \<Rightarrow> rstr" where
  "model_facing_user_text m =
     (let base = user_text_with_action (action_from_metadata (hr_metadata m)) (effective_user_text m);
          preamble = or_else (Option.bind (meta_field (str ''vision'') m) build_image_preamble)
            (map_option (\<lambda>_. [91, 29992, 25143, 21457, 36865, 20102, 19968, 24352, 22270, 29255, 65292, 20294, 20869, 23481, 26080, 27861, 35782, 21035, 93]) (meta_field (str ''image_url'') m))
      in case preamble of
           Some p \<Rightarrow> p @ [10, 10] @ (if trim base = [] then [91, 29992, 25143, 26410, 38468, 25991, 23383, 93] else base)
         | None \<Rightarrow> base)"

definition recall_query_text :: "history_row \<Rightarrow> rstr" where
  "recall_query_text m =
     (let caption = effective_user_text m
      in if trim caption \<noteq> [] then caption
         else (case Option.bind (meta_field (str ''vision'') m) (text_field (str ''description'')) of
                 Some d \<Rightarrow> d | None \<Rightarrow> []))"

definition faced_row :: "bool \<Rightarrow> history_row \<Rightarrow> injected option" where
  "faced_row strip m =
     (if hr_channel m \<noteq> None then None
      else if hr_role m = str ''user''
      then Some \<lparr>inj_id = hr_id m, inj_role = str ''user'', inj_text = model_facing_user_text m\<rparr>
      else if hr_role m = str ''assistant''
      then (let text = model_facing_assistant_text m strip
            in if strip \<and> trim text = [] then None
               else Some \<lparr>inj_id = hr_id m, inj_role = str ''assistant'', inj_text = text\<rparr>)
      else None)"

definition model_facing_history :: "history_row list \<Rightarrow> bool \<Rightarrow> injected list" where
  "model_facing_history rows strip = List.map_filter (faced_row strip) rows"

section \<open>Echo cancellation\<close>

record echo_stats =
  es_dropped :: nat
  es_kept :: nat
  es_groups :: nat
  es_max_occ :: nat

definition occurrences :: "injected list \<Rightarrow> rstr \<Rightarrow> nat" where
  "occurrences msgs x = (if trim x = [] then 0 else length (filter (\<lambda>m. inj_text m = x) msgs))"

definition echo_kept :: "injected list \<Rightarrow> uuid \<Rightarrow> injected \<Rightarrow> bool" where
  "echo_kept msgs current m \<longleftrightarrow> trim (inj_text m) = [] \<or> inj_id m = current \<or> occurrences msgs (inj_text m) < 2"

definition cancel_echo :: "injected list \<Rightarrow> uuid \<Rightarrow> injected list \<times> echo_stats" where
  "cancel_echo msgs current =
     (let repeated = filter (\<lambda>n. 1 < n) (map (occurrences msgs) (remdups (map inj_text msgs)));
          kept = filter (echo_kept msgs current) msgs
      in (kept, \<lparr>es_dropped = length (filter (\<lambda>m. \<not> echo_kept msgs current m) msgs), es_kept = length kept,
                 es_groups = length repeated, es_max_occ = fold max repeated 0\<rparr>))"

definition apply_echo_cancellation :: "injected list \<Rightarrow> uuid \<Rightarrow> bool \<Rightarrow> injected list" where
  "apply_echo_cancellation msgs current disabled = (if disabled then msgs else fst (cancel_echo msgs current))"

section \<open>The window\<close>

record character_insights =
  ci_location :: "rstr option"
  ci_occupation :: "rstr option"
  ci_current_situation :: "rstr option"
  ci_desires :: "rstr option"
  ci_vulnerabilities :: "rstr option"
  ci_habits :: "rstr option"
  ci_personal_values :: "rstr option"
  ci_likes :: "rstr list"
  ci_dislikes :: "rstr list"
  ci_relationships :: "rstr list"

definition PROTECTED_PRIOR :: nat where "PROTECTED_PRIOR = 2"
definition FULL_ENOUGH :: nat where "FULL_ENOUGH = 7"
definition ROWS_PER_MISSING_FIELD :: nat where "ROWS_PER_MISSING_FIELD = 2"

definition filled_field_count :: "character_insights option \<Rightarrow> nat" where
  "filled_field_count row = (case row of None \<Rightarrow> 0
   | Some r \<Rightarrow> length (filter (\<lambda>v. nonblank_text v \<noteq> None)
         [ci_location r, ci_occupation r, ci_current_situation r, ci_desires r, ci_vulnerabilities r, ci_habits r,
          ci_personal_values r])
       + length (filter (\<lambda>v. v \<noteq> []) [ci_likes r, ci_dislikes r, ci_relationships r]))"

definition window_extra :: "nat \<Rightarrow> nat" where
  "window_extra filled = (FULL_ENOUGH - filled) * ROWS_PER_MISSING_FIELD"

fun position :: "('a \<Rightarrow> bool) \<Rightarrow> 'a list \<Rightarrow> nat option" where
  "position P [] = None"
| "position P (x # xs) = (if P x then Some 0 else map_option Suc (position P xs))"

fun rposition :: "('a \<Rightarrow> bool) \<Rightarrow> 'a list \<Rightarrow> nat option" where
  "rposition P [] = None"
| "rposition P (x # xs) = (case rposition P xs of Some i \<Rightarrow> Some (Suc i) | None \<Rightarrow> if P x then Some 0 else None)"

text \<open>The budget is spent on rows not kept yet, from the end.\<close>

fun spend :: "bool list \<Rightarrow> nat \<Rightarrow> bool list" where
  "spend [] budget = []"
| "spend (k # ks) budget = (if k then True # spend ks budget
     else (case budget of 0 \<Rightarrow> False # ks | Suc b \<Rightarrow> True # spend ks b))"

definition select_window :: "injected list \<Rightarrow> uuid \<Rightarrow> nat \<Rightarrow> injected list" where
  "select_window msgs current extra =
     (let cur = position (\<lambda>m. inj_id m = current) msgs;
          search_end = (case cur of Some c \<Rightarrow> c | None \<Rightarrow> length msgs);
          prev_user = rposition (\<lambda>m. inj_role m = str ''user'') (take search_end msgs);
          kept = map (\<lambda>i. cur = Some i \<or> (case prev_user of Some u \<Rightarrow> u \<le> i \<and> i < search_end | None \<Rightarrow> False))
            [0..<length msgs];
          protected_prior = length (filter (\<lambda>k. k) kept) - (if cur \<noteq> None then 1 else 0);
          budget = extra + (PROTECTED_PRIOR - protected_prior)
      in map fst (filter snd (zip msgs (rev (spend (rev kept) budget)))))"

end
