(* ===== verification/Reply_Request.thy ===== *)
theory Reply_Request
  imports Model_History
begin

text \<open>
  The request of a reply (\<open>build_reply_request_with\<close> of \<open>crates/eros-engine-server/src/pipeline/handlers.rs\<close>): the
  memories recalled for it, the recall gate over them, the profile bullets, their deduplication
  (\<open>memory_hygiene.rs\<close>), the traits a tier allows, and the messages sent. The reads of the database, the embedding and the
  vector searches are fields of \<open>reply_env\<close>; a search or read that fails is \<open>None\<close>. So is \<open>re_prompt\<close>, the wording of the
  system prompt with the further blocks it reads (emotional context, world, stories, journal, events, body, needs and the
  clock): a function of the turn, its plan and the parts of \<open>prompt_parts\<close>.
\<close>

section \<open>Deduplication of memories\<close>

definition memory_step :: "(rchar \<Rightarrow> rstr) \<Rightarrow> rchar \<Rightarrow> rstr \<times> bool \<Rightarrow> rstr \<times> bool" where
  "memory_step lower ch st = (case st of (out, prev_ws) \<Rightarrow>
     if is_ws ch then (if \<not> prev_ws \<and> out \<noteq> [] then out @ [32] else out, True) else (out @ lower ch, False))"

definition memory_normalize :: "(rchar \<Rightarrow> rstr) \<Rightarrow> rstr \<Rightarrow> rstr" where
  "memory_normalize lower s =
     (let s = trim s;
          s = (case or_else (strip_prefix [29992, 25143, 65306] s) (strip_prefix [65, 73, 65306] s) of Some x \<Rightarrow> x | None \<Rightarrow> s)
      in trim_end_matches (\<lambda>c. c = 32) (fst (fold (memory_step lower) s ([], False))))"

definition keep_item :: "(rchar \<Rightarrow> rstr) \<Rightarrow> rstr \<Rightarrow> rstr list \<Rightarrow> bool \<times> rstr list" where
  "keep_item lower raw kept =
     (let n = memory_normalize lower raw
      in if n = [] then (False, kept) else if n \<in> set kept then (False, kept) else (True, kept @ [n]))"

fun retain_items :: "(rchar \<Rightarrow> rstr) \<Rightarrow> rstr list \<Rightarrow> rstr list \<Rightarrow> rstr list \<times> rstr list" where
  "retain_items lower [] kept = ([], kept)"
| "retain_items lower (x # xs) kept =
     (let (keep, kept) = keep_item lower x kept; (rest, kept) = retain_items lower xs kept
      in (if keep then x # rest else rest, kept))"

fun retain_groups :: "(rchar \<Rightarrow> rstr) \<Rightarrow> (rstr \<times> rstr list) list \<Rightarrow> rstr list \<Rightarrow> (rstr \<times> rstr list) list \<times> rstr list" where
  "retain_groups lower [] kept = ([], kept)"
| "retain_groups lower ((label, items) # gs) kept =
     (let (items, kept) = retain_items lower items kept; (rest, kept) = retain_groups lower gs kept
      in ((label, items) # rest, kept))"

definition prune_recalled :: "(rchar \<Rightarrow> rstr) \<Rightarrow> (rstr \<times> rstr list) list \<Rightarrow> rstr list \<Rightarrow> (rstr \<times> rstr list) list \<times> rstr list" where
  "prune_recalled lower profile_groups relationship_facts =
     (let (groups, kept) = retain_groups lower profile_groups [] in (groups, fst (retain_items lower relationship_facts kept)))"

section \<open>Recall\<close>

record memory_row =
  my_content :: rstr
  my_category :: "rstr option"
  my_metadata :: "json option"

record recall_tier =
  rt_grouped_k :: int
  rt_raw_k :: int
  rt_relationship_k :: int

definition TEXT_RECALL_TIER :: recall_tier where
  "TEXT_RECALL_TIER = \<lparr>rt_grouped_k = 2, rt_raw_k = 4, rt_relationship_k = 3\<rparr>"

record recalled =
  rc_tier :: recall_tier
  rc_grouped :: "memory_row list"
  rc_raw :: "memory_row list"
  rc_relationship :: "rstr list"

definition nothing_recalled :: "recall_tier \<Rightarrow> recalled" where
  "nothing_recalled tier = \<lparr>rc_tier = tier, rc_grouped = [], rc_raw = [], rc_relationship = []\<rparr>"

definition memory_domain :: "memory_row \<Rightarrow> rstr option" where
  "memory_domain row = Option.bind (Option.bind (my_metadata row) (json_get (str ''domain''))) as_str_json"

definition category_label :: "rstr \<Rightarrow> rstr" where
  "category_label cat =
     (if cat = str ''fact'' then [23458, 35266, 20107, 23454] else if cat = str ''preference'' then [20559, 22909]
      else if cat = str ''event'' then [26368, 36817, 21457, 29983] else if cat = str ''emotion'' then [24773, 32490, 20542, 21521]
      else if cat = str ''relation'' then [20154, 38469, 20851, 31995] else [20854, 20182])"

definition add_to_groups :: "memory_row \<Rightarrow> (rstr \<times> rstr list) list \<Rightarrow> (rstr \<times> rstr list) list" where
  "add_to_groups row out =
     (let label = category_label (case my_category row of Some c \<Rightarrow> c | None \<Rightarrow> [])
      in if out \<noteq> [] \<and> fst (last out) = label then butlast out @ [(label, snd (last out) @ [my_content row])]
         else out @ [(label, [my_content row])])"

definition build_profile_groups :: "memory_row list \<Rightarrow> memory_row list \<Rightarrow> (rstr \<times> rstr list) list" where
  "build_profile_groups grouped_rows raw_rows =
     (if grouped_rows \<noteq> [] then fold add_to_groups grouped_rows []
      else if raw_rows \<noteq> [] then [([36817, 20917], map my_content raw_rows)] else [])"

text \<open>An \<open>i32\<close> as a \<open>usize\<close>.\<close>

definition as_usize :: "int \<Rightarrow> nat" where
  "as_usize k = (if k < 0 then nat (k + 2 ^ 64) else nat k)"

fun per_category :: "int \<Rightarrow> rstr option \<Rightarrow> int \<Rightarrow> memory_row list \<Rightarrow> memory_row list" where
  "per_category k cat taken [] = []"
| "per_category k cat taken (row # rows) =
     (let taken = (if my_category row \<noteq> cat then 0 else taken)
      in if taken < k then row # per_category k (my_category row) (taken + 1) rows
         else per_category k (my_category row) taken rows)"

definition render_recalled :: "recalled \<Rightarrow> recall_gate \<Rightarrow> (rstr \<times> rstr list) list \<times> rstr list" where
  "render_recalled r gate =
     (let grouped_k = profile_k gate (rt_grouped_k (rc_tier r));
          raw_k = profile_k gate (rt_raw_k (rc_tier r));
          relationship_k = relationship_k gate (rt_relationship_k (rc_tier r));
          allowed = (\<lambda>row. allows_memory_domain gate (memory_domain row))
      in (if rc_grouped r = [] then build_profile_groups [] (take (as_usize raw_k) (filter allowed (rc_raw r)))
          else build_profile_groups (per_category grouped_k None 0 (filter allowed (rc_grouped r))) [],
          take (as_usize relationship_k) (rc_relationship r)))"

record memory_store =
  ms_embed :: "rstr \<Rightarrow> f64 list option"
  ms_grouped :: "f64 list \<Rightarrow> int \<Rightarrow> memory_row list option"
  ms_raw :: "f64 list \<Rightarrow> int \<Rightarrow> memory_row list option"
  ms_relationship :: "f64 list \<Rightarrow> int \<Rightarrow> memory_row list option"

definition rows_found :: "memory_row list option \<Rightarrow> memory_row list" where
  "rows_found x = (case x of Some rows \<Rightarrow> rows | None \<Rightarrow> [])"

definition recall_memory_with_embedding :: "memory_store \<Rightarrow> f64 list \<Rightarrow> bool \<Rightarrow> bool \<Rightarrow> recall_tier \<Rightarrow> recalled" where
  "recall_memory_with_embedding ms e x_on y_on tier =
     (let relationship = map my_content (rows_found (ms_relationship ms e (rt_relationship_k tier)))
      in if x_on then \<lparr>rc_tier = tier, rc_grouped = rows_found (ms_grouped ms e (rt_grouped_k tier)),
             rc_raw = rows_found (ms_raw ms e (rt_raw_k tier)), rc_relationship = relationship\<rparr>
         else if y_on then (nothing_recalled tier)\<lparr>rc_relationship := relationship\<rparr>
         else nothing_recalled tier)"

definition recall_memory :: "memory_store \<Rightarrow> rstr \<Rightarrow> bool \<Rightarrow> bool \<Rightarrow> recall_tier \<Rightarrow> recalled \<times> f64 list option" where
  "recall_memory ms query_text x_on y_on tier =
     (if (\<not> x_on \<and> \<not> y_on) \<or> trim query_text = [] then (nothing_recalled tier, None)
      else (case ms_embed ms query_text of
          None \<Rightarrow> (nothing_recalled tier, None)
        | Some e \<Rightarrow> (recall_memory_with_embedding ms e x_on y_on tier, Some e)))"

section \<open>The profile\<close>

record human_insights =
  hi_occupation :: "rstr option"
  hi_mbti_guess :: "rstr option"
  hi_love_values :: "rstr option"
  hi_emotional_needs :: "rstr option"
  hi_life_rhythm :: "rstr option"
  hi_interests :: "rstr list"
  hi_personality_traits :: "rstr list"
  hi_deal_breakers :: "rstr list"
  hi_education :: "rstr option"
  hi_education_level :: "rstr option"
  hi_education_status :: "rstr option"
  hi_family :: "rstr option"
  hi_relationship_history :: "rstr option"
  hi_social_pattern :: "rstr option"
  hi_future_plans :: "rstr option"
  hi_finance_status :: "rstr option"
  hi_kinks :: "rstr list"
  hi_ideology :: "rstr option"
  hi_mental_health :: "rstr option"

definition push_str :: "rstr option \<Rightarrow> rstr \<Rightarrow> rstr list" where
  "push_str val label = map (\<lambda>s. label @ 65306 # s) (option_list (nonblank_text val))"

definition push_arr :: "rstr list \<Rightarrow> rstr \<Rightarrow> rstr list" where
  "push_arr val label =
     (let parts = filter (\<lambda>s. s \<noteq> []) (map trim val) in if parts = [] then [] else [label @ 65306 # join_with [12289] parts])"

definition intimate_label :: "intimate_field \<Rightarrow> rstr" where
  "intimate_label f = (case f of
     LoveValues \<Rightarrow> [24863, 24773, 35266] | RelationshipHistory \<Rightarrow> [24863, 24773, 32463, 21382] | Kinks \<Rightarrow> [24615, 30294] | Interests \<Rightarrow> [20852, 36259]
   | EmotionalNeeds \<Rightarrow> [24773, 24863, 38656, 27714] | Family \<Rightarrow> [23478, 24237] | FinanceStatus \<Rightarrow> [32463, 27982, 29366, 20917] | MentalHealth \<Rightarrow> [24515, 29702, 20581, 24247])"

definition education_level_label :: "rstr \<Rightarrow> rstr option" where
  "education_level_label code =
     (if code = str ''secondary_or_below'' then Some [20013, 23398, 21450, 20197, 19979] else if code = str ''associate'' then Some [19987, 31185]
      else if code = str ''bachelor'' then Some [26412, 31185] else if code = str ''master'' then Some [30805, 22763]
      else if code = str ''doctorate'' then Some [21338, 22763] else None)"

definition education_status_label :: "rstr option \<Rightarrow> rstr" where
  "education_status_label s =
     (if s = Some (str ''enrolled'') then [183, 22312, 35835] else if s = Some (str ''graduated'') then [183, 24050, 27605, 19994] else [])"

definition intimate_bullets :: "human_insights \<Rightarrow> rstr list" where
  "intimate_bullets row =
     push_str (hi_love_values row) (intimate_label LoveValues)
     @ push_str (hi_relationship_history row) (intimate_label RelationshipHistory)
     @ push_arr (hi_interests row) (intimate_label Interests)
     @ push_str (hi_emotional_needs row) (intimate_label EmotionalNeeds)
     @ push_str (hi_family row) (intimate_label Family)
     @ push_str (hi_finance_status row) (intimate_label FinanceStatus)
     @ push_arr (hi_kinks row) (intimate_label Kinks)
     @ push_str (hi_mental_health row) (intimate_label MentalHealth)"

definition human_insights_to_bullets :: "human_insights \<Rightarrow> insight_mode \<Rightarrow> rstr list" where
  "human_insights_to_bullets row mode =
     (if mode = InsightOff then []
      else push_str (hi_occupation row) [32844, 19994] @ push_str (hi_education row) [25945, 32946]
        @ map (\<lambda>level. [23398, 21382, 65306] @ level @ education_status_label (hi_education_status row))
            (option_list (Option.bind (hi_education_level row) education_level_label))
        @ push_str (hi_mbti_guess row) [77, 66, 84, 73] @ push_str (hi_ideology row) [24847, 35782, 24418, 24577]
        @ (if mode = InsightFull then intimate_bullets row else [])
        @ push_str (hi_life_rhythm row) [20316, 24687] @ push_str (hi_social_pattern row) [31038, 20132, 27169, 24335]
        @ push_arr (hi_personality_traits row) [24615, 26684, 29305, 36136] @ push_str (hi_future_plans row) [26410, 26469, 35745, 21010])"

definition insight_bullet_allowed :: "rstr \<Rightarrow> recall_gate \<Rightarrow> bool" where
  "insight_bullet_allowed bullet gate =
     (case List.find (\<lambda>f. case strip_prefix (intimate_label f) bullet of
          Some rest \<Rightarrow> prefix [65306] rest | None \<Rightarrow> False) all_intimate_fields of
        None \<Rightarrow> True | Some f \<Rightarrow> gate_allows gate f)"

text \<open>The read is asked for only when the mode is on; a failed read and no row are no bullets.\<close>

definition load_human_insight_bullets :: "human_insights option option \<Rightarrow> insight_mode \<Rightarrow> rstr list" where
  "load_human_insight_bullets loaded mode =
     (if mode = InsightOff then []
      else (case loaded of Some (Some row) \<Rightarrow> human_insights_to_bullets row mode | _ \<Rightarrow> []))"

section \<open>The request\<close>

definition filter_traits :: "prompt_trait list \<Rightarrow> rstr list option \<Rightarrow> prompt_trait list \<times> rstr list" where
  "filter_traits traits allow = (case allow of
     None \<Rightarrow> (traits, [])
   | Some tags \<Rightarrow> (filter (\<lambda>t. pt_tag t \<in> set tags) traits, map pt_tag (filter (\<lambda>t. pt_tag t \<notin> set tags) traits)))"

definition CHAT_TASK :: rstr where "CHAT_TASK = str ''chat_companion''"
definition HISTORY_WINDOW :: nat where "HISTORY_WINDOW = 20"

definition event_message :: "event \<Rightarrow> user_message option" where
  "event_message e = (case e of UserMessage m \<Rightarrow> Some m | _ \<Rightarrow> None)"

definition audit_from_event :: "event \<Rightarrow> llm_audit option" where
  "audit_from_event e = Option.bind (event_message e) um_audit"

definition assemble_chat_request :: "resolved_model \<Rightarrow> rstr \<Rightarrow> injected list \<Rightarrow> llm_audit option \<Rightarrow> chat_request" where
  "assemble_chat_request resolved sys msgs audit =
     \<lparr>req_model = rm_model resolved, req_fallback_model = rm_fallback_model resolved,
      req_messages = Llm_Chain.chat_message.make (str ''system'') sys
        # map (\<lambda>m. Llm_Chain.chat_message.make (inj_role m) (inj_text m)) msgs,
      req_temperature = rm_temperature resolved, req_sampling = rm_sampling resolved,
      req_max_tokens = rm_max_tokens resolved, req_user = Option.bind audit au_user,
      req_session_id = Option.bind audit au_session_id, req_metadata = Option.bind audit au_metadata,
      req_response_format = None, req_task = Some CHAT_TASK\<rparr>"

record reacted_message =
  rd_content :: rstr
  rd_is_image :: bool
  rd_reaction :: rstr

text \<open>The parts the wording of the system prompt is a function of.\<close>

record prompt_parts =
  pp_profile_groups :: "(rstr \<times> rstr list) list"
  pp_relationship_facts :: "rstr list"
  pp_traits :: "prompt_trait list"
  pp_affinity_scope :: affinity_scope
  pp_quote :: "quoted_message option"
  pp_character :: "character_insights option"
  pp_embedding :: "f64 list option"

record reply_env =
  re_rows :: "history_row list option"
  re_newest :: "history_row list option"
  re_memory :: memory_store
  re_insights :: "human_insights option option"
  re_characters :: "character_insights option option"
  re_lower :: "rchar \<Rightarrow> rstr"
  re_config :: model_config
  re_draw :: "f64 \<Rightarrow> f64"
  re_reactions :: "reacted_message list option"
  re_prompt :: "decision_input \<Rightarrow> action_plan \<Rightarrow> prompt_parts \<Rightarrow> rstr"
  re_noise_disabled :: bool
  re_echo_disabled :: bool

definition turn_history :: "reply_env \<Rightarrow> uuid \<Rightarrow> uuid \<Rightarrow> group_speaker_view option \<Rightarrow> history_row list option" where
  "turn_history env session user_message_id grp = (case grp of
     Some g \<Rightarrow> map_option (\<lambda>rows. group_history_for_turn rows (gv_group_session_id g) user_message_id HISTORY_WINDOW) (re_rows env)
   | None \<Rightarrow> Option.bind (re_rows env) (\<lambda>rows.
       let found = history_up_to rows session user_message_id HISTORY_WINDOW
       in if found = [] then re_newest env else Some found))"

definition recall_query :: "event \<Rightarrow> uuid \<Rightarrow> history_row list \<Rightarrow> rstr" where
  "recall_query e user_message_id rows =
     (case List.find (\<lambda>m. hr_id m = user_message_id \<and> hr_role m = str ''user'') (rev rows) of
        Some m \<Rightarrow> recall_query_text m
      | None \<Rightarrow> (case event_message e of Some m \<Rightarrow> um_content m | None \<Rightarrow> []))"

definition event_scopes :: "event \<Rightarrow> memory_scope \<times> affinity_scope" where
  "event_scopes e = (case event_message e of
     Some m \<Rightarrow> (um_memory_scope m, um_affinity_scope m) | None \<Rightarrow> (default_memory_scope, default_affinity_scope))"

text \<open>Profile and relationship memories of a turn, gated, with the query's embedding.\<close>

definition turn_memories :: "reply_env \<Rightarrow> decision_input \<Rightarrow> rstr \<Rightarrow> (rstr \<times> rstr list) list \<times> rstr list \<times> f64 list option" where
  "turn_memories env inp query_text =
     (let (mode, x_on, y_on) = resolve_scope (fst (event_scopes (in_event inp)));
          gate = gate_from_affinity (in_affinity inp);
          (r, e) = recall_memory (re_memory env) query_text (x_on \<and> recalls_profile_layer gate) y_on TEXT_RECALL_TIER;
          (groups, facts) = render_recalled r gate;
          bullets = filter (\<lambda>b. insight_bullet_allowed b gate) (load_human_insight_bullets (re_insights env) mode);
          groups = (if bullets \<noteq> [] then ([22522, 30784, 30011, 20687], bullets) # groups else groups);
          (groups, facts) = prune_recalled (re_lower env) groups facts
      in (groups, facts, e))"

definition injected_history :: "reply_env \<Rightarrow> uuid \<Rightarrow> group_speaker_view option \<Rightarrow> character_insights option \<Rightarrow> history_row list \<Rightarrow> injected list" where
  "injected_history env user_message_id grp character rows =
     apply_echo_cancellation
       (case grp of
          Some g \<Rightarrow> speaker_view (model_facing_history rows False) (model_facing_history rows (\<not> re_noise_disabled env))
            (map_of (rev (map (\<lambda>m. (hr_id m, hr_speaker_session_id m)) rows))) g
        | None \<Rightarrow> if re_noise_disabled env then model_facing_history rows False
            else select_window (model_facing_history rows True) user_message_id (window_extra (filled_field_count character)))
       user_message_id (re_echo_disabled env)"

definition reactions_block :: "reply_env \<Rightarrow> rstr" where
  "reactions_block env = reactions_context (map (\<lambda>r. \<lparr>re_content = reaction_quote_source (rd_content r) (\<not> re_noise_disabled env),
     re_is_image = rd_is_image r, re_emoji = rd_reaction r\<rparr>) (case re_reactions env of Some rs \<Rightarrow> rs | None \<Rightarrow> []))"

definition action_block :: "decision_input \<Rightarrow> action_plan \<Rightarrow> rstr" where
  "action_block inp plan = (case (Option.bind (event_message (in_event inp)) um_action, plan_action_response plan) of
     (Some a, Some response) \<Rightarrow> user_action_context a response (tip_personality (cp_genome (in_persona inp)))
   | _ \<Rightarrow> [])"

definition build_reply_request_with :: "reply_env \<Rightarrow> decision_input \<Rightarrow> action_plan \<Rightarrow> uuid \<Rightarrow> uuid \<Rightarrow> bool
    \<Rightarrow> group_speaker_view option \<Rightarrow> (chat_request \<times> rstr list \<times> model_config) option" where
  "build_reply_request_with env inp plan session user_message_id render_reactions grp =
     map_option (\<lambda>rows.
       let (groups, facts, e) = turn_memories env inp (recall_query (in_event inp) user_message_id rows);
           m = event_message (in_event inp);
           (resolved, cfg) = resolve_model (re_draw env) (re_config env) CHAT_TASK (Option.bind m um_tier);
           (traits, dropped) = filter_traits (case m of Some u \<Rightarrow> um_prompt_traits u | None \<Rightarrow> []) (rm_allow_traits resolved);
           character = (case re_characters env of Some c \<Rightarrow> c | None \<Rightarrow> None);
           sys = re_prompt env inp plan
               \<lparr>pp_profile_groups = groups, pp_relationship_facts = facts, pp_traits = traits,
                pp_affinity_scope = snd (event_scopes (in_event inp)), pp_quote = Option.bind m um_quote,
                pp_character = (if re_noise_disabled env then None else character), pp_embedding = e\<rparr>
             @ (if render_reactions then reactions_block env else [])
             @ action_block inp plan
             @ (case grp of Some g \<Rightarrow> gv_block g | None \<Rightarrow> [])
       in (assemble_chat_request resolved sys (injected_history env user_message_id grp character rows)
             (audit_from_event (in_event inp)), map pt_tag traits, cfg))
     (turn_history env session user_message_id grp)"

end
