(* ===== verification/Reply_Request_Laws.thy ===== *)
theory Reply_Request_Laws
  imports Reply_Request Model_Select_Laws
begin

text \<open>
  What a reply request guarantees: the turn's own message closes it, the window before it is the one the ladder
  asks for, nothing is shown twice, and the recall gate holds for every line of the profile.
\<close>

section \<open>The window\<close>

lemma spend_kept: "spend (replicate n True @ ks) b = replicate n True @ spend ks b"
  by (induction n) simp_all

lemma spend_free: "spend (replicate n False) b = replicate (min n b) True @ replicate (n - b) False"
  by (induction n arbitrary: b) (auto split: nat.split)

lemma position_last: "\<forall>x \<in> set xs. \<not> P x \<Longrightarrow> P y \<Longrightarrow> position P (xs @ y # ys) = Some (length xs)"
  by (induction xs) simp_all

lemma rposition_None: "\<forall>x \<in> set xs. \<not> P x \<Longrightarrow> rposition P xs = None"
  by (induction xs) simp_all

lemma rposition_last: "P y \<Longrightarrow> \<forall>x \<in> set ys. \<not> P x \<Longrightarrow> rposition P (xs @ y # ys) = Some (length xs)"
  by (induction xs) (simp_all add: rposition_None)

lemma kept_flags: "map (\<lambda>i. n \<le> i) [0..<n + k] = replicate n False @ replicate k True"
  by (intro nth_equalityI) (auto simp: nth_append)

lemma zip_flags:
  "n \<le> length xs \<Longrightarrow> map fst (filter snd (zip (xs @ ys) (replicate n False @ replicate (length xs - n + length ys) True)))
    = drop n xs @ ys"
proof (induction n arbitrary: xs)
  case 0
  have "filter snd (zip zs (replicate (length zs) True)) = zip zs (replicate (length zs) True)" for zs :: "'a list"
    by (rule filter_True) (auto simp: set_zip)
  from this [of "xs @ ys"] show ?case by simp
next
  case (Suc n)
  then obtain z zs where "xs = z # zs" by (cases xs) auto
  then show ?case using Suc.IH [of zs] Suc.prems by simp
qed

text \<open>C40: The injected window of a turn, its row last in the history: the row, the whole exchange before it, from the
  previous user row on however many rows answered it, and of what is older exactly the newest rows the ladder
  asks for, topped up so that at least two rows precede the turn; in order, with no gap.\<close>

theorem window_is_previous_exchange:
  assumes "inj_id cur = current" and "\<forall>m \<in> set (older @ u # mid). inj_id m \<noteq> current"
    and "inj_role u = str ''user''" and "\<forall>m \<in> set mid. inj_role m \<noteq> str ''user''"
  shows "select_window (older @ u # mid @ [cur]) current extra
    = newest_rows (extra + (PROTECTED_PRIOR - Suc (length mid))) older @ u # mid @ [cur]"
proof -
  let ?msgs = "older @ u # mid @ [cur]" and ?n = "length older" and ?k = "Suc (length mid)"
  let ?b = "extra + (PROTECTED_PRIOR - ?k)"
  have cur: "position (\<lambda>m. inj_id m = current) ?msgs = Some (?n + ?k)"
    using position_last [of "older @ u # mid" "\<lambda>m. inj_id m = current" cur "[]"] assms(1,2) by simp
  have take: "take (?n + ?k) ?msgs = older @ u # mid" by simp
  have prev: "rposition (\<lambda>m. inj_role m = str ''user'') (older @ u # mid) = Some ?n"
    by (rule rposition_last) (use assms(3,4) in \<open>simp_all del: str_simps\<close>)
  have flags: "map (\<lambda>i. Some (?n + ?k) = Some i \<or> ?n \<le> i \<and> i < ?n + ?k) [0..<length ?msgs]
      = replicate ?n False @ replicate (Suc ?k) True"
  proof -
    have "map (\<lambda>i. Some (?n + ?k) = Some i \<or> ?n \<le> i \<and> i < ?n + ?k) [0..<length ?msgs] = map (\<lambda>i. ?n \<le> i) [0..<?n + Suc ?k]"
      by (rule map_cong) auto
    then show ?thesis by (simp only: kept_flags)
  qed
  have spent: "rev (spend (rev (replicate ?n False @ replicate (Suc ?k) True)) ?b)
      = replicate (?n - ?b) False @ replicate (min ?n ?b + Suc ?k) True"
    by (simp add: spend_kept spend_free del: replicate.simps flip: replicate_add)
  have "min ?n ?b = length older - (?n - ?b)" by simp
  then have "map fst (filter snd (zip (older @ (u # mid @ [cur])) (replicate (?n - ?b) False @ replicate (min ?n ?b + Suc ?k) True)))
      = drop (?n - ?b) older @ u # mid @ [cur]"
    using zip_flags [of "?n - ?b" older "u # mid @ [cur]"] by simp
  then have shown: "map fst (filter snd (zip ?msgs (rev (spend (rev (replicate ?n False @ replicate (Suc ?k) True)) ?b))))
      = newest_rows ?b older @ u # mid @ [cur]"
    by (simp only: spent newest_rows_def)
  have protected: "length (filter (\<lambda>k. k) (replicate ?n False @ replicate (Suc ?k) True)) - 1 = ?k"
    by (simp add: filter_replicate)
  have "select_window ?msgs current extra
      = map fst (filter snd (zip ?msgs (rev (spend (rev (replicate ?n False @ replicate (Suc ?k) True)) ?b))))"
    unfolding select_window_def Let_def cur option.case take prev flags if_True option.distinct
    by (simp only: protected option.distinct not_False_eq_True simp_thms if_True)
  then show ?thesis using shown by simp
qed

definition wit_line :: "nat \<Rightarrow> rstr \<Rightarrow> injected" where
  "wit_line i role = \<lparr>inj_id = i, inj_role = role, inj_text = []\<rparr>"

theorem window_is_previous_exchange_witness:
  "select_window [wit_line 1 (str ''user''), wit_line 2 (str ''assistant''), wit_line 3 (str ''user''), wit_line 4 (str ''assistant''),
      wit_line 5 (str ''user'')] 5 1
    = [wit_line 2 (str ''assistant''), wit_line 3 (str ''user''), wit_line 4 (str ''assistant''), wit_line 5 (str ''user'')]"
  using window_is_previous_exchange [of "wit_line 5 (str ''user'')" 5 "[wit_line 1 (str ''user''), wit_line 2 (str ''assistant'')]"
      "wit_line 3 (str ''user'')" "[wit_line 4 (str ''assistant'')]" 1]
  by (simp add: wit_line_def newest_rows_def PROTECTED_PRIOR_def)

section \<open>What a reply may not show\<close>

text \<open>The profile of a user with what the reply may not show taken out: a field of an intimate line below its tier,
  every intimate field outside the full mode.\<close>

definition shown_field :: "insight_mode \<Rightarrow> recall_gate \<Rightarrow> intimate_field \<Rightarrow> bool" where
  "shown_field mode gate f \<longleftrightarrow> mode = InsightFull \<and> gate_allows gate f"

definition withheld_insights :: "insight_mode \<Rightarrow> recall_gate \<Rightarrow> human_insights \<Rightarrow> human_insights" where
  "withheld_insights mode gate row =
     (let str_of = (\<lambda>f v. if shown_field mode gate f then v else None); list_of = (\<lambda>f v. if shown_field mode gate f then v else [])
      in row\<lparr>hi_love_values := str_of LoveValues (hi_love_values row),
             hi_relationship_history := str_of RelationshipHistory (hi_relationship_history row),
             hi_interests := list_of Interests (hi_interests row),
             hi_emotional_needs := str_of EmotionalNeeds (hi_emotional_needs row),
             hi_family := str_of Family (hi_family row),
             hi_finance_status := str_of FinanceStatus (hi_finance_status row),
             hi_kinks := list_of Kinks (hi_kinks row),
             hi_mental_health := str_of MentalHealth (hi_mental_health row)\<rparr>)"

definition erased :: "memory_row \<Rightarrow> memory_row" where
  "erased row = row\<lparr>my_content := []\<rparr>"

definition withheld_rows :: "(memory_row \<Rightarrow> bool) \<Rightarrow> (f64 list \<Rightarrow> int \<Rightarrow> memory_row list option) \<Rightarrow> f64 list \<Rightarrow> int \<Rightarrow> memory_row list option" where
  "withheld_rows shown search e k = map_option (map (\<lambda>row. if shown row then row else erased row)) (search e k)"

definition withheld :: "decision_input \<Rightarrow> reply_env \<Rightarrow> reply_env" where
  "withheld inp env =
     (let (mode, x_on, y_on) = resolve_scope (fst (event_scopes (in_event inp)));
          gate = gate_from_affinity (in_affinity inp);
          profile = (\<lambda>row. x_on \<and> recalls_profile_layer gate \<and> allows_memory_domain gate (memory_domain row));
          ms = re_memory env
      in env\<lparr>re_memory := ms\<lparr>ms_grouped := withheld_rows profile (ms_grouped ms), ms_raw := withheld_rows profile (ms_raw ms),
               ms_relationship := withheld_rows (\<lambda>_. y_on) (ms_relationship ms)\<rparr>,
             re_insights := (if mode = InsightOff then None
               else map_option (map_option (withheld_insights mode gate)) (re_insights env))\<rparr>)"

lemma allowed_intimate: "insight_bullet_allowed (intimate_label f @ 65306 # s) gate = gate_allows gate f"
  by (cases f) (simp_all add: insight_bullet_allowed_def all_intimate_fields_def intimate_label_def strip_prefix_def)

lemma allowed_neutral:
  assumes "\<forall>f. \<not> prefix (intimate_label f @ [65306]) b" shows "insight_bullet_allowed b gate"
proof -
  have "\<not> (case strip_prefix (intimate_label f) b of Some rest \<Rightarrow> prefix [65306] rest | None \<Rightarrow> False)" for f
    using assms [THEN spec, of f] by (auto simp: strip_prefix_def prefix_def split: option.splits if_splits)
  then have "List.find (\<lambda>f. case strip_prefix (intimate_label f) b of Some rest \<Rightarrow> prefix [65306] rest | None \<Rightarrow> False) fs = None" for fs
    by (induction fs) simp_all
  then show ?thesis by (simp add: insight_bullet_allowed_def)
qed

lemma intimate_openings:
  "(\<forall>f. \<not> prefix (intimate_label f @ [65306]) b) \<longleftrightarrow>
    (\<forall>l \<in> set (map intimate_label all_intimate_fields). \<not> prefix (l @ [65306]) b)"
proof -
  have "f \<in> set all_intimate_fields" for f by (cases f) (simp_all add: all_intimate_fields_def)
  then show ?thesis by auto
qed

lemmas neutral_bullet = allowed_neutral [unfolded intimate_openings]

lemma filter_push_str:
  "filter (\<lambda>b. insight_bullet_allowed b gate) (push_str v (intimate_label f)) = push_str (if gate_allows gate f then v else None) (intimate_label f)"
  "\<forall>s. insight_bullet_allowed (l @ 65306 # s) gate \<Longrightarrow> filter (\<lambda>b. insight_bullet_allowed b gate) (push_str v l) = push_str v l"
  by (auto simp: push_str_def option_list_def allowed_intimate nonblank_text_def split: option.splits)

lemma filter_push_arr:
  "filter (\<lambda>b. insight_bullet_allowed b gate) (push_arr vs (intimate_label f)) = push_arr (if gate_allows gate f then vs else []) (intimate_label f)"
  "\<forall>s. insight_bullet_allowed (l @ 65306 # s) gate \<Longrightarrow> filter (\<lambda>b. insight_bullet_allowed b gate) (push_arr vs l) = push_arr vs l"
  by (auto simp: push_arr_def allowed_intimate Let_def)


lemma neutral_labels:
  "l \<in> {[32844, 19994], [25945, 32946], [77, 66, 84, 73], [24847, 35782, 24418, 24577], [20316, 24687], [31038, 20132, 27169, 24335],
     [24615, 26684, 29305, 36136], [26410, 26469, 35745, 21010], [23398, 21382]} \<Longrightarrow> insight_bullet_allowed (l @ 65306 # s) gate"
  by (rule neutral_bullet) (auto simp: all_intimate_fields_def intimate_label_def)

lemma push_nothing [simp]: "push_str None l = []" "push_arr [] l = []"
  by (simp_all add: push_str_def push_arr_def nonblank_text_def option_list_def)

lemma bullets_withheld:
  "filter (\<lambda>b. insight_bullet_allowed b gate) (human_insights_to_bullets row mode)
    = human_insights_to_bullets (withheld_insights mode gate row) mode"
proof -
  have level: "insight_bullet_allowed ([23398, 21382, 65306] @ x) gate" for x
    using neutral_labels [of "[23398, 21382]" x gate] by simp
  have levels: "filter (\<lambda>b. insight_bullet_allowed b gate) (map (\<lambda>x. [23398, 21382, 65306] @ x @ y) zs)
      = map (\<lambda>x. [23398, 21382, 65306] @ x @ y) zs" for y zs
    by (rule filter_True) (use level in auto)
  have inner: "filter (\<lambda>b. insight_bullet_allowed b gate) (intimate_bullets row) = intimate_bullets (withheld_insights InsightFull gate row)"
    by (simp add: intimate_bullets_def withheld_insights_def shown_field_def Let_def filter_push_str(1) filter_push_arr(1)
        split del: if_split)
  have kept: "hi_occupation (withheld_insights m gate row) = hi_occupation row" "hi_education (withheld_insights m gate row) = hi_education row"
    "hi_education_level (withheld_insights m gate row) = hi_education_level row"
    "hi_education_status (withheld_insights m gate row) = hi_education_status row"
    "hi_mbti_guess (withheld_insights m gate row) = hi_mbti_guess row" "hi_ideology (withheld_insights m gate row) = hi_ideology row"
    "hi_life_rhythm (withheld_insights m gate row) = hi_life_rhythm row"
    "hi_social_pattern (withheld_insights m gate row) = hi_social_pattern row"
    "hi_personality_traits (withheld_insights m gate row) = hi_personality_traits row"
    "hi_future_plans (withheld_insights m gate row) = hi_future_plans row" for m
    by (simp_all add: withheld_insights_def Let_def)
  show ?thesis
    by (cases "mode = InsightOff"; cases "mode = InsightFull")
      (simp_all add: human_insights_to_bullets_def kept inner filter_push_str(2) filter_push_arr(2) neutral_labels levels
        del: append.simps)
qed

lemma loaded_withheld:
  "filter (\<lambda>b. insight_bullet_allowed b gate) (load_human_insight_bullets loaded mode)
    = filter (\<lambda>b. insight_bullet_allowed b gate) (load_human_insight_bullets
        (if mode = InsightOff then None else map_option (map_option (withheld_insights mode gate)) loaded) mode)"
proof -
  have again: "withheld_insights mode gate (withheld_insights mode gate row) = withheld_insights mode gate row" for row
    by (simp add: withheld_insights_def Let_def)
  show ?thesis
    by (auto simp: load_human_insight_bullets_def bullets_withheld again split: option.splits)
qed

lemma erased_simps [simp]: "memory_domain (erased row) = memory_domain row" "my_category (erased row) = my_category row"
  by (simp_all add: erased_def memory_domain_def)

lemma rows_found_withheld:
  "rows_found (withheld_rows shown search e k) = map (\<lambda>row. if shown row then row else erased row) (rows_found (search e k))"
  by (simp add: rows_found_def withheld_rows_def split: option.split)

lemma filter_withheld:
  "(\<And>row. P (erased row) = P row) \<Longrightarrow> (\<And>row. P row \<Longrightarrow> shown row)
    \<Longrightarrow> filter P (map (\<lambda>row. if shown row then row else erased row) rows) = filter P rows"
  by (induction rows) auto

lemma recall_withheld:
  fixes gate :: recall_gate and ms :: memory_store and x_on y_on :: bool
  defines "shown \<equiv> \<lambda>row. x_on \<and> allows_memory_domain gate (memory_domain row)"
    and "hidden \<equiv> \<lambda>sh. ms\<lparr>ms_grouped := withheld_rows sh (ms_grouped ms), ms_raw := withheld_rows sh (ms_raw ms),
          ms_relationship := withheld_rows (\<lambda>_. y_on) (ms_relationship ms)\<rparr>"
  assumes "x_on \<Longrightarrow> y_on"
  shows "(let (r, e) = recall_memory (hidden shown) q x_on y_on tier in (render_recalled r gate, e))
    = (let (r, e) = recall_memory ms q x_on y_on tier in (render_recalled r gate, e))"
proof -
  have same: "map my_content (rows_found (withheld_rows (\<lambda>_. True) search e k)) = map my_content (rows_found (search e k))" for search e k
    by (simp add: rows_found_withheld)
  have gated: "filter (\<lambda>row. allows_memory_domain gate (memory_domain row)) (rows_found (withheld_rows shown search e k))
      = filter (\<lambda>row. allows_memory_domain gate (memory_domain row)) (rows_found (search e k))" if x_on for search e k
    unfolding rows_found_withheld by (rule filter_withheld) (simp_all add: shown_def that)
  have none: "(rows_found (withheld_rows shown search e k) = []) = (rows_found (search e k) = [])" for search e k
    by (simp add: rows_found_withheld)
  show ?thesis
  proof (cases "(\<not> x_on \<and> \<not> y_on) \<or> trim q = []")
    case False
    show ?thesis
    proof (cases x_on)
      case True
      then show ?thesis using False assms(3) gated [OF True]
        by (simp add: recall_memory_def hidden_def recall_memory_with_embedding_def render_recalled_def Let_def same none
            split: option.split)
    next
      case no_profile: False
      then show ?thesis using False
        by (simp add: recall_memory_def hidden_def recall_memory_with_embedding_def render_recalled_def nothing_recalled_def
            Let_def same split: option.split)
    qed
  qed (auto simp: recall_memory_def)
qed


lemma resolved_layers: "resolve_scope scope = (mode, x_on, y_on) \<Longrightarrow> x_on \<Longrightarrow> y_on"
  by (auto simp: resolve_scope_def split: memory_scope.splits)

lemma memories_withheld: "turn_memories (withheld inp env) inp q = turn_memories env inp q"
proof -
  obtain mode x_on y_on where scope: "resolve_scope (fst (event_scopes (in_event inp))) = (mode, x_on, y_on)"
    using prod_cases3 by blast
  let ?gate = "gate_from_affinity (in_affinity inp)" and ?x = "x_on \<and> recalls_profile_layer (gate_from_affinity (in_affinity inp))"
  let ?ms = "re_memory (withheld inp env)"
  have env: "re_lower (withheld inp env) = re_lower env"
    "re_insights (withheld inp env) = (if mode = InsightOff then None
       else map_option (map_option (withheld_insights mode ?gate)) (re_insights env))"
    by (simp_all add: withheld_def scope Let_def)
  have "(let (r, e) = recall_memory ?ms q ?x y_on TEXT_RECALL_TIER in (render_recalled r ?gate, e))
      = (let (r, e) = recall_memory (re_memory env) q ?x y_on TEXT_RECALL_TIER in (render_recalled r ?gate, e))"
    using recall_withheld [where x_on = ?x and y_on = y_on and gate = ?gate and ms = "re_memory env" and q = q and tier = TEXT_RECALL_TIER] resolved_layers [OF scope]
    by (simp add: withheld_def scope Let_def conj_assoc)
  then have recalled: "render_recalled (fst (recall_memory ?ms q ?x y_on TEXT_RECALL_TIER)) ?gate
        = render_recalled (fst (recall_memory (re_memory env) q ?x y_on TEXT_RECALL_TIER)) ?gate"
      "snd (recall_memory ?ms q ?x y_on TEXT_RECALL_TIER) = snd (recall_memory (re_memory env) q ?x y_on TEXT_RECALL_TIER)"
    by (simp_all add: case_prod_beta)
  show ?thesis
    unfolding turn_memories_def scope Let_def prod.case case_prod_beta fst_conv snd_conv env recalled loaded_withheld [symmetric] ..
qed

text \<open>C8: A request shows nothing the relationship and the memory scope withhold: with every withheld memory row erased and
  every withheld field of the user's profile emptied, whatever they held, the turn builds the same request, whatever the
  wording of the prompt makes of its parts. Erased are the profile memories of a closed domain, all of them below the
  second tier or outside the scope, the relationship's lines outside the scope, an intimate field below its tier or outside
  the full mode, and the whole profile when it is off.\<close>

theorem reply_request_shows_nothing_withheld:
  "build_reply_request_with (withheld inp env) inp plan session user_message_id render_reactions grp
    = build_reply_request_with env inp plan session user_message_id render_reactions grp"
proof -
  have env: "re_rows (withheld inp env) = re_rows env" "re_newest (withheld inp env) = re_newest env"
    "re_characters (withheld inp env) = re_characters env" "re_config (withheld inp env) = re_config env"
    "re_draw (withheld inp env) = re_draw env" "re_reactions (withheld inp env) = re_reactions env"
    "re_prompt (withheld inp env) = re_prompt env" "re_noise_disabled (withheld inp env) = re_noise_disabled env"
    "re_echo_disabled (withheld inp env) = re_echo_disabled env"
    by (simp_all add: withheld_def Let_def case_prod_beta)
  show ?thesis
    unfolding build_reply_request_with_def turn_history_def injected_history_def reactions_block_def memories_withheld env ..
qed


section \<open>The turn's own message\<close>

definition seen_by_model :: "bool \<Rightarrow> history_row \<Rightarrow> bool" where
  "seen_by_model strip m \<longleftrightarrow> hr_channel m = None \<and> (hr_role m = str ''user'' \<or> hr_role m = str ''assistant'' \<and>
     (strip \<longrightarrow> trim (model_facing_assistant_text m strip) \<noteq> []))"

definition as_injected :: "bool \<Rightarrow> history_row \<Rightarrow> injected" where
  "as_injected strip m = \<lparr>inj_id = hr_id m, inj_role = hr_role m,
     inj_text = (if hr_role m = str ''user'' then model_facing_user_text m else model_facing_assistant_text m strip)\<rparr>"

lemma as_injected_simps [simp]: "inj_id (as_injected strip m) = hr_id m" "inj_role (as_injected strip m) = hr_role m"
  by (simp_all add: as_injected_def)

lemma faced_rows: "model_facing_history rows strip = map (as_injected strip) (filter (seen_by_model strip) rows)"
proof -
  have "faced_row strip m = (if seen_by_model strip m then Some (as_injected strip m) else None)" for m
    by (auto simp: faced_row_def seen_by_model_def as_injected_def Let_def simp del: str_simps)
  then show ?thesis by (induction rows) (simp_all add: model_facing_history_def List.map_filter_simps)
qed

lemma length_spend [simp]: "length (spend ks b) = length ks"
  by (induction ks b rule: spend.induct) (auto split: nat.split)

lemma spend_keeps: "i < length ks \<Longrightarrow> ks ! i \<Longrightarrow> spend ks b ! i"
  by (induction ks b arbitrary: i rule: spend.induct) (auto simp: nth_Cons' split: nat.split)

lemma map_flags: "map fst (filter snd (zip (map f xs) ks)) = map f (map fst (filter snd (zip xs ks)))"
proof (induction xs arbitrary: ks)
  case (Cons x xs) then show ?case by (cases ks) simp_all
qed simp

lemma subseq_flags: "subseq (map fst (filter snd (zip xs ks))) xs"
proof (induction xs arbitrary: ks)
  case (Cons x xs) then show ?case by (cases ks) auto
qed simp

lemma flags_snoc: "length ks = Suc (length xs) \<Longrightarrow> ks ! length xs \<Longrightarrow>
  map fst (filter snd (zip (xs @ [x]) ks)) = map fst (filter snd (zip xs (butlast ks))) @ [x]"
  by (cases ks rule: rev_cases) (simp_all add: nth_append)

text \<open>Whatever the window keeps, it keeps the current row, last as it was last.\<close>

lemma window_keeps_current:
  assumes "\<forall>m \<in> set ms. inj_id (f m) \<noteq> current" and "inj_id (f d) = current"
  shows "\<exists>ns. select_window (map f (ms @ [d])) current extra = map f (ns @ [d]) \<and> subseq ns ms"
proof -
  let ?msgs = "map f (ms @ [d])"
  have cur: "position (\<lambda>m. inj_id m = current) ?msgs = Some (length ms)"
    using position_last [of "map f ms" "\<lambda>m. inj_id m = current" "f d" "[]"] assms by simp
  define ks where "ks = map (\<lambda>i. Some (length ms) = Some i \<or> (case rposition (\<lambda>m. inj_role m = str ''user'') (take (length ms) ?msgs) of
      Some u \<Rightarrow> u \<le> i \<and> i < length ms | None \<Rightarrow> False)) [0..<length ?msgs]"
  have ks: "length ks = Suc (length ms)" "ks ! length ms"
    by (simp_all add: ks_def del: upt_Suc)
  obtain b where win: "select_window ?msgs current extra = map fst (filter snd (zip ?msgs (rev (spend (rev ks) b))))"
    unfolding select_window_def cur Let_def option.case ks_def by blast
  let ?ls = "rev (spend (rev ks) b)"
  have "spend (rev ks) b ! 0" by (rule spend_keeps) (use ks in \<open>simp_all add: rev_nth\<close>)
  then have "?ls ! length ms" using ks by (simp add: rev_nth)
  then have "map fst (filter snd (zip (ms @ [d]) ?ls)) = map fst (filter snd (zip ms (butlast ?ls))) @ [d]"
    by (intro flags_snoc) (simp_all add: ks)
  then show ?thesis using win subseq_flags unfolding map_flags by metis
qed

text \<open>Two rows the cancellation keeps have different texts, unless they are blank.\<close>

lemma echo_distinct:
  assumes "distinct (map inj_id msgs)"
  shows "distinct (filter (\<lambda>t. trim t \<noteq> []) (map inj_text (filter (echo_kept msgs current) msgs)))"
proof -
  have unique: "x = y" if "x \<in> set msgs" "y \<in> set msgs" "echo_kept msgs current x" "echo_kept msgs current y"
      "trim (inj_text x) \<noteq> []" "inj_text x = inj_text y" for x y
  proof (rule ccontr)
    assume "x \<noteq> y"
    have "{x, y} \<subseteq> set (filter (\<lambda>m. inj_text m = inj_text x) msgs)" using that by auto
    then have "card {x, y} \<le> length (filter (\<lambda>m. inj_text m = inj_text x) msgs)"
      by (meson List.finite_set card_length card_mono le_trans)
    then have "\<not> occurrences msgs (inj_text x) < 2" using \<open>x \<noteq> y\<close> that(5) by (simp add: occurrences_def)
    then have "inj_id x = inj_id y" using that by (auto simp: echo_kept_def)
    then show False using \<open>x \<noteq> y\<close> that(1,2) assms by (auto simp: distinct_map dest: inj_onD)
  qed
  have "distinct msgs" using assms by (simp add: distinct_map)
  then show ?thesis
    unfolding filter_map comp_def distinct_map using unique by (auto intro!: inj_onI)
qed

lemma echo_keeps_current:
  assumes "distinct (map (inj_id \<circ> f) (ms @ [d]))" and "inj_id (f d) = current"
  shows "\<exists>ns. apply_echo_cancellation (map f (ms @ [d])) current disabled = map f (ns @ [d]) \<and> subseq ns ms
    \<and> (\<not> disabled \<longrightarrow> distinct (filter (\<lambda>t. trim t \<noteq> []) (map (inj_text \<circ> f) (ns @ [d]))))"
proof (cases disabled)
  case True then show ?thesis by (auto simp: apply_echo_cancellation_def)
next
  case False
  let ?msgs = "map f (ms @ [d])" and ?keep = "echo_kept (map f (ms @ [d])) current"
  let ?ns = "filter (?keep \<circ> f) ms"
  have "apply_echo_cancellation ?msgs current disabled = map f (?ns @ [d])"
    using False assms(2) by (simp add: apply_echo_cancellation_def cancel_echo_def filter_map echo_kept_def Let_def)
  moreover have "filter ?keep ?msgs = map f (?ns @ [d])" using assms(2) by (simp add: filter_map echo_kept_def)
  then have "distinct (filter (\<lambda>t. trim t \<noteq> []) (map inj_text (map f (?ns @ [d]))))"
    using echo_distinct [of ?msgs current] assms(1) by simp
  ultimately show ?thesis by (intro exI [of _ ?ns]) (simp add: subseq_filter_left)
qed


lemma set_chronological [simp]: "set (chronological rows) = set rows"
  by (simp add: chronological_def)

lemma distinct_chronological [simp]: "distinct (map hr_id (chronological rows)) = distinct (map hr_id rows)"
  by (simp add: chronological_def distinct_map)

lemma chronological_ends:
  assumes "distinct (map hr_id rows)" and "d \<in> set rows" and "\<forall>m \<in> set rows. \<not> row_before d m"
  shows "\<exists>ms. chronological rows = ms @ [d]"
proof -
  let ?zs = "chronological rows"
  have "?zs \<noteq> []" using assms(2) by (metis empty_iff list.set(1) set_chronological)
  then obtain ys y where zs: "?zs = ys @ [y]" by (cases ?zs rule: rev_cases) auto
  have y: "y \<in> set rows" using set_chronological [of rows] zs by auto
  have "sorted (map hr_sent_at ?zs)" by (simp add: chronological_def)
  then have "hr_sent_at d \<le> hr_sent_at y"
    using assms(2) set_chronological [of rows] zs by (auto simp: sorted_append)
  with assms(3) y have same: "hr_sent_at y = hr_sent_at d" and "\<not> hr_id d < hr_id y" by (auto simp: row_before_def)
  let ?ties = "filter (\<lambda>m. hr_sent_at m = hr_sent_at d)"
  have ties: "?ties ?zs = ?ties (sort_key hr_id rows)" by (simp add: chronological_def sort_key_stable)
  have "sorted (map hr_id (?ties (sort_key hr_id rows)))" by (simp add: sorted_filter)
  then have "sorted (map hr_id (?ties ys @ [y]))" unfolding ties [symmetric] zs by (simp add: same)
  moreover have "d \<in> set (?ties ys @ [y])"
    using assms(2) set_chronological [of rows] unfolding zs by auto
  ultimately have "hr_id d \<le> hr_id y" by (auto simp: sorted_append)
  with \<open>\<not> hr_id d < hr_id y\<close> have "hr_id d = hr_id y" by simp
  then have "d = y" using assms(1,2) y by (auto simp: distinct_map dest: inj_onD)
  then show ?thesis using zs by blast
qed

lemma newest_last: "newest_rows (Suc n) (xs @ [x]) = newest_rows n xs @ [x]"
  by (simp add: newest_rows_def)

lemma length_newest: "length (newest_rows n xs) \<le> n"
  by (simp add: newest_rows_def)

lemma subseq_newest: "subseq (newest_rows n xs) xs"
  unfolding newest_rows_def by (rule suffix_imp_subseq) (rule suffix_drop)

text \<open>The rows of a session up to a turn, as the model may read them.\<close>

definition turn_rows :: "history_row list \<Rightarrow> uuid \<Rightarrow> history_row \<Rightarrow> history_row list" where
  "turn_rows rows session d = chronological (filter (\<lambda>m. hr_session m = session \<and> \<not> row_before d m) rows)"

definition shown_message :: "reply_env \<Rightarrow> history_row \<Rightarrow> Llm_Chain.chat_message" where
  "shown_message env m = Llm_Chain.chat_message.make (hr_role m)
     (inj_text (as_injected (\<not> re_noise_disabled env) m))"

lemma history_ends:
  assumes "distinct (map hr_id rows)" and "d \<in> set rows" and "hr_session d = session"
  shows "\<exists>ms. history_up_to rows session (hr_id d) (Suc n) = ms @ [d] \<and> subseq (ms @ [d]) (turn_rows rows session d) \<and> length ms \<le> n"
proof -
  have find: "anchor_row rows session (hr_id d) = Some d"
  proof -
    have "List.find (\<lambda>m. hr_id m = hr_id d \<and> hr_session m = session) rows \<noteq> None"
      using assms(2,3) by (auto simp: find_None_iff)
    then obtain m where m: "anchor_row rows session (hr_id d) = Some m" by (auto simp: anchor_row_def)
    then have "m \<in> set rows" and "hr_id m = hr_id d" by (auto simp: anchor_row_def dest: find_SomeD)
    then have "m = d" using assms(1,2) by (auto simp: distinct_map dest: inj_onD)
    then show ?thesis using m by simp
  qed
  have "\<exists>ms. turn_rows rows session d = ms @ [d]"
    unfolding turn_rows_def
  proof (rule chronological_ends)
    show "distinct (map hr_id (filter (\<lambda>m. hr_session m = session \<and> \<not> row_before d m) rows))"
      using assms(1) by (simp add: distinct_map_filter)
  qed (use assms in \<open>auto simp: row_before_def\<close>)
  then obtain ms where ms: "turn_rows rows session d = ms @ [d]" by blast
  have "history_up_to rows session (hr_id d) (Suc n) = newest_rows n ms @ [d]"
    unfolding history_up_to_def find option.case turn_rows_def [symmetric] ms by (rule newest_last)
  moreover have "subseq (newest_rows n ms @ [d]) (turn_rows rows session d)"
    unfolding ms by (rule list_emb_append_mono [OF subseq_newest]) simp
  ultimately show ?thesis using length_newest by blast
qed


lemma subseq_subset: "subseq xs ys \<Longrightarrow> set xs \<subseteq> set ys"
  by (induction rule: list_emb.induct) auto

lemma subseq_distinct: "subseq xs ys \<Longrightarrow> distinct ys \<Longrightarrow> distinct xs"
  by (induction rule: list_emb.induct) (auto dest: subseq_subset)

lemma injected_ends:
  assumes "distinct (map hr_id (ms @ [d]))" and "hr_role d = str ''user''" and "hr_channel d = None"
  shows "\<exists>ns. injected_history env (hr_id d) None character (ms @ [d]) = map (as_injected (\<not> re_noise_disabled env)) (ns @ [d])
    \<and> subseq ns (filter (seen_by_model (\<not> re_noise_disabled env)) ms)
    \<and> (\<not> re_echo_disabled env \<longrightarrow> distinct (filter (\<lambda>t. trim t \<noteq> [])
        (map (inj_text \<circ> as_injected (\<not> re_noise_disabled env)) (ns @ [d]))))"
proof -
  let ?strip = "\<not> re_noise_disabled env" let ?f = "as_injected ?strip"
  let ?seen = "filter (seen_by_model ?strip) ms"
  let ?window = "if re_noise_disabled env then model_facing_history (ms @ [d]) False
    else select_window (model_facing_history (ms @ [d]) True) (hr_id d) (window_extra (filled_field_count character))"
  have "seen_by_model strip d" for strip using assms(2,3) by (simp add: seen_by_model_def)
  then have faced: "model_facing_history (ms @ [d]) ?strip = map ?f (?seen @ [d])" by (simp add: faced_rows)
  have other: "\<forall>m \<in> set ?seen. inj_id (?f m) \<noteq> hr_id d"
    using assms(1) by (auto simp: image_iff)
  have "\<exists>ns. ?window = map ?f (ns @ [d]) \<and> subseq ns ?seen"
  proof (cases "re_noise_disabled env")
    case True then show ?thesis using faced by auto
  next
    case False then show ?thesis using faced window_keeps_current [OF other, of d] by simp
  qed
  then obtain ws where ws: "?window = map ?f (ws @ [d])" "subseq ws ?seen" by blast
  have "subseq ws ms" by (rule subseq_order.trans [OF ws(2) subseq_filter_left])
  then have "subseq (map hr_id (ws @ [d])) (map hr_id (ms @ [d]))" by (intro subseq_map list_emb_append_mono) simp_all
  from subseq_distinct [OF this assms(1)] have unique: "distinct (map (inj_id \<circ> ?f) (ws @ [d]))"
    by (simp add: comp_def)
  obtain ns where ns: "apply_echo_cancellation (map ?f (ws @ [d])) (hr_id d) (re_echo_disabled env) = map ?f (ns @ [d])"
      "subseq ns ws" "\<not> re_echo_disabled env \<longrightarrow> distinct (filter (\<lambda>t. trim t \<noteq> []) (map (inj_text \<circ> ?f) (ns @ [d])))"
    using echo_keeps_current [OF unique, of "hr_id d" "re_echo_disabled env"] by auto
  have "injected_history env (hr_id d) None character (ms @ [d]) = map ?f (ns @ [d])"
    by (simp only: injected_history_def option.case ws(1) ns(1))
  then show ?thesis using subseq_order.trans [OF ns(2) ws(2)] ns(3) by blast
qed

text \<open>C13: The request of a one-to-one turn: built whenever the history is read, it holds the system prompt, at most nineteen
  earlier messages and, last, the turn's own message as the model reads it. The earlier ones are user and assistant rows of
  this session alone, none of a side channel and none sent after the turn's row, in the order they were said; and unless the
  cancellation is off, no two messages of the request say the same, the turn's own included.\<close>

theorem reply_request_carries_turn:
  assumes "re_rows env = Some rows" and "distinct (map hr_id rows)" and "d \<in> set rows" and "hr_session d = session"
    and "hr_role d = str ''user''" and "hr_channel d = None"
  shows "\<exists>req tags cfg sys ms. build_reply_request_with env inp plan session (hr_id d) render_reactions None = Some (req, tags, cfg)
    \<and> req_messages req = Llm_Chain.chat_message.make (str ''system'') sys # map (shown_message env) (ms @ [d])
    \<and> subseq (ms @ [d]) (turn_rows rows session d) \<and> length ms < HISTORY_WINDOW
    \<and> (\<forall>m \<in> set ms. hr_channel m = None \<and> hr_role m \<in> {str ''user'', str ''assistant''})
    \<and> (\<not> re_echo_disabled env \<longrightarrow> distinct (filter (\<lambda>t. trim t \<noteq> []) (map (inj_text \<circ> as_injected (\<not> re_noise_disabled env)) (ms @ [d]))))
    \<and> shown_message env d = Llm_Chain.chat_message.make (str ''user'') (model_facing_user_text d)"
proof -
  let ?strip = "\<not> re_noise_disabled env" let ?f = "as_injected ?strip"
  obtain ms where ms: "history_up_to rows session (hr_id d) HISTORY_WINDOW = ms @ [d]"
      "subseq (ms @ [d]) (turn_rows rows session d)" "length ms \<le> 19"
    using history_ends [OF assms(2-4), of 19] by (auto simp: HISTORY_WINDOW_def)
  have rows: "turn_history env session (hr_id d) None = Some (ms @ [d])"
    by (simp add: turn_history_def assms(1) ms(1) Let_def)
  have "distinct (map hr_id (turn_rows rows session d))"
    using assms(2) by (simp add: turn_rows_def distinct_map_filter)
  then have unique: "distinct (map hr_id (ms @ [d]))"
    using subseq_distinct [OF subseq_map [OF ms(2), of hr_id]] by blast
  let ?character = "case re_characters env of Some c \<Rightarrow> c | None \<Rightarrow> None"
  obtain ns where ns: "injected_history env (hr_id d) None ?character (ms @ [d]) = map ?f (ns @ [d])"
      "subseq ns (filter (seen_by_model ?strip) ms)"
      "\<not> re_echo_disabled env \<longrightarrow> distinct (filter (\<lambda>t. trim t \<noteq> []) (map (inj_text \<circ> ?f) (ns @ [d])))"
    using injected_ends [OF unique assms(5,6), of env ?character] by blast
  obtain req tags cfg where built: "build_reply_request_with env inp plan session (hr_id d) render_reactions None = Some (req, tags, cfg)"
      and messages: "tl (req_messages req) = map (shown_message env) (ns @ [d])"
      "hd (req_messages req) = Llm_Chain.chat_message.make (str ''system'') (cm_content (hd (req_messages req)))"
      "req_messages req \<noteq> []"
    unfolding build_reply_request_with_def rows option.map ns(1) Let_def case_prod_beta
    by (simp add: assemble_chat_request_def shown_message_def comp_def Llm_Chain.chat_message.defs)
  have sub: "subseq ns ms" by (rule subseq_order.trans [OF ns(2) subseq_filter_left])
  have "subseq (ns @ [d]) (turn_rows rows session d)"
    by (rule subseq_order.trans [OF list_emb_append_mono [OF sub] ms(2)]) simp
  moreover have "length ns < HISTORY_WINDOW" using list_emb_length [OF sub] ms(3) by (simp add: HISTORY_WINDOW_def)
  moreover have "\<forall>m \<in> set ns. hr_channel m = None \<and> hr_role m \<in> {str ''user'', str ''assistant''}"
    using subseq_subset [OF ns(2)] by (auto simp: seen_by_model_def simp del: str_simps)
  moreover have "shown_message env d = Llm_Chain.chat_message.make (str ''user'') (model_facing_user_text d)"
    using assms(5) by (simp add: shown_message_def as_injected_def)
  moreover have "req_messages req = Llm_Chain.chat_message.make (str ''system'') (cm_content (hd (req_messages req)))
      # map (shown_message env) (ns @ [d])"
    using messages by (metis list.collapse)
  ultimately show ?thesis using built ns(3) by blast
qed


definition wit_said :: "uuid \<Rightarrow> rstr \<Rightarrow> rstr \<Rightarrow> history_row" where
  "wit_said i role content = \<lparr>hr_id = i, hr_session = 1, hr_role = role, hr_content = content, hr_sent_at = int i,
     hr_user_message_id = None, hr_channel = None, hr_pre_filter_content = None, hr_metadata = None, hr_speaker_session_id = None\<rparr>"

definition wit_reply_env :: reply_env where
  "wit_reply_env = \<lparr>re_rows = Some [wit_said 3 (str ''user'') [104, 105], wit_said 2 (str ''assistant'') [121, 111], wit_said 1 (str ''user'') [104, 105]],
     re_newest = None, re_memory = \<lparr>ms_embed = (\<lambda>_. Some []), ms_grouped = (\<lambda>_ _. Some []), ms_raw = (\<lambda>_ _. Some []), ms_relationship = (\<lambda>_ _. None)\<rparr>,
     re_insights = Some None, re_characters = None, re_lower = (\<lambda>c. [c]), re_config = two_model_config, re_draw = (\<lambda>w. w),
     re_reactions = None, re_prompt = (\<lambda>_ _ parts. concat (pp_relationship_facts parts)), re_noise_disabled = False, re_echo_disabled = False\<rparr>"

theorem reply_request_carries_turn_witness:
  "\<exists>req tags cfg. build_reply_request_with wit_reply_env (sample_input ProactiveTrigger) (reply_plan (sample_input ProactiveTrigger) None) 1 3 True None
      = Some (req, tags, cfg) \<and> last (req_messages req) = Llm_Chain.chat_message.make (str ''user'') [104, 105]"
proof -
  let ?d = "wit_said 3 (str ''user'') [104, 105]"
  have d: "hr_id ?d = 3" "model_facing_user_text ?d = [104, 105]"
    by (simp_all add: wit_said_def model_facing_user_text_def meta_field_def action_from_metadata_def effective_user_text_def user_text_with_action_def
        Let_def or_else_def)
  show ?thesis
    using reply_request_carries_turn [of wit_reply_env "[?d, wit_said 2 (str ''assistant'') [121, 111], wit_said 1 (str ''user'') [104, 105]]" ?d 1
        "sample_input ProactiveTrigger" "reply_plan (sample_input ProactiveTrigger) None" True]
    unfolding d by (auto simp: wit_reply_env_def wit_said_def)
qed


section \<open>No memory twice\<close>

lemma kept_items:
  "retain_items lower xs kept = (ys, kept') \<Longrightarrow> distinct kept \<Longrightarrow>
    kept' = kept @ map (memory_normalize lower) ys \<and> distinct kept' \<and> subseq ys xs
    \<and> set kept' = set kept \<union> (memory_normalize lower ` set xs - {[]})"
proof (induction xs arbitrary: kept ys kept')
  case (Cons x xs)
  obtain keep kept1 where step: "keep_item lower x kept = (keep, kept1)" by fastforce
  obtain zs where rest: "retain_items lower xs kept1 = (zs, kept')" and ys: "ys = (if keep then x # zs else zs)"
    using Cons.prems(1) step by (auto split: prod.splits)
  have facts: "distinct kept1" "kept1 = kept @ (if keep then [memory_normalize lower x] else [])"
    "set kept1 = set kept \<union> ({memory_normalize lower x} - {[]})"
    using step Cons.prems(2) by (auto simp: keep_item_def Let_def split: if_splits)
  note later = Cons.IH [OF rest facts(1)]
  have "set kept' = set kept \<union> (memory_normalize lower ` set (x # xs) - {[]})"
  proof -
    have "set kept' = set kept1 \<union> (memory_normalize lower ` set xs - {[]})" using later by blast
    then show ?thesis unfolding facts(3) by auto
  qed
  moreover have "kept' = kept @ map (memory_normalize lower) ys" "subseq ys (x # xs)"
    using later facts(2) ys by (auto split: if_splits)
  ultimately show ?case using later by blast
qed simp

lemma kept_groups:
  "retain_groups lower gs kept = (hs, kept') \<Longrightarrow> distinct kept \<Longrightarrow>
    kept' = kept @ map (memory_normalize lower) (concat (map snd hs)) \<and> distinct kept'
    \<and> list_all2 (\<lambda>h g. fst h = fst g \<and> subseq (snd h) (snd g)) hs gs
    \<and> set kept' = set kept \<union> (memory_normalize lower ` set (concat (map snd gs)) - {[]})"
proof (induction gs arbitrary: kept hs kept')
  case (Cons g gs)
  obtain items kept1 where step: "retain_items lower (snd g) kept = (items, kept1)" by fastforce
  obtain rest where rest: "retain_groups lower gs kept1 = (rest, kept')" and hs: "hs = (fst g, items) # rest"
    using Cons.prems(1) step by (cases g) (auto split: prod.splits)
  note now = kept_items [OF step Cons.prems(2)]
  note later = Cons.IH [OF rest conjunct1 [OF conjunct2 [OF now]]]
  have "set kept' = set kept \<union> (memory_normalize lower ` set (concat (map snd (g # gs))) - {[]})"
  proof -
    have "set kept' = set kept1 \<union> (memory_normalize lower ` set (concat (map snd gs)) - {[]})"
      by (rule later [THEN conjunct2, THEN conjunct2, THEN conjunct2])
    moreover have "set kept1 = set kept \<union> (memory_normalize lower ` set (snd g) - {[]})"
      by (rule now [THEN conjunct2, THEN conjunct2, THEN conjunct2])
    ultimately show ?thesis by (simp add: image_Un Un_Diff Un_assoc)
  qed
  moreover have "kept' = kept @ map (memory_normalize lower) (concat (map snd hs))"
  proof -
    have "kept' = kept1 @ map (memory_normalize lower) (concat (map snd rest))"
      and "kept1 = kept @ map (memory_normalize lower) items" using later now by blast+
    then show ?thesis by (simp only: hs list.map concat.simps snd_conv map_append append_assoc)
  qed
  moreover have "list_all2 (\<lambda>h g. fst h = fst g \<and> subseq (snd h) (snd g)) hs (g # gs)"
  proof -
    have "list_all2 (\<lambda>h g. fst h = fst g \<and> subseq (snd h) (snd g)) rest gs" and "subseq items (snd g)" using later now by blast+
    then show ?thesis by (simp only: hs list.rel_inject fst_conv snd_conv simp_thms)
  qed
  ultimately show ?case using later by blast
qed simp

text \<open>Of the recalled lines each is shown once: two lines that remain differ by more than their label, case and blanks,
  none is blank, and no line is lost but to one that says the same. The groups keep their labels and order, and what both
  the profile and the relationship remember stays in the profile.\<close>

theorem recalled_lines_once:
  "\<exists>hs fs. prune_recalled lower gs facts = (hs, fs)
    \<and> distinct (map (memory_normalize lower) (concat (map snd hs) @ fs))
    \<and> memory_normalize lower ` set (concat (map snd hs)) = (memory_normalize lower ` set (concat (map snd gs)) - {[]})
    \<and> memory_normalize lower ` set fs = (memory_normalize lower ` set facts - {[]}) - memory_normalize lower ` set (concat (map snd hs))
    \<and> list_all2 (\<lambda>h g. fst h = fst g \<and> subseq (snd h) (snd g)) hs gs \<and> subseq fs facts"
proof -
  obtain hs kept where groups: "retain_groups lower gs [] = (hs, kept)" by fastforce
  obtain fs kept' where items: "retain_items lower facts kept = (fs, kept')" by fastforce
  note g = kept_groups [OF groups distinct.simps(1) [THEN iffD2, OF TrueI]]
  have kept: "kept = map (memory_normalize lower) (concat (map snd hs))" "distinct kept" and labels:
      "list_all2 (\<lambda>h g. fst h = fst g \<and> subseq (snd h) (snd g)) hs gs"
    using g by auto
  have told: "set kept = memory_normalize lower ` set (concat (map snd gs)) - {[]}" using g by (metis Un_empty_left list.set(1))
  note f = kept_items [OF items kept(2)]
  have kept': "kept' = kept @ map (memory_normalize lower) fs" "distinct kept'" "subseq fs facts" using f by blast+
  have "set kept \<union> memory_normalize lower ` set fs = set kept \<union> (memory_normalize lower ` set facts - {[]})"
    using f by (metis set_append set_map)
  moreover have "memory_normalize lower ` set fs \<inter> set kept = {}" using kept'(1,2) by auto
  ultimately have "memory_normalize lower ` set fs = (memory_normalize lower ` set facts - {[]}) - set kept" by blast
  moreover have "distinct (map (memory_normalize lower) (concat (map snd hs) @ fs))"
    using kept'(1,2) unfolding kept(1) by simp
  moreover have "set kept = memory_normalize lower ` set (concat (map snd hs))" unfolding kept(1) by (rule set_map)
  moreover have "prune_recalled lower gs facts = (hs, fs)" by (simp add: prune_recalled_def groups items)
  ultimately show ?thesis using told labels kept'(3) by (intro exI [of _ hs] exI [of _ fs]) simp
qed

end
