(* ===== verification/Spec2Isabelle.thy ===== *)
theory Spec2Isabelle
  imports Affinity_Props Life_Events_Laws Pde Effects Group_Chat Chat_Queue_Props Scan_Arc Stream_Scrub
    Llm_Chain_Laws Model_Tasks Side_Calls_Laws Chat_Turn_Props Replay_Laws Replay_Props Journal_Moments Byok_Laws
    Group_Turn_Laws Reply_Request_Laws
begin

text \<open>
  eros-engine is a companion-chat engine in four Rust crates. \<open>eros-engine-core\<close> decides (a pure
  library: how a relationship moves, when the persona stays silent, what life event it meets, what it
  plans to do with a user event); \<open>eros-engine-llm\<close> calls the models (configuration, request rules, the
  chain of candidate models, errors, cleaning of replies); \<open>eros-engine-store\<close> holds the rows in
  PostgreSQL; \<open>eros-engine-server\<close> ties them together behind HTTP. A user message is written and
  queued by the store, claimed by a worker of the server, judged by a model, planned by the core within what
  the request and the deployment allow, answered through the model crate, and settled; in the background a scanner reads the chat of every relationship in
  bounded stretches, extracts journal entries and episodes with a model, and rewrites the
  relationship's arc.

  The development models those parts as executable definitions and proves what makes each
  correct. Names follow the source; a definition translates the lines the manifest gives for it.
\<close>

section \<open>Theories and sources\<close>

text \<open>
  Foundations. \<open>Prelude\<close>: collections of simplification rules, the locale \<open>codec\<close> of names that print and
  read back, and the locale \<open>guarded_system\<close> for invariants of reachable states. \<open>Rust_Float\<close>: binary64 as
  rationals with round to nearest, ties to even (locale \<open>rounding\<close>), and the error bounds the relationship
  model needs. \<open>Rust_Text\<close>: strings as lists of Unicode scalar values, trimming, splitting, character counts.
  \<open>Rust_Json\<close>: JSON values and how derived decoders read struct fields.

  Core crate. \<open>Affinity\<close>, \<open>Affinity_Laws\<close>, \<open>Affinity_Grade\<close>, \<open>Affinity_Props\<close>: \<open>core/src/affinity.rs\<close>, the
  stored row with its six axes and its endpoints, grading, committing, decay, tiers and labels.
  \<open>Scope\<close>: \<open>scope.rs\<close>. \<open>Core_Types\<close>: \<open>types.rs\<close> and \<open>persona.rs\<close>. \<open>Needs\<close>: \<open>needs.rs\<close>. \<open>Ghost\<close>: \<open>ghost.rs\<close>.
  \<open>Effects\<close>: \<open>effects.rs\<close>. \<open>Pde\<close>: \<open>pde.rs\<close>. \<open>Group_Chat\<close>: \<open>group.rs\<close>. \<open>Life_Events\<close>, \<open>Life_Events_Laws\<close>:
  \<open>events.rs\<close>.

  Store and worker of asynchronous turns. \<open>Tuning_Config\<close>: the environment settings of
  \<open>server/src/state.rs\<close>. \<open>Chat_Store\<close>: every statement of \<open>store/src/chat_queue.rs\<close> over the tables of
  messages, sessions and queue rows. \<open>Chat_Worker\<close>: \<open>server/src/pipeline/chat_queue.rs\<close>. \<open>Chat_Queue_Laws\<close>,
  \<open>Chat_Queue_Safe\<close>, \<open>Chat_Queue_Props\<close>: a step relation of requests, drives, deaths and reapers over
  those operations, its invariant and the properties.

  Relationship rows. \<open>Affinity_Store\<close>: \<open>store/src/affinity.rs\<close>, the rows, the event log and the label
  moments of the journal, with the streak reset of \<open>pipeline/stream.rs\<close>; every write is the statement sequence of its
  transaction. \<open>Affinity_Store_Laws\<close>: the step relation over those writes and what the log accounts for.
  \<open>Journal_Moments\<close>: \<open>store/src/journal.rs\<close>, the moments a stored action leaves, and what label moves do to
  the journal.

  Scanner. \<open>Scan_State\<close>, \<open>Scan_Laws\<close>: \<open>store/src/scan_state.rs\<close>, the cursors, counters and claims of one
  relationship. \<open>Scan_Read\<close>: which rows a live scan and a backfill read. \<open>Scan_Parse\<close>: what is made of
  the model's replies. \<open>Scan_Run\<close>, \<open>Scan_Run_Laws\<close>: one scan with its guarded writes. \<open>Scan_Arc\<close>: the arc
  rewrite.

  Model crate. \<open>Stream_Scrub\<close>: \<open>stream_scrub.rs\<close> and the rules of \<open>apply_output_regex\<close> (locale \<open>streaming\<close>,
  what a transform promises of every cut into chunks). \<open>Clean_Text\<close>: \<open>clean_response\<close> and
  \<open>stream_clean.rs\<close>. \<open>Llm_Error\<close>: \<open>error.rs\<close>, \<open>failure.rs\<close> and the error bodies of \<open>openrouter.rs\<close>.
  \<open>Provider_Slug\<close>: \<open>provider.rs\<close>. \<open>Llm_Chain\<close>, \<open>Llm_Chain_Laws\<close>: the calls of \<open>openrouter.rs\<close> and
  \<open>byte_bpe.rs\<close> (locale \<open>candidate_chain\<close>). \<open>Model_Select\<close>, \<open>Model_Select_Laws\<close>, \<open>Model_Tasks\<close>:
  \<open>model_config.rs\<close>.

  Caller's own keys. \<open>Byok_Guard\<close>, \<open>Byok_Guard_Laws\<close>: \<open>llm/src/byok.rs\<close>, the address guard on words, the bounds of a
  body, the redactor. \<open>Stream_Call\<close>: \<open>execute_stream_as\<close> of \<open>openrouter.rs\<close>, the streaming call of every hop.
  \<open>Byok_Turn\<close>, \<open>Byok_Laws\<close>: \<open>server/src/byok.rs\<close>, admission, validation and the prepared turn.

  Chat turn (\<open>server/src/pipeline/stream.rs\<close> where nothing else is named). \<open>Stream_Frames\<close>: the frames of
  the protocol, the pictures among them, and what a failure shows of itself. \<open>Filter_Stream\<close>,
  \<open>Filter_Laws\<close>: the output filter, its validity gate, one streamed attempt and the chain.
  \<open>Chat_Burst\<close>, \<open>Chat_Burst_Laws\<close>, \<open>Chat_Burst_Props\<close>: \<open>drive_chat_burst_for\<close>, the walk of the reply
  chain in live and filtered mode, with the hops of \<open>server/src/byok.rs\<close>. \<open>Judge\<close>:
  \<open>pipeline/reasoning_call.rs\<close>. \<open>Turn_Plan\<close>, \<open>Turn_Plan_Laws\<close>: the verdict of the judge, its guards and
  the plan of the turn. \<open>Side_Calls\<close>, \<open>Side_Calls_Laws\<close>: the picture description, the input filter and
  the image composer. \<open>Turn_Acts\<close>: the persona settings and dice of \<open>prompt.rs\<close>, the signals of
  \<open>pipeline/mod.rs\<close>, the request of the judge, and the acts a turn is a log of. \<open>Product_Qa\<close>: the product
  answer. \<open>Chat_Turn\<close>, \<open>Chat_Turn_Laws\<close>, \<open>Chat_Turn_Props\<close>: \<open>run_stream_with\<close>, the whole turn. \<open>Replay\<close>,
  \<open>Replay_Laws\<close>, \<open>Replay_Props\<close>: \<open>replay_stream\<close> over the rows a turn stored.

  Group turn. \<open>Group_Turn\<close>: \<open>run_group_turn\<close> of \<open>pipeline/group.rs\<close> and the director of
  \<open>pipeline/group_director.rs\<close>, one list of acts per speaker over the same burst. \<open>Group_Turn_Laws\<close>: its cast, how
  each part ends, and what a member is shown of the others.

  Request of a reply. \<open>Prompt_Text\<close>: the action, effect, need, reaction and recall texts of \<open>prompt.rs\<close>.
  \<open>Model_History\<close>: the history reads of \<open>store/src/chat.rs\<close>, the rows as the model reads them, \<open>repetition.rs\<close> and
  \<open>history_window.rs\<close>. \<open>Reply_Request\<close>: recall, the gate, the profile bullets, \<open>memory_hygiene.rs\<close> and
  \<open>build_reply_request_with\<close> of \<open>pipeline/handlers.rs\<close>. \<open>Reply_Request_Laws\<close>: what the request withholds, what it
  carries, the window, and that no recalled line stands twice.
\<close>

section \<open>What the lemmas show\<close>

text \<open>
  Each \<open>_Laws\<close> theory proves per operation what the \<open>_Props\<close> theories and the properties put together. For
  the relationship: rounding errors are bounded and never carry an axis across a bound, so ranges,
  labels and single-tier drops hold in binary64 and not only over the reals. For its rows and log: after
  any sequence of loads, graded turns, silences, drops and resets the last event of a relationship says
  its present state but for the streak and the clock, which the unlogged reset moves. For queue and scanner: each
  statement keeps an invariant of the tables, and the invariant of \<open>guarded_system\<close> then holds over
  every interleaving. For the streams: a transform, a cleaner and a filter attempt are compared with the
  whole-text function they stream. For the chains: the recursive walk over candidates equals a
  description by the first candidate of a kind. For the turn: a monitor reads the log of acts
  (\<open>frame_phase\<close> over frames, \<open>act_phase\<close> over acts); every arm is shown to drive it to its end, from
  which order, single settlement and the replay follow. For the request: it is compared with the request built
  after everything the recall gate withholds has been erased, and each step from the stored rows to the messages
  is a subsequence that keeps the turn's own row last.

  Nothing runs on fuel: walks are structural over the chain of candidates and the finite list of
  chunks each one streams, loops over rows over the list read. A stream that stalls is one whose timeout
  fires, which the code turns into a failure, so a finite list of items with a deadline flag is
  every run of it; that the timer fires is an assumption on the runtime.
\<close>

section \<open>Not modelled\<close>

text \<open>
  Values. binary64 has no NaN and no infinities (every stored axis is finite and every operation of the
  engine keeps it so); the narrowing of a temperature to binary32 in a request is left out; objects of
  JSON keep their first field of a name. Counters of the database do not overflow. Identifiers are
  numbers, minted in order; their printed forms, base64 and random draws are parameters.

  Database. Statements are functions on tables, run one at a time, as the row locks and single
  statements of the code make them; isolation anomalies inside one transaction are not considered. A write
  that the code only logs the failure of is taken to succeed unless a parameter says otherwise.
  Foreign-key cascades (archive and erasure) are the database's own.

  Text. The wording of prompts is a parameter: what the judge, the composer and the scanner are told, and the system
  prompt of a reply as a function of the turn and of the recalled parts it is given. So are the regular-expression engine and the
  classification of a pattern, lower-casing tables, JSON parsing of a string, TOML, dates and time zones.

  Transport. HTTP and SSE clients and servers, authentication, the connection pool, process start.
  What a model streams is a parameter of every definition that calls one, and the theorems hold for all of
  its values. The tasks a turn spawns (audits, post-processing) stand in the log where they are
  started, and the composer that runs beside the reply where it is joined; aborting it leaves no act.

  Around the turn. The voice turn mirrors the arms modelled here over an audio transport. The jobs after a turn, the
  stories and worlds, proactive contact and its schedules, the stores of memories, insights and personas and the membership
  rows of a group are statements and model calls around the modelled operations, with no state machine of their own that
  the modelled parts rely on; what those read from them is a parameter. The HTTP routes decode requests and check access.
\<close>

end
